(* ===== verification/Prelude.thy ===== *)
theory Prelude
  imports Main "HOL-Library.AList" "HOL-Library.Char_ord" "HOL-Library.List_Lexorder"
begin

text \<open>
  Shared vocabulary of the development: fallible computations as sums (an exception of the
  Python code is an \<open>Inl\<close>), the loop combinators the components use, dictionaries as
  association lists in insertion order, and the string helpers of the Python standard library.
  A Python \<open>str\<close> is the list of the bytes of its UTF-8 encoding, so \<open>.encode()\<close> is the
  identity, concatenation, equality, prefix tests and code-point order are those of lists, and
  \<open>py_len\<close> (number of code points) is counted separately.
\<close>

named_theorems result_simps \<open>evaluation of fallible computations\<close>
named_theorems dict_simps \<open>lookup and update of insertion-ordered dictionaries\<close>

section \<open>Fallible computations\<close>

definition rbind :: "'e + 'a \<Rightarrow> ('a \<Rightarrow> 'e + 'b) \<Rightarrow> 'e + 'b" where
  "rbind m f = (case m of Inl e \<Rightarrow> Inl e | Inr x \<Rightarrow> f x)"

definition ensure :: "bool \<Rightarrow> 'e \<Rightarrow> 'e + unit" where
  "ensure b e = (if b then Inr () else Inl e)"

fun traverse :: "('a \<Rightarrow> 'e + 'b) \<Rightarrow> 'a list \<Rightarrow> 'e + 'b list" where
  "traverse f [] = Inr []"
| "traverse f (x # xs) = rbind (f x) (\<lambda>y. rbind (traverse f xs) (\<lambda>ys. Inr (y # ys)))"

fun fold_res :: "('a \<Rightarrow> 's \<Rightarrow> 'e + 's) \<Rightarrow> 'a list \<Rightarrow> 's \<Rightarrow> 'e + 's" where
  "fold_res f [] s = Inr s"
| "fold_res f (x # xs) s = rbind (f x s) (fold_res f xs)"

lemma rbind_simps [simp, result_simps]:
  "rbind (Inl e) f = Inl e"
  "rbind (Inr x) f = f x"
  by (simp_all add: rbind_def)

lemma rbind_eq_Inr [result_simps]:
  "rbind m f = Inr y \<longleftrightarrow> (\<exists>x. m = Inr x \<and> f x = Inr y)"
  by (cases m) simp_all

lemma rbind_eq_Inl [result_simps]:
  "rbind m f = Inl e \<longleftrightarrow> m = Inl e \<or> (\<exists>x. m = Inr x \<and> f x = Inl e)"
  by (cases m) simp_all

lemma rbindE:
  assumes "rbind m f = Inr y"
  obtains x where "m = Inr x" "f x = Inr y"
  using assms by (auto simp: rbind_eq_Inr)

lemma rbind_assoc: "rbind (rbind m f) g = rbind m (\<lambda>x. rbind (f x) g)"
  by (cases m) simp_all

lemma ensure_simps [simp, result_simps]:
  "ensure True e = Inr ()"
  "ensure False e = Inl e"
  by (simp_all add: ensure_def)

lemma ensure_eq [simp, result_simps]:
  "ensure b e = Inr u \<longleftrightarrow> b"
  "ensure b e = Inl e' \<longleftrightarrow> \<not> b \<and> e' = e"
  by (auto simp: ensure_def)

lemma not_Inl_unit: "(\<forall>e. m \<noteq> Inl e) \<longleftrightarrow> m = Inr ()" for m :: "'e + unit"
  by (cases m) auto

lemma rbind_cong [fundef_cong]:
  "m = m' \<Longrightarrow> (\<And>x. m' = Inr x \<Longrightarrow> f x = f' x) \<Longrightarrow> rbind m f = rbind m' f'"
  by (cases m') auto

lemma traverse_Inr_iff:
  "traverse f xs = Inr ys \<longleftrightarrow> list_all2 (\<lambda>x y. f x = Inr y) xs ys"
proof (induction xs arbitrary: ys)
  case Nil
  then show ?case by auto
next
  case (Cons x xs)
  then show ?case by (cases ys) (auto simp: rbind_eq_Inr)
qed

lemma traverse_unit_iff:
  fixes f :: "'a \<Rightarrow> 'e + unit"
  shows "(\<exists>us. traverse f xs = Inr us) \<longleftrightarrow> (\<forall>x \<in> set xs. f x = Inr ())"
  by (induction xs) (auto simp: rbind_eq_Inr)

lemma traverse_cong [fundef_cong]:
  "xs = ys \<Longrightarrow> (\<And>x. x \<in> set ys \<Longrightarrow> f x = g x) \<Longrightarrow> traverse f xs = traverse g ys"
  by (induction ys arbitrary: xs) (auto intro!: rbind_cong)

lemma fold_res_append:
  "fold_res f (xs @ ys) s = rbind (fold_res f xs s) (fold_res f ys)"
proof (induction xs arbitrary: s)
  case Nil
  then show ?case by simp
next
  case (Cons x xs)
  then show ?case by (cases "f x s") simp_all
qed

lemma fold_res_invariant:
  assumes "fold_res f xs s = Inr t" "P s"
    and "\<And>x s s'. x \<in> set xs \<Longrightarrow> P s \<Longrightarrow> f x s = Inr s' \<Longrightarrow> P s'"
  shows "P t"
  using assms
proof (induction xs arbitrary: s)
  case Nil
  then show ?case by simp
next
  case (Cons x xs)
  from Cons.prems(1) obtain s' where s': "f x s = Inr s'" "fold_res f xs s' = Inr t"
    by (auto simp: rbind_eq_Inr)
  have "P s'" using Cons.prems s' by auto
  then show ?case using Cons.IH [OF s'(2)] Cons.prems(3) by auto
qed

lemma list_all2_conj: "list_all2 P xs ys \<Longrightarrow> (\<And>x y. P x y \<Longrightarrow> Q x (f y)) \<Longrightarrow> list_all2 Q xs (map f ys)"
  by (auto simp: list_all2_conv_all_nth)

lemma list_all2_set2: "list_all2 P xs ys \<Longrightarrow> y \<in> set ys \<Longrightarrow> \<exists>x \<in> set xs. P x y"
  by (auto simp: list_all2_conv_all_nth in_set_conv_nth) (metis nth_mem)

section \<open>Dictionaries in insertion order\<close>

text \<open>
  A Python \<open>dict\<close> is an association list with distinct keys. Reading is \<open>map_of\<close>;
  \<open>d[k] = v\<close> is \<open>AList.update\<close> (in place for a present key, at the end for a new one);
  \<open>d.update(e)\<close> and \<open>{**d, **e}\<close> are \<open>dict_update d e\<close>.
\<close>

definition dict_update :: "('k \<times> 'v) list \<Rightarrow> ('k \<times> 'v) list \<Rightarrow> ('k \<times> 'v) list" where
  "dict_update d e = fold (\<lambda>(k, v). AList.update k v) e d"

definition dict_keys :: "('k \<times> 'v) list \<Rightarrow> 'k list" where
  "dict_keys d = map fst d"

definition has_key :: "('k \<times> 'v) list \<Rightarrow> 'k \<Rightarrow> bool" where
  "has_key d k = (map_of d k \<noteq> None)"

lemma map_of_AList_update [simp, dict_simps]:
  "map_of (AList.update k v d) k' = (if k' = k then Some v else map_of d k')"
  by (simp add: update_conv)

lemma distinct_AList_update [simp, intro]:
  "distinct (map fst d) \<Longrightarrow> distinct (map fst (AList.update k v d))"
  by (rule distinct_update)

lemma keys_AList_update [simp]:
  "fst ` set (AList.update k v d) = insert k (fst ` set d)"
  by (induction d) auto

lemma dict_update_Nil [simp]: "dict_update d [] = d"
  by (simp add: dict_update_def)

lemma dict_update_Cons: "dict_update d ((k, v) # e) = dict_update (AList.update k v d) e"
  by (simp add: dict_update_def)

lemma distinct_dict_update:
  "distinct (map fst d) \<Longrightarrow> distinct (map fst (dict_update d e))"
  by (induction e arbitrary: d) (auto simp: dict_update_Cons)

lemma map_of_dict_update [dict_simps]:
  assumes "distinct (map fst e)"
  shows "map_of (dict_update d e) k = (case map_of e k of None \<Rightarrow> map_of d k | Some v \<Rightarrow> Some v)"
  using assms
proof (induction e arbitrary: d)
  case Nil
  then show ?case by simp
next
  case (Cons p e)
  obtain k' v' where p: "p = (k', v')" by (cases p)
  from Cons.prems have "distinct (map fst e)" by simp
  moreover have "map_of e k' = None"
    using Cons.prems by (simp add: p map_of_eq_None_iff)
  ultimately show ?case
    using Cons.IH [of "AList.update k' v' d"] by (auto simp: dict_update_Cons p split: option.splits)
qed

lemma keys_dict_update:
  "fst ` set (dict_update d e) = fst ` set d \<union> fst ` set e"
proof (induction e arbitrary: d)
  case (Cons p e)
  obtain k v where "p = (k, v)" by (cases p)
  then show ?case using Cons.IH [of "AList.update k v d"] by (simp add: dict_update_Cons)
qed simp

lemma has_key_iff: "has_key d k \<longleftrightarrow> k \<in> fst ` set d"
  unfolding has_key_def by (metis map_of_eq_None_iff)

section \<open>Strings of the Python standard library\<close>

fun split_on :: "char \<Rightarrow> string \<Rightarrow> string list" where
  "split_on c [] = [[]]"
| "split_on c (x # xs) =
     (if x = c then [] # split_on c xs
      else (case split_on c xs of [] \<Rightarrow> [[x]] | y # ys \<Rightarrow> (x # y) # ys))"

fun join_with :: "string \<Rightarrow> string list \<Rightarrow> string" where
  "join_with sep [] = []"
| "join_with sep [x] = x"
| "join_with sep (x # xs) = x @ sep @ join_with sep xs"

definition is_space :: "char \<Rightarrow> bool" where
  "is_space c = (c \<in> {CHR '' '', CHR 0x09, CHR 0x0A, CHR 0x0B, CHR 0x0C, CHR 0x0D,
                     CHR 0x1C, CHR 0x1D, CHR 0x1E, CHR 0x1F})"

text \<open>
  Strings are the bytes of their UTF-8 text, and \<open>str.strip()\<close> removes every whitespace character of Unicode: beside
  the ASCII ones two of two bytes (U+0085 and U+00A0) and those of three bytes (U+1680, U+2000 to U+200A, U+2028, U+2029,
  U+202F, U+205F and U+3000).
\<close>

definition wide2 :: "char \<Rightarrow> char \<Rightarrow> bool" where
  "wide2 a b = (a = CHR 0xC2 \<and> (b = CHR 0x85 \<or> b = CHR 0xA0))"

definition wide3 :: "char \<Rightarrow> char \<Rightarrow> char \<Rightarrow> bool" where
  "wide3 a b c =
     (a = CHR 0xE1 \<and> b = CHR 0x9A \<and> c = CHR 0x80
      \<or> a = CHR 0xE2 \<and> b = CHR 0x80 \<and> (CHR 0x80 \<le> c \<and> c \<le> CHR 0x8A \<or> c = CHR 0xA8 \<or> c = CHR 0xA9 \<or> c = CHR 0xAF)
      \<or> a = CHR 0xE2 \<and> b = CHR 0x81 \<and> c = CHR 0x9F
      \<or> a = CHR 0xE3 \<and> b = CHR 0x80 \<and> c = CHR 0x80)"

declare wide2_def [simp] wide3_def [simp]

fun drop_spaces :: "(char \<Rightarrow> char \<Rightarrow> bool) \<Rightarrow> (char \<Rightarrow> char \<Rightarrow> char \<Rightarrow> bool) \<Rightarrow> string \<Rightarrow> string" where
  "drop_spaces two three [] = []"
| "drop_spaces two three [a] = (if is_space a then [] else [a])"
| "drop_spaces two three [a, b] = (if is_space a then drop_spaces two three [b] else if two a b then [] else [a, b])"
| "drop_spaces two three (a # b # c # s) =
     (if is_space a then drop_spaces two three (b # c # s)
      else if two a b then drop_spaces two three (c # s)
      else if three a b c then drop_spaces two three s
      else a # b # c # s)"

definition strip :: "string \<Rightarrow> string" where
  "strip s = rev (drop_spaces (\<lambda>a b. wide2 b a) (\<lambda>a b c. wide3 c b a) (rev (drop_spaces wide2 wide3 s)))"

definition is_upper_ascii :: "char \<Rightarrow> bool" where
  "is_upper_ascii c = (CHR ''A'' \<le> c \<and> c \<le> CHR ''Z'')"

definition is_lower_ascii :: "char \<Rightarrow> bool" where
  "is_lower_ascii c = (CHR ''a'' \<le> c \<and> c \<le> CHR ''z'')"

definition is_digit :: "char \<Rightarrow> bool" where
  "is_digit c = (CHR ''0'' \<le> c \<and> c \<le> CHR ''9'')"

definition is_alpha :: "char \<Rightarrow> bool" where
  "is_alpha c = (is_upper_ascii c \<or> is_lower_ascii c)"

definition lower_char :: "char \<Rightarrow> char" where
  "lower_char c = (if is_upper_ascii c then char_of (of_char c + 32 :: nat) else c)"

definition upper_char :: "char \<Rightarrow> char" where
  "upper_char c = (if is_lower_ascii c then char_of (of_char c - 32 :: nat) else c)"

definition lower :: "string \<Rightarrow> string" where
  "lower s = map lower_char s"

definition starts_with :: "string \<Rightarrow> string \<Rightarrow> bool" where
  "starts_with s p = (take (length p) s = p)"

fun contains_sub :: "string \<Rightarrow> string \<Rightarrow> bool" where
  "contains_sub [] p = (p = [])"
| "contains_sub (x # xs) p = (starts_with (x # xs) p \<or> contains_sub xs p)"

text \<open>Number of code points of a UTF-8 string: the bytes that are not continuation bytes.\<close>

definition is_cont_byte :: "char \<Rightarrow> bool" where
  "is_cont_byte c = (128 \<le> (of_char c :: nat) \<and> (of_char c :: nat) < 192)"

definition py_len :: "string \<Rightarrow> nat" where
  "py_len s = length (filter (\<lambda>c. \<not> is_cont_byte c) s)"

lemma length_dropWhile_less [termination_simp]: "length (dropWhile P s) < Suc (length s)"
  by (simp add: length_dropWhile_le le_imp_less_Suc)

fun utf8_chars :: "string \<Rightarrow> string list" where
  "utf8_chars [] = []"
| "utf8_chars (c # s) = (c # takeWhile is_cont_byte s) # utf8_chars (dropWhile is_cont_byte s)"

fun digits_rev :: "nat \<Rightarrow> nat list" where
  "digits_rev n = (if n < 10 then [n] else (n mod 10) # digits_rev (n div 10))"

declare digits_rev.simps [simp del]

definition digit_char :: "nat \<Rightarrow> char" where
  "digit_char d = char_of (48 + d)"

definition nat_str :: "nat \<Rightarrow> string" where
  "nat_str n = map digit_char (rev (digits_rev n))"

definition int_str :: "int \<Rightarrow> string" where
  "int_str i = (if i < 0 then CHR ''-'' # nat_str (nat (- i)) else nat_str (nat i))"

lemma split_on_nonempty [simp]: "split_on c s \<noteq> []"
  by (induction s) (auto split: list.splits)

lemma split_on_no_sep: "l \<in> set (split_on c s) \<Longrightarrow> c \<notin> set l"
  by (induction s arbitrary: l) (auto split: list.splits if_splits)

lemma starts_with_iff: "starts_with s p \<longleftrightarrow> (\<exists>r. s = p @ r)"
  unfolding starts_with_def by (metis append_eq_conv_conj append_take_drop_id)

lemma digits_rev_nonempty [simp]: "digits_rev n \<noteq> []"
  by (subst digits_rev.simps) simp

lemma digits_rev_small: "d \<in> set (digits_rev n) \<Longrightarrow> d < 10"
proof (induction n rule: digits_rev.induct)
  case (1 n)
  then show ?case by (subst (asm) (2) digits_rev.simps) (auto split: if_splits)
qed

lemma digits_rev_value: "foldr (\<lambda>d acc. d + 10 * acc) (digits_rev n) 0 = n"
proof (induction n rule: digits_rev.induct)
  case (1 n)
  show ?case
  proof (cases "n < 10")
    case True
    then show ?thesis by (subst digits_rev.simps) simp
  next
    case False
    with "1.IH" show ?thesis by (subst digits_rev.simps) simp
  qed
qed

lemma nat_str_nonempty [simp]: "nat_str n \<noteq> []"
  by (simp add: nat_str_def)

lemma digit_char_inj: "d < 10 \<Longrightarrow> d' < 10 \<Longrightarrow> digit_char d = digit_char d' \<Longrightarrow> d = d'"
proof -
  assume d: "d < 10" "d' < 10" and eq: "digit_char d = digit_char d'"
  have "(of_char (digit_char d) :: nat) = of_char (digit_char d')" using eq by simp
  with d show "d = d'" by (simp add: digit_char_def)
qed

lemma is_digit_digit_char [simp]: "d < 10 \<Longrightarrow> is_digit (digit_char d)"
  by (auto simp: is_digit_def digit_char_def less_eq_char_def)

lemma nat_str_digits: "c \<in> set (nat_str n) \<Longrightarrow> is_digit c"
  by (auto simp: nat_str_def dest: digits_rev_small)

lemma nat_str_inject [simp]: "nat_str m = nat_str n \<longleftrightarrow> m = n"
proof
  assume "nat_str m = nat_str n"
  then have "map digit_char (digits_rev m) = map digit_char (digits_rev n)"
    by (simp add: nat_str_def rev_map [symmetric])
  moreover have "inj_on digit_char (set (digits_rev m) \<union> set (digits_rev n))"
    by (rule inj_onI) (auto dest: digits_rev_small intro: digit_char_inj)
  ultimately have "digits_rev m = digits_rev n" by (rule inj_on_map_eq_map [THEN iffD1, rotated])
  then show "m = n" by (metis digits_rev_value)
qed simp

lemma int_str_inject [simp]: "int_str i = int_str j \<longleftrightarrow> i = j"
proof
  assume eq: "int_str i = int_str j"
  have nd: "CHR ''-'' \<notin> set (nat_str k)" for k
    using nat_str_digits [of "CHR ''-''" k] by (auto simp: is_digit_def less_eq_char_def)
  have "nat_str k \<noteq> CHR ''-'' # x" for k x
    using nd [of k] by (metis list.set_intros(1))
  with eq show "i = j"
    by (auto simp: int_str_def split: if_splits dest: sym)
qed simp

section \<open>Whitespace at the ends\<close>

fun space_start :: "(char \<Rightarrow> char \<Rightarrow> bool) \<Rightarrow> (char \<Rightarrow> char \<Rightarrow> char \<Rightarrow> bool) \<Rightarrow> string \<Rightarrow> bool" where
  "space_start two three [] = False"
| "space_start two three [a] = is_space a"
| "space_start two three [a, b] = (is_space a \<or> two a b)"
| "space_start two three (a # b # c # s) = (is_space a \<or> two a b \<or> three a b c)"

lemma drop_spaces_start: "\<not> space_start two three (drop_spaces two three s)"
  by (induction two three s rule: drop_spaces.induct) auto

lemma drop_spaces_id: "\<not> space_start two three s \<Longrightarrow> drop_spaces two three s = s"
  by (cases "(two, three, s)" rule: drop_spaces.cases) auto

lemma drop_spaces_suffix: "\<exists>x. s = x @ drop_spaces two three s"
proof (induction two three s rule: drop_spaces.induct)
  case (4 two three a b c s)
  have pre: "\<exists>x. pre @ t = x @ d" if "\<exists>x. t = x @ d" for pre t d :: string
    using that by (metis append.assoc)
  from 4 pre [of "b # c # s" _ "[a]"] pre [of "c # s" _ "[a, b]"] pre [of s _ "[a, b, c]"] show ?case by auto
qed auto

lemma space_start_append: "space_start two three t \<Longrightarrow> space_start two three (t @ r)"
  by (cases "(two, three, t)" rule: space_start.cases; cases r; cases "tl r") auto

lemma set_strip: "set (strip s) \<subseteq> set s"
proof -
  obtain x where "s = x @ drop_spaces wide2 wide3 s" using drop_spaces_suffix by blast
  then have "set (drop_spaces wide2 wide3 s) \<subseteq> set s" by (metis Un_upper2 set_append)
  moreover obtain y where "rev (drop_spaces wide2 wide3 s) = y @ rev (strip s)"
    using drop_spaces_suffix [of "rev (drop_spaces wide2 wide3 s)"] by (auto simp: strip_def simp del: wide2_def wide3_def)
  then have "set (strip s) \<subseteq> set (drop_spaces wide2 wide3 s)" by (metis Un_upper2 set_append set_rev)
  ultimately show ?thesis by blast
qed

lemma strip_Nil [simp]: "strip [] = []"
  by (simp add: strip_def)

lemma strip_fixed_iff:
  "strip s = s \<longleftrightarrow> \<not> space_start wide2 wide3 s \<and> \<not> space_start (\<lambda>a b. wide2 b a) (\<lambda>a b c. wide3 c b a) (rev s)"
proof
  let ?t = "drop_spaces wide2 wide3 s"
  assume f: "strip s = s"
  have r: "\<not> space_start (\<lambda>a b. wide2 b a) (\<lambda>a b c. wide3 c b a) (rev (strip s))"
    unfolding strip_def rev_rev_ident by (rule drop_spaces_start)
  obtain y where y: "rev ?t = y @ rev (strip s)"
    using drop_spaces_suffix [of "rev ?t"] unfolding strip_def rev_rev_ident by blast
  have t: "?t = strip s @ rev y" using arg_cong [OF y, of rev] by simp
  have "\<not> space_start wide2 wide3 (strip s)"
    using space_start_append [of wide2 wide3 "strip s" "rev y"] drop_spaces_start [of wide2 wide3 s] unfolding t by blast
  with r f show "\<not> space_start wide2 wide3 s \<and> \<not> space_start (\<lambda>a b. wide2 b a) (\<lambda>a b c. wide3 c b a) (rev s)" by simp
next
  assume a: "\<not> space_start wide2 wide3 s \<and> \<not> space_start (\<lambda>a b. wide2 b a) (\<lambda>a b c. wide3 c b a) (rev s)"
  have "drop_spaces wide2 wide3 s = s" by (rule drop_spaces_id) (use a in blast)
  moreover have "drop_spaces (\<lambda>a b. wide2 b a) (\<lambda>a b c. wide3 c b a) (rev s) = rev s" by (rule drop_spaces_id) (use a in blast)
  ultimately show "strip s = s" by (simp only: strip_def rev_rev_ident)
qed

lemma strip_idem: "strip (strip s) = strip s"
proof -
  let ?t = "drop_spaces wide2 wide3 s"
  obtain y where y: "rev ?t = y @ rev (strip s)"
    using drop_spaces_suffix [of "rev ?t"] unfolding strip_def rev_rev_ident by blast
  have t: "?t = strip s @ rev y" using arg_cong [OF y, of rev] by simp
  have "\<not> space_start wide2 wide3 (strip s)"
    using space_start_append [of wide2 wide3 "strip s" "rev y"] drop_spaces_start [of wide2 wide3 s] unfolding t by blast
  moreover have "\<not> space_start (\<lambda>a b. wide2 b a) (\<lambda>a b c. wide3 c b a) (rev (strip s))"
    unfolding strip_def rev_rev_ident by (rule drop_spaces_start)
  ultimately show ?thesis by (simp only: strip_fixed_iff simp_thms)
qed

lemma no_space_strip:
  assumes "\<And>c. c \<in> set s \<Longrightarrow> \<not> is_space c \<and> (of_char c :: nat) < 128"
  shows "strip s = s"
proof -
  have w: "\<not> wide2 a b" "\<not> wide3 a b c" if "(of_char a :: nat) < 128" for a b c using that by auto
  have "\<not> space_start wide2 wide3 t \<and> \<not> space_start (\<lambda>a b. wide2 b a) (\<lambda>a b c. wide3 c b a) t" if "set t \<subseteq> set s" for t
  proof (cases "(wide2, wide3, t)" rule: space_start.cases)
    case (4 two three a b c r)
    then show ?thesis using that assms w by (auto simp del: wide2_def wide3_def)
  qed (use that assms w in \<open>auto simp del: wide2_def wide3_def\<close>)
  from this [of s] this [of "rev s"] show ?thesis by (simp add: strip_fixed_iff del: wide2_def wide3_def)
qed

end
