(* ===== verification/PyJson.thy ===== *)
theory PyJson
  imports Prelude
begin

text \<open>
  The dynamically typed values the code passes around: what \<open>json.loads\<close> returns, with
  Python's truthiness, equality, \<open>str()\<close>, \<open>int()\<close> and numeric comparison on it, and
  \<open>json.dumps\<close> in the two forms the code uses. A float is represented by the shortest decimal
  \<open>m * 10 ^ e\<close> that reads back as it (what \<open>repr\<close> prints): distinct doubles have distinct
  decimals in the same order, so comparisons on the decimals are those on the doubles.
  Decimal literals are not rounded to the nearest double.
\<close>

section \<open>Floats\<close>

datatype pyfloat = FDec int int | FNegZero | FInf bool | FNan

text \<open>Normal form of a decimal: no trailing zero in the mantissa.\<close>

fun strip_zeros :: "nat \<Rightarrow> int \<Rightarrow> int \<Rightarrow> int \<times> int" where
  "strip_zeros 0 m e = (m, e)"
| "strip_zeros (Suc k) m e = (if m \<noteq> 0 \<and> m mod 10 = 0 then strip_zeros k (m div 10) (e + 1) else (m, e))"

definition fdec :: "int \<Rightarrow> int \<Rightarrow> pyfloat" where
  "fdec m e = (if m = 0 then FDec 0 0
               else (case strip_zeros (nat \<bar>m\<bar>) m e of (m', e') \<Rightarrow> FDec m' e'))"

text \<open>\<open>m * 10 ^ e \<le> m' * 10 ^ e'\<close>, scaled to the smaller exponent.\<close>

definition dec_le :: "int \<Rightarrow> int \<Rightarrow> int \<Rightarrow> int \<Rightarrow> bool" where
  "dec_le m e m' e' = (let b = min e e' in m * 10 ^ nat (e - b) \<le> m' * 10 ^ nat (e' - b))"

definition is_finite :: "pyfloat \<Rightarrow> bool" where
  "is_finite f = (case f of FDec m e \<Rightarrow> True | FNegZero \<Rightarrow> True | _ \<Rightarrow> False)"

fun fle :: "pyfloat \<Rightarrow> pyfloat \<Rightarrow> bool" where
  "fle FNan g = False"
| "fle f FNan = False"
| "fle (FInf b) g = (\<not> b \<or> g = FInf True)"
| "fle f (FInf b) = b"
| "fle FNegZero FNegZero = True"
| "fle FNegZero (FDec m e) = (0 \<le> m)"
| "fle (FDec m e) FNegZero = (m \<le> 0)"
| "fle (FDec m e) (FDec m' e') = dec_le m e m' e'"

definition feq :: "pyfloat \<Rightarrow> pyfloat \<Rightarrow> bool" where
  "feq f g = (fle f g \<and> fle g f)"

definition flt :: "pyfloat \<Rightarrow> pyfloat \<Rightarrow> bool" where
  "flt f g = (fle f g \<and> \<not> fle g f)"

text \<open>\<open>float.is_integer\<close> and the truncation of \<open>int(f)\<close>.\<close>

definition f_is_integer :: "pyfloat \<Rightarrow> bool" where
  "f_is_integer f = (case f of FDec m e \<Rightarrow> 0 \<le> e \<or> m mod 10 ^ nat (- e) = 0 | FNegZero \<Rightarrow> True | _ \<Rightarrow> False)"

definition dec_trunc :: "int \<Rightarrow> int \<Rightarrow> int" where
  "dec_trunc m e = (if 0 \<le> e then m * 10 ^ nat e else sgn m * (\<bar>m\<bar> div 10 ^ nat (- e)))"

text \<open>
  \<open>repr\<close> of a float: the digits with a point when the decimal exponent is in
  \<open>[-4, 16)\<close>, scientific notation otherwise.
\<close>

definition fdec_repr :: "nat \<Rightarrow> int \<Rightarrow> string" where
  "fdec_repr m e =
     (let ds = nat_str m; n = int (length ds); x = n + e - 1 in
      if m = 0 then ''0.0''
      else if -4 \<le> x \<and> x < 16 then
        (if 0 \<le> e then ds @ replicate (nat e) (CHR ''0'') @ ''.0''
         else if 0 \<le> x then take (nat (x + 1)) ds @ ''.'' @ drop (nat (x + 1)) ds
         else ''0.'' @ replicate (nat (- x - 1)) (CHR ''0'') @ ds)
      else take 1 ds @ (if n = 1 then [] else CHR ''.'' # drop 1 ds) @ ''e''
           @ (if x < 0 then ''-'' else ''+'')
           @ (if \<bar>x\<bar> < 10 then CHR ''0'' # nat_str (nat \<bar>x\<bar>) else nat_str (nat \<bar>x\<bar>)))"

definition float_repr :: "pyfloat \<Rightarrow> string" where
  "float_repr f = (case f of
     FDec m e \<Rightarrow> (if m < 0 then CHR ''-'' # fdec_repr (nat (- m)) e else fdec_repr (nat m) e)
   | FNegZero \<Rightarrow> ''-0.0''
   | FInf b \<Rightarrow> (if b then ''inf'' else ''-inf'')
   | FNan \<Rightarrow> ''nan'')"

section \<open>Values\<close>

datatype json =
    JNull
  | JBool bool
  | JInt int
  | JFloat pyfloat
  | JStr string
  | JList "json list"
  | JObj "(string \<times> json) list"

type_synonym dict = "(string \<times> json) list"

lemma size_JObj_elem [termination_simp]:
  "(k, v) \<in> set d \<Longrightarrow> size v < Suc (size_list (size_prod (\<lambda>_. 0) size) d)"
  by (induction d) auto

fun is_str :: "json \<Rightarrow> bool" where
  "is_str (JStr s) = True"
| "is_str _ = False"

fun is_dict :: "json \<Rightarrow> bool" where
  "is_dict (JObj d) = True"
| "is_dict _ = False"

fun is_list :: "json \<Rightarrow> bool" where
  "is_list (JList d) = True"
| "is_list _ = False"

fun is_bool :: "json \<Rightarrow> bool" where
  "is_bool (JBool b) = True"
| "is_bool _ = False"

text \<open>\<open>isinstance(x, int)\<close> holds for booleans too.\<close>

fun is_int :: "json \<Rightarrow> bool" where
  "is_int (JInt i) = True"
| "is_int (JBool b) = True"
| "is_int _ = False"

fun is_float :: "json \<Rightarrow> bool" where
  "is_float (JFloat f) = True"
| "is_float _ = False"

text \<open>\<open>bool(x)\<close>, and the \<open>or\<close> of Python, which returns one of its operands.\<close>

fun truthy :: "json \<Rightarrow> bool" where
  "truthy JNull = False"
| "truthy (JBool b) = b"
| "truthy (JInt i) = (i \<noteq> 0)"
| "truthy (JFloat f) = (f \<noteq> FNegZero \<and> (case f of FDec m e \<Rightarrow> m \<noteq> 0 | _ \<Rightarrow> True))"
| "truthy (JStr s) = (s \<noteq> [])"
| "truthy (JList xs) = (xs \<noteq> [])"
| "truthy (JObj d) = (d \<noteq> [])"

definition por :: "json \<Rightarrow> json \<Rightarrow> json" where
  "por a b = (if truthy a then a else b)"

text \<open>\<open>d.get(k)\<close>: the value or \<open>None\<close>; \<open>get_or d k x\<close> is \<open>d.get(k) or x\<close>.\<close>

definition dget :: "dict \<Rightarrow> string \<Rightarrow> json" where
  "dget d k = (case map_of d k of None \<Rightarrow> JNull | Some v \<Rightarrow> v)"

definition dget_default :: "dict \<Rightarrow> string \<Rightarrow> json \<Rightarrow> json" where
  "dget_default d k x = (case map_of d k of None \<Rightarrow> x | Some v \<Rightarrow> v)"

definition get_or :: "dict \<Rightarrow> string \<Rightarrow> json \<Rightarrow> json" where
  "get_or d k x = por (dget d k) x"

fun dict_of :: "json \<Rightarrow> dict" where
  "dict_of (JObj d) = d"
| "dict_of _ = []"

section \<open>Equality\<close>

text \<open>
  The number a value counts as in \<open>==\<close>: \<open>True == 1 == 1.0\<close>. A decimal is equal to an
  integer when they are when scaled.
\<close>

fun num_of :: "json \<Rightarrow> pyfloat option" where
  "num_of (JBool b) = Some (if b then FDec 1 0 else FDec 0 0)"
| "num_of (JInt i) = Some (FDec i 0)"
| "num_of (JFloat f) = Some f"
| "num_of _ = None"

function json_eq :: "json \<Rightarrow> json \<Rightarrow> bool" where
  "json_eq x y = (case x of
     JNull \<Rightarrow> y = JNull
   | JStr s \<Rightarrow> y = JStr s
   | JList xs \<Rightarrow> (case y of
        JList ys \<Rightarrow> length xs = length ys \<and> list_all (\<lambda>(a, b). json_eq a b) (zip xs ys)
      | _ \<Rightarrow> False)
   | JObj d \<Rightarrow> (case y of
        JObj d' \<Rightarrow> length d = length d' \<and>
          list_all (\<lambda>(k, v). case map_of d' k of None \<Rightarrow> False | Some w \<Rightarrow> json_eq v w) d
      | _ \<Rightarrow> False)
   | _ \<Rightarrow> (case (num_of x, num_of y) of (Some f, Some g) \<Rightarrow> feq f g | _ \<Rightarrow> False))"
  by pat_completeness auto
termination
proof (relation "measure (\<lambda>(x, y). size x)", goal_cases)
  case 1
  show ?case by simp
next
  case (2 x y xs ys p a b)
  then have "a \<in> set xs" by (auto dest: set_zip_leftD)
  then have "size a < Suc (size_list size xs)" by (meson less_Suc_eq_le size_list_estimation' order_refl)
  with 2 show ?case by (cases p) simp
next
  case (3 x y d d' p k v w)
  then have "(k, v) \<in> set d" by simp
  from size_JObj_elem [OF this] 3 show ?case by simp
qed

declare json_eq.simps [simp del]

text \<open>Values without a NaN, on which equality is reflexive.\<close>

fun nan_free :: "json \<Rightarrow> bool" where
  "nan_free (JFloat f) = (f \<noteq> FNan)"
| "nan_free (JList xs) = list_all nan_free xs"
| "nan_free (JObj d) = list_all (\<lambda>(k, v). nan_free v) d"
| "nan_free _ = True"

text \<open>Keys of every object are distinct, as in any Python dict.\<close>

fun json_wf :: "json \<Rightarrow> bool" where
  "json_wf (JList xs) = list_all json_wf xs"
| "json_wf (JObj d) = (distinct (map fst d) \<and> list_all (\<lambda>(k, v). json_wf v) d)"
| "json_wf _ = True"

text \<open>The number of nested containers, counting the value itself as level 0.\<close>

fun json_depth :: "json \<Rightarrow> nat" where
  "json_depth (JList xs) = (if xs = [] then 0 else Suc (foldr max (map json_depth xs) 0))"
| "json_depth (JObj d) = (if d = [] then 0 else Suc (foldr max (map (\<lambda>(k, v). json_depth v) d) 0))"
| "json_depth _ = 0"

section \<open>Serialisation\<close>

definition hex_digit :: "nat \<Rightarrow> char" where
  "hex_digit n = (if n < 10 then char_of (48 + n) else char_of (87 + n))"

definition hex4 :: "nat \<Rightarrow> string" where
  "hex4 n = [hex_digit (n div 4096 mod 16), hex_digit (n div 256 mod 16),
             hex_digit (n div 16 mod 16), hex_digit (n mod 16)]"

text \<open>The escapes both forms share: quote, backslash, and the control characters.\<close>

definition json_escape_char :: "char \<Rightarrow> string" where
  "json_escape_char c =
     (if c = CHR 0x22 then [CHR 0x5C, CHR 0x22]
      else if c = CHR 0x5C then [CHR 0x5C, CHR 0x5C]
      else if c = CHR 0x0A then [CHR 0x5C, CHR ''n'']
      else if c = CHR 0x0D then [CHR 0x5C, CHR ''r'']
      else if c = CHR 0x09 then [CHR 0x5C, CHR ''t'']
      else if c = CHR 0x0C then [CHR 0x5C, CHR ''f'']
      else if c = CHR 0x08 then [CHR 0x5C, CHR ''b'']
      else if (of_char c :: nat) < 32 then CHR 0x5C # CHR ''u'' # hex4 (of_char c)
      else [c])"

text \<open>
  The code points of a UTF-8 string, for \<open>ensure_ascii\<close>: a multi-byte sequence becomes
  one \<open>\uXXXX\<close> escape, or a surrogate pair above the basic plane.
\<close>

fun utf8_points :: "string \<Rightarrow> nat list" where
  "utf8_points [] = []"
| "utf8_points [a] = [of_char a]"
| "utf8_points [a, b] =
     (if 192 \<le> (of_char a :: nat) \<and> (of_char a :: nat) < 224
      then [(of_char a - 192) * 64 + (of_char b - 128)]
      else of_char a # utf8_points [b])"
| "utf8_points [a, b, c] =
     (if 192 \<le> (of_char a :: nat) \<and> (of_char a :: nat) < 224
      then ((of_char a - 192) * 64 + (of_char b - 128)) # utf8_points [c]
      else if 224 \<le> (of_char a :: nat) \<and> (of_char a :: nat) < 240
      then [(of_char a - 224) * 4096 + (of_char b - 128) * 64 + (of_char c - 128)]
      else of_char a # utf8_points [b, c])"
| "utf8_points (a # b # c # d # s) =
     (if 192 \<le> (of_char a :: nat) \<and> (of_char a :: nat) < 224
      then ((of_char a - 192) * 64 + (of_char b - 128)) # utf8_points (c # d # s)
      else if 224 \<le> (of_char a :: nat) \<and> (of_char a :: nat) < 240
      then ((of_char a - 224) * 4096 + (of_char b - 128) * 64 + (of_char c - 128)) # utf8_points (d # s)
      else if 240 \<le> (of_char a :: nat)
      then ((of_char a - 240) * 262144 + (of_char b - 128) * 4096 + (of_char c - 128) * 64
             + (of_char d - 128)) # utf8_points s
      else of_char a # utf8_points (b # c # d # s))"

definition ascii_escape_point :: "nat \<Rightarrow> string" where
  "ascii_escape_point n =
     (if n < 127 then json_escape_char (char_of n)
      else if n < 65536 then CHR 0x5C # CHR ''u'' # hex4 n
      else let k = n - 65536 in
        CHR 0x5C # CHR ''u'' # hex4 (55296 + k div 1024) @ CHR 0x5C # CHR ''u'' # hex4 (56320 + k mod 1024))"

definition json_quote :: "bool \<Rightarrow> string \<Rightarrow> string" where
  "json_quote ascii s = CHR 0x22 # (if ascii then concat (map ascii_escape_point (utf8_points s))
                                     else concat (map json_escape_char s)) @ [CHR 0x22]"

definition json_float :: "pyfloat \<Rightarrow> string" where
  "json_float f = (case f of
     FInf b \<Rightarrow> (if b then ''Infinity'' else ''-Infinity'')
   | FNan \<Rightarrow> ''NaN''
   | _ \<Rightarrow> float_repr f)"

text \<open>
  \<open>json.dumps\<close>: the parameters are \<open>ensure_ascii\<close>, \<open>sort_keys\<close> and the two
  separators. \<open>dumps a\<close> is the canonical form \<open>sort_keys=True, separators=(",", ":")\<close>
  and \<open>dumps_plain\<close> the form without options.
\<close>

fun json_text :: "bool \<Rightarrow> bool \<Rightarrow> string \<Rightarrow> string \<Rightarrow> json \<Rightarrow> string" where
  "json_text a srt isep ksep JNull = ''null''"
| "json_text a srt isep ksep (JBool b) = (if b then ''true'' else ''false'')"
| "json_text a srt isep ksep (JInt i) = int_str i"
| "json_text a srt isep ksep (JFloat f) = json_float f"
| "json_text a srt isep ksep (JStr s) = json_quote a s"
| "json_text a srt isep ksep (JList xs) =
     CHR ''['' # join_with isep (map (json_text a srt isep ksep) xs) @ '']''"
| "json_text a srt isep ksep (JObj d) =
     (let members = map (\<lambda>(k, v). (k, json_text a srt isep ksep v)) d in
      CHR ''{'' # join_with isep (map (\<lambda>(k, t). json_quote a k @ ksep @ t)
         (if srt then sort_key fst members else members)) @ ''}'')"

definition dumps :: "bool \<Rightarrow> json \<Rightarrow> string" where
  "dumps a v = json_text a True '','' '':'' v"

definition dumps_plain :: "json \<Rightarrow> string" where
  "dumps_plain v = json_text True False '', '' '': '' v"

section \<open>Conversions\<close>

datatype py_exn = TypeError | ValueError | OverflowError | KeyError | AttributeError | AssertionError

text \<open>\<open>repr\<close> and \<open>str\<close>: strings escape backslash, the quote, and control characters.\<close>

definition repr_char :: "char \<Rightarrow> char \<Rightarrow> string" where
  "repr_char q c =
     (if c = CHR 0x5C \<or> c = q then [CHR 0x5C, c]
      else if c = CHR 0x0A then [CHR 0x5C, CHR ''n'']
      else if c = CHR 0x0D then [CHR 0x5C, CHR ''r'']
      else if c = CHR 0x09 then [CHR 0x5C, CHR ''t'']
      else if (of_char c :: nat) < 32 \<or> (of_char c :: nat) = 127 then
        [CHR 0x5C, CHR ''x'', hex_digit (of_char c div 16), hex_digit (of_char c mod 16)]
      else [c])"

definition py_repr_str :: "string \<Rightarrow> string" where
  "py_repr_str s =
     (let q = (if CHR 0x27 \<in> set s \<and> CHR 0x22 \<notin> set s then CHR 0x22 else CHR 0x27) in
      q # concat (map (repr_char q) s) @ [q])"

fun py_repr :: "json \<Rightarrow> string" where
  "py_repr JNull = ''None''"
| "py_repr (JBool b) = (if b then ''True'' else ''False'')"
| "py_repr (JInt i) = int_str i"
| "py_repr (JFloat f) = float_repr f"
| "py_repr (JStr s) = py_repr_str s"
| "py_repr (JList xs) = CHR ''['' # join_with '', '' (map py_repr xs) @ '']''"
| "py_repr (JObj d) =
     CHR ''{'' # join_with '', '' (map (\<lambda>(k, v). py_repr_str k @ '': '' @ py_repr v) d) @ ''}''"

definition py_str :: "json \<Rightarrow> string" where
  "py_str v = (case v of JStr s \<Rightarrow> s | _ \<Rightarrow> py_repr v)"

text \<open>\<open>str(d.get(k) or "")\<close>\<close>

definition str_or_empty :: "dict \<Rightarrow> string \<Rightarrow> string" where
  "str_or_empty d k = (if truthy (dget d k) then py_str (dget d k) else [])"

text \<open>
  Digits of an integer or float literal in \<open>int(s)\<close> and \<open>float(s)\<close>: single underscores
  are allowed between digits.
\<close>

fun strip_underscores :: "bool \<Rightarrow> string \<Rightarrow> string option" where
  "strip_underscores after_digit [] = (if after_digit then Some [] else None)"
| "strip_underscores after_digit (c # s) =
     (if is_digit c then map_option ((#) c) (strip_underscores True s)
      else if c = CHR ''_'' \<and> after_digit then strip_underscores False s
      else None)"

definition dec_value :: "string \<Rightarrow> nat" where
  "dec_value s = foldl (\<lambda>acc c. 10 * acc + (of_char c - 48)) 0 s"

definition split_sign :: "string \<Rightarrow> bool \<times> string" where
  "split_sign s = (if starts_with s ''-'' then (True, drop 1 s)
                   else if starts_with s ''+'' then (False, drop 1 s) else (False, s))"

definition int_of_str :: "string \<Rightarrow> int option" where
  "int_of_str s =
     (let (neg, body) = split_sign (strip s) in
      map_option (\<lambda>ds. (if neg then -1 else 1) * int (dec_value ds)) (strip_underscores False body))"

definition float_overflow_bound :: int where
  "float_overflow_bound = 2 ^ 1024 - 2 ^ 970"

definition py_int :: "json \<Rightarrow> py_exn + int" where
  "py_int v = (case v of
     JInt i \<Rightarrow> Inr i
   | JBool b \<Rightarrow> Inr (if b then 1 else 0)
   | JFloat (FDec m e) \<Rightarrow> Inr (dec_trunc m e)
   | JFloat FNegZero \<Rightarrow> Inr 0
   | JFloat (FInf b) \<Rightarrow> Inl OverflowError
   | JFloat FNan \<Rightarrow> Inl ValueError
   | JStr s \<Rightarrow> (case int_of_str s of Some i \<Rightarrow> Inr i | None \<Rightarrow> Inl ValueError)
   | _ \<Rightarrow> Inl TypeError)"

text \<open>
  \<open>float(s)\<close>: a decimal with an optional fraction and exponent, or \<open>inf\<close>,
  \<open>infinity\<close>, \<open>nan\<close> in any case.
\<close>

definition float_of_decimal :: "bool \<Rightarrow> nat \<Rightarrow> int \<Rightarrow> pyfloat" where
  "float_of_decimal neg m e =
     (if m = 0 then (if neg then FNegZero else FDec 0 0)
      else if dec_le float_overflow_bound 0 (int m) e then FInf (\<not> neg)
      else fdec (if neg then - int m else int m) e)"

definition float_of_str :: "string \<Rightarrow> pyfloat option" where
  "float_of_str s =
     (let (neg, body) = split_sign (lower (strip s));
          (mant, expo) = (takeWhile (\<lambda>c. c \<noteq> CHR ''e'') body, dropWhile (\<lambda>c. c \<noteq> CHR ''e'') body);
          (ip, fp) = (takeWhile (\<lambda>c. c \<noteq> CHR ''.'') mant, drop 1 (dropWhile (\<lambda>c. c \<noteq> CHR ''.'') mant)) in
      if body \<in> {''inf'', ''infinity''} then Some (FInf (\<not> neg))
      else if body = ''nan'' then Some FNan
      else if ip = [] \<and> fp = [] then None
      else (case (if ip = [] then Some [] else strip_underscores False ip,
                  if fp = [] then Some [] else strip_underscores False fp,
                  if expo = [] then Some 0
                  else (let (eneg, ed) = split_sign (drop 1 expo) in
                        map_option (\<lambda>ds. (if eneg then -1 else 1) * int (dec_value ds)) (strip_underscores False ed)))
            of (Some ids, Some fds, Some e) \<Rightarrow>
                 Some (float_of_decimal neg (dec_value (ids @ fds)) (e - int (length fds)))
             | _ \<Rightarrow> None))"

definition py_float :: "json \<Rightarrow> py_exn + pyfloat" where
  "py_float v = (case v of
     JFloat f \<Rightarrow> Inr f
   | JBool b \<Rightarrow> Inr (if b then FDec 1 0 else FDec 0 0)
   | JInt i \<Rightarrow> (if float_overflow_bound \<le> \<bar>i\<bar> then Inl OverflowError else Inr (fdec i 0))
   | JStr s \<Rightarrow> (case float_of_str s of Some f \<Rightarrow> Inr f | None \<Rightarrow> Inl ValueError)
   | _ \<Rightarrow> Inl TypeError)"

section \<open>Facts\<close>

lemma dec_le_refl [simp]: "dec_le m e m e"
  by (simp add: dec_le_def)

lemma feq_refl: "f \<noteq> FNan \<Longrightarrow> feq f f"
  by (cases f) (auto simp: feq_def)

lemma json_eq_refl: "json_wf v \<Longrightarrow> nan_free v \<Longrightarrow> json_eq v v"
proof (induction v)
  case (JList xs)
  then show ?case
    by (subst json_eq.simps) (auto simp: list_all_iff zip_same)
next
  case (JObj d)
  have "json_eq v v" if "(k, v) \<in> set d" for k v
    using JObj.IH [OF that, of v] JObj.prems that by (auto simp: list_all_iff)
  moreover have "map_of d k = Some v" if "(k, v) \<in> set d" for k v
    using JObj.prems that by simp
  ultimately show ?case
    by (subst json_eq.simps) (auto simp: list_all_iff)
qed (subst json_eq.simps; auto intro: feq_refl)+

section \<open>Reading back an integer\<close>

lemma dec_value_nat_str [simp]: "dec_value (nat_str n) = n"
proof -
  have "foldl (\<lambda>acc c. 10 * acc + (of_char c - 48)) 0 (map digit_char (rev ds)) = foldr (\<lambda>d acc. d + 10 * acc) ds 0"
    if "\<And>d. d \<in> set ds \<Longrightarrow> d < 10" for ds
    using that
  proof (induction ds)
    case (Cons d ds)
    then have "d < 10" by simp
    then have "(48 + d) mod 256 = 48 + d" by simp
    with Cons show ?case by (simp add: digit_char_def)
  qed simp
  from this [of "digits_rev n"] show ?thesis
    by (simp add: dec_value_def nat_str_def digits_rev_small digits_rev_value)
qed

lemma strip_underscores_digits: "list_all is_digit s \<Longrightarrow> b \<or> s \<noteq> [] \<Longrightarrow> strip_underscores b s = Some s"
  by (induction s arbitrary: b) auto

lemma digit_not_space: "is_digit c \<Longrightarrow> \<not> is_space c"
  by (auto simp: is_digit_def is_space_def less_eq_char_def)

lemma digit_ascii: "is_digit c \<Longrightarrow> (of_char c :: nat) < 128"
  by (auto simp: is_digit_def less_eq_char_def)

lemma nat_str_hd: "\<exists>c r. nat_str n = c # r \<and> is_digit c"
  using nat_str_digits [of _ n] nat_str_nonempty [of n] by (cases "nat_str n") auto

lemma strip_int_str [simp]: "strip (int_str i) = int_str i"
proof (rule no_space_strip)
  fix c assume "c \<in> set (int_str i)"
  then have "c = CHR ''-'' \<or> is_digit c" by (auto simp: int_str_def dest: nat_str_digits split: if_splits)
  then show "\<not> is_space c \<and> (of_char c :: nat) < 128"
    using digit_not_space digit_ascii by (auto simp: is_space_def)
qed

lemma int_of_str_int_str [simp]: "int_of_str (int_str i) = Some i"
proof -
  have d: "strip_underscores False (nat_str n) = Some (nat_str n)" for n
    by (rule strip_underscores_digits) (auto simp: list_all_iff dest: nat_str_digits)
  obtain c r where h: "nat_str (nat i) = c # r" "is_digit c" using nat_str_hd by blast
  then have "c \<noteq> CHR ''-''" "c \<noteq> CHR ''+''" by (auto simp: is_digit_def less_eq_char_def)
  then have n: "split_sign (nat_str (nat i)) = (False, nat_str (nat i))"
    by (simp add: split_sign_def starts_with_def h)
  have "split_sign (CHR ''-'' # nat_str k) = (True, nat_str k)" for k
    by (simp add: split_sign_def starts_with_def)
  then show ?thesis using n unfolding int_of_str_def strip_int_str by (simp add: int_str_def d)
qed

lemma int_str_nonempty [simp]: "int_str i \<noteq> []"
  by (simp add: int_str_def)

end
