(* ===== verification/JsonText.thy ===== *)
theory JsonText
  imports PyJson
begin

text \<open>
  \<open>json.loads\<close> of the Python standard library, as a recursive-descent parser over the
  bytes of the text: \<open>None\<close> is \<open>JSONDecodeError\<close>. The grammar is the one of the
  \<open>json\<close> module (RFC 8259 plus \<open>NaN\<close> and the infinities, control characters refused
  inside strings, the last of duplicate keys winning). The fuel of the parser bounds its
  recursion: two units for each byte of the text are enough.
\<close>

section \<open>Lexical elements\<close>

definition json_ws :: "char \<Rightarrow> bool" where
  "json_ws c = (c \<in> {CHR '' '', CHR 0x09, CHR 0x0A, CHR 0x0D})"

definition skip_ws :: "string \<Rightarrow> string" where
  "skip_ws s = dropWhile json_ws s"

definition hex_value :: "char \<Rightarrow> nat option" where
  "hex_value c =
     (if is_digit c then Some (of_char c - 48)
      else if CHR ''a'' \<le> c \<and> c \<le> CHR ''f'' then Some (of_char c - 87)
      else if CHR ''A'' \<le> c \<and> c \<le> CHR ''F'' then Some (of_char c - 55)
      else None)"

fun hex4_value :: "string \<Rightarrow> (nat \<times> string) option" where
  "hex4_value (a # b # c # d # s) =
     (case (hex_value a, hex_value b, hex_value c, hex_value d) of
        (Some i, Some j, Some k, Some l) \<Rightarrow> Some (i * 4096 + j * 256 + k * 16 + l, s)
      | _ \<Rightarrow> None)"
| "hex4_value _ = None"

definition utf8_encode :: "nat \<Rightarrow> string" where
  "utf8_encode n =
     (if n < 128 then [char_of n]
      else if n < 2048 then [char_of (192 + n div 64), char_of (128 + n mod 64)]
      else if n < 65536 then
        [char_of (224 + n div 4096), char_of (128 + n div 64 mod 64), char_of (128 + n mod 64)]
      else [char_of (240 + n div 262144), char_of (128 + n div 4096 mod 64),
            char_of (128 + n div 64 mod 64), char_of (128 + n mod 64)])"

definition simple_escape :: "char \<Rightarrow> char option" where
  "simple_escape c =
     (if c = CHR 0x22 \<or> c = CHR 0x5C \<or> c = CHR ''/'' then Some c
      else if c = CHR ''b'' then Some (CHR 0x08)
      else if c = CHR ''f'' then Some (CHR 0x0C)
      else if c = CHR ''n'' then Some (CHR 0x0A)
      else if c = CHR ''r'' then Some (CHR 0x0D)
      else if c = CHR ''t'' then Some (CHR 0x09)
      else None)"

text \<open>After \<open>\u\<close>: a code point, joining a high surrogate with the low one that follows.\<close>

definition unicode_escape :: "string \<Rightarrow> (string \<times> string) option" where
  "unicode_escape s = (case hex4_value s of
     None \<Rightarrow> None
   | Some (hi, r) \<Rightarrow>
       (if 55296 \<le> hi \<and> hi < 56320 \<and> starts_with r [CHR 0x5C, CHR ''u''] then
          (case hex4_value (drop 2 r) of
             Some (lo, r') \<Rightarrow>
               (if 56320 \<le> lo \<and> lo < 57344
                then Some (utf8_encode (65536 + (hi - 55296) * 1024 + (lo - 56320)), r')
                else Some (utf8_encode hi, r))
           | None \<Rightarrow> Some (utf8_encode hi, r))
        else Some (utf8_encode hi, r)))"

lemma hex4_value_length: "hex4_value s = Some (n, r) \<Longrightarrow> length r < length s"
  by (induction s rule: hex4_value.induct) (auto split: option.splits)

lemma unicode_escape_length [termination_simp]:
  "unicode_escape s = Some (x, r) \<Longrightarrow> length r < length s"
proof -
  assume "unicode_escape s = Some (x, r)"
  moreover have "length r' < length q" if "hex4_value (drop 2 q) = Some (lo, r')" for lo r' q
    using hex4_value_length [OF that] by simp
  ultimately show ?thesis
    by (auto simp: unicode_escape_def dest!: hex4_value_length split: option.splits if_splits)
qed

text \<open>The body of a string after its opening quote: the text and what follows the closing quote.\<close>

function str_body :: "string \<Rightarrow> (string \<times> string) option" where
  "str_body [] = None"
| "str_body (c # s) =
     (if c = CHR 0x22 then Some ([], s)
      else if c = CHR 0x5C then
        (case s of
           [] \<Rightarrow> None
         | e # s' \<Rightarrow>
             (if e = CHR ''u'' then
                (case unicode_escape s' of
                   None \<Rightarrow> None
                 | Some (x, r) \<Rightarrow> map_option (\<lambda>(t, q). (x @ t, q)) (str_body r))
              else (case simple_escape e of
                   None \<Rightarrow> None
                 | Some x \<Rightarrow> map_option (\<lambda>(t, q). (x # t, q)) (str_body s'))))
      else if (of_char c :: nat) < 32 then None
      else map_option (\<lambda>(t, q). (c # t, q)) (str_body s))"
  by pat_completeness auto
termination
  by (relation "measure length") (auto dest: unicode_escape_length)

section \<open>Numbers\<close>

definition digits_value :: "string \<Rightarrow> nat" where
  "digits_value s = foldl (\<lambda>acc c. 10 * acc + (of_char c - 48)) 0 s"

definition take_digits :: "string \<Rightarrow> string \<times> string" where
  "take_digits s = (takeWhile is_digit s, dropWhile is_digit s)"

text \<open>The integer part: a single zero, or digits that do not start with one.\<close>

definition int_part :: "string \<Rightarrow> (string \<times> string) option" where
  "int_part s = (case s of
     [] \<Rightarrow> None
   | c # r \<Rightarrow> (if c = CHR ''0'' then Some ([c], r)
             else if is_digit c then Some (take_digits s) else None))"

definition frac_part :: "string \<Rightarrow> string option \<times> string" where
  "frac_part s = (case s of
     c # r \<Rightarrow> (if c = CHR ''.'' \<and> fst (take_digits r) \<noteq> []
             then (Some (fst (take_digits r)), snd (take_digits r)) else (None, s))
   | [] \<Rightarrow> (None, s))"

definition exp_part :: "string \<Rightarrow> int option \<times> string" where
  "exp_part s = (case s of
     c # r \<Rightarrow>
       (if c = CHR ''e'' \<or> c = CHR ''E'' then
          (let neg = starts_with r ''-''; r1 = (if neg \<or> starts_with r ''+'' then drop 1 r else r);
               (ds, rest) = take_digits r1 in
           if ds = [] then (None, s)
           else (Some ((if neg then -1 else 1) * int (digits_value ds)), rest))
        else (None, s))
   | [] \<Rightarrow> (None, s))"

definition float_literal :: "bool \<Rightarrow> nat \<Rightarrow> int \<Rightarrow> pyfloat" where
  "float_literal neg m e =
     (if m = 0 then (if neg then FNegZero else FDec 0 0)
      else if dec_le (2 ^ 1024 - 2 ^ 970) 0 (int m) e then FInf (\<not> neg)
      else fdec (if neg then - int m else int m) e)"

definition number :: "string \<Rightarrow> (json \<times> string) option" where
  "number s =
     (let neg = starts_with s ''-''; s1 = (if neg then drop 1 s else s) in
      case int_part s1 of
        None \<Rightarrow> None
      | Some (ds, r1) \<Rightarrow>
          (let (fr, r2) = frac_part r1; (ex, r3) = exp_part r2 in
           if fr = None \<and> ex = None
           then Some (JInt ((if neg then -1 else 1) * int (digits_value ds)), r1)
           else
             (let fds = (case fr of None \<Rightarrow> [] | Some x \<Rightarrow> x); e = (case ex of None \<Rightarrow> 0 | Some x \<Rightarrow> x) in
              Some (JFloat (float_literal neg (digits_value (ds @ fds)) (e - int (length fds))), r3))))"

definition literal :: "string \<Rightarrow> (json \<times> string) option" where
  "literal s =
     (if starts_with s ''null'' then Some (JNull, drop 4 s)
      else if starts_with s ''true'' then Some (JBool True, drop 4 s)
      else if starts_with s ''false'' then Some (JBool False, drop 5 s)
      else (case number s of
          Some r \<Rightarrow> Some r
        | None \<Rightarrow>
            (if starts_with s ''NaN'' then Some (JFloat FNan, drop 3 s)
             else if starts_with s ''Infinity'' then Some (JFloat (FInf True), drop 8 s)
             else if starts_with s ''-Infinity'' then Some (JFloat (FInf False), drop 9 s)
             else None)))"

section \<open>Values\<close>

fun parse_value :: "nat \<Rightarrow> string \<Rightarrow> (json \<times> string) option"
and parse_elements :: "nat \<Rightarrow> string \<Rightarrow> (json list \<times> string) option"
and parse_members :: "nat \<Rightarrow> dict \<Rightarrow> string \<Rightarrow> (dict \<times> string) option" where
  "parse_value 0 s = None"
| "parse_value (Suc fuel) s = (case s of
     [] \<Rightarrow> None
   | c # r \<Rightarrow>
       (if c = CHR 0x22 then map_option (\<lambda>(t, q). (JStr t, q)) (str_body r)
        else if c = CHR ''{'' then
          (if starts_with (skip_ws r) ''}'' then Some (JObj [], drop 1 (skip_ws r))
           else map_option (\<lambda>(d, q). (JObj d, q)) (parse_members fuel [] (skip_ws r)))
        else if c = CHR ''['' then
          (if starts_with (skip_ws r) '']'' then Some (JList [], drop 1 (skip_ws r))
           else map_option (\<lambda>(xs, q). (JList xs, q)) (parse_elements fuel (skip_ws r)))
        else literal s))"
| "parse_elements 0 s = None"
| "parse_elements (Suc fuel) s = (case parse_value fuel s of
     None \<Rightarrow> None
   | Some (v, r) \<Rightarrow>
       (if starts_with (skip_ws r) '']'' then Some ([v], drop 1 (skip_ws r))
        else if starts_with (skip_ws r) '','' then
          map_option (\<lambda>(vs, q). (v # vs, q)) (parse_elements fuel (skip_ws (drop 1 (skip_ws r))))
        else None))"
| "parse_members 0 d s = None"
| "parse_members (Suc fuel) d s =
     (if starts_with s [CHR 0x22] then
        (case str_body (drop 1 s) of
           None \<Rightarrow> None
         | Some (k, r) \<Rightarrow>
             (if starts_with (skip_ws r) '':'' then
                (case parse_value fuel (skip_ws (drop 1 (skip_ws r))) of
                   None \<Rightarrow> None
                 | Some (v, q) \<Rightarrow>
                     (let d' = AList.update k v d in
                      if starts_with (skip_ws q) ''}'' then Some (d', drop 1 (skip_ws q))
                      else if starts_with (skip_ws q) '','' then
                        parse_members fuel d' (skip_ws (drop 1 (skip_ws q)))
                      else None))
              else None))
      else None)"

definition loads :: "string \<Rightarrow> json option" where
  "loads s = (case parse_value (2 * length s + 2) (skip_ws s) of
     None \<Rightarrow> None
   | Some (v, r) \<Rightarrow> (if skip_ws r = [] then Some v else None))"

end
