(* ===== verification/Sha256.thy ===== *)
theory Sha256
  imports Prelude "HOL-Library.Word"
begin

text \<open>
  \<open>hashlib.sha256(data).hexdigest()\<close> (FIPS 180-4) over the bytes of a string, the digest
  every identity of the program is computed with.
\<close>

unbundle bit_operations_syntax

type_synonym u32 = "32 word"

definition rotr :: "nat \<Rightarrow> u32 \<Rightarrow> u32" where
  "rotr n x = drop_bit n x OR push_bit (32 - n) x"

definition round_constants :: "u32 list" where
  "round_constants = [
    1116352408, 1899447441, 3049323471, 3921009573, 961987163, 1508970993, 2453635748, 2870763221,
    3624381080, 310598401, 607225278, 1426881987, 1925078388, 2162078206, 2614888103, 3248222580,
    3835390401, 4022224774, 264347078, 604807628, 770255983, 1249150122, 1555081692, 1996064986,
    2554220882, 2821834349, 2952996808, 3210313671, 3336571891, 3584528711, 113926993, 338241895,
    666307205, 773529912, 1294757372, 1396182291, 1695183700, 1986661051, 2177026350, 2456956037,
    2730485921, 2820302411, 3259730800, 3345764771, 3516065817, 3600352804, 4094571909, 275423344,
    430227734, 506948616, 659060556, 883997877, 958139571, 1322822218, 1537002063, 1747873779,
    1955562222, 2024104815, 2227730452, 2361852424, 2428436474, 2756734187, 3204031479, 3329325298]"

definition initial_hash :: "u32 list" where
  "initial_hash = [1779033703, 3144134277, 1013904242, 2773480762,
                   1359893119, 2600822924, 528734635, 1541459225]"

text \<open>Padding: a one bit, zeros, and the length in bits as 64 bits, to a multiple of 64 bytes.\<close>

definition be_bytes :: "nat \<Rightarrow> int \<Rightarrow> int list" where
  "be_bytes k n = map (\<lambda>i. n div 256 ^ (k - 1 - i) mod 256) [0..<k]"

definition pad_message :: "int list \<Rightarrow> int list" where
  "pad_message bs =
     (let n = int (length bs) in
      bs @ [128] @ replicate (nat ((119 - n mod 64) mod 64)) 0 @ be_bytes 8 (8 * n))"

fun to_words :: "int list \<Rightarrow> u32 list" where
  "to_words (a # b # c # d # bs) = word_of_int (a * 16777216 + b * 65536 + c * 256 + d) # to_words bs"
| "to_words _ = []"

text \<open>The message schedule, kept in reverse so that the last sixteen words are the first.\<close>

fun extend_schedule :: "nat \<Rightarrow> u32 list \<Rightarrow> u32 list" where
  "extend_schedule 0 w = w"
| "extend_schedule (Suc n) w =
     (let w15 = w ! 14; w2 = w ! 1;
          s0 = rotr 7 w15 XOR rotr 18 w15 XOR drop_bit 3 w15;
          s1 = rotr 17 w2 XOR rotr 19 w2 XOR drop_bit 10 w2 in
      extend_schedule n ((w ! 15 + s0 + w ! 6 + s1) # w))"

fun round_step :: "u32 list \<Rightarrow> u32 \<times> u32 \<Rightarrow> u32 list" where
  "round_step [a, b, c, d, e, f, g, h] (k, w) =
     (let s1 = rotr 6 e XOR rotr 11 e XOR rotr 25 e;
          ch = (e AND f) XOR (NOT e AND g);
          t1 = h + s1 + ch + k + w;
          s0 = rotr 2 a XOR rotr 13 a XOR rotr 22 a;
          maj = (a AND b) XOR (a AND c) XOR (b AND c) in
      [t1 + s0 + maj, a, b, c, d + t1, e, f, g])"
| "round_step st kw = st"

definition compress :: "u32 list \<Rightarrow> u32 list \<Rightarrow> u32 list" where
  "compress block st =
     map2 (+) st (foldl round_step st (zip round_constants (rev (extend_schedule 48 (rev block)))))"

fun chunks16 :: "u32 list \<Rightarrow> u32 list list" where
  "chunks16 [] = []"
| "chunks16 (x # xs) = (x # take 15 xs) # chunks16 (drop 15 xs)"

definition sha256 :: "string \<Rightarrow> u32 list" where
  "sha256 s = fold compress (chunks16 (to_words (pad_message (map of_char s)))) initial_hash"

definition hex_nibble :: "int \<Rightarrow> char" where
  "hex_nibble n = (if n < 10 then char_of (48 + n) else char_of (87 + n))"

definition word_hex :: "u32 \<Rightarrow> string" where
  "word_hex w = map (\<lambda>i. hex_nibble (uint w div 16 ^ (7 - i) mod 16)) [0..<8]"

definition sha256_hex :: "string \<Rightarrow> string" where
  "sha256_hex s = concat (map word_hex (sha256 s))"

text \<open>A digest is text over the hexadecimal digits.\<close>

lemma hex_nibbles: "list_all (\<lambda>k. hex_nibble (int k) \<in> set ''0123456789abcdef'') [0..<16]"
  by code_simp

lemma hex_nibble_cases: "0 \<le> n \<Longrightarrow> n < 16 \<Longrightarrow> hex_nibble n \<in> set ''0123456789abcdef''"
  using bspec [OF hex_nibbles [unfolded list_all_iff], of "nat n"] by simp

lemma sha256_hex_digits: "c \<in> set (sha256_hex s) \<Longrightarrow> c \<in> set ''0123456789abcdef''"
  unfolding sha256_hex_def word_hex_def
  by (auto simp del: list.set intro!: hex_nibble_cases)

lemma length_round_step: "length (round_step st kw) = length st"
  by (induction st kw rule: round_step.induct) (simp_all add: Let_def)

lemma length_rounds: "length (foldl round_step st kws) = length st"
  by (induction kws arbitrary: st) (simp_all add: length_round_step)

lemma length_sha256: "length (sha256 s) = 8"
proof -
  have "length (fold compress bs st) = length st" for bs st
    by (induction bs arbitrary: st) (simp_all add: compress_def length_rounds)
  then show ?thesis by (simp add: sha256_def initial_hash_def)
qed

text \<open>Every digest has 64 hexadecimal digits.\<close>

lemma length_sha256_hex [simp]: "length (sha256_hex s) = 64"
proof -
  have "length (concat (map word_hex ws)) = 8 * length ws" for ws
    by (induction ws) (simp_all add: word_hex_def)
  then show ?thesis by (simp add: sha256_hex_def length_sha256)
qed

lemma sha256_hex_nonempty [simp]: "sha256_hex s \<noteq> []"
  using length_sha256_hex [of s] by (cases "sha256_hex s") auto

end
