(* ===== verification/Regex.thy ===== *)
theory Regex
  imports Prelude
begin

text \<open>
  The part of Python's \<open>re\<close> the source uses, as a backtracking matcher. \<open>alts r st\<close>
  lists every way \<open>r\<close> can match at a position in the order the backtracking search tries
  them, so that its first element is the match \<open>re\<close> returns. A position is a zipper (the
  text before it, reversed, and the text after it) with the groups captured so far. Texts are
  UTF-8 bytes: a byte of a multi-byte character counts as a word character, and case folding
  outside ASCII is not modelled.
\<close>

record rx_state =
  consumed :: string
  ahead :: string
  groups :: "(nat \<times> string) list"

datatype rx =
    Chr "char \<Rightarrow> bool"
  | Eps
  | Seq rx rx
  | Alt rx rx
  | Rep bool nat "nat option" rx
  | Group nat rx
  | WordB
  | NotBehind "char \<Rightarrow> bool"
  | Ahead rx

definition is_word :: "char \<Rightarrow> bool" where
  "is_word c = (is_alpha c \<or> is_digit c \<or> c = CHR ''_'' \<or> (of_char c :: nat) \<ge> 128)"

definition word_boundary :: "rx_state \<Rightarrow> bool" where
  "word_boundary st =
     ((case consumed st of [] \<Rightarrow> False | c # _ \<Rightarrow> is_word c)
        \<noteq> (case ahead st of [] \<Rightarrow> False | c # _ \<Rightarrow> is_word c))"

definition rx_char :: "(char \<Rightarrow> bool) \<Rightarrow> rx_state \<Rightarrow> rx_state list" where
  "rx_char p st = (case ahead st of
     [] \<Rightarrow> []
   | c # cs \<Rightarrow> (if p c then [st\<lparr>consumed := c # consumed st, ahead := cs\<rparr>] else []))"

text \<open>
  Repetition between \<open>lo\<close> and \<open>hi\<close> times, preferring more iterations when greedy. An
  iteration past the minimum has to consume a character, so the length of the remaining text
  bounds the iterations.
\<close>

fun rx_iter :: "(rx_state \<Rightarrow> rx_state list) \<Rightarrow> bool \<Rightarrow> nat \<Rightarrow> nat option \<Rightarrow> nat \<Rightarrow> rx_state \<Rightarrow> rx_state list" where
  "rx_iter f g (Suc lo) hi k st =
     concat (map (rx_iter f g lo (map_option (\<lambda>h. h - 1) hi) k) (f st))"
| "rx_iter f g 0 hi 0 st = [st]"
| "rx_iter f g 0 hi (Suc k) st =
     (if hi = Some 0 then [st]
      else let more = concat (map (rx_iter f g 0 (map_option (\<lambda>h. h - 1) hi) k)
                        (filter (\<lambda>st'. length (ahead st') < length (ahead st)) (f st))) in
        if g then more @ [st] else st # more)"

definition captured :: "rx_state \<Rightarrow> rx_state \<Rightarrow> string" where
  "captured st st' = rev (take (length (consumed st') - length (consumed st)) (consumed st'))"

primrec alts :: "rx \<Rightarrow> rx_state \<Rightarrow> rx_state list" where
  "alts (Chr p) st = rx_char p st"
| "alts Eps st = [st]"
| "alts (Seq a b) st = concat (map (alts b) (alts a st))"
| "alts (Alt a b) st = alts a st @ alts b st"
| "alts (Rep g lo hi r) st = rx_iter (alts r) g lo hi (length (ahead st)) st"
| "alts (Group n r) st =
     map (\<lambda>st'. st'\<lparr>groups := (n, captured st st') # groups st'\<rparr>) (alts r st)"
| "alts WordB st = (if word_boundary st then [st] else [])"
| "alts (NotBehind p) st = (case consumed st of [] \<Rightarrow> [st] | c # _ \<Rightarrow> (if p c then [] else [st]))"
| "alts (Ahead r) st = (if alts r st = [] then [] else [st])"

text \<open>
  \<open>finditer\<close> and \<open>sub\<close>: the text from left to right, as the characters outside every
  match and the matches. No pattern of the source matches the empty string.
\<close>

datatype piece = Plain char | Hit string "(nat \<times> string) list"

definition rx_first :: "rx \<Rightarrow> string \<Rightarrow> string \<Rightarrow> rx_state option" where
  "rx_first r b a = (case alts r \<lparr>consumed = b, ahead = a, groups = []\<rparr> of
     [] \<Rightarrow> None
   | st # _ \<Rightarrow> (if length (ahead st) < length a then Some st else None))"

lemma rx_first_shorter: "rx_first r b a = Some st \<Longrightarrow> length (ahead st) < length a"
  by (auto simp: rx_first_def split: list.splits if_splits)

function rx_pieces :: "rx \<Rightarrow> string \<Rightarrow> string \<Rightarrow> piece list" where
  "rx_pieces r b [] = []"
| "rx_pieces r b (c # cs) =
     (case rx_first r b (c # cs) of
        None \<Rightarrow> Plain c # rx_pieces r (c # b) cs
      | Some st \<Rightarrow> Hit (take (length (c # cs) - length (ahead st)) (c # cs)) (groups st)
                    # rx_pieces r (consumed st) (ahead st))"
  by pat_completeness auto
termination
  by (relation "measure (\<lambda>(r, b, a). length a)") (auto dest: rx_first_shorter)

definition finditer :: "rx \<Rightarrow> string \<Rightarrow> (string \<times> (nat \<times> string) list) list" where
  "finditer r s = concat (map (\<lambda>p. case p of Plain c \<Rightarrow> [] | Hit t gs \<Rightarrow> [(t, gs)]) (rx_pieces r [] s))"

definition rx_sub :: "rx \<Rightarrow> (string \<Rightarrow> (nat \<times> string) list \<Rightarrow> string) \<Rightarrow> string \<Rightarrow> string" where
  "rx_sub r f s = concat (map (\<lambda>p. case p of Plain c \<Rightarrow> [c] | Hit t gs \<Rightarrow> f t gs) (rx_pieces r [] s))"

definition rx_search :: "rx \<Rightarrow> string \<Rightarrow> bool" where
  "rx_search r s = (finditer r s \<noteq> [])"

section \<open>Abbreviations for patterns\<close>

definition Lit :: "string \<Rightarrow> rx" where
  "Lit s = foldr (\<lambda>c r. Seq (Chr ((=) c)) r) s Eps"

text \<open>A literal under \<open>(?i)\<close>.\<close>

definition LitI :: "string \<Rightarrow> rx" where
  "LitI s = foldr (\<lambda>c r. Seq (Chr (\<lambda>d. lower_char d = lower_char c)) r) s Eps"

definition seqs :: "rx list \<Rightarrow> rx" where
  "seqs rs = foldr Seq rs Eps"

definition one_of :: "rx list \<Rightarrow> rx" where
  "one_of rs = foldr Alt (butlast rs) (last rs)"

definition many :: "nat \<Rightarrow> (char \<Rightarrow> bool) \<Rightarrow> rx" where
  "many lo p = Rep True lo None (Chr p)"

definition between :: "nat \<Rightarrow> nat \<Rightarrow> (char \<Rightarrow> bool) \<Rightarrow> rx" where
  "between lo hi p = Rep True lo (Some hi) (Chr p)"

definition opt :: "(char \<Rightarrow> bool) \<Rightarrow> rx" where
  "opt p = between 0 1 p"

fun group_ids :: "rx \<Rightarrow> nat list" where
  "group_ids (Seq a b) = group_ids a @ group_ids b"
| "group_ids (Alt a b) = group_ids a @ group_ids b"
| "group_ids (Rep g lo hi r) = group_ids r"
| "group_ids (Group n r) = n # group_ids r"
| "group_ids (Ahead r) = group_ids r"
| "group_ids _ = []"

section \<open>Facts\<close>

text \<open>A match moves a prefix of the text across the cursor.\<close>

definition rx_moves :: "rx_state \<Rightarrow> rx_state \<Rightarrow> bool" where
  "rx_moves st st' = (\<exists>u. ahead st = u @ ahead st' \<and> consumed st' = rev u @ consumed st)"

lemma rx_moves_refl [simp]: "rx_moves st st"
  by (auto simp: rx_moves_def)

lemma rx_moves_trans [trans]: "rx_moves a b \<Longrightarrow> rx_moves b c \<Longrightarrow> rx_moves a c"
  by (fastforce simp: rx_moves_def)

lemma rx_moves_groups [simp]: "rx_moves st (st'\<lparr>groups := gs\<rparr>) = rx_moves st st'"
  by (simp add: rx_moves_def)

lemma rx_iter_moves:
  assumes "\<And>st st'. st' \<in> set (f st) \<Longrightarrow> rx_moves st st'"
    and "st' \<in> set (rx_iter f g lo hi k st)"
  shows "rx_moves st st'"
  using assms
proof (induction f g lo hi k st rule: rx_iter.induct)
  case (1 f g lo hi k st)
  from "1.prems" obtain y where y: "y \<in> set (f st)"
    "st' \<in> set (rx_iter f g lo (map_option (\<lambda>h. h - 1) hi) k y)" by auto
  show ?case by (rule rx_moves_trans [OF "1.prems"(1) [OF y(1)] "1.IH" [OF y(1) "1.prems"(1) y(2)]])
next
  case (3 f g hi k st)
  show ?case
  proof (cases "st' = st")
    case False
    then obtain y where h: "hi \<noteq> Some 0" and y: "y \<in> set (filter (\<lambda>y. length (ahead y) < length (ahead st)) (f st))"
      "st' \<in> set (rx_iter f g 0 (map_option (\<lambda>h. h - 1) hi) k y)"
      using "3.prems"(2) by (auto simp: Let_def split: if_splits)
    have "rx_moves y st'" by (rule "3.IH" [OF h y(1) "3.prems"(1) y(2)])
    with y(1) "3.prems"(1) show ?thesis by (auto intro: rx_moves_trans)
  qed simp
qed simp

lemma alts_moves: "st' \<in> set (alts r st) \<Longrightarrow> rx_moves st st'"
proof (induction r arbitrary: st st')
  case (Chr p)
  then show ?case by (auto simp: rx_char_def rx_moves_def split: list.splits if_splits)
next
  case (Seq a b)
  then show ?case by simp (metis rx_moves_trans)
next
  case (Rep g lo hi r)
  then show ?case using rx_iter_moves [of "alts r"] by auto
qed (auto split: if_splits list.splits)

lemma rx_first_moves:
  assumes "rx_first r b a = Some st"
  obtains u where "u \<noteq> []" "a = u @ ahead st" "consumed st = rev u @ b"
proof -
  from assms obtain rest where "alts r \<lparr>consumed = b, ahead = a, groups = []\<rparr> = st # rest"
    and l: "length (ahead st) < length a"
    by (auto simp: rx_first_def split: list.splits if_splits)
  then have "rx_moves \<lparr>consumed = b, ahead = a, groups = []\<rparr> st"
    using alts_moves by (metis list.set_intros(1))
  then show thesis using l that by (auto simp: rx_moves_def)
qed

text \<open>The pieces are a partition of the text.\<close>

fun piece_text :: "piece \<Rightarrow> string" where
  "piece_text (Plain c) = [c]"
| "piece_text (Hit t gs) = t"

lemma rx_pieces_text: "concat (map piece_text (rx_pieces r b a)) = a"
proof (induction r b a rule: rx_pieces.induct)
  case (2 r b c cs)
  show ?case
  proof (cases "rx_first r b (c # cs)")
    case None
    then show ?thesis using 2 by simp
  next
    case (Some st)
    from rx_first_moves [OF this] obtain u where u: "c # cs = u @ ahead st" by metis
    then have tk: "take (length (c # cs) - length (ahead st)) (c # cs) = u" by simp
    have "concat (map piece_text (rx_pieces r b (c # cs))) = u @ ahead st"
      using 2(2) [OF Some] Some tk by simp
    then show ?thesis using u by simp
  qed
qed simp

lemma rx_sub_no_hit: "finditer r s = [] \<Longrightarrow> rx_sub r f s = s"
proof -
  assume e: "finditer r s = []"
  have "\<exists>c. p = Plain c" if "p \<in> set (rx_pieces r [] s)" for p
    using e that by (cases p) (auto simp: finditer_def)
  then have "map (\<lambda>p. case p of Plain c \<Rightarrow> [c] | Hit t gs \<Rightarrow> f t gs) (rx_pieces r [] s)
    = map piece_text (rx_pieces r [] s)" by (intro map_cong) fastforce+
  then show ?thesis unfolding rx_sub_def by (simp only: rx_pieces_text)
qed

text \<open>Every match is a nonempty part of the text that the rest surrounds.\<close>

lemma finditer_infix:
  assumes "(t, gs) \<in> set (finditer r s)"
  shows "t \<noteq> [] \<and> (\<exists>u v. s = u @ t @ v)"
proof -
  have "Hit t gs \<in> set (rx_pieces r b a) \<Longrightarrow> t \<noteq> [] \<and> (\<exists>u v. a = u @ t @ v)" for b a
  proof (induction r b a rule: rx_pieces.induct)
    case (2 r b c cs)
    show ?case
    proof (cases "rx_first r b (c # cs)")
      case None
      then have "Hit t gs \<in> set (rx_pieces r (c # b) cs)" using 2(3) by simp
      from 2(1) [OF None this] obtain u v where "t \<noteq> []" "cs = u @ t @ v" by blast
      then have "c # cs = (c # u) @ t @ v" by simp
      then show ?thesis using \<open>t \<noteq> []\<close> by blast
    next
      case (Some st)
      from rx_first_moves [OF this] obtain u where u: "c # cs = u @ ahead st" "u \<noteq> []" by metis
      then have tk: "take (length (c # cs) - length (ahead st)) (c # cs) = u" by simp
      show ?thesis
      proof (cases "Hit t gs \<in> set (rx_pieces r (consumed st) (ahead st))")
        case True
        then show ?thesis using 2(2) [OF Some] u by (metis append.assoc)
      next
        case False
        then have "t = u" using 2(3) Some tk by simp
        then show ?thesis using u by (metis append_Nil)
      qed
    qed
  qed simp
  moreover have "Hit t gs \<in> set (rx_pieces r [] s)"
    using assms by (auto simp: finditer_def split: piece.splits)
  ultimately show ?thesis by blast
qed

end
