(* ===== verification/Annotations.thy ===== *)
theory Annotations
  imports PyJson
begin

text \<open>
  \<open>src/src/hotmem/annotations.py\<close>: the annotation envelope carried under
  \<open>metadata.annotations\<close>. Structural validation (depth, schema version, size limits,
  namespace names, items, evidence references) and the deterministic merge by namespace and
  item id. An \<open>AnnotationValidationError\<close> is its path and the reason of the \<open>_fail\<close>
  call that raised it; the Python exceptions that malformed input can raise instead are the
  other constructors of \<open>ann_error\<close>.
\<close>

section \<open>Constants and errors\<close>

definition SCHEMA_VERSION :: int where "SCHEMA_VERSION = 1"
definition MAX_ENVELOPE_BYTES :: nat where "MAX_ENVELOPE_BYTES = 128 * 1024"
definition MAX_ITEMS :: nat where "MAX_ITEMS = 1000"
definition MAX_DEPTH :: nat where "MAX_DEPTH = 8"
definition NAMESPACE_MIN_LABELS :: nat where "NAMESPACE_MIN_LABELS = 2"

datatype ann_reason =
    ExceedsDepth
  | NamespaceKeyEmpty
  | NamespaceTooFewLabels string
  | NamespaceBadLabel string string
  | ItemNotObject
  | ItemIdMissing
  | ConfidenceNotNumber
  | ConfidenceOutOfRange json
  | EvidenceNotList
  | EvidenceStringEmpty
  | EvidenceBadEntry
  | EvidenceMemoryIdEmpty
  | EvidenceUnknownMemory string
  | EvidenceUriEmpty
  | EvidenceNoTarget
  | EnvelopeNotObject
  | BadSchemaVersion json
  | EnvelopeTooLarge nat
  | NamespacesNotObject
  | NamespaceNotList
  | DuplicateItemId string string
  | TooManyItems string
  | ProducersNotObject

datatype ann_error =
    AnnotationValidationError string ann_reason
  | PyOverflowError
  | PyTypeError
  | PyKeyError
  | PyAttributeError
  | Unmodelled

type_synonym 'a ann = "ann_error + 'a"

definition fail :: "string \<Rightarrow> ann_reason \<Rightarrow> 'a ann" where
  "fail path r = Inl (AnnotationValidationError (''metadata.annotations'' @ path) r)"

lemma fail_neq_Inr [simp]: "fail p r \<noteq> Inr x"
  by (simp add: fail_def)

section \<open>Depth\<close>

text \<open>
  The children of a container with the path suffixes the code gives them: \<open>.key\<close> for a
  dictionary, \<open>[idx]\<close> for a list.
\<close>

fun json_children :: "json \<Rightarrow> (string \<times> json) list" where
  "json_children (JObj d) = map (\<lambda>(k, v). (CHR ''.'' # k, v)) d"
| "json_children (JList xs) =
     map (\<lambda>(i, v). (CHR ''['' # nat_str i @ '']'', v)) (zip [0..<length xs] xs)"
| "json_children _ = []"

function check_depth :: "json \<Rightarrow> nat \<Rightarrow> string \<Rightarrow> unit ann" where
  "check_depth value depth path =
     (if MAX_DEPTH < depth then fail path ExceedsDepth
      else rbind (traverse (\<lambda>(suffix, item). check_depth item (depth + 1) (path @ suffix))
                   (json_children value)) (\<lambda>_. Inr ()))"
  by pat_completeness auto
termination
  by (relation "measure (\<lambda>(value, depth, path). Suc MAX_DEPTH - depth)") (auto simp: not_less)

declare check_depth.simps [simp del]

section \<open>Names, evidence and items\<close>

text \<open>\<open>re.fullmatch(r"[a-z0-9]([a-z0-9-]*[a-z0-9])?", label)\<close>\<close>

definition label_alnum :: "char \<Rightarrow> bool" where
  "label_alnum c = (is_lower_ascii c \<or> is_digit c)"

definition label_ok :: "string \<Rightarrow> bool" where
  "label_ok l = (l \<noteq> [] \<and> label_alnum (hd l) \<and> label_alnum (last l)
                 \<and> list_all (\<lambda>c. label_alnum c \<or> c = CHR ''-'') l)"

definition validate_namespace_name :: "string \<Rightarrow> unit ann" where
  "validate_namespace_name name =
     (if name = [] then fail ''.namespaces'' NamespaceKeyEmpty
      else let labels = split_on (CHR ''.'') name in
        if length labels < NAMESPACE_MIN_LABELS then fail ''.namespaces'' (NamespaceTooFewLabels name)
        else rbind (traverse (\<lambda>label. if label_ok label then Inr ()
                       else fail ''.namespaces'' (NamespaceBadLabel name label)) labels) (\<lambda>_. Inr ()))"

text \<open>The code tests membership of the two keys in order: a local reference, then a URI.\<close>

definition validate_evidence_entry :: "json \<Rightarrow> string \<Rightarrow> string list option \<Rightarrow> unit ann" where
  "validate_evidence_entry entry path known_ids = (case entry of
     JStr s \<Rightarrow> (if strip s = [] then fail path EvidenceStringEmpty else Inr ())
   | JObj d \<Rightarrow>
       (case map_of d ''memory_id'' of
          Some m \<Rightarrow> (case m of
              JStr memory_id \<Rightarrow>
                (if strip memory_id = [] then fail path EvidenceMemoryIdEmpty
                 else (case known_ids of
                     Some ids \<Rightarrow> (if memory_id \<in> set ids then Inr ()
                                  else fail path (EvidenceUnknownMemory memory_id))
                   | None \<Rightarrow> Inr ()))
            | _ \<Rightarrow> fail path EvidenceMemoryIdEmpty)
        | None \<Rightarrow> (case map_of d ''uri'' of
              Some u \<Rightarrow> (case u of
                  JStr uri \<Rightarrow> (if strip uri = [] then fail path EvidenceUriEmpty else Inr ())
                | _ \<Rightarrow> fail path EvidenceUriEmpty)
            | None \<Rightarrow> fail path EvidenceNoTarget))
   | _ \<Rightarrow> fail path EvidenceBadEntry)"

text \<open>
  \<open>float(i)\<close> of an integer that rounds to \<open>2 ^ 1024\<close> or more raises \<open>OverflowError\<close>.
\<close>

definition float_overflows :: "int \<Rightarrow> bool" where
  "float_overflows i = (2 ^ 1024 - 2 ^ 970 \<le> \<bar>i\<bar>)"

definition validate_confidence :: "json \<Rightarrow> string \<Rightarrow> unit ann" where
  "validate_confidence confidence path = (case confidence of
     JNull \<Rightarrow> Inr ()
   | JInt i \<Rightarrow> (if float_overflows i then Inl PyOverflowError
               else if 0 \<le> i \<and> i \<le> 1 then Inr ()
               else fail path (ConfidenceOutOfRange confidence))
   | JFloat f \<Rightarrow> (if is_finite f \<and> fle (FDec 0 0) f \<and> fle f (FDec 1 0) then Inr ()
                 else fail path (ConfidenceOutOfRange confidence))
   | _ \<Rightarrow> fail path ConfidenceNotNumber)"

definition enumerate_paths :: "string \<Rightarrow> 'a list \<Rightarrow> (string \<times> 'a) list" where
  "enumerate_paths path xs = map (\<lambda>(i, x). (path @ CHR ''['' # nat_str i @ '']'', x)) (zip [0..<length xs] xs)"

definition validate_evidence :: "json \<Rightarrow> string \<Rightarrow> string list option \<Rightarrow> unit ann" where
  "validate_evidence evidence path known_ids = (case evidence of
     JNull \<Rightarrow> Inr ()
   | JList es \<Rightarrow> rbind (traverse (\<lambda>(p, e). validate_evidence_entry e p known_ids) (enumerate_paths path es))
                       (\<lambda>_. Inr ())
   | _ \<Rightarrow> fail path EvidenceNotList)"

definition validate_item :: "json \<Rightarrow> string \<Rightarrow> nat \<Rightarrow> string list option \<Rightarrow> unit ann" where
  "validate_item item namespace index known_ids =
     (let path = ''.namespaces.'' @ namespace @ CHR ''['' # nat_str index @ '']'' in
      case item of
        JObj d \<Rightarrow>
          (case dget d ''id'' of
             JStr s \<Rightarrow>
               (if strip s = [] then fail path ItemIdMissing
                else rbind (validate_confidence (dget d ''confidence'') (path @ ''.confidence''))
                       (\<lambda>_. validate_evidence (dget d ''evidence'') (path @ ''.evidence'') known_ids))
           | _ \<Rightarrow> fail path ItemIdMissing)
      | _ \<Rightarrow> fail path ItemNotObject)"

section \<open>The envelope\<close>

text \<open>\<open>item["id"]\<close> of a validated item.\<close>

definition item_id :: "json \<Rightarrow> string" where
  "item_id item = (case dget (dict_of item) ''id'' of JStr s \<Rightarrow> s | _ \<Rightarrow> [])"

definition serialized_size :: "json \<Rightarrow> nat" where
  "serialized_size v = length (dumps True v)"

definition count_list_items :: "dict \<Rightarrow> nat" where
  "count_list_items namespaces =
     sum_list (map (\<lambda>(name, items). case items of JList xs \<Rightarrow> length xs | _ \<Rightarrow> 0) namespaces)"

definition envelope_exceeds_limits :: "json \<Rightarrow> bool" where
  "envelope_exceeds_limits annotations = (case annotations of
     JObj d \<Rightarrow>
       (if MAX_ENVELOPE_BYTES < serialized_size annotations then True
        else (case get_or d ''namespaces'' (JObj []) of
                JObj namespaces \<Rightarrow> MAX_ITEMS < count_list_items namespaces
              | _ \<Rightarrow> False))
   | _ \<Rightarrow> False)"

definition check_limits :: "json \<Rightarrow> unit ann" where
  "check_limits annotations = (case annotations of
     JObj d \<Rightarrow> (if MAX_ENVELOPE_BYTES < serialized_size annotations
                then fail [] (EnvelopeTooLarge (serialized_size annotations)) else Inr ())
   | _ \<Rightarrow> Inr ())"

text \<open>The inner loop: every item is validated, then its id must be new in the namespace.\<close>

fun validate_items :: "string \<Rightarrow> string list option \<Rightarrow> nat \<Rightarrow> string list \<Rightarrow> json list \<Rightarrow> unit ann" where
  "validate_items name known_ids index seen_ids [] = Inr ()"
| "validate_items name known_ids index seen_ids (item # items) =
     rbind (validate_item item name index known_ids)
       (\<lambda>_. if item_id item \<in> set seen_ids
            then fail (''.namespaces.'' @ name @ CHR ''['' # nat_str index @ '']'')
                      (DuplicateItemId (item_id item) name)
            else validate_items name known_ids (Suc index) (item_id item # seen_ids) items)"

text \<open>The outer loop, with the running total of items.\<close>

fun validate_namespaces :: "string list option \<Rightarrow> nat \<Rightarrow> dict \<Rightarrow> unit ann" where
  "validate_namespaces known_ids total_items [] = Inr ()"
| "validate_namespaces known_ids total_items ((name, items) # rest) =
     rbind (validate_namespace_name name)
       (\<lambda>_. case items of
          JList xs \<Rightarrow>
            rbind (validate_items name known_ids 0 [] xs)
              (\<lambda>_. let total = total_items + length xs in
                 if MAX_ITEMS < total then fail ''.namespaces'' (TooManyItems name)
                 else validate_namespaces known_ids total rest)
        | _ \<Rightarrow> fail (''.namespaces.'' @ name) NamespaceNotList)"

definition validate_annotations :: "json \<Rightarrow> string list option \<Rightarrow> unit ann" where
  "validate_annotations annotations known_ids = (case annotations of
     JObj d \<Rightarrow>
       rbind (check_depth annotations 0 [])
         (\<lambda>_. if \<not> json_eq (dget d ''schema_version'') (JInt SCHEMA_VERSION)
              then fail ''.schema_version'' (BadSchemaVersion (dget d ''schema_version''))
              else rbind (check_limits annotations)
                (\<lambda>_. let raw = dget d ''namespaces''; namespaces = (if raw = JNull then JObj [] else raw) in
                   case namespaces of
                     JObj ns \<Rightarrow>
                       rbind (validate_namespaces known_ids 0 ns)
                         (\<lambda>_. if dget d ''producers'' \<noteq> JNull \<and> \<not> is_dict (dget d ''producers'')
                              then fail ''.producers'' ProducersNotObject else Inr ())
                   | _ \<Rightarrow> fail ''.namespaces'' NamespacesNotObject))
   | _ \<Rightarrow> fail [] EnvelopeNotObject)"

definition validate_metadata :: "json \<Rightarrow> string list option \<Rightarrow> unit ann" where
  "validate_metadata metadata known_ids = (case metadata of
     JObj d \<Rightarrow> (if has_key d ''annotations'' then validate_annotations (dget d ''annotations'') known_ids
                else Inr ())
   | _ \<Rightarrow> Inr ())"

section \<open>Facts about the values\<close>

lemma foldr_max_le: "foldr max xs (0::nat) \<le> n \<longleftrightarrow> (\<forall>x \<in> set xs. x \<le> n)"
  by (induction xs) auto

lemma children_list_snd: "snd ` set (json_children (JList xs)) = set xs"
  by (force simp: image_iff set_zip in_set_conv_nth)

text \<open>The depth bound of a value is one less on each child, whatever the container.\<close>

lemma json_depth_le_iff:
  "json_depth v \<le> n \<longleftrightarrow> (\<forall>(s, c) \<in> set (json_children v). json_depth c < n)"
proof (cases v)
  case (JList xs)
  have "json_depth v \<le> n \<longleftrightarrow> (\<forall>c \<in> set xs. json_depth c < n)"
    by (cases xs; cases n) (auto simp: JList foldr_max_le less_Suc_eq_le)
  also have "\<dots> \<longleftrightarrow> (\<forall>c \<in> snd ` set (json_children v). json_depth c < n)"
    by (simp only: JList children_list_snd)
  finally show ?thesis by (simp add: case_prod_beta)
next
  case (JObj d)
  then show ?thesis
    by (cases d; cases n) (auto simp: foldr_max_le less_Suc_eq_le split: prod.splits)
qed auto

lemma json_depth_JObj_le:
  "json_depth (JObj d) \<le> n \<longleftrightarrow> (\<forall>(k, v) \<in> set d. json_depth v < n)"
  by (subst json_depth_le_iff) auto

lemma json_depth_JList_le:
  "json_depth (JList xs) \<le> n \<longleftrightarrow> (\<forall>v \<in> set xs. json_depth v < n)"
proof -
  have "json_depth (JList xs) \<le> n \<longleftrightarrow> (\<forall>v \<in> snd ` set (json_children (JList xs)). json_depth v < n)"
    by (subst json_depth_le_iff) (auto simp: case_prod_beta)
  then show ?thesis by (simp only: children_list_snd)
qed

lemma check_depth_iff:
  "check_depth v depth path = Inr () \<longleftrightarrow> depth + json_depth v \<le> MAX_DEPTH"
proof (induction v depth path rule: check_depth.induct)
  case (1 v depth path)
  show ?case
  proof (cases "MAX_DEPTH < depth")
    case True
    then show ?thesis by (subst check_depth.simps) simp
  next
    case False
    have "check_depth v depth path = Inr () \<longleftrightarrow>
        (\<forall>(s, c) \<in> set (json_children v). check_depth c (depth + 1) (path @ s) = Inr ())"
      using False by (subst check_depth.simps) (auto simp: rbind_eq_Inr traverse_unit_iff)
    also have "\<dots> \<longleftrightarrow> (\<forall>(s, c) \<in> set (json_children v). depth + 1 + json_depth c \<le> MAX_DEPTH)"
      using "1.IH" [OF False] by (intro ball_cong refl) (simp add: case_prod_beta)
    also have "\<dots> \<longleftrightarrow> json_depth v \<le> MAX_DEPTH - depth"
      using False by (subst json_depth_le_iff) (auto simp: case_prod_beta)
    also have "\<dots> \<longleftrightarrow> depth + json_depth v \<le> MAX_DEPTH"
      using False by auto
    finally show ?thesis .
  qed
qed

section \<open>What a valid envelope is\<close>

text \<open>
  The declarative reading of the rules in the module's documentation, against which the
  validator is proved: an item has a non-blank string id, a confidence in \<open>[0, 1]\<close> when
  supplied, and resolvable evidence; a namespace is a reverse-DNS name whose items have distinct
  ids; the envelope is an object of schema version 1 within the three limits.
\<close>

definition confidence_ok :: "json \<Rightarrow> bool" where
  "confidence_ok c = (case c of
     JNull \<Rightarrow> True
   | JInt i \<Rightarrow> 0 \<le> i \<and> i \<le> 1
   | JFloat f \<Rightarrow> is_finite f \<and> fle (FDec 0 0) f \<and> fle f (FDec 1 0)
   | _ \<Rightarrow> False)"

definition nonblank_str :: "json \<Rightarrow> bool" where
  "nonblank_str v = (case v of JStr s \<Rightarrow> strip s \<noteq> [] | _ \<Rightarrow> False)"

definition evidence_entry_ok :: "string list option \<Rightarrow> json \<Rightarrow> bool" where
  "evidence_entry_ok known e = (case e of
     JStr s \<Rightarrow> strip s \<noteq> []
   | JObj d \<Rightarrow>
       (if has_key d ''memory_id''
        then nonblank_str (dget d ''memory_id'')
             \<and> (case known of None \<Rightarrow> True | Some ids \<Rightarrow> dget d ''memory_id'' \<in> JStr ` set ids)
        else nonblank_str (dget d ''uri''))
   | _ \<Rightarrow> False)"

definition item_ok :: "string list option \<Rightarrow> json \<Rightarrow> bool" where
  "item_ok known item = (case item of
     JObj d \<Rightarrow> nonblank_str (dget d ''id'') \<and> confidence_ok (dget d ''confidence'') \<and>
       (case dget d ''evidence'' of
          JNull \<Rightarrow> True
        | JList es \<Rightarrow> (\<forall>e \<in> set es. evidence_entry_ok known e)
        | _ \<Rightarrow> False)
   | _ \<Rightarrow> False)"

definition namespace_name_ok :: "string \<Rightarrow> bool" where
  "namespace_name_ok name = (NAMESPACE_MIN_LABELS \<le> length (split_on (CHR ''.'') name)
     \<and> (\<forall>l \<in> set (split_on (CHR ''.'') name). label_ok l))"

definition items_ok :: "string list option \<Rightarrow> json \<Rightarrow> bool" where
  "items_ok known items = (case items of
     JList xs \<Rightarrow> (\<forall>x \<in> set xs. item_ok known x) \<and> distinct (map item_id xs)
   | _ \<Rightarrow> False)"

definition namespaces_ok :: "string list option \<Rightarrow> dict \<Rightarrow> bool" where
  "namespaces_ok known ns = (\<forall>(name, items) \<in> set ns. namespace_name_ok name \<and> items_ok known items)"

definition envelope_ok :: "string list option \<Rightarrow> json \<Rightarrow> bool" where
  "envelope_ok known v = (case v of
     JObj d \<Rightarrow>
       json_depth v \<le> MAX_DEPTH \<and> json_eq (dget d ''schema_version'') (JInt SCHEMA_VERSION) \<and>
       serialized_size v \<le> MAX_ENVELOPE_BYTES \<and>
       (case dget d ''namespaces'' of
          JNull \<Rightarrow> True
        | JObj ns \<Rightarrow> namespaces_ok known ns \<and> count_list_items ns \<le> MAX_ITEMS
        | _ \<Rightarrow> False) \<and>
       (dget d ''producers'' = JNull \<or> is_dict (dget d ''producers''))
   | _ \<Rightarrow> False)"

section \<open>The validator implements it\<close>

lemma validate_namespace_name_iff:
  "validate_namespace_name name = Inr () \<longleftrightarrow> namespace_name_ok name"
proof (cases "name = []")
  case True
  then show ?thesis
    by (simp add: validate_namespace_name_def namespace_name_ok_def NAMESPACE_MIN_LABELS_def)
next
  case False
  then show ?thesis
    by (auto simp: validate_namespace_name_def namespace_name_ok_def Let_def rbind_eq_Inr
        traverse_unit_iff split: if_splits)
qed

lemma validate_confidence_iff:
  "validate_confidence c path = Inr () \<longleftrightarrow> confidence_ok c"
  by (auto simp: validate_confidence_def confidence_ok_def float_overflows_def split: json.splits if_splits)

lemma validate_evidence_entry_iff:
  "validate_evidence_entry e path known = Inr () \<longleftrightarrow> evidence_entry_ok known e"
  by (auto simp: validate_evidence_entry_def evidence_entry_ok_def nonblank_str_def has_key_def dget_def
      split: json.splits option.splits if_splits)

lemma enumerate_paths_snd: "snd ` set (enumerate_paths path xs) = set xs"
  by (force simp: enumerate_paths_def image_iff set_zip in_set_conv_nth)

lemma traverse_enumerate_iff:
  fixes f :: "string \<Rightarrow> 'a \<Rightarrow> 'e + unit"
  assumes "\<And>p x. f p x = Inr () \<longleftrightarrow> P x"
  shows "(\<exists>us. traverse (\<lambda>(p, x). f p x) (enumerate_paths path xs) = Inr us) \<longleftrightarrow> (\<forall>x \<in> set xs. P x)"
proof -
  have "(\<exists>us. traverse (\<lambda>(p, x). f p x) (enumerate_paths path xs) = Inr us)
      \<longleftrightarrow> (\<forall>x \<in> snd ` set (enumerate_paths path xs). P x)"
    by (auto simp: traverse_unit_iff assms case_prod_beta)
  then show ?thesis by (simp only: enumerate_paths_snd)
qed

lemma validate_evidence_iff:
  "validate_evidence v path known = Inr () \<longleftrightarrow>
     (case v of JNull \<Rightarrow> True | JList es \<Rightarrow> (\<forall>e \<in> set es. evidence_entry_ok known e) | _ \<Rightarrow> False)"
  using traverse_enumerate_iff [of "\<lambda>p e. validate_evidence_entry e p known", OF validate_evidence_entry_iff]
  by (auto simp: validate_evidence_def rbind_eq_Inr split: json.splits)

lemma validate_item_iff:
  "validate_item item name i known = Inr () \<longleftrightarrow> item_ok known item"
  by (auto simp: validate_item_def item_ok_def nonblank_str_def Let_def rbind_eq_Inr validate_confidence_iff
      validate_evidence_iff split: json.splits if_splits)

lemma validate_items_iff:
  "validate_items name known i seen xs = Inr () \<longleftrightarrow>
     (\<forall>x \<in> set xs. item_ok known x) \<and> distinct (map item_id xs) \<and> set (map item_id xs) \<inter> set seen = {}"
proof (induction xs arbitrary: i seen)
  case (Cons x xs)
  show ?case
    by (auto simp: rbind_eq_Inr validate_item_iff Cons.IH split: if_splits)
qed simp

lemma validate_namespaces_iff:
  "n0 \<le> MAX_ITEMS \<Longrightarrow>
   validate_namespaces known n0 ns = Inr () \<longleftrightarrow>
     namespaces_ok known ns \<and> n0 + count_list_items ns \<le> MAX_ITEMS"
proof (induction ns arbitrary: n0)
  case Nil
  then show ?case by (simp add: namespaces_ok_def count_list_items_def)
next
  case (Cons p ns)
  obtain name items where p: "p = (name, items)" by (cases p)
  have step: "validate_namespaces known n0 (p # ns) = Inr () \<longleftrightarrow>
      namespace_name_ok name \<and> items_ok known items \<and> (\<exists>xs. items = JList xs \<and>
        n0 + length xs \<le> MAX_ITEMS \<and> validate_namespaces known (n0 + length xs) ns = Inr ())"
    by (cases items) (auto simp: p rbind_eq_Inr validate_namespace_name_iff validate_items_iff items_ok_def
        Let_def not_less)
  show ?case
    unfolding step using Cons.IH
    by (cases items) (auto simp: p namespaces_ok_def items_ok_def count_list_items_def add.assoc)
qed

lemma check_limits_iff:
  "check_limits (JObj d) = Inr () \<longleftrightarrow> serialized_size (JObj d) \<le> MAX_ENVELOPE_BYTES"
  by (simp add: check_limits_def)

text \<open>C32. The validator accepts exactly the envelopes the rules describe: it returns normally
if and only if the value is an object of JSON depth at most 8 and schema version 1, at most
131072 bytes long when serialised, whose namespaces are reverse-DNS names mapped to lists of at
most 1000 items in all, each item with a non-blank id unique in its namespace, a confidence in
[0, 1] when given and evidence that resolves against the known ids, and whose producers, when
given, are an object.\<close>

theorem validate_annotations_iff:
  "validate_annotations v known = Inr () \<longleftrightarrow> envelope_ok known v"
proof (cases v)
  case (JObj d)
  show ?thesis
    using check_depth_iff [of v 0 "[]"]
    by (cases "dget d ''namespaces''")
      (auto simp: JObj validate_annotations_def envelope_ok_def rbind_eq_Inr check_limits_iff Let_def
        validate_namespaces_iff not_less split: if_splits)
qed (simp_all add: validate_annotations_def envelope_ok_def)

text \<open>An item whose confidence is an integer too large for a double is not refused as an
invalid annotation: \<open>float()\<close> raises \<open>OverflowError\<close>, which is no
\<open>AnnotationValidationError\<close> and so passes the handlers of every hydrate path that
catches only that.\<close>

theorem validate_item_overflow:
  assumes "float_overflows n" "nonblank_str (dget d ''id'')" "dget d ''confidence'' = JInt n"
  shows "validate_item (JObj d) name index known = Inl PyOverflowError"
  using assms
  by (auto simp: validate_item_def validate_confidence_def nonblank_str_def Let_def split: json.splits)

theorem validate_item_overflow_witness:
  "validate_item (JObj [(''id'', JStr ''vendor''), (''confidence'', JInt (2 ^ 1024))]) ''org.example'' 0 None
     = Inl PyOverflowError"
  by (rule validate_item_overflow [where n = "2 ^ 1024"])
    (simp_all add: float_overflows_def nonblank_str_def dget_def strip_def is_space_def)

end
