(* ===== verification/AnnotationMerge.thy ===== *)
theory AnnotationMerge
  imports Annotations
begin

text \<open>
  \<open>src/src/hotmem/annotations.py\<close>, the merge half: \<open>merge_annotations\<close> by namespace and
  item id, with explicit conflicts. Proved: on valid envelopes the merge never fails, it is the
  map override of the target over the incoming items, every collision is recorded, and replaying
  it changes nothing.
\<close>

section \<open>Merge\<close>

record annotation_conflict =
  ac_namespace :: string
  ac_item_id :: json
  ac_target :: json
  ac_incoming :: json

record merge_outcome =
  mo_merged :: "dict option"
  mo_merged_items :: nat
  mo_conflicts :: "annotation_conflict list"

definition items_equal :: "json \<Rightarrow> json \<Rightarrow> bool" where
  "items_equal a b = (dumps True a = dumps True b)"

text \<open>
  Iterating or measuring a value the code takes for a list: a dictionary iterates over its keys, a
  string over its characters. Anything else raises \<open>TypeError\<close>.
\<close>

fun py_iter :: "json \<Rightarrow> json list ann" where
  "py_iter (JList xs) = Inr xs"
| "py_iter (JObj d) = Inr (map (\<lambda>(k, v). JStr k) d)"
| "py_iter (JStr s) = Inr (map JStr (utf8_chars s))"
| "py_iter _ = Inl PyTypeError"

text \<open>A method of a dictionary that is called on something else raises \<open>AttributeError\<close>.\<close>

fun as_dict :: "json \<Rightarrow> dict ann" where
  "as_dict (JObj d) = Inr d"
| "as_dict _ = Inl PyAttributeError"

text \<open>
  \<open>dict(x)\<close>, \<open>d.update(x)\<close> and the loop over the names of \<open>x\<close>, for a value \<open>x\<close> that is not a dictionary: what
  they do depends on the shape of its elements and is outside the model.
\<close>

fun as_mapping :: "json \<Rightarrow> dict ann" where
  "as_mapping (JObj d) = Inr d"
| "as_mapping _ = Inl Unmodelled"

text \<open>\<open>item["id"]\<close> used as a dictionary key: missing keys and unhashable values raise.\<close>

definition id_key :: "json \<Rightarrow> json ann" where
  "id_key item = (case item of
     JObj d \<Rightarrow> (case map_of d ''id'' of
         None \<Rightarrow> Inl PyKeyError
       | Some (JList _) \<Rightarrow> Inl PyTypeError
       | Some (JObj _) \<Rightarrow> Inl PyTypeError
       | Some v \<Rightarrow> Inr v)
   | _ \<Rightarrow> Inl PyTypeError)"

text \<open>\<open>{item["id"]: item for item in target_items}\<close>, latest entry first.\<close>

fun index_items :: "json list \<Rightarrow> (json \<times> json) list \<Rightarrow> (json \<times> json) list ann" where
  "index_items [] by_id = Inr by_id"
| "index_items (item # items) by_id =
     rbind (id_key item) (\<lambda>k. index_items items ((k, item) # by_id))"

definition find_id :: "json \<Rightarrow> (json \<times> json) list \<Rightarrow> json option" where
  "find_id k by_id = map_option snd (find (\<lambda>(k', _). json_eq k' k) by_id)"

record merge_state =
  ms_items :: "json list"
  ms_by_id :: "(json \<times> json) list"
  ms_conflicts :: "annotation_conflict list"
  ms_merged :: nat
  ms_changed :: bool

text \<open>One incoming item: appended, a no-op, or a conflict that keeps the target's version.\<close>

definition merge_item :: "string \<Rightarrow> json \<Rightarrow> merge_state \<Rightarrow> merge_state ann" where
  "merge_item name item st =
     rbind (id_key item) (\<lambda>k. case find_id k (ms_by_id st) of
       None \<Rightarrow> Inr (st\<lparr>ms_items := ms_items st @ [item], ms_by_id := (k, item) # ms_by_id st,
                     ms_merged := Suc (ms_merged st), ms_changed := True\<rparr>)
     | Some existing \<Rightarrow>
         (if items_equal existing item then Inr st
          else Inr (st\<lparr>ms_conflicts := ms_conflicts st @
                 [\<lparr>ac_namespace = name, ac_item_id = k, ac_target = existing, ac_incoming = item\<rparr>]\<rparr>)))"

text \<open>One incoming namespace; the counters are threaded through the loop over the names.\<close>

definition merge_namespace ::
    "dict \<Rightarrow> string \<Rightarrow> dict \<times> annotation_conflict list \<times> nat \<times> bool
       \<Rightarrow> (dict \<times> annotation_conflict list \<times> nat \<times> bool) ann" where
  "merge_namespace incoming_namespaces name acc = (case acc of (result, conflicts, merged, changed) \<Rightarrow>
     rbind (py_iter (dget incoming_namespaces name)) (\<lambda>incoming_items.
     rbind (case map_of result name of None \<Rightarrow> Inr [] | Some (JList xs) \<Rightarrow> Inr xs | Some _ \<Rightarrow> Inl PyTypeError)
       (\<lambda>target_items.
     rbind (index_items target_items []) (\<lambda>by_id.
     rbind (fold_res (merge_item name) incoming_items
              \<lparr>ms_items = target_items, ms_by_id = by_id, ms_conflicts = conflicts,
               ms_merged = merged, ms_changed = changed\<rparr>) (\<lambda>st.
       Inr (AList.update name (JList (ms_items st)) result, ms_conflicts st, ms_merged st, ms_changed st))))))"

definition count_items :: "dict \<Rightarrow> nat ann" where
  "count_items envelope =
     rbind (as_dict (get_or envelope ''namespaces'' (JObj []))) (\<lambda>ns.
     rbind (traverse (\<lambda>(name, items). map_sum id length (py_iter items)) ns) (\<lambda>lens. Inr (sum_list lens)))"

text \<open>The unknown top-level keys of one side, kept unless already present.\<close>

definition preserve_keys :: "dict \<Rightarrow> dict \<Rightarrow> dict" where
  "preserve_keys source merged = fold (\<lambda>(key, value) m.
     if has_key m key \<or> key \<in> {''namespaces'', ''producers'', ''schema_version''} then m
     else m @ [(key, value)]) source merged"

definition merge_annotations :: "json \<Rightarrow> json \<Rightarrow> merge_outcome ann" where
  "merge_annotations target incoming =
     (if \<not> truthy incoming then Inr \<lparr>mo_merged = None, mo_merged_items = 0, mo_conflicts = []\<rparr>
      else if \<not> truthy target then
        rbind (as_mapping incoming) (\<lambda>inc. rbind (count_items inc) (\<lambda>n.
          Inr \<lparr>mo_merged = Some inc, mo_merged_items = n, mo_conflicts = []\<rparr>))
      else
        rbind (as_dict incoming) (\<lambda>inc. rbind (as_dict target) (\<lambda>tgt.
        rbind (as_mapping (get_or inc ''namespaces'' (JObj []))) (\<lambda>incoming_namespaces.
        rbind (as_mapping (get_or tgt ''namespaces'' (JObj []))) (\<lambda>target_namespaces.
        rbind (traverse (\<lambda>(name, items). rbind (py_iter items) (\<lambda>xs. Inr (name, JList xs))) target_namespaces)
          (\<lambda>result_namespaces.
        rbind (fold_res (merge_namespace incoming_namespaces) (sort (map fst incoming_namespaces))
                 (result_namespaces, [], 0, False)) (\<lambda>(result, conflicts, merged_items, changed).
        rbind (as_mapping (get_or tgt ''producers'' (JObj []))) (\<lambda>target_producers.
        rbind (as_mapping (get_or inc ''producers'' (JObj []))) (\<lambda>incoming_producers.
          let producers = dict_update target_producers incoming_producers;
              producers_changed = (\<not> json_eq (JObj producers) (JObj target_producers)) in
          if \<not> changed \<and> \<not> producers_changed
          then Inr \<lparr>mo_merged = None, mo_merged_items = 0, mo_conflicts = conflicts\<rparr>
          else
            let base = [(''schema_version'', dget_default tgt ''schema_version'' (JInt SCHEMA_VERSION)),
                        (''namespaces'', JObj result)]
                       @ (if producers = [] then [] else [(''producers'', JObj producers)]);
                merged = preserve_keys inc (preserve_keys tgt base) in
            Inr \<lparr>mo_merged = Some merged, mo_merged_items = merged_items, mo_conflicts = conflicts\<rparr>)))))))))"

section \<open>The abstract merge\<close>

text \<open>
  An envelope seen as a map from namespace and item id to items. The merge is specified on it:
  the incoming items whose id the target does not have are added, and every id both sides have
  with different content is a collision.
\<close>

definition env_namespaces :: "json \<Rightarrow> dict" where
  "env_namespaces v = (case dget (dict_of v) ''namespaces'' of JObj ns \<Rightarrow> ns | _ \<Rightarrow> [])"

definition env_items :: "json \<Rightarrow> string \<Rightarrow> json list" where
  "env_items v name = (case map_of (env_namespaces v) name of Some (JList xs) \<Rightarrow> xs | _ \<Rightarrow> [])"

definition item_lookup :: "json list \<Rightarrow> string \<Rightarrow> json option" where
  "item_lookup xs k = find (\<lambda>x. item_id x = k) xs"

definition env_lookup :: "json \<Rightarrow> string \<Rightarrow> string \<Rightarrow> json option" where
  "env_lookup v name k = item_lookup (env_items v name) k"

definition new_items :: "json list \<Rightarrow> json list \<Rightarrow> json list" where
  "new_items T I = filter (\<lambda>y. item_lookup T (item_id y) = None) I"

definition collisions :: "string \<Rightarrow> json list \<Rightarrow> json list \<Rightarrow> annotation_conflict list" where
  "collisions name T I = concat (map (\<lambda>y. case item_lookup T (item_id y) of
       None \<Rightarrow> []
     | Some x \<Rightarrow> (if items_equal x y then []
         else [\<lparr>ac_namespace = name, ac_item_id = JStr (item_id y), ac_target = x, ac_incoming = y\<rparr>])) I)"

text \<open>The merged envelope of an outcome: the new one, or the target when nothing changed.\<close>

definition merge_result :: "json \<Rightarrow> merge_outcome \<Rightarrow> json" where
  "merge_result target out = (case mo_merged out of None \<Rightarrow> target | Some d \<Rightarrow> JObj d)"

definition str_ids :: "json list \<Rightarrow> bool" where
  "str_ids xs = (\<forall>x \<in> set xs. id_key x = Inr (JStr (item_id x)))"

lemma item_lookup_None: "item_lookup xs k = None \<longleftrightarrow> k \<notin> item_id ` set xs"
  by (auto simp: item_lookup_def find_None_iff image_iff)

lemma item_lookup_append:
  "item_lookup (xs @ ys) k = (case item_lookup xs k of None \<Rightarrow> item_lookup ys k | Some x \<Rightarrow> Some x)"
  by (induction xs) (auto simp: item_lookup_def)

lemma item_lookup_snoc:
  "item_lookup (xs @ [x]) k =
     (case item_lookup xs k of None \<Rightarrow> (if item_id x = k then Some x else None) | Some z \<Rightarrow> Some z)"
  by (subst item_lookup_append) (simp add: item_lookup_def split: option.splits)

lemma item_lookup_self: "distinct (map item_id xs) \<Longrightarrow> y \<in> set xs \<Longrightarrow> item_lookup xs (item_id y) = Some y"
  by (induction xs) (auto simp: item_lookup_def)

lemma item_lookup_Some_id: "item_lookup xs k = Some x \<Longrightarrow> item_id x = k \<and> x \<in> set xs"
  by (auto simp: item_lookup_def find_Some_iff)

lemma item_lookup_new_items:
  "item_lookup (T @ new_items T I) k = (case item_lookup T k of None \<Rightarrow> item_lookup I k | Some x \<Rightarrow> Some x)"
proof -
  have "item_lookup (new_items T I) k = item_lookup I k" if "item_lookup T k = None"
    using that by (induction I) (auto simp: new_items_def item_lookup_def)
  then show ?thesis by (auto simp: item_lookup_append split: option.splits)
qed

lemma item_ok_id_key: "item_ok known x \<Longrightarrow> id_key x = Inr (JStr (item_id x))"
  by (auto simp: item_ok_def nonblank_str_def id_key_def item_id_def dget_def
      split: json.splits option.splits)

lemma items_ok_str_ids: "items_ok known (JList xs) \<Longrightarrow> str_ids xs \<and> distinct (map item_id xs)"
  by (auto simp: items_ok_def str_ids_def dest: item_ok_id_key)

lemma json_eq_JStr: "json_eq v (JStr s) \<longleftrightarrow> v = JStr s"
  by (subst json_eq.simps) (auto split: json.splits option.splits)

section \<open>The loops compute it\<close>

lemma index_items_valid:
  "str_ids xs \<Longrightarrow> index_items xs acc = Inr (rev (map (\<lambda>x. (JStr (item_id x), x)) xs) @ acc)"
  by (induction xs arbitrary: acc) (auto simp: str_ids_def)

lemma find_id_Cons:
  "find_id (JStr k) ((JStr j, x) # l) = (if j = k then Some x else find_id (JStr k) l)"
  by (simp add: find_id_def json_eq_JStr)

lemma find_id_valid:
  assumes "distinct (map item_id xs)"
  shows "find_id (JStr k) (rev (map (\<lambda>x. (JStr (item_id x), x)) xs)) = item_lookup xs k"
  using assms
proof (induction xs rule: rev_induct)
  case Nil
  then show ?case by (simp add: find_id_def item_lookup_def)
next
  case (snoc x xs)
  have "item_lookup xs k = None" if "item_id x = k"
    using snoc.prems that by (auto simp: item_lookup_None)
  moreover have "find_id (JStr k) (rev (map (\<lambda>x. (JStr (item_id x), x)) xs)) = item_lookup xs k"
    using snoc by simp
  ultimately show ?case
    by (auto simp: find_id_Cons item_lookup_snoc split: option.splits)
qed

lemma new_items_Cons:
  "new_items T (y # ys) = (if item_lookup T (item_id y) = None then y # new_items T ys else new_items T ys)"
  by (simp add: new_items_def)

lemma new_items_snoc_target:
  "item_id y \<notin> item_id ` set ys \<Longrightarrow> new_items (T @ [y]) ys = new_items T ys"
  unfolding new_items_def
  by (rule filter_cong) (auto simp: item_lookup_snoc image_iff split: option.splits)

lemma collisions_snoc_target:
  assumes "item_id y \<notin> item_id ` set ys"
  shows "collisions name (T @ [y]) ys = collisions name T ys"
proof -
  have "item_lookup (T @ [y]) (item_id z) = item_lookup T (item_id z)" if "z \<in> set ys" for z
    using assms that by (auto simp: item_lookup_snoc image_iff split: option.splits)
  then have "map (\<lambda>z. case item_lookup (T @ [y]) (item_id z) of
       None \<Rightarrow> []
     | Some x \<Rightarrow> (if items_equal x z then []
         else [\<lparr>ac_namespace = name, ac_item_id = JStr (item_id z), ac_target = x, ac_incoming = z\<rparr>])) ys =
     map (\<lambda>z. case item_lookup T (item_id z) of
       None \<Rightarrow> []
     | Some x \<Rightarrow> (if items_equal x z then []
         else [\<lparr>ac_namespace = name, ac_item_id = JStr (item_id z), ac_target = x, ac_incoming = z\<rparr>])) ys"
    by (intro map_cong refl) simp
  then show ?thesis by (simp only: collisions_def)
qed

definition merge_state_ok :: "merge_state \<Rightarrow> bool" where
  "merge_state_ok st = (distinct (map item_id (ms_items st)) \<and>
     ms_by_id st = rev (map (\<lambda>x. (JStr (item_id x), x)) (ms_items st)))"

lemma merge_item_valid:
  assumes "merge_state_ok st" "id_key y = Inr (JStr (item_id y))"
  shows "merge_item name y st =
    (case item_lookup (ms_items st) (item_id y) of
       None \<Rightarrow> Inr (st\<lparr>ms_items := ms_items st @ [y], ms_by_id := (JStr (item_id y), y) # ms_by_id st,
                     ms_merged := Suc (ms_merged st), ms_changed := True\<rparr>)
     | Some x \<Rightarrow> Inr (st\<lparr>ms_conflicts := ms_conflicts st @ collisions name (ms_items st) [y]\<rparr>))"
  using assms
  by (auto simp: merge_item_def merge_state_ok_def find_id_valid collisions_def split: option.splits)

lemma merge_items_valid:
  assumes "merge_state_ok st" "str_ids ys" "distinct (map item_id ys)"
  shows "\<exists>st'. fold_res (merge_item name) ys st = Inr st' \<and>
    ms_items st' = ms_items st @ new_items (ms_items st) ys \<and>
    ms_conflicts st' = ms_conflicts st @ collisions name (ms_items st) ys \<and>
    ms_merged st' = ms_merged st + length (new_items (ms_items st) ys) \<and>
    ms_changed st' = (ms_changed st \<or> new_items (ms_items st) ys \<noteq> [])"
  using assms
proof (induction ys arbitrary: st)
  case Nil
  then show ?case by (simp add: new_items_def collisions_def)
next
  case (Cons y ys)
  have idk: "id_key y = Inr (JStr (item_id y))" and ys: "str_ids ys" "distinct (map item_id ys)"
    and fresh: "item_id y \<notin> item_id ` set ys"
    using Cons.prems by (auto simp: str_ids_def)
  show ?case
  proof (cases "item_lookup (ms_items st) (item_id y)")
    case None
    define st1 where "st1 = st\<lparr>ms_items := ms_items st @ [y], ms_by_id := (JStr (item_id y), y) # ms_by_id st,
                     ms_merged := Suc (ms_merged st), ms_changed := True\<rparr>"
    have "merge_item name y st = Inr st1"
      using merge_item_valid [OF Cons.prems(1) idk] None by (simp add: st1_def)
    moreover have "merge_state_ok st1"
      using Cons.prems(1) None by (auto simp: merge_state_ok_def st1_def item_lookup_None)
    moreover have "collisions name (ms_items st) (y # ys) = collisions name (ms_items st) ys"
      using None by (simp add: collisions_def)
    ultimately show ?thesis
      using Cons.IH [of st1] ys None fresh
      by (simp add: st1_def new_items_Cons new_items_snoc_target collisions_snoc_target)
  next
    case (Some x)
    define st1 where "st1 = st\<lparr>ms_conflicts := ms_conflicts st @ collisions name (ms_items st) [y]\<rparr>"
    have "merge_item name y st = Inr st1"
      using merge_item_valid [OF Cons.prems(1) idk] Some by (simp add: st1_def)
    moreover have "merge_state_ok st1"
      using Cons.prems(1) by (simp add: merge_state_ok_def st1_def)
    moreover have "collisions name (ms_items st) (y # ys) =
        collisions name (ms_items st) [y] @ collisions name (ms_items st) ys"
      by (simp add: collisions_def)
    ultimately show ?thesis
      using Cons.IH [of st1] ys Some by (simp add: st1_def new_items_Cons)
  qed
qed

definition dict_items :: "dict \<Rightarrow> string \<Rightarrow> json list" where
  "dict_items d name = (case map_of d name of Some (JList xs) \<Rightarrow> xs | _ \<Rightarrow> [])"

definition item_lists :: "dict \<Rightarrow> bool" where
  "item_lists d = (\<forall>(name, v) \<in> set d. \<exists>xs. v = JList xs \<and> str_ids xs \<and> distinct (map item_id xs))"

lemma item_lists_map_of:
  "item_lists d \<Longrightarrow> map_of d name = Some v \<Longrightarrow> \<exists>xs. v = JList xs \<and> str_ids xs \<and> distinct (map item_id xs)"
  unfolding item_lists_def by (drule map_of_SomeD) blast

lemma item_lists_dict_items:
  "item_lists d \<Longrightarrow> str_ids (dict_items d name) \<and> distinct (map item_id (dict_items d name))"
  by (auto simp: dict_items_def str_ids_def dest!: item_lists_map_of split: option.splits json.splits)

lemma merge_namespace_valid:
  assumes "item_lists result" "item_lists inc" "has_key inc name"
  shows "merge_namespace inc name (result, conflicts, n, ch) =
    (let T = dict_items result name; I = dict_items inc name in
     Inr (AList.update name (JList (T @ new_items T I)) result, conflicts @ collisions name T I,
          n + length (new_items T I), ch \<or> new_items T I \<noteq> []))"
proof -
  define T where "T = dict_items result name"
  define I where "I = dict_items inc name"
  from assms(3) obtain v where v: "map_of inc name = Some v" by (auto simp: has_key_def)
  with item_lists_map_of [OF assms(2) v] have incoming: "dget inc name = JList I"
    by (auto simp: dget_def I_def dict_items_def)
  have target: "(case map_of result name of None \<Rightarrow> Inr [] | Some (JList xs) \<Rightarrow> Inr xs
      | Some _ \<Rightarrow> Inl PyTypeError) = Inr T"
    using item_lists_map_of [OF assms(1), of name]
    by (cases "map_of result name") (auto simp: T_def dict_items_def)
  have T: "str_ids T" "distinct (map item_id T)" and I: "str_ids I" "distinct (map item_id I)"
    using item_lists_dict_items assms(1,2) by (auto simp: T_def I_def)
  let ?st = "\<lparr>ms_items = T, ms_by_id = rev (map (\<lambda>x. (JStr (item_id x), x)) T), ms_conflicts = conflicts,
     ms_merged = n, ms_changed = ch\<rparr>"
  have "merge_state_ok ?st" using T by (simp add: merge_state_ok_def)
  from merge_items_valid [OF this I, of name]
  obtain st' where "fold_res (merge_item name) I ?st = Inr st'"
    "ms_items st' = T @ new_items T I" "ms_conflicts st' = conflicts @ collisions name T I"
    "ms_merged st' = n + length (new_items T I)" "ms_changed st' = (ch \<or> new_items T I \<noteq> [])"
    by auto
  then show ?thesis
    by (simp add: merge_namespace_def incoming target index_items_valid T(1) Let_def
        flip: T_def I_def)
qed

lemma set_AList_update: "p \<in> set (AList.update k v d) \<Longrightarrow> p = (k, v) \<or> p \<in> set d"
  by (induction d) (auto split: if_splits)

lemma dict_items_update:
  "dict_items (AList.update k (JList xs) d) m = (if m = k then xs else dict_items d m)"
  by (simp add: dict_items_def)

lemma new_items_distinct:
  assumes "distinct (map item_id T)" "distinct (map item_id I)"
  shows "distinct (map item_id (T @ new_items T I))"
proof -
  have "distinct (map item_id (new_items T I))"
    using assms(2) by (auto simp: new_items_def intro: distinct_map_filter)
  moreover have "item_id ` set T \<inter> item_id ` set (new_items T I) = {}"
    by (auto simp: new_items_def item_lookup_None) (metis imageI)
  ultimately show ?thesis using assms(1) by simp
qed

lemma new_items_str_ids: "str_ids T \<Longrightarrow> str_ids I \<Longrightarrow> str_ids (T @ new_items T I)"
  by (auto simp: str_ids_def new_items_def)

lemma merge_namespaces_valid:
  assumes "item_lists result" "item_lists inc" "distinct (map fst result)"
    "distinct names" "set names \<subseteq> fst ` set inc"
  shows "\<exists>result'. fold_res (merge_namespace inc) names (result, conflicts, n, ch) =
     Inr (result',
       conflicts @ concat (map (\<lambda>m. collisions m (dict_items result m) (dict_items inc m)) names),
       n + sum_list (map (\<lambda>m. length (new_items (dict_items result m) (dict_items inc m))) names),
       ch \<or> (\<exists>m \<in> set names. new_items (dict_items result m) (dict_items inc m) \<noteq> []))
   \<and> item_lists result' \<and> distinct (map fst result')
   \<and> (\<forall>m. dict_items result' m = (if m \<in> set names
          then dict_items result m @ new_items (dict_items result m) (dict_items inc m)
          else dict_items result m))"
  using assms
proof (induction names arbitrary: result conflicts n ch)
  case Nil
  then show ?case by simp
next
  case (Cons m names)
  define T where "T = dict_items result m"
  define I where "I = dict_items inc m"
  define result1 where "result1 = AList.update m (JList (T @ new_items T I)) result"
  have mem: "has_key inc m" using Cons.prems(5) by (simp add: has_key_iff)
  have T: "str_ids T" "distinct (map item_id T)" and I: "str_ids I" "distinct (map item_id I)"
    using item_lists_dict_items Cons.prems(1,2) by (auto simp: T_def I_def)
  have lists1: "item_lists result1"
    using Cons.prems(1) new_items_str_ids [OF T(1) I(1)] new_items_distinct [OF T(2) I(2)]
    unfolding item_lists_def result1_def by (auto dest!: set_AList_update)
  have same: "dict_items result1 k = dict_items result k" if "k \<in> set names" for k
    using Cons.prems(4) that by (auto simp: result1_def dict_items_update)
  from Cons.IH [OF lists1 Cons.prems(2), of "conflicts @ collisions m T I" "n + length (new_items T I)"
      "ch \<or> new_items T I \<noteq> []"] Cons.prems(3-5)
  obtain result' where r: "fold_res (merge_namespace inc) names (result1, conflicts @ collisions m T I,
        n + length (new_items T I), ch \<or> new_items T I \<noteq> []) =
     Inr (result',
       (conflicts @ collisions m T I) @ concat (map (\<lambda>m. collisions m (dict_items result1 m) (dict_items inc m)) names),
       (n + length (new_items T I)) + sum_list (map (\<lambda>m. length (new_items (dict_items result1 m) (dict_items inc m))) names),
       (ch \<or> new_items T I \<noteq> []) \<or> (\<exists>m \<in> set names. new_items (dict_items result1 m) (dict_items inc m) \<noteq> []))"
    "item_lists result'" "distinct (map fst result')"
    "\<And>k. dict_items result' k = (if k \<in> set names
          then dict_items result1 k @ new_items (dict_items result1 k) (dict_items inc k)
          else dict_items result1 k)"
    by (auto simp: result1_def)
  have maps: "map (\<lambda>m. collisions m (dict_items result1 m) (dict_items inc m)) names =
      map (\<lambda>m. collisions m (dict_items result m) (dict_items inc m)) names"
    "map (\<lambda>m. length (new_items (dict_items result1 m) (dict_items inc m))) names =
      map (\<lambda>m. length (new_items (dict_items result m) (dict_items inc m))) names"
    by (simp_all add: same cong: map_cong)
  have "merge_namespace inc m (result, conflicts, n, ch) = Inr (result1, conflicts @ collisions m T I,
        n + length (new_items T I), ch \<or> new_items T I \<noteq> [])"
    using merge_namespace_valid [OF Cons.prems(1,2) mem] by (simp add: result1_def T_def I_def Let_def)
  then have "fold_res (merge_namespace inc) (m # names) (result, conflicts, n, ch) =
     Inr (result',
       conflicts @ concat (map (\<lambda>m. collisions m (dict_items result m) (dict_items inc m)) (m # names)),
       n + sum_list (map (\<lambda>m. length (new_items (dict_items result m) (dict_items inc m))) (m # names)),
       ch \<or> (\<exists>k \<in> set (m # names). new_items (dict_items result k) (dict_items inc k) \<noteq> []))"
    using r(1) same by (simp add: maps T_def I_def add.assoc)
  moreover have "\<forall>k. dict_items result' k = (if k \<in> set (m # names)
          then dict_items result k @ new_items (dict_items result k) (dict_items inc k)
          else dict_items result k)"
    using Cons.prems(4) by (auto simp: r(4) same) (auto simp: result1_def dict_items_update T_def I_def)
  ultimately show ?case using r(2,3) by blast
qed

section \<open>Mergeable envelopes\<close>

definition env_producers :: "json \<Rightarrow> dict" where
  "env_producers v = (case dget (dict_of v) ''producers'' of JObj d \<Rightarrow> d | _ \<Rightarrow> [])"

definition null_or_dict :: "json \<Rightarrow> bool" where
  "null_or_dict v = (v = JNull \<or> is_dict v)"

text \<open>What the merge relies on: every valid envelope has it, and so has every merge result.\<close>

definition mergeable :: "json \<Rightarrow> bool" where
  "mergeable v = (is_dict v \<and> dict_of v \<noteq> []
     \<and> null_or_dict (dget (dict_of v) ''namespaces'') \<and> null_or_dict (dget (dict_of v) ''producers'')
     \<and> item_lists (env_namespaces v) \<and> distinct (map fst (env_namespaces v))
     \<and> distinct (map fst (env_producers v)))"

lemma as_dict_namespaces:
  "null_or_dict (dget d ''namespaces'') \<Longrightarrow>
     as_dict (get_or d ''namespaces'' (JObj [])) = Inr (env_namespaces (JObj d))
     \<and> as_mapping (get_or d ''namespaces'' (JObj [])) = Inr (env_namespaces (JObj d))"
  by (cases "dget d ''namespaces''") (auto simp: null_or_dict_def get_or_def por_def env_namespaces_def)

lemma as_mapping_producers:
  "null_or_dict (dget d ''producers'') \<Longrightarrow>
     as_mapping (get_or d ''producers'' (JObj [])) = Inr (env_producers (JObj d))"
  by (cases "dget d ''producers''") (auto simp: null_or_dict_def get_or_def por_def env_producers_def)

lemma dict_items_env: "dict_items (env_namespaces v) = env_items v"
  by (simp add: fun_eq_iff dict_items_def env_items_def)

lemma copy_item_lists:
  "item_lists d \<Longrightarrow>
     traverse (\<lambda>(name, items). rbind (py_iter items) (\<lambda>xs. Inr (name, JList xs))) d = Inr d"
  by (induction d) (auto simp: item_lists_def)

lemma namespaces_ok_item_lists: "namespaces_ok known ns \<Longrightarrow> item_lists ns"
proof -
  assume ok: "namespaces_ok known ns"
  have "\<exists>xs. v = JList xs \<and> str_ids xs \<and> distinct (map item_id xs)" if "(n, v) \<in> set ns" for n v
  proof -
    from ok that have items: "items_ok known v" by (auto simp: namespaces_ok_def)
    then obtain xs where "v = JList xs" by (cases v) (auto simp: items_ok_def)
    with items items_ok_str_ids [of known xs] show ?thesis by auto
  qed
  then show ?thesis by (auto simp: item_lists_def)
qed

lemma envelope_ok_mergeable:
  assumes "envelope_ok known v" "json_wf v"
  shows "mergeable v"
proof -
  from assms(1) obtain d where v: "v = JObj d" by (auto simp: envelope_ok_def split: json.splits)
  have wf: "distinct (map fst d')" if "dget d k = JObj d'" for k d'
  proof -
    from that have "(k, JObj d') \<in> set d"
      by (auto simp: dget_def split: option.splits dest: map_of_SomeD)
    with assms(2) show ?thesis by (auto simp: v list_all_iff)
  qed
  have "dict_of v \<noteq> []"
    using assms(1) by (auto simp: v envelope_ok_def dget_def json_eq.simps [of JNull])
  moreover have "item_lists (env_namespaces v)"
  proof (cases "dget d ''namespaces''")
    case (JObj ns)
    then have "namespaces_ok known ns" using assms(1) by (simp add: v envelope_ok_def)
    then have "item_lists ns" by (rule namespaces_ok_item_lists)
    then show ?thesis by (simp add: v env_namespaces_def JObj)
  qed (simp_all add: v env_namespaces_def item_lists_def)
  ultimately show ?thesis
    using assms(1) wf
    by (auto simp: v mergeable_def envelope_ok_def null_or_dict_def env_namespaces_def env_producers_def
        split: json.splits)
qed

lemma preserve_keys_map_of:
  "has_key m k \<Longrightarrow> map_of (preserve_keys source m) k = map_of m k"
proof (induction source arbitrary: m)
  case Nil
  then show ?case by (simp add: preserve_keys_def)
next
  case (Cons p source)
  obtain key v where p: "p = (key, v)" by (cases p)
  define m1 where "m1 = (if has_key m key \<or> key \<in> {''namespaces'', ''producers'', ''schema_version''} then m
     else m @ [(key, v)])"
  have "preserve_keys (p # source) m = preserve_keys source m1"
    by (simp add: preserve_keys_def p m1_def)
  moreover have "map_of m1 k = map_of m k"
    using Cons.prems by (auto simp: m1_def has_key_def)
  ultimately show ?case using Cons.IH [of m1] Cons.prems by (simp add: has_key_def)
qed

lemma preserve_keys_reserved:
  "k \<in> {''namespaces'', ''producers'', ''schema_version''} \<Longrightarrow>
     map_of (preserve_keys source m) k = map_of m k"
proof (induction source arbitrary: m)
  case Nil
  then show ?case by (simp add: preserve_keys_def)
next
  case (Cons p source)
  obtain key v where p: "p = (key, v)" by (cases p)
  define m1 where "m1 = (if has_key m key \<or> key \<in> {''namespaces'', ''producers'', ''schema_version''} then m
     else m @ [(key, v)])"
  have "preserve_keys (p # source) m = preserve_keys source m1"
    by (simp add: preserve_keys_def p m1_def)
  moreover have "map_of m1 k = map_of m k"
    using Cons.prems by (auto simp: m1_def map_add_def split: option.splits)
  ultimately show ?case using Cons.IH [of m1] Cons.prems by simp
qed

section \<open>The whole merge\<close>

definition all_collisions :: "json \<Rightarrow> json \<Rightarrow> annotation_conflict list" where
  "all_collisions t i = concat (map (\<lambda>m. collisions m (env_items t m) (env_items i m))
     (sort (map fst (env_namespaces i))))"

definition adds_items :: "json \<Rightarrow> json \<Rightarrow> bool" where
  "adds_items t i = (\<exists>m. new_items (env_items t m) (env_items i m) \<noteq> [])"

definition merged_base :: "dict \<Rightarrow> dict \<Rightarrow> dict \<Rightarrow> dict" where
  "merged_base tgt result producers =
     [(''schema_version'', dget_default tgt ''schema_version'' (JInt SCHEMA_VERSION)),
      (''namespaces'', JObj result)] @ (if producers = [] then [] else [(''producers'', JObj producers)])"

lemma merged_base_preserved:
  "map_of (preserve_keys inc (preserve_keys tgt (merged_base tgt result producers))) ''namespaces''
     = Some (JObj result)"
  "map_of (preserve_keys inc (preserve_keys tgt (merged_base tgt result producers))) ''producers''
     = (if producers = [] then None else Some (JObj producers))"
  by (simp_all add: preserve_keys_reserved merged_base_def)

lemma env_items_outside: "m \<notin> fst ` set (env_namespaces i) \<Longrightarrow> env_items i m = []"
proof -
  assume "m \<notin> fst ` set (env_namespaces i)"
  then have "map_of (env_namespaces i) m = None" by (subst map_of_eq_None_iff)
  then show "env_items i m = []" by (simp add: env_items_def)
qed

lemma merge_mergeable:
  assumes t: "mergeable t" and i: "mergeable i"
  shows "\<exists>out. merge_annotations t i = Inr out \<and> mo_conflicts out = all_collisions t i \<and>
     mergeable (merge_result t out) \<and>
     (\<forall>m. env_items (merge_result t out) m = env_items t m @ new_items (env_items t m) (env_items i m)) \<and>
     (mo_merged out \<noteq> None \<longrightarrow>
        env_producers (merge_result t out) = dict_update (env_producers t) (env_producers i)) \<and>
     (mo_merged out = None \<longleftrightarrow> \<not> adds_items t i \<and>
        json_eq (JObj (dict_update (env_producers t) (env_producers i))) (JObj (env_producers t))) \<and>
     (mo_merged out = None \<longrightarrow> mo_merged_items out = 0)"
proof -
  obtain td where td: "t = JObj td" "td \<noteq> []" using t by (cases t) (auto simp: mergeable_def)
  obtain idct where id: "i = JObj idct" "idct \<noteq> []" using i by (cases i) (auto simp: mergeable_def)
  define tp where "tp = env_producers t"
  define ip where "ip = env_producers i"
  define names where "names = sort (map fst (env_namespaces i))"
  have d: "as_mapping (get_or td ''namespaces'' (JObj [])) = Inr (env_namespaces t)"
    "as_mapping (get_or idct ''namespaces'' (JObj [])) = Inr (env_namespaces i)"
    "as_mapping (get_or td ''producers'' (JObj [])) = Inr tp"
    "as_mapping (get_or idct ''producers'' (JObj [])) = Inr ip"
    using t i by (simp_all add: td id mergeable_def as_dict_namespaces as_mapping_producers tp_def ip_def)
  have lists: "item_lists (env_namespaces t)" "item_lists (env_namespaces i)"
    "distinct (map fst (env_namespaces t))" "distinct names" "set names \<subseteq> fst ` set (env_namespaces i)"
    using t i by (auto simp: mergeable_def names_def)
  from merge_namespaces_valid [OF lists, of "[]" 0 False]
  obtain result n where r: "fold_res (merge_namespace (env_namespaces i)) names (env_namespaces t, [], 0, False) =
      Inr (result, all_collisions t i, n, \<exists>m \<in> set names. new_items (env_items t m) (env_items i m) \<noteq> [])"
    "item_lists result" "distinct (map fst result)"
    "\<And>m. dict_items result m = (if m \<in> set names
        then env_items t m @ new_items (env_items t m) (env_items i m) else env_items t m)"
    by (auto simp: all_collisions_def names_def dict_items_env)
  have outside: "new_items T (env_items i m) = []" if "m \<notin> set names" for m T
    using that env_items_outside [of m i] by (simp add: names_def new_items_def)
  have adds: "(\<exists>m \<in> set names. new_items (env_items t m) (env_items i m) \<noteq> []) = adds_items t i"
    using outside by (auto simp: adds_items_def)
  have items: "dict_items result m = env_items t m @ new_items (env_items t m) (env_items i m)" for m
    using outside by (simp add: r(4))
  define quiet where "quiet = (\<not> adds_items t i \<and> json_eq (JObj (dict_update tp ip)) (JObj tp))"
  define merged where "merged = preserve_keys idct (preserve_keys td (merged_base td result (dict_update tp ip)))"
  define out where "out = (if quiet then \<lparr>mo_merged = None, mo_merged_items = 0, mo_conflicts = all_collisions t i\<rparr>
     else \<lparr>mo_merged = Some merged, mo_merged_items = n, mo_conflicts = all_collisions t i\<rparr>)"
  have "truthy t" "truthy i" "as_dict t = Inr td" "as_dict i = Inr idct" using td id by simp_all
  then have "merge_annotations t i = Inr out"
    by (simp add: merge_annotations_def d copy_item_lists lists(1) r(1) adds Let_def quiet_def
        merged_def merged_base_def out_def flip: names_def)
  moreover have "mergeable (merge_result t out)"
  proof (cases quiet)
    case True
    then show ?thesis using t by (simp add: out_def merge_result_def)
  next
    case False
    have "dget merged ''namespaces'' = JObj result"
      "dget merged ''producers'' = (if dict_update tp ip = [] then JNull else JObj (dict_update tp ip))"
      by (simp_all add: merged_def dget_def merged_base_preserved)
    moreover from this have "merged \<noteq> []" by (auto simp: dget_def)
    moreover have "distinct (map fst (dict_update tp ip))"
      using t by (simp add: tp_def mergeable_def distinct_dict_update)
    ultimately show ?thesis
      using False r(2,3)
      by (simp add: out_def merge_result_def mergeable_def null_or_dict_def env_namespaces_def env_producers_def)
  qed
  moreover have "env_items (merge_result t out) m = env_items t m @ new_items (env_items t m) (env_items i m)" for m
  proof (cases quiet)
    case True
    then show ?thesis by (simp add: out_def merge_result_def quiet_def adds_items_def)
  next
    case False
    then have "env_namespaces (merge_result t out) = result"
      by (simp add: out_def merge_result_def env_namespaces_def dget_def merged_def merged_base_preserved)
    then show ?thesis by (simp add: items flip: dict_items_env)
  qed
  moreover have "mo_merged out \<noteq> None \<longrightarrow> env_producers (merge_result t out) = dict_update tp ip"
    by (simp add: out_def merge_result_def env_producers_def dget_def merged_def merged_base_preserved)
  moreover have "mo_conflicts out = all_collisions t i" "mo_merged out = None \<longleftrightarrow> quiet"
    "mo_merged out = None \<longrightarrow> mo_merged_items out = 0"
    by (simp_all add: out_def)
  ultimately show ?thesis by (auto simp: quiet_def tp_def ip_def)
qed

lemma dict_update_absorb:
  "distinct (map fst e) \<Longrightarrow> dict_update (dict_update d e) e = dict_update d e"
proof -
  have "dict_update x e' = x" if "\<And>k v. (k, v) \<in> set e' \<Longrightarrow> map_of x k = Some v" for x e'
    using that
  proof (induction e')
    case (Cons p e')
    obtain k v where p: "p = (k, v)" by (cases p)
    have "AList.update k v x = x" using Cons.prems p by (intro update_triv) simp
    then show ?case using Cons by (simp add: dict_update_Cons p)
  qed simp
  note same = this
  assume "distinct (map fst e)"
  then show ?thesis by (intro same) (simp add: map_of_dict_update)
qed

definition annotation_input :: "string list option \<Rightarrow> json \<Rightarrow> bool" where
  "annotation_input known v = (v = JNull \<or> envelope_ok known v \<and> json_wf v)"

lemma annotation_input_cases:
  assumes "annotation_input known v"
  obtains "v = JNull" | "mergeable v"
  using assms envelope_ok_mergeable by (auto simp: annotation_input_def)

lemma mergeable_truthy: "mergeable v \<Longrightarrow> truthy v"
  by (cases v) (auto simp: mergeable_def)

lemma env_items_JNull [simp]: "env_items JNull m = []"
  by (simp add: env_items_def env_namespaces_def dget_def)

lemma new_items_empty_target [simp]: "new_items [] I = I"
  by (simp add: new_items_def item_lookup_def)

lemma item_lookup_Nil [simp]: "item_lookup [] k = None"
  by (simp add: item_lookup_def)

lemma count_items_mergeable: "mergeable (JObj d) \<Longrightarrow> \<exists>n. count_items d = Inr n"
proof -
  assume m: "mergeable (JObj d)"
  have "\<exists>lens. traverse (\<lambda>(name, items). map_sum id length (py_iter items)) ns = Inr lens"
    if "item_lists ns" for ns
    using that by (induction ns) (auto simp: item_lists_def)
  with m show ?thesis
    by (simp add: count_items_def mergeable_def as_dict_namespaces) fastforce
qed

lemma merge_input:
  assumes t: "annotation_input known t" and i: "annotation_input known' i"
  shows "\<exists>out. merge_annotations t i = Inr out \<and> mo_conflicts out = all_collisions t i \<and>
    (\<forall>m. env_items (merge_result t out) m = env_items t m @ new_items (env_items t m) (env_items i m))"
proof (cases "i = JNull")
  case True
  then show ?thesis
    by (simp add: merge_annotations_def merge_result_def all_collisions_def new_items_def
        env_namespaces_def dget_def)
next
  case False
  with i have i': "mergeable i" by (auto elim: annotation_input_cases)
  show ?thesis
  proof (cases "t = JNull")
    case True
    from i' obtain d where d: "i = JObj d" by (cases i) (auto simp: mergeable_def)
    from count_items_mergeable i' obtain n where "count_items d = Inr n" by (auto simp: d)
    with mergeable_truthy [OF i'] show ?thesis
      by (simp add: True d merge_annotations_def merge_result_def all_collisions_def collisions_def)
  next
    case False
    with t have "mergeable t" by (auto elim: annotation_input_cases)
    from merge_mergeable [OF this i'] show ?thesis by blast
  qed
qed

section \<open>Properties of the merge\<close>

text \<open>C34. The merge of two valid envelopes (or of none) never fails, and as a map from namespace
and item id it is the target overriding the incoming items: every target item keeps its version,
every id only the incoming side has is added, and nothing else appears. No item is dropped and
no write is last-write-wins.\<close>

theorem merge_annotations_override:
  assumes "annotation_input known t" "annotation_input known' i"
  shows "\<exists>out. merge_annotations t i = Inr out \<and>
    (\<forall>name k. env_lookup (merge_result t out) name k =
       (case env_lookup t name k of Some x \<Rightarrow> Some x | None \<Rightarrow> env_lookup i name k))"
  using merge_input [OF assms] by (fastforce simp: env_lookup_def item_lookup_new_items split: option.splits)

lemma all_collisions_iff:
  assumes "item_lists (env_namespaces i)"
  shows "c \<in> set (all_collisions t i) \<longleftrightarrow> (\<exists>name k x y. env_lookup t name k = Some x \<and>
     env_lookup i name k = Some y \<and> \<not> items_equal x y \<and>
     c = \<lparr>ac_namespace = name, ac_item_id = JStr k, ac_target = x, ac_incoming = y\<rparr>)"
proof -
  have lookup: "y \<in> set (env_items i m) \<longleftrightarrow> env_lookup i m (item_id y) = Some y" for m y
  proof -
    have "distinct (map item_id (env_items i m))"
      using item_lists_dict_items [OF assms] by (simp flip: dict_items_env)
    then show ?thesis
      unfolding env_lookup_def by (auto dest: item_lookup_Some_id item_lookup_self)
  qed
  have names: "m \<in> fst ` set (env_namespaces i)" if "env_lookup i m k = Some y" for m k y
    using that env_items_outside [of m i]
    by (cases "m \<in> fst ` set (env_namespaces i)") (auto simp: env_lookup_def)
  have mem: "c \<in> set (collisions m T I) \<longleftrightarrow> (\<exists>y \<in> set I. \<exists>x. item_lookup T (item_id y) = Some x \<and>
      \<not> items_equal x y \<and> c = \<lparr>ac_namespace = m, ac_item_id = JStr (item_id y), ac_target = x, ac_incoming = y\<rparr>)"
    for m T I
    by (auto simp: collisions_def split: option.splits if_splits) force
  define N where "N = fst ` set (env_namespaces i)"
  have setN: "set (sort (map fst (env_namespaces i))) = N" by (simp add: N_def)
  have "c \<in> set (all_collisions t i) \<longleftrightarrow> (\<exists>m \<in> N. \<exists>y x.
      env_lookup i m (item_id y) = Some y \<and> env_lookup t m (item_id y) = Some x \<and> \<not> items_equal x y \<and>
      c = \<lparr>ac_namespace = m, ac_item_id = JStr (item_id y), ac_target = x, ac_incoming = y\<rparr>)"
    unfolding all_collisions_def set_concat set_map setN UN_iff image_image mem
    by (auto simp: lookup env_lookup_def)
  also have "\<dots> \<longleftrightarrow> (\<exists>name k x y. env_lookup t name k = Some x \<and>
     env_lookup i name k = Some y \<and> \<not> items_equal x y \<and>
     c = \<lparr>ac_namespace = name, ac_item_id = JStr k, ac_target = x, ac_incoming = y\<rparr>)"
    using names unfolding N_def env_lookup_def by (metis item_lookup_Some_id)
  finally show ?thesis .
qed

text \<open>The conflicts of an outcome are exactly the collisions: one for each namespace and id
that both envelopes have with canonically different content, carrying the version kept and the
version refused.\<close>

theorem merge_conflicts_complete:
  assumes "annotation_input known t" "annotation_input known' i" "merge_annotations t i = Inr out"
  shows "set (mo_conflicts out) =
    {\<lparr>ac_namespace = name, ac_item_id = JStr k, ac_target = x, ac_incoming = y\<rparr> | name k x y.
       env_lookup t name k = Some x \<and> env_lookup i name k = Some y \<and> \<not> items_equal x y}"
proof -
  have "item_lists (env_namespaces i)"
    using assms(2) by (rule annotation_input_cases)
      (auto simp: mergeable_def env_namespaces_def dget_def item_lists_def)
  moreover have "mo_conflicts out = all_collisions t i" using merge_input [OF assms(1,2)] assms(3) by auto
  ultimately show ?thesis by (auto simp: all_collisions_iff)
qed

text \<open>Replaying an envelope is a no-op: merging it once more into the result of its own
merge changes nothing (no new document, no items counted) and reports the same conflicts.\<close>

theorem merge_replay_noop:
  assumes "mergeable t" "mergeable i" "merge_annotations t i = Inr out"
    and "json_wf (JObj (env_producers (merge_result t out)))" "nan_free (JObj (env_producers (merge_result t out)))"
  shows "merge_annotations (merge_result t out) i =
    Inr \<lparr>mo_merged = None, mo_merged_items = 0, mo_conflicts = mo_conflicts out\<rparr>"
proof -
  let ?r = "merge_result t out"
  have m: "mo_conflicts out = all_collisions t i" "mergeable ?r"
    "\<And>m. env_items ?r m = env_items t m @ new_items (env_items t m) (env_items i m)"
    "mo_merged out \<noteq> None \<longrightarrow> env_producers ?r = dict_update (env_producers t) (env_producers i)"
    "mo_merged out = None \<longrightarrow> json_eq (JObj (dict_update (env_producers t) (env_producers i))) (JObj (env_producers t))"
    using merge_mergeable [OF assms(1,2)] assms(3) by auto
  from merge_mergeable [OF m(2) assms(2)] obtain out' where out': "merge_annotations ?r i = Inr out'"
    "mo_conflicts out' = all_collisions ?r i"
    "mo_merged out' = None \<longleftrightarrow> \<not> adds_items ?r i \<and>
        json_eq (JObj (dict_update (env_producers ?r) (env_producers i))) (JObj (env_producers ?r))"
    "mo_merged out' = None \<longrightarrow> mo_merged_items out' = 0"
    by (elim exE conjE) (rule that)
  have lookup: "item_lookup (env_items ?r m) k =
      (case item_lookup (env_items t m) k of None \<Rightarrow> item_lookup (env_items i m) k | Some x \<Rightarrow> Some x)" for m k
    by (simp add: m(3) item_lookup_new_items)
  have "\<not> adds_items ?r i"
    by (auto simp: adds_items_def new_items_def lookup filter_empty_conv item_lookup_None split: option.splits)
  moreover have "json_eq (JObj (dict_update (env_producers ?r) (env_producers i))) (JObj (env_producers ?r))"
  proof (cases "mo_merged out = None")
    case True
    then show ?thesis using m(5) by (simp add: merge_result_def)
  next
    case False
    then have "dict_update (env_producers ?r) (env_producers i) = env_producers ?r"
      using m(4) assms(2) by (simp add: mergeable_def dict_update_absorb)
    then show ?thesis using assms(4,5) by (simp add: json_eq_refl)
  qed
  moreover have "all_collisions ?r i = all_collisions t i"
  proof -
    have "distinct (map item_id (env_items i m))" for m
      using assms(2) item_lists_dict_items by (auto simp: mergeable_def simp flip: dict_items_env)
    then have "collisions m (env_items ?r m) (env_items i m) = collisions m (env_items t m) (env_items i m)" for m
      unfolding collisions_def
      by (intro arg_cong [where f = concat] map_cong refl)
        (auto simp: lookup item_lookup_self items_equal_def split: option.splits)
    then show ?thesis by (simp add: all_collisions_def)
  qed
  ultimately show ?thesis using out' m(1) by (cases out') auto
qed

section \<open>The properties at a concrete pair of envelopes\<close>

definition sample_target :: json where
  "sample_target = JObj [(''schema_version'', JInt 1),
     (''namespaces'', JObj [(''org.ex'', JList [JObj [(''id'', JStr ''a'')]])])]"
definition sample_incoming :: json where
  "sample_incoming = JObj [(''schema_version'', JInt 1),
     (''namespaces'', JObj [(''org.ex'', JList [JObj [(''id'', JStr ''a''), (''n'', JInt 1)], JObj [(''id'', JStr ''b'')]])])]"


lemmas sample_simps = envelope_ok_def MAX_DEPTH_def MAX_ENVELOPE_BYTES_def MAX_ITEMS_def SCHEMA_VERSION_def
  dget_def json_eq.simps [of "JInt 1"] feq_def dec_le_def namespaces_ok_def items_ok_def item_ok_def
  namespace_name_ok_def NAMESPACE_MIN_LABELS_def label_ok_def label_alnum_def is_lower_ascii_def
  is_digit_def less_eq_char_def nonblank_str_def strip_def is_space_def confidence_ok_def item_id_def
  count_list_items_def

lemma sample_target_ok: "annotation_input None sample_target"
proof -
  have "serialized_size sample_target = 57" by code_simp
  then show ?thesis
    by (simp add: annotation_input_def sample_target_def sample_simps)
qed

lemma sample_incoming_ok: "annotation_input None sample_incoming"
proof -
  have "serialized_size sample_incoming = 74" by code_simp
  then show ?thesis
    by (simp add: annotation_input_def sample_incoming_def sample_simps)
qed

lemma sample_lookups:
  "env_lookup sample_target ''org.ex'' ''a'' = Some (JObj [(''id'', JStr ''a'')])"
  "env_lookup sample_target ''org.ex'' ''b'' = None"
  "env_lookup sample_incoming ''org.ex'' ''a'' = Some (JObj [(''id'', JStr ''a''), (''n'', JInt 1)])"
  "env_lookup sample_incoming ''org.ex'' ''b'' = Some (JObj [(''id'', JStr ''b'')])"
  by (simp_all add: env_lookup_def env_items_def env_namespaces_def sample_target_def sample_incoming_def
      dget_def item_lookup_def item_id_def)

theorem merge_annotations_override_witness:
  "\<exists>out. merge_annotations sample_target sample_incoming = Inr out \<and>
     env_lookup (merge_result sample_target out) ''org.ex'' ''a'' = Some (JObj [(''id'', JStr ''a'')]) \<and>
     env_lookup (merge_result sample_target out) ''org.ex'' ''b'' = Some (JObj [(''id'', JStr ''b'')])"
  using merge_annotations_override [OF sample_target_ok sample_incoming_ok]
  by (fastforce simp: sample_lookups)

theorem merge_conflicts_complete_witness:
  "\<exists>out. merge_annotations sample_target sample_incoming = Inr out \<and>
     \<lparr>ac_namespace = ''org.ex'', ac_item_id = JStr ''a'', ac_target = JObj [(''id'', JStr ''a'')],
       ac_incoming = JObj [(''id'', JStr ''a''), (''n'', JInt 1)]\<rparr> \<in> set (mo_conflicts out)"
proof -
  obtain out where out: "merge_annotations sample_target sample_incoming = Inr out"
    using merge_input [OF sample_target_ok sample_incoming_ok] by blast
  have "\<not> items_equal (JObj [(''id'', JStr ''a'')]) (JObj [(''id'', JStr ''a''), (''n'', JInt 1)])"
    by code_simp
  then show ?thesis
    using merge_conflicts_complete [OF sample_target_ok sample_incoming_ok out] out
    by (auto simp: sample_lookups)
qed

theorem merge_replay_noop_witness:
  "\<exists>out. merge_annotations sample_target sample_incoming = Inr out \<and>
     merge_annotations (merge_result sample_target out) sample_incoming =
       Inr \<lparr>mo_merged = None, mo_merged_items = 0, mo_conflicts = mo_conflicts out\<rparr>"
proof -
  have m: "mergeable sample_target" "mergeable sample_incoming"
    using sample_target_ok sample_incoming_ok
    by (auto simp: annotation_input_def sample_target_def sample_incoming_def intro: envelope_ok_mergeable)
  obtain out where out: "merge_annotations sample_target sample_incoming = Inr out"
    "mo_merged out \<noteq> None \<longrightarrow> env_producers (merge_result sample_target out) =
       dict_update (env_producers sample_target) (env_producers sample_incoming)"
    using merge_mergeable [OF m] by blast
  have "env_producers (merge_result sample_target out) = []"
    using out(2) by (cases "mo_merged out") (auto simp: merge_result_def env_producers_def sample_target_def
        sample_incoming_def dget_def)
  then show ?thesis using merge_replay_noop [OF m out(1)] out(1) by simp
qed

end
