(* ===== verification/Redact.thy ===== *)
theory Redact
  imports Regex PyJson
begin

text \<open>
  \<open>handoff/redact.py\<close>: the deny-by-default secret patterns, the engine that replaces what
  they match by a placeholder naming the kind, the output gate, and the redaction of a normalised
  session; and the two records of \<open>handoff/report.py\<close> and \<open>handoff/session.py\<close> they use.
  The patterns are written in the syntax of the theory of regular expressions, in the order and
  with the groups of the source.
\<close>

section \<open>Patterns\<close>

definition ws :: "char \<Rightarrow> bool" where "ws c = is_space c"
definition quote :: "char \<Rightarrow> bool" where "quote c = (c = CHR 0x22 \<or> c = CHR 0x27)"
definition bracket :: "char \<Rightarrow> bool" where "bracket c = (c = CHR ''['' \<or> c = CHR '']'')"
definition alnum :: "char \<Rightarrow> bool" where "alnum c = (is_alpha c \<or> is_digit c)"
definition one_char :: "string \<Rightarrow> char \<Rightarrow> bool" where "one_char s c = (c \<in> set s)"

definition ident_char :: "char \<Rightarrow> bool" where
  "ident_char c = (alnum c \<or> one_char ''_.-'' c)"

definition api_key_rx :: rx where
  "api_key_rx = seqs [
     NotBehind ident_char,
     Group 1 (seqs [
       between 0 64 ident_char,
       one_of [seqs [LitI ''api'', opt (one_char ''_-''), LitI ''key''], LitI ''apikey'', LitI ''secret'',
               LitI ''token'', LitI ''password'', LitI ''passwd'', LitI ''pwd''],
       between 0 64 ident_char]),
     opt quote, many 0 ws, Chr (one_char ''=:''), many 0 ws, opt quote,
     Group 2 (many 4 (\<lambda>c. \<not> ws c \<and> \<not> quote c \<and> \<not> bracket c)),
     opt quote]"

definition bearer_rx :: rx where
  "bearer_rx = seqs [WordB, Group 1 (Seq (LitI ''bearer'') (many 1 ws)),
     Group 2 (many 8 (\<lambda>c. alnum c \<or> one_char ''-._~+/='' c))]"

definition private_key_rx :: rx where
  "private_key_rx =
     (let label = many 0 (\<lambda>c. is_upper_ascii c \<or> c = CHR '' '') in
      seqs [Lit ''-----BEGIN '', label, Lit ''PRIVATE KEY-----'',
            Rep False 0 None (Chr (\<lambda>c. True)),
            Lit ''-----END '', label, Lit ''PRIVATE KEY-----''])"

definition prefixed_rx :: rx where
  "prefixed_rx = seqs [WordB, one_of [
       Seq (Lit ''ghp_'') (many 20 alnum),
       Seq (Lit ''github_pat_'') (many 20 (\<lambda>c. alnum c \<or> c = CHR ''_'')),
       Seq (Lit ''sk-'') (many 16 (\<lambda>c. alnum c \<or> one_char ''_-'' c)),
       Seq (Lit ''hotmem_sk_'') (many 8 alnum),
       seqs [Lit ''xox'', Chr (one_char ''baprs''), Lit ''-'', many 10 (\<lambda>c. alnum c \<or> c = CHR ''-'')],
       Seq (Lit ''AKIA'') (between 16 16 (\<lambda>c. is_digit c \<or> is_upper_ascii c))], WordB]"

definition dsn_rx :: rx where
  "dsn_rx = seqs [WordB,
     Group 1 (seqs [Chr is_alpha, many 0 (\<lambda>c. alnum c \<or> one_char ''+.-'' c), Lit ''://'',
       many 1 (\<lambda>c. \<not> ws c \<and> \<not> one_char ''/:@'' c), Lit '':'']),
     Group 2 (many 1 (\<lambda>c. c \<noteq> CHR ''@'' \<and> \<not> ws c \<and> \<not> quote c \<and> \<not> bracket c)),
     Ahead (Seq (Lit ''@'') (many 1 (\<lambda>c. \<not> ws c \<and> \<not> quote c)))]"

record pattern =
  kind :: string
  regex :: rx
  reason :: string

definition PATTERNS :: "pattern list" where
  "PATTERNS = [
     \<lparr>kind = ''api_key'', regex = api_key_rx, reason = ''credential pattern: key/password assignment''\<rparr>,
     \<lparr>kind = ''bearer_token'', regex = bearer_rx, reason = ''credential pattern: bearer token''\<rparr>,
     \<lparr>kind = ''private_key'', regex = private_key_rx, reason = ''credential pattern: PEM private key block''\<rparr>,
     \<lparr>kind = ''prefixed_credential'', regex = prefixed_rx,
      reason = ''credential pattern: vendor-prefixed credential''\<rparr>,
     \<lparr>kind = ''dsn_inline_password'', regex = dsn_rx, reason = ''credential pattern: inline DSN password''\<rparr>]"

section \<open>The engine\<close>

definition PLACEHOLDER :: "string \<Rightarrow> string" where
  "PLACEHOLDER k = ''[REDACTED:'' @ k @ '']''"

text \<open>\<open>s.replace(old, new)\<close> for a nonempty \<open>old\<close>, leftmost occurrences first.\<close>

function str_replace :: "string \<Rightarrow> string \<Rightarrow> string \<Rightarrow> string" where
  "str_replace old new s =
     (if s = [] then []
      else if old \<noteq> [] \<and> starts_with s old then new @ str_replace old new (drop (length old) s)
      else hd s # str_replace old new (tl s))"
  by pat_completeness auto
termination
  by (relation "measure (\<lambda>(old, new, s). length s)") (auto simp: starts_with_def)

declare str_replace.simps [simp del]

text \<open>\<open>groups[-1]\<close> of a match, when the pattern has at least two groups.\<close>

definition last_group :: "rx \<Rightarrow> (nat \<times> string) list \<Rightarrow> string option" where
  "last_group r gs = (if length (group_ids r) \<ge> 2 then map_of gs (last (group_ids r)) else None)"

definition make_replacer :: "rx \<Rightarrow> string \<Rightarrow> string \<Rightarrow> (nat \<times> string) list \<Rightarrow> string" where
  "make_replacer r k t gs = (case last_group r gs of
     Some v \<Rightarrow> str_replace v (PLACEHOLDER k) t
   | None \<Rightarrow> PLACEHOLDER k)"

type_synonym hit = "string \<times> string"

text \<open>One pattern of the loop of \<open>redact_text\<close>: the hits so far and the text.\<close>

definition redact_step :: "pattern \<Rightarrow> string \<times> hit list \<Rightarrow> string \<times> hit list" where
  "redact_step p s =
     (let matches = finditer (regex p) (fst s) in
      if matches = [] then s
      else (rx_sub (regex p) (make_replacer (regex p) (kind p)) (fst s),
            snd s @ map (\<lambda>_. (kind p, reason p)) matches))"

definition redact_text :: "pattern list \<Rightarrow> string \<Rightarrow> string \<times> hit list" where
  "redact_text ps s = fold redact_step ps (s, [])"

definition scan :: "pattern list \<Rightarrow> string \<Rightarrow> string list" where
  "scan ps s = map kind (filter (\<lambda>p. rx_search (regex p) s) ps)"

text \<open>The output gate: the kinds and the location of the \<open>RedactionLeakError\<close> it raises.\<close>

definition assert_no_secrets :: "string \<Rightarrow> string \<Rightarrow> (string list \<times> string) + unit" where
  "assert_no_secrets s loc = (let kinds = scan PATTERNS s in
     if kinds \<noteq> [] then Inl (kinds, loc) else Inr ())"


section \<open>Redaction of a session\<close>

record normalized_session =
  adapter :: string
  adapter_version :: string
  session_id :: string
  label :: string
  time_range :: dict
  codex_version :: "string option"
  harness_id :: "string option"
  entries :: "dict list"
  memory_records :: "dict list"
  omissions :: "dict list"
  redactions :: "dict list"

definition redaction :: "json \<Rightarrow> string \<Rightarrow> string \<Rightarrow> string \<Rightarrow> bool \<Rightarrow> dict" where
  "redaction loc field k why recoverable =
     [(''where'', loc), (''field'', JStr field), (''kind'', JStr k), (''reason'', JStr why),
      (''recoverable'', JBool recoverable)]"

definition omission :: "json \<Rightarrow> string option \<Rightarrow> string \<Rightarrow> bool \<Rightarrow> dict" where
  "omission loc field why recoverable =
     [(''where'', loc), (''field'', case field of None \<Rightarrow> JNull | Some f \<Rightarrow> JStr f),
      (''reason'', JStr why), (''recoverable'', JBool recoverable)]"

definition is_recoverable :: "dict \<Rightarrow> bool" where
  "is_recoverable d = truthy (dget d ''recoverable'')"

definition build_coverage :: "int \<Rightarrow> dict list \<Rightarrow> dict list \<Rightarrow> dict" where
  "build_coverage transferred os rs =
     [(''transferred'', JInt transferred), (''omitted'', JList (map JObj os)),
      (''redacted'', JList (map JObj rs)), (''omitted_count'', JInt (int (length os))),
      (''redacted_count'', JInt (int (length rs))),
      (''recoverable_count'', JInt (int (length (filter is_recoverable os)) + int (length (filter is_recoverable rs))))]"

text \<open>\<open>entry["source"]["source_entry_id"]\<close>, read once for each hit.\<close>

definition entry_source_id :: "dict \<Rightarrow> py_exn + json" where
  "entry_source_id e = (case map_of e ''source'' of
     None \<Rightarrow> Inl KeyError
   | Some (JObj d) \<Rightarrow> (case map_of d ''source_entry_id'' of None \<Rightarrow> Inl KeyError | Some v \<Rightarrow> Inr v)
   | Some _ \<Rightarrow> Inl TypeError)"

definition redact_field :: "pattern list \<Rightarrow> string \<Rightarrow> dict \<times> dict list \<Rightarrow> py_exn + dict \<times> dict list" where
  "redact_field ps field s = (case dget (fst s) field of
     JStr v \<Rightarrow>
       (let (red, hits) = redact_text ps v in
        if v = [] \<or> hits = [] then Inr s
        else let e = AList.update ''redacted'' (JBool True) (AList.update field (JStr red) (fst s)) in
          rbind (traverse (\<lambda>h. rbind (entry_source_id e) (\<lambda>i. Inr (redaction i field (fst h) (snd h) True))) hits)
            (\<lambda>rs. Inr (e, snd s @ rs)))
   | _ \<Rightarrow> Inr s)"

definition redact_entry :: "pattern list \<Rightarrow> dict \<Rightarrow> py_exn + dict \<times> dict list" where
  "redact_entry ps e = fold_res (redact_field ps) [''text'', ''summary''] (e, [])"

definition redact_memory :: "pattern list \<Rightarrow> dict \<Rightarrow> dict \<times> dict list" where
  "redact_memory ps r =
     (let (red, hits) = redact_text ps (str_or_empty r ''fact_text'') in
      if hits = [] then (r, [])
      else let r' = AList.update ''fact_text'' (JStr red) r in
        (r', map (\<lambda>h. redaction (JStr (py_str (dget r' ''identifier''))) ''fact_text'' (fst h) (snd h) True) hits))"

definition redact_normalized :: "pattern list \<Rightarrow> normalized_session \<Rightarrow> py_exn + normalized_session" where
  "redact_normalized ps ses =
     rbind (traverse (redact_entry ps) (entries ses)) (\<lambda>es.
       let ms = map (redact_memory ps) (memory_records ses) in
       Inr (ses\<lparr>entries := map fst es, memory_records := map fst ms,
                redactions := concat (map snd es) @ concat (map snd ms)\<rparr>))"

section \<open>Facts\<close>

lemma redact_step_hits: "\<exists>hs. snd (redact_step p s) = snd s @ hs \<and> set hs \<subseteq> {(kind p, reason p)}"
  by (auto simp: redact_step_def Let_def)

lemma redact_fold_hits:
  "\<exists>hs. snd (fold redact_step ps s) = snd s @ hs \<and> set hs \<subseteq> (\<lambda>p. (kind p, reason p)) ` set ps"
proof (induction ps arbitrary: s)
  case (Cons p ps)
  from redact_step_hits [of p s] obtain hs where
    "snd (redact_step p s) = snd s @ hs" "set hs \<subseteq> {(kind p, reason p)}" by blast
  moreover from Cons.IH [of "redact_step p s"] obtain hs' where
    "snd (fold redact_step ps (redact_step p s)) = snd (redact_step p s) @ hs'"
    "set hs' \<subseteq> (\<lambda>p. (kind p, reason p)) ` set ps" by blast
  ultimately show ?case by (intro exI [of _ "hs @ hs'"]) auto
qed simp

lemma redact_text_hits: "(k, why) \<in> set (snd (redact_text ps s)) \<Longrightarrow> \<exists>p \<in> set ps. kind p = k \<and> reason p = why"
  using redact_fold_hits [of ps "(s, [])"] by (auto simp: redact_text_def)

lemma scan_Nil_iff: "scan ps s = [] \<longleftrightarrow> (\<forall>p \<in> set ps. finditer (regex p) s = [])"
  by (auto simp: scan_def rx_search_def filter_empty_conv)

lemma redact_step_clean: "finditer (regex p) (fst s) = [] \<Longrightarrow> redact_step p s = s"
  by (simp add: redact_step_def)

lemma redact_fold_clean: "scan ps (fst s) = [] \<Longrightarrow> fold redact_step ps s = s"
  by (induction ps arbitrary: s) (auto simp: scan_Nil_iff redact_step_clean)

lemma redact_fold_no_hits:
  "snd (fold redact_step ps s) = snd s \<Longrightarrow> scan ps (fst s) = [] \<and> fold redact_step ps s = s"
proof (induction ps arbitrary: s)
  case (Cons p ps)
  have "finditer (regex p) (fst s) = []"
  proof (rule ccontr)
    assume "finditer (regex p) (fst s) \<noteq> []"
    then have "length (snd (redact_step p s)) > length (snd s)"
      by (simp add: redact_step_def Let_def)
    moreover obtain hs where "snd (fold redact_step ps (redact_step p s)) = snd (redact_step p s) @ hs"
      using redact_fold_hits [of ps "redact_step p s"] by blast
    ultimately show False using Cons.prems by (auto dest: arg_cong [of _ _ length])
  qed
  moreover from this have "redact_step p s = s" by (rule redact_step_clean)
  ultimately show ?case using Cons by (auto simp: scan_Nil_iff)
qed (simp add: scan_def)

lemma redact_text_clean_iff: "snd (redact_text ps s) = [] \<longleftrightarrow> scan ps s = []"
  using redact_fold_no_hits [of ps "(s, [])"] redact_fold_clean [of ps "(s, [])"]
  by (auto simp: redact_text_def)

lemma redact_text_no_hits: "snd (redact_text ps s) = [] \<Longrightarrow> fst (redact_text ps s) = s"
  using redact_fold_no_hits [of ps "(s, [])"] by (auto simp: redact_text_def)

text \<open>The output gate and the redaction agree: the gate passes a text exactly when redacting it
with the same patterns changes nothing and reports no hit, and it otherwise names the kinds that
match together with the location it was given.\<close>

theorem gate_iff_redaction_idle:
  "(assert_no_secrets s loc = Inr () \<longleftrightarrow> redact_text PATTERNS s = (s, [])) \<and>
   (assert_no_secrets s loc = Inl e \<longleftrightarrow> e = (scan PATTERNS s, loc) \<and> snd (redact_text PATTERNS s) \<noteq> [])"
  using redact_text_clean_iff [of PATTERNS s] redact_text_no_hits [of PATTERNS s]
  by (auto simp: assert_no_secrets_def Let_def prod_eq_iff)

text \<open>A redaction record names a pattern of the engine and a location, and nothing else.\<close>

definition kind_record :: "pattern list \<Rightarrow> dict \<Rightarrow> bool" where
  "kind_record ps r = (\<exists>p \<in> set ps. \<exists>loc f. r = redaction loc f (kind p) (reason p) True)"

definition redacted_to :: "pattern list \<Rightarrow> string set \<Rightarrow> dict \<Rightarrow> dict \<Rightarrow> bool" where
  "redacted_to ps fs d d' =
     ((\<forall>k. k \<notin> fs \<longrightarrow> k \<noteq> ''redacted'' \<longrightarrow> map_of d' k = map_of d k) \<and>
      (\<forall>f \<in> fs. \<forall>v. map_of d f = Some (JStr v) \<longrightarrow> map_of d' f = Some (JStr (fst (redact_text ps v)))))"

lemma redact_text_Nil [simp]: "redact_text ps [] = ([], [])"
proof -
  have "fold redact_step ps ([], []) = ([], [])"
    by (rule redact_fold_clean) (simp add: scan_Nil_iff finditer_def)
  then show ?thesis by (simp add: redact_text_def)
qed

lemma redact_field_result:
  assumes "redact_field ps f (d, rs) = Inr (d', rs')" "f \<noteq> ''redacted''"
  shows "redacted_to ps {f} d d' \<and> (\<exists>new. rs' = rs @ new \<and> (\<forall>r \<in> set new. kind_record ps r))"
proof (cases "\<exists>v. map_of d f = Some (JStr v) \<and> v \<noteq> [] \<and> snd (redact_text ps v) \<noteq> []")
  case True
  then obtain v where v: "map_of d f = Some (JStr v)" "v \<noteq> []" "snd (redact_text ps v) \<noteq> []" by blast
  let ?e = "AList.update ''redacted'' (JBool True) (AList.update f (JStr (fst (redact_text ps v))) d)"
  let ?rec = "\<lambda>h. rbind (entry_source_id ?e) (\<lambda>i. Inr (redaction i f (fst h) (snd h) True))"
  obtain new where new: "traverse ?rec (snd (redact_text ps v)) = Inr new" "d' = ?e" "rs' = rs @ new"
    using assms(1) v by (auto simp: redact_field_def dget_def case_prod_beta Let_def rbind_eq_Inr)
  have "kind_record ps r" if "r \<in> set new" for r
  proof -
    from new(1) that obtain h where "h \<in> set (snd (redact_text ps v))" "?rec h = Inr r"
      unfolding traverse_Inr_iff list_all2_conv_all_nth by (metis in_set_conv_nth)
    then obtain i p where "p \<in> set ps" "kind p = fst h" "reason p = snd h"
      and r: "r = redaction i f (fst h) (snd h) True"
      using redact_text_hits [of "fst h" "snd h" ps v] by (auto simp: rbind_eq_Inr)
    then show ?thesis unfolding kind_record_def by metis
  qed
  moreover have "redacted_to ps {f} d ?e" using assms(2) v by (auto simp: redacted_to_def)
  ultimately show ?thesis using new by blast
next
  case False
  have "redact_field ps f (d, rs) = Inr (d, rs)"
    using False by (auto simp: redact_field_def dget_def case_prod_beta split: option.splits json.splits)
  moreover have "redacted_to ps {f} d d"
    using False redact_text_no_hits by (auto simp: redacted_to_def)
  ultimately show ?thesis using assms(1) by auto
qed

lemma redact_entry_result:
  assumes "redact_entry ps d = Inr (d', rs)"
  shows "redacted_to ps {''text'', ''summary''} d d' \<and> (\<forall>r \<in> set rs. kind_record ps r)"
proof -
  from assms obtain e r1 where 1: "redact_field ps ''text'' (d, []) = Inr (e, r1)"
    and 2: "redact_field ps ''summary'' (e, r1) = Inr (d', rs)"
    by (auto simp: redact_entry_def rbind_eq_Inr)
  from redact_field_result [OF 1] redact_field_result [OF 2]
  have r1: "redacted_to ps {''text''} d e" "redacted_to ps {''summary''} e d'"
    and "\<forall>r \<in> set rs. kind_record ps r" by auto
  moreover have "redacted_to ps {''text'', ''summary''} d d'"
    unfolding redacted_to_def
  proof (intro conjI allI ballI impI)
    fix k assume "k \<notin> {''text'', ''summary''}" "k \<noteq> ''redacted''"
    with r1 show "map_of d' k = map_of d k" unfolding redacted_to_def by (metis insert_iff)
  next
    fix f v assume "f \<in> {''text'', ''summary''}" "map_of d f = Some (JStr v)"
    with r1 show "map_of d' f = Some (JStr (fst (redact_text ps v)))"
      unfolding redacted_to_def by (cases "f = ''text''") auto
  qed
  ultimately show ?thesis by blast
qed

lemma redact_memory_result:
  "redacted_to ps {''fact_text''} d (fst (redact_memory ps d)) \<and>
   (\<forall>r \<in> set (snd (redact_memory ps d)). kind_record ps r)"
proof (cases "snd (redact_text ps (str_or_empty d ''fact_text'')) = []")
  case True
  have "fst (redact_text ps v) = v" if "map_of d ''fact_text'' = Some (JStr v)" for v
    using True that redact_text_no_hits [of ps v]
    by (cases "v = []") (auto simp: str_or_empty_def dget_def py_str_def)
  then show ?thesis using True
    by (auto simp: redact_memory_def redacted_to_def case_prod_beta Let_def)
next
  case False
  have "str_or_empty d ''fact_text'' = v" if "map_of d ''fact_text'' = Some (JStr v)" for v
    using that by (auto simp: str_or_empty_def dget_def py_str_def)
  then show ?thesis using False redact_text_hits [of _ _ ps "str_or_empty d ''fact_text''"]
    by (auto simp: redact_memory_def redacted_to_def kind_record_def case_prod_beta Let_def) blast
qed

text \<open>The redaction of a session replaces exactly the documented fields: every entry and every
memory keeps all its other fields (only the marker is added), its string fields hold the redacted
text, the rest of the session is untouched, and every record it reports names a pattern's kind and
static reason with a location, so that no record carries a matched value.\<close>

theorem redact_normalized_frame:
  assumes "redact_normalized ps ses = Inr ses'"
  shows "list_all2 (redacted_to ps {''text'', ''summary''}) (entries ses) (entries ses') \<and>
    list_all2 (redacted_to ps {''fact_text''}) (memory_records ses) (memory_records ses') \<and>
    (\<forall>r \<in> set (redactions ses'). kind_record ps r) \<and>
    ses'\<lparr>entries := entries ses, memory_records := memory_records ses, redactions := redactions ses\<rparr> = ses"
proof -
  from assms obtain es where es: "traverse (redact_entry ps) (entries ses) = Inr es"
    and ses': "ses' = ses\<lparr>entries := map fst es,
      memory_records := map fst (map (redact_memory ps) (memory_records ses)),
      redactions := concat (map snd es) @ concat (map snd (map (redact_memory ps) (memory_records ses)))\<rparr>"
    by (auto simp: redact_normalized_def rbind_eq_Inr Let_def)
  have A: "list_all2 (\<lambda>d y. redact_entry ps d = Inr y) (entries ses) es"
    using es by (simp add: traverse_Inr_iff)
  have 1: "list_all2 (redacted_to ps {''text'', ''summary''}) (entries ses) (map fst es)"
    by (rule list_all2_conj [OF A]) (metis prod.collapse redact_entry_result)
  have 2: "\<forall>r \<in> set (concat (map snd es)). kind_record ps r"
    using list_all2_set2 [OF A] redact_entry_result by (fastforce)
  show ?thesis using 1 2 redact_memory_result [of ps]
    by (auto simp: ses' list.rel_map intro!: list.rel_refl_strong)
qed

definition sample_session :: normalized_session where
  "sample_session = \<lparr>adapter = ''codex'', adapter_version = ''1'', session_id = ''s'', label = ''l'', time_range = [],
     codex_version = None, harness_id = None,
     entries = [[(''source'', JObj [(''source_entry_id'', JStr ''e1'')]), (''text'', JStr ''pwd=hunter22'')]],
     memory_records = [[(''identifier'', JStr ''m''), (''fact_text'', JStr ''ok'')]],
     omissions = [], redactions = []\<rparr>"

definition sample_redacted :: "dict list" where
  "sample_redacted = [[(''source'', JObj [(''source_entry_id'', JStr ''e1'')]),
     (''text'', JStr ''pwd=[REDACTED:api_key]''), (''redacted'', JBool True)]]"

lemma sample_session_redacts:
  "map_sum (\<lambda>e. e) entries (redact_normalized PATTERNS sample_session) = Inr sample_redacted"
  by code_simp

theorem redact_normalized_frame_witness:
  "\<exists>ses'. redact_normalized PATTERNS sample_session = Inr ses' \<and> entries ses' = sample_redacted \<and>
     list_all2 (redacted_to PATTERNS {''text'', ''summary''}) (entries sample_session) sample_redacted"
proof -
  obtain ses' where 1: "redact_normalized PATTERNS sample_session = Inr ses'" "entries ses' = sample_redacted"
    using sample_session_redacts by (cases "redact_normalized PATTERNS sample_session") auto
  from redact_normalized_frame [OF 1(1)] 1 show ?thesis by auto
qed

end
