(* ===== verification/PolicyModel.thy ===== *)
theory PolicyModel
  imports PyJson Sha256
begin

text \<open>
  \<open>policy.py\<close>, part one: the errors of the boundary, the validation of context fields and
  tags, and the share approvals and credentials with their dictionary forms. A \<open>PolicyError\<close>
  keeps its status, machine code and detail; its message text is not modelled. The tuples of
  strings of an approval or a credential are read from JSON; an element that is not a string
  is outside the model and reported as \<open>Unmodelled\<close>.
\<close>

datatype policy_exn = PolicyError int string dict | Raised py_exn | Unmodelled

type_synonym 'a pol = "policy_exn + 'a"

definition lift_py :: "py_exn + 'a \<Rightarrow> 'a pol" where
  "lift_py m = map_sum Raised id m"

definition SESSION_ENVELOPE_VERSION :: string where
  "SESSION_ENVELOPE_VERSION = ''hotmem-session-v1''"

definition MAX_CONTEXT_FIELD_LEN :: nat where "MAX_CONTEXT_FIELD_LEN = 256"
definition MAX_TAGS_COUNT :: nat where "MAX_TAGS_COUNT = 128"
definition MAX_TAG_LEN :: nat where "MAX_TAG_LEN = 256"

definition VALID_SECRET_ACTIONS :: "string list" where
  "VALID_SECRET_ACTIONS = [''allow'', ''redact'', ''omit'', ''fail_closed'']"

definition VALID_CLASSIFICATION_ACTIONS :: "string list" where
  "VALID_CLASSIFICATION_ACTIONS = [''allow'', ''omit'', ''fail_closed'']"

definition PRIVATE_CLASSIFICATIONS :: "string list" where
  "PRIVATE_CLASSIFICATIONS = [''private'', ''secret'', ''confidential'', ''restricted'']"

definition hash_token :: "string \<Rightarrow> string" where
  "hash_token token = sha256_hex token"

definition validate_secret_action :: "string \<Rightarrow> string pol" where
  "validate_secret_action a =
     (if a \<notin> set VALID_SECRET_ACTIONS then Inl (Raised ValueError) else Inr a)"

definition validate_classification_action :: "string \<Rightarrow> string pol" where
  "validate_classification_action a =
     (if a \<notin> set VALID_CLASSIFICATION_ACTIONS then Inl (Raised ValueError) else Inr a)"

section \<open>Context fields and tags\<close>

definition has_control_char :: "string \<Rightarrow> bool" where
  "has_control_char s = list_ex (\<lambda>c. (of_char c :: nat) < 32 \<or> (of_char c :: nat) = 127) s"

definition bad_context :: policy_exn where
  "bad_context = PolicyError 400 ''invalid_session_context'' []"

definition validate_context_field :: "json \<Rightarrow> bool \<Rightarrow> string pol" where
  "validate_context_field v allow_empty = (case v of
     JNull \<Rightarrow> (if \<not> allow_empty then Inl bad_context else Inr [])
   | JStr s \<Rightarrow>
       (if has_control_char s then Inl bad_context
        else if py_len (strip s) > MAX_CONTEXT_FIELD_LEN then Inl bad_context
        else if \<not> allow_empty \<and> strip s = [] then Inl bad_context
        else Inr (strip s))
   | _ \<Rightarrow> Inl bad_context)"

definition validate_envelope_version :: "json \<Rightarrow> string pol" where
  "validate_envelope_version v =
     (if v = JNull then Inr SESSION_ENVELOPE_VERSION
      else rbind (validate_context_field v False) (\<lambda>ver.
        if ver \<noteq> SESSION_ENVELOPE_VERSION then Inl (PolicyError 400 ''unsupported_envelope_version'' [])
        else Inr ver))"

definition bad_tags :: policy_exn where
  "bad_tags = PolicyError 400 ''invalid_tags'' []"

definition validate_tag :: "json \<Rightarrow> string pol" where
  "validate_tag v = (case v of
     JStr s \<Rightarrow>
       (if has_control_char s then Inl bad_tags
        else if strip s = [] then Inl bad_tags
        else if py_len (strip s) > MAX_TAG_LEN then Inl bad_tags
        else Inr (strip s))
   | _ \<Rightarrow> Inl bad_tags)"

definition validate_request_tags :: "json \<Rightarrow> string list pol" where
  "validate_request_tags v = (case v of
     JNull \<Rightarrow> Inr []
   | JList xs \<Rightarrow> (if length xs > MAX_TAGS_COUNT then Inl bad_tags else traverse validate_tag xs)
   | _ \<Rightarrow> Inl bad_tags)"

section \<open>Share approvals\<close>

record share_approval =
  sa_approval_id :: string
  sa_namespace :: string
  sa_identifiers :: "string list"
  sa_memory_ids :: "string list"
  sa_audience :: "string list"
  sa_operations :: "string list"
  sa_version :: int
  sa_revoked :: bool
  sa_secret_action :: "string option"
  sa_private_classification_action :: "string option"

text \<open>\<open>__post_init__\<close>: an action that is given has to be a known one.\<close>

definition check_actions :: "string option \<Rightarrow> string option \<Rightarrow> unit pol" where
  "check_actions secret cls =
     rbind (case secret of None \<Rightarrow> Inr () | Some a \<Rightarrow> rbind (validate_secret_action a) (\<lambda>_. Inr ())) (\<lambda>_.
     (case cls of None \<Rightarrow> Inr () | Some a \<Rightarrow> rbind (validate_classification_action a) (\<lambda>_. Inr ())))"

definition share_post_init :: "share_approval \<Rightarrow> share_approval pol" where
  "share_post_init s =
     rbind (check_actions (sa_secret_action s) (sa_private_classification_action s)) (\<lambda>_. Inr s)"

definition share_allows_row :: "share_approval \<Rightarrow> dict \<Rightarrow> string \<Rightarrow> string \<Rightarrow> bool" where
  "share_allows_row s row caller op =
     (if sa_revoked s then False
      else if sa_audience s \<noteq> [] \<and> caller \<notin> set (sa_audience s) then False
      else if op \<notin> set (sa_operations s) then False
      else if str_or_empty row ''namespace'' \<noteq> sa_namespace s then False
      else if sa_memory_ids s \<noteq> [] \<and> str_or_empty row ''id'' \<notin> set (sa_memory_ids s) then False
      else \<not> (sa_identifiers s \<noteq> [] \<and> str_or_empty row ''identifier'' \<notin> set (sa_identifiers s)))"

definition share_allows_namespace :: "share_approval \<Rightarrow> string \<Rightarrow> string \<Rightarrow> string \<Rightarrow> bool" where
  "share_allows_namespace s ns caller op =
     (if sa_revoked s then False
      else if sa_audience s \<noteq> [] \<and> caller \<notin> set (sa_audience s) then False
      else if op \<notin> set (sa_operations s) then False
      else sa_namespace s = ns)"

definition str_list :: "string list \<Rightarrow> json" where
  "str_list xs = JList (map JStr xs)"

definition optional_key :: "string \<Rightarrow> string option \<Rightarrow> dict" where
  "optional_key k v = (case v of None \<Rightarrow> [] | Some x \<Rightarrow> [(k, JStr x)])"

definition share_to_dict :: "share_approval \<Rightarrow> dict" where
  "share_to_dict s =
     [(''approval_id'', JStr (sa_approval_id s)), (''namespace'', JStr (sa_namespace s)),
      (''identifiers'', str_list (sa_identifiers s)), (''memory_ids'', str_list (sa_memory_ids s)),
      (''audience'', str_list (sa_audience s)), (''operations'', str_list (sa_operations s)),
      (''version'', JInt (sa_version s)), (''revoked'', JBool (sa_revoked s))]
     @ optional_key ''secret_action'' (sa_secret_action s)
     @ optional_key ''private_classification_action'' (sa_private_classification_action s)"

text \<open>\<open>tuple(data.get(k, default))\<close>: a string is split into its characters.\<close>

fun plain_str :: "json \<Rightarrow> string pol" where
  "plain_str (JStr s) = Inr s"
| "plain_str _ = Inl Unmodelled"

definition str_tuple :: "dict \<Rightarrow> string \<Rightarrow> string list \<Rightarrow> string list pol" where
  "str_tuple d k dflt = (case dget_default d k (str_list dflt) of
     JList xs \<Rightarrow> traverse plain_str xs
   | JStr s \<Rightarrow> Inr (utf8_chars s)
   | JObj e \<Rightarrow> Inr (dict_keys e)
   | _ \<Rightarrow> Inl (Raised TypeError))"

definition str_key :: "dict \<Rightarrow> string \<Rightarrow> string pol" where
  "str_key d k = (case map_of d k of None \<Rightarrow> Inl (Raised KeyError) | Some v \<Rightarrow> Inr (py_str v))"

definition optional_str :: "json \<Rightarrow> string option" where
  "optional_str v = (if v = JNull then None else Some (py_str v))"

definition share_from_dict :: "json \<Rightarrow> share_approval pol" where
  "share_from_dict v = (case v of JObj d \<Rightarrow>
     rbind (str_key d ''approval_id'') (\<lambda>i.
     rbind (str_tuple d ''identifiers'' []) (\<lambda>ids.
     rbind (str_tuple d ''memory_ids'' []) (\<lambda>mids.
     rbind (str_tuple d ''audience'' []) (\<lambda>aud.
     rbind (str_tuple d ''operations'' [''read'']) (\<lambda>ops.
     rbind (lift_py (py_int (dget_default d ''version'' (JInt 1)))) (\<lambda>ver.
     share_post_init \<lparr>sa_approval_id = i,
       sa_namespace = py_str (dget_default d ''namespace'' (JStr [])),
       sa_identifiers = ids, sa_memory_ids = mids, sa_audience = aud, sa_operations = ops,
       sa_version = ver, sa_revoked = truthy (dget_default d ''revoked'' (JBool False)),
       sa_secret_action = optional_str (dget d ''secret_action''),
       sa_private_classification_action = optional_str (dget d ''private_classification_action'')\<rparr>))))))
   | _ \<Rightarrow> Inl (Raised TypeError))"

section \<open>Credentials\<close>

record caller_credential =
  cc_token_hash :: string
  cc_caller_id :: string
  cc_store_id :: string
  cc_namespaces :: "string list"
  cc_operations :: "string list"
  cc_allowed_sessions :: "string list"
  cc_allowed_sources :: "string list"
  cc_allowed_harnesses :: "string list"
  cc_share_approvals :: "share_approval list"
  cc_is_management :: bool
  cc_revoked :: bool
  cc_secret_action :: "string option"
  cc_private_classification_action :: "string option"
  cc_allow_attachments :: bool
  cc_redact_host_paths :: bool

definition DEFAULT_OPERATIONS :: "string list" where
  "DEFAULT_OPERATIONS = [''read'', ''write'', ''export'', ''hydrate'', ''promote'']"

definition credential_post_init :: "caller_credential \<Rightarrow> caller_credential pol" where
  "credential_post_init c =
     rbind (check_actions (cc_secret_action c) (cc_private_classification_action c)) (\<lambda>_. Inr c)"

definition credential_from_token :: "string \<Rightarrow> caller_credential \<Rightarrow> caller_credential pol" where
  "credential_from_token token c = credential_post_init (c\<lparr>cc_token_hash := hash_token token\<rparr>)"

text \<open>\<open>hmac.compare_digest\<close> on strings refuses non-ASCII arguments.\<close>

definition is_ascii :: "string \<Rightarrow> bool" where
  "is_ascii s = list_all (\<lambda>c. (of_char c :: nat) < 128) s"

definition matches_token :: "caller_credential \<Rightarrow> string \<Rightarrow> bool pol" where
  "matches_token c token =
     (if \<not> is_ascii (cc_token_hash c) then Inl (Raised TypeError)
      else Inr (cc_token_hash c = hash_token token))"

definition credential_to_dict :: "caller_credential \<Rightarrow> dict" where
  "credential_to_dict c =
     [(''token_hash'', JStr (cc_token_hash c)), (''caller_id'', JStr (cc_caller_id c)),
      (''store_id'', JStr (cc_store_id c)), (''namespaces'', str_list (cc_namespaces c)),
      (''operations'', str_list (cc_operations c)),
      (''allowed_sessions'', str_list (cc_allowed_sessions c)),
      (''allowed_sources'', str_list (cc_allowed_sources c)),
      (''allowed_harnesses'', str_list (cc_allowed_harnesses c)),
      (''share_approvals'', JList (map (\<lambda>s. JObj (share_to_dict s)) (cc_share_approvals c))),
      (''is_management'', JBool (cc_is_management c)), (''revoked'', JBool (cc_revoked c)),
      (''allow_attachments'', JBool (cc_allow_attachments c)),
      (''redact_host_paths'', JBool (cc_redact_host_paths c))]
     @ optional_key ''secret_action'' (cc_secret_action c)
     @ optional_key ''private_classification_action'' (cc_private_classification_action c)"

definition token_hash_of :: "dict \<Rightarrow> json" where
  "token_hash_of d =
     (let h = dget d ''token_hash'' in
      if \<not> truthy h \<and> has_key d ''token'' then JStr (hash_token (py_str (dget d ''token''))) else h)"

definition share_list :: "dict \<Rightarrow> share_approval list pol" where
  "share_list d = (case dget_default d ''share_approvals'' (JList []) of
     JList xs \<Rightarrow> traverse share_from_dict xs
   | JStr s \<Rightarrow> (if s = [] then Inr [] else Inl (Raised TypeError))
   | JObj e \<Rightarrow> (if e = [] then Inr [] else Inl (Raised TypeError))
   | _ \<Rightarrow> Inl (Raised TypeError))"

definition credential_from_dict :: "json \<Rightarrow> json \<Rightarrow> json \<Rightarrow> caller_credential pol" where
  "credential_from_dict v default_secret default_cls = (case v of JObj d \<Rightarrow>
     rbind (str_key d ''caller_id'') (\<lambda>i.
     rbind (str_tuple d ''namespaces'' [[]]) (\<lambda>ns.
     rbind (str_tuple d ''operations'' DEFAULT_OPERATIONS) (\<lambda>ops.
     rbind (str_tuple d ''allowed_sessions'' []) (\<lambda>ses.
     rbind (str_tuple d ''allowed_sources'' []) (\<lambda>srcs.
     rbind (str_tuple d ''allowed_harnesses'' []) (\<lambda>hs.
     rbind (share_list d) (\<lambda>shares.
     credential_post_init \<lparr>cc_token_hash = py_str (por (token_hash_of d) (JStr [])), cc_caller_id = i,
       cc_store_id = py_str (dget_default d ''store_id'' (JStr [])), cc_namespaces = ns,
       cc_operations = ops, cc_allowed_sessions = ses, cc_allowed_sources = srcs,
       cc_allowed_harnesses = hs, cc_share_approvals = shares,
       cc_is_management = truthy (dget_default d ''is_management'' (JBool False)),
       cc_revoked = truthy (dget_default d ''revoked'' (JBool False)),
       cc_secret_action = optional_str (dget_default d ''secret_action'' default_secret),
       cc_private_classification_action =
         optional_str (dget_default d ''private_classification_action'' default_cls),
       cc_allow_attachments = truthy (dget_default d ''allow_attachments'' (JBool False)),
       cc_redact_host_paths = truthy (dget_default d ''redact_host_paths'' (JBool True))\<rparr>)))))))
   | _ \<Rightarrow> Inl (Raised AttributeError))"

section \<open>Facts\<close>

lemma lift_py_simps [simp]: "lift_py (Inr x) = Inr x" "lift_py (Inl e) = Inl (Raised e)"
  by (simp_all add: lift_py_def)

lemma validate_context_field_clean:
  "validate_context_field v allow = Inr s \<Longrightarrow>
     \<not> has_control_char s \<and> py_len s \<le> MAX_CONTEXT_FIELD_LEN \<and> (\<not> allow \<longrightarrow> s \<noteq> [])"
proof (cases v)
  case (JStr t)
  assume "validate_context_field v allow = Inr s"
  moreover have "set (strip t) \<subseteq> set t" by (rule set_strip)
  ultimately show ?thesis using JStr
    by (auto simp: validate_context_field_def has_control_char_def list_ex_iff split: if_splits)
qed (auto simp: validate_context_field_def has_control_char_def py_len_def split: if_splits)

lemma validate_context_field_err: "validate_context_field v allow = Inl e \<Longrightarrow> e = bad_context"
  by (auto simp: validate_context_field_def split: json.splits if_splits)

lemma traverse_plain_str [simp]: "traverse plain_str (map JStr xs) = Inr xs"
  by (induction xs) simp_all

lemma str_tuple_str_list: "map_of d k = Some (str_list xs) \<Longrightarrow> str_tuple d k dflt = Inr xs"
  by (simp add: str_tuple_def dget_default_def str_list_def)

lemma check_actions_iff:
  "check_actions secret cls = Inr u \<longleftrightarrow>
     (\<forall>a. secret = Some a \<longrightarrow> a \<in> set VALID_SECRET_ACTIONS) \<and>
     (\<forall>a. cls = Some a \<longrightarrow> a \<in> set VALID_CLASSIFICATION_ACTIONS)"
  by (cases secret; cases cls)
    (auto simp: check_actions_def rbind_eq_Inr validate_secret_action_def validate_classification_action_def)

lemma optional_str_key [simp]:
  "optional_str (dget_default (optional_key k v @ d) k' dflt) =
     (if k' = k \<and> v \<noteq> None then v else optional_str (dget_default d k' dflt))"
  by (auto simp: optional_str_def dget_default_def optional_key_def py_str_def split: option.splits)

definition valid_share :: "share_approval \<Rightarrow> bool" where
  "valid_share s = (check_actions (sa_secret_action s) (sa_private_classification_action s) = Inr ())"

definition valid_credential :: "caller_credential \<Rightarrow> bool" where
  "valid_credential c =
     (check_actions (cc_secret_action c) (cc_private_classification_action c) = Inr () \<and>
      list_all valid_share (cc_share_approvals c))"

lemma share_post_init_valid: "share_post_init s = Inr t \<longleftrightarrow> t = s \<and> valid_share s"
  by (auto simp: share_post_init_def valid_share_def rbind_eq_Inr)

lemma dget_conv: "dget d k = dget_default d k JNull"
  by (simp add: dget_def dget_default_def)

lemma optional_str_None [simp]: "optional_str JNull = None"
  by (simp add: optional_str_def)

lemma share_roundtrip: "valid_share s \<Longrightarrow> share_from_dict (JObj (share_to_dict s)) = Inr s"
  by (cases s; cases "sa_secret_action s"; cases "sa_private_classification_action s")
    (simp_all add: share_from_dict_def share_to_dict_def str_key_def py_str_def py_int_def share_post_init_valid
      str_tuple_str_list dget_conv dget_default_def valid_share_def optional_key_def optional_str_def)

lemma share_from_dict_valid: "share_from_dict v = Inr s \<Longrightarrow> valid_share s"
  by (auto simp: share_from_dict_def rbind_eq_Inr share_post_init_valid split: json.splits)

lemma share_list_roundtrip:
  "list_all valid_share ss \<Longrightarrow> traverse share_from_dict (map (\<lambda>s. JObj (share_to_dict s)) ss) = Inr ss"
  by (induction ss) (simp_all add: share_roundtrip)

lemma traverse_share_valid: "traverse share_from_dict xs = Inr ss \<Longrightarrow> list_all valid_share ss"
  by (induction xs arbitrary: ss) (auto simp: rbind_eq_Inr dest: share_from_dict_valid)

lemma share_list_valid: "share_list d = Inr ss \<Longrightarrow> list_all valid_share ss"
  by (cases "dget_default d ''share_approvals'' (JList [])")
    (auto simp: share_list_def split: if_splits dest: traverse_share_valid)

lemma credential_roundtrip:
  assumes "valid_credential c"
  shows "credential_from_dict (JObj (credential_to_dict c)) JNull JNull = Inr c"
proof -
  let ?d = "credential_to_dict c"
  have s: "share_list ?d = Inr (cc_share_approvals c)"
    using assms share_list_roundtrip
    by (simp add: share_list_def credential_to_dict_def dget_default_def valid_credential_def)
  have h: "py_str (por (token_hash_of ?d) (JStr [])) = cc_token_hash c"
    by (auto simp: token_hash_of_def dget_def credential_to_dict_def has_key_def por_def py_str_def
        optional_key_def Let_def split: option.splits)
  show ?thesis using assms s h
    unfolding credential_from_dict_def
    by (cases c) (simp add: credential_to_dict_def str_key_def py_str_def
        str_tuple_str_list dget_default_def credential_post_init_def valid_credential_def
        optional_key_def optional_str_def split: option.splits)
qed

lemma credential_from_dict_valid: "credential_from_dict v a b = Inr c \<Longrightarrow> valid_credential c"
  by (auto simp: credential_from_dict_def rbind_eq_Inr credential_post_init_def valid_credential_def
      split: json.splits dest: share_list_valid)

lemma is_ascii_hash [simp]: "is_ascii (hash_token t)"
  unfolding is_ascii_def hash_token_def list_all_iff by (auto dest!: sha256_hex_digits)

end
