(* ===== verification/PolicyAccess.thy ===== *)
theory PolicyAccess
  imports PolicyModel
begin

text \<open>
  \<open>policy.py\<close>, part two: the resolved caller context, its namespace and row scope, the
  session envelope, and the policy configuration with its two revocations. The loops of the
  revocations are maps that also count; a Python object updated in place is the updated list.
\<close>

record caller_context =
  cx_authenticated :: bool
  cx_policy_enforced :: bool
  cx_caller_id :: string
  cx_store_id :: string
  cx_session_id :: string
  cx_harness_id :: string
  cx_source :: string
  cx_namespace :: "string option"
  cx_credential :: "caller_credential option"
  cx_idempotency_key :: "string option"
  cx_envelope_version :: string
  cx_default_secret_action :: string
  cx_default_private_classification_action :: string

text \<open>\<open>policy_enforced and credential is not None\<close>: the credential that scopes the call.\<close>

definition scoped :: "caller_context \<Rightarrow> caller_credential option" where
  "scoped cx = (if cx_policy_enforced cx then cx_credential cx else None)"

definition direct_namespace :: "caller_credential \<Rightarrow> string \<Rightarrow> string \<Rightarrow> bool" where
  "direct_namespace c ns op =
     (op \<in> set (cc_operations c) \<and> (''*'' \<in> set (cc_namespaces c) \<or> ns \<in> set (cc_namespaces c)))"

definition narrowed :: "string option \<Rightarrow> (string \<Rightarrow> bool) \<Rightarrow> bool" where
  "narrowed x P = (case x of None \<Rightarrow> False | Some m \<Rightarrow> P m)"

lemma narrowed_iff [simp]: "narrowed x P \<longleftrightarrow> (\<exists>m. x = Some m \<and> P m)"
  by (simp add: narrowed_def split: option.splits)

definition can_access_namespace :: "caller_context \<Rightarrow> string \<Rightarrow> string \<Rightarrow> bool" where
  "can_access_namespace cx ns op = (case scoped cx of
     None \<Rightarrow> True
   | Some c \<Rightarrow>
       (if narrowed (cx_namespace cx) (\<lambda>m. ns \<noteq> m) then False
        else if direct_namespace c ns op then True
        else list_ex (\<lambda>s. share_allows_namespace s ns (cx_caller_id cx) op) (cc_share_approvals c)))"

definition can_access_row :: "caller_context \<Rightarrow> dict \<Rightarrow> string \<Rightarrow> bool" where
  "can_access_row cx row op = (case scoped cx of
     None \<Rightarrow> True
   | Some c \<Rightarrow>
       (if narrowed (cx_namespace cx) (\<lambda>m. str_or_empty row ''namespace'' \<noteq> m) then False
        else if direct_namespace c (str_or_empty row ''namespace'') op then True
        else list_ex (\<lambda>s. share_allows_row s row (cx_caller_id cx) op) (cc_share_approvals c)))"

definition or_empty :: "string option \<Rightarrow> string" where
  "or_empty x = (case x of None \<Rightarrow> [] | Some s \<Rightarrow> s)"

definition effective_write_namespace :: "caller_context \<Rightarrow> string pol" where
  "effective_write_namespace cx = (case scoped cx of
     None \<Rightarrow> Inr (or_empty (cx_namespace cx))
   | Some c \<Rightarrow>
       (let target = (case cx_namespace cx of
              Some m \<Rightarrow> m
            | None \<Rightarrow> (case cc_namespaces c of [] \<Rightarrow> [] | n # _ \<Rightarrow> n)) in
        if target = ''*'' then Inl (PolicyError 400 ''namespace_required'' [])
        else if \<not> can_access_namespace cx target ''write'' then Inl (PolicyError 403 ''scope_denied'' [])
        else Inr target))"

definition hydrate_target_namespace :: "caller_context \<Rightarrow> string pol" where
  "hydrate_target_namespace cx = (case scoped cx of
     None \<Rightarrow> Inr (or_empty (cx_namespace cx))
   | Some c \<Rightarrow>
       (if cx_namespace cx \<noteq> None then effective_write_namespace cx
        else if cc_namespaces c \<noteq> [] \<and> ''*'' \<notin> set (cc_namespaces c) then effective_write_namespace cx
        else Inr []))"

definition require_operation :: "caller_context \<Rightarrow> string \<Rightarrow> unit pol" where
  "require_operation cx op = (case scoped cx of
     None \<Rightarrow> Inr ()
   | Some c \<Rightarrow>
       (if op = ''manage'' then
          (if \<not> cc_is_management c then Inl (PolicyError 403 ''management_authority_required'' []) else Inr ())
        else if op \<notin> set (cc_operations c)
                \<and> \<not> list_ex (\<lambda>s. \<not> sa_revoked s \<and> op \<in> set (sa_operations s)) (cc_share_approvals c)
          then Inl (PolicyError 403 ''scope_denied'' [])
        else if narrowed (cx_namespace cx) (\<lambda>m. \<not> can_access_namespace cx m op)
          then Inl (PolicyError 403 ''scope_denied'' [])
        else Inr ()))"

definition redact_host_paths_enabled :: "caller_context \<Rightarrow> bool" where
  "redact_host_paths_enabled cx =
     (if \<not> cx_policy_enforced cx then False
      else case cx_credential cx of None \<Rightarrow> True | Some c \<Rightarrow> cc_redact_host_paths c)"

definition allow_attachments_enabled :: "caller_context \<Rightarrow> bool" where
  "allow_attachments_enabled cx =
     (if \<not> cx_policy_enforced cx then True
      else case cx_credential cx of None \<Rightarrow> False | Some c \<Rightarrow> cc_allow_attachments c \<or> cc_is_management c)"

definition filter_rows :: "caller_context \<Rightarrow> dict list \<Rightarrow> string \<Rightarrow> dict list" where
  "filter_rows cx rows op = (case scoped cx of
     None \<Rightarrow> (case cx_namespace cx of
        Some m \<Rightarrow> filter (\<lambda>r. str_or_empty r ''namespace'' = m) rows
      | None \<Rightarrow> rows)
   | Some c \<Rightarrow> filter (\<lambda>r. can_access_row cx r op) rows)"

section \<open>The session envelope\<close>

record session_envelope =
  se_caller_id :: string
  se_session_id :: string
  se_source :: string
  se_namespace :: string
  se_store_id :: string
  se_harness_id :: string
  se_envelope_version :: string

definition to_provenance_dict :: "session_envelope \<Rightarrow> json \<Rightarrow> dict" where
  "to_provenance_dict e existing =
     dict_update (dict_of existing)
       [(''envelope_version'', JStr (se_envelope_version e)), (''caller_id'', JStr (se_caller_id e)),
        (''harness_id'', JStr (se_harness_id e)), (''session_id'', JStr (se_session_id e)),
        (''source'', JStr (se_source e)), (''namespace'', JStr (se_namespace e)),
        (''store_id'', JStr (se_store_id e))]"

definition str_or :: "string \<Rightarrow> string \<Rightarrow> string" where
  "str_or a b = (if a \<noteq> [] then a else b)"

definition build_session_envelope ::
  "caller_context \<Rightarrow> string \<Rightarrow> string \<Rightarrow> string option \<Rightarrow> string option \<Rightarrow> string option \<Rightarrow> session_envelope option" where
  "build_session_envelope cx ns req_source req_harness req_session req_version =
     (let src = str_or (cx_source cx) req_source;
          harness = (case req_harness of Some h \<Rightarrow> h | None \<Rightarrow> cx_harness_id cx);
          ses = (case req_session of Some s \<Rightarrow> s | None \<Rightarrow> cx_session_id cx);
          ver = str_or (or_empty req_version) (cx_envelope_version cx) in
      if \<not> (cx_policy_enforced cx \<or> cx_authenticated cx \<or> ses \<noteq> [] \<or> harness \<noteq> [] \<or> ns \<noteq> []) then None
      else Some \<lparr>se_caller_id = str_or (cx_caller_id cx) ''anonymous'', se_session_id = ses, se_source = src,
                 se_namespace = ns, se_store_id = cx_store_id cx, se_harness_id = harness,
                 se_envelope_version = ver\<rparr>)"

section \<open>The configuration and its revocations\<close>

record policy_config =
  pc_store_id :: string
  pc_require_auth :: bool
  pc_credentials :: "caller_credential list"
  pc_revision :: int
  pc_default_secret_action :: string
  pc_default_private_classification_action :: string

definition config_post_init :: "policy_config \<Rightarrow> policy_config pol" where
  "config_post_init cfg =
     rbind (validate_secret_action (pc_default_secret_action cfg)) (\<lambda>_.
     rbind (validate_classification_action (pc_default_private_classification_action cfg)) (\<lambda>_. Inr cfg))"

text \<open>A pass over a list that updates elements and counts the updates.\<close>

definition count_hits :: "('a \<Rightarrow> bool) \<Rightarrow> 'a list \<Rightarrow> int" where
  "count_hits P xs = int (length (filter P xs))"

definition revoke_matching :: "(share_approval \<Rightarrow> bool) \<Rightarrow> share_approval list \<Rightarrow> share_approval list" where
  "revoke_matching P ss = map (\<lambda>s. if P s \<and> \<not> sa_revoked s then s\<lparr>sa_revoked := True\<rparr> else s) ss"

definition revoke_caller :: "string \<Rightarrow> policy_config \<Rightarrow> policy_config \<times> int" where
  "revoke_caller cid cfg =
     (let hit = (\<lambda>c. cc_caller_id c = cid \<and> \<not> cc_revoked c);
          share_hit = (\<lambda>s. cid \<in> set (sa_audience s) \<and> \<not> sa_revoked s);
          update = (\<lambda>c. (if hit c then c\<lparr>cc_revoked := True\<rparr> else c)
                        \<lparr>cc_share_approvals := revoke_matching (\<lambda>s. cid \<in> set (sa_audience s)) (cc_share_approvals c)\<rparr>) in
      (cfg\<lparr>pc_credentials := map update (pc_credentials cfg), pc_revision := pc_revision cfg + 1\<rparr>,
       sum_list (map (\<lambda>c. (if hit c then 1 else 0) + count_hits share_hit (cc_share_approvals c)) (pc_credentials cfg))))"

definition revoke_share_approval :: "string \<Rightarrow> policy_config \<Rightarrow> policy_config \<times> int" where
  "revoke_share_approval aid cfg =
     (let update = (\<lambda>c. c\<lparr>cc_share_approvals := revoke_matching (\<lambda>s. sa_approval_id s = aid) (cc_share_approvals c)\<rparr>) in
      (cfg\<lparr>pc_credentials := map update (pc_credentials cfg), pc_revision := pc_revision cfg + 1\<rparr>,
       sum_list (map (\<lambda>c. count_hits (\<lambda>s. sa_approval_id s = aid \<and> \<not> sa_revoked s) (cc_share_approvals c))
         (pc_credentials cfg))))"

definition config_to_dict :: "policy_config \<Rightarrow> dict" where
  "config_to_dict cfg =
     [(''store_id'', JStr (pc_store_id cfg)), (''require_auth'', JBool (pc_require_auth cfg)),
      (''revision'', JInt (pc_revision cfg)),
      (''default_secret_action'', JStr (pc_default_secret_action cfg)),
      (''default_private_classification_action'', JStr (pc_default_private_classification_action cfg)),
      (''credentials'', JList (map (\<lambda>c. JObj (credential_to_dict c)) (pc_credentials cfg)))]"

definition credential_list :: "dict \<Rightarrow> caller_credential list pol" where
  "credential_list d = (case dget_default d ''credentials'' (JList []) of
     JList xs \<Rightarrow> traverse (\<lambda>c. credential_from_dict c JNull JNull) xs
   | JStr s \<Rightarrow> (if s = [] then Inr [] else Inl (Raised AttributeError))
   | JObj e \<Rightarrow> (if e = [] then Inr [] else Inl (Raised AttributeError))
   | _ \<Rightarrow> Inl (Raised TypeError))"

definition config_from_dict :: "json \<Rightarrow> policy_config pol" where
  "config_from_dict v = (case v of JObj d \<Rightarrow>
     rbind (lift_py (py_int (dget_default d ''revision'' (JInt 1)))) (\<lambda>rev.
     rbind (credential_list d) (\<lambda>cs.
     config_post_init \<lparr>pc_store_id = py_str (dget_default d ''store_id'' (JStr [])),
       pc_require_auth = truthy (dget_default d ''require_auth'' (JBool False)), pc_credentials = cs,
       pc_revision = rev,
       pc_default_secret_action =
         (case optional_str (dget d ''default_secret_action'') of None \<Rightarrow> ''redact'' | Some a \<Rightarrow> a),
       pc_default_private_classification_action =
         (case optional_str (dget d ''default_private_classification_action'') of None \<Rightarrow> ''omit'' | Some a \<Rightarrow> a)\<rparr>))
   | _ \<Rightarrow> Inl (Raised AttributeError))"

section \<open>Facts\<close>

lemma share_allows_namespace_iff:
  "share_allows_namespace s ns caller op \<longleftrightarrow>
     \<not> sa_revoked s \<and> (sa_audience s = [] \<or> caller \<in> set (sa_audience s)) \<and> op \<in> set (sa_operations s)
     \<and> sa_namespace s = ns"
  by (auto simp: share_allows_namespace_def)

lemma share_allows_row_iff:
  "share_allows_row s row caller op \<longleftrightarrow>
     share_allows_namespace s (str_or_empty row ''namespace'') caller op \<and>
     (sa_memory_ids s = [] \<or> str_or_empty row ''id'' \<in> set (sa_memory_ids s)) \<and>
     (sa_identifiers s = [] \<or> str_or_empty row ''identifier'' \<in> set (sa_identifiers s))"
  by (auto simp: share_allows_row_def share_allows_namespace_def)

lemma can_access_row_namespace: "can_access_row cx row op \<Longrightarrow> can_access_namespace cx (str_or_empty row ''namespace'') op"
  by (auto simp: can_access_row_def can_access_namespace_def share_allows_row_iff list_ex_iff
      split: option.splits if_splits)

definition share_covers :: "caller_context \<Rightarrow> dict \<Rightarrow> string \<Rightarrow> share_approval \<Rightarrow> bool" where
  "share_covers cx row op s =
     (\<not> sa_revoked s \<and> (sa_audience s = [] \<or> cx_caller_id cx \<in> set (sa_audience s)) \<and>
      op \<in> set (sa_operations s) \<and> sa_namespace s = str_or_empty row ''namespace'' \<and>
      (sa_memory_ids s = [] \<or> str_or_empty row ''id'' \<in> set (sa_memory_ids s)) \<and>
      (sa_identifiers s = [] \<or> str_or_empty row ''identifier'' \<in> set (sa_identifiers s)))"

definition in_scope :: "caller_context \<Rightarrow> caller_credential \<Rightarrow> dict \<Rightarrow> string \<Rightarrow> bool" where
  "in_scope cx c row op =
     ((cx_namespace cx = None \<or> cx_namespace cx = Some (str_or_empty row ''namespace'')) \<and>
      (direct_namespace c (str_or_empty row ''namespace'') op \<or>
       (\<exists>s \<in> set (cc_share_approvals c). share_covers cx row op s)))"

lemma can_access_row_iff: "scoped cx = Some c \<Longrightarrow> can_access_row cx row op \<longleftrightarrow> in_scope cx c row op"
  by (cases "cx_namespace cx") (auto simp: can_access_row_def in_scope_def share_covers_def
      share_allows_row_iff share_allows_namespace_iff list_ex_iff)

text \<open>The rows a scoped caller sees are exactly those in its scope, in their order: the header's
namespace when one is given, and either the operation granted on the row's namespace by the
credential itself or an approval that is not revoked, names the caller (or nobody), grants the
operation and selects the row. Without a credential only the header's namespace filters.\<close>

theorem filter_rows_scope:
  "filter_rows cx rows op = (case scoped cx of
      Some c \<Rightarrow> filter (\<lambda>r. in_scope cx c r op) rows
    | None \<Rightarrow> filter (\<lambda>r. cx_namespace cx = None \<or> cx_namespace cx = Some (str_or_empty r ''namespace'')) rows)"
  by (auto simp: filter_rows_def can_access_row_iff split: option.splits intro!: filter_cong)

text \<open>C15. A scoped write never targets the read wildcard, lies in the header's namespace when one
is given, and is covered by the credential's own write grant or by an approval for writing that is
not revoked; so it is also allowed by the operation check of the same context.\<close>

theorem write_namespace_sound:
  assumes "scoped cx = Some c" "effective_write_namespace cx = Inr ns"
  shows "ns \<noteq> ''*'' \<and> (\<forall>m. cx_namespace cx = Some m \<longrightarrow> ns = m) \<and>
    (direct_namespace c ns ''write'' \<or>
      (\<exists>s \<in> set (cc_share_approvals c). share_allows_namespace s ns (cx_caller_id cx) ''write'')) \<and>
    require_operation cx ''write'' = Inr ()"
proof -
  have t: "ns \<noteq> ''*''" "can_access_namespace cx ns ''write''" "\<forall>m. cx_namespace cx = Some m \<longrightarrow> ns = m"
    using assms by (auto simp: effective_write_namespace_def Let_def split: if_splits option.splits list.splits)
  then have g: "direct_namespace c ns ''write'' \<or>
      (\<exists>s \<in> set (cc_share_approvals c). share_allows_namespace s ns (cx_caller_id cx) ''write'')"
    using assms(1) by (auto simp: can_access_namespace_def list_ex_iff split: if_splits)
  then have "''write'' \<in> set (cc_operations c) \<or>
      list_ex (\<lambda>s. \<not> sa_revoked s \<and> ''write'' \<in> set (sa_operations s)) (cc_share_approvals c)"
    by (auto simp: direct_namespace_def share_allows_namespace_iff list_ex_iff)
  with t g assms(1) show ?thesis by (auto simp: require_operation_def)
qed

lemma count_hits_zero: "count_hits P xs = 0 \<longleftrightarrow> (\<forall>x \<in> set xs. \<not> P x)"
  by (auto simp: count_hits_def filter_empty_conv)

lemma sum_list_zero: "(\<And>x. x \<in> set xs \<Longrightarrow> f x = (0::int)) \<Longrightarrow> sum_list (map f xs) = 0"
  by (induction xs) auto

lemma revoke_matching_revoked:
  "s \<in> set (revoke_matching P ss) \<Longrightarrow> P (s\<lparr>sa_revoked := False\<rparr>) \<Longrightarrow> (\<And>t b. P (t\<lparr>sa_revoked := b\<rparr>) = P t) \<Longrightarrow> sa_revoked s"
  by (auto simp: revoke_matching_def split: if_splits)

text \<open>What one revocation does to a credential: nothing is dropped, added or otherwise edited.\<close>

definition revokes_share :: "(share_approval \<Rightarrow> bool) \<Rightarrow> share_approval \<Rightarrow> share_approval \<Rightarrow> bool" where
  "revokes_share P s s' = (s' = s\<lparr>sa_revoked := sa_revoked s \<or> P s\<rparr>)"

definition revokes_credential :: "string \<Rightarrow> caller_credential \<Rightarrow> caller_credential \<Rightarrow> bool" where
  "revokes_credential cid c c' =
     (list_all2 (revokes_share (\<lambda>s. cid \<in> set (sa_audience s))) (cc_share_approvals c) (cc_share_approvals c') \<and>
      c' = c\<lparr>cc_revoked := cc_revoked c \<or> cc_caller_id c = cid, cc_share_approvals := cc_share_approvals c'\<rparr>)"

lemma revoke_matching_revokes: "list_all2 (revokes_share P) ss (revoke_matching P ss)"
  by (auto simp: revoke_matching_def revokes_share_def list.rel_map intro!: list.rel_refl_strong)

lemma revoke_caller_credentials:
  "list_all2 (revokes_credential cid) (pc_credentials cfg) (pc_credentials (fst (revoke_caller cid cfg)))"
  by (auto simp: revoke_caller_def Let_def list.rel_map revokes_credential_def revoke_matching_revokes
      intro!: list.rel_refl_strong)

lemma revoke_caller_revoked:
  assumes "c' \<in> set (pc_credentials (fst (revoke_caller cid cfg)))"
  shows "cc_caller_id c' = cid \<Longrightarrow> cc_revoked c'"
    and "s \<in> set (cc_share_approvals c') \<Longrightarrow> cid \<in> set (sa_audience s) \<Longrightarrow> sa_revoked s"
proof -
  obtain c where c: "revokes_credential cid c c'"
    using list_all2_set2 [OF revoke_caller_credentials assms] by blast
  have r: "c' = c\<lparr>cc_revoked := cc_revoked c \<or> cc_caller_id c = cid, cc_share_approvals := cc_share_approvals c'\<rparr>"
    using c by (simp add: revokes_credential_def)
  have "cc_revoked c' = (cc_revoked c \<or> cc_caller_id c = cid)" "cc_caller_id c' = cc_caller_id c"
    using arg_cong [OF r, of cc_revoked] arg_cong [OF r, of cc_caller_id] by simp_all
  then show "cc_revoked c'" if "cc_caller_id c' = cid" using that by simp
  show "sa_revoked s" if s: "s \<in> set (cc_share_approvals c')" and cid: "cid \<in> set (sa_audience s)"
  proof -
    have "list_all2 (revokes_share (\<lambda>s. cid \<in> set (sa_audience s))) (cc_share_approvals c) (cc_share_approvals c')"
      using c by (simp add: revokes_credential_def)
    then obtain t where "revokes_share (\<lambda>s. cid \<in> set (sa_audience s)) t s"
      using s by (blast dest: list_all2_set2)
    then show ?thesis using cid by (auto simp: revokes_share_def)
  qed
qed

text \<open>Revoking a caller marks as revoked exactly the credentials of that caller and the approvals
whose audience names it, keeps everything else of every credential, raises the revision by one,
and is idempotent: a second revocation finds nothing left to revoke.\<close>

theorem revoke_caller_exact:
  "list_all2 (revokes_credential cid) (pc_credentials cfg) (pc_credentials (fst (revoke_caller cid cfg))) \<and>
   pc_revision (fst (revoke_caller cid cfg)) = pc_revision cfg + 1 \<and>
   snd (revoke_caller cid (fst (revoke_caller cid cfg))) = 0 \<and>
   pc_credentials (fst (revoke_caller cid (fst (revoke_caller cid cfg)))) = pc_credentials (fst (revoke_caller cid cfg))"
proof -
  note revoke_caller_credentials [of cid cfg]
  moreover have "snd (revoke_caller cid (fst (revoke_caller cid cfg))) = 0"
    by (auto simp: revoke_caller_def Let_def count_hits_zero revoke_matching_def intro!: sum_list_zero)
  moreover have "pc_credentials (fst (revoke_caller cid (fst (revoke_caller cid cfg)))) =
      pc_credentials (fst (revoke_caller cid cfg))"
    by (auto simp: revoke_caller_def Let_def revoke_matching_def)
  ultimately show ?thesis by (simp add: revoke_caller_def Let_def)
qed

definition valid_config :: "policy_config \<Rightarrow> bool" where
  "valid_config cfg = (config_post_init cfg = Inr cfg \<and> list_all valid_credential (pc_credentials cfg))"

lemma config_post_init_Inr: "config_post_init cfg = Inr cfg' \<Longrightarrow> cfg' = cfg"
  by (auto simp: config_post_init_def rbind_eq_Inr)

lemma credential_list_roundtrip:
  "list_all valid_credential cs \<Longrightarrow>
     traverse (\<lambda>c. credential_from_dict c JNull JNull) (map (\<lambda>c. JObj (credential_to_dict c)) cs) = Inr cs"
  by (induction cs) (simp_all add: credential_roundtrip)

lemma traverse_credential_valid:
  "traverse (\<lambda>c. credential_from_dict c JNull JNull) xs = Inr cs \<Longrightarrow> list_all valid_credential cs"
  by (induction xs arbitrary: cs) (auto simp: rbind_eq_Inr dest: credential_from_dict_valid)

lemma config_roundtrip: "valid_config cfg \<Longrightarrow> config_from_dict (JObj (config_to_dict cfg)) = Inr cfg"
  by (cases cfg) (simp add: config_from_dict_def config_to_dict_def credential_list_def dget_default_def dget_def
      py_int_def py_str_def optional_str_def valid_config_def credential_list_roundtrip)

lemma config_from_dict_parts:
  assumes "config_from_dict v = Inr cfg"
  shows "\<exists>d. credential_list d = Inr (pc_credentials cfg) \<and> config_post_init cfg = Inr cfg"
proof (cases v)
  case (JObj d)
  then obtain rev cs c0 where "credential_list d = Inr cs" "config_post_init c0 = Inr cfg"
    and c0: "pc_credentials c0 = cs"
    using assms by (simp add: config_from_dict_def rbind_eq_Inr) (metis policy_config.select_convs(3))
  moreover from this(2) have "cfg = c0" by (rule config_post_init_Inr)
  ultimately show ?thesis by auto
qed (use assms in \<open>auto simp: config_from_dict_def\<close>)

text \<open>A policy that loads survives being saved: the dictionary written for a configuration that
was read from any JSON value reads back as the same configuration.\<close>

theorem policy_config_roundtrip:
  assumes "config_from_dict v = Inr cfg"
  shows "config_from_dict (JObj (config_to_dict cfg)) = Inr cfg"
proof (rule config_roundtrip)
  obtain d where "credential_list d = Inr (pc_credentials cfg)" and p: "config_post_init cfg = Inr cfg"
    using config_from_dict_parts [OF assms] by blast
  then have "list_all valid_credential (pc_credentials cfg)"
    by (auto simp: credential_list_def dest: traverse_credential_valid split: json.splits if_splits)
  moreover note p
  ultimately show "valid_config cfg" by (simp add: valid_config_def)
qed

end
