(* ===== verification/Disclosure.thy ===== *)
theory Disclosure
  imports PolicyAccess Redact JsonText
begin

text \<open>
  \<open>policy.py\<close>, part four: the outbound disclosure policy. A row is a dictionary; its text
  fields, metadata, provenance and tags are scanned with the disclosure patterns, and the row is
  allowed, redacted, omitted or refused. The report collects counts, reasons and pattern names.
\<close>

section \<open>Scanning\<close>

definition ssn_rx :: rx where
  "ssn_rx = seqs [WordB, between 3 3 is_digit, Lit ''-'', between 2 2 is_digit, Lit ''-'', between 4 4 is_digit, WordB]"

definition email_rx :: rx where
  "email_rx = seqs [WordB, many 1 (\<lambda>c. alnum c \<or> one_char ''._%+-'' c), Lit ''@'',
     many 1 (\<lambda>c. alnum c \<or> one_char ''.-'' c), Lit ''.'', many 2 is_alpha, WordB]"

definition EXTRA_DISCLOSURE_PATTERNS :: "pattern list" where
  "EXTRA_DISCLOSURE_PATTERNS = [
     \<lparr>kind = ''prefixed_credential'', regex = prefixed_rx,
      reason = ''credential pattern: vendor-prefixed credential''\<rparr>,
     \<lparr>kind = ''dsn_inline_password'', regex = dsn_rx, reason = ''credential pattern: inline DSN password''\<rparr>,
     \<lparr>kind = ''pii_ssn'', regex = ssn_rx, reason = ''pii pattern: US SSN''\<rparr>,
     \<lparr>kind = ''pii_email'', regex = email_rx, reason = ''pii pattern: email address''\<rparr>]"

definition DISCLOSURE_PATTERNS :: "pattern list" where
  "DISCLOSURE_PATTERNS =
     filter (\<lambda>p. kind p \<notin> {''prefixed_credential'', ''dsn_inline_password''}) PATTERNS @ EXTRA_DISCLOSURE_PATTERNS"

type_synonym counts = "(string \<times> nat) list"

definition count_kinds :: "hit list \<Rightarrow> counts" where
  "count_kinds hits =
     fold (\<lambda>h d. AList.update (fst h) (Suc (case map_of d (fst h) of None \<Rightarrow> 0 | Some n \<Rightarrow> n)) d) hits []"

definition scan_and_redact_text :: "string \<Rightarrow> string \<times> counts" where
  "scan_and_redact_text s =
     (if s = [] then (s, [])
      else let (red, hits) = redact_text DISCLOSURE_PATTERNS s in
        if hits = [] then (s, []) else (red, count_kinds hits))"

definition detect_disclosure_patterns :: "string \<Rightarrow> string list" where
  "detect_disclosure_patterns s =
     (if s = [] then [] else sort (remdups (scan DISCLOSURE_PATTERNS s)))"

fun redact_metadata_obj :: "json \<Rightarrow> json \<times> counts" where
  "redact_metadata_obj (JStr s) = (let (r, h) = scan_and_redact_text s in (JStr r, h))"
| "redact_metadata_obj (JList xs) =
     (let rs = map redact_metadata_obj xs in (JList (map fst rs), concat (map snd rs)))"
| "redact_metadata_obj (JObj d) =
     (let rs = map (\<lambda>(k, v). (k, redact_metadata_obj v)) d in
      (JObj (map (\<lambda>(k, r). (k, fst r)) rs), concat (map (\<lambda>(k, r). snd r) rs)))"
| "redact_metadata_obj v = (v, [])"

definition redact_structure :: "json \<Rightarrow> json \<times> counts" where
  "redact_structure v = redact_metadata_obj v"

section \<open>The report\<close>

record disclosure_report =
  dr_redacted_count :: nat
  dr_redacted_records :: nat
  dr_omitted_count :: nat
  dr_reasons :: "string set"
  dr_patterns :: "string set"

definition empty_report :: disclosure_report where
  "empty_report = \<lparr>dr_redacted_count = 0, dr_redacted_records = 0, dr_omitted_count = 0,
     dr_reasons = {}, dr_patterns = {}\<rparr>"

definition record_redaction :: "string \<Rightarrow> nat \<Rightarrow> disclosure_report \<Rightarrow> disclosure_report" where
  "record_redaction pat n r =
     r\<lparr>dr_redacted_count := dr_redacted_count r + n, dr_patterns := insert pat (dr_patterns r)\<rparr>"

definition record_omission :: "string \<Rightarrow> string list \<Rightarrow> disclosure_report \<Rightarrow> disclosure_report" where
  "record_omission why pats r =
     r\<lparr>dr_omitted_count := dr_omitted_count r + 1, dr_reasons := insert why (dr_reasons r),
       dr_patterns := dr_patterns r \<union> set pats\<rparr>"

definition report_to_dict :: "disclosure_report \<Rightarrow> dict" where
  "report_to_dict r =
     [(''redacted_count'', JInt (int (dr_redacted_count r))),
      (''redacted_records'', JInt (int (dr_redacted_records r))),
      (''omitted_count'', JInt (int (dr_omitted_count r))),
      (''reasons'', str_list (sorted_list_of_set (dr_reasons r))),
      (''patterns'', str_list (sorted_list_of_set (dr_patterns r)))]"

section \<open>Classification\<close>

definition norm_str :: "json \<Rightarrow> string" where
  "norm_str v = lower (strip (py_str v))"

definition tag_key :: "string \<Rightarrow> string" where
  "tag_key t = strip (takeWhile (\<lambda>c. c \<noteq> CHR '':'') t)"

definition tag_value :: "string \<Rightarrow> string" where
  "tag_value t = strip (drop 1 (dropWhile (\<lambda>c. c \<noteq> CHR '':'') t))"

definition private_tag :: "json \<Rightarrow> bool" where
  "private_tag tag =
     (let t = norm_str tag in
      t \<in> set PRIVATE_CLASSIFICATIONS \<or>
      CHR '':'' \<in> set t \<and>
        tag_key t \<in> {''classification'', ''visibility'', ''sensitivity'', ''access'', ''scope''} \<and>
        tag_value t \<in> set PRIVATE_CLASSIFICATIONS)"

definition is_private_classified :: "dict \<Rightarrow> json list \<Rightarrow> bool" where
  "is_private_classified meta tags =
     (norm_str (get_or meta ''classification'' (JStr [])) \<in> set PRIVATE_CLASSIFICATIONS
      \<or> norm_str (get_or meta ''visibility'' (JStr [])) \<in> set PRIVATE_CLASSIFICATIONS
      \<or> dget meta ''private'' = JBool True
      \<or> list_ex private_tag tags)"

section \<open>The action for a row\<close>

definition or3 :: "string option \<Rightarrow> string option \<Rightarrow> string \<Rightarrow> string" where
  "or3 a b c = str_or (or_empty a) (str_or (or_empty b) c)"

definition effective_disclosure_actions :: "caller_context \<Rightarrow> dict \<Rightarrow> string \<Rightarrow> string \<times> string" where
  "effective_disclosure_actions cx row op = (case scoped cx of
     None \<Rightarrow> (''allow'', ''allow'')
   | Some c \<Rightarrow>
       (let is_direct = direct_namespace c (str_or_empty row ''namespace'') op;
            matched = find (\<lambda>s. share_allows_row s row (cx_caller_id cx) op) (cc_share_approvals c) in
        case matched of
          Some s \<Rightarrow>
            (if \<not> is_direct then
               (or3 (sa_secret_action s) (cc_secret_action c) (cx_default_secret_action cx),
                or3 (sa_private_classification_action s) (cc_private_classification_action c)
                  (cx_default_private_classification_action cx))
             else
               (or3 (sa_secret_action s) (cc_secret_action c) ''allow'',
                or3 (sa_private_classification_action s) (cc_private_classification_action c) ''allow''))
        | None \<Rightarrow>
            (or3 None (cc_secret_action c) ''allow'', or3 None (cc_private_classification_action c) ''allow'')))"

section \<open>One row\<close>

definition parsed_string :: "json \<Rightarrow> json option" where
  "parsed_string v = (case v of JStr s \<Rightarrow> (if s = [] then None else loads s) | _ \<Rightarrow> None)"

definition row_metadata :: "dict \<Rightarrow> dict" where
  "row_metadata row = (case dget row ''metadata'' of
     JObj d \<Rightarrow> d
   | _ \<Rightarrow> (case parsed_string (dget row ''metadata_json'') of Some (JObj d) \<Rightarrow> d | _ \<Rightarrow> []))"

definition row_tags :: "dict \<Rightarrow> json list" where
  "row_tags row = (case dget row ''tags'' of
     JList xs \<Rightarrow> xs
   | v \<Rightarrow> (case parsed_string v of Some (JList xs) \<Rightarrow> xs | _ \<Rightarrow> []))"

type_synonym scan_state = "dict \<times> (string \<times> string \<times> nat) list"

definition tag_hits :: "string \<Rightarrow> counts \<Rightarrow> (string \<times> string \<times> nat) list" where
  "tag_hits field hits = map (\<lambda>(pat, n). (field, pat, n)) hits"

definition redact_text_field :: "string \<Rightarrow> scan_state \<Rightarrow> scan_state" where
  "redact_text_field field st = (case dget (fst st) field of
     JStr v \<Rightarrow>
       (let (red, hits) = scan_and_redact_text v in
        if v \<noteq> [] \<and> hits \<noteq> [] then (AList.update field (JStr red) (fst st), snd st @ tag_hits field hits) else st)
   | _ \<Rightarrow> st)"

definition TEXT_FIELDS :: "string list" where
  "TEXT_FIELDS = [''fact_text'', ''fact_summary'', ''content'', ''identifier'', ''source_uri'']"

definition redact_row_metadata :: "dict \<Rightarrow> scan_state \<Rightarrow> scan_state" where
  "redact_row_metadata meta st =
     (let (red, hits) = redact_metadata_obj (JObj meta) in
      if meta = [] \<or> hits = [] then st
      else let out = fst st;
               out = (if is_dict (dget out ''metadata'') then AList.update ''metadata'' red out else out);
               out = (if has_key out ''metadata_json'' then AList.update ''metadata_json'' (JStr (dumps_plain red)) out
                      else out) in
        (out, snd st @ tag_hits ''metadata'' hits))"

definition row_provenance :: "dict \<Rightarrow> json" where
  "row_provenance out =
     (if dget out ''provenance'' \<noteq> JNull then dget out ''provenance''
      else case dget out ''provenance_json'' of
          JStr s \<Rightarrow> (case loads s of Some (JObj d) \<Rightarrow> JObj d | Some (JList xs) \<Rightarrow> JList xs | _ \<Rightarrow> JNull)
        | _ \<Rightarrow> JNull)"

definition redact_row_provenance :: "scan_state \<Rightarrow> scan_state" where
  "redact_row_provenance st =
     (let out = fst st; prov = row_provenance out; (red, hits) = redact_metadata_obj prov in
      if prov = JNull \<or> hits = [] then st
      else let out = (if has_key out ''provenance'' then AList.update ''provenance'' red out else out);
               out = (if has_key out ''provenance_json'' then AList.update ''provenance_json'' (JStr (dumps_plain red)) out
                      else out) in
        (out, snd st @ tag_hits ''provenance'' hits))"

definition redact_row_tags :: "scan_state \<Rightarrow> scan_state" where
  "redact_row_tags st =
     (let raw = dget (fst st) ''tags'';
          obj = (case raw of JStr s \<Rightarrow> (if s = [] then raw else case loads s of Some v \<Rightarrow> v | None \<Rightarrow> JNull) | _ \<Rightarrow> raw) in
      if \<not> (is_list obj \<or> is_dict obj) then st
      else let (red, hits) = redact_metadata_obj obj in
        if hits = [] then st
        else (AList.update ''tags'' (if is_str raw then JStr (dumps_plain red) else red) (fst st),
              snd st @ tag_hits ''tags'' hits))"

definition scan_row :: "dict \<Rightarrow> scan_state" where
  "scan_row row =
     redact_row_tags (redact_row_provenance (redact_row_metadata (row_metadata row)
       (fold redact_text_field TEXT_FIELDS (row, []))))"

definition blocked :: "dict \<Rightarrow> policy_exn" where
  "blocked detail = PolicyError 403 ''policy_disclosure_blocked'' detail"

definition row_id :: "dict \<Rightarrow> string" where
  "row_id row = py_str (por (dget row ''id'') (por (dget row ''memory_id'') (JStr [])))"

definition apply_secret_action ::
  "string \<Rightarrow> dict \<Rightarrow> disclosure_report option \<Rightarrow> (dict option \<times> disclosure_report option) pol" where
  "apply_secret_action action row report =
     (if action = ''allow'' then Inr (Some row, report)
      else let (out, hits) = scan_row row; pats = sort (remdups (map (\<lambda>(f, pat, n). pat) hits)) in
        if hits = [] then Inr (Some out, report)
        else if action = ''fail_closed'' then
          Inl (blocked [(''reason'', JStr ''secret_detected''), (''patterns'', str_list pats),
                        (''memory_id'', JStr (row_id row))])
        else if action = ''omit'' then
          Inr (None, map_option (record_omission ''policy_secret_omitted'' pats) report)
        else
          Inr (Some out, map_option (\<lambda>r. fold (\<lambda>(f, pat, n). record_redaction pat n) hits
                 (r\<lparr>dr_redacted_records := dr_redacted_records r + 1\<rparr>)) report))"

definition apply_disclosure_to_row ::
  "caller_context \<Rightarrow> dict \<Rightarrow> string \<Rightarrow> disclosure_report option \<Rightarrow> (dict option \<times> disclosure_report option) pol" where
  "apply_disclosure_to_row cx row op report = (case scoped cx of
     None \<Rightarrow> Inr (Some row, report)
   | Some c \<Rightarrow>
       (let (secret, cls) = effective_disclosure_actions cx row op;
            private = is_private_classified (row_metadata row) (row_tags row) in
        if private \<and> cls = ''fail_closed'' then
          Inl (blocked [(''reason'', JStr ''private_classification''), (''memory_id'', JStr (row_id row))])
        else if private \<and> cls = ''omit'' then
          Inr (None, map_option (record_omission ''policy_classification'' []) report)
        else apply_secret_action secret row report))"

section \<open>Facts\<close>

lemma count_fold_nonempty:
  "d \<noteq> [] \<Longrightarrow> fold (\<lambda>h d. AList.update (fst h)
     (Suc (case map_of d (fst h) of None \<Rightarrow> 0 | Some n \<Rightarrow> n)) d) hits (d :: counts) \<noteq> []"
proof (induction hits arbitrary: d)
  case (Cons h hits)
  then show ?case by (simp add: update_nonempty)
qed simp

lemma count_kinds_eq_Nil: "count_kinds hits = [] \<longleftrightarrow> hits = []"
  by (cases hits) (simp_all add: count_kinds_def count_fold_nonempty)

lemma scan_and_redact_text_fst: "fst (scan_and_redact_text v) = fst (redact_text DISCLOSURE_PATTERNS v)"
  by (auto simp: scan_and_redact_text_def case_prod_beta Let_def redact_text_no_hits)

lemma scan_and_redact_text_clean:
  "snd (scan_and_redact_text v) = [] \<longleftrightarrow> scan DISCLOSURE_PATTERNS v = []"
  by (auto simp: scan_and_redact_text_def case_prod_beta Let_def count_kinds_eq_Nil
      redact_text_clean_iff [symmetric])

text \<open>A scanning step only appends hits, and changes the row only when it reports one.\<close>

definition honest :: "(scan_state \<Rightarrow> scan_state) \<Rightarrow> bool" where
  "honest f = (\<forall>st. \<exists>hs. snd (f st) = snd st @ hs \<and> (hs = [] \<longrightarrow> f st = st))"

lemma honest_id: "honest (\<lambda>st. st)"
  by (simp add: honest_def)

lemma honest_comp: "honest f \<Longrightarrow> honest g \<Longrightarrow> honest (\<lambda>st. g (f st))"
proof (unfold honest_def, intro allI)
  fix st
  assume f: "\<forall>st. \<exists>hs. snd (f st) = snd st @ hs \<and> (hs = [] \<longrightarrow> f st = st)"
    and g: "\<forall>st. \<exists>hs. snd (g st) = snd st @ hs \<and> (hs = [] \<longrightarrow> g st = st)"
  obtain h1 where 1: "snd (f st) = snd st @ h1" "h1 = [] \<longrightarrow> f st = st" using f by blast
  obtain h2 where 2: "snd (g (f st)) = snd (f st) @ h2" "h2 = [] \<longrightarrow> g (f st) = f st" using g by blast
  show "\<exists>hs. snd (g (f st)) = snd st @ hs \<and> (hs = [] \<longrightarrow> g (f st) = st)"
    by (rule exI [of _ "h1 @ h2"]) (use 1 2 in auto)
qed

lemma honest_fold: "(\<And>x. x \<in> set xs \<Longrightarrow> honest (f x)) \<Longrightarrow> honest (fold f xs)"
proof (induction xs)
  case (Cons x xs)
  have "honest (\<lambda>st. fold f xs (f x st))"
    by (rule honest_comp) (use Cons in auto)
  then show ?case by (simp add: comp_def)
qed (simp add: honest_def)

lemma tag_hits_Nil [simp]: "tag_hits f hs = [] \<longleftrightarrow> hs = []"
  by (simp add: tag_hits_def)

lemma honest_steps:
  "honest (redact_text_field f)" "honest (redact_row_metadata meta)"
  "honest redact_row_provenance" "honest redact_row_tags"
  subgoal by (simp add: honest_def redact_text_field_def Let_def case_prod_beta split: json.splits)
  subgoal by (simp add: honest_def redact_row_metadata_def Let_def case_prod_beta del: redact_metadata_obj.simps)
  subgoal by (simp add: honest_def redact_row_provenance_def Let_def case_prod_beta)
  subgoal by (simp add: honest_def redact_row_tags_def Let_def case_prod_beta)
  done

lemma honest_scan: "honest (\<lambda>st. redact_row_tags (redact_row_provenance (redact_row_metadata meta
    (fold redact_text_field fs st))))"
  by (rule honest_comp [OF honest_comp [OF honest_comp [OF honest_fold [OF honest_steps(1)]
        honest_steps(2)] honest_steps(3)] honest_steps(4)])

lemma scan_row_clean: "snd (scan_row row) = [] \<Longrightarrow> fst (scan_row row) = row"
proof -
  assume a: "snd (scan_row row) = []"
  obtain hs where "snd (scan_row row) = [] @ hs" "hs = [] \<longrightarrow> scan_row row = (row, [])"
    using honest_scan [of "row_metadata row" TEXT_FIELDS, unfolded honest_def, rule_format, of "(row, [])"]
    unfolding scan_row_def by auto
  with a show ?thesis by simp
qed

lemma text_field_result:
  "map_of (fst (redact_text_field f st)) g =
     (if g = f then (case map_of (fst st) f of
         Some (JStr v) \<Rightarrow> Some (JStr (fst (redact_text DISCLOSURE_PATTERNS v))) | x \<Rightarrow> x)
      else map_of (fst st) g)"
proof (cases "map_of (fst st) f")
  case None
  then show ?thesis by (simp add: redact_text_field_def dget_def)
next
  case (Some x)
  show ?thesis
  proof (cases x)
    case (JStr v)
    have "fst (redact_text DISCLOSURE_PATTERNS v) = v" if "snd (scan_and_redact_text v) = []"
      using that by (simp add: scan_and_redact_text_clean redact_text_no_hits redact_text_clean_iff)
    then show ?thesis using Some JStr
      by (auto simp: redact_text_field_def dget_def case_prod_beta Let_def scan_and_redact_text_fst)
  qed (use Some in \<open>auto simp: redact_text_field_def dget_def\<close>)
qed

lemma text_fold_result:
  "distinct fs \<Longrightarrow> map_of (fst (fold redact_text_field fs st)) g =
     (if g \<in> set fs then (case map_of (fst st) g of
         Some (JStr v) \<Rightarrow> Some (JStr (fst (redact_text DISCLOSURE_PATTERNS v))) | x \<Rightarrow> x)
      else map_of (fst st) g)"
  by (induction fs arbitrary: st) (auto simp: text_field_result)

lemma other_steps_frame:
  "g \<notin> {''metadata'', ''metadata_json''} \<Longrightarrow> map_of (fst (redact_row_metadata meta st)) g = map_of (fst st) g"
  "g \<notin> {''provenance'', ''provenance_json''} \<Longrightarrow> map_of (fst (redact_row_provenance st)) g = map_of (fst st) g"
  "g \<noteq> ''tags'' \<Longrightarrow> map_of (fst (redact_row_tags st)) g = map_of (fst st) g"
  by (auto simp: redact_row_metadata_def redact_row_provenance_def redact_row_tags_def Let_def case_prod_beta)

lemma scan_row_text:
  assumes "f \<in> set TEXT_FIELDS" "map_of row f = Some (JStr v)"
  shows "map_of (fst (scan_row row)) f = Some (JStr (fst (redact_text DISCLOSURE_PATTERNS v)))"
proof -
  have "distinct TEXT_FIELDS" by (simp add: TEXT_FIELDS_def)
  moreover have "f \<notin> {''metadata'', ''metadata_json''}" "f \<notin> {''provenance'', ''provenance_json''}" "f \<noteq> ''tags''"
    using assms(1) by (auto simp: TEXT_FIELDS_def)
  ultimately show ?thesis using assms
    by (simp add: scan_row_def other_steps_frame text_fold_result)
qed

lemma scan_row_text_clean:
  assumes "f \<in> set TEXT_FIELDS" "map_of row f = Some (JStr v)" "snd (scan_row row) = []"
  shows "scan DISCLOSURE_PATTERNS v = []"
proof -
  let ?step = "redact_text_field f"
  obtain pre post where fs: "TEXT_FIELDS = pre @ f # post" using assms(1) by (meson split_list)
  let ?s1 = "fold redact_text_field pre (row, [])"
  let ?g = "\<lambda>st. redact_row_tags (redact_row_provenance (redact_row_metadata (row_metadata row)
    (fold redact_text_field post st)))"
  have g: "honest ?g" by (rule honest_scan)
  have eq: "scan_row row = ?g (?step ?s1)" by (simp add: scan_row_def fs)
  obtain hs where "snd (?g (?step ?s1)) = snd (?step ?s1) @ hs"
    using g [unfolded honest_def, rule_format, of "?step ?s1"] by blast
  then have nil: "snd (?step ?s1) = []" using assms(3) eq by simp
  have "map_of (fst ?s1) f = Some (JStr v)"
  proof -
    have "distinct TEXT_FIELDS" by (simp add: TEXT_FIELDS_def)
    then have "distinct (pre @ f # post)" by (simp only: fs)
    then show ?thesis using assms(2) by (simp add: text_fold_result)
  qed
  then show ?thesis using nil
    by (cases "scan DISCLOSURE_PATTERNS v = []")
      (auto simp: redact_text_field_def dget_def case_prod_beta Let_def scan_and_redact_text_clean [symmetric]
        scan_and_redact_text_def split: if_splits)
qed

section \<open>What the policy guarantees\<close>

text \<open>C4. A row that the policy discloses to a scoped caller is not private unless its
classification action allows it; under any secret action but allow, every text field of the
disclosed row holds the redacted text; and under omit or fail_closed it is disclosed only as it
is, with no pattern matching any of its text fields.\<close>

theorem disclosure_sound:
  assumes "scoped cx = Some c" "effective_disclosure_actions cx row op = (secret, cls)"
    and "apply_disclosure_to_row cx row op rep = Inr (Some out, rep')"
  shows "(is_private_classified (row_metadata row) (row_tags row) \<longrightarrow> cls \<notin> {''fail_closed'', ''omit''}) \<and>
    (\<forall>f \<in> set TEXT_FIELDS. \<forall>v. secret \<noteq> ''allow'' \<longrightarrow> map_of row f = Some (JStr v) \<longrightarrow>
       map_of out f = Some (JStr (fst (redact_text DISCLOSURE_PATTERNS v))) \<and>
       (secret \<in> {''omit'', ''fail_closed''} \<longrightarrow> out = row \<and> scan DISCLOSURE_PATTERNS v = []))"
proof -
  let ?private = "is_private_classified (row_metadata row) (row_tags row)"
  have a: "\<not> (?private \<and> cls = ''fail_closed'')" "\<not> (?private \<and> cls = ''omit'')"
    "apply_secret_action secret row rep = Inr (Some out, rep')"
    using assms by (auto simp: apply_disclosure_to_row_def Let_def split: if_splits)
  have out: "out = fst (scan_row row)" if "secret \<noteq> ''allow''"
    using a(3) that by (auto simp: apply_secret_action_def Let_def case_prod_beta split: if_splits)
  have clean: "snd (scan_row row) = []" if "secret \<in> {''omit'', ''fail_closed''}"
    using a(3) that by (auto simp: apply_secret_action_def Let_def case_prod_beta split: if_splits)
  show ?thesis
    using a(1,2) out clean scan_row_text [of _ row] scan_row_text_clean [of _ row] scan_row_clean [of row]
    by auto
qed

text \<open>Without a credential the policy leaves every row as it is, and a row it withholds is
counted: omitting adds one omission with its reason, and never a redaction.\<close>

theorem disclosure_omission_counted:
  assumes "apply_disclosure_to_row cx row op (Some rep) = Inr (None, rep')"
  shows "scoped cx \<noteq> None \<and>
    (\<exists>why pats. why \<in> {''policy_classification'', ''policy_secret_omitted''} \<and>
       rep' = Some (record_omission why pats rep) \<and>
       (why = ''policy_secret_omitted'' \<longrightarrow> pats \<noteq> []))"
proof (cases "scoped cx")
  case None
  then show ?thesis using assms by (simp add: apply_disclosure_to_row_def)
next
  case (Some c)
  obtain secret cls where e: "effective_disclosure_actions cx row op = (secret, cls)" by fastforce
  show ?thesis
  proof (cases "is_private_classified (row_metadata row) (row_tags row) \<and> cls = ''omit''")
    case True
    then show ?thesis using assms Some e by (auto simp: apply_disclosure_to_row_def Let_def)
  next
    case False
    then have "apply_secret_action secret row (Some rep) = Inr (None, rep')"
      using assms Some e by (auto simp: apply_disclosure_to_row_def Let_def split: if_splits)
    then have "snd (scan_row row) \<noteq> []" "rep' = Some (record_omission ''policy_secret_omitted''
        (sort (remdups (map (\<lambda>(f, pat, n). pat) (snd (scan_row row))))) rep)"
      by (auto simp: apply_secret_action_def Let_def case_prod_beta split: if_splits)
    moreover from this(1) have "sort (remdups (map (\<lambda>(f, pat, n). pat) (snd (scan_row row)))) \<noteq> []"
      by (cases "snd (scan_row row)") (auto simp: set_empty [symmetric] simp del: set_empty)
    ultimately show ?thesis using Some by blast
  qed
qed

section \<open>A shared row with a social security number\<close>

definition reader_share :: share_approval where
  "reader_share = \<lparr>sa_approval_id = ''a1'', sa_namespace = ''n'', sa_identifiers = [], sa_memory_ids = [],
     sa_audience = [''bob''], sa_operations = [''read''], sa_version = 1, sa_revoked = False,
     sa_secret_action = None, sa_private_classification_action = None\<rparr>"

definition reader :: "string option \<Rightarrow> caller_credential" where
  "reader action = \<lparr>cc_token_hash = [], cc_caller_id = ''bob'', cc_store_id = [], cc_namespaces = [],
     cc_operations = [''read''], cc_allowed_sessions = [], cc_allowed_sources = [], cc_allowed_harnesses = [],
     cc_share_approvals = [reader_share], cc_is_management = False, cc_revoked = False,
     cc_secret_action = action, cc_private_classification_action = None, cc_allow_attachments = False,
     cc_redact_host_paths = True\<rparr>"

definition reader_context :: "string option \<Rightarrow> caller_context" where
  "reader_context action = \<lparr>cx_authenticated = True, cx_policy_enforced = True, cx_caller_id = ''bob'',
     cx_store_id = [], cx_session_id = [], cx_harness_id = [], cx_source = [], cx_namespace = None,
     cx_credential = Some (reader action), cx_idempotency_key = None,
     cx_envelope_version = SESSION_ENVELOPE_VERSION, cx_default_secret_action = ''redact'',
     cx_default_private_classification_action = ''omit''\<rparr>"

definition ssn_row :: dict where
  "ssn_row = [(''id'', JStr ''m1''), (''namespace'', JStr ''n''), (''fact_text'', JStr ''no 123-45-6789'')]"

definition ssn_row_redacted :: dict where
  "ssn_row_redacted =
     [(''id'', JStr ''m1''), (''namespace'', JStr ''n''), (''fact_text'', JStr ''no [REDACTED:pii_ssn]'')]"

lemma reader_actions:
  "effective_disclosure_actions (reader_context None) ssn_row ''read'' = (''redact'', ''omit'')"
  "scoped (reader_context None) = Some (reader None)"
  by code_simp+

lemma ssn_row_disclosed:
  "apply_disclosure_to_row (reader_context None) ssn_row ''read'' None = Inr (Some ssn_row_redacted, None)"
  by code_simp

theorem disclosure_sound_witness:
  "apply_disclosure_to_row (reader_context None) ssn_row ''read'' None = Inr (Some ssn_row_redacted, None) \<and>
   fst (redact_text DISCLOSURE_PATTERNS ''no 123-45-6789'') = ''no [REDACTED:pii_ssn]''"
  using disclosure_sound [OF reader_actions(2,1) ssn_row_disclosed] ssn_row_disclosed
  by (auto simp: TEXT_FIELDS_def ssn_row_def ssn_row_redacted_def)

lemma ssn_row_omitted:
  "\<exists>rep'. apply_disclosure_to_row (reader_context (Some ''omit'')) ssn_row ''read'' (Some empty_report) = Inr (None, rep')"
proof -
  have "map_sum (\<lambda>e. e) fst (apply_disclosure_to_row (reader_context (Some ''omit'')) ssn_row ''read''
      (Some empty_report)) = Inr None"
    by code_simp
  then show ?thesis
    by (cases "apply_disclosure_to_row (reader_context (Some ''omit'')) ssn_row ''read'' (Some empty_report)") auto
qed

theorem disclosure_omission_counted_witness:
  "\<exists>rep. apply_disclosure_to_row (reader_context (Some ''omit'')) ssn_row ''read'' (Some empty_report) = Inr (None, Some rep)
     \<and> dr_omitted_count rep = 1"
proof -
  obtain rep' where r: "apply_disclosure_to_row (reader_context (Some ''omit'')) ssn_row ''read'' (Some empty_report)
      = Inr (None, rep')" using ssn_row_omitted by blast
  from disclosure_omission_counted [OF r] obtain why pats where
    "rep' = Some (record_omission why pats empty_report)" by blast
  then show ?thesis using r by (simp add: record_omission_def empty_report_def)
qed

end
