(* ===== verification/PolicyResolve.thy ===== *)
theory PolicyResolve
  imports PolicyAccess
begin

text \<open>
  \<open>policy.py\<close>, part three: authentication and authorisation of a request
  (\<open>resolve_request\<close>, in the order of its checks), and the validation of the source,
  session, harness and version a write claims. Header values are JSON values because the
  validators accept anything; a missing header is \<open>JNull\<close>.
\<close>

definition claimed_of_others :: "(caller_credential \<Rightarrow> string list) \<Rightarrow> policy_config \<Rightarrow> string \<Rightarrow> string set" where
  "claimed_of_others field cfg cid =
     set (concat (map field (filter (\<lambda>c. cc_caller_id c \<noteq> cid) (pc_credentials cfg))))"

definition claimed_sessions_of_others :: "policy_config \<Rightarrow> string \<Rightarrow> string set" where
  "claimed_sessions_of_others cfg cid = claimed_of_others cc_allowed_sessions cfg cid"

definition claimed_sources_of_others :: "policy_config \<Rightarrow> string \<Rightarrow> string set" where
  "claimed_sources_of_others cfg cid = claimed_of_others cc_allowed_sources cfg cid"

definition claimed_harnesses_of_others :: "policy_config \<Rightarrow> string \<Rightarrow> string set" where
  "claimed_harnesses_of_others cfg cid = claimed_of_others cc_allowed_harnesses cfg cid"

definition impersonation :: policy_exn where
  "impersonation = PolicyError 403 ''session_impersonation_denied'' []"

definition context_conflict :: policy_exn where
  "context_conflict = PolicyError 400 ''context_conflict'' []"

text \<open>
  The check every claimed session, source and harness goes through: it is in the credential's
  list when that is given, and in no other caller's list. An empty claim is not checked.
\<close>

definition check_claim :: "string list \<Rightarrow> string set \<Rightarrow> string \<Rightarrow> unit pol" where
  "check_claim allowed others x =
     (if x = [] then Inr ()
      else if allowed \<noteq> [] \<and> x \<notin> set allowed then Inl impersonation
      else if x \<in> others then Inl impersonation
      else Inr ())"

section \<open>Claims of a write\<close>

definition validate_write_source :: "policy_config \<Rightarrow> caller_context \<Rightarrow> json \<Rightarrow> unit pol" where
  "validate_write_source cfg cx source =
     rbind (if source \<noteq> JNull \<and> source \<noteq> JStr [] then validate_context_field source False else Inr []) (\<lambda>src.
     if src = [] then Inr ()
     else if cx_source cx \<noteq> [] \<and> src \<noteq> cx_source cx then
       Inl (if cx_policy_enforced cx then impersonation else context_conflict)
     else case scoped cx of
       None \<Rightarrow> Inr ()
     | Some c \<Rightarrow> check_claim (cc_allowed_sources c) (claimed_sources_of_others cfg (cx_caller_id cx)) src)"

text \<open>A value of the body overrides the header's unless they disagree.\<close>

definition override :: "string \<Rightarrow> json \<Rightarrow> (json \<Rightarrow> string pol) \<Rightarrow> string pol" where
  "override header body validate =
     (if body = JNull then Inr header
      else rbind (validate body) (\<lambda>v. if header \<noteq> [] \<and> v \<noteq> header then Inl context_conflict else Inr v))"

definition check_caller_claim :: "caller_context \<Rightarrow> json \<Rightarrow> unit pol" where
  "check_caller_claim cx claim =
     (if claim = JNull then Inr ()
      else rbind (validate_context_field claim False) (\<lambda>claimed.
        if claimed \<notin> (if cx_policy_enforced cx then {cx_caller_id cx} else {cx_caller_id cx, ''anonymous''})
        then Inl impersonation else Inr ()))"

definition validate_write_session_and_harness ::
  "policy_config \<Rightarrow> caller_context \<Rightarrow> json \<Rightarrow> json \<Rightarrow> json \<Rightarrow> json \<Rightarrow> (string \<times> string \<times> string) pol" where
  "validate_write_session_and_harness cfg cx session harness version claim =
     rbind (check_caller_claim cx claim) (\<lambda>_.
     rbind (override (cx_envelope_version cx) version validate_envelope_version) (\<lambda>ver.
     rbind (override (cx_session_id cx) session (\<lambda>v. validate_context_field v False)) (\<lambda>ses.
     rbind (override (cx_harness_id cx) harness (\<lambda>v. validate_context_field v False)) (\<lambda>har.
     rbind (case scoped cx of
         None \<Rightarrow> Inr ()
       | Some c \<Rightarrow>
           rbind (check_claim (cc_allowed_sessions c) (claimed_sessions_of_others cfg (cx_caller_id cx)) ses) (\<lambda>_.
             check_claim (cc_allowed_harnesses c) (claimed_harnesses_of_others cfg (cx_caller_id cx)) har))
       (\<lambda>_. Inr (ses, har, ver))))))"

section \<open>Requests\<close>

record request =
  rq_runtime_store_id :: string
  rq_token :: "string option"
  rq_requested_store_id :: "string option"
  rq_session_id :: json
  rq_harness_id :: json
  rq_source :: json
  rq_namespace :: json
  rq_actor :: json
  rq_idempotency_key :: "string option"
  rq_envelope_version :: json
  rq_caller_id_claim :: json

record clean_request =
  cl_version :: string
  cl_harness :: string
  cl_source :: string
  cl_session :: string
  cl_namespace :: "string option"
  cl_actor :: "string option"
  cl_caller_claim :: "string option"

definition validate_given :: "json \<Rightarrow> string option pol" where
  "validate_given v =
     (if v \<noteq> JNull \<and> v \<noteq> JStr [] then rbind (validate_context_field v False) (\<lambda>s. Inr (Some s)) else Inr None)"

definition clean_fields :: "request \<Rightarrow> clean_request pol" where
  "clean_fields rq =
     rbind (validate_envelope_version (rq_envelope_version rq)) (\<lambda>ver.
     rbind (validate_given (rq_harness_id rq)) (\<lambda>har.
     rbind (validate_given (rq_source rq)) (\<lambda>src.
     rbind (validate_context_field (rq_session_id rq) True) (\<lambda>ses.
     rbind (validate_context_field (rq_namespace rq) True) (\<lambda>ns.
     rbind (validate_given (rq_actor rq)) (\<lambda>act.
     rbind (if rq_caller_id_claim rq = JNull then Inr None
            else rbind (validate_context_field (rq_caller_id_claim rq) False) (\<lambda>s. Inr (Some s))) (\<lambda>claim.
     Inr \<lparr>cl_version = ver, cl_harness = or_empty har, cl_source = or_empty src, cl_session = ses,
          cl_namespace = (if ns = [] then None else Some ns), cl_actor = act, cl_caller_claim = claim\<rparr>)))))))"

definition active_store :: "policy_config \<Rightarrow> request \<Rightarrow> string" where
  "active_store cfg rq = str_or (pc_store_id cfg) (rq_runtime_store_id rq)"

definition check_requested_store :: "policy_config \<Rightarrow> request \<Rightarrow> unit pol" where
  "check_requested_store cfg rq =
     (let req = or_empty (rq_requested_store_id rq); active = active_store cfg rq in
      if req \<noteq> [] \<and> active \<noteq> [] \<and> req \<noteq> active
      then Inl (PolicyError 409 ''store_mismatch''
             [(''expected_store_id'', JStr req), (''actual_store_id'', JStr active)])
      else Inr ())"

definition resolve_embedded :: "policy_config \<Rightarrow> request \<Rightarrow> clean_request \<Rightarrow> caller_context pol" where
  "resolve_embedded cfg rq cl =
     rbind (check_requested_store cfg rq) (\<lambda>_.
     let caller = str_or (or_empty (cl_actor cl)) ''embedded'' in
     if (\<exists>claim. cl_caller_claim cl = Some claim \<and> claim \<noteq> [] \<and> claim \<notin> {caller, ''anonymous''})
     then Inl impersonation
     else Inr \<lparr>cx_authenticated = False, cx_policy_enforced = False, cx_caller_id = caller,
       cx_store_id = active_store cfg rq, cx_session_id = cl_session cl, cx_harness_id = cl_harness cl,
       cx_source = cl_source cl, cx_namespace = cl_namespace cl, cx_credential = None,
       cx_idempotency_key = rq_idempotency_key rq, cx_envelope_version = cl_version cl,
       cx_default_secret_action = ''redact'', cx_default_private_classification_action = ''omit''\<rparr>)"

text \<open>The first credential whose hash is the token's.\<close>

fun match_credential :: "caller_credential list \<Rightarrow> string \<Rightarrow> caller_credential pol" where
  "match_credential [] token = Inl (PolicyError 401 ''invalid_credential'' [])"
| "match_credential (c # cs) token =
     rbind (matches_token c token) (\<lambda>hit. if hit then Inr c else match_credential cs token)"

definition authenticate :: "policy_config \<Rightarrow> request \<Rightarrow> caller_credential pol" where
  "authenticate cfg rq = (case or_empty (rq_token rq) of
     [] \<Rightarrow> Inl (PolicyError 401 ''missing_credential'' [])
   | token \<Rightarrow>
       rbind (match_credential (pc_credentials cfg) token) (\<lambda>c.
         if cc_revoked c then Inl (PolicyError 403 ''revoked_credential'' []) else Inr c))"

definition check_stores :: "policy_config \<Rightarrow> request \<Rightarrow> caller_credential \<Rightarrow> unit pol" where
  "check_stores cfg rq c =
     rbind (check_requested_store cfg rq) (\<lambda>_.
       if cc_store_id c \<noteq> [] \<and> active_store cfg rq \<noteq> [] \<and> cc_store_id c \<noteq> active_store cfg rq
       then Inl (PolicyError 409 ''store_mismatch'' []) else Inr ())"

definition check_identity :: "caller_credential \<Rightarrow> string option \<Rightarrow> unit pol" where
  "check_identity c claim =
     (if or_empty claim \<noteq> [] \<and> or_empty claim \<noteq> cc_caller_id c then Inl impersonation else Inr ())"

definition check_context_claims :: "policy_config \<Rightarrow> caller_credential \<Rightarrow> clean_request \<Rightarrow> unit pol" where
  "check_context_claims cfg c cl =
     rbind (check_claim (cc_allowed_sessions c) (claimed_sessions_of_others cfg (cc_caller_id c)) (cl_session cl)) (\<lambda>_.
     rbind (check_claim (cc_allowed_sources c) (claimed_sources_of_others cfg (cc_caller_id c)) (cl_source cl)) (\<lambda>_.
     check_claim (cc_allowed_harnesses c) (claimed_harnesses_of_others cfg (cc_caller_id c)) (cl_harness cl)))"

definition enforced :: "policy_config \<Rightarrow> request \<Rightarrow> bool" where
  "enforced cfg rq = (pc_require_auth cfg \<or> pc_credentials cfg \<noteq> [] \<or> rq_token rq \<noteq> None)"

definition resolve_request :: "policy_config \<Rightarrow> request \<Rightarrow> caller_context pol" where
  "resolve_request cfg rq =
     rbind (clean_fields rq) (\<lambda>cl.
     if \<not> enforced cfg rq then resolve_embedded cfg rq cl
     else
       rbind (authenticate cfg rq) (\<lambda>c.
       rbind (check_stores cfg rq c) (\<lambda>_.
       rbind (check_identity c (cl_actor cl)) (\<lambda>_.
       rbind (check_identity c (cl_caller_claim cl)) (\<lambda>_.
       rbind (check_context_claims cfg c cl) (\<lambda>_.
       Inr \<lparr>cx_authenticated = True, cx_policy_enforced = True, cx_caller_id = cc_caller_id c,
         cx_store_id = active_store cfg rq, cx_session_id = cl_session cl, cx_harness_id = cl_harness cl,
         cx_source = cl_source cl, cx_namespace = cl_namespace cl, cx_credential = Some c,
         cx_idempotency_key = rq_idempotency_key rq, cx_envelope_version = cl_version cl,
         cx_default_secret_action = pc_default_secret_action cfg,
         cx_default_private_classification_action = pc_default_private_classification_action cfg\<rparr>))))))"

section \<open>Facts\<close>

lemma check_claim_iff:
  "check_claim allowed others x = Inr u \<longleftrightarrow>
     x = [] \<or> (allowed = [] \<or> x \<in> set allowed) \<and> x \<notin> others"
  by (auto simp: check_claim_def)

lemma claimed_of_others_iff:
  "x \<in> claimed_of_others field cfg cid \<longleftrightarrow>
     (\<exists>c \<in> set (pc_credentials cfg). cc_caller_id c \<noteq> cid \<and> x \<in> set (field c))"
  by (auto simp: claimed_of_others_def)

lemma match_credential_sound:
  "match_credential cs token = Inr c \<Longrightarrow> c \<in> set cs \<and> cc_token_hash c = hash_token token"
  by (induction cs) (auto simp: matches_token_def rbind_eq_Inr split: if_splits)

lemma authenticate_sound:
  assumes "authenticate cfg rq = Inr c"
  shows "c \<in> set (pc_credentials cfg) \<and> \<not> cc_revoked c \<and>
    (\<exists>token. rq_token rq = Some token \<and> token \<noteq> [] \<and> cc_token_hash c = hash_token token)"
  using assms
  by (auto simp: authenticate_def rbind_eq_Inr or_empty_def split: list.splits option.splits if_splits
      dest: match_credential_sound)

text \<open>A value is exclusively the caller's: no credential of another caller lists it, and when the
caller's own credential has a list it is on it.\<close>

definition owned :: "(caller_credential \<Rightarrow> string list) \<Rightarrow> policy_config \<Rightarrow> caller_credential \<Rightarrow> string \<Rightarrow> bool" where
  "owned field cfg c x =
     (x \<noteq> [] \<longrightarrow> (field c \<noteq> [] \<longrightarrow> x \<in> set (field c)) \<and>
       (\<forall>c' \<in> set (pc_credentials cfg). x \<in> set (field c') \<longrightarrow> cc_caller_id c' = cc_caller_id c))"

lemma check_claim_owned:
  "check_claim (field c) (claimed_of_others field cfg (cc_caller_id c)) x = Inr u \<Longrightarrow> owned field cfg c x"
  by (auto simp: check_claim_iff owned_def claimed_of_others_iff)

lemmas claim_defs = claimed_sessions_of_others_def claimed_sources_of_others_def claimed_harnesses_of_others_def

definition authenticated_as :: "policy_config \<Rightarrow> request \<Rightarrow> caller_context \<Rightarrow> caller_credential \<Rightarrow> bool" where
  "authenticated_as cfg rq cx c =
     (cx_authenticated cx \<and> cx_policy_enforced cx \<and> cx_credential cx = Some c \<and>
      c \<in> set (pc_credentials cfg) \<and> \<not> cc_revoked c \<and> cx_caller_id cx = cc_caller_id c \<and>
      (\<exists>token. rq_token rq = Some token \<and> cc_token_hash c = hash_token token) \<and>
      owned cc_allowed_sessions cfg c (cx_session_id cx) \<and>
      owned cc_allowed_sources cfg c (cx_source cx) \<and>
      owned cc_allowed_harnesses cfg c (cx_harness_id cx) \<and>
      (cc_store_id c = [] \<or> cx_store_id cx = [] \<or> cc_store_id c = cx_store_id cx))"

lemma resolve_enforced:
  assumes "enforced cfg rq" "resolve_request cfg rq = Inr cx"
  obtains cl c where "clean_fields rq = Inr cl" "authenticate cfg rq = Inr c" "check_stores cfg rq c = Inr ()"
    "check_identity c (cl_actor cl) = Inr ()" "check_identity c (cl_caller_claim cl) = Inr ()"
    "check_context_claims cfg c cl = Inr ()" "cx_authenticated cx" "cx_policy_enforced cx"
    "cx_caller_id cx = cc_caller_id c" "cx_store_id cx = active_store cfg rq" "cx_session_id cx = cl_session cl"
    "cx_harness_id cx = cl_harness cl" "cx_source cx = cl_source cl" "cx_namespace cx = cl_namespace cl"
    "cx_credential cx = Some c" "cx_default_secret_action cx = pc_default_secret_action cfg"
  using assms by (fastforce simp: resolve_request_def rbind_eq_Inr)

text \<open>C1. A request is resolved in one of two ways. When the daemon has a credential boundary
(authentication required, credentials configured, or a token sent), the context belongs to a
credential of the configuration that is not revoked and whose stored hash is the hash of the token;
the caller is that credential's, whatever actor or caller the request names; the store bindings
agree; and no session, source or harness of the context is claimed by another caller. Otherwise
the context is explicitly unauthenticated and carries no credential.\<close>

theorem resolve_request_sound:
  assumes "resolve_request cfg rq = Inr cx"
  shows "if enforced cfg rq then (\<exists>c. authenticated_as cfg rq cx c)
         else \<not> cx_authenticated cx \<and> \<not> cx_policy_enforced cx \<and> cx_credential cx = None"
proof (cases "enforced cfg rq")
  case True
  obtain cl c where r: "authenticate cfg rq = Inr c" "check_stores cfg rq c = Inr ()"
    "check_context_claims cfg c cl = Inr ()" "cx_authenticated cx" "cx_policy_enforced cx"
    "cx_caller_id cx = cc_caller_id c" "cx_store_id cx = active_store cfg rq" "cx_session_id cx = cl_session cl"
    "cx_harness_id cx = cl_harness cl" "cx_source cx = cl_source cl" "cx_credential cx = Some c"
    using resolve_enforced [OF True assms] by metis
  have o: "owned cc_allowed_sessions cfg c (cl_session cl)" "owned cc_allowed_sources cfg c (cl_source cl)"
    "owned cc_allowed_harnesses cfg c (cl_harness cl)"
    using r(3) by (auto simp: check_context_claims_def rbind_eq_Inr claim_defs intro: check_claim_owned)
  have "cc_store_id c = [] \<or> active_store cfg rq = [] \<or> cc_store_id c = active_store cfg rq"
    using r(2) by (auto simp: check_stores_def rbind_eq_Inr split: if_splits)
  with r o authenticate_sound [OF r(1)] have "authenticated_as cfg rq cx c"
    unfolding authenticated_as_def by auto
  with True show ?thesis by auto
next
  case False
  then show ?thesis using assms
    by (auto simp: resolve_request_def resolve_embedded_def rbind_eq_Inr Let_def split: if_splits)
qed

text \<open>C2. A revocation takes effect on the next request: after revoking a caller, no request
with a credential boundary is resolved to that caller, the boundary stays up when the configuration
has credentials, and no approval whose audience names the caller grants it anything any more.\<close>

theorem revoked_caller_is_locked_out:
  assumes "cfg' = fst (revoke_caller cid cfg)"
  shows "(pc_credentials cfg \<noteq> [] \<longrightarrow> enforced cfg' rq) \<and>
    (resolve_request cfg' rq = Inr cx \<and> cx_policy_enforced cx \<longrightarrow> cx_caller_id cx \<noteq> cid) \<and>
    (\<forall>c \<in> set (pc_credentials cfg'). \<forall>s \<in> set (cc_share_approvals c).
       cid \<in> set (sa_audience s) \<longrightarrow> \<not> share_allows_row s row caller op \<and> \<not> share_allows_namespace s ns caller op)"
proof (intro conjI impI ballI)
  assume "pc_credentials cfg \<noteq> []"
  then show "enforced cfg' rq" by (simp add: assms enforced_def revoke_caller_def Let_def)
next
  assume r: "resolve_request cfg' rq = Inr cx \<and> cx_policy_enforced cx"
  then have "enforced cfg' rq" using resolve_request_sound [of cfg' rq cx] by (auto split: if_splits)
  then obtain c where "authenticated_as cfg' rq cx c"
    using r resolve_request_sound [of cfg' rq cx] by auto
  moreover have "cc_revoked c" if "c \<in> set (pc_credentials cfg')" "cc_caller_id c = cid"
    using that revoke_caller_revoked(1) [of c cid cfg] by (simp add: assms)
  ultimately show "cx_caller_id cx \<noteq> cid" by (auto simp: authenticated_as_def)
next
  fix c s
  assume "c \<in> set (pc_credentials cfg')" "s \<in> set (cc_share_approvals c)" "cid \<in> set (sa_audience s)"
  then have "sa_revoked s"
    using revoke_caller_revoked(2) [of c cid cfg s] by (simp add: assms)
  then show "\<not> share_allows_row s row caller op" "\<not> share_allows_namespace s ns caller op"
    by (simp_all add: share_allows_row_iff share_allows_namespace_iff)
qed

text \<open>C3. The values a scoped write is recorded under are its own: a session, harness or source
accepted for a write is not listed by a credential of another caller, equals the header's value
when the header has one (a source that the body leaves blank claims nothing), and a caller named
in the body is the authenticated one.\<close>

theorem write_claims_sound:
  assumes "scoped cx = Some c" "cx_caller_id cx = cc_caller_id c"
    and "validate_write_session_and_harness cfg cx session harness version claim = Inr (ses, har, ver)"
    and "validate_write_source cfg cx (JStr src) = Inr ()"
  shows "owned cc_allowed_sessions cfg c ses \<and> owned cc_allowed_harnesses cfg c har \<and>
    owned cc_allowed_sources cfg c (strip src) \<and>
    (cx_source cx \<noteq> [] \<longrightarrow> strip src \<in> {[], cx_source cx}) \<and>
    (cx_session_id cx \<noteq> [] \<longrightarrow> ses = cx_session_id cx) \<and> (cx_harness_id cx \<noteq> [] \<longrightarrow> har = cx_harness_id cx) \<and>
    (cx_envelope_version cx \<noteq> [] \<longrightarrow> ver = cx_envelope_version cx) \<and>
    (\<forall>s. claim = JStr s \<longrightarrow> strip s = cc_caller_id c)"
proof -
  have enf: "cx_policy_enforced cx" using assms(1) by (auto simp: scoped_def split: if_splits)
  have o: "override h b f = Inr v \<Longrightarrow> h \<noteq> [] \<longrightarrow> v = h" for h b f v
    by (auto simp: override_def rbind_eq_Inr split: if_splits)
  have w: "check_caller_claim cx claim = Inr ()"
    "override (cx_envelope_version cx) version validate_envelope_version = Inr ver"
    "override (cx_session_id cx) session (\<lambda>v. validate_context_field v False) = Inr ses"
    "override (cx_harness_id cx) harness (\<lambda>v. validate_context_field v False) = Inr har"
    "check_claim (cc_allowed_sessions c) (claimed_sessions_of_others cfg (cx_caller_id cx)) ses = Inr ()"
    "check_claim (cc_allowed_harnesses c) (claimed_harnesses_of_others cfg (cx_caller_id cx)) har = Inr ()"
    using assms(1,3) by (auto simp: validate_write_session_and_harness_def rbind_eq_Inr)
  have src: "check_claim (cc_allowed_sources c) (claimed_sources_of_others cfg (cx_caller_id cx)) (strip src) = Inr ()"
  proof (cases "strip src = []")
    case False
    then have ne: "src \<noteq> []" by auto
    have v: "validate_context_field (JStr src) False = Inr (strip src)"
      using assms(4) ne by (auto simp: validate_write_source_def rbind_eq_Inr validate_context_field_def split: if_splits)
    show ?thesis using assms(1,4) ne False
      by (auto simp: validate_write_source_def v split: if_splits)
  qed (simp add: check_claim_def)
  have agree: "strip src \<in> {[], cx_source cx}" if "cx_source cx \<noteq> []"
  proof (cases "strip src = []")
    case False
    then have ne: "src \<noteq> []" by auto
    have "validate_context_field (JStr src) False = Inr (strip src)"
      using assms(4) ne by (auto simp: validate_write_source_def rbind_eq_Inr validate_context_field_def split: if_splits)
    then show ?thesis using assms(4) ne False that by (simp add: validate_write_source_def split: if_splits)
  qed simp
  have claim: "strip s = cc_caller_id c" if "claim = JStr s" for s
    using w(1) that enf assms(2)
    by (auto simp: check_caller_claim_def validate_context_field_def rbind_eq_Inr split: if_splits)
  show ?thesis using w(5,6) src agree o [OF w(2)] o [OF w(3)] o [OF w(4)] claim
    by (auto simp: assms(2) claim_defs intro: check_claim_owned)
qed

section \<open>A configuration with two callers\<close>

definition alice :: caller_credential where
  "alice = \<lparr>cc_token_hash = hash_token ''ta'', cc_caller_id = ''alice'', cc_store_id = ''st'', cc_namespaces = [''n''],
     cc_operations = [''read'', ''write''], cc_allowed_sessions = [''s1''], cc_allowed_sources = [],
     cc_allowed_harnesses = [], cc_share_approvals = [], cc_is_management = False, cc_revoked = False,
     cc_secret_action = None, cc_private_classification_action = None, cc_allow_attachments = False,
     cc_redact_host_paths = True\<rparr>"

definition open_share :: share_approval where
  "open_share = \<lparr>sa_approval_id = ''a1'', sa_namespace = ''n'', sa_identifiers = [], sa_memory_ids = [],
     sa_audience = [''bob''], sa_operations = [''read''], sa_version = 1, sa_revoked = False,
     sa_secret_action = None, sa_private_classification_action = None\<rparr>"

definition bob :: caller_credential where
  "bob = alice\<lparr>cc_token_hash := hash_token ''tb'', cc_caller_id := ''bob'', cc_namespaces := [],
     cc_allowed_sessions := [''s2''], cc_share_approvals := [open_share]\<rparr>"

definition sample_config :: policy_config where
  "sample_config = \<lparr>pc_store_id = ''st'', pc_require_auth = True, pc_credentials = [alice, bob], pc_revision = 1,
     pc_default_secret_action = ''redact'', pc_default_private_classification_action = ''omit''\<rparr>"

definition sample_request :: request where
  "sample_request = \<lparr>rq_runtime_store_id = ''st'', rq_token = Some ''ta'', rq_requested_store_id = None,
     rq_session_id = JStr ''s1'', rq_harness_id = JNull, rq_source = JStr ''cli'', rq_namespace = JStr ''n'',
     rq_actor = JNull, rq_idempotency_key = None, rq_envelope_version = JNull, rq_caller_id_claim = JNull\<rparr>"

definition alice_context :: caller_context where
  "alice_context = \<lparr>cx_authenticated = True, cx_policy_enforced = True, cx_caller_id = ''alice'', cx_store_id = ''st'',
     cx_session_id = ''s1'', cx_harness_id = [], cx_source = ''cli'', cx_namespace = Some ''n'',
     cx_credential = Some alice, cx_idempotency_key = None, cx_envelope_version = SESSION_ENVELOPE_VERSION,
     cx_default_secret_action = ''redact'', cx_default_private_classification_action = ''omit''\<rparr>"

lemma sample_clean: "clean_fields sample_request = Inr \<lparr>cl_version = SESSION_ENVELOPE_VERSION, cl_harness = [],
    cl_source = ''cli'', cl_session = ''s1'', cl_namespace = Some ''n'', cl_actor = None, cl_caller_claim = None\<rparr>"
  by code_simp

lemma sample_resolves: "resolve_request sample_config sample_request = Inr alice_context"
  unfolding resolve_request_def sample_clean
  by (simp add: enforced_def sample_request_def sample_config_def authenticate_def or_empty_def
      matches_token_def alice_def bob_def check_stores_def check_requested_store_def active_store_def str_or_def
      check_identity_def check_context_claims_def check_claim_iff claim_defs claimed_of_others_def
      alice_context_def rbind_eq_Inr)

theorem resolve_request_sound_witness:
  "resolve_request sample_config sample_request = Inr alice_context \<and>
   (\<exists>c. authenticated_as sample_config sample_request alice_context c)"
  using resolve_request_sound [OF sample_resolves] sample_resolves
  by (simp add: enforced_def sample_config_def)

theorem revoked_caller_is_locked_out_witness:
  "resolve_request (fst (revoke_caller ''alice'' sample_config)) sample_request \<noteq> Inr alice_context"
  using revoked_caller_is_locked_out [OF refl, of sample_config "''alice''" sample_request alice_context "[]" "[]" "[]" "[]"]
  by (auto simp: alice_context_def)

lemma sample_write:
  "validate_write_session_and_harness sample_config alice_context (JStr ''s1'') JNull JNull (JStr ''alice'')
     = Inr (''s1'', [], SESSION_ENVELOPE_VERSION)"
  "validate_write_source sample_config alice_context (JStr ''cli'') = Inr ()"
  unfolding validate_write_session_and_harness_def validate_write_source_def check_caller_claim_def override_def
    validate_context_field_def
  by (simp_all add: alice_context_def scoped_def strip_def is_space_def has_control_char_def py_len_def
      is_cont_byte_def MAX_CONTEXT_FIELD_LEN_def check_claim_def claim_defs claimed_of_others_def
      sample_config_def bob_def alice_def rbind_eq_Inr)

theorem write_claims_sound_witness:
  "validate_write_session_and_harness sample_config alice_context (JStr ''s1'') JNull JNull (JStr ''alice'')
     = Inr (''s1'', [], SESSION_ENVELOPE_VERSION) \<and>
   owned cc_allowed_sessions sample_config alice ''s1'' \<and> strip ''alice'' = cc_caller_id alice"
proof -
  have s: "scoped alice_context = Some alice" "cx_caller_id alice_context = cc_caller_id alice"
    by (simp_all add: scoped_def alice_context_def alice_def)
  show ?thesis using write_claims_sound [OF s sample_write] sample_write(1) by simp
qed

theorem write_namespace_sound_witness:
  "effective_write_namespace alice_context = Inr ''n'' \<and> require_operation alice_context ''write'' = Inr ()"
proof -
  have s: "scoped alice_context = Some alice" by (simp add: scoped_def alice_context_def)
  moreover have w: "effective_write_namespace alice_context = Inr ''n''"
    by (simp add: effective_write_namespace_def can_access_namespace_def s direct_namespace_def Let_def
        alice_def [THEN arg_cong, of cc_operations] alice_def [THEN arg_cong, of cc_namespaces]
        alice_context_def [THEN arg_cong, of cx_namespace])
  ultimately show ?thesis using write_namespace_sound by blast
qed

lemma sample_config_loads: "config_from_dict (JObj (config_to_dict sample_config)) = Inr sample_config"
  by (rule config_roundtrip)
    (simp add: valid_config_def config_post_init_def sample_config_def valid_credential_def valid_share_def
      alice_def bob_def open_share_def check_actions_def validate_secret_action_def
      validate_classification_action_def VALID_SECRET_ACTIONS_def VALID_CLASSIFICATION_ACTIONS_def)

theorem policy_config_roundtrip_witness:
  "config_from_dict (JObj (config_to_dict sample_config)) = Inr sample_config"
  by (rule policy_config_roundtrip [OF sample_config_loads])

end
