(* ===== verification/SourceUri.thy ===== *)
theory SourceUri
  imports PyJson Sha256
begin

text \<open>
  \<open>interchange/canonical.py\<close>: the syntactic normalisation of a source reference and the
  digests derived from it, with the parts of \<open>posixpath\<close> and \<open>urllib.parse\<close> they use.
  \<open>urlsplit\<close> is the one of Python 3.11: an unbalanced bracket in the authority raises
  \<open>ValueError\<close>; the checks of a bracketed IPv6 host and of the NFKC form of a non-ASCII
  authority are not modelled.
\<close>

section \<open>posixpath.normpath\<close>

definition initial_slashes :: "string \<Rightarrow> nat" where
  "initial_slashes p =
     (if starts_with p ''//'' \<and> \<not> starts_with p ''///'' then 2 else if starts_with p ''/'' then 1 else 0)"

text \<open>One component; the stack holds the components kept so far, last first.\<close>

definition push_component :: "bool \<Rightarrow> string \<Rightarrow> string list \<Rightarrow> string list" where
  "push_component rooted c stack =
     (if c \<in> {[], ''.''} then stack
      else if c \<noteq> ''..'' \<or> (\<not> rooted \<and> stack = []) \<or> (stack \<noteq> [] \<and> hd stack = ''..'') then c # stack
      else tl stack)"

definition normpath :: "string \<Rightarrow> string" where
  "normpath p =
     (if p = [] then ''.''
      else let n = initial_slashes p;
               comps = rev (fold (push_component (n > 0)) (split_on CHR ''/'' p) []);
               q = replicate n (CHR ''/'') @ join_with ''/'' comps in
        if q = [] then ''.'' else q)"

section \<open>urllib.parse\<close>

definition find_char :: "char \<Rightarrow> string \<Rightarrow> nat option" where
  "find_char c s = (if c \<in> set s then Some (length (takeWhile (\<lambda>d. d \<noteq> c) s)) else None)"

definition scheme_char :: "char \<Rightarrow> bool" where
  "scheme_char c = (is_alpha c \<or> is_digit c \<or> c \<in> {CHR ''+'', CHR ''-'', CHR ''.''})"

record split_url =
  su_scheme :: string
  su_netloc :: string
  su_path :: string
  su_query :: string
  su_fragment :: string

definition strip_url :: "string \<Rightarrow> string" where
  "strip_url s = filter (\<lambda>c. c \<notin> {CHR 0x09, CHR 0x0A, CHR 0x0D}) (dropWhile (\<lambda>c. (of_char c :: nat) \<le> 32) s)"

definition split_scheme :: "string \<Rightarrow> string \<times> string" where
  "split_scheme s = (case find_char (CHR '':'') s of
     Some i \<Rightarrow> (if i > 0 \<and> is_alpha (hd s) \<and> list_all scheme_char (take i s)
              then (lower (take i s), drop (Suc i) s) else ([], s))
   | None \<Rightarrow> ([], s))"

definition split_netloc :: "string \<Rightarrow> string \<times> string" where
  "split_netloc s =
     (let stop = (\<lambda>c. c \<notin> {CHR ''/'', CHR ''?'', CHR ''#''}) in
      if starts_with s ''//'' then (takeWhile stop (drop 2 s), dropWhile stop (drop 2 s)) else ([], s))"

text \<open>\<open>s.split(c, 1)\<close>: the part before the first \<open>c\<close> and the part after it, or nothing.\<close>

definition split_once :: "char \<Rightarrow> string \<Rightarrow> string \<times> string" where
  "split_once c s = (takeWhile (\<lambda>d. d \<noteq> c) s, drop 1 (dropWhile (\<lambda>d. d \<noteq> c) s))"

definition urlsplit :: "string \<Rightarrow> py_exn + split_url" where
  "urlsplit url =
     (let (scheme, r1) = split_scheme (strip_url url);
          (netloc, r2) = split_netloc r1;
          (r3, fragment) = split_once (CHR ''#'') r2;
          (path, query) = split_once (CHR ''?'') r3 in
      if (CHR ''['' \<in> set netloc) \<noteq> (CHR '']'' \<in> set netloc) then Inl ValueError
      else Inr \<lparr>su_scheme = scheme, su_netloc = netloc, su_path = path, su_query = query,
                su_fragment = fragment\<rparr>)"

definition USES_NETLOC :: "string list" where
  "USES_NETLOC = [''ftp'', ''http'', ''gopher'', ''nntp'', ''telnet'', ''imap'', ''wais'', ''file'', ''mms'', ''https'',
     ''shttp'', ''snews'', ''prospero'', ''rtsp'', ''rtsps'', ''rtspu'', ''rsync'', ''svn'', ''svn+ssh'', ''sftp'', ''nfs'',
     ''git'', ''git+ssh'', ''ws'', ''wss'']"

definition urlunsplit :: "split_url \<Rightarrow> string" where
  "urlunsplit u =
     (let url = su_path u;
          url = (if su_netloc u \<noteq> [] \<or> su_scheme u \<in> set USES_NETLOC \<or> starts_with url ''//''
                 then ''//'' @ su_netloc u @ (if url \<noteq> [] \<and> \<not> starts_with url ''/'' then ''/'' @ url else url)
                 else url);
          url = (if su_scheme u \<noteq> [] then su_scheme u @ '':'' @ url else url);
          url = (if su_query u \<noteq> [] then url @ ''?'' @ su_query u else url) in
      if su_fragment u \<noteq> [] then url @ ''#'' @ su_fragment u else url)"

definition hex_digit_value :: "char \<Rightarrow> nat option" where
  "hex_digit_value c =
     (if is_digit c then Some (of_char c - 48)
      else if CHR ''a'' \<le> c \<and> c \<le> CHR ''f'' then Some (of_char c - 87)
      else if CHR ''A'' \<le> c \<and> c \<le> CHR ''F'' then Some (of_char c - 55) else None)"

text \<open>Percent-decoding to bytes; an escape that is not two hexadecimal digits stays.\<close>

fun unquote_bytes :: "string \<Rightarrow> string" where
  "unquote_bytes (p # a # b # s) =
     (if p = CHR ''%'' then
        (case (hex_digit_value a, hex_digit_value b) of
           (Some i, Some j) \<Rightarrow> char_of (16 * i + j) # unquote_bytes s
         | _ \<Rightarrow> p # unquote_bytes (a # b # s))
      else p # unquote_bytes (a # b # s))"
| "unquote_bytes s = s"

text \<open>Strict UTF-8: lead and continuation bytes, no overlong form, no surrogate, at most U+10FFFF.\<close>

fun utf8_valid :: "nat list \<Rightarrow> bool" where
  "utf8_valid [] = True"
| "utf8_valid (a # s) =
     (let cont = (\<lambda>b. 128 \<le> b \<and> b < 192) in
      if a < 128 then utf8_valid s
      else if 194 \<le> a \<and> a < 224 then (case s of b # r \<Rightarrow> cont b \<and> utf8_valid r | _ \<Rightarrow> False)
      else if 224 \<le> a \<and> a < 240 then
        (case s of b # c # r \<Rightarrow> cont b \<and> cont c \<and> (a = 224 \<longrightarrow> 160 \<le> b) \<and> (a = 237 \<longrightarrow> b < 160) \<and> utf8_valid r
         | _ \<Rightarrow> False)
      else if 240 \<le> a \<and> a < 245 then
        (case s of b # c # d # r \<Rightarrow> cont b \<and> cont c \<and> cont d \<and> (a = 240 \<longrightarrow> 144 \<le> b) \<and> (a = 244 \<longrightarrow> b < 144)
             \<and> utf8_valid r
         | _ \<Rightarrow> False)
      else False)"

text \<open>\<open>unquote(s, errors="strict")\<close> with the decoding error suppressed: the text stays as it is.\<close>

definition unquote_or_keep :: "string \<Rightarrow> string" where
  "unquote_or_keep s = (let t = unquote_bytes s in if utf8_valid (map of_char t) then t else s)"

section \<open>normalize_source_uri\<close>

definition drive_prefix :: "string \<Rightarrow> bool" where
  "drive_prefix s = (length s \<ge> 2 \<and> is_alpha (s ! 0) \<and> s ! 1 = CHR '':'')"

definition strip_file_scheme :: "string \<Rightarrow> py_exn + string" where
  "strip_file_scheme raw =
     (let legacy = drop 7 raw in
      if length legacy \<ge> 3 \<and> drive_prefix legacy \<and> legacy ! 2 \<in> {CHR ''/'', CHR 0x5C} then
        Inr (unquote_or_keep legacy)
      else
        rbind (urlsplit raw) (\<lambda>parts.
          let authority = su_netloc parts in
          if authority \<noteq> [] \<and> lower authority \<noteq> ''localhost'' then
            (if length authority = 2 \<and> drive_prefix authority
             then Inr (unquote_or_keep (authority @ su_path parts)) else Inr raw)
          else
            (let cand = unquote_or_keep (su_path parts) in
             if length cand \<ge> 3 \<and> cand ! 0 = CHR ''/'' \<and> drive_prefix (drop 1 cand)
             then Inr (drop 1 cand) else Inr cand)))"

definition single_root :: "string \<Rightarrow> string" where
  "single_root p = (if starts_with p ''//'' then CHR ''/'' # dropWhile (\<lambda>c. c = CHR ''/'') p else p)"

definition upper_drive :: "string \<Rightarrow> string" where
  "upper_drive p = (if drive_prefix p then upper_char (hd p) # tl p else p)"

definition backslash_to_slash :: "string \<Rightarrow> string" where
  "backslash_to_slash s = map (\<lambda>c. if c = CHR 0x5C then CHR ''/'' else c) s"

text \<open>The normal form of a reference without a base directory.\<close>

definition normalize_reference :: "string \<Rightarrow> py_exn + string" where
  "normalize_reference source_uri =
     (let raw = strip source_uri in
      if raw = [] then Inr []
      else rbind (if starts_with (lower raw) ''file://'' then strip_file_scheme raw else Inr raw) (\<lambda>raw.
        if contains_sub raw ''://'' then
          rbind (urlsplit raw) (\<lambda>parts.
            let path = single_root (normpath (if su_path parts = [] then ''/'' else su_path parts)) in
            Inr (urlunsplit (parts\<lparr>su_scheme := lower (su_scheme parts), su_netloc := lower (su_netloc parts),
                                  su_path := path\<rparr>)))
        else Inr (upper_drive (single_root (normpath (backslash_to_slash raw))))))"

definition rstrip_slash :: "string \<Rightarrow> string" where
  "rstrip_slash s = rev (dropWhile (\<lambda>c. c = CHR ''/'') (rev s))"

definition relative_to_base :: "string \<Rightarrow> string \<Rightarrow> string" where
  "relative_to_base base norm =
     (if base \<noteq> [] \<and> base \<noteq> ''.'' then
        (if norm = base then ''.''
         else if starts_with norm (base @ ''/'') then
           (let rel = drop (length base + 1) norm in
            if rel \<noteq> [] \<and> \<not> starts_with rel ''..'' then rel else norm)
         else norm)
      else norm)"

definition normalize_source_uri :: "string \<Rightarrow> string option \<Rightarrow> py_exn + string" where
  "normalize_source_uri source_uri base_dir =
     (let raw = strip source_uri in
      rbind (normalize_reference source_uri) (\<lambda>norm.
        case base_dir of
          None \<Rightarrow> Inr norm
        | Some b \<Rightarrow>
            (if raw = [] then Inr norm
             else rbind (if starts_with (lower raw) ''file://'' then strip_file_scheme raw else Inr raw) (\<lambda>r.
               if contains_sub r ''://'' then Inr norm
               else rbind (normalize_reference b) (\<lambda>bn. Inr (relative_to_base (rstrip_slash bn) norm))))))"

section \<open>Digests\<close>

definition compute_content_hash :: "string \<Rightarrow> string \<Rightarrow> string" where
  "compute_content_hash identifier fact_text = sha256_hex (identifier @ '':'' @ fact_text)"

definition compute_file_reference_hash ::
  "string \<Rightarrow> string \<Rightarrow> int \<Rightarrow> int \<Rightarrow> string option \<Rightarrow> py_exn + string" where
  "compute_file_reference_hash identifier source_uri off len base_dir =
     rbind (normalize_source_uri source_uri base_dir) (\<lambda>uri.
       Inr (sha256_hex (''hotmem-file-ref-v1:'' @ identifier @ '':'' @ uri @ '':'' @ int_str off @ '':'' @ int_str len)))"

definition logical_id :: "string list \<Rightarrow> string" where
  "logical_id hashes = sha256_hex (concat (sort hashes))"

section \<open>The normal form of a path\<close>

definition clean_component :: "string \<Rightarrow> bool" where
  "clean_component c = (c \<noteq> [] \<and> c \<noteq> ''.'' \<and> CHR ''/'' \<notin> set c)"

definition dots_first :: "bool \<Rightarrow> string list \<Rightarrow> bool" where
  "dots_first rooted cs =
     (if rooted then ''..'' \<notin> set cs
      else \<exists>k rest. cs = replicate k ''..'' @ rest \<and> ''..'' \<notin> set rest)"

lemma push_component_clean:
  "list_all clean_component stack \<Longrightarrow> CHR ''/'' \<notin> set c \<Longrightarrow> list_all clean_component (push_component rooted c stack)"
  by (cases stack) (auto simp: push_component_def clean_component_def)

lemma dots_first_intro:
  "cs = replicate k ''..'' @ rest \<Longrightarrow> ''..'' \<notin> set rest \<Longrightarrow> (rooted \<Longrightarrow> k = 0) \<Longrightarrow> dots_first rooted cs"
  by (auto simp: dots_first_def)

lemma dots_first_cases:
  assumes "dots_first rooted cs"
  obtains k rest where "cs = replicate k ''..'' @ rest" "''..'' \<notin> set rest" "rooted \<longrightarrow> k = 0"
proof (cases rooted)
  case True
  then show ?thesis using assms that [of 0 cs] by (simp add: dots_first_def)
next
  case False
  then show ?thesis using assms that by (auto simp: dots_first_def)
qed

lemma push_component_dots:
  assumes "dots_first rooted (rev stack)" "c \<noteq> []" "c \<noteq> ''.''"
  shows "dots_first rooted (rev (push_component rooted c stack))"
proof -
  obtain k rest where kr: "rev stack = replicate k ''..'' @ rest" "''..'' \<notin> set rest" "rooted \<longrightarrow> k = 0"
    using dots_first_cases [OF assms(1)] by blast
  then have st: "stack = rev rest @ replicate k ''..''" by (metis rev_append rev_replicate rev_rev_ident)
  consider (push) "c \<noteq> ''..''" | (up) "c = ''..''" "rest = []" | (pop) "c = ''..''" "rest \<noteq> []" by blast
  then show ?thesis
  proof cases
    case push
    then have "rev (push_component rooted c stack) = replicate k ''..'' @ (rest @ [c])"
      using assms(2,3) kr(1) by (simp add: push_component_def)
    then show ?thesis by (rule dots_first_intro) (use push kr in auto)
  next
    case up
    show ?thesis
    proof (cases "rooted")
      case True
      then show ?thesis using up st kr(3) assms(1) by (simp add: push_component_def)
    next
      case False
      then have "push_component rooted c stack = c # stack"
        using up st by (cases k) (simp_all add: push_component_def)
      then have "rev (push_component rooted c stack) = replicate (Suc k) ''..'' @ []"
        using up kr(1) by (simp add: replicate_append_same)
      then show ?thesis by (rule dots_first_intro) (use False in auto)
    qed
  next
    case pop
    then obtain r rs where r: "rest = rs @ [r]" by (metis rev_exhaust)
    then have "stack = r # rev rs @ replicate k ''..''" using st by simp
    moreover have "r \<noteq> ''..''" using kr r by auto
    ultimately have "rev (push_component rooted c stack) = replicate k ''..'' @ rs"
      using pop by (simp add: push_component_def)
    then show ?thesis by (rule dots_first_intro) (use kr r in auto)
  qed
qed

lemma push_components_normal:
  "list_all clean_component stack \<Longrightarrow> dots_first rooted (rev stack) \<Longrightarrow> (\<And>c. c \<in> set cs \<Longrightarrow> CHR ''/'' \<notin> set c) \<Longrightarrow>
     list_all clean_component (fold (push_component rooted) cs stack) \<and>
     dots_first rooted (rev (fold (push_component rooted) cs stack))"
proof (induction cs arbitrary: stack)
  case (Cons c cs)
  have "dots_first rooted (rev (push_component rooted c stack))"
    by (cases "c \<in> {[], ''.''}") (use Cons.prems(2) push_component_dots in \<open>auto simp: push_component_def\<close>)
  then show ?case using Cons push_component_clean by simp
qed simp

text \<open>A normal list of components is left as it is.\<close>

lemma push_clean: "clean_component c \<Longrightarrow> c \<noteq> ''..'' \<Longrightarrow> push_component rooted c stack = c # stack"
  by (simp add: push_component_def clean_component_def)

lemma push_rest: "list_all clean_component rest \<Longrightarrow> ''..'' \<notin> set rest \<Longrightarrow>
    fold (push_component rooted) rest stack = rev rest @ stack"
  by (induction rest arbitrary: stack) (auto simp: push_clean)

lemma push_dots: "fold (push_component False) (replicate k ''..'') (replicate j ''..'') = replicate (k + j) ''..''"
proof (induction k arbitrary: j)
  case (Suc k)
  have "push_component False ''..'' (replicate j ''..'') = replicate (Suc j) ''..''"
    by (cases j) (simp_all add: push_component_def)
  then show ?case using Suc.IH [of "Suc j"] by simp
qed simp

lemma push_normal:
  assumes "list_all clean_component cs" "dots_first rooted cs"
  shows "fold (push_component rooted) cs [] = rev cs"
proof -
  obtain k rest where kr: "cs = replicate k ''..'' @ rest" "''..'' \<notin> set rest" "rooted \<longrightarrow> k = 0"
    using dots_first_cases [OF assms(2)] by blast
  have "fold (push_component rooted) (replicate k ''..'') [] = replicate k ''..''"
    using push_dots [of k 0] kr(3) by (cases rooted) auto
  then show ?thesis using assms(1) kr(1,2) by (simp add: push_rest)
qed

lemma split_on_append: "c \<notin> set x \<Longrightarrow> split_on c (x @ c # s) = x # split_on c s"
  by (induction x) (auto split: list.splits)

lemma split_on_plain: "c \<notin> set x \<Longrightarrow> split_on c x = [x]"
  by (induction x) auto

lemma split_on_join:
  "cs \<noteq> [] \<Longrightarrow> (\<And>x. x \<in> set cs \<Longrightarrow> c \<notin> set x) \<Longrightarrow> split_on c (join_with [c] cs) = cs"
proof (induction cs)
  case (Cons x xs)
  then show ?case by (cases xs) (auto simp: split_on_append split_on_plain)
qed simp

lemma join_head:
  assumes "list_all clean_component cs" "cs \<noteq> []"
  shows "\<exists>c r. join_with ''/'' cs = c # r \<and> c \<noteq> CHR ''/''"
proof -
  obtain x xs where cs: "cs = x # xs" using assms(2) by (cases cs) auto
  then obtain c r where "x = c # r" "c \<noteq> CHR ''/''"
    using assms(1) by (cases x) (auto simp: clean_component_def)
  then show ?thesis using cs by (cases xs) auto
qed

lemma starts_with_Cons: "starts_with s (c # p) \<longleftrightarrow> (\<exists>r. s = c # r \<and> starts_with r p)"
  by (cases s) (auto simp: starts_with_def)

lemma starts_with_Nil [simp]: "starts_with s []"
  by (simp add: starts_with_def)

lemma initial_slashes_rooted:
  assumes "n \<le> 2" "list_all clean_component cs"
  shows "initial_slashes (replicate n (CHR ''/'') @ join_with ''/'' cs) = n"
proof (cases "cs = []")
  case True
  have "n = 0 \<or> n = 1 \<or> n = 2" using assms(1) by linarith
  then show ?thesis using True by (auto simp: initial_slashes_def starts_with_Cons numeral_2_eq_2)
next
  case False
  obtain c r where "join_with ''/'' cs = c # r" "c \<noteq> CHR ''/''" using join_head [OF assms(2) False] by blast
  moreover have "n = 0 \<or> n = 1 \<or> n = 2" using assms(1) by linarith
  ultimately show ?thesis by (auto simp: initial_slashes_def starts_with_Cons numeral_2_eq_2)
qed

lemma split_rooted:
  "list_all clean_component cs \<Longrightarrow>
     fold (push_component r) (split_on CHR ''/'' (replicate n (CHR ''/'') @ join_with ''/'' cs)) [] =
     fold (push_component r) cs []"
proof (induction n)
  case 0
  show ?case
  proof (cases "cs = []")
    case False
    have "split_on CHR ''/'' (join_with ''/'' cs) = cs"
      by (rule split_on_join [OF False]) (use 0 in \<open>auto simp: list_all_iff clean_component_def\<close>)
    then show ?thesis by simp
  qed (simp add: push_component_def)
qed (simp add: push_component_def)

lemma normpath_rooted:
  assumes "n \<le> 2" "list_all clean_component cs" "dots_first (n > 0) cs" "n > 0 \<or> cs \<noteq> []"
  shows "normpath (replicate n (CHR ''/'') @ join_with ''/'' cs) = replicate n (CHR ''/'') @ join_with ''/'' cs"
proof -
  have ne: "replicate n (CHR ''/'') @ join_with ''/'' cs \<noteq> []"
    using assms(2,4) join_head by (cases "cs = []") fastforce+
  show ?thesis using ne
    by (simp add: normpath_def initial_slashes_rooted [OF assms(1,2)] split_rooted [OF assms(2)]
        push_normal [OF assms(2,3)] Let_def)
qed

text \<open>The normal form of a path is a fixed point of \<open>posixpath.normpath\<close>.\<close>

lemma normpath_idempotent: "normpath (normpath p) = normpath p"
proof (cases "p = []")
  case True
  then show ?thesis by (simp add: normpath_def initial_slashes_def starts_with_def push_component_def)
next
  case False
  let ?n = "initial_slashes p"
  let ?cs = "rev (fold (push_component (?n > 0)) (split_on CHR ''/'' p) [])"
  have n: "?n \<le> 2" by (simp add: initial_slashes_def)
  have "list_all clean_component (fold (push_component (?n > 0)) (split_on CHR ''/'' p) []) \<and> dots_first (?n > 0) ?cs"
    by (rule push_components_normal) (auto simp: dots_first_def split_on_no_sep)
  then have c: "list_all clean_component ?cs" "dots_first (?n > 0) ?cs" by (simp_all add: list_all_iff)
  have p: "normpath p = (if replicate ?n (CHR ''/'') @ join_with ''/'' ?cs = [] then ''.''
      else replicate ?n (CHR ''/'') @ join_with ''/'' ?cs)"
    using False by (simp add: normpath_def Let_def)
  show ?thesis
  proof (cases "?n > 0 \<or> ?cs \<noteq> []")
    case True
    have "replicate ?n (CHR ''/'') @ join_with ''/'' ?cs \<noteq> []"
      using True join_head [OF c(1)] by (cases "?cs = []") fastforce+
    then show ?thesis unfolding p by (simp only: if_False normpath_rooted [OF n c True])
  next
    case False
    then have f: "?n = 0 \<and> ?cs = []" unfolding de_Morgan_disj not_gr_zero not_not .
    note n0 = conjunct1 [OF f] and cs = conjunct2 [OF f]
    have "replicate ?n (CHR ''/'') @ join_with ''/'' ?cs = []" unfolding cs unfolding n0 by simp
    then have "normpath p = ''.''" unfolding p by (rule if_P)
    then show ?thesis
      by (simp add: normpath_def initial_slashes_def starts_with_def push_component_def)
  qed
qed

section \<open>Equal references\<close>

lemma normpath_dot_slash:
  assumes "q \<noteq> []" "hd q \<noteq> CHR ''/''"
  shows "normpath (''./'' @ q) = normpath q"
proof -
  have "initial_slashes q = 0" "initial_slashes (''./'' @ q) = 0"
    using assms by (cases q; simp add: initial_slashes_def starts_with_def)+
  then show ?thesis using assms(1)
    by (simp add: normpath_def Let_def push_component_def)
qed

lemma contains_sub_middle: "contains_sub (xs @ p @ ys) p"
proof (induction xs)
  case Nil
  show ?case
  proof (cases "p @ ys")
    case (Cons a list)
    have "starts_with (p @ ys) p" by (simp add: starts_with_def)
    with Cons show ?thesis by simp
  qed simp
qed simp

lemma lower_char_fixed:
  assumes "lower_char c = d" "d \<in> {CHR '':'', CHR ''/''}"
  shows "c = d"
proof (cases "is_upper_ascii c")
  case True
  then have "(of_char (lower_char c) :: nat) = of_char c + 32" "65 \<le> (of_char c :: nat)"
    by (simp_all add: lower_char_def is_upper_ascii_def less_eq_char_def)
  then show ?thesis using assms by auto
qed (use assms in \<open>simp add: lower_char_def\<close>)

lemma file_scheme_contains:
  assumes "starts_with (lower p) ''file://''"
  shows "contains_sub p ''://''"
proof -
  from assms obtain a b c d e f g r where p: "p = [a, b, c, d, e, f, g] @ r"
    and l: "lower_char e = CHR '':''" "lower_char f = CHR ''/''" "lower_char g = CHR ''/''"
    by (auto simp: starts_with_iff lower_def Cons_eq_map_conv map_eq_append_conv map_eq_Cons_conv)
  have "e = CHR '':''" "f = CHR ''/''" "g = CHR ''/''"
    by (rule lower_char_fixed [OF l(1)], simp, rule lower_char_fixed [OF l(2)], simp, rule lower_char_fixed [OF l(3)], simp)
  then have "p = [a, b, c, d] @ ''://'' @ r" by (simp add: p)
  then show ?thesis using contains_sub_middle [of "[a, b, c, d]" "''://''" r] by (simp only:)
qed

lemma strip_dot_slash:
  assumes "strip p = p" "p \<noteq> []"
  shows "strip (''./'' @ p) = ''./'' @ p"
proof -
  let ?two = "\<lambda>a b. wide2 b a" and ?three = "\<lambda>a b c. wide3 c b a"
  have r: "\<not> space_start ?two ?three (rev p)" using assms(1) by (simp only: strip_fixed_iff simp_thms)
  have "\<not> space_start ?two ?three (rev p @ [CHR ''/'', CHR ''.''])"
    using r assms(2) by (cases "(?two, ?three, rev p)" rule: space_start.cases) auto
  moreover have "\<not> space_start wide2 wide3 (''./'' @ p)" using assms(2) by (cases p) (simp_all add: is_space_def)
  ultimately show ?thesis by (simp add: strip_fixed_iff del: wide2_def wide3_def)
qed

text \<open>Two spellings of one reference have one identity: a leading \<open>./\<close> before a
  relative path changes neither the normal form nor the digest of the reference.
\<close>

theorem file_reference_dot_slash:
  assumes "p \<noteq> []" "strip p = p" "\<not> contains_sub p ''://''" "hd p \<noteq> CHR ''/''" "hd p \<noteq> CHR 0x5C"
  shows "normalize_source_uri (''./'' @ p) base = normalize_source_uri p base \<and>
    compute_file_reference_hash ident (''./'' @ p) off len base = compute_file_reference_hash ident p off len base"
proof -
  note nf = file_scheme_contains [of p]
  have f: "\<not> starts_with (lower p) ''file://''" using nf assms(3) by blast
  have f': "\<not> starts_with (lower (''./'' @ p)) ''file://''"
    by (simp add: starts_with_def lower_def lower_char_def is_upper_ascii_def)
  have c: "\<not> contains_sub (''./'' @ p) ''://''" using assms(3) by (simp add: starts_with_def)
  have "hd (backslash_to_slash p) \<noteq> CHR ''/''" using assms by (cases p) (auto simp: backslash_to_slash_def)
  then have "normpath (backslash_to_slash (''./'' @ p)) = normpath (backslash_to_slash p)"
    using normpath_dot_slash [of "backslash_to_slash p"] assms(1) by (simp add: backslash_to_slash_def)
  then have "normalize_reference (''./'' @ p) = normalize_reference p"
    using assms(1) f f' c assms(2, 3) strip_dot_slash [OF assms(2, 1)]
    by (simp add: normalize_reference_def Let_def)
  then have "normalize_source_uri (''./'' @ p) base = normalize_source_uri p base"
    using assms(1-3) f f' c strip_dot_slash [OF assms(2, 1)]
    by (cases base) (simp_all add: normalize_source_uri_def Let_def)
  then show ?thesis by (simp add: compute_file_reference_hash_def)
qed

lemma file_reference_dot_slash_witness:
  "normalize_source_uri ''./docs/a.txt'' (Some ''/srv'') = normalize_source_uri ''docs/a.txt'' (Some ''/srv'')"
proof -
  have "strip ''docs/a.txt'' = ''docs/a.txt''" "\<not> contains_sub ''docs/a.txt'' ''://''" by code_simp+
  from file_reference_dot_slash [OF _ this, of "Some ''/srv''"] show ?thesis by simp
qed

end
