(* ===== verification/Records.thy ===== *)
theory Records
  imports SourceUri JsonText Annotations
begin

text \<open>
  \<open>interchange/record.py\<close>: one record of any dialect is normalised to the canonical field
  set, collecting the problems it has, and validated. A raw record is a JSON object; the blob of a
  database row enters as its base64 text, which is what the function makes of it. A new random id
  is an argument. Exceptions that are not caught are values of \<open>rec_exn\<close>.
\<close>

datatype rec_exn = AnnotationExn ann_error | PyExn py_exn

type_synonym 'a rec_res = "rec_exn + 'a"

definition of_ann :: "'a ann \<Rightarrow> 'a rec_res" where
  "of_ann m = map_sum AnnotationExn id m"

definition of_py :: "py_exn + 'a \<Rightarrow> 'a rec_res" where
  "of_py m = map_sum PyExn id m"

definition VALID_TIERS :: "string list" where
  "VALID_TIERS = [''hot'', ''warm'', ''cold'']"

definition VALID_PROMOTION_STATES :: "string list" where
  "VALID_PROMOTION_STATES = [''HOT'', ''WARM'', ''READY'', ''PROMOTED'', ''COLD'', ''ARCHIVED'']"

definition VALID_MEMORY_TYPES :: "string list" where
  "VALID_MEMORY_TYPES = [''fact'', ''inline'', ''file'']"

definition KNOWN_FIELDS :: "string list" where
  "KNOWN_FIELDS = [''schema_version'', ''id'', ''identifier'', ''fact_text'', ''fact_summary'', ''memory_type'',
     ''embedding'', ''embedding_b64'', ''embedding_dim'', ''embedding_model'', ''source'', ''importance'',
     ''metadata'', ''metadata_json'', ''content_hash'', ''ttl_seconds'', ''created_at'', ''namespace'', ''tier'',
     ''tags'', ''related_memories'', ''parent_memory'', ''source_uri'', ''source_format'', ''source_checksum'',
     ''byte_offset'', ''byte_length'', ''updated_at'', ''snapshot_id'', ''promotion_state'',
     ''promotion_candidate'', ''provenance'', ''provenance_json'', ''record_schema_version'']"

definition UNKNOWN_KEY :: string where
  "UNKNOWN_KEY = ''_interchange_unknown''"

section \<open>Conversions\<close>

definition as_str :: "json \<Rightarrow> string \<Rightarrow> string" where
  "as_str v dflt = (if v = JNull then dflt else py_str v)"

text \<open>\<open>_as_int\<close> catches \<open>TypeError\<close> and \<open>ValueError\<close> only.\<close>

definition as_int :: "json \<Rightarrow> py_exn + int option" where
  "as_int v =
     (if v = JNull \<or> v = JStr [] \<or> is_bool v then Inr None
      else case py_int v of
        Inr i \<Rightarrow> Inr (Some i)
      | Inl e \<Rightarrow> (if e \<in> {TypeError, ValueError} then Inr None else Inl e))"

definition as_json :: "json \<Rightarrow> json \<Rightarrow> json" where
  "as_json v fallback = (case v of
     JStr s \<Rightarrow> (case loads s of Some x \<Rightarrow> x | None \<Rightarrow> fallback)
   | JNull \<Rightarrow> fallback
   | _ \<Rightarrow> v)"

definition append_issue :: "string \<Rightarrow> string list \<Rightarrow> string list" where
  "append_issue msg issues = (if msg \<in> set issues then issues else issues @ [msg])"

definition collect_issues :: "string list \<Rightarrow> string list" where
  "collect_issues msgs = fold append_issue msgs []"

definition issue :: "bool \<Rightarrow> string \<Rightarrow> string list" where
  "issue b msg = (if b then [msg] else [])"

definition non_integral_number :: "json \<Rightarrow> bool" where
  "non_integral_number v = (case v of JFloat f \<Rightarrow> \<not> f_is_integer f | _ \<Rightarrow> False)"

text \<open>A value is given when it is neither null nor the empty string.\<close>

definition given :: "json \<Rightarrow> bool" where
  "given v = (v \<noteq> JNull \<and> v \<noteq> JStr [])"

definition bad_number :: "(int \<Rightarrow> bool) \<Rightarrow> json \<Rightarrow> int option \<Rightarrow> bool" where
  "bad_number ok v i =
     (given v \<and> ((case i of None \<Rightarrow> True | Some n \<Rightarrow> \<not> ok n) \<or> non_integral_number v))"

section \<open>Fields\<close>

definition STR_FIELDS :: "string list" where
  "STR_FIELDS = [''id'', ''identifier'', ''fact_text'', ''fact_summary'', ''source'', ''namespace'',
     ''parent_memory'', ''source_uri'', ''source_format'', ''source_checksum'', ''created_at'', ''updated_at'',
     ''snapshot_id'', ''embedding_model'']"

definition str_issues :: "dict \<Rightarrow> string list" where
  "str_issues raw = concat (map (\<lambda>f. issue (dget raw f \<noteq> JNull \<and> \<not> is_str (dget raw f))
     (''invalid '' @ f @ '': expected string'')) STR_FIELDS)"

definition one_of_strings :: "string list \<Rightarrow> json \<Rightarrow> bool" where
  "one_of_strings xs v = (case v of JStr s \<Rightarrow> s \<in> set xs | _ \<Rightarrow> False)"

definition NONNEG :: string where "NONNEG = '': expected non-negative integer''"

definition quoted :: "string \<Rightarrow> string" where
  "quoted s = CHR 0x27 # s @ [CHR 0x27]"

definition memory_type_issues :: "json \<Rightarrow> string list" where
  "memory_type_issues v = issue (given v \<and> \<not> one_of_strings VALID_MEMORY_TYPES v)
     (''invalid memory_type: expected '' @ quoted ''fact'' @ '' or '' @ quoted ''file'')"

definition clamp_nonneg :: "int option \<Rightarrow> int" where
  "clamp_nonneg i = (case i of None \<Rightarrow> 0 | Some n \<Rightarrow> if n \<ge> 0 then n else 0)"

definition content_hash_of :: "dict \<Rightarrow> bool \<Rightarrow> int option \<Rightarrow> int option \<Rightarrow> py_exn + string" where
  "content_hash_of raw is_file off len =
     (let h = strip (as_str (dget raw ''content_hash'') []) in
      if h \<noteq> [] then Inr h
      else if is_file then
        compute_file_reference_hash (as_str (dget raw ''identifier'') []) (as_str (dget raw ''source_uri'') [])
          (clamp_nonneg off) (clamp_nonneg len) None
      else Inr (compute_content_hash (as_str (dget raw ''identifier'') []) (as_str (dget raw ''fact_text'') [])))"

definition raw_metadata :: "dict \<Rightarrow> json" where
  "raw_metadata raw = dget_default raw ''metadata'' (dget raw ''metadata_json'')"

definition metadata_issues :: "json \<Rightarrow> string list" where
  "metadata_issues v =
     (if \<not> given v then []
      else case v of
        JStr s \<Rightarrow> (case loads s of
            None \<Rightarrow> [''invalid metadata: malformed JSON'']
          | Some x \<Rightarrow> issue (x \<noteq> JNull \<and> \<not> is_dict x) ''invalid metadata: expected JSON object'')
      | _ \<Rightarrow> issue (\<not> is_dict v) ''invalid metadata: expected JSON object'')"

definition unknown_fields :: "dict \<Rightarrow> dict" where
  "unknown_fields raw = filter (\<lambda>(k, v). k \<notin> set KNOWN_FIELDS) raw"

definition metadata_of :: "dict \<Rightarrow> dict" where
  "metadata_of raw =
     (let m = (case as_json (raw_metadata raw) (JObj []) of JObj d \<Rightarrow> d | v \<Rightarrow> [(''value'', v)]);
          unknown = unknown_fields raw in
      if unknown = [] then m
      else AList.update UNKNOWN_KEY (JObj (dict_update (dict_of (dget m UNKNOWN_KEY)) unknown)) m)"

definition provenance_of :: "dict \<Rightarrow> json \<times> string list" where
  "provenance_of raw =
     (let v = dget_default raw ''provenance'' (dget raw ''provenance_json'');
          bad = ''invalid provenance: expected JSON object or null'' in
      if \<not> given v then (JNull, [])
      else case v of
        JStr s \<Rightarrow> (case loads s of
            None \<Rightarrow> (JNull, [''invalid provenance: malformed JSON''])
          | Some x \<Rightarrow> (x, issue (x \<noteq> JNull \<and> \<not> is_dict x) bad))
      | JObj d \<Rightarrow> (v, [])
      | _ \<Rightarrow> (JObj [(''value'', v)], [bad]))"

definition str_list_json :: "json \<Rightarrow> bool" where
  "str_list_json v = (case v of JList xs \<Rightarrow> list_all is_str xs | _ \<Rightarrow> False)"

definition list_issues :: "dict \<Rightarrow> string \<Rightarrow> string list" where
  "list_issues raw f =
     (let v = dget raw f; bad = ''invalid '' @ f @ '': expected list of strings'' in
      if \<not> given v then []
      else case v of
        JStr s \<Rightarrow> (case loads s of
            None \<Rightarrow> [''invalid '' @ f @ '': malformed JSON'']
          | Some x \<Rightarrow> issue (\<not> str_list_json x) bad)
      | _ \<Rightarrow> issue (\<not> str_list_json v) bad)"

definition list_of :: "dict \<Rightarrow> string \<Rightarrow> json" where
  "list_of raw f = (case as_json (dget raw f) (JList []) of JList xs \<Rightarrow> JList xs | _ \<Rightarrow> JList [])"

definition HALF :: pyfloat where "HALF = FDec 5 (- 1)"

definition unit_interval :: "pyfloat \<Rightarrow> bool" where
  "unit_interval f = (is_finite f \<and> \<not> flt f (FDec 0 0) \<and> \<not> flt (FDec 1 0) f)"

definition IMPORTANCE_ISSUE :: string where
  "IMPORTANCE_ISSUE = ''invalid importance: expected finite float in [0.0, 1.0]''"

definition importance_of :: "json \<Rightarrow> py_exn + pyfloat \<times> string list" where
  "importance_of v =
     (if \<not> given v then Inr (HALF, [])
      else if is_bool v then Inr (HALF, [IMPORTANCE_ISSUE])
      else case py_float v of
        Inr f \<Rightarrow> Inr (if is_finite f then f else HALF, issue (\<not> unit_interval f) IMPORTANCE_ISSUE)
      | Inl e \<Rightarrow> (if e \<in> {TypeError, ValueError} then Inr (HALF, [IMPORTANCE_ISSUE]) else Inl e))"

definition tier_of :: "json \<Rightarrow> string \<times> string list" where
  "tier_of v =
     (if given v then (as_str v ''hot'', issue (\<not> one_of_strings VALID_TIERS v)
        (''invalid tier: expected one of '' @ join_with '', '' (map quoted VALID_TIERS)))
      else (''hot'', []))"

definition PROMOTION_STATE_ISSUE :: string where
  "PROMOTION_STATE_ISSUE =
     ''invalid promotion_state: expected one of '' @ join_with '', '' (map quoted VALID_PROMOTION_STATES)"

definition promotion_candidate_of :: "json \<Rightarrow> py_exn + json \<times> string list" where
  "promotion_candidate_of v =
     (if \<not> given v then Inr (v, [])
      else case v of
        JBool b \<Rightarrow> Inr (JInt (if b then 1 else 0), [])
      | _ \<Rightarrow> rbind (as_int v) (\<lambda>i.
          if i \<notin> {Some 0, Some 1} \<or> non_integral_number v
          then Inr (v, [''invalid promotion_candidate: expected 0 or 1''])
          else Inr (JInt (the i), [])))"

definition version_issues :: "dict \<Rightarrow> string \<Rightarrow> py_exn + string list" where
  "version_issues raw k = rbind (as_int (dget raw k)) (\<lambda>i.
     Inr (issue (bad_number (\<lambda>n. n > 0) (dget raw k) i) (''invalid '' @ k @ '': expected positive integer'')))"

definition opt_int :: "int option \<Rightarrow> json" where
  "opt_int i = (case i of None \<Rightarrow> JNull | Some n \<Rightarrow> JInt n)"

definition int_or :: "int option \<Rightarrow> int \<Rightarrow> int" where
  "int_or i n = (case i of None \<Rightarrow> n | Some m \<Rightarrow> if m = 0 then n else m)"

section \<open>The normal form\<close>

record normalized =
  nr_fields :: dict
  nr_issues :: "string list"

definition canonical_fields ::
  "dict \<Rightarrow> string \<Rightarrow> string \<Rightarrow> int option \<Rightarrow> int option \<Rightarrow> string \<Rightarrow> pyfloat \<Rightarrow> int option \<Rightarrow> json
     \<Rightarrow> int option \<Rightarrow> int option \<Rightarrow> int option \<Rightarrow> dict" where
  "canonical_fields raw default_source fresh_id off len hash imp ttl cand dim sv rsv =
     (let g = dget raw in
      [(''schema_version'', JInt (int_or sv 1)),
       (''id'', JStr (if as_str (g ''id'') [] = [] then fresh_id else as_str (g ''id'') [])),
       (''identifier'', JStr (as_str (g ''identifier'') [])),
       (''fact_text'', JStr (as_str (g ''fact_text'') [])),
       (''fact_summary'', g ''fact_summary''),
       (''memory_type'', JStr (if g ''memory_type'' = JStr ''file'' then ''file'' else ''fact'')),
       (''embedding'', por (g ''embedding'') (por (g ''embedding_b64'') JNull)),
       (''embedding_dim'', opt_int dim),
       (''embedding_model'', g ''embedding_model''),
       (''source'', JStr (as_str (g ''source'') default_source)),
       (''importance'', JFloat imp),
       (''metadata'', JObj (metadata_of raw)),
       (''content_hash'', JStr hash),
       (''ttl_seconds'', opt_int ttl),
       (''created_at'', g ''created_at''),
       (''namespace'', JStr (as_str (g ''namespace'') [])),
       (''tier'', JStr (fst (tier_of (g ''tier'')))),
       (''tags'', list_of raw ''tags''),
       (''related_memories'', list_of raw ''related_memories''),
       (''parent_memory'', JStr (as_str (g ''parent_memory'') [])),
       (''source_uri'', JStr (as_str (g ''source_uri'') [])),
       (''source_format'', JStr (as_str (g ''source_format'') [])),
       (''source_checksum'', g ''source_checksum''),
       (''byte_offset'', opt_int off),
       (''byte_length'', opt_int len),
       (''updated_at'', g ''updated_at''),
       (''snapshot_id'', JStr (as_str (g ''snapshot_id'') [])),
       (''promotion_state'', g ''promotion_state''),
       (''promotion_candidate'', cand),
       (''provenance'', fst (provenance_of raw)),
       (''record_schema_version'', opt_int rsv)])"

definition field_issues ::
  "dict \<Rightarrow> int option \<Rightarrow> int option \<Rightarrow> string list \<Rightarrow> int option \<Rightarrow> string list \<Rightarrow> string list \<Rightarrow> string list
     \<Rightarrow> int option \<Rightarrow> string list" where
  "field_issues raw off len imp_issues ttl cand_issues sv_issues rsv_issues dim =
     (let g = dget raw in
      str_issues raw @ memory_type_issues (g ''memory_type'')
      @ issue (bad_number (\<lambda>n. n \<ge> 0) (g ''byte_offset'') off) (''invalid byte_offset'' @ NONNEG)
      @ issue (bad_number (\<lambda>n. n \<ge> 0) (g ''byte_length'') len) (''invalid byte_length'' @ NONNEG)
      @ metadata_issues (raw_metadata raw) @ snd (provenance_of raw)
      @ list_issues raw ''tags'' @ list_issues raw ''related_memories'' @ imp_issues
      @ issue (bad_number (\<lambda>n. n > 0) (g ''ttl_seconds'') ttl) ''invalid ttl_seconds: expected positive integer or null''
      @ snd (tier_of (g ''tier''))
      @ issue (given (g ''promotion_state'') \<and> \<not> one_of_strings VALID_PROMOTION_STATES (g ''promotion_state''))
          PROMOTION_STATE_ISSUE
      @ cand_issues @ sv_issues @ rsv_issues
      @ issue (bad_number (\<lambda>n. n > 0) (g ''embedding_dim'') dim) ''invalid embedding_dim: expected positive integer'')"

definition normalize_record :: "dict \<Rightarrow> string \<Rightarrow> string \<Rightarrow> normalized rec_res" where
  "normalize_record raw default_source fresh_id =
     (let g = dget raw in
      rbind (of_py (as_int (g ''byte_offset''))) (\<lambda>off.
      rbind (of_py (as_int (g ''byte_length''))) (\<lambda>len.
      rbind (of_py (content_hash_of raw (g ''memory_type'' = JStr ''file'') off len)) (\<lambda>hash.
      rbind (of_ann (validate_metadata (JObj (metadata_of raw)) None)) (\<lambda>_.
      rbind (of_py (importance_of (g ''importance''))) (\<lambda>imp.
      rbind (of_py (as_int (g ''ttl_seconds''))) (\<lambda>ttl.
      rbind (of_py (promotion_candidate_of (g ''promotion_candidate''))) (\<lambda>cand.
      rbind (of_py (version_issues raw ''schema_version'')) (\<lambda>sv_issues.
      rbind (of_py (version_issues raw ''record_schema_version'')) (\<lambda>rsv_issues.
      rbind (of_py (as_int (g ''embedding_dim''))) (\<lambda>dim.
      rbind (of_py (as_int (g ''schema_version''))) (\<lambda>sv.
      rbind (of_py (as_int (g ''record_schema_version''))) (\<lambda>rsv.
      Inr \<lparr>nr_fields = canonical_fields raw default_source fresh_id off len hash (fst imp) ttl (fst cand) dim sv rsv,
           nr_issues = collect_issues
             (field_issues raw off len (snd imp) ttl (snd cand) sv_issues rsv_issues dim)\<rparr>)))))))))))))"

section \<open>Validation\<close>

text \<open>\<open>isinstance(v, bool) or not isinstance(v, int) or v < lo\<close>, for a value that is not null.\<close>

definition bad_int :: "int \<Rightarrow> json \<Rightarrow> bool" where
  "bad_int lo v = (v \<noteq> JNull \<and> (case v of JInt i \<Rightarrow> i < lo | _ \<Rightarrow> True))"

definition offset_issues :: "dict \<Rightarrow> string list" where
  "offset_issues r = issue (bad_int 0 (dget r ''byte_offset'')) (''invalid byte_offset'' @ NONNEG)"

definition kind_issues :: "dict \<Rightarrow> string list" where
  "kind_issues r =
     (if dget_default r ''memory_type'' (JStr ''fact'') = JStr ''file'' then
        issue (\<not> truthy (dget r ''source_uri'')) ''file-backed record is missing source_uri''
        @ (if dget r ''byte_length'' = JNull then [''file-backed record is missing byte_length'']
           else issue (bad_int 0 (dget r ''byte_length'')) (''invalid byte_length'' @ NONNEG @ '' for file record''))
        @ offset_issues r
      else
        issue (\<not> truthy (dget r ''fact_text'') \<and> \<not> truthy (dget r ''fact_summary''))
          ''inline record has no fact_text and no fact_summary''
        @ offset_issues r
        @ issue (bad_int 0 (dget r ''byte_length'')) (''invalid byte_length'' @ NONNEG))"

definition importance_issues :: "json \<Rightarrow> py_exn + string list" where
  "importance_issues v =
     (if v = JNull then Inr []
      else if is_int v \<or> is_float v then rbind (py_float v) (\<lambda>f. Inr (issue (\<not> unit_interval f) IMPORTANCE_ISSUE))
      else Inr [IMPORTANCE_ISSUE])"

definition hashable :: "json \<Rightarrow> bool" where
  "hashable v = (\<not> is_list v \<and> \<not> is_dict v)"

definition validate_record :: "normalized \<Rightarrow> py_exn + string list" where
  "validate_record n =
     (let r = nr_fields n; g = dget r; mt = dget_default r ''memory_type'' (JStr ''fact'');
          cand = g ''promotion_candidate'' in
      if \<not> hashable mt then Inl TypeError
      else rbind (importance_issues (g ''importance'')) (\<lambda>imp_issues.
      Inr (fold append_issue (
        issue (\<not> truthy (g ''identifier'') \<and> \<not> truthy (g ''fact_text'')) ''record has neither identifier nor fact_text''
        @ issue (\<not> one_of_strings VALID_MEMORY_TYPES mt)
            (''invalid memory_type: expected '' @ quoted ''fact'' @ '' or '' @ quoted ''file'')
        @ kind_issues r @ imp_issues
        @ issue (bad_int 1 (g ''ttl_seconds'')) ''invalid ttl_seconds: expected positive integer or null''
        @ issue (given (g ''tier'') \<and> \<not> one_of_strings VALID_TIERS (g ''tier''))
            (''invalid tier: expected one of '' @ join_with '', '' (map quoted VALID_TIERS))
        @ issue (given (g ''promotion_state'') \<and> \<not> one_of_strings VALID_PROMOTION_STATES (g ''promotion_state''))
            PROMOTION_STATE_ISSUE
        @ issue (given cand \<and> \<not> (json_eq cand (JInt 0) \<or> json_eq cand (JInt 1)))
            ''invalid promotion_candidate: expected 0 or 1''
        @ issue (bad_int 1 (g ''schema_version'')) ''invalid schema_version: expected positive integer''
        @ issue (bad_int 1 (g ''record_schema_version'')) ''invalid record_schema_version: expected positive integer''
        @ issue (g ''metadata'' \<noteq> JNull \<and> \<not> is_dict (g ''metadata'')) ''invalid metadata: expected JSON object''
        @ issue (g ''provenance'' \<noteq> JNull \<and> \<not> is_dict (g ''provenance''))
            ''invalid provenance: expected JSON object or null''
        @ issue (g ''tags'' \<noteq> JNull \<and> \<not> str_list_json (g ''tags'')) ''invalid tags: expected list of strings''
        @ issue (g ''related_memories'' \<noteq> JNull \<and> \<not> str_list_json (g ''related_memories''))
            ''invalid related_memories: expected list of strings''
        @ issue (\<not> truthy (g ''content_hash'')) ''record is missing content_hash'') (nr_issues n))))"

end
