(* ===== verification/Fingerprint.thy ===== *)
theory Fingerprint
  imports Records "HOL-Library.Multiset"
begin

text \<open>
  \<open>interchange/fingerprint.py\<close> and the canonical serialisation of \<open>interchange/canonical.py\<close>:
  the state fingerprint of a record and of a collection, and the lineage fingerprint that also covers
  the relationship fields. The main facts are that normalisation is idempotent, so that a raw row and
  its normalised record have the same fingerprint, and that collection fingerprints do not depend on
  the order of the rows.
\<close>

section \<open>Canonical serialisation\<close>

fun finite_json :: "json \<Rightarrow> bool" where
  "finite_json (JFloat f) = is_finite f"
| "finite_json (JList xs) = list_all finite_json xs"
| "finite_json (JObj d) = list_all (\<lambda>(k, v). finite_json v) d"
| "finite_json _ = True"

text \<open>\<open>allow_nan=False\<close>: a NaN or an infinity anywhere raises \<open>ValueError\<close>.\<close>

definition canonical_dumps :: "json \<Rightarrow> py_exn + string" where
  "canonical_dumps v = (if finite_json v then Inr (dumps False v) else Inl ValueError)"

definition canonical_line :: "json \<Rightarrow> py_exn + string" where
  "canonical_line v = rbind (canonical_dumps v) (\<lambda>s. Inr (s @ [CHR 0x0A]))"

section \<open>Fingerprints\<close>

definition FINGERPRINT_FIELDS :: "string list" where
  "FINGERPRINT_FIELDS = [''schema_version'', ''identifier'', ''fact_text'', ''fact_summary'', ''memory_type'',
     ''source'', ''importance'', ''metadata'', ''content_hash'', ''ttl_seconds'', ''created_at'', ''namespace'',
     ''tier'', ''tags'', ''source_uri'', ''source_format'', ''source_checksum'', ''byte_offset'',
     ''byte_length'', ''provenance'', ''promotion_state'', ''promotion_candidate'']"

definition fingerprint_state :: "dict \<Rightarrow> dict" where
  "fingerprint_state n =
     AList.update ''schema_version'' (por (dget n ''record_schema_version'') (dget n ''schema_version''))
       (map (\<lambda>f. (f, dget n f)) FINGERPRINT_FIELDS)"

definition canonical_fingerprint_state :: "dict \<Rightarrow> py_exn + string" where
  "canonical_fingerprint_state n = canonical_dumps (JObj (fingerprint_state n))"

definition fingerprint_of_normalized :: "dict \<Rightarrow> py_exn + string" where
  "fingerprint_of_normalized n =
     rbind (canonical_fingerprint_state n) (\<lambda>c. Inr (sha256_hex (''v1:'' @ c)))"

definition record_fingerprint :: "dict \<Rightarrow> string \<Rightarrow> string rec_res" where
  "record_fingerprint row fresh_id =
     rbind (normalize_record row ''swap'' fresh_id) (\<lambda>n. of_py (fingerprint_of_normalized (nr_fields n)))"

definition state_fingerprint_from_list :: "string list \<Rightarrow> string" where
  "state_fingerprint_from_list fps = sha256_hex (concat (sort fps))"

definition state_fingerprint :: "(dict \<times> string) list \<Rightarrow> string rec_res" where
  "state_fingerprint rows =
     rbind (traverse (\<lambda>(row, fresh_id). record_fingerprint row fresh_id) rows) (\<lambda>fps.
       Inr (state_fingerprint_from_list fps))"

definition relationship_state :: "dict \<Rightarrow> json" where
  "relationship_state n =
     JObj [(''parent_memory'', dget n ''parent_memory''), (''related_memories'', dget n ''related_memories'')]"

definition lineage_of_normalized :: "dict \<Rightarrow> py_exn + string" where
  "lineage_of_normalized n =
     rbind (fingerprint_of_normalized n) (\<lambda>base.
     rbind (canonical_dumps (relationship_state n)) (\<lambda>c.
     Inr (sha256_hex (''lineage-v1:'' @ base @ '':'' @ c))))"

definition lineage_record_fingerprint :: "dict \<Rightarrow> string \<Rightarrow> string rec_res" where
  "lineage_record_fingerprint row fresh_id =
     rbind (normalize_record row ''swap'' fresh_id) (\<lambda>n. of_py (lineage_of_normalized (nr_fields n)))"

text \<open>A row whose annotations are invalid is skipped; any other exception ends the loop.\<close>

fun lineage_fingerprints :: "(dict \<times> string) list \<Rightarrow> string list rec_res" where
  "lineage_fingerprints [] = Inr []"
| "lineage_fingerprints ((row, fresh_id) # rows) =
     (case lineage_record_fingerprint row fresh_id of
        Inl (AnnotationExn (AnnotationValidationError p r)) \<Rightarrow> lineage_fingerprints rows
      | Inl e \<Rightarrow> Inl e
      | Inr fp \<Rightarrow> rbind (lineage_fingerprints rows) (\<lambda>fps. Inr (fp # fps)))"

definition lineage_fingerprint :: "(dict \<times> string) list \<Rightarrow> string rec_res" where
  "lineage_fingerprint rows =
     rbind (lineage_fingerprints rows) (\<lambda>fps. Inr (state_fingerprint_from_list fps))"

section \<open>Normalisation is idempotent\<close>

lemma of_py_eq [simp]:
  "of_py m = Inr x \<longleftrightarrow> m = Inr x" "of_py (Inr x) = Inr x"
  by (cases m; simp add: of_py_def)+

lemma of_ann_eq [simp]: "of_ann m = Inr x \<longleftrightarrow> m = Inr x" "of_ann (Inr x) = Inr x"
  by (cases m; simp add: of_ann_def)+

lemma strip_sha256 [simp]: "strip (sha256_hex s) = sha256_hex s"
  by (rule no_space_strip) (use sha256_hex_digits in \<open>fastforce simp: is_space_def\<close>)

lemma as_str_JStr [simp]: "as_str (JStr s) d = s"
  by (simp add: as_str_def py_str_def)

lemma as_int_opt_int [simp]: "as_int (opt_int i) = Inr i"
  by (cases i) (simp_all add: as_int_def opt_int_def py_int_def)

lemma dget_Cons [simp]: "dget ((k, v) # d) k' = (if k' = k then v else dget d k')"
  by (simp add: dget_def)

lemma dget_default_Cons [simp]: "dget_default ((k, v) # d) k' x = (if k' = k then v else dget_default d k' x)"
  by (simp add: dget_default_def)

lemma dget_Nil [simp]: "dget [] k = JNull"
  by (simp add: dget_def)

lemma dget_default_Nil [simp]: "dget_default [] k x = x"
  by (simp add: dget_default_def)

text \<open>The normal form has every field; these are the lookups.\<close>

lemma canonical_get [simp]:
  "dget (canonical_fields raw ds fid off len hash imp ttl cand dim sv rsv) ''schema_version'' = JInt (int_or sv 1)"
  "dget (canonical_fields raw ds fid off len hash imp ttl cand dim sv rsv) ''id'' = JStr (if as_str (dget raw ''id'') [] = [] then fid else as_str (dget raw ''id'') [])"
  "dget (canonical_fields raw ds fid off len hash imp ttl cand dim sv rsv) ''identifier'' = JStr (as_str (dget raw ''identifier'') [])"
  "dget (canonical_fields raw ds fid off len hash imp ttl cand dim sv rsv) ''fact_text'' = JStr (as_str (dget raw ''fact_text'') [])"
  "dget (canonical_fields raw ds fid off len hash imp ttl cand dim sv rsv) ''fact_summary'' = dget raw ''fact_summary''"
  "dget (canonical_fields raw ds fid off len hash imp ttl cand dim sv rsv) ''memory_type'' = JStr (if dget raw ''memory_type'' = JStr ''file'' then ''file'' else ''fact'')"
  "dget (canonical_fields raw ds fid off len hash imp ttl cand dim sv rsv) ''embedding'' = por (dget raw ''embedding'') (por (dget raw ''embedding_b64'') JNull)"
  "dget (canonical_fields raw ds fid off len hash imp ttl cand dim sv rsv) ''embedding_b64'' = JNull"
  "dget (canonical_fields raw ds fid off len hash imp ttl cand dim sv rsv) ''embedding_dim'' = opt_int dim"
  "dget (canonical_fields raw ds fid off len hash imp ttl cand dim sv rsv) ''embedding_model'' = dget raw ''embedding_model''"
  "dget (canonical_fields raw ds fid off len hash imp ttl cand dim sv rsv) ''source'' = JStr (as_str (dget raw ''source'') ds)"
  "dget (canonical_fields raw ds fid off len hash imp ttl cand dim sv rsv) ''importance'' = JFloat imp"
  "dget (canonical_fields raw ds fid off len hash imp ttl cand dim sv rsv) ''metadata'' = JObj (metadata_of raw)"
  "dget (canonical_fields raw ds fid off len hash imp ttl cand dim sv rsv) ''content_hash'' = JStr hash"
  "dget (canonical_fields raw ds fid off len hash imp ttl cand dim sv rsv) ''ttl_seconds'' = opt_int ttl"
  "dget (canonical_fields raw ds fid off len hash imp ttl cand dim sv rsv) ''created_at'' = dget raw ''created_at''"
  "dget (canonical_fields raw ds fid off len hash imp ttl cand dim sv rsv) ''namespace'' = JStr (as_str (dget raw ''namespace'') [])"
  "dget (canonical_fields raw ds fid off len hash imp ttl cand dim sv rsv) ''tier'' = JStr (fst (tier_of (dget raw ''tier'')))"
  "dget (canonical_fields raw ds fid off len hash imp ttl cand dim sv rsv) ''tags'' = list_of raw ''tags''"
  "dget (canonical_fields raw ds fid off len hash imp ttl cand dim sv rsv) ''related_memories'' = list_of raw ''related_memories''"
  "dget (canonical_fields raw ds fid off len hash imp ttl cand dim sv rsv) ''parent_memory'' = JStr (as_str (dget raw ''parent_memory'') [])"
  "dget (canonical_fields raw ds fid off len hash imp ttl cand dim sv rsv) ''source_uri'' = JStr (as_str (dget raw ''source_uri'') [])"
  "dget (canonical_fields raw ds fid off len hash imp ttl cand dim sv rsv) ''source_format'' = JStr (as_str (dget raw ''source_format'') [])"
  "dget (canonical_fields raw ds fid off len hash imp ttl cand dim sv rsv) ''source_checksum'' = dget raw ''source_checksum''"
  "dget (canonical_fields raw ds fid off len hash imp ttl cand dim sv rsv) ''byte_offset'' = opt_int off"
  "dget (canonical_fields raw ds fid off len hash imp ttl cand dim sv rsv) ''byte_length'' = opt_int len"
  "dget (canonical_fields raw ds fid off len hash imp ttl cand dim sv rsv) ''updated_at'' = dget raw ''updated_at''"
  "dget (canonical_fields raw ds fid off len hash imp ttl cand dim sv rsv) ''snapshot_id'' = JStr (as_str (dget raw ''snapshot_id'') [])"
  "dget (canonical_fields raw ds fid off len hash imp ttl cand dim sv rsv) ''promotion_state'' = dget raw ''promotion_state''"
  "dget (canonical_fields raw ds fid off len hash imp ttl cand dim sv rsv) ''promotion_candidate'' = cand"
  "dget (canonical_fields raw ds fid off len hash imp ttl cand dim sv rsv) ''provenance'' = fst (provenance_of raw)"
  "dget (canonical_fields raw ds fid off len hash imp ttl cand dim sv rsv) ''record_schema_version'' = opt_int rsv"
  unfolding canonical_fields_def Let_def by (simp_all only: dget_Cons dget_Nil if_True if_False refl) simp_all

lemma canonical_get_default [simp]:
  "dget_default (canonical_fields raw ds fid off len hash imp ttl cand dim sv rsv) ''metadata'' x = JObj (metadata_of raw)"
  "dget_default (canonical_fields raw ds fid off len hash imp ttl cand dim sv rsv) ''provenance'' x = fst (provenance_of raw)"
  "dget_default (canonical_fields raw ds fid off len hash imp ttl cand dim sv rsv) ''memory_type'' x = JStr (if dget raw ''memory_type'' = JStr ''file'' then ''file'' else ''fact'')"
  unfolding canonical_fields_def Let_def by simp_all

lemma known_canonical: "unknown_fields (canonical_fields raw ds fid off len hash imp ttl cand dim sv rsv) = []"
  by (simp add: unknown_fields_def canonical_fields_def KNOWN_FIELDS_def Let_def)

lemma metadata_canonical:
  "metadata_of (canonical_fields raw ds fid off len hash imp ttl cand dim sv rsv) = metadata_of raw"
proof -
  let ?c = "canonical_fields raw ds fid off len hash imp ttl cand dim sv rsv"
  have "raw_metadata ?c = JObj (metadata_of raw)"
    by (simp add: raw_metadata_def)
  then show ?thesis
    by (simp only: metadata_of_def [of ?c] known_canonical) (simp add: as_json_def)
qed

lemma collect_issues_Nil: "collect_issues msgs = [] \<longleftrightarrow> msgs = []"
proof -
  have "issues \<noteq> [] \<Longrightarrow> fold append_issue ms issues \<noteq> []" for ms issues
    by (induction ms arbitrary: issues) (auto simp: append_issue_def)
  then show ?thesis by (cases msgs) (auto simp: collect_issues_def append_issue_def)
qed

lemma issue_Nil [simp]: "issue b m = [] \<longleftrightarrow> \<not> b"
  by (simp add: issue_def)

lemma given_JStr [simp]: "given (JStr s) \<longleftrightarrow> s \<noteq> []"
  by (simp add: given_def)

lemma given_JInt [simp]: "given (JInt i)"
  by (simp add: given_def)

lemma provenance_clean:
  "snd (provenance_of raw) = [] \<Longrightarrow> fst (provenance_of raw) = JNull \<or> is_dict (fst (provenance_of raw))"
  by (auto simp: provenance_of_def Let_def split: if_splits json.splits option.splits)

lemma is_dict_iff: "is_dict v \<longleftrightarrow> (\<exists>d. v = JObj d)"
  by (cases v) auto

lemma provenance_canonical:
  assumes "snd (provenance_of raw) = []"
  shows "provenance_of (canonical_fields raw ds fid off len hash imp ttl cand dim sv rsv) = (fst (provenance_of raw), [])"
proof -
  let ?c = "canonical_fields raw ds fid off len hash imp ttl cand dim sv rsv"
  have "dget_default ?c ''provenance'' (dget ?c ''provenance_json'') = fst (provenance_of raw)"
    by simp
  then show ?thesis using provenance_clean [OF assms]
    by (subst provenance_of_def) (auto simp: given_def is_dict_iff Let_def)
qed

lemma list_of_JList: "\<exists>xs. list_of raw f = JList xs"
  by (auto simp: list_of_def split: json.splits)

lemma list_of_canonical:
  "f \<in> {''tags'', ''related_memories''} \<Longrightarrow>
     list_of (canonical_fields raw ds fid off len hash imp ttl cand dim sv rsv) f = list_of raw f"
  using list_of_JList [of raw "''tags''"] list_of_JList [of raw "''related_memories''"]
  by (subst list_of_def) (auto simp: as_json_def)

lemma tier_idem: "snd (tier_of v) = [] \<Longrightarrow> tier_of (JStr (fst (tier_of v))) = (fst (tier_of v), [])"
  by (cases v) (auto simp: tier_of_def given_def as_str_def py_str_def one_of_strings_def VALID_TIERS_def)

lemma importance_idem:
  "importance_of v = Inr (f, []) \<Longrightarrow> importance_of (JFloat f) = Inr (f, [])"
proof -
  have "unit_interval HALF" by (simp add: HALF_def unit_interval_def is_finite_def flt_def dec_le_def)
  moreover have "unit_interval g \<Longrightarrow> is_finite g" for g by (simp add: unit_interval_def)
  moreover assume "importance_of v = Inr (f, [])"
  ultimately have "unit_interval f"
    by (auto simp: importance_of_def split: if_splits sum.splits)
  then show ?thesis by (auto simp: importance_of_def given_def py_float_def unit_interval_def)
qed

lemma promotion_candidate_idem:
  "promotion_candidate_of v = Inr (c, []) \<Longrightarrow> promotion_candidate_of c = Inr (c, [])"
  by (cases v) (auto simp: promotion_candidate_of_def given_def rbind_eq_Inr as_int_def py_int_def
      non_integral_number_def split: if_splits)

lemma content_hash_strip:
  "content_hash_of raw is_file off len = Inr h \<Longrightarrow> strip h = h"
  by (auto simp: content_hash_of_def Let_def strip_idem compute_content_hash_def compute_file_reference_hash_def
      rbind_eq_Inr split: if_splits)

lemma content_hash_canonical:
  assumes "content_hash_of raw (dget raw ''memory_type'' = JStr ''file'') off len = Inr hash"
  shows "content_hash_of (canonical_fields raw ds fid off len hash imp ttl cand dim sv rsv)
    (dget raw ''memory_type'' = JStr ''file'') off len = Inr hash"
proof (cases "hash = []")
  case False
  then show ?thesis using content_hash_strip [OF assms]
    by (simp add: content_hash_of_def Let_def)
next
  case True
  have e: "strip (as_str (dget raw ''content_hash'') []) = []" "strip [] = []"
    using assms True by (auto simp: content_hash_of_def Let_def split: if_splits)
  show ?thesis using assms True
    by (auto simp: content_hash_of_def Let_def e split: if_splits)
qed

lemma str_issues_clean:
  "str_issues raw = [] \<Longrightarrow> f \<in> set STR_FIELDS \<Longrightarrow> dget raw f = JNull \<or> is_str (dget raw f)"
  by (auto simp: str_issues_def)

lemma str_issues_canonical:
  assumes "str_issues raw = []"
  shows "str_issues (canonical_fields raw ds fid off len hash imp ttl cand dim sv rsv) = []"
proof -
  have "f \<in> set STR_FIELDS" if "f = ''fact_summary'' \<or> f = ''source_checksum'' \<or> f = ''created_at''
      \<or> f = ''updated_at'' \<or> f = ''embedding_model''" for f
    using that by (elim disjE; simp add: STR_FIELDS_def)
  note str_issues_clean [OF assms this]
  then have "\<not> (dget raw f \<noteq> JNull \<and> \<not> is_str (dget raw f))" if "f = ''fact_summary'' \<or> f = ''source_checksum''
      \<or> f = ''created_at'' \<or> f = ''updated_at'' \<or> f = ''embedding_model''" for f
    using that by blast
  note c = this [OF disjI1, OF refl] this [OF disjI2, OF disjI1, OF refl] this [OF disjI2, OF disjI2, OF disjI1, OF refl]
    this [OF disjI2, OF disjI2, OF disjI2, OF disjI1, OF refl] this [OF disjI2, OF disjI2, OF disjI2, OF disjI2, OF refl]
  show ?thesis unfolding str_issues_def STR_FIELDS_def issue_def
    by (simp only: list.map canonical_get concat.simps append_Nil c if_False append_Nil2) simp
qed

lemma bad_number_opt_int: "\<not> bad_number ok v i \<Longrightarrow> given v \<or> i = None \<Longrightarrow> \<not> bad_number ok (opt_int i) i"
  by (cases i) (auto simp: bad_number_def opt_int_def given_def non_integral_number_def)

lemma as_int_given: "as_int v = Inr i \<Longrightarrow> given v \<or> i = None"
  by (auto simp: as_int_def given_def split: if_splits)

lemma version_idem:
  "version_issues raw k = Inr [] \<Longrightarrow> as_int (dget raw k) = Inr i \<Longrightarrow> \<not> bad_number (\<lambda>n. n > 0) (dget raw k) i"
  by (simp add: version_issues_def)

lemma version_idem_opt:
  "version_issues raw k = Inr [] \<Longrightarrow> as_int (dget raw k) = Inr i \<Longrightarrow> \<not> bad_number (\<lambda>n. n > 0) (opt_int i) i"
  by (rule bad_number_opt_int [OF version_idem as_int_given])

lemma version_idem_or:
  assumes "version_issues raw k = Inr []" "as_int (dget raw k) = Inr i"
  shows "\<not> bad_number (\<lambda>n. n > 0) (JInt (int_or i 1)) (Some (int_or i 1))"
  using version_idem [OF assms] as_int_given [OF assms(2)]
  by (cases i) (auto simp: bad_number_def int_or_def non_integral_number_def)

lemma loads_Nil [simp]: "loads [] = None"
  by code_simp

lemma list_issues_clean: "list_issues raw f = [] \<Longrightarrow> str_list_json (list_of raw f)"
  by (cases "dget raw f")
    (auto simp: list_issues_def list_of_def as_json_def given_def str_list_json_def Let_def
      split: option.splits json.splits if_splits)

lemma list_issues_canonical:
  assumes "list_issues raw f = []" "f \<in> {''tags'', ''related_memories''}"
  shows "list_issues (canonical_fields raw ds fid off len hash imp ttl cand dim sv rsv) f = []"
proof -
  obtain xs where "list_of raw f = JList xs" using list_of_JList by blast
  moreover have "dget (canonical_fields raw ds fid off len hash imp ttl cand dim sv rsv) f = list_of raw f"
    using assms(2) by auto
  ultimately show ?thesis using list_issues_clean [OF assms(1)]
    by (simp add: list_issues_def Let_def issue_def)
qed

lemma memory_type_issues_canonical [simp]:
  "memory_type_issues (JStr (if b then ''file'' else ''fact'')) = []"
  by (simp add: memory_type_issues_def one_of_strings_def VALID_MEMORY_TYPES_def)

lemma metadata_issues_dict [simp]: "metadata_issues (JObj d) = []"
  by (simp add: metadata_issues_def issue_def)

text \<open>What a successful normalisation without issues has established.\<close>

lemma normalize_cleanE:
  assumes "normalize_record raw ds fid = Inr n" "nr_issues n = []"
  obtains off len hash imp ttl cand dim sv rsv where
    "as_int (dget raw ''byte_offset'') = Inr off" "as_int (dget raw ''byte_length'') = Inr len"
    "content_hash_of raw (dget raw ''memory_type'' = JStr ''file'') off len = Inr hash"
    "validate_metadata (JObj (metadata_of raw)) None = Inr ()"
    "importance_of (dget raw ''importance'') = Inr (imp, [])" "as_int (dget raw ''ttl_seconds'') = Inr ttl"
    "promotion_candidate_of (dget raw ''promotion_candidate'') = Inr (cand, [])"
    "version_issues raw ''schema_version'' = Inr []" "version_issues raw ''record_schema_version'' = Inr []"
    "as_int (dget raw ''embedding_dim'') = Inr dim" "as_int (dget raw ''schema_version'') = Inr sv"
    "as_int (dget raw ''record_schema_version'') = Inr rsv"
    "n = \<lparr>nr_fields = canonical_fields raw ds fid off len hash imp ttl cand dim sv rsv, nr_issues = []\<rparr>"
    "field_issues raw off len [] ttl [] [] [] dim = []"
proof -
  from assms(1) obtain off len hash imp imp_i ttl cand cand_i sv_i rsv_i dim sv rsv where
    f: "as_int (dget raw ''byte_offset'') = Inr off" "as_int (dget raw ''byte_length'') = Inr len"
      "content_hash_of raw (dget raw ''memory_type'' = JStr ''file'') off len = Inr hash"
      "validate_metadata (JObj (metadata_of raw)) None = Inr ()"
      "importance_of (dget raw ''importance'') = Inr (imp, imp_i)" "as_int (dget raw ''ttl_seconds'') = Inr ttl"
      "promotion_candidate_of (dget raw ''promotion_candidate'') = Inr (cand, cand_i)"
      "version_issues raw ''schema_version'' = Inr sv_i" "version_issues raw ''record_schema_version'' = Inr rsv_i"
      "as_int (dget raw ''embedding_dim'') = Inr dim" "as_int (dget raw ''schema_version'') = Inr sv"
      "as_int (dget raw ''record_schema_version'') = Inr rsv"
    and n: "n = \<lparr>nr_fields = canonical_fields raw ds fid off len hash imp ttl cand dim sv rsv,
      nr_issues = collect_issues (field_issues raw off len imp_i ttl cand_i sv_i rsv_i dim)\<rparr>"
    by (auto simp: normalize_record_def Let_def rbind_eq_Inr)
  have c: "field_issues raw off len imp_i ttl cand_i sv_i rsv_i dim = []"
    using assms(2) by (simp add: n collect_issues_Nil)
  then have e: "imp_i = []" "cand_i = []" "sv_i = []" "rsv_i = []"
    by (simp_all add: field_issues_def Let_def)
  show ?thesis
    by (rule that [OF f(1-4) f(5) [unfolded e] f(6) f(7) [unfolded e] f(8) [unfolded e] f(9) [unfolded e] f(10-12)])
      (use n c in \<open>simp_all add: e collect_issues_def\<close>)
qed

lemma field_issues_clean:
  assumes "field_issues raw off len [] ttl [] [] [] dim = []"
  shows "str_issues raw = []" "snd (provenance_of raw) = []" "snd (tier_of (dget raw ''tier'')) = []"
    "\<not> bad_number (\<lambda>n. n \<ge> 0) (dget raw ''byte_offset'') off" "\<not> bad_number (\<lambda>n. n \<ge> 0) (dget raw ''byte_length'') len"
    "\<not> bad_number (\<lambda>n. n > 0) (dget raw ''ttl_seconds'') ttl" "\<not> bad_number (\<lambda>n. n > 0) (dget raw ''embedding_dim'') dim"
    "list_issues raw ''tags'' = []" "list_issues raw ''related_memories'' = []"
    "\<not> (given (dget raw ''promotion_state'') \<and> \<not> one_of_strings VALID_PROMOTION_STATES (dget raw ''promotion_state''))"
  using assms by (simp_all add: field_issues_def Let_def)

lemma normalize_idempotent:
  assumes "normalize_record raw ds fid = Inr n" "nr_issues n = []" "fid \<noteq> []"
  shows "normalize_record (nr_fields n) ds' fid' = Inr n"
proof (rule normalize_cleanE [OF assms(1, 2)])
  fix off len hash imp ttl cand dim sv rsv
  assume off: "as_int (dget raw ''byte_offset'') = Inr off" and len: "as_int (dget raw ''byte_length'') = Inr len"
    and hash: "content_hash_of raw (dget raw ''memory_type'' = JStr ''file'') off len = Inr hash"
    and meta: "validate_metadata (JObj (metadata_of raw)) None = Inr ()"
    and imp: "importance_of (dget raw ''importance'') = Inr (imp, [])"
    and ttl: "as_int (dget raw ''ttl_seconds'') = Inr ttl"
    and cand: "promotion_candidate_of (dget raw ''promotion_candidate'') = Inr (cand, [])"
    and svi: "version_issues raw ''schema_version'' = Inr []"
    and rsvi: "version_issues raw ''record_schema_version'' = Inr []"
    and dim: "as_int (dget raw ''embedding_dim'') = Inr dim"
    and sv: "as_int (dget raw ''schema_version'') = Inr sv"
    and rsv: "as_int (dget raw ''record_schema_version'') = Inr rsv"
    and n: "n = \<lparr>nr_fields = canonical_fields raw ds fid off len hash imp ttl cand dim sv rsv, nr_issues = []\<rparr>"
    and fi: "field_issues raw off len [] ttl [] [] [] dim = []"
  let ?c = "canonical_fields raw ds fid off len hash imp ttl cand dim sv rsv"
  note clean = field_issues_clean [OF fi]
  let ?sv = "Some (int_or sv 1)"
  have fid: "fid \<noteq> []" by fact
  have fields: "canonical_fields ?c ds' fid' off len hash imp ttl cand dim ?sv rsv = ?c"
    unfolding canonical_fields_def [of ?c] Let_def
    by (simp only: canonical_get metadata_canonical provenance_canonical [OF clean(2)] fst_conv
        tier_idem [OF clean(3)] list_of_canonical insertI1 insertI2 as_str_JStr)
      (simp add: canonical_fields_def Let_def int_or_def por_def fid split: option.splits)
  note sv_ok = version_idem_or [OF svi sv]
  note rsv_ok = version_idem_opt [OF rsvi rsv]
  note bad = sv_ok rsv_ok bad_number_opt_int [OF clean(4) as_int_given [OF off]]
    bad_number_opt_int [OF clean(5) as_int_given [OF len]] bad_number_opt_int [OF clean(6) as_int_given [OF ttl]]
    bad_number_opt_int [OF clean(7) as_int_given [OF dim]]
  have issues: "field_issues ?c off len [] ttl [] [] [] dim = []"
    unfolding field_issues_def Let_def canonical_get
    by (simp add: str_issues_canonical [OF clean(1)] provenance_canonical [OF clean(2)] tier_idem [OF clean(3)]
        list_issues_canonical [OF clean(8)] list_issues_canonical [OF clean(9)] clean(10) bad raw_metadata_def)
  have as_int_sv: "as_int (JInt i) = Inr (Some i)" for i by (simp add: as_int_def py_int_def)
  have no: "issue False m = []" for m by (simp add: issue_def)
  have is_file: "((if b then ''file'' else ''fact'') = ''file'') = b" for b by simp
  have "normalize_record ?c ds' fid' = Inr \<lparr>nr_fields = ?c, nr_issues = collect_issues []\<rparr>"
    by (simp add: normalize_record_def Let_def is_file content_hash_canonical [OF hash] meta metadata_canonical no
        importance_idem [OF imp] promotion_candidate_idem [OF cand]
        version_issues_def as_int_sv bad fields issues)
  then show ?thesis by (simp add: n collect_issues_def)
qed

text \<open>C36. Normalising an already normalised record changes nothing: an issue-free record is
  its own normal form, whatever default source and fresh id it is given.
\<close>

theorem normalize_record_idempotent:
  assumes "normalize_record raw ds fid = Inr n" "nr_issues n = []" "fid \<noteq> []"
  shows "normalize_record (nr_fields n) ds' fid' = Inr n"
  using assms by (rule normalize_idempotent)

section \<open>Equality of fingerprints\<close>

text \<open>The fingerprint of a raw row is the fingerprint of its normalised record, so the
  spelling of a row (embedded JSON text, defaults left out, integral floats) does not change it.
\<close>

theorem record_fingerprint_of_normal_form:
  assumes "normalize_record raw ''swap'' fid = Inr n" "nr_issues n = []" "fid \<noteq> []"
  shows "record_fingerprint (nr_fields n) fid' = record_fingerprint raw fid"
  using assms(1) by (simp add: record_fingerprint_def normalize_idempotent [OF assms, of "''swap''" fid'])

definition UNFINGERPRINTED :: "string list" where
  "UNFINGERPRINTED = [''id'', ''embedding'', ''embedding_b64'', ''embedding_model'', ''updated_at'', ''snapshot_id'',
     ''related_memories'', ''parent_memory'']"

lemma dget_cong: "map_of d k = map_of d' k \<Longrightarrow> dget d k = dget d' k"
  by (simp add: dget_def)

lemma dget_default_cong: "map_of d k = map_of d' k \<Longrightarrow> dget_default d k v = dget_default d' k v"
  by (simp add: dget_default_def)

lemma unknown_fields_update:
  "k \<in> set KNOWN_FIELDS \<Longrightarrow> unknown_fields (AList.update k v d) = unknown_fields d"
  unfolding unknown_fields_def by (induction d) auto

lemma list_of_cong: "dget d k = dget d' k \<Longrightarrow> list_of d k = list_of d' k"
  by (simp add: list_of_def)

lemma dget_unfingerprinted:
  assumes "k \<in> set UNFINGERPRINTED"
  shows "f \<notin> set UNFINGERPRINTED \<Longrightarrow> dget (AList.update k v raw) f = dget raw f"
    and "f \<notin> set UNFINGERPRINTED \<Longrightarrow> dget_default (AList.update k v raw) f x = dget_default raw f x"
  using assms by (auto intro!: dget_cong dget_default_cong)

lemma unfingerprinted_fields:
  assumes k: "k \<in> set UNFINGERPRINTED"
  shows "raw_metadata (AList.update k v raw) = raw_metadata raw"
    and "metadata_of (AList.update k v raw) = metadata_of raw"
    and "provenance_of (AList.update k v raw) = provenance_of raw"
    and "list_of (AList.update k v raw) ''tags'' = list_of raw ''tags''"
    and "content_hash_of (AList.update k v raw) is_file off len = content_hash_of raw is_file off len"
    and "version_issues (AList.update k v raw) ''schema_version'' = version_issues raw ''schema_version''"
    and "version_issues (AList.update k v raw) ''record_schema_version'' = version_issues raw ''record_schema_version''"
proof -
  note g = dget_unfingerprinted [OF k]
  show m: "raw_metadata (AList.update k v raw) = raw_metadata raw"
    by (simp add: raw_metadata_def g UNFINGERPRINTED_def)
  have "set UNFINGERPRINTED \<subseteq> set KNOWN_FIELDS" by code_simp
  then have "unknown_fields (AList.update k v raw) = unknown_fields raw"
    using k by (intro unknown_fields_update) blast
  then show "metadata_of (AList.update k v raw) = metadata_of raw"
    by (simp add: metadata_of_def m)
  show "provenance_of (AList.update k v raw) = provenance_of raw"
    by (simp add: provenance_of_def g UNFINGERPRINTED_def)
  show "list_of (AList.update k v raw) ''tags'' = list_of raw ''tags''"
    by (rule list_of_cong) (simp add: g UNFINGERPRINTED_def)
  show "content_hash_of (AList.update k v raw) is_file off len = content_hash_of raw is_file off len"
    by (simp add: content_hash_of_def Let_def g UNFINGERPRINTED_def)
  show "version_issues (AList.update k v raw) ''schema_version'' = version_issues raw ''schema_version''"
    "version_issues (AList.update k v raw) ''record_schema_version'' = version_issues raw ''record_schema_version''"
    by (simp_all add: version_issues_def g UNFINGERPRINTED_def)
qed

lemma fingerprint_state_frame:
  assumes k: "k \<in> set UNFINGERPRINTED"
  shows "fingerprint_state (canonical_fields (AList.update k v raw) ds fid' off len hash imp ttl cand dim sv rsv)
    = fingerprint_state (canonical_fields raw ds fid off len hash imp ttl cand dim sv rsv)"
proof -
  note g = dget_unfingerprinted [OF k]
  let ?a = "canonical_fields (AList.update k v raw) ds fid' off len hash imp ttl cand dim sv rsv"
  let ?b = "canonical_fields raw ds fid off len hash imp ttl cand dim sv rsv"
  have "map (\<lambda>f. (f, dget ?a f)) FINGERPRINT_FIELDS = map (\<lambda>f. (f, dget ?b f)) FINGERPRINT_FIELDS"
    by (simp add: FINGERPRINT_FIELDS_def unfingerprinted_fields [OF k])
      (simp add: g UNFINGERPRINTED_def)
  then show ?thesis by (simp only: fingerprint_state_def canonical_get)
qed

text \<open>Storage details do not enter the fingerprint: changing the id, the embedding or
  its model, the modification time, the snapshot id or the relationship fields of a row (or the id
  drawn for it) gives the same fingerprint, or the same exception.
\<close>

theorem record_fingerprint_frame:
  assumes "k \<in> set UNFINGERPRINTED"
  shows "record_fingerprint (AList.update k v raw) fid' = record_fingerprint raw fid"
proof -
  have "dget (AList.update k v raw) f = dget raw f"
    if "f \<in> {''byte_offset'', ''byte_length'', ''memory_type'', ''importance'', ''ttl_seconds'',
      ''promotion_candidate'', ''embedding_dim'', ''schema_version'', ''record_schema_version''}" for f
    using that by (intro dget_unfingerprinted [OF assms]) (auto simp: UNFINGERPRINTED_def)
  note g = this
  note frame = fingerprint_state_frame [OF assms, where fid = fid]
  show ?thesis
    unfolding record_fingerprint_def normalize_record_def Let_def rbind_assoc rbind_simps normalized.select_convs
      fingerprint_of_normalized_def canonical_fingerprint_state_def
    by (simp only: unfingerprinted_fields [OF assms] frame [where raw = raw] g insertI1 insertI2)
qed

section \<open>Collections\<close>

lemma sort_strings_cong: "mset xs = mset ys \<Longrightarrow> sort xs = sort (ys :: string list)"
  by (rule properties_for_sort) simp_all

lemma from_list_perm: "mset xs = mset ys \<Longrightarrow> state_fingerprint_from_list xs = state_fingerprint_from_list ys"
  unfolding state_fingerprint_from_list_def by (simp only: sort_strings_cong [of xs ys])

lemma traverse_perm:
  assumes "traverse f xs = Inr us" "mset ys = mset xs"
  shows "\<exists>vs. traverse f ys = Inr vs \<and> mset vs = mset us"
proof -
  let ?g = "\<lambda>x. projr (f x)"
  have us: "us = map ?g xs \<and> (\<forall>z \<in> set xs. f z = Inr (?g z))"
    using assms(1) by (induction xs arbitrary: us) (auto simp: rbind_eq_Inr)
  have g: "\<forall>z \<in> set ys. f z = Inr (?g z)"
    using us mset_eq_setD [OF assms(2)] by blast
  have "traverse f zs = Inr (map ?g zs)" if "\<forall>z \<in> set zs. f z = Inr (?g z)" for zs
    using that by (induction zs) (auto simp: rbind_eq_Inr)
  from this [OF g] have "traverse f ys = Inr (map ?g ys)" .
  moreover have "mset (map ?g ys) = mset us" using us assms(2) by (metis mset_map)
  ultimately show ?thesis by blast
qed

text \<open>The state fingerprint of a collection does not depend on the order in which its
  rows are read.
\<close>

theorem state_fingerprint_order:
  assumes "state_fingerprint rows = Inr h" "mset rows' = mset rows"
  shows "state_fingerprint rows' = Inr h"
proof -
  let ?f = "\<lambda>(row, fresh_id). record_fingerprint row fresh_id"
  obtain fps where fps: "traverse ?f rows = Inr fps" "h = state_fingerprint_from_list fps"
    using assms(1) by (auto simp: state_fingerprint_def rbind_eq_Inr)
  then obtain fps' where "traverse ?f rows' = Inr fps'" "mset fps' = mset fps"
    using traverse_perm [OF fps(1) assms(2)] by blast
  then show ?thesis by (simp add: state_fingerprint_def fps(2) from_list_perm [of fps' fps])
qed

text \<open>
  The rows the lineage fingerprint skips are those with invalid annotations.
\<close>

definition skipped :: "dict \<times> string \<Rightarrow> bool" where
  "skipped r = (\<exists>p q. lineage_record_fingerprint (fst r) (snd r) = Inl (AnnotationExn (AnnotationValidationError p q)))"

lemma lineage_fingerprints_filter:
  "lineage_fingerprints rows =
     traverse (\<lambda>(row, fresh_id). lineage_record_fingerprint row fresh_id) (filter (\<lambda>r. \<not> skipped r) rows)"
  by (induction rows rule: lineage_fingerprints.induct)
    (auto simp: skipped_def split: sum.splits rec_exn.splits ann_error.splits)

text \<open>The lineage fingerprint skips the rows whose annotations are invalid, covers all
  others, and does not depend on their order.
\<close>

theorem lineage_fingerprint_order:
  assumes "lineage_fingerprint rows = Inr h" "mset rows' = mset (filter (\<lambda>r. \<not> skipped r) rows)"
  shows "lineage_fingerprint rows' = Inr h"
proof -
  let ?f = "\<lambda>(row, fresh_id). lineage_record_fingerprint row fresh_id"
  obtain fps where fps: "traverse ?f (filter (\<lambda>r. \<not> skipped r) rows) = Inr fps" "h = state_fingerprint_from_list fps"
    using assms(1) by (auto simp: lineage_fingerprint_def rbind_eq_Inr lineage_fingerprints_filter)
  then obtain fps' where p: "traverse ?f rows' = Inr fps'" "mset fps' = mset fps"
    using traverse_perm [OF fps(1) assms(2)] by blast
  have "set rows' = set (filter (\<lambda>r. \<not> skipped r) rows)" using assms(2) by (rule mset_eq_setD)
  then have "filter (\<lambda>r. \<not> skipped r) rows' = rows'" by (intro filter_True) auto
  then show ?thesis
    using p by (simp add: lineage_fingerprint_def lineage_fingerprints_filter fps(2) from_list_perm [of fps' fps])
qed

section \<open>Unknown fields\<close>

lemma normalize_fields:
  assumes "normalize_record raw ds fid = Inr n"
  shows "dget (nr_fields n) ''metadata'' = JObj (metadata_of raw)"
  using assms by (auto simp: normalize_record_def Let_def rbind_eq_Inr)

lemma unknown_field_lookup:
  assumes "distinct (map fst raw)" "k \<notin> set KNOWN_FIELDS" "map_of raw k = Some v"
  shows "map_of (unknown_fields raw) k = Some v" "distinct (map fst (unknown_fields raw))"
proof -
  show d: "distinct (map fst (unknown_fields raw))"
    using assms(1) unfolding unknown_fields_def by (rule distinct_map_filter)
  have "(k, v) \<in> set (unknown_fields raw)"
    using assms(2, 3) by (auto simp: unknown_fields_def dest: map_of_SomeD)
  with d show "map_of (unknown_fields raw) k = Some v" by simp
qed

text \<open>Normalisation loses no field: a top-level field outside the canonical set is kept,
  with its value, under \<open>metadata._interchange_unknown\<close>.
\<close>

theorem unknown_fields_preserved:
  assumes "normalize_record raw ds fid = Inr n" "distinct (map fst raw)"
    and "k \<notin> set KNOWN_FIELDS" "map_of raw k = Some v"
  shows "\<exists>md u. dget (nr_fields n) ''metadata'' = JObj md \<and> map_of md UNKNOWN_KEY = Some (JObj u)
    \<and> map_of u k = Some v"
proof -
  note u = unknown_field_lookup [OF assms(2-4)]
  then have "unknown_fields raw \<noteq> []" by auto
  then have "map_of (metadata_of raw) UNKNOWN_KEY = Some (JObj (dict_update
      (dict_of (dget (case as_json (raw_metadata raw) (JObj []) of JObj d \<Rightarrow> d | v \<Rightarrow> [(''value'', v)]) UNKNOWN_KEY))
      (unknown_fields raw)))"
    by (simp add: metadata_of_def Let_def)
  then show ?thesis using normalize_fields [OF assms(1)] u
    by (simp add: map_of_dict_update)
qed

text \<open>A float infinity in an integer field is not collected as an issue: the conversion
  raises \<open>OverflowError\<close>, which the normaliser does not catch.
\<close>

theorem normalize_infinite_offset_raises:
  "normalize_record [(''byte_offset'', JFloat (FInf b))] ds fid = Inl (PyExn OverflowError)"
  by (simp add: normalize_record_def as_int_def py_int_def of_py_def Let_def)

section \<open>Validation of a normal form\<close>

text \<open>What a hydratable record must carry besides well-formed fields.\<close>

definition complete_record :: "dict \<Rightarrow> bool" where
  "complete_record r \<longleftrightarrow>
     (truthy (dget r ''identifier'') \<or> truthy (dget r ''fact_text'')) \<and>
     (if dget r ''memory_type'' = JStr ''file''
      then truthy (dget r ''source_uri'') \<and> dget r ''byte_length'' \<noteq> JNull
      else truthy (dget r ''fact_text'') \<or> truthy (dget r ''fact_summary''))"

lemma bad_int_opt_int:
  "\<not> bad_number (\<lambda>n. n \<ge> 0) v i \<Longrightarrow> given v \<or> i = None \<Longrightarrow> \<not> bad_int 0 (opt_int i)"
  "\<not> bad_number (\<lambda>n. n > 0) v i \<Longrightarrow> given v \<or> i = None \<Longrightarrow> \<not> bad_int 1 (opt_int i)"
  by (cases i; auto simp: bad_number_def bad_int_def opt_int_def)+

lemma importance_clean:
  assumes "importance_of v = Inr (f, [])"
  shows "importance_issues (JFloat f) = Inr []"
proof -
  have "unit_interval HALF" by (simp add: HALF_def unit_interval_def is_finite_def flt_def dec_le_def)
  then have "unit_interval f"
    using assms by (auto simp: importance_of_def unit_interval_def split: if_splits sum.splits)
  then show ?thesis by (simp add: importance_issues_def py_float_def issue_def)
qed

lemma tier_clean: "snd (tier_of v) = [] \<Longrightarrow> one_of_strings VALID_TIERS (JStr (fst (tier_of v)))"
  by (cases v) (auto simp: tier_of_def as_str_def py_str_def one_of_strings_def VALID_TIERS_def)

lemma candidate_clean:
  "promotion_candidate_of v = Inr (c, []) \<Longrightarrow> given c \<Longrightarrow> json_eq c (JInt 0) \<or> json_eq c (JInt 1)"
  by (cases v) (auto simp: promotion_candidate_of_def rbind_eq_Inr json_eq.simps [of "JInt i" for i] feq_def
      split: if_splits)

lemma provenance_dict:
  "snd (provenance_of raw) = [] \<Longrightarrow> fst (provenance_of raw) \<noteq> JNull \<Longrightarrow> is_dict (fst (provenance_of raw))"
  using provenance_clean by blast

lemma content_hash_nonempty: "content_hash_of raw is_file off len = Inr h \<Longrightarrow> h \<noteq> []"
  by (auto simp: content_hash_of_def Let_def compute_content_hash_def compute_file_reference_hash_def
      rbind_eq_Inr split: if_splits)

lemma fold_append_issue_Nil: "fold append_issue ms [] = [] \<longleftrightarrow> ms = []"
  using collect_issues_Nil [of ms] by (simp add: collect_issues_def)

text \<open>Normalisation and validation agree: a record that normalised without issues
  passes validation exactly when it is complete, so validation never rejects a normal form for an
  ill-typed or out-of-range field.
\<close>

theorem validate_normal_form:
  assumes "normalize_record raw ds fid = Inr n" "nr_issues n = []"
  shows "validate_record n = Inr [] \<longleftrightarrow> complete_record (nr_fields n)"
proof (rule normalize_cleanE [OF assms])
  fix off len hash imp ttl cand dim sv rsv
  assume off: "as_int (dget raw ''byte_offset'') = Inr off" and len: "as_int (dget raw ''byte_length'') = Inr len"
    and hash: "content_hash_of raw (dget raw ''memory_type'' = JStr ''file'') off len = Inr hash"
    and imp: "importance_of (dget raw ''importance'') = Inr (imp, [])"
    and ttl: "as_int (dget raw ''ttl_seconds'') = Inr ttl"
    and cand: "promotion_candidate_of (dget raw ''promotion_candidate'') = Inr (cand, [])"
    and svi: "version_issues raw ''schema_version'' = Inr []"
    and rsvi: "version_issues raw ''record_schema_version'' = Inr []"
    and sv: "as_int (dget raw ''schema_version'') = Inr sv"
    and rsv: "as_int (dget raw ''record_schema_version'') = Inr rsv"
    and n: "n = \<lparr>nr_fields = canonical_fields raw ds fid off len hash imp ttl cand dim sv rsv, nr_issues = []\<rparr>"
    and fi: "field_issues raw off len [] ttl [] [] [] dim = []"
  note clean = field_issues_clean [OF fi]
  let ?r = "canonical_fields raw ds fid off len hash imp ttl cand dim sv rsv"
  have types: "one_of_strings VALID_MEMORY_TYPES (JStr (if b then ''file'' else ''fact''))" for b
    by (simp add: one_of_strings_def VALID_MEMORY_TYPES_def)
  have ints: "\<not> bad_int 0 (opt_int off)" "\<not> bad_int 0 (opt_int len)" "\<not> bad_int 1 (opt_int ttl)"
      "\<not> bad_int 1 (opt_int rsv)" "\<not> bad_int 1 (JInt (int_or sv 1))"
    using bad_int_opt_int(1) [OF clean(4) as_int_given [OF off]] bad_int_opt_int(1) [OF clean(5) as_int_given [OF len]]
      bad_int_opt_int(2) [OF clean(6) as_int_given [OF ttl]]
      bad_int_opt_int(2) [OF version_idem [OF rsvi rsv] as_int_given [OF rsv]]
      version_idem_or [OF svi sv] by (simp_all add: bad_int_def bad_number_def)
  have lists: "str_list_json (list_of raw ''tags'')" "str_list_json (list_of raw ''related_memories'')"
    by (rule list_issues_clean [OF clean(8)], rule list_issues_clean [OF clean(9)])
  note parts = importance_clean [OF imp] tier_clean [OF clean(3)] candidate_clean [OF cand] provenance_dict [OF clean(2)]
    content_hash_nonempty [OF hash] clean(10) types ints lists
  have is_file: "((if b then ''file'' else ''fact'') = ''file'') = b" for b by simp
  have absurd: "(given cand \<and> \<not> json_eq cand (JInt 0) \<and> \<not> json_eq cand (JInt 1)) = False"
      "(fst (provenance_of raw) \<noteq> JNull \<and> \<not> is_dict (fst (provenance_of raw))) = False"
      "(given (dget raw ''promotion_state'') \<and> \<not> one_of_strings VALID_PROMOTION_STATES (dget raw ''promotion_state'')) = False"
    using parts by blast+
  show ?thesis
    by (simp add: n validate_record_def Let_def hashable_def parts absurd fold_append_issue_Nil complete_record_def
        is_file kind_issues_def offset_issues_def del: fold_append)
qed

section \<open>Concrete records\<close>

definition example_row :: dict where
  "example_row = [(''identifier'', JStr ''k''), (''fact_text'', JStr ''v''), (''content_hash'', JStr '' abc ''),
     (''importance'', JInt 1), (''tags'', JStr ''[\"t\"]''), (''extra'', JInt 7)]"

definition example_normal :: normalized where
  "example_normal = (case normalize_record example_row ''swap'' ''id1'' of Inr n \<Rightarrow> n | Inl e \<Rightarrow> undefined)"

lemma example_normalizes:
  "normalize_record example_row ''swap'' ''id1'' = Inr example_normal" "nr_issues example_normal = []"
  by code_simp+

lemma normalize_record_idempotent_witness:
  "normalize_record (nr_fields example_normal) ''other'' ''id2'' = Inr example_normal"
  by (rule normalize_record_idempotent [OF example_normalizes]) simp

lemma record_fingerprint_of_normal_form_witness:
  "record_fingerprint (nr_fields example_normal) ''id2'' = record_fingerprint example_row ''id1''"
  by (rule record_fingerprint_of_normal_form [OF example_normalizes]) simp

lemma record_fingerprint_frame_witness:
  "record_fingerprint (AList.update ''embedding'' (JStr ''AAAA'') example_row) ''id2'' = record_fingerprint example_row ''id1''"
  by (rule record_fingerprint_frame) (simp add: UNFINGERPRINTED_def)

lemma unknown_fields_preserved_witness:
  "\<exists>md u. dget (nr_fields example_normal) ''metadata'' = JObj md \<and> map_of md UNKNOWN_KEY = Some (JObj u)
     \<and> map_of u ''extra'' = Some (JInt 7)"
  by (rule unknown_fields_preserved [OF example_normalizes(1)])
    (simp_all add: example_row_def KNOWN_FIELDS_def)

lemma validate_normal_form_witness:
  "validate_record example_normal = Inr [] \<longleftrightarrow> complete_record (nr_fields example_normal)"
  by (rule validate_normal_form [OF example_normalizes])

lemma example_fingerprint: "\<exists>h. record_fingerprint example_row ''id1'' = Inr h"
proof -
  have "finite_json (JObj (fingerprint_state (nr_fields example_normal)))" by code_simp
  then show ?thesis
    by (simp add: record_fingerprint_def example_normalizes fingerprint_of_normalized_def
        canonical_fingerprint_state_def canonical_dumps_def)
qed

definition example_row2 :: dict where
  "example_row2 = AList.update ''embedding'' (JStr ''AAAA'') example_row"

lemma example_state: "\<exists>h. state_fingerprint [(example_row, ''id1''), (example_row2, ''id2'')] = Inr h"
  using example_fingerprint record_fingerprint_frame [of "''embedding''" "JStr ''AAAA''" example_row "''id2''" "''id1''"]
  by (auto simp: state_fingerprint_def example_row2_def UNFINGERPRINTED_def)

lemma state_fingerprint_order_witness:
  "\<exists>h. state_fingerprint [(example_row, ''id1''), (example_row2, ''id2'')] = Inr h
     \<and> state_fingerprint [(example_row2, ''id2''), (example_row, ''id1'')] = Inr h"
  using example_state
    state_fingerprint_order [of "[(example_row, ''id1''), (example_row2, ''id2'')]" _
      "[(example_row2, ''id2''), (example_row, ''id1'')]"] by (auto simp: add_mset_commute)

definition bad_annotation_row :: dict where
  "bad_annotation_row = [(''identifier'', JStr ''k''), (''content_hash'', JStr ''abc''),
     (''metadata'', JObj [(''annotations'', JInt 1)])]"

lemma bad_row_skipped: "skipped (bad_annotation_row, ''id2'')"
proof -
  have "(case normalize_record bad_annotation_row ''swap'' ''id2'' of
      Inl (AnnotationExn (AnnotationValidationError p q)) \<Rightarrow> True | _ \<Rightarrow> False)"
    by code_simp
  then show ?thesis
    by (auto simp: skipped_def lineage_record_fingerprint_def split: sum.splits rec_exn.splits ann_error.splits)
qed

lemma example_lineage: "\<exists>h. lineage_record_fingerprint example_row ''id1'' = Inr h"
proof -
  have "finite_json (JObj (fingerprint_state (nr_fields example_normal)))"
    "finite_json (relationship_state (nr_fields example_normal))" by code_simp+
  then show ?thesis
    by (simp add: lineage_record_fingerprint_def example_normalizes lineage_of_normalized_def fingerprint_of_normalized_def
        canonical_fingerprint_state_def canonical_dumps_def)
qed

lemma lineage_fingerprint_order_witness:
  "\<exists>h. lineage_fingerprint [(bad_annotation_row, ''id2''), (example_row, ''id1'')] = Inr h
     \<and> lineage_fingerprint [(example_row, ''id1'')] = Inr h"
proof -
  obtain f where f: "lineage_record_fingerprint example_row ''id1'' = Inr f" using example_lineage by blast
  then have n: "\<not> skipped (example_row, ''id1'')" by (simp add: skipped_def)
  have "\<exists>h. lineage_fingerprint [(bad_annotation_row, ''id2''), (example_row, ''id1'')] = Inr h"
    by (simp add: lineage_fingerprint_def lineage_fingerprints_filter bad_row_skipped n f)
  then show ?thesis
    using lineage_fingerprint_order [of "[(bad_annotation_row, ''id2''), (example_row, ''id1'')]" _ "[(example_row, ''id1'')]"]
    by (auto simp: bad_row_skipped n)
qed

end
