(* ===== verification/Tables.thy ===== *)
theory Tables
  imports Prelude
begin

text \<open>
  The tables of the database: a table is the list of its rows in rowid order, keyed by a function
  of the row. The two forms of insertion the code uses are \<open>ON CONFLICT DO UPDATE\<close>, which
  keeps the position of the row, and \<open>INSERT OR REPLACE\<close>, which deletes the rows in
  conflict and appends. What clients rely on is the interface \<open>keyed_table\<close>.
\<close>

section \<open>Rows with a key\<close>

definition find_key :: "('r \<Rightarrow> 'k) \<Rightarrow> 'k \<Rightarrow> 'r list \<Rightarrow> 'r option" where
  "find_key key k rows = find (\<lambda>r. key r = k) rows"

definition remove_key :: "('r \<Rightarrow> 'k) \<Rightarrow> 'k \<Rightarrow> 'r list \<Rightarrow> 'r list" where
  "remove_key key k rows = filter (\<lambda>r. key r \<noteq> k) rows"

definition upsert_row :: "('r \<Rightarrow> 'k) \<Rightarrow> 'r \<Rightarrow> 'r list \<Rightarrow> 'r list" where
  "upsert_row key r rows =
     (if key r \<in> key ` set rows then map (\<lambda>x. if key x = key r then r else x) rows else rows @ [r])"

definition replace_row :: "('r \<Rightarrow> 'k) \<Rightarrow> 'r \<Rightarrow> 'r list \<Rightarrow> 'r list" where
  "replace_row key r rows = remove_key key (key r) rows @ [r]"

definition keys_distinct :: "('r \<Rightarrow> 'k) \<Rightarrow> 'r list \<Rightarrow> bool" where
  "keys_distinct key rows = distinct (map key rows)"

lemma find_key_Nil [simp]: "find_key key k [] = None"
  by (simp add: find_key_def)

lemma find_key_Cons [simp]: "find_key key k (r # rows) = (if key r = k then Some r else find_key key k rows)"
  by (simp add: find_key_def)

lemma find_key_append: "find_key key k (xs @ ys) = (case find_key key k xs of None \<Rightarrow> find_key key k ys | Some r \<Rightarrow> Some r)"
  by (induction xs) auto

lemma find_key_None: "find_key key k rows = None \<longleftrightarrow> k \<notin> key ` set rows"
  by (induction rows) auto

lemma find_key_SomeD: "find_key key k rows = Some r \<Longrightarrow> r \<in> set rows \<and> key r = k"
  by (induction rows) (auto split: if_splits)

lemma find_key_Some_iff:
  "keys_distinct key rows \<Longrightarrow> find_key key k rows = Some r \<longleftrightarrow> r \<in> set rows \<and> key r = k"
  by (induction rows) (auto simp: keys_distinct_def image_iff split: if_splits)

lemma find_key_remove: "find_key key k (remove_key key k' rows) = (if k = k' then None else find_key key k rows)"
  by (induction rows) (auto simp: remove_key_def)

lemma find_key_upsert: "find_key key k (upsert_row key r rows) = (if k = key r then Some r else find_key key k rows)"
proof -
  have map: "find_key key k (map (\<lambda>x. if key x = key r then r else x) rows)
      = (if k = key r \<and> key r \<in> key ` set rows then Some r else find_key key k rows)"
    by (induction rows) auto
  show ?thesis
  proof (cases "key r \<in> key ` set rows")
    case True
    then show ?thesis by (simp add: upsert_row_def map)
  next
    case False
    then have "find_key key (key r) rows = None" by (simp add: find_key_None)
    with False show ?thesis by (auto simp: upsert_row_def find_key_append split: option.splits)
  qed
qed

lemma find_key_replace: "find_key key k (replace_row key r rows) = (if k = key r then Some r else find_key key k rows)"
  by (auto simp: replace_row_def find_key_append find_key_remove split: option.splits)

lemma keys_distinct_remove: "keys_distinct key rows \<Longrightarrow> keys_distinct key (remove_key key k rows)"
  unfolding keys_distinct_def remove_key_def by (rule distinct_map_filter)

lemma keys_distinct_upsert: "keys_distinct key rows \<Longrightarrow> keys_distinct key (upsert_row key r rows)"
proof (cases "key r \<in> key ` set rows")
  case True
  have "map key (map (\<lambda>x. if key x = key r then r else x) rows) = map key rows"
    by (induction rows) auto
  then show "keys_distinct key rows \<Longrightarrow> ?thesis"
    by (simp add: keys_distinct_def upsert_row_def True del: map_map)
qed (simp add: keys_distinct_def upsert_row_def)

lemma keys_distinct_replace: "keys_distinct key rows \<Longrightarrow> keys_distinct key (replace_row key r rows)"
  using keys_distinct_remove [of key rows "key r"]
  by (auto simp: keys_distinct_def replace_row_def remove_key_def)

lemma set_remove_key: "set (remove_key key k rows) = {r \<in> set rows. key r \<noteq> k}"
  by (simp add: remove_key_def)

section \<open>The interface of a table\<close>

text \<open>
  \<open>stored\<close> is what the table keeps of a row that is put: some columns have a default for the
  empty value.
\<close>

locale table_lookup =
  fixes key :: "'r \<Rightarrow> 'k"
    and stored :: "'r \<Rightarrow> 'r"
    and get :: "'k \<Rightarrow> 's \<Rightarrow> 'r option"
    and put :: "'r \<Rightarrow> 's \<Rightarrow> 's"
  assumes get_put: "get k (put r s) = (if k = key r then Some (stored r) else get k s)"
    and stored_idem: "stored (stored r) = stored r"
    and key_stored: "key (stored r) = key r"
begin

lemma get_put_same [simp]: "get (key r) (put r s) = Some (stored r)"
  by (simp add: get_put)

lemma get_put_other: "k \<noteq> key r \<Longrightarrow> get k (put r s) = get k s"
  by (simp add: get_put)

lemma put_put_same: "key r = key r' \<Longrightarrow> get k (put r (put r' s)) = get k (put r s)"
  by (simp add: get_put)

lemma put_stored: "get k (put (stored r) s) = get k (put r s)"
  by (simp add: get_put key_stored stored_idem)

lemma get_fold_put_other: "k \<notin> key ` set rs \<Longrightarrow> get k (fold put rs s) = get k s"
  by (induction rs arbitrary: s) (auto simp: get_put)

end

locale keyed_table = table_lookup key stored get put
  for key :: "'r \<Rightarrow> 'k" and stored and get :: "'k \<Rightarrow> 's \<Rightarrow> 'r option" and put +
  fixes remove :: "'k \<Rightarrow> 's \<Rightarrow> 's"
  assumes get_remove: "get k (remove k' s) = (if k = k' then None else get k s)"
begin

lemma remove_put: "get k (remove (key r) (put r s)) = get k (remove (key r) s)"
  by (simp add: get_put get_remove)

lemma get_fold_remove: "get k (fold remove ks s) = (if k \<in> set ks then None else get k s)"
  by (induction ks arbitrary: s) (auto simp: get_remove)

end

end
