(* ===== verification/Store.thy ===== *)
theory Store
  imports Tables Fingerprint "HOL-Library.Option_ord"
begin

text \<open>
  The SQLite store of \<open>db.py\<close>: the tables \<open>memories\<close>, \<open>events\<close>, \<open>store_meta\<close>,
  \<open>memory_tombstones\<close>, \<open>memory_replay_watermarks\<close> and \<open>operation_ledger\<close> after
  migration, with the statements \<open>MemoryDB\<close> runs on them. A row of \<open>memories\<close> is the
  dictionary \<open>dict(row)\<close>, its blob as the string of its bytes; values have the types of their columns, so
  that the column affinities do nothing. The full-text index, which only search reads, is left out.
  Every operation is one transaction step: the model has no partial commits.
\<close>

section \<open>State\<close>

datatype db_exn = IntegrityError | DbPy py_exn | DbRecord rec_exn

type_synonym 'a db_res = "db_exn + 'a"

record event_row =
  ev_seq :: int
  ev_id :: string
  ev_memory :: "string option"
  ev_namespace :: string
  ev_type :: string
  ev_at :: string
  ev_payload :: string

record tombstone =
  ts_memory :: string
  ts_namespace :: string
  ts_identifier :: string
  ts_content_hash :: string
  ts_fingerprint :: string
  ts_deleted_at :: string
  ts_seq :: int
  ts_event_id :: string
  ts_mount :: string
  ts_replica :: string
  ts_history :: string
  ts_metadata :: string
  ts_tags :: string
  ts_reason :: string

record watermark =
  wm_memory :: string
  wm_namespace :: string
  wm_content_hash :: string
  wm_fingerprint :: string
  wm_seq :: int
  wm_event_id :: string
  wm_history :: string

record ledger_entry =
  le_caller :: string
  le_namespace :: string
  le_key :: string
  le_operation :: string
  le_request_hash :: string
  le_memory :: string
  le_content_hash :: string
  le_response :: string
  le_created_at :: string

text \<open>\<open>st_last_seq\<close> is the entry of \<open>events\<close> in \<open>sqlite_sequence\<close>.\<close>

record store =
  st_memories :: "dict list"
  st_events :: "event_row list"
  st_last_seq :: int
  st_meta :: "(string \<times> string) list"
  st_tombstones :: "tombstone list"
  st_watermarks :: "watermark list"
  st_ledger :: "ledger_entry list"

definition empty_store :: store where
  "empty_store = \<lparr>st_memories = [], st_events = [], st_last_seq = 0, st_meta = [], st_tombstones = [],
     st_watermarks = [], st_ledger = []\<rparr>"

section \<open>store_meta\<close>

definition get_meta :: "string \<Rightarrow> store \<Rightarrow> string option" where
  "get_meta k s = map_option snd (find_key fst k (st_meta s))"

definition set_meta :: "string \<Rightarrow> string \<Rightarrow> store \<Rightarrow> store" where
  "set_meta k v s = s\<lparr>st_meta := replace_row fst (k, v) (st_meta s)\<rparr>"

definition delete_meta :: "string \<Rightarrow> store \<Rightarrow> store" where
  "delete_meta k s = s\<lparr>st_meta := remove_key fst k (st_meta s)\<rparr>"

text \<open>\<open>get_meta(k) or ""\<close> and \<open>int(get_meta(k) or 0)\<close>\<close>

definition meta_str :: "string \<Rightarrow> store \<Rightarrow> string" where
  "meta_str k s = (case get_meta k s of None \<Rightarrow> [] | Some v \<Rightarrow> v)"

definition meta_int :: "string \<Rightarrow> store \<Rightarrow> int db_res" where
  "meta_int k s =
     (if meta_str k s = [] then Inr 0
      else case int_of_str (meta_str k s) of Some i \<Rightarrow> Inr i | None \<Rightarrow> Inl (DbPy ValueError))"

section \<open>memories\<close>

definition MEMORY_COLUMNS :: "string list" where
  "MEMORY_COLUMNS = [''id'', ''identifier'', ''fact_text'', ''embedding'', ''embedding_dim'', ''embedding_model'',
     ''source'', ''importance'', ''metadata_json'', ''content_hash'', ''ttl_seconds'', ''created_at'', ''namespace'',
     ''tier'', ''memory_type'', ''source_uri'', ''source_format'', ''source_checksum'', ''byte_offset'',
     ''byte_length'', ''updated_at'', ''snapshot_id'', ''promotion_state'', ''promotion_candidate'',
     ''parent_memory'', ''related_memories'', ''tags'', ''schema_version'', ''fact_summary'', ''provenance_json'']"

text \<open>The row an insert writes: \<open>created_at\<close> is the current time where it is not given.\<close>

definition inserted_row :: "string \<Rightarrow> dict \<Rightarrow> dict" where
  "inserted_row now vals =
     map (\<lambda>c. (c, if c = ''created_at'' \<and> dget vals c = JNull then JStr now else dget vals c)) MEMORY_COLUMNS"

definition updated_row :: "dict \<Rightarrow> dict" where
  "updated_row vals = map (\<lambda>c. (c, dget vals c)) MEMORY_COLUMNS"

definition row_key :: "dict \<Rightarrow> json" where
  "row_key r = dget r ''id''"

text \<open>The partial unique index on \<open>(namespace, content_hash)\<close>.\<close>

definition indexed :: "dict \<Rightarrow> bool" where
  "indexed r = (dget r ''content_hash'' \<notin> {JNull, JStr []} \<and> dget r ''namespace'' \<noteq> JNull)"

definition same_identity :: "dict \<Rightarrow> dict \<Rightarrow> bool" where
  "same_identity r r' = (indexed r \<and> indexed r' \<and> dget r ''namespace'' = dget r' ''namespace''
     \<and> dget r ''content_hash'' = dget r' ''content_hash'')"

definition conflicting :: "dict \<Rightarrow> dict \<Rightarrow> bool" where
  "conflicting r r' = (row_key r = row_key r' \<or> same_identity r r')"

definition insert_row :: "string \<Rightarrow> dict \<Rightarrow> store \<Rightarrow> store db_res" where
  "insert_row now vals s =
     (let r = inserted_row now vals in
      if dget r ''identifier'' = JNull then Inl IntegrityError
      else Inr (s\<lparr>st_memories := filter (\<lambda>x. \<not> conflicting r x) (st_memories s) @ [r]\<rparr>))"

definition insert_ignore :: "string \<Rightarrow> dict \<Rightarrow> store \<times> nat \<Rightarrow> store \<times> nat" where
  "insert_ignore now vals st =
     (let r = inserted_row now vals; s = fst st in
      if dget r ''identifier'' = JNull \<or> (\<exists>x \<in> set (st_memories s). conflicting r x) then st
      else (s\<lparr>st_memories := st_memories s @ [r]\<rparr>, Suc (snd st)))"

definition insert_many_ignore :: "string \<Rightarrow> dict list \<Rightarrow> store \<Rightarrow> store \<times> nat" where
  "insert_many_ignore now records s = fold (insert_ignore now) records (s, 0)"

definition get_memory :: "string \<Rightarrow> store \<Rightarrow> dict option" where
  "get_memory i s = find_key row_key (JStr i) (st_memories s)"

definition find_by_namespace_and_hash :: "string \<Rightarrow> string \<Rightarrow> store \<Rightarrow> dict option" where
  "find_by_namespace_and_hash ns h s =
     (if h = [] then None
      else find (\<lambda>r. dget r ''namespace'' = JStr ns \<and> dget r ''content_hash'' = JStr h) (st_memories s))"

definition replace_memory_record :: "dict \<Rightarrow> store \<Rightarrow> (store \<times> bool) db_res" where
  "replace_memory_record vals s =
     (let r = updated_row vals in
      if row_key r \<notin> row_key ` set (st_memories s) then Inr (s, False)
      else if dget r ''identifier'' = JNull then Inl IntegrityError
      else if (\<exists>x \<in> set (st_memories s). row_key x \<noteq> row_key r \<and> same_identity r x) then Inl IntegrityError
      else Inr (s\<lparr>st_memories := upsert_row row_key r (st_memories s)\<rparr>, True))"

definition delete_memory_row :: "string \<Rightarrow> store \<Rightarrow> store" where
  "delete_memory_row i s = s\<lparr>st_memories := remove_key row_key (JStr i) (st_memories s)\<rparr>"

definition update_columns :: "string \<Rightarrow> dict \<Rightarrow> store \<Rightarrow> store" where
  "update_columns i cols s =
     s\<lparr>st_memories := map (\<lambda>r. if row_key r = JStr i then dict_update r cols else r) (st_memories s)\<rparr>"

definition update_promotion_state :: "string \<Rightarrow> string \<Rightarrow> string \<Rightarrow> string \<Rightarrow> store \<Rightarrow> store" where
  "update_promotion_state i state updated_at now s =
     update_columns i [(''promotion_state'', JStr state),
       (''updated_at'', JStr (if updated_at = [] then now else updated_at))] s"

definition set_promotion_candidate :: "string \<Rightarrow> int \<Rightarrow> store \<Rightarrow> store" where
  "set_promotion_candidate i candidate s = update_columns i [(''promotion_candidate'', JInt candidate)] s"

text \<open>\<open>ORDER BY created_at\<close>: NULL sorts first, rows that agree keep rowid order.\<close>

definition created_key :: "dict \<Rightarrow> string option" where
  "created_key r = (case dget r ''created_at'' of JStr t \<Rightarrow> Some t | _ \<Rightarrow> None)"

definition matches_opt :: "dict \<Rightarrow> string \<Rightarrow> string option \<Rightarrow> bool" where
  "matches_opt r c v = (case v of None \<Rightarrow> True | Some x \<Rightarrow> dget r c = JStr x)"

definition list_promotion_candidates :: "string option \<Rightarrow> string option \<Rightarrow> store \<Rightarrow> dict list" where
  "list_promotion_candidates ns state s =
     sort_key created_key (filter (\<lambda>r. dget r ''promotion_candidate'' = JInt 1 \<and> matches_opt r ''namespace'' ns
       \<and> matches_opt r ''promotion_state'' state) (st_memories s))"

definition list_by_promotion_state :: "string \<Rightarrow> string option \<Rightarrow> store \<Rightarrow> dict list" where
  "list_by_promotion_state state ns s =
     sort_key created_key (filter (\<lambda>r. dget r ''promotion_state'' = JStr state \<and> matches_opt r ''namespace'' ns)
       (st_memories s))"

section \<open>events\<close>

text \<open>\<open>append_event\<close>: the row and its \<open>seq\<close>; a second event with one id is refused.\<close>

definition append_row :: "event_row \<Rightarrow> store \<Rightarrow> (store \<times> int) db_res" where
  "append_row e s =
     (let n = st_last_seq s + 1 in
      if ev_id e \<in> ev_id ` set (st_events s) then Inl IntegrityError
      else Inr (s\<lparr>st_events := st_events s @ [e\<lparr>ev_seq := n\<rparr>], st_last_seq := n\<rparr>, n))"

record event_filter =
  qf_memory :: "string option"
  qf_namespace :: "string option"
  qf_type :: "string option"
  qf_since :: "string option"
  qf_until :: "string option"
  qf_after :: "int option"
  qf_before :: "int option"

definition any_event :: event_filter where
  "any_event = \<lparr>qf_memory = None, qf_namespace = None, qf_type = None, qf_since = None, qf_until = None,
     qf_after = None, qf_before = None\<rparr>"

definition when_given :: "'a option \<Rightarrow> ('a \<Rightarrow> bool) \<Rightarrow> bool" where
  "when_given x P = (case x of None \<Rightarrow> True | Some v \<Rightarrow> P v)"

definition event_matches :: "event_filter \<Rightarrow> event_row \<Rightarrow> bool" where
  "event_matches f e =
     (when_given (qf_memory f) (\<lambda>m. ev_memory e = Some m)
      \<and> when_given (qf_namespace f) (\<lambda>n. ev_namespace e = n)
      \<and> when_given (qf_type f) (\<lambda>t. ev_type e = t)
      \<and> when_given (qf_since f) (\<lambda>t. t \<le> ev_at e)
      \<and> when_given (qf_until f) (\<lambda>t. ev_at e \<le> t)
      \<and> when_given (qf_after f) (\<lambda>n. n < ev_seq e)
      \<and> when_given (qf_before f) (\<lambda>n. ev_seq e < n))"

text \<open>A negative \<open>LIMIT\<close> is no limit.\<close>

definition sql_limit :: "int \<Rightarrow> 'a list \<Rightarrow> 'a list" where
  "sql_limit n xs = (if n < 0 then xs else take (nat n) xs)"

definition select_events :: "event_filter \<Rightarrow> int \<Rightarrow> bool \<Rightarrow> store \<Rightarrow> event_row list" where
  "select_events f limit ascending s =
     (let rows = sort_key ev_seq (filter (event_matches f) (st_events s)) in
      sql_limit limit (if ascending then rows else rev rows))"

definition event_at_seq :: "int \<Rightarrow> store \<Rightarrow> event_row option" where
  "event_at_seq n s = find_key ev_seq n (st_events s)"

definition event_id_page :: "int \<Rightarrow> int \<Rightarrow> store \<Rightarrow> (int \<times> string \<times> string) list" where
  "event_id_page after_seq limit s =
     map (\<lambda>e. (ev_seq e, ev_id e, ev_type e)) (select_events (any_event\<lparr>qf_after := Some after_seq\<rparr>) limit True s)"

definition max_seq :: "event_row list \<Rightarrow> int" where
  "max_seq evs = foldr (\<lambda>e m. max (ev_seq e) m) evs 0"

definition min_seq :: "event_row list \<Rightarrow> int" where
  "min_seq evs = (case evs of [] \<Rightarrow> 0 | e # r \<Rightarrow> foldr (\<lambda>e m. min (ev_seq e) m) r (ev_seq e))"

record log_bounds =
  lb_count :: nat
  lb_min_seq :: int
  lb_max_seq :: int
  lb_head_seq :: int
  lb_head_event_id :: string
  lb_trimmed :: int
  lb_legacy :: bool

definition head_event_id :: "int \<Rightarrow> store \<Rightarrow> string" where
  "head_event_id known s =
     (let m = max_seq (st_events s) in
      if m > 0 then (case event_at_seq m s of Some e \<Rightarrow> ev_id e | None \<Rightarrow> [])
      else if known > 0 then meta_str ''last_known_head_event_id'' s else [])"

definition event_log_bounds :: "store \<Rightarrow> log_bounds db_res" where
  "event_log_bounds s =
     rbind (meta_int ''trimmed_through_seq'' s) (\<lambda>trimmed.
     rbind (meta_int ''last_known_head_seq'' s) (\<lambda>known.
     let m = max_seq (st_events s) in
     Inr \<lparr>lb_count = length (st_events s), lb_min_seq = min_seq (st_events s), lb_max_seq = m,
          lb_head_seq = max (max m trimmed) known, lb_head_event_id = head_event_id known s,
          lb_trimmed = trimmed, lb_legacy = (get_meta ''legacy_history'' s = Some ''1'')\<rparr>))"

text \<open>What both retention helpers record after deleting events up to \<open>deleted_max\<close>.\<close>

definition record_trim :: "int \<Rightarrow> event_row option \<Rightarrow> store \<Rightarrow> store db_res" where
  "record_trim deleted_max head s =
     rbind (meta_int ''trimmed_through_seq'' s) (\<lambda>prev.
     let s1 = (if prev < deleted_max then set_meta ''trimmed_through_seq'' (int_str deleted_max) s else s) in
     (case head of
        None \<Rightarrow> Inr s1
      | Some h \<Rightarrow>
          rbind (meta_int ''last_known_head_seq'' s1) (\<lambda>prev_head.
          Inr (if prev_head \<le> ev_seq h
               then set_meta ''last_known_head_event_id'' (ev_id h) (set_meta ''last_known_head_seq'' (int_str (ev_seq h)) s1)
               else s1))))"

definition head_row :: "store \<Rightarrow> event_row option" where
  "head_row s = (case select_events any_event 1 False s of e # _ \<Rightarrow> Some e | [] \<Rightarrow> None)"

definition delete_events :: "(event_row \<Rightarrow> bool) \<Rightarrow> store \<Rightarrow> (store \<times> nat) db_res" where
  "delete_events P s =
     (let gone = filter P (st_events s); s1 = s\<lparr>st_events := filter (\<lambda>e. \<not> P e) (st_events s)\<rparr> in
      if gone = [] then Inr (s1, 0)
      else rbind (record_trim (max_seq gone) (head_row s) s1) (\<lambda>s2. Inr (s2, length gone)))"

definition trim_events_before_seq :: "int \<Rightarrow> store \<Rightarrow> (store \<times> nat) db_res" where
  "trim_events_before_seq n s = delete_events (\<lambda>e. ev_seq e < n) s"

definition trim_events_by_count :: "int \<Rightarrow> store \<Rightarrow> (store \<times> nat) db_res" where
  "trim_events_by_count keep s =
     (if keep < 0 then Inl (DbPy ValueError)
      else let kept = map ev_seq (select_events any_event keep False s) in
        delete_events (\<lambda>e. ev_seq e \<notin> set kept) s)"

definition has_events_at_or_before_seq :: "int \<Rightarrow> string option \<Rightarrow> string option \<Rightarrow> store \<Rightarrow> bool" where
  "has_events_at_or_before_seq n m ns s =
     (\<exists>e \<in> set (st_events s). ev_seq e \<le> n \<and> when_given m (\<lambda>x. ev_memory e = Some x)
       \<and> when_given ns (\<lambda>x. ev_namespace e = x))"

section \<open>Tombstones, watermarks and the operation ledger\<close>

definition get_tombstone :: "string \<Rightarrow> store \<Rightarrow> tombstone option" where
  "get_tombstone m s = find_key ts_memory m (st_tombstones s)"

definition tombstone_defaults :: "tombstone \<Rightarrow> tombstone" where
  "tombstone_defaults t =
     t\<lparr>ts_metadata := (if ts_metadata t = [] then ''{}'' else ts_metadata t),
       ts_tags := (if ts_tags t = [] then ''[]'' else ts_tags t)\<rparr>"

definition record_tombstone :: "tombstone \<Rightarrow> store \<Rightarrow> store" where
  "record_tombstone t s = s\<lparr>st_tombstones := upsert_row ts_memory (tombstone_defaults t) (st_tombstones s)\<rparr>"

text \<open>\<open>ORDER BY deleted_at_seq ASC, memory_id ASC\<close>\<close>

definition list_tombstones :: "string option \<Rightarrow> store \<Rightarrow> tombstone list" where
  "list_tombstones ns s =
     sort_key ts_seq (sort_key ts_memory (filter (\<lambda>t. when_given ns (\<lambda>n. ts_namespace t = n)) (st_tombstones s)))"

definition delete_tombstone :: "string \<Rightarrow> store \<Rightarrow> store" where
  "delete_tombstone m s = s\<lparr>st_tombstones := remove_key ts_memory m (st_tombstones s)\<rparr>"

definition delete_tombstones :: "string list \<Rightarrow> store \<Rightarrow> store \<times> nat" where
  "delete_tombstones ids s =
     (let ids = filter (\<lambda>m. m \<noteq> []) ids in
      (fold delete_tombstone ids s, length (filter (\<lambda>t. ts_memory t \<in> set ids) (st_tombstones s))))"

definition get_replay_watermark :: "string \<Rightarrow> store \<Rightarrow> watermark option" where
  "get_replay_watermark m s = find_key wm_memory m (st_watermarks s)"

definition set_replay_watermark :: "watermark \<Rightarrow> store \<Rightarrow> store" where
  "set_replay_watermark w s = s\<lparr>st_watermarks := upsert_row wm_memory w (st_watermarks s)\<rparr>"

definition delete_replay_watermark :: "string \<Rightarrow> store \<Rightarrow> store" where
  "delete_replay_watermark m s = s\<lparr>st_watermarks := remove_key wm_memory m (st_watermarks s)\<rparr>"

definition ledger_key :: "ledger_entry \<Rightarrow> string \<times> string \<times> string" where
  "ledger_key e = (le_caller e, le_namespace e, le_key e)"

definition get_operation_ledger :: "string \<times> string \<times> string \<Rightarrow> store \<Rightarrow> ledger_entry option" where
  "get_operation_ledger k s = find_key ledger_key k (st_ledger s)"

text \<open>\<open>ORDER BY created_at DESC, namespace ASC LIMIT 1\<close>\<close>

definition newer_entry :: "ledger_entry \<Rightarrow> ledger_entry \<Rightarrow> bool" where
  "newer_entry a b = (le_created_at b < le_created_at a \<or> (le_created_at a = le_created_at b \<and> le_namespace a < le_namespace b))"

definition get_operation_ledger_for_memory :: "string \<Rightarrow> string \<Rightarrow> string \<Rightarrow> store \<Rightarrow> ledger_entry option" where
  "get_operation_ledger_for_memory caller k m s =
     (case filter (\<lambda>e. le_caller e = caller \<and> le_key e = k \<and> le_memory e = m) (st_ledger s) of
        [] \<Rightarrow> None
      | e # es \<Rightarrow> Some (fold (\<lambda>a b. if newer_entry a b then a else b) es e))"

definition put_operation_ledger :: "ledger_entry \<Rightarrow> store \<Rightarrow> store" where
  "put_operation_ledger e s = s\<lparr>st_ledger := replace_row ledger_key e (st_ledger s)\<rparr>"

section \<open>The tables are keyed tables\<close>

interpretation tombstones: keyed_table ts_memory tombstone_defaults get_tombstone record_tombstone delete_tombstone
  by unfold_locales
    (auto simp: get_tombstone_def record_tombstone_def delete_tombstone_def tombstone_defaults_def
      find_key_upsert find_key_remove)

interpretation watermarks: keyed_table wm_memory "\<lambda>w. w" get_replay_watermark set_replay_watermark delete_replay_watermark
  by unfold_locales
    (auto simp: get_replay_watermark_def set_replay_watermark_def delete_replay_watermark_def
      find_key_upsert find_key_remove)

interpretation ledger: table_lookup ledger_key "\<lambda>e. e" get_operation_ledger put_operation_ledger
  by unfold_locales (auto simp: get_operation_ledger_def put_operation_ledger_def find_key_replace)

lemma get_meta_set [simp]: "get_meta k (set_meta k' v s) = (if k = k' then Some v else get_meta k s)"
  by (simp add: get_meta_def set_meta_def find_key_replace)

lemma get_meta_delete [simp]: "get_meta k (delete_meta k' s) = (if k = k' then None else get_meta k s)"
  by (simp add: get_meta_def delete_meta_def find_key_remove)

interpretation metadata: keyed_table fst "\<lambda>p. p" "\<lambda>k s. map_option (Pair k) (get_meta k s)"
  "\<lambda>p. set_meta (fst p) (snd p)" delete_meta
  by unfold_locales auto

lemma meta_str_set [simp]: "meta_str k (set_meta k' v s) = (if k = k' then v else meta_str k s)"
  by (simp add: meta_str_def)

lemma meta_int_set [simp]: "meta_int k (set_meta k' (int_str i) s) = (if k = k' then Inr i else meta_int k s)"
  by (simp add: meta_int_def)

lemma meta_int_set_other: "k \<noteq> k' \<Longrightarrow> meta_int k (set_meta k' v s) = meta_int k s"
  by (simp add: meta_int_def)

section \<open>What an operation leaves alone\<close>

lemmas read_defs = get_meta_def meta_str_def meta_int_def get_tombstone_def get_replay_watermark_def get_memory_def
  get_operation_ledger_def event_at_seq_def

lemma set_meta_frame [simp]:
  "st_memories (set_meta k v s) = st_memories s"
  "st_events (set_meta k v s) = st_events s"
  "st_last_seq (set_meta k v s) = st_last_seq s"
  "st_tombstones (set_meta k v s) = st_tombstones s"
  "st_watermarks (set_meta k v s) = st_watermarks s"
  "st_ledger (set_meta k v s) = st_ledger s"
  "get_tombstone a (set_meta k v s) = get_tombstone a s"
  "get_replay_watermark a (set_meta k v s) = get_replay_watermark a s"
  "get_memory a (set_meta k v s) = get_memory a s"
  "get_operation_ledger c (set_meta k v s) = get_operation_ledger c s"
  "event_at_seq n (set_meta k v s) = event_at_seq n s"
  by (simp_all add: set_meta_def read_defs)

lemma delete_meta_frame [simp]:
  "st_memories (delete_meta k s) = st_memories s"
  "st_events (delete_meta k s) = st_events s"
  "st_last_seq (delete_meta k s) = st_last_seq s"
  "st_tombstones (delete_meta k s) = st_tombstones s"
  "st_watermarks (delete_meta k s) = st_watermarks s"
  "st_ledger (delete_meta k s) = st_ledger s"
  "get_tombstone a (delete_meta k s) = get_tombstone a s"
  "get_replay_watermark a (delete_meta k s) = get_replay_watermark a s"
  "get_memory a (delete_meta k s) = get_memory a s"
  "get_operation_ledger c (delete_meta k s) = get_operation_ledger c s"
  "event_at_seq n (delete_meta k s) = event_at_seq n s"
  by (simp_all add: delete_meta_def read_defs)

lemma record_tombstone_frame [simp]:
  "st_memories (record_tombstone t s) = st_memories s"
  "st_events (record_tombstone t s) = st_events s"
  "st_last_seq (record_tombstone t s) = st_last_seq s"
  "st_meta (record_tombstone t s) = st_meta s"
  "st_watermarks (record_tombstone t s) = st_watermarks s"
  "st_ledger (record_tombstone t s) = st_ledger s"
  "get_meta a (record_tombstone t s) = get_meta a s"
  "meta_str a (record_tombstone t s) = meta_str a s"
  "meta_int a (record_tombstone t s) = meta_int a s"
  "get_replay_watermark a (record_tombstone t s) = get_replay_watermark a s"
  "get_memory a (record_tombstone t s) = get_memory a s"
  "get_operation_ledger c (record_tombstone t s) = get_operation_ledger c s"
  "event_at_seq n (record_tombstone t s) = event_at_seq n s"
  by (simp_all add: record_tombstone_def read_defs)

lemma delete_tombstone_frame [simp]:
  "st_memories (delete_tombstone m s) = st_memories s"
  "st_events (delete_tombstone m s) = st_events s"
  "st_last_seq (delete_tombstone m s) = st_last_seq s"
  "st_meta (delete_tombstone m s) = st_meta s"
  "st_watermarks (delete_tombstone m s) = st_watermarks s"
  "st_ledger (delete_tombstone m s) = st_ledger s"
  "get_meta a (delete_tombstone m s) = get_meta a s"
  "meta_str a (delete_tombstone m s) = meta_str a s"
  "meta_int a (delete_tombstone m s) = meta_int a s"
  "get_replay_watermark a (delete_tombstone m s) = get_replay_watermark a s"
  "get_memory a (delete_tombstone m s) = get_memory a s"
  "get_operation_ledger c (delete_tombstone m s) = get_operation_ledger c s"
  "event_at_seq n (delete_tombstone m s) = event_at_seq n s"
  by (simp_all add: delete_tombstone_def read_defs)

lemma set_replay_watermark_frame [simp]:
  "st_memories (set_replay_watermark w s) = st_memories s"
  "st_events (set_replay_watermark w s) = st_events s"
  "st_last_seq (set_replay_watermark w s) = st_last_seq s"
  "st_meta (set_replay_watermark w s) = st_meta s"
  "st_tombstones (set_replay_watermark w s) = st_tombstones s"
  "st_ledger (set_replay_watermark w s) = st_ledger s"
  "get_meta a (set_replay_watermark w s) = get_meta a s"
  "meta_str a (set_replay_watermark w s) = meta_str a s"
  "meta_int a (set_replay_watermark w s) = meta_int a s"
  "get_tombstone a (set_replay_watermark w s) = get_tombstone a s"
  "get_memory a (set_replay_watermark w s) = get_memory a s"
  "get_operation_ledger c (set_replay_watermark w s) = get_operation_ledger c s"
  "event_at_seq n (set_replay_watermark w s) = event_at_seq n s"
  by (simp_all add: set_replay_watermark_def read_defs)

lemma delete_replay_watermark_frame [simp]:
  "st_memories (delete_replay_watermark m s) = st_memories s"
  "st_events (delete_replay_watermark m s) = st_events s"
  "st_last_seq (delete_replay_watermark m s) = st_last_seq s"
  "st_meta (delete_replay_watermark m s) = st_meta s"
  "st_tombstones (delete_replay_watermark m s) = st_tombstones s"
  "st_ledger (delete_replay_watermark m s) = st_ledger s"
  "get_meta a (delete_replay_watermark m s) = get_meta a s"
  "meta_str a (delete_replay_watermark m s) = meta_str a s"
  "meta_int a (delete_replay_watermark m s) = meta_int a s"
  "get_tombstone a (delete_replay_watermark m s) = get_tombstone a s"
  "get_memory a (delete_replay_watermark m s) = get_memory a s"
  "get_operation_ledger c (delete_replay_watermark m s) = get_operation_ledger c s"
  "event_at_seq n (delete_replay_watermark m s) = event_at_seq n s"
  by (simp_all add: delete_replay_watermark_def read_defs)

lemma put_operation_ledger_frame [simp]:
  "st_memories (put_operation_ledger e s) = st_memories s"
  "st_events (put_operation_ledger e s) = st_events s"
  "st_last_seq (put_operation_ledger e s) = st_last_seq s"
  "st_meta (put_operation_ledger e s) = st_meta s"
  "st_tombstones (put_operation_ledger e s) = st_tombstones s"
  "st_watermarks (put_operation_ledger e s) = st_watermarks s"
  "get_meta a (put_operation_ledger e s) = get_meta a s"
  "meta_str a (put_operation_ledger e s) = meta_str a s"
  "meta_int a (put_operation_ledger e s) = meta_int a s"
  "get_tombstone a (put_operation_ledger e s) = get_tombstone a s"
  "get_replay_watermark a (put_operation_ledger e s) = get_replay_watermark a s"
  "get_memory a (put_operation_ledger e s) = get_memory a s"
  "event_at_seq n (put_operation_ledger e s) = event_at_seq n s"
  by (simp_all add: put_operation_ledger_def read_defs)

lemma delete_memory_row_frame [simp]:
  "st_events (delete_memory_row i s) = st_events s"
  "st_last_seq (delete_memory_row i s) = st_last_seq s"
  "st_meta (delete_memory_row i s) = st_meta s"
  "st_tombstones (delete_memory_row i s) = st_tombstones s"
  "st_watermarks (delete_memory_row i s) = st_watermarks s"
  "st_ledger (delete_memory_row i s) = st_ledger s"
  "get_meta a (delete_memory_row i s) = get_meta a s"
  "meta_str a (delete_memory_row i s) = meta_str a s"
  "meta_int a (delete_memory_row i s) = meta_int a s"
  "get_tombstone a (delete_memory_row i s) = get_tombstone a s"
  "get_replay_watermark a (delete_memory_row i s) = get_replay_watermark a s"
  "get_operation_ledger c (delete_memory_row i s) = get_operation_ledger c s"
  "event_at_seq n (delete_memory_row i s) = event_at_seq n s"
  by (simp_all add: delete_memory_row_def read_defs)

lemma update_columns_frame [simp]:
  "st_events (update_columns i cols s) = st_events s"
  "st_last_seq (update_columns i cols s) = st_last_seq s"
  "st_meta (update_columns i cols s) = st_meta s"
  "st_tombstones (update_columns i cols s) = st_tombstones s"
  "st_watermarks (update_columns i cols s) = st_watermarks s"
  "st_ledger (update_columns i cols s) = st_ledger s"
  "get_meta a (update_columns i cols s) = get_meta a s"
  "meta_str a (update_columns i cols s) = meta_str a s"
  "meta_int a (update_columns i cols s) = meta_int a s"
  "get_tombstone a (update_columns i cols s) = get_tombstone a s"
  "get_replay_watermark a (update_columns i cols s) = get_replay_watermark a s"
  "get_operation_ledger c (update_columns i cols s) = get_operation_ledger c s"
  "event_at_seq n (update_columns i cols s) = event_at_seq n s"
  by (simp_all add: update_columns_def read_defs)

end
