(* ===== verification/StoreIdentity.thy ===== *)
theory StoreIdentity
  imports Store
begin

text \<open>
  The logical identity of a store (\<open>db.py\<close>, \<open>mount.py\<close>): the mount, replica and
  history ids kept in \<open>store_meta\<close>, and the operations that bind, clone, restore, fork and replace
  them. New random ids and the sibling mount manifest are arguments.
\<close>

record mount_ident =
  mi_mount_id :: string
  mi_replica_id :: string
  mi_history_id :: string
  mi_runtime_generation :: string
  mi_base_snapshot_id :: string
  mi_base_state_fingerprint :: string
  mi_base_lineage_fingerprint :: string
  mi_base_source_mount_id :: string
  mi_base_source_replica_id :: string
  mi_base_history_id :: string
  mi_base_cursor :: string
  mi_parent_replica_id :: string
  mi_forked_at_seq :: int
  mi_forked_at_event_id :: string
  mi_cloned_at_seq :: int
  mi_trimmed_through_seq :: int
  mi_legacy_history :: bool
  mi_mount_bound :: bool

definition identity_to_dict :: "mount_ident \<Rightarrow> dict" where
  "identity_to_dict m =
     [(''mount_id'', JStr (mi_mount_id m)), (''replica_id'', JStr (mi_replica_id m)),
      (''history_id'', JStr (mi_history_id m)), (''runtime_generation'', JStr (mi_runtime_generation m)),
      (''base_snapshot_id'', JStr (mi_base_snapshot_id m)),
      (''base_state_fingerprint'', JStr (mi_base_state_fingerprint m)),
      (''base_lineage_fingerprint'', JStr (mi_base_lineage_fingerprint m)),
      (''base_source_mount_id'', JStr (mi_base_source_mount_id m)),
      (''base_source_replica_id'', JStr (mi_base_source_replica_id m)),
      (''base_history_id'', JStr (mi_base_history_id m)), (''base_cursor'', JStr (mi_base_cursor m)),
      (''parent_replica_id'', JStr (mi_parent_replica_id m)), (''forked_at_seq'', JInt (mi_forked_at_seq m)),
      (''forked_at_event_id'', JStr (mi_forked_at_event_id m)), (''cloned_at_seq'', JInt (mi_cloned_at_seq m)),
      (''trimmed_through_seq'', JInt (mi_trimmed_through_seq m)),
      (''legacy_history'', JBool (mi_legacy_history m)), (''mount_bound'', JBool (mi_mount_bound m))]"

text \<open>\<open>str(a or b or ... or "")\<close>\<close>

definition first_str :: "json list \<Rightarrow> string" where
  "first_str vs = (case filter truthy vs of v # _ \<Rightarrow> py_str v | [] \<Rightarrow> [])"

text \<open>\<open>int(value or 0)\<close>, 0 on \<open>TypeError\<close> and \<open>ValueError\<close>: an infinity is not caught.\<close>

definition lenient_int :: "json \<Rightarrow> py_exn + int" where
  "lenient_int v = (case py_int (por v (JInt 0)) of
     Inr i \<Rightarrow> Inr i
   | Inl e \<Rightarrow> (if e \<in> {TypeError, ValueError} then Inr 0 else Inl e))"

definition identity_from_dict :: "dict \<Rightarrow> py_exn + mount_ident" where
  "identity_from_dict d =
     (let g = dget d; src = dget (dict_of (g ''source'')) in
      rbind (lenient_int (g ''forked_at_seq'')) (\<lambda>forked.
      rbind (lenient_int (g ''cloned_at_seq'')) (\<lambda>cloned.
      rbind (lenient_int (g ''trimmed_through_seq'')) (\<lambda>trimmed.
      Inr \<lparr>mi_mount_id = first_str [g ''mount_id'', src ''mount_id''],
           mi_replica_id = first_str [g ''replica_id'', src ''replica_id''],
           mi_history_id = first_str [g ''history_id'', src ''history_id''],
           mi_runtime_generation = first_str [g ''runtime_generation''],
           mi_base_snapshot_id = first_str [g ''base_snapshot_id'', g ''snapshot_id'', g ''logical_id''],
           mi_base_state_fingerprint = first_str [g ''base_state_fingerprint'', g ''state_fingerprint''],
           mi_base_lineage_fingerprint = first_str [g ''base_lineage_fingerprint''],
           mi_base_source_mount_id = first_str [g ''base_source_mount_id''],
           mi_base_source_replica_id = first_str [g ''base_source_replica_id''],
           mi_base_history_id = first_str [g ''base_history_id''],
           mi_base_cursor = first_str [g ''base_cursor'', g ''replay_cursor''],
           mi_parent_replica_id = first_str [g ''parent_replica_id''],
           mi_forked_at_seq = forked, mi_forked_at_event_id = first_str [g ''forked_at_event_id''],
           mi_cloned_at_seq = cloned, mi_trimmed_through_seq = trimmed,
           mi_legacy_history = truthy (g ''legacy_history''), mi_mount_bound = truthy (g ''mount_bound'')\<rparr>))))"

definition mount_identity :: "string \<Rightarrow> store \<Rightarrow> mount_ident db_res" where
  "mount_identity generation s =
     rbind (meta_int ''forked_at_seq'' s) (\<lambda>forked.
     rbind (meta_int ''cloned_at_seq'' s) (\<lambda>cloned.
     rbind (meta_int ''trimmed_through_seq'' s) (\<lambda>trimmed.
     Inr \<lparr>mi_mount_id = meta_str ''mount_id'' s, mi_replica_id = meta_str ''replica_id'' s,
          mi_history_id = meta_str ''history_id'' s, mi_runtime_generation = generation,
          mi_base_snapshot_id = meta_str ''base_snapshot_id'' s,
          mi_base_state_fingerprint = meta_str ''base_state_fingerprint'' s,
          mi_base_lineage_fingerprint = meta_str ''base_lineage_fingerprint'' s,
          mi_base_source_mount_id = meta_str ''base_source_mount_id'' s,
          mi_base_source_replica_id = meta_str ''base_source_replica_id'' s,
          mi_base_history_id = meta_str ''base_history_id'' s, mi_base_cursor = meta_str ''base_cursor'' s,
          mi_parent_replica_id = meta_str ''parent_replica_id'' s, mi_forked_at_seq = forked,
          mi_forked_at_event_id = meta_str ''forked_at_event_id'' s, mi_cloned_at_seq = cloned,
          mi_trimmed_through_seq = trimmed, mi_legacy_history = (get_meta ''legacy_history'' s = Some ''1''),
          mi_mount_bound = (get_meta ''mount_bound'' s = Some ''1'')\<rparr>)))"

section \<open>Binding an identity\<close>

text \<open>
  \<open>_ensure_mount_identity\<close>: \<open>None\<close> is the absence of a mount manifest, \<open>Some m\<close> a
  manifest whose stripped \<open>mount_id\<close> is \<open>m\<close>; the manifest that is left is returned.
\<close>

definition bind_mount :: "store \<Rightarrow> store" where
  "bind_mount s = set_meta ''mount_bound'' ''1'' s"

definition ensure_mount_identity ::
  "string option \<Rightarrow> string \<Rightarrow> string \<Rightarrow> string \<Rightarrow> store \<Rightarrow> (store \<times> string option) db_res" where
  "ensure_mount_identity manifest new_mount new_replica new_history s =
     (let m = meta_str ''mount_id'' s;
          mm = (case manifest of None \<Rightarrow> [] | Some x \<Rightarrow> x);
          bound = (get_meta ''mount_bound'' s = Some ''1'');
          ids = (\<lambda>t. let t1 = (if meta_str ''replica_id'' s = [] then set_meta ''replica_id'' new_replica t else t) in
                    if meta_str ''history_id'' s = [] then set_meta ''history_id'' new_history t1 else t1) in
      if m = [] then
        (let s1 = (if (st_memories s \<noteq> [] \<or> st_events s \<noteq> []) \<and> get_meta ''legacy_history'' s = None
                   then set_meta ''legacy_history'' ''1'' s else s) in
         if mm \<noteq> [] then Inr (ids (bind_mount (set_meta ''mount_id'' mm s1)), manifest)
         else if manifest \<noteq> None then Inr (ids (bind_mount (set_meta ''mount_id'' new_mount s1)), Some new_mount)
         else Inr (ids (set_meta ''mount_id'' new_mount s1), None))
      else if mm \<noteq> [] \<and> m \<noteq> mm then Inl (DbPy ValueError)
      else if manifest \<noteq> None then Inr (ids (if bound then s else bind_mount s), Some m)
      else Inr (ids s, None))"

definition set_optional_id :: "string \<Rightarrow> string option \<Rightarrow> store \<Rightarrow> store db_res" where
  "set_optional_id k v s = (case v of
     None \<Rightarrow> Inr s
   | Some x \<Rightarrow> (if strip x = [] then Inl (DbPy ValueError) else Inr (set_meta k (strip x) s)))"

definition set_mount_identity ::
  "string \<Rightarrow> string option \<Rightarrow> string option \<Rightarrow> store \<Rightarrow> (store \<times> mount_ident) db_res" where
  "set_mount_identity mount replica history s =
     (if strip mount = [] then Inl (DbPy ValueError)
      else rbind (set_optional_id ''replica_id'' replica (bind_mount (set_meta ''mount_id'' (strip mount) s))) (\<lambda>s1.
        rbind (set_optional_id ''history_id'' history s1) (\<lambda>s2.
        rbind (mount_identity [] s2) (\<lambda>i. Inr (s2, i)))))"

section \<open>Clone, restore, fork, replacement\<close>

definition ITER_COLUMNS :: "string list" where
  "ITER_COLUMNS = [''id'', ''identifier'', ''fact_text'', ''embedding_dim'', ''embedding_model'', ''source'',
     ''importance'', ''metadata_json'', ''content_hash'', ''ttl_seconds'', ''created_at'', ''namespace'', ''tier'',
     ''memory_type'', ''source_uri'', ''source_format'', ''source_checksum'', ''byte_offset'', ''byte_length'',
     ''updated_at'', ''snapshot_id'', ''promotion_state'', ''promotion_candidate'', ''parent_memory'',
     ''related_memories'', ''tags'', ''schema_version'', ''fact_summary'', ''provenance_json'']"

definition iter_rows :: "bool \<Rightarrow> store \<Rightarrow> dict list" where
  "iter_rows include_embedding s =
     map (\<lambda>r. map (\<lambda>c. (c, dget r c)) (ITER_COLUMNS @ (if include_embedding then [''embedding''] else [])))
       (sort_key (\<lambda>r. py_str (row_key r)) (st_memories s))"

definition lineage_of_store :: "store \<Rightarrow> string db_res" where
  "lineage_of_store s =
     map_sum DbRecord id (lineage_fingerprint (map (\<lambda>r. (r, [])) (iter_rows False s)))"

record clone_base =
  cb_mount :: string
  cb_replica :: string
  cb_history :: string
  cb_snapshot :: string
  cb_state_fingerprint :: string
  cb_cursor :: string
  cb_scope :: string

definition set_if :: "bool \<Rightarrow> string \<Rightarrow> string \<Rightarrow> store \<Rightarrow> store" where
  "set_if b k v s = (if b then set_meta k v s else s)"

definition rotate_id :: "string \<Rightarrow> string \<Rightarrow> string \<Rightarrow> store \<Rightarrow> store" where
  "rotate_id k source fresh s =
     (let cur = meta_str k s in set_if (cur = [] \<or> (source \<noteq> [] \<and> cur = source)) k fresh s)"

definition clone_identity :: "clone_base \<Rightarrow> bool \<Rightarrow> string \<Rightarrow> string \<Rightarrow> store \<Rightarrow> store" where
  "clone_identity b adopt new_replica new_history s =
     (let m = strip (cb_mount b); r = strip (cb_replica b); h = strip (cb_history b);
          s1 = (if adopt \<and> m \<noteq> [] then bind_mount (set_meta ''mount_id'' m s) else s);
          s2 = rotate_id ''history_id'' h new_history (rotate_id ''replica_id'' r new_replica s1);
          s3 = set_if (h \<noteq> []) ''base_history_id'' h (set_if (r \<noteq> []) ''base_source_replica_id'' r
                 (set_if (m \<noteq> []) ''base_source_mount_id'' m s2));
          s4 = set_meta ''base_snapshot_scope'' (cb_scope b)
                 (set_if (cb_snapshot b \<noteq> []) ''base_snapshot_id'' (cb_snapshot b) s3) in
      set_if (cb_state_fingerprint b \<noteq> []) ''base_state_fingerprint'' (cb_state_fingerprint b) s4)"

definition record_clone_lineage ::
  "clone_base \<Rightarrow> bool \<Rightarrow> string \<Rightarrow> string \<Rightarrow> store \<Rightarrow> (store \<times> mount_ident) db_res" where
  "record_clone_lineage b adopt new_replica new_history s =
     (let s1 = clone_identity b adopt new_replica new_history s in
      rbind (lineage_of_store s1) (\<lambda>fp.
      let s2 = set_if (cb_cursor b \<noteq> []) ''base_cursor'' (cb_cursor b) (set_meta ''base_lineage_fingerprint'' fp s1) in
      rbind (event_log_bounds s2) (\<lambda>bounds.
      let s3 = set_meta ''cloned_at_seq'' (int_str (lb_max_seq bounds)) s2 in
      rbind (mount_identity [] s3) (\<lambda>i. Inr (s3, i)))))"

definition restore_lineage ::
  "clone_base \<Rightarrow> string \<Rightarrow> string \<Rightarrow> string \<Rightarrow> string \<Rightarrow> store \<Rightarrow> (store \<times> mount_ident) db_res" where
  "restore_lineage b replica history new_replica new_history s =
     record_clone_lineage b True new_replica new_history
       (set_meta ''history_id'' history (set_meta ''replica_id'' replica s))"

definition fork_replica ::
  "store option \<Rightarrow> string \<Rightarrow> string \<Rightarrow> store \<Rightarrow> (store \<times> mount_ident) db_res" where
  "fork_replica parent new_replica new_history s =
     (let source = (case parent of None \<Rightarrow> s | Some p \<Rightarrow> p) in
      rbind (mount_identity [] source) (\<lambda>pi.
      rbind (event_log_bounds source) (\<lambda>bounds.
      let s1 = (if mi_mount_id pi \<noteq> [] then bind_mount (set_meta ''mount_id'' (mi_mount_id pi) s) else s);
          s2 = set_meta ''forked_at_event_id'' (lb_head_event_id bounds)
                 (set_meta ''forked_at_seq'' (int_str (lb_max_seq bounds))
                 (set_meta ''parent_replica_id'' (mi_replica_id pi) s1));
          s3 = set_meta ''history_id'' new_history (set_meta ''replica_id'' new_replica s2) in
      rbind (mount_identity [] s3) (\<lambda>i. Inr (s3, i)))))"

definition CLEARED_KEYS :: "string list" where
  "CLEARED_KEYS = [''base_snapshot_id'', ''base_state_fingerprint'', ''base_lineage_fingerprint'',
     ''base_source_mount_id'', ''base_source_replica_id'', ''base_history_id'', ''base_cursor'',
     ''parent_replica_id'', ''last_replay_cursor'']"

definition replace_ids :: "bool \<Rightarrow> string \<Rightarrow> string \<Rightarrow> string \<Rightarrow> store \<Rightarrow> store" where
  "replace_ids keep_mount new_mount new_replica new_history s =
     (let prev_r = meta_str ''replica_id'' s; prev_h = meta_str ''history_id'' s;
          s1 = set_if (prev_h \<noteq> []) ''replaced_previous_history_id'' prev_h
                 (set_if (prev_r \<noteq> []) ''replaced_previous_replica_id'' prev_r s);
          s2 = bind_mount (set_if (\<not> keep_mount) ''mount_id'' new_mount s1) in
      set_meta ''history_id'' new_history (set_meta ''replica_id'' new_replica s2))"

definition reset_epoch :: "store \<Rightarrow> store" where
  "reset_epoch s =
     (let s1 = fold (\<lambda>k. set_meta k []) CLEARED_KEYS s;
          s2 = set_meta ''cloned_at_seq'' ''0'' (set_meta ''forked_at_event_id'' [] (set_meta ''forked_at_seq'' ''0'' s1));
          s3 = set_meta ''compacted_tombstones_through_seq'' ''0'' (set_meta ''trimmed_through_seq'' ''0'' s2);
          s4 = set_meta ''last_known_head_event_id'' [] (set_meta ''last_known_head_seq'' ''0'' s3);
          s5 = set_meta ''history_epoch_start_seq'' (int_str (max_seq (st_events s))) s4 in
      s5\<lparr>st_tombstones := [], st_watermarks := []\<rparr>)"

definition replace_history ::
  "bool \<Rightarrow> string \<Rightarrow> string \<Rightarrow> string \<Rightarrow> store \<Rightarrow> (store \<times> mount_ident) db_res" where
  "replace_history keep_mount new_mount new_replica new_history s =
     (let s1 = reset_epoch (replace_ids keep_mount new_mount new_replica new_history s) in
      rbind (mount_identity [] s1) (\<lambda>i. Inr (s1, i)))"

section \<open>What the identity operations promise\<close>

lemma first_str_JStr [simp]: "first_str (JStr a # vs) = (if a \<noteq> [] then a else first_str vs)"
  by (simp add: first_str_def py_str_def)

lemma first_str_JNull [simp]: "first_str (JNull # vs) = first_str vs" "first_str [] = []"
  by (simp_all add: first_str_def)

lemma lenient_int_JInt [simp]: "lenient_int (JInt i) = Inr i"
  by (simp add: lenient_int_def por_def py_int_def)

text \<open>A mount identity survives its portable form: reading back what
  \<open>to_dict\<close> writes gives the same identity.
\<close>

theorem identity_roundtrip: "identity_from_dict (identity_to_dict m) = Inr m"
  by (simp add: identity_from_dict_def identity_to_dict_def Let_def)

lemma mount_identity_fields:
  assumes "mount_identity g s = Inr i"
  shows "mi_mount_id i = meta_str ''mount_id'' s" "mi_replica_id i = meta_str ''replica_id'' s"
    "mi_history_id i = meta_str ''history_id'' s" "mi_base_snapshot_id i = meta_str ''base_snapshot_id'' s"
    "mi_parent_replica_id i = meta_str ''parent_replica_id'' s"
    "meta_int ''forked_at_seq'' s = Inr (mi_forked_at_seq i)"
    "mi_forked_at_event_id i = meta_str ''forked_at_event_id'' s"
    "mi_base_history_id i = meta_str ''base_history_id'' s"
    "mi_base_source_replica_id i = meta_str ''base_source_replica_id'' s"
    "mi_legacy_history i = (get_meta ''legacy_history'' s = Some ''1'')"
    "mi_mount_bound i = (get_meta ''mount_bound'' s = Some ''1'')"
  using assms by (auto simp: mount_identity_def rbind_eq_Inr)

text \<open>A fork stays on the logical mount of its parent, gets the new replica and history
  ids, and records the parent replica and the parent log position it forked at.
\<close>

theorem fork_replica_lineage:
  assumes "fork_replica (Some p) r h s = Inr (s', i)" "mount_identity [] p = Inr pi" "event_log_bounds p = Inr b"
    and "mi_mount_id pi \<noteq> []"
  shows "mi_mount_id i = mi_mount_id pi \<and> mi_replica_id i = r \<and> mi_history_id i = h
    \<and> mi_parent_replica_id i = mi_replica_id pi \<and> mi_forked_at_seq i = lb_max_seq b
    \<and> mi_forked_at_event_id i = lb_head_event_id b \<and> mi_mount_bound i \<and> st_memories s' = st_memories s"
proof -
  let ?s1 = "bind_mount (set_meta ''mount_id'' (mi_mount_id pi) s)"
  have s': "s' = set_meta ''history_id'' h (set_meta ''replica_id'' r (set_meta ''forked_at_event_id'' (lb_head_event_id b)
      (set_meta ''forked_at_seq'' (int_str (lb_max_seq b)) (set_meta ''parent_replica_id'' (mi_replica_id pi) ?s1))))"
    and i: "mount_identity [] s' = Inr i"
    using assms by (auto simp: fork_replica_def rbind_eq_Inr Let_def)
  show ?thesis
    using mount_identity_fields [OF i] by (simp add: s' bind_mount_def meta_int_set_other)
qed

text \<open>A clone never impersonates its source: after recording its base, the clone is on
  the source mount, and its replica and history ids are non-empty and differ from those of the source,
  which are kept as its base.
\<close>

theorem clone_identity_distinct:
  assumes "record_clone_lineage b True r h s = Inr (s', i)"
    and "strip (cb_mount b) \<noteq> []" "strip (cb_replica b) \<noteq> []" "strip (cb_history b) \<noteq> []"
    and "r \<noteq> []" "r \<noteq> strip (cb_replica b)" "h \<noteq> []" "h \<noteq> strip (cb_history b)"
  shows "mi_mount_id i = strip (cb_mount b)
    \<and> mi_replica_id i \<noteq> [] \<and> mi_replica_id i \<noteq> strip (cb_replica b)
    \<and> mi_history_id i \<noteq> [] \<and> mi_history_id i \<noteq> strip (cb_history b)
    \<and> mi_base_source_replica_id i = strip (cb_replica b) \<and> mi_base_history_id i = strip (cb_history b)"
proof -
  obtain fp n where s': "s' = set_meta ''cloned_at_seq'' n (set_if (cb_cursor b \<noteq> []) ''base_cursor'' (cb_cursor b)
      (set_meta ''base_lineage_fingerprint'' fp (clone_identity b True r h s)))"
    and i: "mount_identity [] s' = Inr i"
    using assms(1) by (auto simp: record_clone_lineage_def rbind_eq_Inr Let_def)
  show ?thesis
    using assms(2-)
    by (simp add: mount_identity_fields [OF i] s' clone_identity_def rotate_id_def set_if_def bind_mount_def Let_def)
qed

definition example_source :: store where
  "example_source = set_meta ''history_id'' ''h0'' (set_meta ''replica_id'' ''r0'' (set_meta ''mount_id'' ''m0'' empty_store))"

lemma mount_identity_ok:
  assumes "meta_int ''forked_at_seq'' s = Inr a" "meta_int ''cloned_at_seq'' s = Inr b"
    "meta_int ''trimmed_through_seq'' s = Inr c"
  shows "\<exists>i. mount_identity g s = Inr i"
  using assms by (simp add: mount_identity_def)

lemma example_ints: "meta_int k empty_store = Inr 0"
    "k \<notin> {''mount_id'', ''replica_id'', ''history_id''} \<Longrightarrow> meta_int k example_source = Inr 0"
  by (simp_all add: example_source_def meta_int_set_other)
    (simp_all add: meta_int_def meta_str_def get_meta_def empty_store_def)

lemma fork_replica_lineage_witness:
  "\<exists>s' i. fork_replica (Some example_source) ''r1'' ''h1'' empty_store = Inr (s', i)
     \<and> mi_mount_id i = ''m0'' \<and> mi_parent_replica_id i = ''r0''"
proof -
  obtain pi where p: "mount_identity [] example_source = Inr pi"
    using mount_identity_ok [of example_source 0 0 0] by (auto simp: example_ints)
  obtain b where b: "event_log_bounds example_source = Inr b"
    by (simp add: event_log_bounds_def example_ints Let_def)
  have m: "mi_mount_id pi = ''m0''" "mi_replica_id pi = ''r0''"
    by (simp_all add: mount_identity_fields [OF p] example_source_def)
  let ?s = "set_meta ''history_id'' ''h1'' (set_meta ''replica_id'' ''r1'' (set_meta ''forked_at_event_id'' (lb_head_event_id b)
      (set_meta ''forked_at_seq'' (int_str (lb_max_seq b)) (set_meta ''parent_replica_id'' ''r0''
      (bind_mount (set_meta ''mount_id'' ''m0'' empty_store))))))"
  obtain j where "mount_identity [] ?s = Inr j"
    using mount_identity_ok [of ?s "lb_max_seq b" 0 0] by (auto simp: bind_mount_def example_ints meta_int_set_other)
  then have f: "fork_replica (Some example_source) ''r1'' ''h1'' empty_store = Inr (?s, j)"
    by (simp add: fork_replica_def p b m)
  from fork_replica_lineage [OF f p b] f show ?thesis by (auto simp: m)
qed

lemma clone_identity_distinct_witness:
  "\<exists>s' i. record_clone_lineage \<lparr>cb_mount = ''m0'', cb_replica = ''r0'', cb_history = ''h0'', cb_snapshot = [],
      cb_state_fingerprint = [], cb_cursor = [], cb_scope = []\<rparr> True ''r1'' ''h1'' example_source = Inr (s', i)
     \<and> mi_mount_id i = ''m0'' \<and> mi_replica_id i \<noteq> ''r0''"
proof -
  let ?b = "\<lparr>cb_mount = ''m0'', cb_replica = ''r0'', cb_history = ''h0'', cb_snapshot = [],
      cb_state_fingerprint = [], cb_cursor = [], cb_scope = []\<rparr>"
  have st: "strip ''m0'' = ''m0''" "strip ''r0'' = ''r0''" "strip ''h0'' = ''h0''" by code_simp+
  have "st_memories (clone_identity ?b True ''r1'' ''h1'' example_source) = []"
    by (simp add: clone_identity_def rotate_id_def set_if_def bind_mount_def Let_def example_source_def empty_store_def)
  then have "\<exists>fp. lineage_of_store (clone_identity ?b True ''r1'' ''h1'' example_source) = Inr fp"
    by (simp add: lineage_of_store_def iter_rows_def lineage_fingerprint_def)
  then obtain fp where fp: "lineage_of_store (clone_identity ?b True ''r1'' ''h1'' example_source) = Inr fp" by blast
  let ?t = "set_meta ''base_lineage_fingerprint'' fp (clone_identity ?b True ''r1'' ''h1'' example_source)"
  have n: "meta_int k ?t = Inr 0" if "k \<in> {''forked_at_seq'', ''cloned_at_seq'', ''trimmed_through_seq'', ''last_known_head_seq''}" for k
    using that by (auto simp: clone_identity_def rotate_id_def set_if_def bind_mount_def Let_def st meta_int_set_other
        example_ints example_source_def [THEN arg_cong [of _ _ "meta_str _"]])
  obtain b' where b': "event_log_bounds ?t = Inr b'" using n by (simp add: event_log_bounds_def Let_def)
  let ?s = "set_meta ''cloned_at_seq'' (int_str (lb_max_seq b')) ?t"
  have "meta_int ''forked_at_seq'' ?s = Inr 0" "meta_int ''trimmed_through_seq'' ?s = Inr 0"
    "meta_int ''cloned_at_seq'' ?s = Inr (lb_max_seq b')"
    using n [of "''forked_at_seq''"] n [of "''trimmed_through_seq''"] by (simp_all del: set_meta_frame)
  then obtain j where "mount_identity [] ?s = Inr j" using mount_identity_ok by blast
  then have f: "record_clone_lineage ?b True ''r1'' ''h1'' example_source = Inr (?s, j)"
    by (simp add: record_clone_lineage_def fp b' set_if_def)
  from clone_identity_distinct [OF f] f show ?thesis by (auto simp: st)
qed

end
