(* ===== verification/StoreInv.thy ===== *)
theory StoreInv
  imports StoreIdentity
begin

text \<open>
  The invariant of the store and its preservation by every operation of \<open>db.py\<close>: the event log is
  strictly increasing in \<open>seq\<close> and never passes the autoincrement counter, the retention and
  compaction watermarks are ordered and lie below every retained event, and the keys and unique
  indexes of the tables hold. The facts about retention (what is deleted, what is recorded, what the
  head of the log remains) rest on it.
\<close>

section \<open>The invariant\<close>

definition log_inv :: "store \<Rightarrow> bool" where
  "log_inv s \<longleftrightarrow> sorted_wrt (<) (map ev_seq (st_events s)) \<and> distinct (map ev_id (st_events s))
     \<and> (\<forall>e \<in> set (st_events s). 0 < ev_seq e \<and> ev_seq e \<le> st_last_seq s) \<and> 0 \<le> st_last_seq s"

definition marks :: "store \<Rightarrow> int \<Rightarrow> int \<Rightarrow> int \<Rightarrow> bool" where
  "marks s compacted trimmed known \<longleftrightarrow>
     meta_int ''compacted_tombstones_through_seq'' s = Inr compacted \<and>
     meta_int ''trimmed_through_seq'' s = Inr trimmed \<and> meta_int ''last_known_head_seq'' s = Inr known"

definition marks_inv :: "store \<Rightarrow> bool" where
  "marks_inv s \<longleftrightarrow> (\<exists>c t k. marks s c t k \<and> 0 \<le> c \<and> c \<le> t \<and> t \<le> k \<and> k \<le> st_last_seq s
     \<and> (\<forall>e \<in> set (st_events s). t < ev_seq e) \<and> (st_events s \<noteq> [] \<longrightarrow> k \<le> max_seq (st_events s)))"

definition rows_inv :: "store \<Rightarrow> bool" where
  "rows_inv s \<longleftrightarrow> keys_distinct row_key (st_memories s)
     \<and> (\<forall>r \<in> set (st_memories s). \<forall>x \<in> set (st_memories s). same_identity r x \<longrightarrow> row_key r = row_key x)"

definition tables_inv :: "store \<Rightarrow> bool" where
  "tables_inv s \<longleftrightarrow> keys_distinct fst (st_meta s) \<and> keys_distinct ts_memory (st_tombstones s)
     \<and> keys_distinct wm_memory (st_watermarks s) \<and> keys_distinct ledger_key (st_ledger s)"

definition store_inv :: "store \<Rightarrow> bool" where
  "store_inv s \<longleftrightarrow> log_inv s \<and> marks_inv s \<and> rows_inv s \<and> tables_inv s"

text \<open>The keys the log operations own.\<close>

definition MARK_KEYS :: "string list" where
  "MARK_KEYS = [''compacted_tombstones_through_seq'', ''trimmed_through_seq'', ''last_known_head_seq'']"

lemma empty_store_inv: "store_inv empty_store"
proof -
  have "meta_int k empty_store = Inr 0" for k
    by (simp add: meta_int_def meta_str_def get_meta_def empty_store_def)
  then have "marks empty_store 0 0 0" by (simp add: marks_def)
  then have "marks_inv empty_store"
    unfolding marks_inv_def by (intro exI [of _ 0]) (simp add: empty_store_def)
  then show ?thesis
    by (simp add: store_inv_def log_inv_def rows_inv_def tables_inv_def keys_distinct_def empty_store_def)
qed

section \<open>The log as a list\<close>

lemma max_seq_ge: "e \<in> set evs \<Longrightarrow> ev_seq e \<le> max_seq evs"
  by (induction evs) (auto simp: max_seq_def)

lemma max_seq_nonneg: "0 \<le> max_seq evs"
  by (induction evs) (auto simp: max_seq_def)

lemma max_seq_mono: "set xs \<subseteq> set ys \<Longrightarrow> max_seq xs \<le> max_seq ys"
proof (induction xs)
  case Nil
  then show ?case using max_seq_nonneg [of ys] by (simp add: max_seq_def)
next
  case (Cons e xs)
  then show ?case using max_seq_ge [of e ys] by (simp add: max_seq_def)
qed

lemma max_seq_in:
  assumes "evs \<noteq> []" "\<And>e. e \<in> set evs \<Longrightarrow> 0 < ev_seq e"
  shows "\<exists>e \<in> set evs. ev_seq e = max_seq evs"
  using assms
proof (induction evs)
  case (Cons e evs)
  show ?case
  proof (cases "evs = []")
    case True
    then show ?thesis using Cons.prems(2) [of e] by (simp add: max_seq_def)
  next
    case False
    then obtain x where "x \<in> set evs" "ev_seq x = max_seq evs" using Cons by auto
    then show ?thesis by (auto simp: max_seq_def max_def)
  qed
qed simp

lemma max_seq_append: "max_seq (xs @ [e]) = max (max_seq xs) (max (ev_seq e) 0)"
  by (induction xs) (auto simp: max_seq_def)

lemma max_seq_le: "0 \<le> n \<Longrightarrow> (\<And>e. e \<in> set evs \<Longrightarrow> ev_seq e \<le> n) \<Longrightarrow> max_seq evs \<le> n"
  by (induction evs) (auto simp: max_seq_def)

lemma sorted_log: "log_inv s \<Longrightarrow> sorted (map ev_seq (st_events s))"
  unfolding log_inv_def using strict_sorted_imp_sorted by blast

lemma log_distinct_seq: "log_inv s \<Longrightarrow> keys_distinct ev_seq (st_events s)"
  unfolding log_inv_def keys_distinct_def using strict_sorted_iff by blast

lemma event_at_seq_iff: "log_inv s \<Longrightarrow> event_at_seq n s = Some e \<longleftrightarrow> e \<in> set (st_events s) \<and> ev_seq e = n"
  by (simp add: event_at_seq_def find_key_Some_iff log_distinct_seq)

lemma select_all: "log_inv s \<Longrightarrow> sort_key ev_seq (filter P (st_events s)) = filter P (st_events s)"
  by (intro sort_key_id_if_sorted sorted_filter sorted_log)

section \<open>Appending\<close>

lemma append_row_result:
  assumes "append_row e s = Inr (s', n)"
  shows "n = st_last_seq s + 1" "ev_id e \<notin> ev_id ` set (st_events s)"
    "s' = s\<lparr>st_events := st_events s @ [e\<lparr>ev_seq := n\<rparr>], st_last_seq := n\<rparr>"
  using assms by (auto simp: append_row_def Let_def split: if_splits)

lemma meta_update [simp]:
  "meta_int k (s\<lparr>st_events := es, st_last_seq := n\<rparr>) = meta_int k s"
  "meta_int k (s\<lparr>st_events := es\<rparr>) = meta_int k s"
  "meta_int k (s\<lparr>st_memories := ms\<rparr>) = meta_int k s"
  "meta_int k (s\<lparr>st_tombstones := ts, st_watermarks := ws\<rparr>) = meta_int k s"
  by (simp_all add: meta_int_def meta_str_def get_meta_def)

lemma meta_int_cong: "get_meta k s = get_meta k s' \<Longrightarrow> meta_int k s = meta_int k s'"
  by (simp add: meta_int_def meta_str_def)

lemma append_row_inv:
  assumes "append_row e s = Inr (s', n)" "store_inv s"
  shows "store_inv s'"
proof -
  note r = append_row_result [OF assms(1)]
  from assms(2) have l: "log_inv s" and m: "marks_inv s" by (auto simp: store_inv_def)
  have "log_inv s'"
    using l r(2) by (auto simp: log_inv_def r(1,3) sorted_wrt_append dest: less_le_trans)
  moreover obtain c t k where m: "marks s c t k" "0 \<le> c" "c \<le> t" "t \<le> k" "k \<le> st_last_seq s"
      "\<forall>e \<in> set (st_events s). t < ev_seq e" using m by (auto simp: marks_inv_def)
  moreover from m(5) have "k \<le> max_seq (st_events s @ [e\<lparr>ev_seq := n\<rparr>])"
    by (simp add: max_seq_append r(1))
  ultimately have "marks_inv s'"
    unfolding marks_inv_def by (intro exI [of _ c] exI [of _ t] exI [of _ k]) (auto simp: r(1,3) marks_def)
  with \<open>log_inv s'\<close> show ?thesis
    using assms(2) by (simp add: store_inv_def rows_inv_def tables_inv_def r(3))
qed

section \<open>Retention\<close>

text \<open>What deleting a prefix of the log and recording it does to the store.\<close>

definition prefix_closed :: "(event_row \<Rightarrow> bool) \<Rightarrow> event_row list \<Rightarrow> bool" where
  "prefix_closed P evs \<longleftrightarrow> (\<forall>x \<in> set evs. \<forall>y \<in> set evs. ev_seq x \<le> ev_seq y \<longrightarrow> P y \<longrightarrow> P x)"

lemma head_row_last:
  assumes "log_inv s" "st_events s \<noteq> []"
  shows "head_row s = Some (last (st_events s))" "ev_seq (last (st_events s)) = max_seq (st_events s)"
proof -
  let ?es = "st_events s"
  have all: "filter (event_matches any_event) ?es = ?es"
    by (simp add: event_matches_def any_event_def when_given_def)
  have "sort_key ev_seq (filter (event_matches any_event) ?es) = ?es"
    by (subst select_all [OF assms(1)]) (rule all)
  then have "select_events any_event 1 False s = [last ?es]"
    using assms(2) by (simp only: select_events_def Let_def if_False)
      (cases ?es rule: rev_cases; simp add: sql_limit_def)
  then show "head_row s = Some (last ?es)" by (simp add: head_row_def)
  have "ev_seq e \<le> ev_seq (last ?es)" if "e \<in> set ?es" for e
    using sorted_log [OF assms(1)] assms(2) that
    by (cases ?es rule: rev_cases) (auto simp: sorted_append)
  moreover have "0 < ev_seq (last ?es)" using assms by (auto simp: log_inv_def)
  ultimately have "max_seq ?es \<le> ev_seq (last ?es)" by (intro max_seq_le) auto
  then show "ev_seq (last ?es) = max_seq ?es"
    using max_seq_ge [of "last ?es" ?es] assms(2) by simp
qed

lemma delete_events_result:
  assumes "store_inv s" "prefix_closed P (st_events s)" "\<exists>e \<in> set (st_events s). P e"
  shows "\<exists>s'. delete_events P s = Inr (s', length (filter P (st_events s)))
    \<and> st_events s' = filter (\<lambda>e. \<not> P e) (st_events s) \<and> st_last_seq s' = st_last_seq s
    \<and> st_memories s' = st_memories s \<and> st_tombstones s' = st_tombstones s \<and> st_watermarks s' = st_watermarks s
    \<and> st_ledger s' = st_ledger s \<and> keys_distinct fst (st_meta s')
    \<and> meta_int ''trimmed_through_seq'' s' = Inr (max_seq (filter P (st_events s)))
    \<and> meta_int ''last_known_head_seq'' s' = Inr (max_seq (st_events s))
    \<and> get_meta ''last_known_head_event_id'' s' = Some (ev_id (last (st_events s)))
    \<and> (\<forall>k. k \<notin> {''trimmed_through_seq'', ''last_known_head_seq'', ''last_known_head_event_id''} \<longrightarrow>
         get_meta k s' = get_meta k s)"
proof -
  let ?es = "st_events s" and ?gone = "filter P (st_events s)"
  let ?s1 = "s\<lparr>st_events := filter (\<lambda>e. \<not> P e) ?es\<rparr>"
  from assms(1) have l: "log_inv s" and d: "keys_distinct fst (st_meta s)"
    by (auto simp: store_inv_def tables_inv_def)
  from assms(1) obtain c t k where m: "marks s c t k" "\<forall>e \<in> set ?es. t < ev_seq e" "?es \<noteq> [] \<longrightarrow> k \<le> max_seq ?es"
    by (auto simp: store_inv_def marks_inv_def)
  have ne: "?es \<noteq> []" and gne: "?gone \<noteq> []" using assms(3) by (auto simp: filter_empty_conv)
  obtain e where "e \<in> set ?gone" "ev_seq e = max_seq ?gone"
    using max_seq_in [OF gne] l by (auto simp: log_inv_def)
  then have t: "t < max_seq ?gone" using m(2) by auto
  note h = head_row_last [OF l ne]
  let ?h = "last ?es"
  let ?s2 = "set_meta ''last_known_head_event_id'' (ev_id ?h) (set_meta ''last_known_head_seq'' (int_str (ev_seq ?h))
    (set_meta ''trimmed_through_seq'' (int_str (max_seq ?gone)) ?s1))"
  have "record_trim (max_seq ?gone) (Some ?h) ?s1 = Inr ?s2"
    using m(1,3) t ne h(2) by (simp add: record_trim_def marks_def meta_int_set_other)
  then have "delete_events P s = Inr (?s2, length ?gone)"
    using gne by (simp add: delete_events_def Let_def h(1))
  moreover have "keys_distinct fst (st_meta ?s2)"
    using d by (simp add: set_meta_def keys_distinct_replace)
  moreover have "get_meta k ?s1 = get_meta k s" for k by (simp add: get_meta_def)
  ultimately show ?thesis
    by (intro exI [of _ ?s2]) (simp add: h(2) meta_int_set_other)
qed

lemma delete_events_none:
  assumes "\<not> (\<exists>e \<in> set (st_events s). P e)"
  shows "delete_events P s = Inr (s, 0)"
proof -
  have g: "filter P (st_events s) = []" and k: "filter (\<lambda>e. \<not> P e) (st_events s) = st_events s"
    using assms by (auto simp: filter_empty_conv intro!: filter_True)
  show ?thesis by (simp add: delete_events_def Let_def g k)
qed

lemma delete_events_total:
  assumes "store_inv s" "prefix_closed P (st_events s)"
  shows "\<exists>s' n. delete_events P s = Inr (s', n)"
  using delete_events_result [OF assms] delete_events_none [of s P] by blast

lemma delete_events_inv:
  assumes "store_inv s" "prefix_closed P (st_events s)" "delete_events P s = Inr (s', n)"
  shows "store_inv s'"
proof (cases "\<exists>e \<in> set (st_events s). P e")
  case False
  then show ?thesis using assms delete_events_none [OF False] by simp
next
  case True
  let ?es = "st_events s" and ?gone = "filter P (st_events s)"
  from delete_events_result [OF assms(1,2) True] assms(3)
  have r: "st_events s' = filter (\<lambda>e. \<not> P e) ?es" "st_last_seq s' = st_last_seq s" "st_memories s' = st_memories s"
    "st_tombstones s' = st_tombstones s" "st_watermarks s' = st_watermarks s" "st_ledger s' = st_ledger s"
    "keys_distinct fst (st_meta s')" "meta_int ''trimmed_through_seq'' s' = Inr (max_seq ?gone)"
    "meta_int ''last_known_head_seq'' s' = Inr (max_seq ?es)"
    "get_meta ''compacted_tombstones_through_seq'' s' = get_meta ''compacted_tombstones_through_seq'' s"
    by auto
  from assms(1) have l: "log_inv s" by (simp add: store_inv_def)
  from assms(1) obtain c t k where m: "marks s c t k" "0 \<le> c" "c \<le> t" "\<forall>e \<in> set ?es. t < ev_seq e"
    by (auto simp: store_inv_def marks_inv_def)
  have gne: "?gone \<noteq> []" using True by (auto simp: filter_empty_conv)
  obtain g where g: "g \<in> set ?gone" "ev_seq g = max_seq ?gone"
    using max_seq_in [OF gne] l by (auto simp: log_inv_def)
  have "log_inv s'"
    using l by (auto simp: log_inv_def r(1,2) sorted_wrt_filter sorted_wrt_map distinct_map_filter)
  moreover have "marks_inv s'"
    unfolding marks_inv_def
  proof (intro exI conjI)
    show "marks s' c (max_seq ?gone) (max_seq ?es)"
      using m(1) r(8,9) meta_int_cong [OF r(10)] by (simp add: marks_def)
    show "c \<le> max_seq ?gone" using m(3,4) g by force
    show "max_seq ?gone \<le> max_seq ?es" by (rule max_seq_mono) auto
    show "max_seq ?es \<le> st_last_seq s'" using l by (auto simp: r(2) log_inv_def intro!: max_seq_le)
    show "\<forall>e \<in> set (st_events s'). max_seq ?gone < ev_seq e"
      using assms(2) g by (auto simp: r(1) prefix_closed_def not_le [symmetric])
    show "st_events s' \<noteq> [] \<longrightarrow> max_seq ?es \<le> max_seq (st_events s')"
    proof
      assume ne: "st_events s' \<noteq> []"
      then obtain x where x: "x \<in> set (st_events s')" by fastforce
      have last: "last ?es \<in> set ?es" using True by (auto intro!: last_in_set)
      have "\<not> P (last ?es)"
        using x assms(2) last head_row_last(2) [OF l] max_seq_ge [of x ?es] True
        by (fastforce simp: r(1) prefix_closed_def)
      then have "last ?es \<in> set (st_events s')" using last by (simp add: r(1))
      from max_seq_ge [OF this] show "max_seq ?es \<le> max_seq (st_events s')"
        using head_row_last(2) [OF l] last by fastforce
    qed
  qed (use m(2) in auto)
  ultimately show ?thesis
    using assms(1) by (simp add: store_inv_def rows_inv_def tables_inv_def r)
qed

lemma before_prefix: "prefix_closed (\<lambda>e. ev_seq e < n) evs"
  by (auto simp: prefix_closed_def)

lemma newest_events:
  assumes "log_inv s" "0 \<le> keep"
  shows "select_events any_event keep False s = rev (drop (length (st_events s) - nat keep) (st_events s))"
proof -
  let ?es = "st_events s"
  have all: "filter (event_matches any_event) ?es = ?es"
    by (simp add: event_matches_def any_event_def when_given_def)
  have "sort_key ev_seq (filter (event_matches any_event) ?es) = ?es"
    by (subst select_all [OF assms(1)]) (rule all)
  then show ?thesis
    using assms(2) by (simp add: select_events_def sql_limit_def take_rev Let_def)
qed

lemma kept_iff:
  assumes "log_inv s" "0 \<le> keep" "e \<in> set (st_events s)"
  shows "ev_seq e \<in> set (map ev_seq (select_events any_event keep False s))
    \<longleftrightarrow> e \<in> set (drop (length (st_events s) - nat keep) (st_events s))"
proof -
  have "inj_on ev_seq (set (st_events s))"
    using log_distinct_seq [OF assms(1)] by (simp add: keys_distinct_def distinct_map)
  then show ?thesis
    using assms(3) set_drop_subset [of "length (st_events s) - nat keep" "st_events s"]
    by (auto simp: newest_events [OF assms(1,2)] inj_on_def)
qed

lemma by_count_prefix:
  assumes "log_inv s" "0 \<le> keep"
  shows "prefix_closed (\<lambda>e. ev_seq e \<notin> set (map ev_seq (select_events any_event keep False s))) (st_events s)"
  unfolding prefix_closed_def
proof (intro ballI impI)
  let ?n = "length (st_events s) - nat keep" and ?es = "st_events s"
  fix x y
  assume x: "x \<in> set ?es" and y: "y \<in> set ?es" and le: "ev_seq x \<le> ev_seq y"
    and "ev_seq y \<notin> set (map ev_seq (select_events any_event keep False s))"
  then have "y \<notin> set (drop ?n ?es)" using kept_iff [OF assms y] by blast
  then have yt: "y \<in> set (take ?n ?es)" using y by (metis Un_iff append_take_drop_id set_append)
  have "sorted_wrt (<) (map ev_seq (take ?n ?es @ drop ?n ?es))" using assms(1) by (simp add: log_inv_def)
  then have "\<forall>a \<in> set (take ?n ?es). \<forall>b \<in> set (drop ?n ?es). ev_seq a < ev_seq b"
    by (simp only: map_append sorted_wrt_append) (auto simp: sorted_wrt_append)
  then have "x \<notin> set (drop ?n ?es)" using yt le by force
  then show "ev_seq x \<notin> set (map ev_seq (select_events any_event keep False s))" using kept_iff [OF assms x] by blast
qed

lemma trim_before_inv: "store_inv s \<Longrightarrow> trim_events_before_seq n s = Inr (s', k) \<Longrightarrow> store_inv s'"
  unfolding trim_events_before_seq_def by (rule delete_events_inv [OF _ before_prefix])

lemma trim_count_inv:
  assumes "store_inv s" "trim_events_by_count keep s = Inr (s', k)"
  shows "store_inv s'"
proof -
  have "0 \<le> keep" "log_inv s"
    and d: "delete_events (\<lambda>e. ev_seq e \<notin> set (map ev_seq (select_events any_event keep False s))) s = Inr (s', k)"
    using assms by (auto simp: trim_events_by_count_def Let_def store_inv_def split: if_splits)
  then show ?thesis using delete_events_inv [OF assms(1) by_count_prefix d] by blast
qed

section \<open>Rows\<close>

lemma with_memories_inv: "store_inv s \<Longrightarrow> rows_inv s' \<Longrightarrow> s' = s\<lparr>st_memories := ms\<rparr> \<Longrightarrow> store_inv s'"
  by (auto simp: store_inv_def log_inv_def marks_inv_def marks_def tables_inv_def)

lemma same_identity_sym: "same_identity r x \<longleftrightarrow> same_identity x r"
  by (auto simp: same_identity_def)

lemma rows_inv_snoc:
  assumes "rows_inv s" "\<forall>x \<in> set ms. \<not> conflicting r x" "set ms \<subseteq> set (st_memories s)" "distinct (map row_key ms)"
  shows "rows_inv (s\<lparr>st_memories := ms @ [r]\<rparr>)"
proof -
  have "row_key r \<notin> row_key ` set ms" using assms(2) by (auto simp: conflicting_def)
  moreover have "\<not> same_identity r x \<and> \<not> same_identity x r" if "x \<in> set ms" for x
    using assms(2) that by (auto simp: conflicting_def same_identity_sym [of x])
  ultimately show ?thesis
    using assms(1,3,4) by (auto simp: rows_inv_def keys_distinct_def) (meson subsetD)
qed

lemma insert_row_inv:
  assumes "store_inv s" "insert_row now vals s = Inr s'"
  shows "store_inv s'"
proof -
  let ?r = "inserted_row now vals"
  have s': "s' = s\<lparr>st_memories := filter (\<lambda>x. \<not> conflicting ?r x) (st_memories s) @ [?r]\<rparr>"
    using assms(2) by (auto simp: insert_row_def Let_def split: if_splits)
  have "rows_inv s'"
    unfolding s' using assms(1)
    by (intro rows_inv_snoc) (auto simp: store_inv_def rows_inv_def keys_distinct_def distinct_map_filter)
  then show ?thesis by (rule with_memories_inv [OF assms(1) _ s'])
qed

lemma insert_ignore_inv: "store_inv (fst st) \<Longrightarrow> store_inv (fst (insert_ignore now vals st))"
proof -
  assume i: "store_inv (fst st)"
  let ?r = "inserted_row now vals"
  show ?thesis
  proof (cases "dget ?r ''identifier'' = JNull \<or> (\<exists>x \<in> set (st_memories (fst st)). conflicting ?r x)")
    case False
    then have "fst (insert_ignore now vals st) = (fst st)\<lparr>st_memories := st_memories (fst st) @ [?r]\<rparr>"
      by (simp add: insert_ignore_def Let_def)
    moreover have "rows_inv ((fst st)\<lparr>st_memories := st_memories (fst st) @ [?r]\<rparr>)"
      using i False by (intro rows_inv_snoc) (auto simp: store_inv_def rows_inv_def keys_distinct_def)
    ultimately show ?thesis using i with_memories_inv by metis
  qed (use i in \<open>simp add: insert_ignore_def Let_def\<close>)
qed

lemma insert_many_inv: "store_inv s \<Longrightarrow> store_inv (fst (insert_many_ignore now rs s))"
proof -
  have "store_inv (fst st) \<Longrightarrow> store_inv (fst (fold (insert_ignore now) rs st))" for st
    by (induction rs arbitrary: st) (simp_all add: insert_ignore_inv)
  from this [of "(s, 0)"] show "store_inv s \<Longrightarrow> ?thesis" by (simp add: insert_many_ignore_def)
qed

lemma delete_row_inv: "store_inv s \<Longrightarrow> store_inv (delete_memory_row i s)"
  by (rule with_memories_inv [of s])
    (auto simp: store_inv_def rows_inv_def delete_memory_row_def keys_distinct_remove set_remove_key)

lemma replace_record_inv:
  assumes "store_inv s" "replace_memory_record vals s = Inr (s', b)"
  shows "store_inv s'"
proof (cases b)
  case False
  then show ?thesis using assms by (auto simp: replace_memory_record_def Let_def split: if_splits)
next
  case True
  let ?r = "updated_row vals"
  have s': "s' = s\<lparr>st_memories := upsert_row row_key ?r (st_memories s)\<rparr>"
    and free: "\<forall>x \<in> set (st_memories s). row_key x \<noteq> row_key ?r \<longrightarrow> \<not> same_identity ?r x"
    using assms(2) True by (auto simp: replace_memory_record_def Let_def split: if_splits)
  let ?U = "insert ?r {x \<in> set (st_memories s). row_key x \<noteq> row_key ?r}"
  have sub: "set (upsert_row row_key ?r (st_memories s)) \<subseteq> ?U"
    by (auto simp: upsert_row_def image_iff)
  have same: "same_identity r x \<Longrightarrow> row_key r = row_key x" if "r \<in> ?U" "x \<in> ?U" for r x
    using that assms(1) free by (auto simp: store_inv_def rows_inv_def same_identity_sym [of _ ?r])
  have "\<forall>r \<in> set (st_memories s'). \<forall>x \<in> set (st_memories s'). same_identity r x \<longrightarrow> row_key r = row_key x"
    using same [OF subsetD [OF sub] subsetD [OF sub]] by (simp add: s')
  moreover have "keys_distinct row_key (st_memories s')"
    using assms(1) by (simp add: s' store_inv_def rows_inv_def keys_distinct_upsert)
  ultimately have "rows_inv s'" by (simp add: rows_inv_def)
  then show ?thesis by (rule with_memories_inv [OF assms(1) _ s'])
qed

definition IDENTITY_COLUMNS :: "string list" where
  "IDENTITY_COLUMNS = [''id'', ''namespace'', ''content_hash'']"

lemma dget_dict_update_other: "k \<notin> fst ` set cols \<Longrightarrow> dget (dict_update r cols) k = dget r k"
proof -
  have "k \<notin> fst ` set cols \<Longrightarrow> map_of (dict_update r cols) k = map_of r k"
    by (induction cols arbitrary: r) (auto simp: dict_update_Cons)
  then show "k \<notin> fst ` set cols \<Longrightarrow> ?thesis" by (simp add: dget_def)
qed

lemma update_columns_inv:
  assumes "store_inv s" "set IDENTITY_COLUMNS \<inter> fst ` set cols = {}"
  shows "store_inv (update_columns i cols s)"
proof -
  define f where "f = (\<lambda>r. if row_key r = JStr i then dict_update r cols else r)"
  have u: "update_columns i cols s = s\<lparr>st_memories := map f (st_memories s)\<rparr>"
    by (simp add: update_columns_def f_def)
  have d: "dget (f r) k = dget r k" if "k \<in> set IDENTITY_COLUMNS" for r k
    using that assms(2) by (auto simp: f_def intro!: dget_dict_update_other)
  then have k: "row_key (f r) = row_key r" for r
    unfolding row_key_def by (simp add: IDENTITY_COLUMNS_def)
  have "same_identity (f r) (f x) = same_identity r x" for r x
    unfolding same_identity_def indexed_def using d [of "''namespace''"] d [of "''content_hash''"]
    by (simp add: IDENTITY_COLUMNS_def)
  then have "rows_inv (update_columns i cols s)"
    using assms(1) k by (simp add: u store_inv_def rows_inv_def keys_distinct_def comp_def)
  then show ?thesis by (rule with_memories_inv [OF assms(1) _ u])
qed

lemma promotion_inv:
  "store_inv s \<Longrightarrow> store_inv (update_promotion_state i st at now s)"
  "store_inv s \<Longrightarrow> store_inv (set_promotion_candidate i c s)"
  by (auto simp: update_promotion_state_def set_promotion_candidate_def IDENTITY_COLUMNS_def intro!: update_columns_inv)

section \<open>Metadata and the other tables\<close>

lemma set_meta_inv: "store_inv s \<Longrightarrow> k \<notin> set MARK_KEYS \<Longrightarrow> store_inv (set_meta k v s)"
  by (auto simp: store_inv_def log_inv_def marks_inv_def marks_def rows_inv_def tables_inv_def MARK_KEYS_def
      meta_int_set_other set_meta_def [THEN arg_cong [of _ _ st_meta]] keys_distinct_replace)

lemma delete_meta_inv: "store_inv s \<Longrightarrow> k \<notin> set MARK_KEYS \<Longrightarrow> store_inv (delete_meta k s)"
proof -
  assume i: "store_inv s" and k: "k \<notin> set MARK_KEYS"
  have "meta_int k' (delete_meta k s) = meta_int k' s" if "k' \<in> set MARK_KEYS" for k'
    using that k by (intro meta_int_cong) (auto simp: MARK_KEYS_def)
  moreover have "keys_distinct fst (st_meta (delete_meta k s))"
    using i by (simp add: delete_meta_def keys_distinct_remove store_inv_def tables_inv_def)
  ultimately show ?thesis
    using i by (auto simp: store_inv_def log_inv_def marks_inv_def marks_def rows_inv_def tables_inv_def MARK_KEYS_def)
qed

lemma side_tables_inv:
  "store_inv s \<Longrightarrow> store_inv (record_tombstone t s)"
  "store_inv s \<Longrightarrow> store_inv (delete_tombstone m s)"
  "store_inv s \<Longrightarrow> store_inv (set_replay_watermark w s)"
  "store_inv s \<Longrightarrow> store_inv (delete_replay_watermark m s)"
  "store_inv s \<Longrightarrow> store_inv (put_operation_ledger e s)"
  by (simp_all add: store_inv_def log_inv_def marks_inv_def marks_def rows_inv_def tables_inv_def)
    (simp_all add: record_tombstone_def delete_tombstone_def set_replay_watermark_def delete_replay_watermark_def
      put_operation_ledger_def keys_distinct_upsert keys_distinct_remove keys_distinct_replace)

lemma delete_tombstones_inv: "store_inv s \<Longrightarrow> store_inv (fst (delete_tombstones ids s))"
proof -
  have "store_inv s \<Longrightarrow> store_inv (fold delete_tombstone ms s)" for ms s
    by (induction ms arbitrary: s) (simp_all add: side_tables_inv)
  then show "store_inv s \<Longrightarrow> ?thesis" by (simp add: delete_tombstones_def Let_def)
qed

lemma advance_compaction_inv:
  assumes "store_inv s" "meta_int ''trimmed_through_seq'' s = Inr t" "0 \<le> w" "w \<le> t"
  shows "store_inv (set_meta ''compacted_tombstones_through_seq'' (int_str w) s)"
proof -
  from assms(1) obtain c t' k where m: "marks s c t' k" "t' \<le> k" "k \<le> st_last_seq s"
      "\<forall>e \<in> set (st_events s). t' < ev_seq e" "st_events s \<noteq> [] \<longrightarrow> k \<le> max_seq (st_events s)"
    by (auto simp: store_inv_def marks_inv_def)
  then have "marks_inv (set_meta ''compacted_tombstones_through_seq'' (int_str w) s)"
    using assms(2-4) unfolding marks_inv_def
    by (intro exI [of _ w] exI [of _ t'] exI [of _ k]) (auto simp: marks_def)
  then show ?thesis
    using assms(1) by (simp add: store_inv_def log_inv_def rows_inv_def tables_inv_def)
      (simp add: set_meta_def keys_distinct_replace)
qed

section \<open>Identity operations\<close>

lemma set_if_inv: "store_inv s \<Longrightarrow> k \<notin> set MARK_KEYS \<Longrightarrow> store_inv (set_if b k v s)"
  by (simp add: set_if_def set_meta_inv)

lemma bind_mount_inv: "store_inv s \<Longrightarrow> store_inv (bind_mount s)"
  by (simp add: bind_mount_def set_meta_inv MARK_KEYS_def)

lemmas meta_inv = set_meta_inv set_if_inv bind_mount_inv

lemma ensure_mount_identity_inv:
  "store_inv s \<Longrightarrow> ensure_mount_identity manifest m r h s = Inr (s', manifest') \<Longrightarrow> store_inv s'"
  by (auto simp: ensure_mount_identity_def Let_def meta_inv MARK_KEYS_def split: if_splits)

lemma set_mount_identity_inv:
  "store_inv s \<Longrightarrow> set_mount_identity m r h s = Inr (s', i) \<Longrightarrow> store_inv s'"
  by (auto simp: set_mount_identity_def set_optional_id_def rbind_eq_Inr meta_inv MARK_KEYS_def
      split: if_splits option.splits)

lemma record_clone_lineage_inv:
  "store_inv s \<Longrightarrow> record_clone_lineage b adopt r h s = Inr (s', i) \<Longrightarrow> store_inv s'"
  by (auto simp: record_clone_lineage_def clone_identity_def rotate_id_def Let_def rbind_eq_Inr meta_inv MARK_KEYS_def)

lemma restore_lineage_inv:
  "store_inv s \<Longrightarrow> restore_lineage b r h r' h' s = Inr (s', i) \<Longrightarrow> store_inv s'"
  unfolding restore_lineage_def by (rule record_clone_lineage_inv) (simp_all add: meta_inv MARK_KEYS_def)

lemma fork_replica_inv: "store_inv s \<Longrightarrow> fork_replica p r h s = Inr (s', i) \<Longrightarrow> store_inv s'"
  by (auto simp: fork_replica_def Let_def rbind_eq_Inr meta_inv MARK_KEYS_def)

lemma fold_set_meta:
  "st_events (fold (\<lambda>k. set_meta k v) ks s) = st_events s" "st_last_seq (fold (\<lambda>k. set_meta k v) ks s) = st_last_seq s"
  "store_inv s \<Longrightarrow> set ks \<inter> set MARK_KEYS = {} \<Longrightarrow> store_inv (fold (\<lambda>k. set_meta k v) ks s)"
  by (induction ks arbitrary: s) (auto simp: set_meta_inv)

lemma meta_int_zero [simp]: "meta_int k (set_meta k' ''0'' s) = (if k = k' then Inr 0 else meta_int k s)"
proof -
  have "int_of_str ''0'' = Some 0" by code_simp
  then show ?thesis by (simp add: meta_int_def)
qed

lemma reset_epoch_inv:
  assumes "store_inv s"
  shows "store_inv (reset_epoch s)"
proof -
  let ?s1 = "fold (\<lambda>k. set_meta k []) CLEARED_KEYS s"
  have i1: "store_inv ?s1" using assms by (rule fold_set_meta(3)) (simp add: CLEARED_KEYS_def MARK_KEYS_def)
  have m: "marks (reset_epoch s) 0 0 0"
    by (simp add: marks_def reset_epoch_def Let_def meta_int_set_other)
  have e: "st_events (reset_epoch s) = st_events s" "st_last_seq (reset_epoch s) = st_last_seq s"
    "st_memories (reset_epoch s) = st_memories ?s1" "st_tombstones (reset_epoch s) = []" "st_watermarks (reset_epoch s) = []"
    "st_ledger (reset_epoch s) = st_ledger ?s1"
    by (simp_all add: reset_epoch_def Let_def fold_set_meta)
  have "keys_distinct fst (st_meta (reset_epoch s))"
    using i1 by (simp add: reset_epoch_def Let_def store_inv_def tables_inv_def)
      (simp add: set_meta_def keys_distinct_replace)
  moreover have "marks_inv (reset_epoch s)"
    unfolding marks_inv_def using m assms max_seq_nonneg
    by (intro exI [of _ 0]) (auto simp: e store_inv_def log_inv_def)
  ultimately show ?thesis
    using assms i1 by (simp add: store_inv_def log_inv_def rows_inv_def tables_inv_def e keys_distinct_def)
qed

lemma replace_history_inv:
  "store_inv s \<Longrightarrow> replace_history keep m r h s = Inr (s', i) \<Longrightarrow> store_inv s'"
  by (auto simp: replace_history_def replace_ids_def Let_def rbind_eq_Inr meta_inv MARK_KEYS_def intro!: reset_epoch_inv)

section \<open>What retention promises\<close>

lemma trim_count_eq:
  assumes "store_inv s" "trim_events_by_count keep s = Inr (s', k)"
  shows "0 \<le> keep" "prefix_closed (\<lambda>e. ev_seq e \<notin> set (map ev_seq (select_events any_event keep False s))) (st_events s)"
    "delete_events (\<lambda>e. ev_seq e \<notin> set (map ev_seq (select_events any_event keep False s))) s = Inr (s', k)"
proof -
  show k: "0 \<le> keep" using assms(2) by (auto simp: trim_events_by_count_def split: if_splits)
  show "delete_events (\<lambda>e. ev_seq e \<notin> set (map ev_seq (select_events any_event keep False s))) s = Inr (s', k)"
    using assms(2) by (auto simp: trim_events_by_count_def Let_def split: if_splits)
  show "prefix_closed (\<lambda>e. ev_seq e \<notin> set (map ev_seq (select_events any_event keep False s))) (st_events s)"
    using assms(1) k by (intro by_count_prefix) (simp add: store_inv_def)
qed

lemma delete_events_exact:
  assumes "store_inv s" "prefix_closed P (st_events s)" "delete_events P s = Inr (s', k)"
  shows "st_events s' = filter (\<lambda>e. \<not> P e) (st_events s)" "k = length (filter P (st_events s))"
    "\<exists>t. meta_int ''trimmed_through_seq'' s' = Inr t \<and> (\<forall>e \<in> set (st_events s). P e \<longrightarrow> ev_seq e \<le> t)
      \<and> (\<forall>e \<in> set (st_events s'). t < ev_seq e)"
proof -
  have i: "store_inv s'" by (rule delete_events_inv [OF assms])
  have "st_events s' = filter (\<lambda>e. \<not> P e) (st_events s) \<and> k = length (filter P (st_events s))"
  proof (cases "\<exists>e \<in> set (st_events s). P e")
    case True
    then show ?thesis using delete_events_result [OF assms(1,2) True] assms(3) by auto
  next
    case False
    then have "filter P (st_events s) = []" "filter (\<lambda>e. \<not> P e) (st_events s) = st_events s"
      by (auto simp: filter_empty_conv intro!: filter_True)
    then show ?thesis using delete_events_none [OF False] assms(3) by simp
  qed
  then show "st_events s' = filter (\<lambda>e. \<not> P e) (st_events s)" "k = length (filter P (st_events s))" by auto
  obtain t where t: "meta_int ''trimmed_through_seq'' s' = Inr t" "\<forall>e \<in> set (st_events s'). t < ev_seq e"
    using i by (auto simp: store_inv_def marks_inv_def marks_def)
  moreover have "\<forall>e \<in> set (st_events s). P e \<longrightarrow> ev_seq e \<le> t"
  proof (cases "\<exists>e \<in> set (st_events s). P e")
    case True
    then have "t = max_seq (filter P (st_events s))"
      using delete_events_result [OF assms(1,2) True] assms(3) t(1) by auto
    then show ?thesis by (auto intro: max_seq_ge)
  qed auto
  ultimately show "\<exists>t. meta_int ''trimmed_through_seq'' s' = Inr t \<and> (\<forall>e \<in> set (st_events s). P e \<longrightarrow> ev_seq e \<le> t)
      \<and> (\<forall>e \<in> set (st_events s'). t < ev_seq e)" by blast
qed

lemma bounds_total:
  assumes "store_inv s"
  shows "\<exists>b. event_log_bounds s = Inr b"
  using assms by (auto simp: store_inv_def marks_inv_def marks_def event_log_bounds_def Let_def)

lemma delete_events_head:
  assumes "store_inv s" "prefix_closed P (st_events s)" "delete_events P s = Inr (s', k)" "event_log_bounds s = Inr b"
  shows "\<exists>b'. event_log_bounds s' = Inr b' \<and> lb_head_seq b' = lb_head_seq b \<and> lb_head_event_id b' = lb_head_event_id b"
proof (cases "\<exists>e \<in> set (st_events s). P e")
  case False
  then show ?thesis using assms delete_events_none [OF False] by auto
next
  case True
  let ?es = "st_events s" and ?m = "max_seq (st_events s)" and ?g = "max_seq (filter P (st_events s))"
  from delete_events_result [OF assms(1,2) True] assms(3)
  have r: "st_events s' = filter (\<lambda>e. \<not> P e) ?es" "meta_int ''trimmed_through_seq'' s' = Inr ?g"
    "meta_int ''last_known_head_seq'' s' = Inr ?m" "get_meta ''last_known_head_event_id'' s' = Some (ev_id (last ?es))"
    by auto
  from assms(1) have l: "log_inv s" by (simp add: store_inv_def)
  have l': "log_inv s'" using delete_events_inv [OF assms(1-3)] by (simp add: store_inv_def)
  have ne: "?es \<noteq> []" using True by auto
  have last: "last ?es \<in> set ?es" "ev_seq (last ?es) = ?m" using ne head_row_last(2) [OF l ne] by auto
  then have pos: "0 < ?m" using l by (auto simp: log_inv_def)
  from assms(1) obtain t k where m: "meta_int ''trimmed_through_seq'' s = Inr t" "meta_int ''last_known_head_seq'' s = Inr k"
    "t \<le> k" "k \<le> ?m" using ne by (auto simp: store_inv_def marks_inv_def marks_def)
  have "event_at_seq ?m s = Some (last ?es)" using last by (simp add: event_at_seq_iff [OF l])
  then have b: "lb_head_seq b = ?m" "lb_head_event_id b = ev_id (last ?es)"
    using assms(4) m pos by (auto simp: event_log_bounds_def Let_def head_event_id_def)
  have gm: "?g \<le> ?m" and am: "max_seq (st_events s') \<le> ?m" by (auto simp: r(1) intro!: max_seq_mono)
  have "head_event_id ?m s' = ev_id (last ?es)"
  proof (cases "st_events s' = []")
    case True
    then show ?thesis using pos r(4) by (simp add: head_event_id_def max_seq_def meta_str_def)
  next
    case False
    then obtain x where x: "x \<in> set ?es" "\<not> P x" by (auto simp: r(1) filter_empty_conv)
    then have "\<not> P (last ?es)" using assms(2) last max_seq_ge [of x ?es] by (auto simp: prefix_closed_def)
    then have in': "last ?es \<in> set (st_events s')" using last by (simp add: r(1))
    then have "max_seq (st_events s') = ?m" using am last(2) max_seq_ge [of "last ?es" "st_events s'"] by simp
    moreover have "event_at_seq ?m s' = Some (last ?es)" using in' last by (simp add: event_at_seq_iff [OF l'])
    ultimately show ?thesis using pos by (simp add: head_event_id_def)
  qed
  then show ?thesis using r(2,3) gm am b by (simp add: event_log_bounds_def Let_def)
qed

text \<open>Trimming the log before a sequence number deletes exactly the older events,
  reports how many, and leaves a watermark that covers every deleted event and no retained one, so that
  a cursor into the deleted part can be told from one into the rest.
\<close>

theorem trim_before_exact:
  assumes "store_inv s" "trim_events_before_seq n s = Inr (s', k)"
  shows "st_events s' = filter (\<lambda>e. n \<le> ev_seq e) (st_events s) \<and> k = length (filter (\<lambda>e. ev_seq e < n) (st_events s))
    \<and> (\<exists>t. meta_int ''trimmed_through_seq'' s' = Inr t \<and> (\<forall>e \<in> set (st_events s). ev_seq e < n \<longrightarrow> ev_seq e \<le> t)
      \<and> (\<forall>e \<in> set (st_events s'). t < ev_seq e))"
  using delete_events_exact [OF assms(1) before_prefix assms(2) [unfolded trim_events_before_seq_def]]
  by (simp add: not_less)

text \<open>Retention does not move the head of the log: trimming by sequence number or by
  count, even of every event, leaves the head sequence number and the head event id that the bounds
  report unchanged.
\<close>

theorem trim_preserves_head:
  assumes "store_inv s" "event_log_bounds s = Inr b"
    and "trim_events_before_seq n s = Inr (s', k) \<or> trim_events_by_count keep s = Inr (s', k)"
  shows "\<exists>b'. event_log_bounds s' = Inr b' \<and> lb_head_seq b' = lb_head_seq b \<and> lb_head_event_id b' = lb_head_event_id b"
  using assms(3) delete_events_head [OF assms(1) before_prefix _ assms(2), of n s' k]
    trim_count_eq [OF assms(1), of keep s' k] delete_events_head [OF assms(1) _ _ assms(2), of _ s' k]
  unfolding trim_events_before_seq_def by blast

text \<open>Trimming by count always succeeds on a non-negative count and keeps exactly the
  newest events.
\<close>

theorem trim_count_exact:
  assumes "store_inv s" "0 \<le> keep"
  shows "\<exists>s'. trim_events_by_count keep s = Inr (s', length (st_events s) - nat keep)
    \<and> st_events s' = drop (length (st_events s) - nat keep) (st_events s)"
proof -
  let ?P = "\<lambda>e. ev_seq e \<notin> set (map ev_seq (select_events any_event keep False s))"
  let ?es = "st_events s" and ?n = "length (st_events s) - nat keep"
  from assms(1) have l: "log_inv s" by (simp add: store_inv_def)
  have pc: "prefix_closed ?P ?es" by (rule by_count_prefix [OF l assms(2)])
  obtain s' k where d: "delete_events ?P s = Inr (s', k)" using delete_events_total [OF assms(1) pc] by blast
  have dist: "distinct ?es" using log_distinct_seq [OF l] by (simp add: keys_distinct_def distinct_map)
  have "?P e \<longleftrightarrow> e \<in> set (take ?n ?es)" if "e \<in> set ?es" for e
  proof -
    have "set (take ?n ?es) \<inter> set (drop ?n ?es) = {}" using dist by (simp add: set_take_disj_set_drop_if_distinct)
    moreover have "e \<in> set (take ?n ?es) \<union> set (drop ?n ?es)" using that by (metis append_take_drop_id set_append)
    ultimately show ?thesis using kept_iff [OF l assms(2) that] by blast
  qed
  then have f: "filter ?P ?es = filter (\<lambda>e. e \<in> set (take ?n ?es)) ?es"
    "filter (\<lambda>e. \<not> ?P e) ?es = filter (\<lambda>e. e \<notin> set (take ?n ?es)) ?es"
    by (auto intro!: filter_cong)
  have "filter (\<lambda>e. e \<in> set (take ?n ?es)) (take ?n ?es @ drop ?n ?es) = take ?n ?es"
    "filter (\<lambda>e. e \<notin> set (take ?n ?es)) (take ?n ?es @ drop ?n ?es) = drop ?n ?es"
    using set_take_disj_set_drop_if_distinct [OF dist, of ?n ?n]
    by (simp_all only: filter_append) (auto simp: filter_empty_conv filter_id_conv)
  then have "filter ?P ?es = take ?n ?es" "filter (\<lambda>e. \<not> ?P e) ?es = drop ?n ?es"
    using f by (simp_all only: append_take_drop_id)
  with delete_events_exact(1,2) [OF assms(1) pc d]
  have "st_events s' = drop ?n ?es" "k = ?n" by (simp_all add: min_absorb2)
  moreover have "trim_events_by_count keep s = Inr (s', k)"
    using assms(2) d by (simp add: trim_events_by_count_def)
  ultimately show ?thesis by blast
qed

section \<open>What insertion promises\<close>

lemma dget_map: "dget (map (\<lambda>c. (c, f c)) cs) k = (if k \<in> set cs then f k else JNull)"
  by (simp add: dget_def map_of_map_restrict restrict_map_def)

lemma dget_inserted_row:
  "dget (inserted_row now vals) k = (if k \<notin> set MEMORY_COLUMNS then JNull
     else if k = ''created_at'' \<and> dget vals k = JNull then JStr now else dget vals k)"
  unfolding inserted_row_def by (subst dget_map) simp

lemma row_key_inserted [simp]: "row_key (inserted_row now vals) = dget vals ''id''"
  by (simp add: row_key_def dget_inserted_row MEMORY_COLUMNS_def)

lemma same_identity_inserted: "same_identity (inserted_row now vals) x = same_identity (inserted_row now' vals) x"
  by (simp add: same_identity_def indexed_def dget_inserted_row)

lemma conflicting_inserted: "conflicting (inserted_row now vals) x = conflicting (inserted_row now' vals) x"
  unfolding conflicting_def by (simp add: same_identity_inserted [of now vals x now'])

text \<open>\<open>INSERT OR REPLACE\<close> keeps identity unique by replacement: afterwards the id holds
  the new row, no other row has its id or its namespace and content hash, and every row not in conflict
  is kept.
\<close>

theorem insert_row_effect:
  assumes "insert_row now vals s = Inr s'" "dget vals ''id'' = JStr i"
  shows "get_memory i s' = Some (inserted_row now vals)
    \<and> (\<forall>r. r \<in> set (st_memories s') \<longleftrightarrow>
         r = inserted_row now vals \<or> (r \<in> set (st_memories s) \<and> \<not> conflicting (inserted_row now vals) r))"
proof -
  let ?r = "inserted_row now vals"
  have s': "s' = s\<lparr>st_memories := filter (\<lambda>x. \<not> conflicting ?r x) (st_memories s) @ [?r]\<rparr>"
    using assms(1) by (auto simp: insert_row_def Let_def split: if_splits)
  have k: "row_key ?r = JStr i" using assms(2) by simp
  then have "find_key row_key (JStr i) (filter (\<lambda>x. \<not> conflicting ?r x) (st_memories s)) = None"
    by (auto simp: find_key_None conflicting_def simp del: row_key_inserted)
  then show ?thesis using k by (auto simp: s' get_memory_def find_key_append)
qed

definition insert_blocked :: "dict \<Rightarrow> store \<Rightarrow> bool" where
  "insert_blocked vals s \<longleftrightarrow> (\<forall>now. dget (inserted_row now vals) ''identifier'' = JNull
     \<or> (\<exists>x \<in> set (st_memories s). conflicting (inserted_row now vals) x))"

lemma insert_blocked_iff:
  "insert_blocked vals s \<longleftrightarrow> dget (inserted_row now vals) ''identifier'' = JNull
     \<or> (\<exists>x \<in> set (st_memories s). conflicting (inserted_row now vals) x)"
proof -
  have "dget (inserted_row now' vals) ''identifier'' = dget (inserted_row now vals) ''identifier''" for now'
    by (simp add: dget_inserted_row)
  then show ?thesis unfolding insert_blocked_def using conflicting_inserted [of _ vals _ now] by metis
qed

lemma insert_ignore_blocked: "insert_blocked vals (fst st) \<Longrightarrow> insert_ignore now vals st = st"
  by (simp add: insert_ignore_def Let_def insert_blocked_def)

lemma insert_ignore_grows:
  "set (st_memories (fst st)) \<subseteq> set (st_memories (fst (insert_ignore now vals st)))"
  "insert_blocked vals (fst (insert_ignore now vals st))"
  "length (st_memories (fst (insert_ignore now vals st))) + snd st = length (st_memories (fst st)) + snd (insert_ignore now vals st)"
proof -
  let ?r = "inserted_row now vals"
  show "set (st_memories (fst st)) \<subseteq> set (st_memories (fst (insert_ignore now vals st)))"
    "length (st_memories (fst (insert_ignore now vals st))) + snd st = length (st_memories (fst st)) + snd (insert_ignore now vals st)"
    by (auto simp: insert_ignore_def Let_def)
  show "insert_blocked vals (fst (insert_ignore now vals st))"
    unfolding insert_blocked_iff [of vals _ now] by (auto simp: insert_ignore_def Let_def conflicting_def)
qed

lemma insert_blocked_mono: "insert_blocked vals s \<Longrightarrow> set (st_memories s) \<subseteq> set (st_memories s') \<Longrightarrow> insert_blocked vals s'"
  unfolding insert_blocked_def by blast

lemma fold_insert_ignore:
  "set (st_memories (fst st)) \<subseteq> set (st_memories (fst (fold (insert_ignore now) rs st)))
   \<and> (\<forall>r \<in> set rs. insert_blocked r (fst (fold (insert_ignore now) rs st)))
   \<and> length (st_memories (fst (fold (insert_ignore now) rs st))) + snd st
       = length (st_memories (fst st)) + snd (fold (insert_ignore now) rs st)"
proof (induction rs arbitrary: st)
  case (Cons r rs)
  note ih = Cons.IH [of "insert_ignore now r st"] and g = insert_ignore_grows [where st = st and now = now and vals = r]
  have "insert_blocked r (fst (fold (insert_ignore now) (r # rs) st))"
    using ih g(2) by (auto intro: insert_blocked_mono)
  then show ?case using ih g by auto
qed simp

lemma fold_insert_blocked: "\<forall>r \<in> set rs. insert_blocked r (fst st) \<Longrightarrow> fold (insert_ignore now) rs st = st"
  by (induction rs) (simp_all add: insert_ignore_blocked)

text \<open>A bulk insert is idempotent and counts what it stores: the reported count is the
  growth of the table, no existing row changes, and inserting the same records again stores nothing.
\<close>

theorem insert_many_idempotent:
  assumes "insert_many_ignore now rs s = (s1, n)"
  shows "insert_many_ignore now' rs s1 = (s1, 0) \<and> length (st_memories s1) = length (st_memories s) + n
    \<and> set (st_memories s) \<subseteq> set (st_memories s1)"
proof -
  have f: "fold (insert_ignore now) rs (s, 0) = (s1, n)" using assms by (simp add: insert_many_ignore_def)
  show ?thesis
    using fold_insert_ignore [where now = now and rs = rs and st = "(s, 0)"] fold_insert_blocked [of rs "(s1, 0)" now']
    by (simp add: f insert_many_ignore_def)
qed

section \<open>A concrete log\<close>

definition example_event :: "string \<Rightarrow> event_row" where
  "example_event i = \<lparr>ev_seq = 0, ev_id = i, ev_memory = Some ''m'', ev_namespace = [], ev_type = ''memory.created'',
     ev_at = ''2026'', ev_payload = ''{}''\<rparr>"

definition append_example :: "string \<Rightarrow> store \<Rightarrow> store" where
  "append_example i s = (case append_row (example_event i) s of Inr (s', n) \<Rightarrow> s' | Inl e \<Rightarrow> s)"

definition example_store :: store where
  "example_store = append_example ''e3'' (append_example ''e2'' (append_example ''e1'' empty_store))"

lemma append_example_inv: "store_inv s \<Longrightarrow> store_inv (append_example i s)"
  by (auto simp: append_example_def intro: append_row_inv split: sum.splits)

lemma example_store_inv: "store_inv example_store"
  by (simp add: example_store_def append_example_inv empty_store_inv)

lemma trim_before_exact_witness:
  "\<exists>s' k. trim_events_before_seq 3 example_store = Inr (s', k) \<and> k = 2 \<and> map ev_id (st_events s') = [''e3'']"
proof -
  obtain s' k where t: "trim_events_before_seq 3 example_store = Inr (s', k)"
    using delete_events_total [OF example_store_inv before_prefix] unfolding trim_events_before_seq_def by blast
  have "map ev_id (filter (\<lambda>e. 3 \<le> ev_seq e) (st_events example_store)) = [''e3'']"
    "length (filter (\<lambda>e. ev_seq e < 3) (st_events example_store)) = 2" by code_simp+
  with trim_before_exact [OF example_store_inv t] t show ?thesis by auto
qed

lemma trim_preserves_head_witness:
  "\<exists>s' k b b'. trim_events_by_count 0 example_store = Inr (s', k) \<and> event_log_bounds example_store = Inr b
     \<and> event_log_bounds s' = Inr b' \<and> lb_head_seq b' = lb_head_seq b \<and> lb_head_event_id b' = lb_head_event_id b"
proof -
  have "0 \<le> (0::int)" and l: "log_inv example_store" using example_store_inv by (simp_all add: store_inv_def)
  obtain s' k where t: "trim_events_by_count 0 example_store = Inr (s', k)"
    using delete_events_total [OF example_store_inv by_count_prefix [OF l order_refl]]
    by (auto simp: trim_events_by_count_def)
  obtain b where "event_log_bounds example_store = Inr b" using bounds_total [OF example_store_inv] by blast
  with trim_preserves_head [OF example_store_inv this disjI2 [OF t]] t show ?thesis by blast
qed

lemma trim_count_exact_witness:
  "\<exists>s'. trim_events_by_count 1 example_store = Inr (s', 2) \<and> map ev_id (st_events s') = [''e3'']"
proof -
  have "length (st_events example_store) - nat 1 = 2" "map ev_id (drop 2 (st_events example_store)) = [''e3'']"
    by code_simp+
  then show ?thesis using trim_count_exact [OF example_store_inv, of 1] by auto
qed

definition example_memory :: "string \<Rightarrow> string \<Rightarrow> dict" where
  "example_memory i h = [(''id'', JStr i), (''identifier'', JStr ''k''), (''namespace'', JStr ''ns''),
     (''content_hash'', JStr h), (''fact_text'', JStr ''v'')]"

lemma insert_row_effect_witness:
  "\<exists>s'. insert_row ''2026'' (example_memory ''a'' ''h'') (fst (insert_many_ignore ''2025'' [example_memory ''b'' ''h''] empty_store)) = Inr s'
     \<and> get_memory ''a'' s' = Some (inserted_row ''2026'' (example_memory ''a'' ''h''))"
proof -
  have "dget (inserted_row ''2026'' (example_memory ''a'' ''h'')) ''identifier'' \<noteq> JNull"
    "dget (example_memory ''a'' ''h'') ''id'' = JStr ''a''" by code_simp+
  then show ?thesis
    using insert_row_effect [of "''2026''" "example_memory ''a'' ''h''"
        "fst (insert_many_ignore ''2025'' [example_memory ''b'' ''h''] empty_store)" _ "''a''"]
    by (auto simp: insert_row_def Let_def)
qed

lemma insert_many_idempotent_witness:
  "\<exists>s1. insert_many_ignore ''2025'' [example_memory ''a'' ''h'', example_memory ''b'' ''h''] empty_store = (s1, 1)
     \<and> insert_many_ignore ''2026'' [example_memory ''a'' ''h'', example_memory ''b'' ''h''] s1 = (s1, 0)"
proof -
  have "snd (insert_many_ignore ''2025'' [example_memory ''a'' ''h'', example_memory ''b'' ''h''] empty_store) = 1"
    by code_simp
  then obtain s1 where "insert_many_ignore ''2025'' [example_memory ''a'' ''h'', example_memory ''b'' ''h''] empty_store = (s1, 1)"
    by (metis prod.collapse)
  with insert_many_idempotent [OF this] show ?thesis by blast
qed

end
