(* ===== verification/JsonRoundtrip.thy ===== *)
theory JsonRoundtrip
  imports JsonText
begin

text \<open>
  \<open>json.loads\<close> reads back what \<open>json.dumps(sort_keys=True)\<close> writes, for values
  whose strings are ASCII, whose floats are 0, 1 or a positional fraction, and whose objects list their
  keys in order, and for the values that sorting the keys makes such. This is the basis of the
  round trips of cursors and of event payloads. The amount of fuel a value needs is bounded by the
  length of its text, so the fuel of \<open>loads\<close> is enough.
\<close>

section \<open>Strings\<close>

lemma hex_value_digit: "list_all (\<lambda>d. hex_value (hex_digit d) = Some d) [0..<16]"
  by code_simp

lemma hex_value_hex_digit [simp]: "d < 16 \<Longrightarrow> hex_value (hex_digit d) = Some d"
  using hex_value_digit by (auto simp: list_all_iff)

lemma hex4_value_hex4 [simp]: "n < 65536 \<Longrightarrow> hex4_value (hex4 n @ r) = Some (n, r)"
proof -
  assume n: "n < 65536"
  define a b c where "a = n div 16" and "b = a div 16" and "c = b div 16"
  have d: "n div 256 = b" "n div 4096 = c" by (simp_all add: a_def b_def c_def div_mult2_eq [symmetric])
  have "c < 16" using n by (simp add: d(2) [symmetric] less_mult_imp_div_less)
  then have "n div 4096 mod 16 * 4096 + n div 256 mod 16 * 256 + n div 16 mod 16 * 16 + n mod 16 = n"
    using div_mult_mod_eq [of n 16] div_mult_mod_eq [of a 16] div_mult_mod_eq [of b 16]
    unfolding d a_def [symmetric] b_def [symmetric] c_def [symmetric] by (simp del: div_mult_mod_eq)
  moreover have "hex4_value (hex4 n @ r) = Some (n div 4096 mod 16 * 4096 + n div 256 mod 16 * 256 + n div 16 mod 16 * 16 + n mod 16, r)"
    by (simp add: hex4_def del: mod_less)
  ultimately show ?thesis by (simp only:)
qed

lemma unicode_escape_ascii: "n < 128 \<Longrightarrow> unicode_escape (hex4 n @ r) = Some ([char_of n], r)"
  by (simp add: unicode_escape_def utf8_encode_def)

lemma str_body_unicode:
  "n < 128 \<Longrightarrow> str_body (CHR 0x5C # CHR ''u'' # hex4 n @ r) = map_option (\<lambda>(t, q). (char_of n # t, q)) (str_body r)"
  by (subst str_body.simps) (simp add: unicode_escape_ascii)

lemma str_body_escape:
  "str_body (json_escape_char c @ r) = map_option (\<lambda>(t, q). (c # t, q)) (str_body r)"
proof (cases "c \<in> {CHR 0x22, CHR 0x5C, CHR 0x0A, CHR 0x0D, CHR 0x09, CHR 0x0C, CHR 0x08}")
  case True
  then show ?thesis by (auto simp: json_escape_char_def simple_escape_def)
next
  case False
  then show ?thesis
    by (cases "(of_char c :: nat) < 32")
      (auto simp: json_escape_char_def unicode_escape_ascii)
qed

definition ascii :: "string \<Rightarrow> bool" where
  "ascii s \<longleftrightarrow> (\<forall>c \<in> set s. (of_char c :: nat) < 128)"

lemma utf8_points_ascii: "ascii s \<Longrightarrow> utf8_points s = map of_char s"
  by (induction s rule: utf8_points.induct) (auto simp: ascii_def)

lemma str_body_ascii_point:
  "n < 128 \<Longrightarrow> str_body (ascii_escape_point n @ r) = map_option (\<lambda>(t, q). (char_of n # t, q)) (str_body r)"
  by (auto simp: ascii_escape_point_def str_body_escape unicode_escape_ascii)

lemma str_body_quote:
  assumes "a \<Longrightarrow> ascii s"
  shows "str_body (tl (json_quote a s) @ r) = Some (s, r)"
proof (cases a)
  case True
  have "str_body (concat (map (\<lambda>c. ascii_escape_point (of_char c)) s) @ CHR 0x22 # r) = Some (s, r)"
    using assms [OF True] by (induction s) (auto simp: ascii_def str_body_ascii_point)
  then show ?thesis using assms True by (simp add: json_quote_def utf8_points_ascii comp_def)
next
  case False
  have "str_body (concat (map json_escape_char s) @ CHR 0x22 # r) = Some (s, r)"
    by (induction s) (auto simp: str_body_escape)
  then show ?thesis using False by (simp add: json_quote_def)
qed

lemma json_quote_Cons: "json_quote a s = CHR 0x22 # tl (json_quote a s)"
  by (simp add: json_quote_def)

section \<open>Integers\<close>

text \<open>What follows a number must not continue it.\<close>

definition ends_number :: "string \<Rightarrow> bool" where
  "ends_number r \<longleftrightarrow> (case r of [] \<Rightarrow> True | c # _ \<Rightarrow> \<not> is_digit c \<and> c \<notin> {CHR ''.'', CHR ''e'', CHR ''E''})"

lemma take_digits_nat_str: "ends_number r \<Longrightarrow> take_digits (nat_str n @ r) = (nat_str n, r)"
proof -
  assume e: "ends_number r"
  have "takeWhile is_digit (nat_str n @ r) = nat_str n @ takeWhile is_digit r"
    "dropWhile is_digit (nat_str n @ r) = dropWhile is_digit r"
    by (auto intro!: takeWhile_append2 dropWhile_append2 simp: nat_str_digits)
  then show ?thesis using e by (cases r) (simp_all add: take_digits_def ends_number_def)
qed

lemma hd_digits_rev: "last (digits_rev n) = 0 \<Longrightarrow> n = 0"
proof (induction n rule: digits_rev.induct)
  case (1 n)
  then show ?case by (subst (asm) (2) digits_rev.simps) (auto split: if_splits)
qed

lemma digits_rev_0: "digits_rev 0 = [0]"
  by (subst digits_rev.simps) simp

lemma nat_str_0: "nat_str 0 = ''0''"
  by code_simp

lemma nat_str_zero: "hd (nat_str n) = CHR ''0'' \<Longrightarrow> n = 0"
proof -
  assume h: "hd (nat_str n) = CHR ''0''"
  have l: "hd (nat_str n) = digit_char (last (digits_rev n))"
    by (simp add: nat_str_def hd_map hd_rev)
  have small: "last (digits_rev n) < 10" by (rule digits_rev_small [of _ n]) (rule last_in_set, simp)
  have "digit_char 0 = CHR ''0''" using nat_str_0 digits_rev_0 by (simp add: nat_str_def)
  then have "digit_char (last (digits_rev n)) = digit_char 0" using h l by metis
  then have "last (digits_rev n) = 0" by (rule digit_char_inj [OF small, rotated]) simp
  then show "n = 0" by (rule hd_digits_rev)
qed

lemma digits_value_dec: "digits_value = dec_value"
  by (simp add: fun_eq_iff digits_value_def dec_value_def)

lemma int_part_nat_str: "ends_number r \<Longrightarrow> int_part (nat_str n @ r) = Some (nat_str n, r)"
proof -
  assume e: "ends_number r"
  obtain c x where n: "nat_str n = c # x" "is_digit c" using nat_str_hd by blast
  show ?thesis
  proof (cases "c = CHR ''0''")
    case True
    then have "n = 0" using nat_str_zero [of n] n by simp
    then show ?thesis by (simp add: int_part_def nat_str_0)
  next
    case False
    then show ?thesis using n take_digits_nat_str [OF e, of n] by (simp add: int_part_def)
  qed
qed

lemma number_int_str: "ends_number r \<Longrightarrow> number (int_str i @ r) = Some (JInt i, r)"
proof -
  assume e: "ends_number r"
  have fe: "frac_part r = (None, r)" "exp_part r = (None, r)"
    using e by (auto simp: frac_part_def exp_part_def ends_number_def split: list.splits)
  obtain c x where n: "nat_str (nat i) = c # x" "is_digit c" using nat_str_hd by blast
  then have "\<not> starts_with (nat_str (nat i) @ r) ''-''" by (auto simp: starts_with_def is_digit_def less_eq_char_def)
  moreover have "starts_with (CHR ''-'' # s) ''-''" for s by (simp add: starts_with_def)
  ultimately show ?thesis
    by (auto simp: number_def int_str_def Let_def int_part_nat_str [OF e] fe digits_value_dec)
qed

lemma literal_int_str: "ends_number r \<Longrightarrow> literal (int_str i @ r) = Some (JInt i, r)"
proof -
  assume e: "ends_number r"
  obtain c x where n: "int_str i = c # x" "is_digit c \<or> c = CHR ''-''"
    using nat_str_hd [of "nat i"] by (cases "i < 0") (auto simp: int_str_def)
  then have "c \<notin> {CHR ''n'', CHR ''t'', CHR ''f''}" by (auto simp: is_digit_def less_eq_char_def)
  then have "\<not> starts_with (int_str i @ r) ''null''" "\<not> starts_with (int_str i @ r) ''true''"
    "\<not> starts_with (int_str i @ r) ''false''" using n by (auto simp: starts_with_def)
  then show ?thesis using number_int_str [OF e] by (simp add: literal_def)
qed

section \<open>Floats\<close>

text \<open>
  The floats whose \<open>repr\<close> is positional below one, and 0 and 1: in particular every importance
  from 0.0001 to 1.
\<close>

definition short_float :: "pyfloat \<Rightarrow> bool" where
  "short_float f \<longleftrightarrow> (case f of
     FDec m e \<Rightarrow> (m = 0 \<and> e = 0) \<or> (m = 1 \<and> e = 0)
       \<or> (0 < m \<and> m mod 10 \<noteq> 0 \<and> int (length (nat_str (nat m))) + e \<le> 0 \<and> -4 < int (length (nat_str (nat m))) + e)
   | _ \<Rightarrow> False)"

lemma dec_value_append: "dec_value (s @ t) = dec_value s * 10 ^ length t + dec_value t"
proof (induction t rule: rev_induct)
  case (snoc c t)
  have "dec_value (x @ [c]) = 10 * dec_value x + (of_char c - 48)" for x by (simp add: dec_value_def)
  from this [of "s @ t"] this [of t] snoc show ?case by (simp add: algebra_simps)
qed (simp add: dec_value_def)

lemma dec_value_zeros: "dec_value (replicate k (CHR ''0'')) = 0"
  by (induction k) (simp_all add: dec_value_def)

lemma dec_value_bound: "list_all is_digit s \<Longrightarrow> dec_value s < 10 ^ length s"
proof (induction s rule: rev_induct)
  case (snoc c s)
  have "of_char c - 48 < (10::nat)" using snoc.prems by (auto simp: is_digit_def less_eq_char_def)
  moreover have "dec_value (s @ [c]) = 10 * dec_value s + (of_char c - 48)" by (simp add: dec_value_def)
  moreover have "dec_value s < 10 ^ length s" using snoc by simp
  ultimately show ?case by simp
qed (simp add: dec_value_def)

lemma frac_digits: "list_all is_digit ds \<Longrightarrow> ds \<noteq> [] \<Longrightarrow> ends_number r \<Longrightarrow> frac_part (CHR ''.'' # ds @ r) = (Some ds, r)"
proof -
  assume d: "list_all is_digit ds" "ds \<noteq> []" and e: "ends_number r"
  have "takeWhile is_digit (ds @ r) = ds @ takeWhile is_digit r" "dropWhile is_digit (ds @ r) = dropWhile is_digit r"
    using d by (auto intro!: takeWhile_append2 dropWhile_append2 simp: list_all_iff)
  then have "takeWhile is_digit (ds @ r) = ds \<and> dropWhile is_digit (ds @ r) = r"
    using e d by (cases r) (auto simp: ends_number_def list_all_iff)
  then show ?thesis using d(2) by (simp add: frac_part_def take_digits_def)
qed

lemma exp_none: "ends_number r \<Longrightarrow> exp_part r = (None, r)"
  by (auto simp: exp_part_def ends_number_def split: list.splits)

lemma fraction_literal:
  assumes "0 < m" "m mod 10 \<noteq> 0" "nat m < 10 ^ nat (- e)" "e < 0"
  shows "float_literal False (nat m) e = FDec m e"
proof -
  have s: "strip_zeros (nat \<bar>m\<bar>) m e = (m, e)" using assms(2) by (cases "nat \<bar>m\<bar>") auto
  have "m < 10 ^ nat (- e)" using assms(1,3) by (simp add: nat_less_iff)
  moreover have "(10::int) ^ nat (- e) \<le> (2 ^ 1024 - 2 ^ 970) * 10 ^ nat (- e)" by simp
  ultimately have "\<not> dec_le (2 ^ 1024 - 2 ^ 970) 0 (int (nat m)) e"
    using assms(1,4) by (simp add: dec_le_def Let_def)
  then show ?thesis using assms(1) s by (simp add: float_literal_def fdec_def)
qed

lemma digit_zero: "is_digit (CHR ''0'')"
  by (simp add: is_digit_def)

lemma literal_number: "is_digit (hd s) \<Longrightarrow> s \<noteq> [] \<Longrightarrow> number s = Some x \<Longrightarrow> literal s = Some x"
  by (cases s) (auto simp: literal_def starts_with_def is_digit_def less_eq_char_def)

lemma literal_short_float:
  assumes "short_float f" "ends_number r"
  shows "literal (json_float f @ r) = Some (JFloat f, r)"
proof -
  from assms(1) obtain m e where f: "f = FDec m e" by (auto simp: short_float_def split: pyfloat.splits)
  with assms(1) consider "m = 0" "e = 0" | "m = 1" "e = 0"
    | "0 < m" "m mod 10 \<noteq> 0" "int (length (nat_str (nat m))) + e \<le> 0" "-4 < int (length (nat_str (nat m))) + e"
    by (auto simp: short_float_def)
  then show ?thesis
  proof cases
    case 1
    have n: "number (CHR ''0'' # CHR ''.'' # ''0'' @ r) = Some (JFloat (FDec 0 0), r)"
      using frac_digits [of "''0''" r] assms(2)
      by (simp add: number_def starts_with_def int_part_def digit_zero exp_none digits_value_def float_literal_def)
    have "json_float f @ r = CHR ''0'' # CHR ''.'' # ''0'' @ r"
      by (simp add: f 1 json_float_def float_repr_def fdec_repr_def)
    then show ?thesis using literal_number [OF _ _ n] by (simp add: digit_zero f 1)
  next
    case 2
    have "take_digits (CHR ''1'' # CHR ''.'' # x) = (''1'', CHR ''.'' # x)" for x
      by (simp add: take_digits_def is_digit_def less_eq_char_def)
    moreover have "is_digit (CHR ''1'')" by (simp add: is_digit_def less_eq_char_def)
    moreover have "float_literal False 10 (- 1) = FDec 1 0" by code_simp
    ultimately have n: "number (CHR ''1'' # CHR ''.'' # ''0'' @ r) = Some (JFloat (FDec 1 0), r)"
      using frac_digits [of "''0''" r] assms(2)
      by (simp add: number_def starts_with_def int_part_def digit_zero exp_none digits_value_def)
    have "float_repr (FDec 1 0) = ''1.0''" by code_simp
    then have "json_float f @ r = CHR ''1'' # CHR ''.'' # ''0'' @ r" by (simp add: f 2 json_float_def)
    then show ?thesis using literal_number [OF _ _ n] \<open>is_digit (CHR ''1'')\<close> by (simp add: f 2)
  next
    case 3
    let ?ds = "nat_str (nat m)"
    let ?k = "nat (- (int (length ?ds) + e))"
    let ?fds = "replicate ?k (CHR ''0'') @ ?ds"
    have dig: "list_all is_digit ?ds" using nat_str_digits by (simp add: list_all_iff)
    have len: "int (length ?fds) = - e" using 3(3) by simp
    have e0: "e < 0" using 3(3) by (cases ?ds) auto
    have v: "dec_value (CHR ''0'' # ?fds) = nat m"
      using dec_value_append [of "CHR ''0'' # replicate ?k (CHR ''0'')" ?ds] dec_value_zeros [of "Suc ?k"] by (simp add: dec_value_nat_str)
    have "nat m < 10 ^ length ?ds" using dec_value_bound [OF dig] by (simp add: dec_value_nat_str)
    also have "\<dots> \<le> 10 ^ nat (- e)" using 3(3) by (intro power_increasing) auto
    finally have lit: "float_literal False (nat m) e = FDec m e" using 3(1,2) e0 by (intro fraction_literal)
    have all: "list_all is_digit ?fds" using dig by (auto simp: list_all_iff digit_zero)
    have "frac_part (CHR ''.'' # ?fds @ r) = (Some ?fds, r)" using all assms(2) by (intro frac_digits) auto
    moreover have "0 - int (length ?fds) = e" using len by linarith
    ultimately have n: "number (CHR ''0'' # CHR ''.'' # ?fds @ r) = Some (JFloat (FDec m e), r)"
      using v lit unfolding number_def
      by (simp add: starts_with_def int_part_def exp_none [OF assms(2)] digits_value_dec del: append_assoc length_append)
    have "json_float f @ r = CHR ''0'' # CHR ''.'' # ?fds @ r"
      using 3 e0 by (simp add: f json_float_def float_repr_def fdec_repr_def Let_def)
    then show ?thesis using literal_number [OF _ _ n] by (simp add: digit_zero f)
  qed
qed

lemma json_float_hd:
  assumes "short_float f"
  shows "\<exists>c t. json_float f = c # t \<and> is_digit c"
proof -
  from assms obtain m e where f: "f = FDec m e" by (auto simp: short_float_def split: pyfloat.splits)
  with assms consider "m = 0" "e = 0" | "m = 1" "e = 0" | "0 < m" "int (length (nat_str (nat m))) + e \<le> 0"
      "-4 < int (length (nat_str (nat m))) + e"
    by (auto simp: short_float_def)
  then show ?thesis
  proof cases
    case 1
    then show ?thesis by (simp add: f json_float_def float_repr_def fdec_repr_def digit_zero)
  next
    case 2
    have "float_repr (FDec 1 0) = ''1.0''" by code_simp
    then show ?thesis by (simp add: f 2 json_float_def is_digit_def less_eq_char_def)
  next
    case 3
    then have "e < 0" by (cases "nat_str (nat m)") auto
    then show ?thesis using 3 by (simp add: f json_float_def float_repr_def fdec_repr_def Let_def digit_zero)
  qed
qed

section \<open>Values\<close>

fun plain :: "bool \<Rightarrow> json \<Rightarrow> bool" where
  "plain a (JFloat f) = short_float f"
| "plain a (JStr s) = (a \<longrightarrow> ascii s)"
| "plain a (JList xs) = list_all (plain a) xs"
| "plain a (JObj d) = (sorted_wrt (<) (map fst d) \<and> list_all (\<lambda>(k, v). (a \<longrightarrow> ascii k) \<and> plain a v) d)"
| "plain a _ = True"

text \<open>The fuel a value needs.\<close>

fun need :: "json \<Rightarrow> nat" where
  "need (JList xs) = Suc (foldr (\<lambda>x n. Suc (max (need x) n)) xs 0)"
| "need (JObj d) = Suc (foldr (\<lambda>(k, v) n. Suc (max (need v) n)) d 0)"
| "need _ = 1"

definition separator :: "char \<Rightarrow> string \<Rightarrow> bool" where
  "separator c sep \<longleftrightarrow> (\<exists>ws. sep = c # ws \<and> list_all json_ws ws)"

lemma skip_ws_append: "list_all json_ws ws \<Longrightarrow> skip_ws (ws @ r) = skip_ws r"
  by (induction ws) (auto simp: skip_ws_def)

lemma skip_ws_Cons [simp]: "\<not> json_ws c \<Longrightarrow> skip_ws (c # r) = c # r"
  by (simp add: skip_ws_def)

lemma skip_ws_separator: "separator c sep \<Longrightarrow> \<not> json_ws c \<Longrightarrow>
    starts_with (skip_ws (sep @ r)) [d] = (c = d) \<and> skip_ws (drop 1 (skip_ws (sep @ r))) = skip_ws r"
  by (auto simp: separator_def starts_with_def skip_ws_append)

lemma json_text_Cons:
  assumes "plain a v"
  shows "\<exists>c t. json_text a srt isep ksep v = c # t \<and> \<not> json_ws c \<and> c \<noteq> CHR '']'' \<and> c \<noteq> CHR ''}''"
proof (cases v)
  case (JInt i)
  obtain c x where "int_str i = c # x" "is_digit c \<or> c = CHR ''-''"
    using nat_str_hd [of "nat i"] by (cases "i < 0") (auto simp: int_str_def)
  then show ?thesis using JInt by (auto simp: json_ws_def is_digit_def less_eq_char_def)
next
  case (JFloat f)
  then show ?thesis using assms json_float_hd [of f] by (auto simp: json_ws_def is_digit_def less_eq_char_def)
qed (use assms in \<open>auto simp: json_ws_def json_quote_def Let_def\<close>)

lemma skip_ws_text: "plain a v \<Longrightarrow> skip_ws (json_text a srt isep ksep v @ r) = json_text a srt isep ksep v @ r"
  using json_text_Cons [of a v srt isep ksep] by auto

lemma separator_ends: "separator c sep \<Longrightarrow> c \<in> {CHR '','', CHR '':''} \<Longrightarrow> ends_number (sep @ r)"
  by (auto simp: separator_def ends_number_def is_digit_def less_eq_char_def)

lemma closing_ends: "ends_number (CHR '']'' # r)" "ends_number (CHR ''}'' # r)"
  by (auto simp: ends_number_def is_digit_def less_eq_char_def)

lemma closing_not_ws: "\<not> json_ws (CHR '']'')" "\<not> json_ws (CHR ''}'')" "\<not> json_ws (CHR '','')" "\<not> json_ws (CHR '':'')"
  by (auto simp: json_ws_def)

definition reads :: "(nat \<Rightarrow> string \<Rightarrow> (json \<times> string) option) \<Rightarrow> (json \<Rightarrow> string) \<Rightarrow> json \<Rightarrow> bool" where
  "reads parse text v \<longleftrightarrow> (\<forall>fuel r. need v \<le> fuel \<longrightarrow> ends_number r \<longrightarrow> parse fuel (text v @ r) = Some (v, r))"

lemma readsD: "reads parse text v \<Longrightarrow> need v \<le> fuel \<Longrightarrow> ends_number r \<Longrightarrow> parse fuel (text v @ r) = Some (v, r)"
  by (simp add: reads_def)

lemma parse_elements_text:
  assumes "separator (CHR '','') isep" "xs \<noteq> []" "\<And>x. x \<in> set xs \<Longrightarrow> reads parse_value (json_text a srt isep ksep) x"
    and "\<And>x. x \<in> set xs \<Longrightarrow> plain a x" "foldr (\<lambda>x n. Suc (max (need x) n)) xs 0 \<le> fuel"
  shows "parse_elements fuel (join_with isep (map (json_text a srt isep ksep) xs) @ CHR '']'' # r) = Some (xs, r)"
  using assms(2-)
proof (induction xs arbitrary: fuel)
  case (Cons x xs)
  let ?t = "json_text a srt isep ksep"
  from Cons.prems(4) obtain f where f: "fuel = Suc f" by (cases fuel) auto
  show ?case
  proof (cases "xs = []")
    case True
    have "parse_value f (?t x @ CHR '']'' # r) = Some (x, CHR '']'' # r)"
      using Cons.prems by (intro readsD) (auto simp: f closing_ends)
    then show ?thesis by (simp add: f True closing_not_ws starts_with_def)
  next
    case False
    then obtain y ys where xs: "xs = y # ys" by (cases xs) auto
    let ?rest = "join_with isep (map ?t xs) @ CHR '']'' # r"
    have "parse_value f (?t x @ isep @ ?rest) = Some (x, isep @ ?rest)"
      using Cons.prems by (intro readsD) (auto simp: f separator_ends [OF assms(1)])
    moreover have "skip_ws ?rest = ?rest"
      using Cons.prems(3) [of y] skip_ws_text [of a y srt isep ksep] json_text_Cons [of a y srt isep ksep]
      by (cases ys) (auto simp: xs)
    moreover have "parse_elements f ?rest = Some (xs, r)"
      using Cons False by (intro Cons.IH) (auto simp: f)
    ultimately show ?thesis
      using skip_ws_separator [OF assms(1) closing_not_ws(3)] by (simp add: f xs)
  qed
qed simp

definition member_text :: "bool \<Rightarrow> string \<Rightarrow> (json \<Rightarrow> string) \<Rightarrow> string \<times> json \<Rightarrow> string" where
  "member_text a ksep text m = json_quote a (fst m) @ ksep @ text (snd m)"

lemma update_new: "k \<notin> fst ` set d \<Longrightarrow> AList.update k v d = d @ [(k, v)]"
  by (induction d) auto

lemma parse_members_text:
  assumes "separator (CHR '','') isep" "separator (CHR '':'') ksep" "m \<noteq> []"
    and "\<And>k v. (k, v) \<in> set m \<Longrightarrow> reads parse_value (json_text a srt isep ksep) v \<and> plain a v \<and> (a \<longrightarrow> ascii k)"
    and "distinct (map fst (acc @ m))" "foldr (\<lambda>(k, v) n. Suc (max (need v) n)) m 0 \<le> fuel"
  shows "parse_members fuel acc (join_with isep (map (member_text a ksep (json_text a srt isep ksep)) m) @ CHR ''}'' # r)
    = Some (acc @ m, r)"
  using assms(3-)
proof (induction m arbitrary: fuel acc)
  case (Cons kv m)
  let ?t = "json_text a srt isep ksep" and ?mt = "member_text a ksep (json_text a srt isep ksep)"
  obtain k v where kv: "kv = (k, v)" by (cases kv)
  from Cons.prems(4) obtain f where f: "fuel = Suc f" by (cases fuel) (auto simp: kv)
  have v: "reads parse_value ?t v" "plain a v" "a \<Longrightarrow> ascii k" using Cons.prems(2) [of k v] by (auto simp: kv)
  have upd: "AList.update k v acc = acc @ [(k, v)]" using Cons.prems(3) by (intro update_new) (auto simp: kv)
  have body: "str_body (tl (json_quote a k) @ x) = Some (k, x)" for x by (rule str_body_quote) (rule v(3))
  have key: "parse_members fuel acc (?mt kv @ rest) =
      (case parse_value f (?t v @ rest) of None \<Rightarrow> None
       | Some (w, q) \<Rightarrow> (let d' = AList.update k w acc in
           if starts_with (skip_ws q) ''}'' then Some (d', drop 1 (skip_ws q))
           else if starts_with (skip_ws q) '','' then parse_members f d' (skip_ws (drop 1 (skip_ws q)))
           else None))" for rest
  proof -
    have q: "?mt kv @ rest = CHR 0x22 # tl (json_quote a k) @ ksep @ ?t v @ rest"
      unfolding member_text_def kv fst_conv snd_conv append_assoc
      by (subst json_quote_Cons) (simp only: append_Cons append_assoc)
    show ?thesis
      unfolding q f using skip_ws_separator [OF assms(2) closing_not_ws(4), of "?t v @ rest"] skip_ws_text [OF v(2)]
      by (simp add: starts_with_def body)
  qed
  show ?case
  proof (cases "m = []")
    case True
    have "parse_value f (?t v @ CHR ''}'' # r) = Some (v, CHR ''}'' # r)"
      using Cons.prems(4) by (intro readsD [OF v(1)]) (auto simp: f kv closing_ends)
    then show ?thesis using key [of "CHR ''}'' # r"] by (simp add: True upd kv closing_not_ws starts_with_def)
  next
    case False
    let ?rest = "join_with isep (map ?mt m) @ CHR ''}'' # r"
    have "parse_value f (?t v @ isep @ ?rest) = Some (v, isep @ ?rest)"
      using Cons.prems(4) by (intro readsD [OF v(1)]) (auto simp: f kv separator_ends [OF assms(1)])
    moreover have "skip_ws ?rest = ?rest"
      using False by (cases m rule: list.exhaust; cases "tl m") (auto simp: member_text_def json_quote_def json_ws_def)
    moreover have "parse_members f (acc @ [(k, v)]) ?rest = Some ((acc @ [(k, v)]) @ m, r)"
      using Cons.prems False by (intro Cons.IH) (auto simp: f kv)
    moreover have "join_with isep (map ?mt (kv # m)) @ CHR ''}'' # r = ?mt kv @ isep @ ?rest"
      using False by (cases m) auto
    ultimately show ?thesis
      using key [of "isep @ ?rest"] skip_ws_separator [OF assms(1) closing_not_ws(3), of ?rest]
      by (simp add: upd kv)
  qed
qed simp

lemma object_text:
  assumes "sorted_wrt (<) (map fst d)"
  shows "json_text a srt isep ksep (JObj d)
    = CHR ''{'' # join_with isep (map (member_text a ksep (json_text a srt isep ksep)) d) @ ''}''"
proof -
  let ?ms = "map (\<lambda>(k, v). (k, json_text a srt isep ksep v)) d"
  have "map fst ?ms = map fst d" by (induction d) auto
  then have "sorted (map fst ?ms)" using assms strict_sorted_imp_sorted by metis
  then have "(if srt then sort_key fst ?ms else ?ms) = ?ms" by (cases srt) (simp_all only: sort_key_id_if_sorted if_True if_False)
  moreover have "map (\<lambda>(k, t). json_quote a k @ ksep @ t) ?ms = map (member_text a ksep (json_text a srt isep ksep)) d"
    by (simp add: member_text_def case_prod_beta)
  ultimately show ?thesis by (simp only: json_text.simps Let_def append_Cons)
qed

lemma reads_text:
  assumes "separator (CHR '','') isep" "separator (CHR '':'') ksep"
  shows "plain a v \<Longrightarrow> reads parse_value (json_text a srt isep ksep) v"
proof (induction v)
  case JNull
  show ?case unfolding reads_def
  proof (intro allI impI)
    fix fuel r
    assume "need JNull \<le> fuel"
    then obtain f where "fuel = Suc f" by (cases fuel) auto
    then show "parse_value fuel (json_text a srt isep ksep JNull @ r) = Some (JNull, r)"
      by (simp add: literal_def starts_with_def)
  qed
next
  case (JBool b)
  show ?case unfolding reads_def
  proof (intro allI impI)
    fix fuel r
    assume "need (JBool b) \<le> fuel"
    then obtain f where "fuel = Suc f" by (cases fuel) auto
    then show "parse_value fuel (json_text a srt isep ksep (JBool b) @ r) = Some (JBool b, r)"
      by (simp add: literal_def starts_with_def)
  qed
next
  case (JInt i)
  show ?case unfolding reads_def
  proof (intro allI impI)
    fix fuel r
    assume "need (JInt i) \<le> fuel" and e: "ends_number r"
    then obtain f where f: "fuel = Suc f" by (cases fuel) auto
    obtain c x where n: "int_str i = c # x" "is_digit c \<or> c = CHR ''-''"
      using nat_str_hd [of "nat i"] by (cases "i < 0") (auto simp: int_str_def)
    then have "c \<notin> {CHR 0x22, CHR ''{'', CHR ''[''}" by (auto simp: is_digit_def less_eq_char_def)
    then show "parse_value fuel (json_text a srt isep ksep (JInt i) @ r) = Some (JInt i, r)"
      using literal_int_str [OF e, of i] by (simp add: f n)
  qed
next
  case (JFloat g)
  show ?case unfolding reads_def
  proof (intro allI impI)
    fix fuel r
    assume "need (JFloat g) \<le> fuel" and e: "ends_number r"
    then obtain f where f: "fuel = Suc f" by (cases fuel) auto
    have g: "short_float g" using JFloat by simp
    obtain c x where n: "json_float g = c # x" "is_digit c" using json_float_hd [OF g] by blast
    then have "c \<notin> {CHR 0x22, CHR ''{'', CHR ''[''}" by (auto simp: is_digit_def less_eq_char_def)
    then show "parse_value fuel (json_text a srt isep ksep (JFloat g) @ r) = Some (JFloat g, r)"
      using literal_short_float [OF g e] by (simp add: f n)
  qed
next
  case (JStr s)
  show ?case unfolding reads_def
  proof (intro allI impI)
    fix fuel r
    assume "need (JStr s) \<le> fuel"
    then obtain f where f: "fuel = Suc f" by (cases fuel) auto
    have "json_quote a s @ r = CHR 0x22 # tl (json_quote a s) @ r"
      by (subst json_quote_Cons) simp
    moreover have "str_body (tl (json_quote a s) @ r) = Some (s, r)" using JStr by (intro str_body_quote) simp
    ultimately show "parse_value fuel (json_text a srt isep ksep (JStr s) @ r) = Some (JStr s, r)"
      by (simp only: f json_text.simps parse_value.simps list.case simp_thms if_True) simp
  qed
next
  case (JList xs)
  show ?case unfolding reads_def
  proof (intro allI impI)
    fix fuel r
    assume n: "need (JList xs) \<le> fuel"
    then obtain f where f: "fuel = Suc f" by (cases fuel) auto
    have p: "\<And>x. x \<in> set xs \<Longrightarrow> plain a x" using JList.prems by (simp add: list_all_iff)
    show "parse_value fuel (json_text a srt isep ksep (JList xs) @ r) = Some (JList xs, r)"
    proof (cases "xs = []")
      case True
      then show ?thesis by (simp add: f starts_with_def closing_not_ws)
    next
      case False
      let ?b = "join_with isep (map (json_text a srt isep ksep) xs) @ CHR '']'' # r"
      have "parse_elements f ?b = Some (xs, r)"
        using JList.IH p False n by (intro parse_elements_text [OF assms(1)]) (auto simp: f)
      moreover obtain x ys where xs: "xs = x # ys" using False by (cases xs) auto
      moreover obtain c t where c: "json_text a srt isep ksep x = c # t" "\<not> json_ws c" "c \<noteq> CHR '']''"
        using json_text_Cons [OF p, of x srt isep ksep] xs by auto
      then obtain t' where "?b = c # t'" by (cases ys) (auto simp: xs)
      ultimately show ?thesis using c by (simp add: f starts_with_def)
    qed
  qed
next
  case (JObj d)
  show ?case unfolding reads_def
  proof (intro allI impI)
    fix fuel r
    assume n: "need (JObj d) \<le> fuel"
    then obtain f where f: "fuel = Suc f" by (cases fuel) auto
    have so: "sorted_wrt (<) (map fst d)" using JObj.prems by simp
    have p: "\<And>k v. (k, v) \<in> set d \<Longrightarrow> plain a v \<and> (a \<longrightarrow> ascii k)" using JObj.prems by (auto simp: list_all_iff)
    let ?b = "join_with isep (map (member_text a ksep (json_text a srt isep ksep)) d) @ CHR ''}'' # r"
    have t: "json_text a srt isep ksep (JObj d) @ r = CHR ''{'' # ?b"
      by (simp only: object_text [OF so]) simp
    show "parse_value fuel (json_text a srt isep ksep (JObj d) @ r) = Some (JObj d, r)"
    proof (cases "d = []")
      case True
      then show ?thesis unfolding t by (simp add: f starts_with_def closing_not_ws)
    next
      case False
      have "distinct (map fst ([] @ d))" using so strict_sorted_iff by auto
      then have "parse_members f [] ?b = Some ([] @ d, r)"
        using JObj.IH p False n by (intro parse_members_text [OF assms]) (auto simp: f)
      moreover obtain x ys where d: "d = x # ys" using False by (cases d) auto
      then obtain t' where "?b = CHR 0x22 # t'"
        by (cases ys) (auto simp: member_text_def json_quote_def)
      ultimately show ?thesis unfolding t by (simp add: f starts_with_def json_ws_def)
    qed
  qed
qed

lemma need_length:
  assumes "separator (CHR '','') isep" "separator (CHR '':'') ksep"
  shows "plain a v \<Longrightarrow> need v \<le> length (json_text a srt isep ksep v)"
proof (induction v)
  case (JInt i)
  show ?case by (cases "int_str i") simp_all
next
  case (JFloat f)
  then show ?case using json_float_hd [of f] by auto
next
  case (JStr s)
  show ?case by (simp add: json_quote_def)
next
  case (JList xs)
  let ?t = "json_text a srt isep ksep"
  have i: "length isep \<ge> 1" using assms(1) by (auto simp: separator_def)
  have "\<forall>x \<in> set xs. need x \<le> length (?t x) \<Longrightarrow> xs \<noteq> [] \<Longrightarrow>
      foldr (\<lambda>x n. Suc (max (need x) n)) xs 0 \<le> Suc (length (join_with isep (map ?t xs)))" for xs
  proof (induction xs)
    case (Cons x xs)
    then show ?case using i by (cases xs) auto
  qed simp
  from this [of xs] show ?case using JList by (cases "xs = []") (auto simp: list_all_iff)
next
  case (JObj d)
  let ?t = "json_text a srt isep ksep" and ?m = "member_text a ksep (json_text a srt isep ksep)"
  have i: "length isep \<ge> 1" using assms(1) by (auto simp: separator_def)
  have m: "need v \<le> length (?m (k, v))" if "(k, v) \<in> set d" for k v
  proof -
    have "need v \<le> length (?t v)" using JObj that by (auto simp: list_all_iff)
    then show ?thesis by (simp add: member_text_def)
  qed
  have "\<forall>(k, v) \<in> set d. need v \<le> length (?m (k, v)) \<Longrightarrow> d \<noteq> [] \<Longrightarrow>
      foldr (\<lambda>(k, v) n. Suc (max (need v) n)) d 0 \<le> Suc (length (join_with isep (map ?m d)))" for d
  proof (induction d)
    case (Cons x d)
    then show ?case using i by (cases d) (auto simp: case_prod_beta)
  qed simp
  from this [of d] m have "foldr (\<lambda>(k, v) n. Suc (max (need v) n)) d 0 \<le> Suc (length (join_with isep (map ?m d)))"
    by (cases "d = []") auto
  moreover have "sorted_wrt (<) (map fst d)" using JObj.prems by simp
  ultimately show ?case by (simp only: object_text) simp
qed simp_all

text \<open>
  Reading back: the text of a plain value decodes to the value.
\<close>

lemma loads_text:
  assumes "separator (CHR '','') isep" "separator (CHR '':'') ksep" "plain a v"
  shows "loads (json_text a srt isep ksep v) = Some v"
proof -
  let ?s = "json_text a srt isep ksep v"
  have "need v \<le> 2 * length ?s + 2" using need_length [OF assms, of srt] by linarith
  then have "parse_value (2 * length ?s + 2) (?s @ []) = Some (v, [])"
    by (intro readsD [OF reads_text [OF assms]]) (simp_all add: ends_number_def)
  moreover have "skip_ws ?s = ?s" using skip_ws_text [OF assms(3), of srt isep ksep "[]"] by simp
  ultimately show ?thesis by (simp add: loads_def skip_ws_def)
qed

lemma loads_dumps: "plain a v \<Longrightarrow> loads (dumps a v) = Some v"
  unfolding dumps_def by (rule loads_text) (auto simp: separator_def)

lemma separator_plain: "separator (CHR '','') '', ''" "separator (CHR '':'') '': ''"
  by (auto simp: separator_def json_ws_def)

section \<open>The escaped form is ASCII\<close>

lemma ascii_simps [simp]: "ascii []" "ascii (c # s) \<longleftrightarrow> (of_char c :: nat) < 128 \<and> ascii s"
  "ascii (s @ t) \<longleftrightarrow> ascii s \<and> ascii t" "ascii (concat ss) \<longleftrightarrow> (\<forall>s \<in> set ss. ascii s)"
  by (auto simp: ascii_def)

lemma ascii_join: "ascii sep \<Longrightarrow> (\<And>s. s \<in> set ss \<Longrightarrow> ascii s) \<Longrightarrow> ascii (join_with sep ss)"
  by (induction sep ss rule: join_with.induct) auto

lemma of_char_digit: "is_digit c \<Longrightarrow> (of_char c :: nat) < 128"
  by (auto simp: is_digit_def less_eq_char_def)

lemma ascii_int_str: "ascii (int_str i)"
  using nat_str_digits by (auto simp: int_str_def ascii_def list_all_iff intro!: of_char_digit)

lemma ascii_short_float: "short_float f \<Longrightarrow> ascii (json_float f)"
proof -
  assume "short_float f"
  then obtain m e where f: "f = FDec m e" by (auto simp: short_float_def split: pyfloat.splits)
  have "ascii (nat_str n)" for n using nat_str_digits by (auto simp: ascii_def intro!: of_char_digit)
  then have t: "\<forall>c \<in> set (nat_str n). (of_char c :: nat) < 128" for n by (simp add: ascii_def)
  have "set (take k (nat_str n)) \<subseteq> set (nat_str n)" "set (drop k (nat_str n)) \<subseteq> set (nat_str n)" for k n
    by (rule set_take_subset, rule set_drop_subset)
  with t have "ascii (take k (nat_str n))" "ascii (drop k (nat_str n))" "ascii (nat_str n)" for k n
    unfolding ascii_def by blast+
  moreover have "ascii (replicate k (CHR ''0''))" for k by (auto simp: ascii_def)
  ultimately have "ascii (fdec_repr n x)" for n x by (simp add: fdec_repr_def Let_def)
  then show ?thesis by (simp add: f json_float_def float_repr_def)
qed

lemma ascii_escape_char: "n < 128 \<Longrightarrow> ascii (ascii_escape_point n)"
  by (auto simp: ascii_escape_point_def json_escape_char_def hex4_def hex_digit_def)

lemma ascii_quote: "ascii s \<Longrightarrow> ascii (json_quote True s)"
  using ascii_escape_char by (auto simp: json_quote_def utf8_points_ascii) (auto simp: ascii_def)

lemma ascii_text: "plain True v \<Longrightarrow> ascii isep \<Longrightarrow> ascii ksep \<Longrightarrow> ascii (json_text True srt isep ksep v)"
proof (induction v)
  case (JList xs)
  then show ?case by (auto simp: list_all_iff intro!: ascii_join)
next
  case (JObj d)
  let ?ms = "map (\<lambda>(k, v). (k, json_text True srt isep ksep v)) d"
  let ?os = "if srt then sort_key fst ?ms else ?ms"
  have "ascii t" if "t \<in> set (map (\<lambda>(k, t). json_quote True k @ ksep @ t) ?os)" for t
  proof -
    obtain k v where "(k, v) \<in> set d" "t = json_quote True k @ ksep @ json_text True srt isep ksep v"
      using \<open>t \<in> _\<close> by (auto split: if_splits)
    then show ?thesis using JObj by (auto simp: list_all_iff intro!: ascii_quote)
  qed
  then have "ascii (join_with isep (map (\<lambda>(k, t). json_quote True k @ ksep @ t) ?os))"
    by (intro ascii_join JObj)
  then show ?case by (simp add: Let_def)
qed (auto simp: ascii_int_str ascii_quote ascii_short_float)

lemma ascii_dumps: "plain True v \<Longrightarrow> ascii (dumps True v)"
  unfolding dumps_def by (rule ascii_text) auto

section \<open>Sorting the keys\<close>

text \<open>What \<open>sort_keys=True\<close> writes is the text of the value with its keys sorted.\<close>

fun sort_json :: "json \<Rightarrow> json" where
  "sort_json (JList xs) = JList (map sort_json xs)"
| "sort_json (JObj d) = JObj (sort_key fst (map (\<lambda>(k, v). (k, sort_json v)) d))"
| "sort_json v = v"

fun storable :: "json \<Rightarrow> bool" where
  "storable (JFloat f) = short_float f"
| "storable (JStr s) = ascii s"
| "storable (JList xs) = list_all storable xs"
| "storable (JObj d) = (distinct (map fst d) \<and> list_all (\<lambda>(k, v). ascii k \<and> storable v) d)"
| "storable _ = True"

lemma sort_key_map_fst: "(\<And>x. fst (f x) = fst x) \<Longrightarrow> sort_key fst (map f xs) = map f (sort_key fst xs)"
proof -
  assume f: "\<And>x. fst (f x) = fst x"
  have "insort_key fst (f x) (map f ys) = map f (insort_key fst x ys)" for x ys
    by (induction ys) (auto simp: f)
  then show ?thesis by (induction xs) auto
qed

lemma sorted_sort_fst: "sorted (map fst (sort_key fst xs))"
  by simp

lemma plain_sort: "storable v \<Longrightarrow> plain True (sort_json v)"
proof (induction v)
  case (JObj d)
  let ?d = "map (\<lambda>(k, v). (k, sort_json v)) d"
  have k: "map fst ?d = map fst d" by (induction d) auto
  have "distinct (map fst (sort_key fst ?d))"
  proof -
    have "distinct (map fst ?d)" unfolding k using JObj.prems by simp
    then show ?thesis by (simp only: distinct_map set_sort distinct_sort)
  qed
  then have "sorted_wrt (<) (map fst (sort_key fst ?d))" by (simp add: strict_sorted_iff)
  moreover have "list_all (\<lambda>(k, v). ascii k \<and> plain True v) (sort_key fst ?d)"
    using JObj by (auto simp: list_all_iff)
  ultimately show ?case by simp
qed (auto simp: list_all_iff)

lemma text_sort: "json_text a True isep ksep v = json_text a True isep ksep (sort_json v)"
proof (induction v)
  case (JList xs)
  then have "map (json_text a True isep ksep) xs = map (json_text a True isep ksep \<circ> sort_json) xs" by simp
  then show ?case by (simp only: json_text.simps sort_json.simps list.map_comp)
next
  case (JObj d)
  let ?t = "\<lambda>(k, v). (k, json_text a True isep ksep v)" and ?s = "\<lambda>(k, v). (k, sort_json v)"
  have m: "map ?t (map ?s d) = map ?t d" using JObj by (auto simp: split_beta)
  have "sort_key fst (map ?t (sort_key fst (map ?s d))) = map ?t (sort_key fst (map ?s d))"
    by (subst sort_key_map_fst) (auto simp: sort_key_id_if_sorted)
  also have "\<dots> = sort_key fst (map ?t (map ?s d))" by (subst (2) sort_key_map_fst) auto
  finally show ?case unfolding m by (simp only: json_text.simps sort_json.simps Let_def if_True)
qed simp_all

lemma loads_sorted:
  assumes "storable v" "separator (CHR '','') isep" "separator (CHR '':'') ksep"
  shows "loads (json_text True True isep ksep v) = Some (sort_json v)"
  by (subst text_sort) (rule loads_text [OF assms(2,3) plain_sort [OF assms(1)]])

lemma map_of_sort: "distinct (map fst d) \<Longrightarrow> map_of (sort_key fst d) = map_of d"
  by (rule map_of_inject_set [THEN iffD2]) (auto simp: distinct_map)

lemma dget_sort_json:
  "distinct (map fst d) \<Longrightarrow> sort_json (JObj d) = JObj d' \<Longrightarrow> dget d' k = (if k \<in> fst ` set d then sort_json (dget d k) else JNull)"
proof -
  assume d: "distinct (map fst d)" and s: "sort_json (JObj d) = JObj d'"
  let ?d = "map (\<lambda>(k, v). (k, sort_json v)) d"
  have "map fst ?d = map fst d" by (induction d) auto
  then have "map_of (sort_key fst ?d) = map_of ?d" using d by (intro map_of_sort) (simp only:)
  then have "map_of d' = map_of ?d" using s by (simp only: sort_json.simps json.inject)
  also have "\<dots> = map_option sort_json \<circ> map_of d" by (induction d) (auto simp: fun_eq_iff)
  finally have m: "map_of d' k = map_option sort_json (map_of d k)" by simp
  have "map_of d k = None \<longleftrightarrow> k \<notin> fst ` set d" by (rule map_of_eq_None_iff)
  then show ?thesis using m by (cases "map_of d k") (simp_all add: dget_def)
qed

end
