(* ===== verification/Base64.thy ===== *)
theory Base64
  imports Prelude
begin

text \<open>
  The URL-safe base64 of the Python standard library: \<open>urlsafe_b64encode\<close>, and
  \<open>urlsafe_b64decode\<close> on top of the non-strict \<open>binascii.a2b_base64\<close>, which skips characters
  outside the alphabet. Bytes are characters.
\<close>

definition b64_char :: "nat \<Rightarrow> char" where
  "b64_char n =
     (if n < 26 then char_of (65 + n) else if n < 52 then char_of (71 + n) else if n < 62 then char_of (n - 4)
      else if n = 62 then CHR ''-'' else CHR ''_'')"

text \<open>The decoder maps \<open>-\<close> and \<open>_\<close> to \<open>+\<close> and \<open>/\<close>, which it also reads as they are.\<close>

definition b64_value :: "char \<Rightarrow> nat option" where
  "b64_value c =
     (if is_upper_ascii c then Some (of_char c - 65)
      else if is_lower_ascii c then Some (of_char c - 71)
      else if is_digit c then Some (of_char c + 4)
      else if c \<in> {CHR ''-'', CHR ''+''} then Some 62
      else if c \<in> {CHR ''_'', CHR ''/''} then Some 63
      else None)"

fun b64_groups :: "nat list \<Rightarrow> nat list" where
  "b64_groups (a # b # c # r) =
     [a div 4, (a mod 4) * 16 + b div 16, (b mod 16) * 4 + c div 64, c mod 64] @ b64_groups r"
| "b64_groups [a, b] = [a div 4, (a mod 4) * 16 + b div 16, (b mod 16) * 4]"
| "b64_groups [a] = [a div 4, (a mod 4) * 16]"
| "b64_groups [] = []"

definition urlsafe_b64encode :: "string \<Rightarrow> string" where
  "urlsafe_b64encode s =
     map b64_char (b64_groups (map of_char s)) @ replicate ((3 - length s mod 3) mod 3) (CHR ''='')"

text \<open>
  The decoder state: the position in the group of four, the bits left over, and the padding seen.
  Padding that completes a group ends the input; the input may not end inside a group.
\<close>

fun a2b :: "nat \<Rightarrow> nat \<Rightarrow> nat \<Rightarrow> string \<Rightarrow> nat list option" where
  "a2b q l p [] = (if q = 0 then Some [] else None)"
| "a2b q l p (c # s) =
     (if c = CHR ''='' then
        (if q \<ge> 2 then (if q + p + 1 \<ge> 4 then Some [] else a2b q l (p + 1) s) else a2b q l p s)
      else case b64_value c of
        None \<Rightarrow> a2b q l p s
      | Some v \<Rightarrow>
          (if q = 0 then a2b 1 v 0 s
           else if q = 1 then map_option ((#) (l * 4 + v div 16)) (a2b 2 (v mod 16) 0 s)
           else if q = 2 then map_option ((#) (l * 16 + v div 4)) (a2b 3 (v mod 4) 0 s)
           else map_option ((#) (l * 64 + v)) (a2b 0 0 0 s)))"

definition urlsafe_b64decode :: "string \<Rightarrow> string option" where
  "urlsafe_b64decode s = map_option (map char_of) (a2b 0 0 0 s)"

section \<open>Reading back\<close>

lemma b64_table: "list_all (\<lambda>n. b64_value (b64_char n) = Some n \<and> b64_char n \<noteq> CHR ''='' \<and> b64_char n \<noteq> CHR ''.''
    \<and> \<not> is_space (b64_char n) \<and> (of_char (b64_char n) :: nat) < 128) [0..<64]"
  by code_simp

lemma b64_value_char [simp]: "n < 64 \<Longrightarrow> b64_value (b64_char n) = Some n"
  and b64_char_not [simp]: "n < 64 \<Longrightarrow> b64_char n \<noteq> CHR ''=''" "n < 64 \<Longrightarrow> b64_char n \<noteq> CHR ''.''"
    "n < 64 \<Longrightarrow> \<not> is_space (b64_char n)" "n < 64 \<Longrightarrow> (of_char (b64_char n) :: nat) < 128"
  using b64_table by (auto simp: list_all_iff)

lemma b64_groups_small: "\<forall>x \<in> set bs. x < 256 \<Longrightarrow> n \<in> set (b64_groups bs) \<Longrightarrow> n < 64"
proof (induction bs rule: b64_groups.induct)
  case (1 a b c r)
  have "x mod 4 * 16 + y div 16 < 64" if "y < 256" for x y :: nat
  proof -
    have "x mod 4 \<le> 3" "y div 16 \<le> 15" using that by (auto simp: less_mult_imp_div_less less_Suc_eq_le [symmetric])
    then show ?thesis by linarith
  qed
  moreover have "x mod 16 * 4 + y div 64 < 64" if "y < 256" for x y :: nat
  proof -
    have "x mod 16 \<le> 15" "y div 64 \<le> 3" using that by (auto simp: less_mult_imp_div_less less_Suc_eq_le [symmetric])
    then show ?thesis by linarith
  qed
  ultimately show ?case using 1 by (auto simp: less_mult_imp_div_less)
qed (auto simp: less_mult_imp_div_less div_less_dividend)

definition b64_pad :: "nat \<Rightarrow> string" where
  "b64_pad n = replicate ((4 - n mod 4) mod 4) (CHR ''='')"

lemma a2b_char: "n < 64 \<Longrightarrow> a2b q l p (b64_char n # s) =
     (if q = 0 then a2b 1 n 0 s
      else if q = 1 then map_option ((#) (l * 4 + n div 16)) (a2b 2 (n mod 16) 0 s)
      else if q = 2 then map_option ((#) (l * 16 + n div 4)) (a2b 3 (n mod 4) 0 s)
      else map_option ((#) (l * 64 + n)) (a2b 0 0 0 s))"
  by simp

lemma sextets:
  fixes a b c :: nat
  assumes "a < 256" "b < 256" "c < 256"
  shows "a div 4 < 64" "(a mod 4) * 16 + b div 16 < 64" "(b mod 16) * 4 + c div 64 < 64" "c mod 64 < 64"
    "(a mod 4) * 16 < 64" "(b mod 16) * 4 < 64"
    "((a mod 4) * 16 + b div 16) div 16 = a mod 4" "((a mod 4) * 16 + b div 16) mod 16 = b div 16"
    "((b mod 16) * 4 + c div 64) div 4 = b mod 16" "((b mod 16) * 4 + c div 64) mod 4 = c div 64"
proof -
  have m: "a mod 4 \<le> 3" "b mod 16 \<le> 15" by auto
  have d: "b div 16 < 16" "c div 64 < 4" "a div 4 < 64" using assms by (simp_all add: less_mult_imp_div_less)
  show "a div 4 < 64" "(a mod 4) * 16 + b div 16 < 64" "(b mod 16) * 4 + c div 64 < 64" "c mod 64 < 64"
    "(a mod 4) * 16 < 64" "(b mod 16) * 4 < 64" using m d by (linarith | simp)+
  show "((a mod 4) * 16 + b div 16) div 16 = a mod 4" "((a mod 4) * 16 + b div 16) mod 16 = b div 16"
    "((b mod 16) * 4 + c div 64) div 4 = b mod 16" "((b mod 16) * 4 + c div 64) mod 4 = c div 64"
    using d by (simp_all add: div_mult_self3)
qed

lemma length_b64_groups_step: "length (b64_groups (a # b # c # r)) mod 4 = length (b64_groups r) mod 4"
  by simp

lemma a2b_groups:
  "\<forall>x \<in> set bs. x < 256 \<Longrightarrow>
     a2b 0 0 0 (map b64_char (b64_groups bs) @ b64_pad (length (b64_groups bs))) = Some bs"
proof (induction bs rule: b64_groups.induct)
  case (1 a b c r)
  then have lt: "a < 256" "b < 256" "c < 256" by auto
  note s = sextets [OF lt]
  have "a2b 0 0 0 (map b64_char (b64_groups r) @ b64_pad (length (b64_groups r))) = Some r" using 1 by simp
  moreover have "b64_pad (length (b64_groups (a # b # c # r))) = b64_pad (length (b64_groups r))"
    by (simp only: b64_pad_def length_b64_groups_step)
  ultimately show ?case
    by (simp only: b64_groups.simps list.map map_append append_Cons append_Nil a2b_char s)
      (simp add: mult.commute div_mult_mod_eq)
next
  case (2 a b)
  then have lt: "a < 256" "b < 256" by auto
  note s = sextets [OF lt lt(2)]
  have "b mod 16 * 4 div 4 = b mod 16" by simp
  then show ?case
    by (simp only: b64_groups.simps list.map map_append append_Cons append_Nil a2b_char s)
      (simp add: b64_pad_def mult.commute div_mult_mod_eq)
next
  case (3 a)
  then have lt: "a < 256" by auto
  note s = sextets [OF lt lt lt]
  have "a mod 4 * 16 div 16 = a mod 4" by simp
  then show ?case
    by (simp only: b64_groups.simps list.map map_append append_Cons append_Nil a2b_char s)
      (simp add: b64_pad_def mult.commute div_mult_mod_eq numeral_2_eq_2)
qed (simp add: b64_pad_def)

definition rstrip_pad :: "string \<Rightarrow> string" where
  "rstrip_pad s = rev (dropWhile (\<lambda>c. c = CHR ''='') (rev s))"

lemma rstrip_pad_encode: "rstrip_pad (urlsafe_b64encode s) = map b64_char (b64_groups (map of_char s))"
proof -
  let ?g = "map b64_char (b64_groups (map of_char s))"
  have small: "n < 64" if "n \<in> set (b64_groups (map of_char s))" for n
    using b64_groups_small [of "map of_char s" n] that by auto
  then have "CHR ''='' \<notin> set ?g" by (metis b64_char_not(1) imageE list.set_map)
  then have "CHR ''='' \<notin> set (rev ?g)" by (simp del: set_map)
  then have "dropWhile (\<lambda>c. c = CHR ''='') (rev ?g) = rev ?g"
    by (metis dropWhile_eq_self_iff hd_in_set)
  moreover have "dropWhile (\<lambda>c. c = CHR ''='') (replicate k (CHR ''='') @ t) = dropWhile (\<lambda>c. c = CHR ''='') t" for k t
    by (induction k) auto
  ultimately show ?thesis by (simp add: rstrip_pad_def urlsafe_b64encode_def)
qed

text \<open>Decoding the unpadded text with the padding put back gives the bytes.\<close>

lemma b64_roundtrip:
  "urlsafe_b64decode (rstrip_pad (urlsafe_b64encode s) @ b64_pad (length (rstrip_pad (urlsafe_b64encode s)))) = Some s"
  using a2b_groups [of "map of_char s"]
  by (simp add: rstrip_pad_encode urlsafe_b64decode_def comp_def)

lemma b64_text_chars:
  "c \<in> set (rstrip_pad (urlsafe_b64encode s)) \<Longrightarrow> c \<noteq> CHR ''.'' \<and> \<not> is_space c \<and> (of_char c :: nat) < 128"
proof -
  assume "c \<in> set (rstrip_pad (urlsafe_b64encode s))"
  then obtain n where n: "n < 64" "c = b64_char n"
    using b64_groups_small [of "map of_char s"] by (auto simp: rstrip_pad_encode)
  then show ?thesis by simp
qed

section \<open>The standard alphabet\<close>

text \<open>
  \<open>b64encode\<close> with \<open>+\<close> and \<open>/\<close>, of which the URL-safe form is a translation, and
  \<open>b64decode\<close>, to which \<open>-\<close> and \<open>_\<close> are characters outside the alphabet.
\<close>

definition b64encode :: "string \<Rightarrow> string" where
  "b64encode s = map (\<lambda>c. if c = CHR ''-'' then CHR ''+'' else if c = CHR ''_'' then CHR ''/'' else c) (urlsafe_b64encode s)"

definition b64decode :: "string \<Rightarrow> string option" where
  "b64decode s = urlsafe_b64decode (filter (\<lambda>c. c \<notin> {CHR ''-'', CHR ''_''}) s)"

lemma a2b_translate:
  "a2b q l p (map (\<lambda>c. if c = CHR ''-'' then CHR ''+'' else if c = CHR ''_'' then CHR ''/'' else c) s) = a2b q l p s"
proof (induction q l p s rule: a2b.induct)
  case (2 q l p c s)
  let ?t = "\<lambda>c. if c = CHR ''-'' then CHR ''+'' else if c = CHR ''_'' then CHR ''/'' else c"
  have "b64_value (?t c) = b64_value c" by (auto simp: b64_value_def is_upper_ascii_def is_lower_ascii_def is_digit_def less_eq_char_def)
  moreover have "?t c = CHR ''='' \<longleftrightarrow> c = CHR ''=''" by auto
  ultimately show ?case using 2 by (auto split: option.splits)
qed simp

lemma b64_padded: "a2b 0 0 0 (urlsafe_b64encode s) = Some (map of_char s)"
proof -
  have "length (b64_groups xs) mod 4 = (if length xs mod 3 = 0 then 0 else length xs mod 3 + 1)" for xs
    by (induction xs rule: b64_groups.induct) (auto simp: mod_Suc)
  from this [of "map of_char s"]
  have "b64_pad (length (b64_groups (map of_char s))) = replicate ((3 - length s mod 3) mod 3) (CHR ''='')"
    by (simp add: b64_pad_def)
  then have "urlsafe_b64encode s = map b64_char (b64_groups (map of_char s)) @ b64_pad (length (b64_groups (map of_char s)))"
    by (simp add: urlsafe_b64encode_def)
  then show ?thesis using a2b_groups [of "map of_char s"] by simp
qed

lemma b64decode_encode: "b64decode (b64encode s) = Some s"
proof -
  have "filter (\<lambda>c. c \<notin> {CHR ''-'', CHR ''_''}) (b64encode s) = b64encode s"
    by (rule filter_True) (auto simp: b64encode_def)
  then show ?thesis
    by (simp add: b64decode_def urlsafe_b64decode_def b64encode_def a2b_translate b64_padded comp_def)
qed

end
