(* ===== verification/Cursor.thy ===== *)
theory Cursor
  imports StoreInv JsonRoundtrip Base64
begin

text \<open>
  Portable replay cursors (\<open>events.py\<close>): the constructor checks of \<open>ReplayCursor\<close>, the opaque
  \<open>hmc1\<close> token, the issuing of a cursor by a store and its validation against a store. A field
  that comes from outside is a JSON value until the constructor has checked it. Whitespace at the ends of a
  field is what Python strips, over the UTF-8 text; digits are the ASCII ones. The checks that need a second store are in the theory of mounts.
\<close>

section \<open>The cursor\<close>

definition CURSOR_VERSION :: int where "CURSOR_VERSION = 1"

definition CURSOR_PREFIX :: string where "CURSOR_PREFIX = ''hmc1''"

definition DEFAULT_REPLAY_EVENT_TYPES :: "string list" where
  "DEFAULT_REPLAY_EVENT_TYPES = [''memory.created'']"

definition RECONSTRUCTING_EVENT_TYPES :: "string list" where
  "RECONSTRUCTING_EVENT_TYPES = [''memory.created'', ''memory.deleted'', ''memory.updated'']"

definition SCOPE_MODES :: "string list" where
  "SCOPE_MODES = [''legacy'', ''explicit'', ''reconstructing'']"

definition MAX_CURSOR_TOKEN :: nat where "MAX_CURSOR_TOKEN = 64 * 1024"

definition MAX_CURSOR_FIELD :: nat where "MAX_CURSOR_FIELD = 512"

definition MAX_CURSOR_EVENT_TYPES :: nat where "MAX_CURSOR_EVENT_TYPES = 256"

definition MAX_CURSOR_EVENT_TYPE_LEN :: nat where "MAX_CURSOR_EVENT_TYPE_LEN = 128"

text \<open>
  \<open>ReplayCursorError\<close> with its reason; other exceptions that leave these functions are those of
  the database and of Python.
\<close>

datatype cursor_exn = CursorError string | CursorDb db_exn | CursorPy py_exn

type_synonym 'a cursor_res = "cursor_exn + 'a"

abbreviation malformed :: cursor_exn where
  "malformed \<equiv> CursorError ''malformed_cursor''"

abbreviation unanchored :: cursor_exn where
  "unanchored \<equiv> CursorError ''unanchored_sequence''"

definition of_db :: "'a db_res \<Rightarrow> 'a cursor_res" where
  "of_db m = map_sum CursorDb id m"

record replay_cursor =
  rc_mount_id :: string
  rc_replica_id :: string
  rc_history_id :: string
  rc_seq :: int
  rc_anchor_event_id :: string
  rc_base_snapshot_id :: string
  rc_namespace :: "string option"
  rc_event_types :: "string list"
  rc_scope_mode :: string

text \<open>The arguments of the constructor.\<close>

record cursor_args =
  ca_version :: json
  ca_mount_id :: json
  ca_replica_id :: json
  ca_history_id :: json
  ca_seq :: json
  ca_anchor_event_id :: json
  ca_base_snapshot_id :: json
  ca_namespace :: json
  ca_event_types :: json
  ca_scope_mode :: json

definition add_new :: "string \<Rightarrow> string list \<Rightarrow> string list" where
  "add_new x xs = (if x \<in> set xs then xs else xs @ [x])"

definition clean_event_type :: "json \<Rightarrow> string cursor_res" where
  "clean_event_type v = (case v of
     JStr s \<Rightarrow> (if strip s = [] then Inl malformed else Inr (strip s))
   | _ \<Rightarrow> Inl malformed)"

definition normalize_event_types :: "json \<Rightarrow> string list cursor_res" where
  "normalize_event_types v = (case v of
     JNull \<Rightarrow> Inr DEFAULT_REPLAY_EVENT_TYPES
   | JList items \<Rightarrow> rbind (traverse clean_event_type items) (\<lambda>ts.
       if ts = [] then Inl malformed else Inr (sort (fold add_new ts [])))
   | _ \<Rightarrow> Inl malformed)"

definition normalize_scope_namespace :: "json \<Rightarrow> string option cursor_res" where
  "normalize_scope_namespace v = (case v of
     JNull \<Rightarrow> Inr None
   | JStr s \<Rightarrow> Inr (Some s)
   | _ \<Rightarrow> Inl malformed)"

definition nonblank :: "json \<Rightarrow> bool" where
  "nonblank v = (case v of JStr s \<Rightarrow> strip s \<noteq> [] | _ \<Rightarrow> False)"

definition str_of :: "json \<Rightarrow> string" where
  "str_of v = (case v of JStr s \<Rightarrow> s | _ \<Rightarrow> [])"

definition check_version :: "json \<Rightarrow> unit cursor_res" where
  "check_version v = (case v of
     JInt i \<Rightarrow> ensure (i = CURSOR_VERSION) (CursorError ''unsupported_cursor_version'')
   | _ \<Rightarrow> Inl malformed)"

definition check_seq :: "json \<Rightarrow> int cursor_res" where
  "check_seq v = (case v of JInt i \<Rightarrow> (if i < 0 then Inl malformed else Inr i) | _ \<Rightarrow> Inl malformed)"

definition check_anchor :: "int \<Rightarrow> json \<Rightarrow> unit cursor_res" where
  "check_anchor seq v =
     (if \<not> is_str v then Inl malformed
      else if seq = 0 \<and> str_of v \<noteq> [] then Inl malformed
      else if seq > 0 \<and> strip (str_of v) = [] then Inl unanchored
      else Inr ())"

definition too_long :: "string \<Rightarrow> bool" where
  "too_long s = (py_len s > MAX_CURSOR_FIELD)"

definition check_types :: "string list \<Rightarrow> unit cursor_res" where
  "check_types ts =
     ensure (length ts \<le> MAX_CURSOR_EVENT_TYPES \<and> (\<forall>t \<in> set ts. py_len t \<le> MAX_CURSOR_EVENT_TYPE_LEN)) malformed"

definition make_cursor :: "cursor_args \<Rightarrow> replay_cursor cursor_res" where
  "make_cursor a =
     rbind (check_version (ca_version a)) (\<lambda>_.
     rbind (ensure (nonblank (ca_mount_id a) \<and> nonblank (ca_replica_id a) \<and> nonblank (ca_history_id a)) unanchored) (\<lambda>_.
     rbind (check_seq (ca_seq a)) (\<lambda>seq.
     rbind (check_anchor seq (ca_anchor_event_id a)) (\<lambda>_.
     rbind (ensure (is_str (ca_base_snapshot_id a)) malformed) (\<lambda>_.
     rbind (ensure (\<not> (\<exists>v \<in> {ca_mount_id a, ca_replica_id a, ca_history_id a, ca_anchor_event_id a, ca_base_snapshot_id a}.
       too_long (str_of v))) malformed) (\<lambda>_.
     rbind (normalize_scope_namespace (ca_namespace a)) (\<lambda>ns.
     rbind (normalize_event_types (ca_event_types a)) (\<lambda>ts.
     rbind (check_types ts) (\<lambda>_.
     rbind (ensure (case ns of None \<Rightarrow> True | Some n \<Rightarrow> \<not> too_long n) malformed) (\<lambda>_.
     rbind (ensure (\<exists>m \<in> set SCOPE_MODES. ca_scope_mode a = JStr m) malformed) (\<lambda>_.
     Inr \<lparr>rc_mount_id = str_of (ca_mount_id a), rc_replica_id = str_of (ca_replica_id a),
          rc_history_id = str_of (ca_history_id a), rc_seq = seq, rc_anchor_event_id = str_of (ca_anchor_event_id a),
          rc_base_snapshot_id = str_of (ca_base_snapshot_id a), rc_namespace = ns, rc_event_types = ts,
          rc_scope_mode = str_of (ca_scope_mode a)\<rparr>)))))))))))"

section \<open>The token\<close>

definition scope_of :: "replay_cursor \<Rightarrow> dict" where
  "scope_of c =
     [(''event_types'', JList (map JStr (rc_event_types c))),
      (''namespace'', case rc_namespace c of None \<Rightarrow> JNull | Some n \<Rightarrow> JStr n)]
     @ (if rc_scope_mode c \<noteq> ''legacy'' then [(''scope_mode'', JStr (rc_scope_mode c))] else [])"

definition to_payload_dict :: "replay_cursor \<Rightarrow> dict" where
  "to_payload_dict c =
     [(''anchor_event_id'', JStr (rc_anchor_event_id c)), (''base_snapshot_id'', JStr (rc_base_snapshot_id c)),
      (''history_id'', JStr (rc_history_id c)), (''mount_id'', JStr (rc_mount_id c)),
      (''replica_id'', JStr (rc_replica_id c)), (''scope'', JObj (scope_of c)), (''seq'', JInt (rc_seq c)),
      (''v'', JInt CURSOR_VERSION)]"

definition encode_cursor :: "replay_cursor \<Rightarrow> string" where
  "encode_cursor c =
     (let b64 = rstrip_pad (urlsafe_b64encode (dumps True (JObj (to_payload_dict c))));
          signing_input = CURSOR_PREFIX @ ''.'' @ b64 in
      signing_input @ ''.'' @ sha256_hex signing_input)"

definition is_sequence_text :: "string \<Rightarrow> bool" where
  "is_sequence_text t =
     (let d = dropWhile (\<lambda>c. c \<in> {CHR ''-'', CHR ''+''}) t in t = [] \<or> (d \<noteq> [] \<and> list_all is_digit d))"

text \<open>The payload of a checked token; every failure inside is caught and reported as malformed.\<close>

definition decode_payload :: "string \<Rightarrow> json cursor_res" where
  "decode_payload b64 =
     (case urlsafe_b64decode (b64 @ b64_pad (length b64)) of
        None \<Rightarrow> Inl malformed
      | Some bytes \<Rightarrow>
          (if utf8_valid (map of_char bytes)
           then (case loads bytes of Some v \<Rightarrow> Inr v | None \<Rightarrow> Inl malformed)
           else Inl malformed))"

definition cursor_of_payload :: "json \<Rightarrow> replay_cursor cursor_res" where
  "cursor_of_payload data = (case data of
     JObj d \<Rightarrow>
       (if \<not> has_key d ''v'' then Inl malformed
        else rbind (check_version (dget d ''v'')) (\<lambda>_.
          case dget d ''scope'' of
            JObj sc \<Rightarrow>
              (if \<not> has_key sc ''event_types'' then Inl malformed
               else make_cursor \<lparr>ca_version = dget d ''v'',
                 ca_mount_id = dget_default d ''mount_id'' (JStr []),
                 ca_replica_id = dget_default d ''replica_id'' (JStr []),
                 ca_history_id = dget_default d ''history_id'' (JStr []),
                 ca_seq = dget_default d ''seq'' (JInt (- 1)),
                 ca_anchor_event_id = dget_default d ''anchor_event_id'' (JStr []),
                 ca_base_snapshot_id = dget_default d ''base_snapshot_id'' (JStr []),
                 ca_namespace = dget sc ''namespace'', ca_event_types = dget sc ''event_types'',
                 ca_scope_mode = dget_default sc ''scope_mode'' (JStr ''legacy'')\<rparr>)
          | _ \<Rightarrow> Inl malformed))
   | _ \<Rightarrow> Inl malformed)"

text \<open>
  The checksum is computed on \<open>f"{prefix}.{payload}".encode("ascii")\<close>, outside any handler: a
  payload that is not ASCII raises \<open>UnicodeEncodeError\<close>, a \<open>ValueError\<close>.
\<close>

definition decode_parts :: "string list \<Rightarrow> replay_cursor cursor_res" where
  "decode_parts parts =
     (let prefix = hd parts in
      if starts_with prefix ''hmc'' \<and> prefix \<noteq> CURSOR_PREFIX then Inl (CursorError ''unsupported_cursor_version'')
      else case parts of
        [p, b64, sig] \<Rightarrow>
          (if p \<noteq> CURSOR_PREFIX \<or> b64 = [] \<or> sig = [] then Inl malformed
           else if \<not> ascii b64 then Inl (CursorPy ValueError)
           else if sig \<noteq> sha256_hex (CURSOR_PREFIX @ ''.'' @ b64) then Inl malformed
           else rbind (decode_payload b64) cursor_of_payload)
      | _ \<Rightarrow> Inl malformed)"

definition decode_token :: "string \<Rightarrow> replay_cursor cursor_res" where
  "decode_token raw =
     (let token = strip raw in
      if py_len token > MAX_CURSOR_TOKEN then Inl malformed
      else if is_sequence_text token then Inl unanchored
      else decode_parts (split_on (CHR ''.'') token))"

datatype cursor_arg = CursorObject replay_cursor | CursorValue json

definition blank_id :: "dict \<Rightarrow> string \<Rightarrow> bool" where
  "blank_id d k = (strip (str_or_empty d k) = [])"

definition decode_cursor :: "cursor_arg \<Rightarrow> replay_cursor cursor_res" where
  "decode_cursor raw = (case raw of
     CursorObject c \<Rightarrow> Inr c
   | CursorValue v \<Rightarrow> (case v of
       JNull \<Rightarrow> Inl unanchored
     | JBool b \<Rightarrow> Inl malformed
     | JInt i \<Rightarrow> Inl unanchored
     | JObj d \<Rightarrow> (if blank_id d ''mount_id'' \<or> blank_id d ''replica_id'' \<or> blank_id d ''history_id''
                 then Inl unanchored else Inl malformed)
     | JStr s \<Rightarrow> decode_token s
     | _ \<Rightarrow> Inl malformed))"

section \<open>Well-formed cursors\<close>

text \<open>What the constructor guarantees.\<close>

definition wf_types :: "string list \<Rightarrow> bool" where
  "wf_types ts \<longleftrightarrow> ts \<noteq> [] \<and> sorted_wrt (<) ts \<and> (\<forall>t \<in> set ts. t \<noteq> [] \<and> strip t = t)"

definition wf_cursor :: "replay_cursor \<Rightarrow> bool" where
  "wf_cursor c \<longleftrightarrow>
     strip (rc_mount_id c) \<noteq> [] \<and> strip (rc_replica_id c) \<noteq> [] \<and> strip (rc_history_id c) \<noteq> []
     \<and> 0 \<le> rc_seq c \<and> (rc_seq c = 0 \<longrightarrow> rc_anchor_event_id c = [])
     \<and> (0 < rc_seq c \<longrightarrow> strip (rc_anchor_event_id c) \<noteq> [])
     \<and> (\<forall>x \<in> {rc_mount_id c, rc_replica_id c, rc_history_id c, rc_anchor_event_id c, rc_base_snapshot_id c}.
          py_len x \<le> MAX_CURSOR_FIELD)
     \<and> (\<forall>n. rc_namespace c = Some n \<longrightarrow> py_len n \<le> MAX_CURSOR_FIELD)
     \<and> wf_types (rc_event_types c) \<and> length (rc_event_types c) \<le> MAX_CURSOR_EVENT_TYPES
     \<and> (\<forall>t \<in> set (rc_event_types c). py_len t \<le> MAX_CURSOR_EVENT_TYPE_LEN)
     \<and> rc_scope_mode c \<in> set SCOPE_MODES"

lemma fold_add_new: "set (fold add_new xs ys) = set xs \<union> set ys" "distinct ys \<Longrightarrow> distinct (fold add_new xs ys)"
  by (induction xs arbitrary: ys) (auto simp: add_new_def)

lemma fold_add_new_distinct: "distinct (ys @ xs) \<Longrightarrow> fold add_new xs ys = ys @ xs"
  by (induction xs arbitrary: ys) (auto simp: add_new_def)

lemma clean_event_type_Inr: "clean_event_type v = Inr t \<Longrightarrow> t \<noteq> [] \<and> strip t = t"
  by (cases v) (auto simp: clean_event_type_def strip_idem split: if_splits)

lemma normalize_event_types_wf: "normalize_event_types v = Inr ts \<Longrightarrow> wf_types ts"
proof (cases v)
  case (JList items)
  assume "normalize_event_types v = Inr ts"
  with JList obtain cs where cs: "traverse clean_event_type items = Inr cs" "cs \<noteq> []" "ts = sort (fold add_new cs [])"
    by (auto simp: normalize_event_types_def rbind_eq_Inr split: if_splits)
  have "\<forall>t \<in> set cs. t \<noteq> [] \<and> strip t = t"
    using cs(1) by (auto simp: traverse_Inr_iff list_all2_conv_all_nth in_set_conv_nth dest!: clean_event_type_Inr)
  moreover have "sorted_wrt (<) ts"
    using fold_add_new(2) [of "[]" cs] cs(3) by (simp add: strict_sorted_iff)
  moreover have "ts \<noteq> []"
    using fold_add_new(1) [of cs "[]"] cs(2,3) by (metis set_empty set_sort sup_bot.right_neutral)
  ultimately show ?thesis using cs(3) fold_add_new(1) [of cs "[]"] by (simp add: wf_types_def)
qed (auto simp: normalize_event_types_def wf_types_def DEFAULT_REPLAY_EVENT_TYPES_def strip_def is_space_def)

lemma normalize_event_types_normal:
  assumes "wf_types ts"
  shows "normalize_event_types (JList (map JStr ts)) = Inr ts"
proof -
  have "\<forall>t \<in> set ts. t \<noteq> [] \<and> strip t = t" using assms by (simp add: wf_types_def)
  then have "traverse clean_event_type (map JStr ts) = Inr ts"
    by (induction ts) (auto simp: clean_event_type_def)
  moreover have "sort (fold add_new ts []) = ts"
    using assms fold_add_new_distinct [of "[]" ts] by (simp add: wf_types_def strict_sorted_iff sorted_sort_id)
  ultimately show ?thesis using assms by (simp add: normalize_event_types_def wf_types_def)
qed

definition args_of :: "replay_cursor \<Rightarrow> cursor_args" where
  "args_of c = \<lparr>ca_version = JInt CURSOR_VERSION, ca_mount_id = JStr (rc_mount_id c),
     ca_replica_id = JStr (rc_replica_id c), ca_history_id = JStr (rc_history_id c), ca_seq = JInt (rc_seq c),
     ca_anchor_event_id = JStr (rc_anchor_event_id c), ca_base_snapshot_id = JStr (rc_base_snapshot_id c),
     ca_namespace = (case rc_namespace c of None \<Rightarrow> JNull | Some n \<Rightarrow> JStr n),
     ca_event_types = JList (map JStr (rc_event_types c)), ca_scope_mode = JStr (rc_scope_mode c)\<rparr>"

lemma nonblank_str: "nonblank v \<longleftrightarrow> strip (str_of v) \<noteq> []"
  by (cases v) (auto simp: nonblank_def str_of_def)

lemma check_seq_Inr: "check_seq v = Inr n \<longleftrightarrow> v = JInt n \<and> 0 \<le> n"
  by (cases v) (auto simp: check_seq_def)

lemma normalize_scope_namespace_Inr:
  "normalize_scope_namespace v = Inr ns \<longleftrightarrow> v = (case ns of None \<Rightarrow> JNull | Some n \<Rightarrow> JStr n)"
  by (cases v) (auto simp: normalize_scope_namespace_def split: option.splits)

lemma make_cursor_wf:
  assumes "make_cursor a = Inr c"
  shows "wf_cursor c"
proof -
  from assms obtain ns ts where
    ids: "nonblank (ca_mount_id a)" "nonblank (ca_replica_id a)" "nonblank (ca_history_id a)"
    and sq: "check_seq (ca_seq a) = Inr (rc_seq c)" "check_anchor (rc_seq c) (ca_anchor_event_id a) = Inr ()"
    and len: "\<not> (\<exists>v \<in> {ca_mount_id a, ca_replica_id a, ca_history_id a, ca_anchor_event_id a, ca_base_snapshot_id a}.
       too_long (str_of v))"
    and ts: "normalize_event_types (ca_event_types a) = Inr ts" "check_types ts = Inr ()"
    and ns: "case ns of None \<Rightarrow> True | Some n \<Rightarrow> \<not> too_long n"
    and mode: "\<exists>m \<in> set SCOPE_MODES. ca_scope_mode a = JStr m"
    and c: "c = \<lparr>rc_mount_id = str_of (ca_mount_id a), rc_replica_id = str_of (ca_replica_id a),
          rc_history_id = str_of (ca_history_id a), rc_seq = rc_seq c, rc_anchor_event_id = str_of (ca_anchor_event_id a),
          rc_base_snapshot_id = str_of (ca_base_snapshot_id a), rc_namespace = ns, rc_event_types = ts,
          rc_scope_mode = str_of (ca_scope_mode a)\<rparr>"
    by (auto simp: make_cursor_def rbind_eq_Inr)
  have f: "rc_mount_id c = str_of (ca_mount_id a)" "rc_replica_id c = str_of (ca_replica_id a)"
    "rc_history_id c = str_of (ca_history_id a)" "rc_anchor_event_id c = str_of (ca_anchor_event_id a)"
    "rc_base_snapshot_id c = str_of (ca_base_snapshot_id a)" "rc_namespace c = ns" "rc_event_types c = ts"
    "rc_scope_mode c = str_of (ca_scope_mode a)"
    by (subst c, simp)+
  have "rc_scope_mode c \<in> set SCOPE_MODES" using mode f(8) by (auto simp: str_of_def)
  moreover have "(rc_seq c = 0 \<longrightarrow> str_of (ca_anchor_event_id a) = []) \<and> (0 < rc_seq c \<longrightarrow> strip (str_of (ca_anchor_event_id a)) \<noteq> [])"
    using sq(2) by (auto simp: check_anchor_def split: if_splits)
  ultimately show ?thesis
    using ids sq(1) len ts ns normalize_event_types_wf [OF ts(1)]
    unfolding wf_cursor_def f check_seq_Inr nonblank_str
    by (auto simp: check_types_def too_long_def not_less split: option.splits)
qed

lemma make_cursor_fields:
  assumes "make_cursor a = Inr c"
  shows "rc_mount_id c = str_of (ca_mount_id a)" "rc_replica_id c = str_of (ca_replica_id a)"
    "rc_history_id c = str_of (ca_history_id a)" "ca_seq a = JInt (rc_seq c)"
    "rc_anchor_event_id c = str_of (ca_anchor_event_id a)" "rc_base_snapshot_id c = str_of (ca_base_snapshot_id a)"
    "ca_namespace a = (case rc_namespace c of None \<Rightarrow> JNull | Some n \<Rightarrow> JStr n)"
    "normalize_event_types (ca_event_types a) = Inr (rc_event_types c)" "ca_scope_mode a = JStr (rc_scope_mode c)"
  using assms by (auto simp: make_cursor_def rbind_eq_Inr check_seq_Inr normalize_scope_namespace_Inr str_of_def)

lemma make_cursor_args:
  assumes "wf_cursor c"
  shows "make_cursor (args_of c) = Inr c"
proof -
  have n: "normalize_event_types (JList (map JStr (rc_event_types c))) = Inr (rc_event_types c)"
    using assms by (intro normalize_event_types_normal) (simp add: wf_cursor_def)
  have ns: "normalize_scope_namespace (case rc_namespace c of None \<Rightarrow> JNull | Some n \<Rightarrow> JStr n) = Inr (rc_namespace c)"
    by (simp add: normalize_scope_namespace_Inr)
  have a: "check_anchor (rc_seq c) (JStr (rc_anchor_event_id c)) = Inr ()" "check_seq (JInt (rc_seq c)) = Inr (rc_seq c)"
    "check_types (rc_event_types c) = Inr ()" "check_version (JInt CURSOR_VERSION) = Inr ()"
    using assms by (auto simp: wf_cursor_def check_anchor_def check_seq_def check_types_def check_version_def str_of_def)
  have l: "(case rc_namespace c of None \<Rightarrow> True | Some n \<Rightarrow> \<not> too_long n)"
    using assms by (auto simp: wf_cursor_def too_long_def split: option.splits)
  have m: "(\<exists>v \<in> {JStr (rc_mount_id c), JStr (rc_replica_id c), JStr (rc_history_id c), JStr (rc_anchor_event_id c),
      JStr (rc_base_snapshot_id c)}. too_long (str_of v)) = False"
    using assms by (auto simp: wf_cursor_def too_long_def str_of_def)
  show ?thesis
    using assms unfolding make_cursor_def args_of_def cursor_args.simps m n ns a rbind_simps
    by (simp add: l nonblank_str wf_cursor_def) (simp add: str_of_def)
qed

section \<open>Token round trip\<close>

lemma utf8_valid_ascii: "ascii s \<Longrightarrow> utf8_valid (map of_char s)"
  by (induction s) simp_all

definition ascii_cursor :: "replay_cursor \<Rightarrow> bool" where
  "ascii_cursor c \<longleftrightarrow> list_all ascii ([rc_mount_id c, rc_replica_id c, rc_history_id c, rc_anchor_event_id c,
     rc_base_snapshot_id c, rc_scope_mode c] @ rc_event_types c @ (case rc_namespace c of None \<Rightarrow> [] | Some n \<Rightarrow> [n]))"

lemma payload_keys:
  "sorted_wrt (<) [''anchor_event_id'', ''base_snapshot_id'', ''history_id'', ''mount_id'', ''replica_id'', ''scope'',
     ''seq'', ''v'']"
  "sorted_wrt (<) [''event_types'', ''namespace'', ''scope_mode'']" "sorted_wrt (<) [''event_types'', ''namespace'']"
  by code_simp+

lemma plain_payload:
  assumes "ascii_cursor c"
  shows "plain True (JObj (to_payload_dict c))"
proof -
  have "plain True (JObj (scope_of c))"
    using assms payload_keys(2,3) unfolding scope_of_def
    by (cases "rc_namespace c") (simp_all del: sorted_wrt.simps add: ascii_cursor_def list_all_iff)
  then show ?thesis
    using assms payload_keys(1) unfolding to_payload_dict_def
    by (simp del: sorted_wrt.simps add: ascii_cursor_def list_all_iff)
qed

lemma cursor_of_payload_dict: "cursor_of_payload (JObj (to_payload_dict c)) = make_cursor (args_of c)"
  by (simp add: cursor_of_payload_def to_payload_dict_def scope_of_def args_of_def has_key_def dget_def
    dget_default_def check_version_def split: option.splits)

lemma decode_payload_encode:
  assumes "ascii_cursor c"
  shows "decode_payload (rstrip_pad (urlsafe_b64encode (dumps True (JObj (to_payload_dict c))))) = Inr (JObj (to_payload_dict c))"
  unfolding decode_payload_def b64_roundtrip option.case
  using loads_dumps [OF plain_payload [OF assms]] utf8_valid_ascii [OF ascii_dumps [OF plain_payload [OF assms]]]
  by simp

lemma py_len_le: "py_len s \<le> length s"
  by (simp add: py_len_def)

lemma hex_char: "c \<in> set (sha256_hex s) \<Longrightarrow> \<not> is_space c \<and> c \<noteq> CHR ''.'' \<and> (of_char c :: nat) < 128"
  using sha256_hex_digits [of c s] by (auto simp: is_space_def)

lemma token_no_space: "c \<in> set (encode_cursor k) \<Longrightarrow> \<not> is_space c \<and> (of_char c :: nat) < 128"
  using b64_text_chars hex_char by (auto simp: encode_cursor_def Let_def CURSOR_PREFIX_def is_space_def)

lemma strip_token: "strip (encode_cursor c) = encode_cursor c"
  by (rule no_space_strip) (rule token_no_space)

lemma token_parts:
  "\<exists>b64 sig. encode_cursor c = CURSOR_PREFIX @ ''.'' @ b64 @ ''.'' @ sig
     \<and> b64 = rstrip_pad (urlsafe_b64encode (dumps True (JObj (to_payload_dict c))))
     \<and> sig = sha256_hex (CURSOR_PREFIX @ ''.'' @ b64)"
  by (simp add: encode_cursor_def Let_def)

lemma b64_nonempty: "s \<noteq> [] \<Longrightarrow> rstrip_pad (urlsafe_b64encode s) \<noteq> []"
  unfolding rstrip_pad_encode by (cases "map of_char s :: nat list" rule: b64_groups.cases) auto

lemma split_token:
  assumes "CHR ''.'' \<notin> set x" "CHR ''.'' \<notin> set y" "CHR ''.'' \<notin> set z"
  shows "split_on (CHR ''.'') (x @ ''.'' @ y @ ''.'' @ z) = [x, y, z]"
  using assms by (simp add: split_on_append split_on_plain)

lemma token_roundtrip:
  assumes "wf_cursor c" "ascii_cursor c" "py_len (encode_cursor c) \<le> MAX_CURSOR_TOKEN"
  shows "decode_token (encode_cursor c) = Inr c"
proof -
  obtain b64 sig where t: "encode_cursor c = CURSOR_PREFIX @ ''.'' @ b64 @ ''.'' @ sig"
    and b: "b64 = rstrip_pad (urlsafe_b64encode (dumps True (JObj (to_payload_dict c))))"
    and g: "sig = sha256_hex (CURSOR_PREFIX @ ''.'' @ b64)"
    using token_parts by blast
  have "dumps True (JObj (to_payload_dict c)) \<noteq> []" by (simp add: dumps_def Let_def)
  then have ne: "b64 \<noteq> []" "sig \<noteq> []" unfolding b g by (auto dest: b64_nonempty)
  have dots: "CHR ''.'' \<notin> set CURSOR_PREFIX" "CHR ''.'' \<notin> set b64" "CHR ''.'' \<notin> set sig"
    using b64_text_chars hex_char unfolding b g by (auto simp: CURSOR_PREFIX_def)
  have asc: "ascii b64" using b64_text_chars unfolding b ascii_def by auto
  have "\<not> is_sequence_text (encode_cursor c)"
    unfolding t by (simp add: is_sequence_text_def CURSOR_PREFIX_def is_digit_def Let_def)
  moreover have "split_on (CHR ''.'') (encode_cursor c) = [CURSOR_PREFIX, b64, sig]"
    unfolding t by (rule split_token [OF dots])
  moreover have "decode_parts [CURSOR_PREFIX, b64, sig] = rbind (decode_payload b64) cursor_of_payload"
    using ne asc g by (simp add: decode_parts_def)
  ultimately show ?thesis
    using assms(3) by (simp add: decode_token_def Let_def strip_token b decode_payload_encode [OF assms(2)]
      cursor_of_payload_dict make_cursor_args [OF assms(1)])
qed

text \<open>C30. What becomes of a replay cursor in its opaque token. A cursor that the constructor accepted and whose
  fields are ASCII decodes to itself, scope mode included, when its token is within the size limit of the decoder;
  a longer token, which the encoder writes without complaint, is refused as malformed.
\<close>

theorem cursor_token_roundtrip:
  assumes "make_cursor a = Inr c" "ascii_cursor c"
  shows "decode_cursor (CursorValue (JStr (encode_cursor c)))
    = (if py_len (encode_cursor c) \<le> MAX_CURSOR_TOKEN then Inr c else Inl malformed)"
  using token_roundtrip [OF make_cursor_wf [OF assms(1)] assms(2)]
  by (simp add: decode_cursor_def decode_token_def [of "encode_cursor c"] strip_token Let_def)

lemma cursor_of_payload_wf: "cursor_of_payload v = Inr c \<Longrightarrow> wf_cursor c"
  by (auto simp: cursor_of_payload_def rbind_eq_Inr split: json.splits if_splits intro: make_cursor_wf)

lemma decode_parts_Inr:
  assumes "decode_parts parts = Inr c"
  shows "\<exists>b64. parts = [CURSOR_PREFIX, b64, sha256_hex (CURSOR_PREFIX @ ''.'' @ b64)] \<and> wf_cursor c"
  using assms cursor_of_payload_wf
  by (auto simp: decode_parts_def Let_def rbind_eq_Inr split: if_splits list.splits)

lemma join_split_on: "join_with [c] (split_on c s) = s"
proof (induction s)
  case (Cons x s)
  have "join_with [c] ((x # a) # l) = x # join_with [c] (a # l)" for a l by (cases l) auto
  with Cons show ?case by (auto split: list.splits)
qed simp

text \<open>C31. The decoder accepts only opaque tokens with an intact checksum: never a local sequence
  number, a mapping, a boolean or null; the token is within the size limit, and the cursor it carries is
  well-formed, so every bound of the constructor (field lengths, number and length of event types,
  a sequence number that is not negative, an anchor exactly when it is positive) holds of it.
\<close>

theorem decode_cursor_sound:
  assumes "decode_cursor (CursorValue v) = Inr c"
  shows "wf_cursor c \<and> (\<exists>s b64. v = JStr s \<and> py_len (strip s) \<le> MAX_CURSOR_TOKEN
    \<and> strip s = CURSOR_PREFIX @ ''.'' @ b64 @ ''.'' @ sha256_hex (CURSOR_PREFIX @ ''.'' @ b64))"
proof -
  from assms obtain s where s: "v = JStr s" "decode_token s = Inr c"
    by (cases v) (auto simp: decode_cursor_def split: if_splits)
  then have len: "py_len (strip s) \<le> MAX_CURSOR_TOKEN" and "decode_parts (split_on (CHR ''.'') (strip s)) = Inr c"
    by (auto simp: decode_token_def Let_def not_less split: if_splits)
  then obtain b64 where p: "split_on (CHR ''.'') (strip s) = [CURSOR_PREFIX, b64, sha256_hex (CURSOR_PREFIX @ ''.'' @ b64)]"
    and w: "wf_cursor c"
    using decode_parts_Inr by blast
  have "strip s = CURSOR_PREFIX @ ''.'' @ b64 @ ''.'' @ sha256_hex (CURSOR_PREFIX @ ''.'' @ b64)"
    using join_split_on [of "CHR ''.''" "strip s"] unfolding p by simp
  with s len w show ?thesis by blast
qed

text \<open>C39. A token whose payload segment is not ASCII is not reported as a malformed cursor: the
  checksum line encodes the segment outside any handler, and the \<open>UnicodeEncodeError\<close> of that
  encoding leaves \<open>decode_cursor\<close>.
\<close>

theorem decode_non_ascii_raises:
  assumes "strip t = CURSOR_PREFIX @ ''.'' @ b @ ''.'' @ sig" "py_len (strip t) \<le> MAX_CURSOR_TOKEN"
    and "CHR ''.'' \<notin> set b" "CHR ''.'' \<notin> set sig" "sig \<noteq> []" "\<not> ascii b"
  shows "decode_cursor (CursorValue (JStr t)) = Inl (CursorPy ValueError)"
proof -
  have p: "CHR ''.'' \<notin> set CURSOR_PREFIX" by (simp add: CURSOR_PREFIX_def)
  have "\<not> is_sequence_text (strip t)"
    unfolding assms(1) by (simp add: is_sequence_text_def CURSOR_PREFIX_def is_digit_def Let_def)
  moreover have "split_on (CHR ''.'') (strip t) = [CURSOR_PREFIX, b, sig]"
    unfolding assms(1) by (rule split_token [OF p assms(3,4)])
  moreover have "decode_parts [CURSOR_PREFIX, b, sig] = Inl (CursorPy ValueError)"
    using assms(5,6) by (auto simp: decode_parts_def)
  ultimately show ?thesis using assms(2) by (simp add: decode_cursor_def decode_token_def)
qed

section \<open>Example cursor\<close>

definition example_cursor :: replay_cursor where
  "example_cursor = \<lparr>rc_mount_id = ''mnt-1'', rc_replica_id = ''rep-1'', rc_history_id = ''hist-1'', rc_seq = 7,
     rc_anchor_event_id = ''e7'', rc_base_snapshot_id = [], rc_namespace = Some ''work'',
     rc_event_types = RECONSTRUCTING_EVENT_TYPES, rc_scope_mode = ''reconstructing''\<rparr>"

lemma example_cursor_facts: "ascii_cursor example_cursor" "make_cursor (args_of example_cursor) = Inr example_cursor"
  by code_simp+

lemma length_b64: "length (rstrip_pad (urlsafe_b64encode s)) \<le> 4 * length s"
proof -
  have "length (b64_groups xs) \<le> 4 * length xs" for xs by (induction xs rule: b64_groups.induct) auto
  from this [of "map of_char s"] show ?thesis by (simp add: rstrip_pad_encode)
qed

lemma length_token: "length (encode_cursor c) \<le> 4 * length (dumps True (JObj (to_payload_dict c))) + 70"
  using length_b64 [of "dumps True (JObj (to_payload_dict c))"] by (simp add: encode_cursor_def Let_def CURSOR_PREFIX_def)

lemma example_token_small: "py_len (encode_cursor example_cursor) \<le> MAX_CURSOR_TOKEN"
proof -
  have "length (dumps True (JObj (to_payload_dict example_cursor))) \<le> 400" by code_simp
  then show ?thesis
    using length_token [of example_cursor] py_len_le [of "encode_cursor example_cursor"] by (simp add: MAX_CURSOR_TOKEN_def)
qed

lemma cursor_token_roundtrip_witness:
  "decode_cursor (CursorValue (JStr (encode_cursor example_cursor))) = Inr example_cursor"
  using cursor_token_roundtrip [OF example_cursor_facts(2,1)] example_token_small by simp

lemma decode_cursor_sound_witness:
  "wf_cursor example_cursor \<and> py_len (strip (encode_cursor example_cursor)) \<le> MAX_CURSOR_TOKEN"
proof -
  have "decode_cursor (CursorValue (JStr (encode_cursor example_cursor))) = Inr example_cursor"
    using token_roundtrip [OF make_cursor_wf [OF example_cursor_facts(2)] example_cursor_facts(1) example_token_small]
    by (simp add: decode_cursor_def)
  from decode_cursor_sound [OF this] show ?thesis by auto
qed

lemma decode_non_ascii_raises_witness:
  "decode_cursor (CursorValue (JStr (''hmc1.'' @ [CHR 0xC3, CHR 0xA9] @ ''.00''))) = Inl (CursorPy ValueError)"
  by (rule decode_non_ascii_raises [where b = "[CHR 0xC3, CHR 0xA9]" and sig = "''00''"])
    (simp_all add: CURSOR_PREFIX_def strip_def is_space_def py_len_def is_cont_byte_def MAX_CURSOR_TOKEN_def ascii_def)

end
