(* ===== verification/CursorCheck.thy ===== *)
theory CursorCheck
  imports Cursor
begin

text \<open>
  Issuing a replay cursor (\<open>issue_replay_cursor\<close>) and the checks of
  \<open>validate_replay_cursor\<close> that read the source store: identity, base snapshot, scope, the
  compaction and retention marks and the anchor event. The main result is the promise in the code's
  comment: a cursor that is issued is one the validator accepts, and it stays accepted while the log grows.
\<close>

abbreviation stale :: cursor_exn where "stale \<equiv> CursorError ''stale_base''"

abbreviation incompatible :: cursor_exn where "incompatible \<equiv> CursorError ''incompatible_base''"

definition require_identity :: "mount_ident \<Rightarrow> unit cursor_res" where
  "require_identity i =
     ensure (mi_mount_id i \<noteq> [] \<and> mi_replica_id i \<noteq> [] \<and> mi_history_id i \<noteq> []) (CursorError ''no_persistent_identity'')"

section \<open>Issuing\<close>

record issue_args =
  ia_position :: string
  ia_seq :: json
  ia_base :: json
  ia_namespace :: json
  ia_types :: json

definition py_zero :: "json \<Rightarrow> bool" where
  "py_zero v = json_eq v (JInt 0)"

definition issue_window :: "issue_args \<Rightarrow> log_bounds \<Rightarrow> unit cursor_res" where
  "issue_window a b =
     (if ((ia_seq a = JNull \<and> ia_position a = ''start'') \<or> py_zero (ia_seq a)) \<and> lb_trimmed b > 0 then Inl stale
      else if ia_position a = ''head'' \<and> ia_seq a = JNull \<and> lb_head_seq b > lb_max_seq b then Inl stale
      else Inr ())"

definition issue_position :: "issue_args \<Rightarrow> log_bounds \<Rightarrow> store \<Rightarrow> (int \<times> string) cursor_res" where
  "issue_position a b s = (case ia_seq a of
     JNull \<Rightarrow>
       (if ia_position a = ''start'' then Inr (0, [])
        else if ia_position a = ''head'' then Inr (lb_head_seq b, if lb_head_seq b > 0 then lb_head_event_id b else [])
        else Inl (CursorPy ValueError))
   | JInt n \<Rightarrow>
       (if n < 0 then Inl malformed
        else if n = 0 then Inr (0, [])
        else case event_at_seq n s of None \<Rightarrow> Inl stale | Some e \<Rightarrow> Inr (ev_seq e, ev_id e))
   | _ \<Rightarrow> Inl malformed)"

definition issue_types :: "json \<Rightarrow> (string list \<times> string) cursor_res" where
  "issue_types v =
     (if v = JNull then Inr (RECONSTRUCTING_EVENT_TYPES, ''reconstructing'')
      else rbind (normalize_event_types v) (\<lambda>ts.
        Inr (ts, if ts = RECONSTRUCTING_EVENT_TYPES then ''reconstructing'' else ''explicit'')))"

definition issue_replay_cursor :: "issue_args \<Rightarrow> store \<Rightarrow> replay_cursor cursor_res" where
  "issue_replay_cursor a s =
     rbind (of_db (mount_identity [] s)) (\<lambda>i.
     rbind (require_identity i) (\<lambda>_.
     rbind (of_db (event_log_bounds s)) (\<lambda>b.
     rbind (issue_window a b) (\<lambda>_.
     rbind (issue_position a b s) (\<lambda>(seq, anchor).
     rbind (issue_types (ia_types a)) (\<lambda>(ts, mode).
     make_cursor \<lparr>ca_version = JInt CURSOR_VERSION, ca_mount_id = JStr (mi_mount_id i),
       ca_replica_id = JStr (mi_replica_id i), ca_history_id = JStr (mi_history_id i), ca_seq = JInt seq,
       ca_anchor_event_id = JStr anchor,
       ca_base_snapshot_id = (if ia_base a \<noteq> JNull then ia_base a else JStr (mi_base_snapshot_id i)),
       ca_namespace = ia_namespace a, ca_event_types = JList (map JStr ts), ca_scope_mode = JStr mode\<rparr>))))))"

section \<open>Checks against the source\<close>

record replay_request =
  rq_namespace :: "string option"
  rq_types :: json
  rq_allow_legacy :: bool

definition check_source_identity :: "bool \<Rightarrow> mount_ident \<Rightarrow> replay_cursor \<Rightarrow> unit cursor_res" where
  "check_source_identity allow_legacy i c =
     (if \<not> allow_legacy \<and> mi_legacy_history i then Inl (CursorError ''legacy_history_unanchored'')
      else if rc_mount_id c \<noteq> mi_mount_id i then Inl (CursorError ''wrong_source'')
      else if rc_replica_id c \<noteq> mi_replica_id i \<or> rc_history_id c \<noteq> mi_history_id i
        then Inl (CursorError ''replaced_history'')
      else Inr ())"

definition check_base :: "string \<Rightarrow> string \<Rightarrow> replay_cursor \<Rightarrow> unit cursor_res" where
  "check_base source_base target_base c =
     (if source_base \<noteq> [] \<and> rc_base_snapshot_id c \<noteq> source_base then Inl incompatible
      else if rc_base_snapshot_id c \<noteq> [] \<and> rc_base_snapshot_id c \<notin> {source_base, target_base} then Inl incompatible
      else Inr ())"

definition non_reconstructing :: "string list \<Rightarrow> bool" where
  "non_reconstructing ts = list_ex (\<lambda>t. t \<notin> set RECONSTRUCTING_EVENT_TYPES) ts"

abbreviation non_recon :: cursor_exn where
  "non_recon \<equiv> CursorError ''non_reconstructing_event_type''"

definition legacy_default :: "replay_cursor \<Rightarrow> bool" where
  "legacy_default c = (rc_scope_mode c = ''legacy'' \<and> rc_event_types c = DEFAULT_REPLAY_EVENT_TYPES)"

definition check_requested_types :: "json \<Rightarrow> replay_cursor \<Rightarrow> unit cursor_res" where
  "check_requested_types v c =
     (if v = JNull then Inr ()
      else rbind (normalize_event_types v) (\<lambda>ts.
        if non_reconstructing ts then Inl non_recon
        else if ts \<noteq> rc_event_types c \<and> \<not> (legacy_default c \<and> ts = RECONSTRUCTING_EVENT_TYPES)
          then Inl (CursorError ''scope_mismatch'')
        else Inr ()))"

definition check_scope :: "replay_request \<Rightarrow> replay_cursor \<Rightarrow> unit cursor_res" where
  "check_scope q c =
     (if rq_namespace q \<noteq> None \<and> rq_namespace q \<noteq> rc_namespace c then Inl (CursorError ''scope_mismatch'')
      else rbind (check_requested_types (rq_types q) c) (\<lambda>_.
        ensure (\<not> non_reconstructing (rc_event_types c)) non_recon))"

definition check_window :: "log_bounds \<Rightarrow> int \<Rightarrow> replay_cursor \<Rightarrow> store \<Rightarrow> unit cursor_res" where
  "check_window b compacted c s =
     (if compacted > 0 \<and> rc_seq c < compacted then Inl stale
      else if lb_head_seq b = 0 \<and> lb_trimmed b = 0 then ensure (\<not> rc_seq c > 0) stale
      else if rc_seq c < lb_trimmed b \<or> rc_seq c > lb_max_seq b then Inl stale
      else if rc_seq c > 0 then
        (case event_at_seq (rc_seq c) s of
           None \<Rightarrow> Inl stale
         | Some e \<Rightarrow> ensure (ev_id e = rc_anchor_event_id c) incompatible)
      else Inr ())"

definition target_base :: "store option \<Rightarrow> string cursor_res" where
  "target_base target = (case target of
     None \<Rightarrow> Inr []
   | Some t \<Rightarrow> rbind (of_db (mount_identity [] t)) (\<lambda>i. Inr (mi_base_snapshot_id i)))"

text \<open>\<open>validate_replay_cursor\<close> up to the checks of a target store's own history.\<close>

definition validate_source :: "store option \<Rightarrow> replay_request \<Rightarrow> cursor_arg \<Rightarrow> store \<Rightarrow> replay_cursor cursor_res" where
  "validate_source target q raw s =
     rbind (decode_cursor raw) (\<lambda>c.
     rbind (of_db (mount_identity [] s)) (\<lambda>i.
     rbind (require_identity i) (\<lambda>_.
     rbind (of_db (event_log_bounds s)) (\<lambda>b.
     rbind (check_source_identity (rq_allow_legacy q) i c) (\<lambda>_.
     rbind (target_base target) (\<lambda>tb.
     rbind (check_base (mi_base_snapshot_id i) tb c) (\<lambda>_.
     rbind (check_scope q c) (\<lambda>_.
     rbind (of_db (meta_int ''compacted_tombstones_through_seq'' s)) (\<lambda>compacted.
     rbind (check_window b compacted c s) (\<lambda>_. Inr c))))))))))"

definition effective_replay_event_types :: "replay_cursor \<Rightarrow> json \<Rightarrow> string list cursor_res" where
  "effective_replay_event_types c v =
     (if v \<noteq> JNull then normalize_event_types v
      else if legacy_default c then Inr RECONSTRUCTING_EVENT_TYPES
      else Inr (rc_event_types c))"

section \<open>What an accepted cursor guarantees\<close>

lemma of_db_simps [simp]: "of_db (Inr x) = Inr x" "of_db m = Inr x \<longleftrightarrow> m = Inr x"
  by (simp add: of_db_def) (cases m, simp_all add: of_db_def)

lemma validate_source_Inr:
  "validate_source target q raw s = Inr c \<longleftrightarrow> decode_cursor raw = Inr c \<and> (\<exists>i b tb k.
     mount_identity [] s = Inr i \<and> require_identity i = Inr () \<and> event_log_bounds s = Inr b
     \<and> check_source_identity (rq_allow_legacy q) i c = Inr () \<and> target_base target = Inr tb
     \<and> check_base (mi_base_snapshot_id i) tb c = Inr () \<and> check_scope q c = Inr ()
     \<and> meta_int ''compacted_tombstones_through_seq'' s = Inr k \<and> check_window b k c s = Inr ())"
  by (auto simp: validate_source_def rbind_eq_Inr)

lemma event_log_bounds_Inr:
  "event_log_bounds s = Inr b \<Longrightarrow> lb_max_seq b = max_seq (st_events s)
    \<and> meta_int ''trimmed_through_seq'' s = Inr (lb_trimmed b)
    \<and> (\<exists>k. meta_int ''last_known_head_seq'' s = Inr k \<and> lb_head_seq b = max (max (lb_max_seq b) (lb_trimmed b)) k
        \<and> lb_head_event_id b = head_event_id k s)"
  by (auto simp: event_log_bounds_def rbind_eq_Inr Let_def)

lemma check_window_Inr:
  assumes "check_window b k c s = Inr ()" "lb_trimmed b \<le> lb_head_seq b" "0 \<le> lb_trimmed b" "0 \<le> rc_seq c" "0 \<le> k"
  shows "k \<le> rc_seq c" "lb_trimmed b \<le> rc_seq c"
    "0 < rc_seq c \<Longrightarrow> \<exists>e. event_at_seq (rc_seq c) s = Some e \<and> ev_id e = rc_anchor_event_id c"
  using assms by (auto simp: check_window_def split: if_splits option.splits)

lemma bounds_inv:
  assumes "store_inv s" "event_log_bounds s = Inr b"
  shows "0 \<le> lb_trimmed b" "lb_trimmed b \<le> lb_head_seq b" "\<forall>e \<in> set (st_events s). lb_trimmed b < ev_seq e"
    "\<exists>k. meta_int ''compacted_tombstones_through_seq'' s = Inr k \<and> 0 \<le> k \<and> k \<le> lb_trimmed b"
    "lb_max_seq b = max_seq (st_events s)" "st_events s \<noteq> [] \<Longrightarrow> lb_head_seq b = max_seq (st_events s)"
proof -
  from assms(1) obtain c t k where m: "marks s c t k" "0 \<le> c" "c \<le> t" "t \<le> k" "\<forall>e \<in> set (st_events s). t < ev_seq e"
      "st_events s \<noteq> [] \<longrightarrow> k \<le> max_seq (st_events s)"
    by (auto simp: store_inv_def marks_inv_def)
  note b = event_log_bounds_Inr [OF assms(2)]
  from m(1) b have t: "lb_trimmed b = t" and h: "lb_head_seq b = max (max (max_seq (st_events s)) t) k"
    by (auto simp: marks_def)
  show "0 \<le> lb_trimmed b" using m(2,3) t by linarith
  show "lb_trimmed b \<le> lb_head_seq b" using t h by linarith
  show "\<forall>e \<in> set (st_events s). lb_trimmed b < ev_seq e" using m(5) t by metis
  show "\<exists>k. meta_int ''compacted_tombstones_through_seq'' s = Inr k \<and> 0 \<le> k \<and> k \<le> lb_trimmed b"
    using m(1-3) t by (simp add: marks_def)
  show "lb_max_seq b = max_seq (st_events s)" using b by blast
  show "lb_head_seq b = max_seq (st_events s)" if "st_events s \<noteq> []"
  proof -
    have "k \<le> max_seq (st_events s)" using m(6) that by blast
    then show ?thesis using m(4) h by linarith
  qed
qed

text \<open>C33. A cursor that the source accepts is one of this very history: it names the mount, replica
  and history of the store and asks only for reconstructing events; it is not behind the retention or
  the compaction mark, so no event after it has been deleted, and the event it is anchored at is still
  in the log under the recorded id.
\<close>

theorem validated_cursor_sound:
  assumes "store_inv s" "validate_source target q raw s = Inr c" "wf_cursor c"
  shows "rc_mount_id c = meta_str ''mount_id'' s \<and> rc_replica_id c = meta_str ''replica_id'' s
    \<and> rc_history_id c = meta_str ''history_id'' s \<and> set (rc_event_types c) \<subseteq> set RECONSTRUCTING_EVENT_TYPES
    \<and> (\<forall>t. meta_int ''trimmed_through_seq'' s = Inr t \<longrightarrow> t \<le> rc_seq c)
    \<and> (\<forall>k. meta_int ''compacted_tombstones_through_seq'' s = Inr k \<longrightarrow> k \<le> rc_seq c)
    \<and> (0 < rc_seq c \<longrightarrow> (\<exists>e \<in> set (st_events s). ev_seq e = rc_seq c \<and> ev_id e = rc_anchor_event_id c))"
proof -
  from assms(2) obtain i b k where v: "mount_identity [] s = Inr i" "event_log_bounds s = Inr b"
      "check_source_identity (rq_allow_legacy q) i c = Inr ()" "check_scope q c = Inr ()"
      "meta_int ''compacted_tombstones_through_seq'' s = Inr k" "check_window b k c s = Inr ()"
    unfolding validate_source_Inr by blast
  note bi = bounds_inv [OF assms(1) v(2)]
  have seq: "0 \<le> rc_seq c" using assms(3) by (simp add: wf_cursor_def)
  have w: "k \<le> rc_seq c" "lb_trimmed b \<le> rc_seq c"
    "0 < rc_seq c \<Longrightarrow> \<exists>e. event_at_seq (rc_seq c) s = Some e \<and> ev_id e = rc_anchor_event_id c"
    using check_window_Inr [OF v(6) bi(2,1) seq] bi(4) v(5) by auto
  have "rc_mount_id c = meta_str ''mount_id'' s \<and> rc_replica_id c = meta_str ''replica_id'' s
      \<and> rc_history_id c = meta_str ''history_id'' s"
    using v(3) mount_identity_fields [OF v(1)] by (auto simp: check_source_identity_def split: if_splits)
  moreover have "set (rc_event_types c) \<subseteq> set RECONSTRUCTING_EVENT_TYPES"
    using v(4) by (auto simp: check_scope_def rbind_eq_Inr non_reconstructing_def list_ex_iff split: if_splits)
  moreover have "log_inv s" using assms(1) by (simp add: store_inv_def)
  ultimately show ?thesis
    using w v(5) event_log_bounds_Inr [OF v(2)] by (auto simp: event_at_seq_iff)
qed

section \<open>The same cursor against a changed log\<close>

text \<open>
  The checks before the window read only metadata that the log operations leave alone, so against
  another state of the log the answer is that of the window check.
\<close>

lemma mount_identity_marks:
  assumes "mount_identity g s = Inr i" "\<And>k. k \<notin> insert ''last_known_head_event_id'' (set MARK_KEYS) \<Longrightarrow> get_meta k s' = get_meta k s"
    and "meta_int ''trimmed_through_seq'' s' = Inr t"
  shows "mount_identity g s' = Inr (i\<lparr>mi_trimmed_through_seq := t\<rparr>)"
proof -
  have "meta_str k s' = meta_str k s" "meta_int k s' = meta_int k s" "get_meta k s' = get_meta k s"
    if "k \<notin> insert ''last_known_head_event_id'' (set MARK_KEYS)" for k
    using assms(2) [OF that] by (simp_all add: meta_str_def meta_int_def)
  note e = this [unfolded MARK_KEYS_def]
  show ?thesis
    using assms(1,3) unfolding mount_identity_def
    by (simp add: e rbind_eq_Inr) (elim exE conjE, drule sym, simp)
qed

lemma validate_window:
  assumes "validate_source target q raw s = Inr c"
    and "\<And>k. k \<notin> insert ''last_known_head_event_id'' (set MARK_KEYS) \<Longrightarrow> get_meta k s' = get_meta k s"
    and "event_log_bounds s' = Inr b'" "meta_int ''compacted_tombstones_through_seq'' s' = Inr k'"
  shows "validate_source target q raw s' = rbind (check_window b' k' c s') (\<lambda>_. Inr c)"
proof -
  from assms(1) obtain i tb where v: "decode_cursor raw = Inr c" "mount_identity [] s = Inr i" "require_identity i = Inr ()"
      "check_source_identity (rq_allow_legacy q) i c = Inr ()" "target_base target = Inr tb"
      "check_base (mi_base_snapshot_id i) tb c = Inr ()" "check_scope q c = Inr ()"
    unfolding validate_source_Inr by blast
  have t: "meta_int ''trimmed_through_seq'' s' = Inr (lb_trimmed b')" using event_log_bounds_Inr [OF assms(3)] by blast
  have "require_identity (i\<lparr>mi_trimmed_through_seq := t\<rparr>) = require_identity i"
    "check_source_identity a (i\<lparr>mi_trimmed_through_seq := t\<rparr>) c = check_source_identity a i c" for t a
    by (simp_all add: require_identity_def check_source_identity_def)
  with v mount_identity_marks [OF v(2) assms(2) t] assms(3,4) show ?thesis
    unfolding validate_source_def by simp
qed

lemma get_meta_events [simp]: "get_meta k (s\<lparr>st_events := es, st_last_seq := n\<rparr>) = get_meta k s"
  by (simp add: get_meta_def)

text \<open>A cursor stays valid while the source only appends events.
\<close>

theorem cursor_survives_append:
  assumes "store_inv s" "wf_cursor c" "validate_source target q raw s = Inr c" "append_row e s = Inr (s', n)"
  shows "validate_source target q raw s' = Inr c"
proof -
  note r = append_row_result [OF assms(4)]
  have inv: "store_inv s'" by (rule append_row_inv [OF assms(4,1)])
  obtain b' where b': "event_log_bounds s' = Inr b'" using bounds_total [OF inv] by blast
  from assms(3) obtain b k where v: "event_log_bounds s = Inr b" "check_window b k c s = Inr ()"
      "meta_int ''compacted_tombstones_through_seq'' s = Inr k"
    unfolding validate_source_Inr by blast
  note bi = bounds_inv [OF assms(1) v(1)] and bi' = bounds_inv [OF inv b']
  have l: "log_inv s" "log_inv s'" using assms(1) inv by (auto simp: store_inv_def)
  have seq: "0 \<le> rc_seq c" using assms(2) by (simp add: wf_cursor_def)
  have w: "k \<le> rc_seq c" "lb_trimmed b \<le> rc_seq c"
    "0 < rc_seq c \<Longrightarrow> \<exists>e. event_at_seq (rc_seq c) s = Some e \<and> ev_id e = rc_anchor_event_id c"
    using check_window_Inr [OF v(2) bi(2,1) seq] bi(4) v(3) by auto
  have k': "meta_int ''compacted_tombstones_through_seq'' s' = Inr k" using v(3) by (simp add: r(3))
  have t': "lb_trimmed b' = lb_trimmed b"
    using event_log_bounds_Inr [OF v(1)] event_log_bounds_Inr [OF b'] by (simp add: r(3))
  have ev: "st_events s' = st_events s @ [e\<lparr>ev_seq := n\<rparr>]" by (simp add: r(3))
  have last: "n \<in> ev_seq ` set (st_events s')" "\<forall>x \<in> set (st_events s). ev_seq x < n"
    using l(1) by (auto simp: ev r(1) log_inv_def)
  have "lb_head_seq b' = max_seq (st_events s')" using bi'(6) by (simp add: ev)
  moreover have "max_seq (st_events s') > 0" using l(1) by (auto simp: ev max_seq_append r(1) log_inv_def less_max_iff_disj)
  moreover have anchor: "event_at_seq (rc_seq c) s' = Some x \<and> x \<in> set (st_events s')"
    if "event_at_seq (rc_seq c) s = Some x" for x
    using that l by (auto simp: event_at_seq_iff ev)
  moreover have "rc_seq c \<le> max_seq (st_events s')"
  proof (cases "0 < rc_seq c")
    case True
    then obtain x where "event_at_seq (rc_seq c) s = Some x" using w(3) by blast
    then show ?thesis using anchor max_seq_ge [of x "st_events s'"] l by (auto simp: event_at_seq_iff)
  next
    case False
    then show ?thesis using seq max_seq_nonneg [of "st_events s'"] by linarith
  qed
  ultimately have "check_window b' k c s' = Inr ()"
    using w t' bi'(5) unfolding check_window_def by (auto split: option.splits)
  with validate_window [OF assms(3) _ b' k'] show ?thesis by (simp add: r(3))
qed

text \<open>What a trim that deletes something leaves for the window check.\<close>

lemma trimmed_window:
  assumes "store_inv s" "wf_cursor c" "check_window b k c s = Inr ()" "event_log_bounds s = Inr b"
    and "meta_int ''compacted_tombstones_through_seq'' s = Inr k" "trim_events_before_seq n s = Inr (s', d)"
    and "x \<in> set (st_events s)" "ev_seq x < n" "event_log_bounds s' = Inr b'"
    and t': "lb_trimmed b' = max_seq (filter (\<lambda>e. ev_seq e < n) (st_events s))"
    and r: "st_events s' = filter (\<lambda>e. n \<le> ev_seq e) (st_events s)"
  shows "check_window b' k c s' = (if 0 < rc_seq c \<and> n \<le> rc_seq c then Inr () else Inl stale)"
proof -
  let ?g = "filter (\<lambda>e. ev_seq e < n) (st_events s)"
  have inv: "store_inv s'" by (rule trim_before_inv [OF assms(1,6)])
  have l: "log_inv s" "log_inv s'" using assms(1) inv by (auto simp: store_inv_def)
  note bi' = bounds_inv [OF inv assms(9)] and bi = bounds_inv [OF assms(1,4)]
  have seq: "0 \<le> rc_seq c" using assms(2) by (simp add: wf_cursor_def)
  have w: "k \<le> rc_seq c" "0 < rc_seq c \<Longrightarrow> \<exists>e. event_at_seq (rc_seq c) s = Some e \<and> ev_id e = rc_anchor_event_id c"
    using check_window_Inr [OF assms(3) bi(2,1) seq] bi(4) assms(5) by auto
  have gp: "0 < max_seq ?g" using max_seq_ge [of x ?g] assms(7,8) l(1) by (auto simp: log_inv_def)
  have gne: "?g \<noteq> []" using assms(7,8) by (auto simp: filter_empty_conv)
  obtain y where "y \<in> set ?g" "ev_seq y = max_seq ?g" using max_seq_in [OF gne] l(1) by (auto simp: log_inv_def)
  then have gn: "max_seq ?g < n" by auto
  show ?thesis
  proof (cases "0 < rc_seq c \<and> n \<le> rc_seq c")
    case True
    then obtain y where y: "event_at_seq (rc_seq c) s = Some y" "ev_id y = rc_anchor_event_id c" using w(2) by blast
    then have "event_at_seq (rc_seq c) s' = Some y" "y \<in> set (st_events s')" "ev_seq y = rc_seq c"
      using True l by (auto simp: event_at_seq_iff r)
    then show ?thesis
      using True w(1) y(2) t' gp gn bi'(5) max_seq_ge [of y "st_events s'"] by (simp add: check_window_def)
  next
    case False
    then have "rc_seq c < n" using assms(7,8) l(1) seq by (auto simp: log_inv_def)
    then have "event_at_seq (rc_seq c) s' = None"
      using event_at_seq_iff [OF l(2)] r by (cases "event_at_seq (rc_seq c) s'") auto
    then show ?thesis using False w(1) t' gp seq by (auto simp: check_window_def)
  qed
qed

text \<open>C37. What retention does to a cursor. After trimming below \<open>n\<close>, a cursor that was accepted is still accepted
  exactly when nothing was deleted or the event it is anchored at is retained, its position being positive and at
  least \<open>n\<close>. Otherwise it is refused for a stale base: so are the cursors before the new retention mark, a cursor at
  the mark itself, whose anchor is deleted although all its next events are there, and every start cursor.
\<close>

theorem trim_invalidates_exactly:
  assumes "store_inv s" "wf_cursor c" "validate_source target q raw s = Inr c"
    and "trim_events_before_seq n s = Inr (s', d)"
  shows "validate_source target q raw s' = (if d = 0 \<or> (0 < rc_seq c \<and> n \<le> rc_seq c) then Inr c else Inl stale)"
proof (cases "\<exists>e \<in> set (st_events s). ev_seq e < n")
  case False
  then show ?thesis using delete_events_none [OF False] assms(3,4) by (simp add: trim_events_before_seq_def)
next
  case True
  then obtain x where x: "x \<in> set (st_events s)" "ev_seq x < n" by blast
  have d: "delete_events (\<lambda>e. ev_seq e < n) s = Inr (s', d)" using assms(4) by (simp add: trim_events_before_seq_def)
  have r: "st_events s' = filter (\<lambda>e. n \<le> ev_seq e) (st_events s)" "d = length (filter (\<lambda>e. ev_seq e < n) (st_events s))"
    "meta_int ''trimmed_through_seq'' s' = Inr (max_seq (filter (\<lambda>e. ev_seq e < n) (st_events s)))"
    and frame: "\<And>k. k \<notin> {''trimmed_through_seq'', ''last_known_head_seq'', ''last_known_head_event_id''} \<Longrightarrow>
      get_meta k s' = get_meta k s"
    using delete_events_result [OF assms(1) before_prefix True] d by (auto simp: not_less)
  obtain b' where b': "event_log_bounds s' = Inr b'" using bounds_total [OF trim_before_inv [OF assms(1,4)]] by blast
  from assms(3) obtain b k where v: "event_log_bounds s = Inr b" "check_window b k c s = Inr ()"
      "meta_int ''compacted_tombstones_through_seq'' s = Inr k"
    unfolding validate_source_Inr by blast
  have k': "meta_int ''compacted_tombstones_through_seq'' s' = Inr k"
    using meta_int_cong [OF frame, of "''compacted_tombstones_through_seq''"] v(3) by simp
  have t': "lb_trimmed b' = max_seq (filter (\<lambda>e. ev_seq e < n) (st_events s))" using event_log_bounds_Inr [OF b'] r(3) by simp
  have "d \<noteq> 0" using x r(2) by (auto simp: filter_empty_conv)
  moreover have "validate_source target q raw s' = rbind (check_window b' k c s') (\<lambda>_. Inr c)"
    using frame by (intro validate_window [OF assms(3) _ b' k']) (auto simp: MARK_KEYS_def)
  ultimately show ?thesis using trimmed_window [OF assms(1,2) v(2,1,3) assms(4) x b' t' r(1)] by simp
qed

section \<open>An issued cursor is accepted\<close>

lemma py_zero_0: "py_zero (JInt 0)"
  by code_simp

lemma issue_position_anchored:
  assumes "store_inv s" "event_log_bounds s = Inr b" "issue_window a b = Inr ()" "issue_position a b s = Inr (n, anchor)"
  shows "(n = 0 \<and> anchor = [] \<and> lb_trimmed b = 0)
    \<or> (0 < n \<and> (\<exists>e. event_at_seq n s = Some e \<and> ev_id e = anchor))"
proof -
  note bi = bounds_inv [OF assms(1,2)]
  have l: "log_inv s" using assms(1) by (simp add: store_inv_def)
  show ?thesis
  proof (cases "ia_seq a")
    case JNull
    consider "ia_position a = ''start''" | "ia_position a = ''head''" using assms(4) JNull
      by (auto simp: issue_position_def split: if_splits)
    then show ?thesis
    proof cases
      case 1
      then show ?thesis using assms(3,4) JNull bi(1) by (auto simp: issue_position_def issue_window_def split: if_splits)
    next
      case 2
      then have w: "lb_head_seq b \<le> lb_max_seq b" and p: "n = lb_head_seq b" "anchor = (if 0 < n then lb_head_event_id b else [])"
        using assms(3,4) JNull by (auto simp: issue_position_def issue_window_def split: if_splits)
      show ?thesis
      proof (cases "0 < n")
        case False
        then show ?thesis using p bi(1,2) by auto
      next
        case True
        then have ne: "st_events s \<noteq> []" using w p bi(5) by (auto simp: max_seq_def)
        then obtain e where e: "e \<in> set (st_events s)" "ev_seq e = max_seq (st_events s)"
          using max_seq_in [OF ne] l by (auto simp: log_inv_def)
        then have at: "event_at_seq (max_seq (st_events s)) s = Some e" by (simp add: event_at_seq_iff [OF l])
        have nm: "n = max_seq (st_events s)" using p(1) bi(6) ne by simp
        have "lb_head_event_id b = ev_id e"
          using event_log_bounds_Inr [OF assms(2)] at True nm by (auto simp: head_event_id_def)
        then show ?thesis using True p(2) at nm by auto
      qed
    qed
  next
    case (JInt m)
    then show ?thesis
      using assms(3,4) py_zero_0 bi(1) l
      by (auto simp: issue_position_def issue_window_def event_at_seq_iff split: if_splits option.splits)
  qed (use assms(4) in \<open>auto simp: issue_position_def\<close>)
qed

lemma anchored_in_window:
  assumes "store_inv s" "event_log_bounds s = Inr b" "meta_int ''compacted_tombstones_through_seq'' s = Inr k"
    and "(rc_seq c = 0 \<and> lb_trimmed b = 0)
      \<or> (0 < rc_seq c \<and> (\<exists>e. event_at_seq (rc_seq c) s = Some e \<and> ev_id e = rc_anchor_event_id c))"
  shows "check_window b k c s = Inr ()"
proof -
  note bi = bounds_inv [OF assms(1,2)]
  have k: "0 \<le> k" "k \<le> lb_trimmed b" using bi(4) assms(3) by auto
  have l: "log_inv s" using assms(1) by (simp add: store_inv_def)
  from assms(4) show ?thesis
  proof
    assume "rc_seq c = 0 \<and> lb_trimmed b = 0"
    then show ?thesis using k bi(5) max_seq_nonneg [of "st_events s"] by (auto simp: check_window_def)
  next
    assume "0 < rc_seq c \<and> (\<exists>e. event_at_seq (rc_seq c) s = Some e \<and> ev_id e = rc_anchor_event_id c)"
    then obtain e where e: "0 < rc_seq c" "event_at_seq (rc_seq c) s = Some e" "ev_id e = rc_anchor_event_id c" by blast
    then have m: "e \<in> set (st_events s)" "ev_seq e = rc_seq c" by (auto simp: event_at_seq_iff [OF l])
    then have "lb_trimmed b < rc_seq c" "rc_seq c \<le> lb_max_seq b" using bi(3,5) max_seq_ge [of e] by auto
    moreover have "st_events s \<noteq> []" using m(1) by auto
    then have "lb_head_seq b = lb_max_seq b" using bi(5,6) by simp
    ultimately show ?thesis using e k by (auto simp: check_window_def)
  qed
qed

text \<open>C35. The store accepts the cursors it mints, within the scope of a replay: a cursor issued on the store's own base,
  whose event types are all reconstructing ones, is accepted by the validator for every request that names no event
  types and no other namespace and allows legacy histories, whether it is a start cursor, a head cursor or one at a
  given event. A cursor can also be issued for other types or another base, and is then refused.
\<close>

theorem issued_cursor_accepted:
  assumes "store_inv s" "issue_replay_cursor a s = Inr c" "ia_base a = JNull"
    and "set (rc_event_types c) \<subseteq> set RECONSTRUCTING_EVENT_TYPES"
    and "rq_types q = JNull" "rq_namespace q = None \<or> rq_namespace q = rc_namespace c" "rq_allow_legacy q"
    and "target_base target = Inr tb"
  shows "validate_source target q (CursorObject c) s = Inr c"
proof -
  from assms(2) obtain i b n anchor ts mode where v: "mount_identity [] s = Inr i" "require_identity i = Inr ()"
      "event_log_bounds s = Inr b" "issue_window a b = Inr ()" "issue_position a b s = Inr (n, anchor)"
      "make_cursor \<lparr>ca_version = JInt CURSOR_VERSION, ca_mount_id = JStr (mi_mount_id i),
       ca_replica_id = JStr (mi_replica_id i), ca_history_id = JStr (mi_history_id i), ca_seq = JInt n,
       ca_anchor_event_id = JStr anchor, ca_base_snapshot_id = JStr (mi_base_snapshot_id i),
       ca_namespace = ia_namespace a, ca_event_types = JList (map JStr ts), ca_scope_mode = JStr mode\<rparr> = Inr c"
    using assms(3) by (auto simp: issue_replay_cursor_def rbind_eq_Inr)
  note f = make_cursor_fields [OF v(6), simplified, unfolded str_of_def, simplified]
  obtain k where k: "meta_int ''compacted_tombstones_through_seq'' s = Inr k"
    using bounds_inv(4) [OF assms(1) v(3)] by blast
  have "check_source_identity (rq_allow_legacy q) i c = Inr ()" using assms(7) f by (simp add: check_source_identity_def)
  moreover have "check_base (mi_base_snapshot_id i) tb c = Inr ()" using f by (simp add: check_base_def)
  moreover have "check_scope q c = Inr ()"
    using assms(4-6) by (auto simp: check_scope_def check_requested_types_def non_reconstructing_def list_ex_iff)
  moreover have "check_window b k c s = Inr ()"
    using issue_position_anchored [OF assms(1) v(3-5)] f by (intro anchored_in_window [OF assms(1) v(3) k]) auto
  moreover have "decode_cursor (CursorObject c) = Inr c" by (simp add: decode_cursor_def)
  ultimately show ?thesis unfolding validate_source_Inr using v(1-3) k assms(8) by blast
qed

section \<open>A replaced history\<close>

lemma get_meta_fold_set: "k \<notin> set ks \<Longrightarrow> get_meta k (fold (\<lambda>k. set_meta k v) ks s) = get_meta k s"
  by (induction ks arbitrary: s) auto

lemma get_meta_clear_side [simp]: "get_meta k (s\<lparr>st_tombstones := ts, st_watermarks := ws\<rparr>) = get_meta k s"
  by (simp add: get_meta_def)

lemma get_meta_set_if [simp]: "get_meta k (set_if b k' v s) = (if b \<and> k = k' then Some v else get_meta k s)"
  by (simp add: set_if_def)

lemma get_meta_replace:
  "get_meta ''mount_id'' (reset_epoch (replace_ids True m r h s)) = get_meta ''mount_id'' s"
  "get_meta ''legacy_history'' (reset_epoch (replace_ids True m r h s)) = get_meta ''legacy_history'' s"
  by (simp_all add: reset_epoch_def replace_ids_def Let_def get_meta_fold_set CLEARED_KEYS_def bind_mount_def)

lemma get_meta_fresh:
  "get_meta ''replica_id'' (reset_epoch (replace_ids keep m r h s)) = Some r"
  "get_meta ''history_id'' (reset_epoch (replace_ids keep m r h s)) = Some h"
  by (simp_all add: reset_epoch_def replace_ids_def Let_def get_meta_fold_set CLEARED_KEYS_def)

text \<open>Replacing the history of a mount cuts off every cursor of the old one: with fresh ids a
  cursor accepted before is rejected as belonging to a replaced history, before anything is replayed.
\<close>

theorem replaced_history_rejects:
  assumes "store_inv s" "validate_source target q raw s = Inr c" "replace_history True m r h s = Inr (s', i')"
    and "r \<noteq> []" "h \<noteq> []" "r \<noteq> rc_replica_id c \<or> h \<noteq> rc_history_id c"
  shows "validate_source target q raw s' = Inl (CursorError ''replaced_history'')"
proof -
  have s': "s' = reset_epoch (replace_ids True m r h s)" and i': "mount_identity [] s' = Inr i'"
    using assms(3) by (auto simp: replace_history_def rbind_eq_Inr Let_def)
  obtain b' where b': "event_log_bounds s' = Inr b'" using bounds_total [OF replace_history_inv [OF assms(1,3)]] by blast
  from assms(2) obtain i where v: "decode_cursor raw = Inr c" "mount_identity [] s = Inr i" "require_identity i = Inr ()"
      "check_source_identity (rq_allow_legacy q) i c = Inr ()"
    unfolding validate_source_Inr by blast
  have g: "get_meta ''mount_id'' s' = get_meta ''mount_id'' s" "get_meta ''legacy_history'' s' = get_meta ''legacy_history'' s"
    "get_meta ''replica_id'' s' = Some r" "get_meta ''history_id'' s' = Some h"
    by (simp_all add: s' get_meta_replace get_meta_fresh)
  note f = mount_identity_fields [OF v(2)] and f' = mount_identity_fields [OF i']
  have "mi_mount_id i' = mi_mount_id i" "mi_legacy_history i' = mi_legacy_history i" "mi_replica_id i' = r" "mi_history_id i' = h"
    using f f' g by (simp_all add: meta_str_def)
  then have "require_identity i' = Inr ()" "check_source_identity (rq_allow_legacy q) i' c = Inl (CursorError ''replaced_history'')"
    using v(3,4) assms(4-6) by (auto simp: require_identity_def check_source_identity_def split: if_splits)
  then show ?thesis using v(1) i' b' by (simp add: validate_source_def)
qed

section \<open>Examples\<close>

definition cursor_store :: store where
  "cursor_store = set_meta ''history_id'' ''hist-1'' (set_meta ''replica_id'' ''rep-1''
     (set_meta ''mount_id'' ''mnt-1'' example_store))"

definition head_request :: issue_args where
  "head_request = \<lparr>ia_position = ''head'', ia_seq = JNull, ia_base = JNull, ia_namespace = JNull, ia_types = JNull\<rparr>"

definition head_cursor :: replay_cursor where
  "head_cursor = \<lparr>rc_mount_id = ''mnt-1'', rc_replica_id = ''rep-1'', rc_history_id = ''hist-1'', rc_seq = 3,
     rc_anchor_event_id = ''e3'', rc_base_snapshot_id = [], rc_namespace = None,
     rc_event_types = RECONSTRUCTING_EVENT_TYPES, rc_scope_mode = ''reconstructing''\<rparr>"

definition plain_request :: replay_request where
  "plain_request = \<lparr>rq_namespace = None, rq_types = JNull, rq_allow_legacy = True\<rparr>"

lemma cursor_store_inv: "store_inv cursor_store"
  by (simp add: cursor_store_def set_meta_inv example_store_inv MARK_KEYS_def)

lemma head_cursor_facts:
  "issue_replay_cursor head_request cursor_store = Inr head_cursor"
  "validate_source None plain_request (CursorObject head_cursor) cursor_store = Inr head_cursor"
  "make_cursor (args_of head_cursor) = Inr head_cursor"
  by code_simp+

lemma issued_cursor_accepted_witness:
  "issue_replay_cursor head_request cursor_store = Inr head_cursor
   \<and> validate_source None plain_request (CursorObject head_cursor) cursor_store = Inr head_cursor"
  using head_cursor_facts(1) issued_cursor_accepted [OF cursor_store_inv head_cursor_facts(1), of plain_request None "[]"]
  by (simp add: head_request_def head_cursor_def plain_request_def target_base_def)

lemma validated_cursor_sound_witness:
  "validate_source None plain_request (CursorObject head_cursor) cursor_store = Inr head_cursor
   \<and> (\<exists>e \<in> set (st_events cursor_store). ev_seq e = 3 \<and> ev_id e = ''e3'')"
  using validated_cursor_sound [OF cursor_store_inv head_cursor_facts(2) make_cursor_wf [OF head_cursor_facts(3)]]
    head_cursor_facts(2) by (simp add: head_cursor_def)

lemma cursor_survives_append_witness:
  "\<exists>s' n. append_row (example_event ''e4'') cursor_store = Inr (s', n)
     \<and> validate_source None plain_request (CursorObject head_cursor) s' = Inr head_cursor"
proof -
  have "\<not> isl (append_row (example_event ''e4'') cursor_store)" by code_simp
  then obtain s' n where a: "append_row (example_event ''e4'') cursor_store = Inr (s', n)"
    by (cases "append_row (example_event ''e4'') cursor_store") auto
  with cursor_survives_append [OF cursor_store_inv make_cursor_wf [OF head_cursor_facts(3)] head_cursor_facts(2) a]
  show ?thesis by blast
qed

lemma trim_invalidates_exactly_witness:
  "\<exists>s' d. trim_events_before_seq 9 cursor_store = Inr (s', d)
     \<and> validate_source None plain_request (CursorObject head_cursor) s' = Inl stale"
proof -
  obtain s' d where t: "trim_events_before_seq 9 cursor_store = Inr (s', d)"
    using delete_events_total [OF cursor_store_inv before_prefix] unfolding trim_events_before_seq_def by blast
  have "length (filter (\<lambda>e. ev_seq e < 9) (st_events cursor_store)) \<noteq> 0" by code_simp
  then have "d \<noteq> 0" using delete_events_exact(2) [OF cursor_store_inv before_prefix t [unfolded trim_events_before_seq_def]] by simp
  then show ?thesis
    using t trim_invalidates_exactly [OF cursor_store_inv make_cursor_wf [OF head_cursor_facts(3)] head_cursor_facts(2) t]
    by (auto simp: head_cursor_def)
qed

lemma replaced_history_rejects_witness:
  "\<exists>s' i. replace_history True [] ''rep-2'' ''hist-2'' cursor_store = Inr (s', i)
     \<and> validate_source None plain_request (CursorObject head_cursor) s' = Inl (CursorError ''replaced_history'')"
proof -
  have "\<not> isl (replace_history True [] ''rep-2'' ''hist-2'' cursor_store)" by code_simp
  then obtain s' i where a: "replace_history True [] ''rep-2'' ''hist-2'' cursor_store = Inr (s', i)"
    by (cases "replace_history True [] ''rep-2'' ''hist-2'' cursor_store") auto
  with replaced_history_rejects [OF cursor_store_inv head_cursor_facts(2) a] show ?thesis by (simp add: head_cursor_def)
qed

end
