(* ===== verification/Events.thy ===== *)
theory Events
  imports CursorCheck
begin

text \<open>
  The event log of \<open>events.py\<close>: event types, the payloads that carry a whole record through the
  log, appending and querying events, the streaming reader, and the reading of a record back from a
  payload. Random event ids and the current time are arguments. A BLOB is the string of its bytes.
\<close>

section \<open>Event types\<close>

definition OBSERVATIONAL_EVENT_TYPES :: "string list" where
  "OBSERVATIONAL_EVENT_TYPES = [''memory.deduplicated'', ''memory.promotion'', ''memory.candidate'',
     ''snapshot.imported'', ''bundle.imported'', ''bundle.discovered'', ''hygiene.checked'', ''hygiene.warning'',
     ''index.rebuilt'', ''sync.applied'', ''handoff.applied'']"

definition EVENT_PAYLOAD_SCHEMA_VERSION :: int where "EVENT_PAYLOAD_SCHEMA_VERSION = 1"

definition is_reconstructing_event :: "string \<Rightarrow> bool" where
  "is_reconstructing_event t = (t \<in> set RECONSTRUCTING_EVENT_TYPES)"

definition classify_event :: "string \<Rightarrow> string" where
  "classify_event t = (if is_reconstructing_event t then ''reconstructing'' else ''observational'')"

section \<open>Payloads\<close>

definition extract_origin_identity :: "store option \<Rightarrow> dict db_res" where
  "extract_origin_identity db = (case db of
     None \<Rightarrow> Inr [(''mount_id'', JStr []), (''replica_id'', JStr []), (''history_id'', JStr []),
                  (''runtime_generation'', JStr [])]
   | Some s \<Rightarrow> rbind (mount_identity [] s) (\<lambda>i.
       Inr [(''mount_id'', JStr (mi_mount_id i)), (''replica_id'', JStr (mi_replica_id i)),
            (''history_id'', JStr (mi_history_id i)), (''runtime_generation'', JStr (mi_runtime_generation i))]))"

definition ENVELOPE_ONLY_KEYS :: "string list" where
  "ENVELOPE_ONLY_KEYS = [''payload_schema_version'', ''event_category'', ''transition'', ''record_fingerprint'',
     ''previous_content_hash'', ''previous_record_fingerprint'', ''origin'', ''occurred_at'', ''deleted_at'', ''reason'']"

definition strip_envelope_keys :: "dict \<Rightarrow> dict" where
  "strip_envelope_keys r = filter (\<lambda>(k, v). k \<notin> set ENVELOPE_ONLY_KEYS) r"

definition safe_record_fingerprint :: "dict \<Rightarrow> string" where
  "safe_record_fingerprint r = (case record_fingerprint (strip_envelope_keys r) [] of Inr fp \<Rightarrow> fp | Inl e \<Rightarrow> [])"

text \<open>\<open>json.dumps(v, sort_keys=True)\<close>\<close>

definition dumps_sorted :: "json \<Rightarrow> string" where
  "dumps_sorted v = json_text True True '', '' '': '' v"

definition serialize_json_column :: "json \<Rightarrow> json \<Rightarrow> json" where
  "serialize_json_column v dflt = (case v of
     JNull \<Rightarrow> dflt
   | JStr s \<Rightarrow> (if s = [] then dflt else v)
   | _ \<Rightarrow> JStr (dumps_sorted v))"

definition float_or_half :: "json \<Rightarrow> py_exn + pyfloat" where
  "float_or_half v = (if v = JNull then Inr HALF else py_float v)"

definition int_or_one :: "json \<Rightarrow> py_exn + int" where
  "int_or_one v = (if v = JNull then Inr 1 else py_int v)"

definition int_of_bool :: "json \<Rightarrow> int" where
  "int_of_bool v = (if truthy v then 1 else 0)"

text \<open>
  The dictionary literal of \<open>_build_memory_created_payload\<close>, column by column: the columns copied
  as they are, those with a default text, the JSON columns, and the numbers.
\<close>

definition PAYLOAD_COLUMNS :: "string list" where
  "PAYLOAD_COLUMNS = [''id'', ''identifier'', ''fact_text'', ''embedding_dim'', ''embedding_model'', ''source'',
     ''importance'', ''metadata_json'', ''content_hash'', ''namespace'', ''tier'', ''memory_type'', ''source_uri'',
     ''source_format'', ''source_checksum'', ''byte_offset'', ''byte_length'', ''promotion_state'',
     ''promotion_candidate'', ''tags'', ''schema_version'', ''fact_summary'', ''provenance_json'', ''snapshot_id'',
     ''parent_memory'', ''related_memories'', ''created_at'', ''updated_at'']"

definition COPIED_COLUMNS :: "string list" where
  "COPIED_COLUMNS = [''byte_offset'', ''byte_length'', ''fact_summary'', ''created_at'', ''updated_at'']"

definition JSON_COLUMNS :: "string list" where
  "JSON_COLUMNS = [''metadata_json'', ''tags'', ''related_memories'']"

definition COLUMN_DEFAULTS :: "(string \<times> string) list" where
  "COLUMN_DEFAULTS = [(''tier'', ''hot''), (''memory_type'', ''fact''), (''promotion_state'', ''HOT''),
     (''metadata_json'', ''{}''), (''tags'', ''[]''), (''related_memories'', ''[]'')]"

definition column_default :: "string \<Rightarrow> json" where
  "column_default c = JStr (case map_of COLUMN_DEFAULTS c of Some d \<Rightarrow> d | None \<Rightarrow> [])"

definition created_value :: "dict \<Rightarrow> pyfloat \<Rightarrow> int \<Rightarrow> string \<Rightarrow> json" where
  "created_value r imp ver c =
     (let v = dget r c in
      if c \<in> set COPIED_COLUMNS then v
      else if c \<in> {''id'', ''identifier''} then dget_default r c (JStr [])
      else if c \<in> set JSON_COLUMNS then serialize_json_column v (column_default c)
      else if c = ''provenance_json'' then serialize_json_column v JNull
      else if c = ''importance'' then JFloat imp
      else if c = ''schema_version'' then JInt ver
      else if c = ''embedding_dim'' then por v (JInt 0)
      else if c = ''promotion_candidate'' then JInt (int_of_bool v)
      else por v (column_default c))"

definition created_fields :: "dict \<Rightarrow> pyfloat \<Rightarrow> int \<Rightarrow> dict" where
  "created_fields r imp ver =
     [(''payload_schema_version'', JInt EVENT_PAYLOAD_SCHEMA_VERSION), (''event_category'', JStr ''reconstructing''),
      (''transition'', JStr ''create'')] @ map (\<lambda>c. (c, created_value r imp ver c)) PAYLOAD_COLUMNS"

definition embedding_field :: "dict \<Rightarrow> py_exn + dict" where
  "embedding_field r =
     (if truthy (dget r ''embedding'')
      then (case dget r ''embedding'' of
              JStr b \<Rightarrow> Inr [(''embedding_b64'', JStr (b64encode b))]
            | _ \<Rightarrow> Inl TypeError)
      else if truthy (dget r ''embedding_b64'') then Inr [(''embedding_b64'', JStr (py_str (dget r ''embedding_b64'')))]
      else Inr [])"

text \<open>The keyword arguments \<open>origin\<close> and \<open>occurred_at\<close>, written where given.\<close>

definition envelope_fields :: "dict option \<Rightarrow> string option \<Rightarrow> dict" where
  "envelope_fields origin occurred_at =
     (case origin of None \<Rightarrow> [] | Some d \<Rightarrow> [(''origin'', JObj d)])
     @ (case occurred_at of None \<Rightarrow> [] | Some t \<Rightarrow> [(''occurred_at'', JStr t)])"

definition build_created_payload :: "dict \<Rightarrow> dict option \<Rightarrow> string option \<Rightarrow> py_exn + dict" where
  "build_created_payload r origin occurred_at =
     rbind (float_or_half (dget r ''importance'')) (\<lambda>imp.
     rbind (int_or_one (dget r ''schema_version'')) (\<lambda>ver.
     rbind (embedding_field r) (\<lambda>emb.
     let p = created_fields r imp ver @ emb
             @ (if dget r ''ttl_seconds'' = JNull then [] else [(''ttl_seconds'', dget r ''ttl_seconds'')]) in
     Inr (p @ [(''record_fingerprint'', JStr (safe_record_fingerprint p))] @ envelope_fields origin occurred_at))))"

definition reason_field :: "string option \<Rightarrow> dict" where
  "reason_field reason = (case reason of None \<Rightarrow> [] | Some r \<Rightarrow> (if r = [] then [] else [(''reason'', JStr r)]))"

definition build_updated_payload ::
  "dict \<Rightarrow> dict option \<Rightarrow> dict option \<Rightarrow> string option \<Rightarrow> string option \<Rightarrow> py_exn + dict" where
  "build_updated_payload after before origin occurred_at reason =
     rbind (build_created_payload after origin occurred_at) (\<lambda>p.
     Inr (AList.update ''transition'' (JStr ''update'') p
       @ (case before of
            None \<Rightarrow> []
          | Some b \<Rightarrow> [(''previous_content_hash'', JStr (str_or_empty b ''content_hash'')),
                       (''previous_record_fingerprint'', JStr (safe_record_fingerprint b))])
       @ reason_field reason))"

text \<open>\<open>a or b or now\<close> for optional time stamps.\<close>

definition first_time :: "string option list \<Rightarrow> string \<Rightarrow> string" where
  "first_time ts now = (case filter (\<lambda>t. t \<notin> {None, Some []}) ts of Some t # _ \<Rightarrow> t | _ \<Rightarrow> now)"

definition build_deleted_payload ::
  "string \<Rightarrow> dict \<Rightarrow> string option \<Rightarrow> dict option \<Rightarrow> string option \<Rightarrow> string option \<Rightarrow> dict" where
  "build_deleted_payload now before deleted_at origin occurred_at reason =
     [(''payload_schema_version'', JInt EVENT_PAYLOAD_SCHEMA_VERSION), (''event_category'', JStr ''reconstructing''),
      (''transition'', JStr ''delete''), (''id'', JStr (str_or_empty before ''id'')),
      (''identifier'', JStr (str_or_empty before ''identifier'')),
      (''namespace'', JStr (str_or_empty before ''namespace'')),
      (''content_hash'', JStr (str_or_empty before ''content_hash'')),
      (''record_fingerprint'', JStr (safe_record_fingerprint before)),
      (''deleted_at'', JStr (first_time [deleted_at, occurred_at] now))]
     @ envelope_fields origin occurred_at @ reason_field reason"

section \<open>Appending and querying\<close>

record event =
  pe_seq :: int
  pe_id :: string
  pe_memory :: "string option"
  pe_namespace :: string
  pe_type :: string
  pe_at :: string
  pe_payload :: json

definition opt_str :: "string option \<Rightarrow> json" where
  "opt_str v = (case v of None \<Rightarrow> JNull | Some s \<Rightarrow> JStr s)"

definition event_to_dict :: "event \<Rightarrow> dict" where
  "event_to_dict e =
     [(''seq'', JInt (pe_seq e)), (''event_id'', JStr (pe_id e)), (''memory_id'', opt_str (pe_memory e)),
      (''namespace'', JStr (pe_namespace e)), (''event_type'', JStr (pe_type e)), (''occurred_at'', JStr (pe_at e)),
      (''reconstructing'', JBool (is_reconstructing_event (pe_type e))),
      (''event_category'', JStr (classify_event (pe_type e))), (''payload'', pe_payload e)]"

definition add_missing :: "string \<Rightarrow> json \<Rightarrow> dict \<Rightarrow> dict" where
  "add_missing k v d = (if has_key d k then d else d @ [(k, v)])"

definition stored_payload :: "string \<Rightarrow> string \<Rightarrow> json \<Rightarrow> store \<Rightarrow> dict db_res" where
  "stored_payload event_type at payload s =
     (let p = dict_of payload in
      if event_type \<in> set RECONSTRUCTING_EVENT_TYPES
        \<and> json_eq (dget p ''payload_schema_version'') (JInt EVENT_PAYLOAD_SCHEMA_VERSION) then
        rbind (if has_key p ''origin'' then Inr p
               else rbind (extract_origin_identity (Some s)) (\<lambda>d. Inr (add_missing ''origin'' (JObj d) p))) (\<lambda>p1.
        Inr (add_missing ''occurred_at'' (JStr at) p1))
      else Inr p)"

definition append_event ::
  "string \<Rightarrow> string \<Rightarrow> string \<Rightarrow> string option \<Rightarrow> string \<Rightarrow> json \<Rightarrow> string option \<Rightarrow> store \<Rightarrow> (store \<times> event) db_res" where
  "append_event event_id now event_type memory_id ns payload occurred_at s =
     (let at = first_time [occurred_at] now in
      rbind (stored_payload event_type at payload s) (\<lambda>p.
      rbind (append_row \<lparr>ev_seq = 0, ev_id = event_id, ev_memory = memory_id, ev_namespace = ns, ev_type = event_type,
          ev_at = at, ev_payload = dumps_sorted (JObj p)\<rparr> s) (\<lambda>(s', n).
      Inr (s', \<lparr>pe_seq = n, pe_id = event_id, pe_memory = memory_id, pe_namespace = ns, pe_type = event_type,
          pe_at = at, pe_payload = JObj p\<rparr>))))"

definition row_to_event :: "event_row \<Rightarrow> event" where
  "row_to_event e =
     \<lparr>pe_seq = ev_seq e, pe_id = ev_id e, pe_memory = ev_memory e, pe_namespace = ev_namespace e, pe_type = ev_type e,
      pe_at = ev_at e, pe_payload = (case loads (ev_payload e) of Some v \<Rightarrow> v | None \<Rightarrow> JObj [])\<rparr>"

record event_page =
  pg_events :: "event list"
  pg_count :: nat
  pg_next :: "int option"

definition query_events :: "event_filter \<Rightarrow> int \<Rightarrow> bool \<Rightarrow> store \<Rightarrow> event_page" where
  "query_events f limit ascending s =
     (let evs = map row_to_event (select_events f limit ascending s) in
      \<lparr>pg_events = evs, pg_count = length evs, pg_next = (if evs = [] then None else Some (pe_seq (last evs)))\<rparr>)"

section \<open>Streaming\<close>

text \<open>
  \<open>replay\<close> reads the log in pages of 500 events and moves its position to the last event of
  each page; it stops at an empty or short page. Every page moves past at least one event, so the loop
  ends.
\<close>

definition PAGE :: int where "PAGE = 500"

definition replay_page :: "string option \<Rightarrow> int \<Rightarrow> store \<Rightarrow> event list" where
  "replay_page ns after s = pg_events (query_events (any_event\<lparr>qf_namespace := ns, qf_after := Some after\<rparr>) PAGE True s)"

lemma select_events_sub: "e \<in> set (select_events f n asc s) \<Longrightarrow> e \<in> set (st_events s) \<and> event_matches f e"
  by (auto simp: select_events_def sql_limit_def Let_def dest!: in_set_takeD split: if_splits)

lemma replay_page_advances:
  assumes "replay_page ns after s = evs" "evs \<noteq> []"
  shows "length (filter (\<lambda>e. pe_seq (last evs) < ev_seq e) (st_events s)) < length (filter (\<lambda>e. after < ev_seq e) (st_events s))"
proof -
  let ?sel = "select_events (any_event\<lparr>qf_namespace := ns, qf_after := Some after\<rparr>) PAGE True s"
  have e: "evs = map row_to_event ?sel" using assms(1) by (simp add: replay_page_def query_events_def Let_def)
  then have m: "last ?sel \<in> set ?sel" and q: "pe_seq (last evs) = ev_seq (last ?sel)"
    using assms(2) by (auto simp: last_map row_to_event_def)
  have l: "last ?sel \<in> set (st_events s)" "after < ev_seq (last ?sel)" "pe_seq (last evs) = ev_seq (last ?sel)"
    using select_events_sub [OF m] q by (auto simp: event_matches_def when_given_def any_event_def)
  have "filter (\<lambda>e. pe_seq (last evs) < ev_seq e) (st_events s)
      = filter (\<lambda>e. pe_seq (last evs) < ev_seq e) (filter (\<lambda>e. after < ev_seq e) (st_events s))"
    using l(2,3) by (auto simp: conj_commute intro!: filter_cong)
  then show ?thesis
    using l by (simp only:) (rule length_filter_less [where x = "last ?sel"]; simp)
qed

function replay_events :: "string option \<Rightarrow> int \<Rightarrow> store \<Rightarrow> event list" where
  "replay_events ns after s =
     (let evs = replay_page ns after s in
      if evs = [] then []
      else if int (length evs) < PAGE then evs
      else evs @ replay_events ns (pe_seq (last evs)) s)"
  by pat_completeness auto
termination
proof (relation "measure (\<lambda>(ns, after, s). length (filter (\<lambda>e. after < ev_seq e) (st_events s)))", goal_cases)
  case (2 ns after s evs)
  then show ?case using replay_page_advances [of ns after s evs] by simp
qed simp

declare replay_events.simps [simp del]

text \<open>Without a cursor the position is a sequence number of this store.\<close>

definition replay_after :: "json \<Rightarrow> string option \<Rightarrow> store \<Rightarrow> event list cursor_res" where
  "replay_after after ns s = (case after of
     JInt n \<Rightarrow> (if n < 0 then Inl unanchored else Inr (replay_events ns n s))
   | _ \<Rightarrow> Inl unanchored)"

definition replay_cursor_events :: "cursor_arg \<Rightarrow> string option \<Rightarrow> store \<Rightarrow> event list cursor_res" where
  "replay_cursor_events cursor ns s =
     rbind (validate_source None \<lparr>rq_namespace = ns, rq_types = JNull, rq_allow_legacy = True\<rparr> cursor s) (\<lambda>c.
     rbind (effective_replay_event_types c JNull) (\<lambda>types.
     Inr (filter (\<lambda>e. pe_type e \<in> set types) (replay_events (rc_namespace c) (rc_seq c) s))))"

section \<open>Reading a record back\<close>

definition embedding_of :: "dict \<Rightarrow> py_exn + string" where
  "embedding_of p =
     (if \<not> truthy (dget p ''embedding_b64'') then Inr []
      else case dget p ''embedding_b64'' of
        JStr b \<Rightarrow> (if \<not> ascii b then Inl ValueError
                  else case b64decode b of Some x \<Rightarrow> Inr x | None \<Rightarrow> Inl ValueError)
      | _ \<Rightarrow> Inl TypeError)"

definition int_or_zero :: "json \<Rightarrow> int" where
  "int_or_zero v = (if v = JNull then 0 else int_of_bool v)"

text \<open>The columns of the \<open>MemoryRecord\<close> that a payload describes.\<close>

definition event_value :: "dict \<Rightarrow> string \<Rightarrow> pyfloat \<Rightarrow> int \<Rightarrow> string \<Rightarrow> json" where
  "event_value p emb imp ver c =
     (let v = dget p c in
      if c \<in> set COPIED_COLUMNS \<union> {''id'', ''ttl_seconds'', ''provenance_json''} then v
      else if c \<in> {''identifier'', ''fact_text''} then dget_default p c (JStr [])
      else if c = ''embedding'' then JStr emb
      else if c = ''importance'' then JFloat imp
      else if c = ''schema_version'' then JInt ver
      else if c = ''embedding_dim'' then por v (JInt 0)
      else if c = ''promotion_candidate'' then JInt (int_or_zero v)
      else por v (column_default c))"

definition event_record :: "dict \<Rightarrow> string \<Rightarrow> pyfloat \<Rightarrow> int \<Rightarrow> dict" where
  "event_record p emb imp ver = map (\<lambda>c. (c, event_value p emb imp ver c)) MEMORY_COLUMNS"

text \<open>\<open>_event_to_memory_record\<close>: \<open>None\<close> where the payload names no id.\<close>

definition event_to_memory_record :: "json \<Rightarrow> py_exn + dict option" where
  "event_to_memory_record payload = (case por payload (JObj []) of
     JObj p \<Rightarrow>
       (if \<not> truthy (dget p ''id'') then Inr None
        else rbind (embedding_of p) (\<lambda>emb.
        rbind (float_or_half (dget p ''importance'')) (\<lambda>imp.
        rbind (int_or_one (dget p ''schema_version'')) (\<lambda>ver.
        Inr (Some (event_record p emb imp ver))))))
   | _ \<Rightarrow> Inl AttributeError)"

end
