(* ===== verification/EventLog.thy ===== *)
theory EventLog
  imports Events
begin

text \<open>
  What the event log promises to its readers: the streaming reader returns every event after its
  position, once and in order, and a record written into the log as a payload is read back unchanged.
\<close>

section \<open>What appending does\<close>

lemma append_event_result:
  assumes "append_event i now ty m ns p at s = Inr (s', e)"
  obtains row q where "s' = s\<lparr>st_events := st_events s @ [row], st_last_seq := st_last_seq s + 1\<rparr>"
    "row = \<lparr>ev_seq = st_last_seq s + 1, ev_id = i, ev_memory = m, ev_namespace = ns, ev_type = ty,
       ev_at = first_time [at] now, ev_payload = dumps_sorted (JObj q)\<rparr>"
    "pe_payload e = JObj q" "pe_seq e = st_last_seq s + 1" "pe_id e = i" "pe_memory e = m" "pe_namespace e = ns"
    "pe_type e = ty" "pe_at e = first_time [at] now" "i \<notin> ev_id ` set (st_events s)"
    "stored_payload ty (first_time [at] now) p s = Inr q"
proof -
  let ?row = "\<lambda>n q. \<lparr>ev_seq = n, ev_id = i, ev_memory = m, ev_namespace = ns, ev_type = ty,
    ev_at = first_time [at] now, ev_payload = dumps_sorted (JObj q)\<rparr>"
  obtain q n where q: "stored_payload ty (first_time [at] now) p s = Inr q" "append_row (?row 0 q) s = Inr (s', n)"
    and e: "e = \<lparr>pe_seq = n, pe_id = i, pe_memory = m, pe_namespace = ns, pe_type = ty,
      pe_at = first_time [at] now, pe_payload = JObj q\<rparr>"
    using assms by (auto simp: append_event_def Let_def rbind_eq_Inr)
  note r = append_row_result [OF q(2)]
  have "?row 0 q\<lparr>ev_seq := n\<rparr> = ?row n q" by simp
  then show ?thesis using r by (intro that [of "?row n q" q]) (simp_all add: e q(1))
qed

lemma append_event_inv: "store_inv s \<Longrightarrow> append_event i now ty m ns p at s = Inr (s', e) \<Longrightarrow> store_inv s'"
  by (simp add: append_event_def Let_def rbind_eq_Inr case_prod_beta) (elim exE conjE, auto intro: append_row_inv)

lemma append_event_frame:
  assumes "append_event i now ty m ns p at s = Inr (s', e)"
  shows "get_memory k s' = get_memory k s" "get_tombstone k s' = get_tombstone k s"
    "get_replay_watermark k s' = get_replay_watermark k s" "st_ledger s' = st_ledger s" "st_meta s' = st_meta s"
    "st_memories s' = st_memories s" "st_tombstones s' = st_tombstones s" "st_watermarks s' = st_watermarks s"
  by (rule append_event_result [OF assms], simp add: read_defs)+

section \<open>The streaming reader\<close>

definition after_filter :: "string option \<Rightarrow> int \<Rightarrow> event_row \<Rightarrow> bool" where
  "after_filter ns n e \<longleftrightarrow> n < ev_seq e \<and> (\<forall>x. ns = Some x \<longrightarrow> ev_namespace e = x)"

lemma replay_page_take:
  "log_inv s \<Longrightarrow> replay_page ns n s = map row_to_event (take 500 (filter (after_filter ns n) (st_events s)))"
proof -
  assume l: "log_inv s"
  have "event_matches (any_event\<lparr>qf_namespace := ns, qf_after := Some n\<rparr>) = after_filter ns n"
    by (auto simp: fun_eq_iff event_matches_def any_event_def when_given_def after_filter_def split: option.splits)
  then show ?thesis
    by (simp add: replay_page_def query_events_def select_events_def sql_limit_def Let_def select_all [OF l] PAGE_def)
qed

lemma drop_sorted_filter:
  assumes "sorted_wrt (<) (map ev_seq xs)" "0 < k" "k \<le> length xs"
  shows "drop k xs = filter (\<lambda>e. ev_seq (xs ! (k - 1)) < ev_seq e) xs"
proof -
  have lt: "ev_seq (xs ! i) < ev_seq (xs ! j)" if "i < j" "j < length xs" for i j
    using sorted_wrt_nth_less [OF assms(1), of i j] that by simp
  have "\<not> ev_seq (xs ! (k - 1)) < ev_seq e" if e: "e \<in> set (take k xs)" for e
  proof -
    obtain i where i: "i < k" "e = xs ! i" using e assms(3) by (auto simp: in_set_conv_nth)
    show ?thesis
    proof (cases "i = k - 1")
      case False
      then have "i < k - 1" "k - 1 < length xs" using i assms(2,3) by auto
      then have "ev_seq (xs ! i) < ev_seq (xs ! (k - 1))" by (rule lt)
      then show ?thesis using i by simp
    qed (simp add: i)
  qed
  then have 1: "filter (\<lambda>e. ev_seq (xs ! (k - 1)) < ev_seq e) (take k xs) = []" by (simp add: filter_empty_conv)
  have "ev_seq (xs ! (k - 1)) < ev_seq e" if e: "e \<in> set (drop k xs)" for e
  proof -
    obtain i where "i < length (drop k xs)" "e = drop k xs ! i" using e unfolding in_set_conv_nth by blast
    then have "k + i < length xs" "e = xs ! (k + i)" using assms(3) by auto
    then show ?thesis using lt [of "k - 1" "k + i"] assms(2) by simp
  qed
  then have 2: "filter (\<lambda>e. ev_seq (xs ! (k - 1)) < ev_seq e) (drop k xs) = drop k xs" by (simp add: filter_id_conv)
  have "filter P xs = filter P (take k xs) @ filter P (drop k xs)" for P
    by (metis append_take_drop_id filter_append)
  then show ?thesis using 1 2 by simp
qed

lemma replay_events_all:
  "log_inv s \<Longrightarrow> replay_events ns n s = map row_to_event (filter (after_filter ns n) (st_events s))"
proof (induction ns n s rule: replay_events.induct)
  case (1 ns n s)
  let ?L = "filter (after_filter ns n) (st_events s)"
  let ?evs = "replay_page ns n s"
  have e: "?evs = map row_to_event (take 500 ?L)" by (rule replay_page_take [OF "1.prems"])
  have so: "sorted_wrt (<) (map ev_seq ?L)"
    using "1.prems" by (auto simp: log_inv_def sorted_wrt_map intro: sorted_wrt_filter)
  show ?case
  proof (cases "length ?L < 500")
    case True
    then show ?thesis by (subst replay_events.simps) (simp add: e Let_def PAGE_def)
  next
    case False
    then have len: "length (take 500 ?L) = 500" by simp
    have ne: "?evs \<noteq> []" using False by (cases ?L) (auto simp: e)
    let ?m = "ev_seq (?L ! 499)"
    have last: "pe_seq (last ?evs) = ?m"
      using False ne by (simp add: e last_map row_to_event_def last_conv_nth)
    have rest: "drop 500 ?L = filter (after_filter ns ?m) (st_events s)"
    proof -
      have "n < ?m" using nth_mem [of 499 ?L] False by (auto simp: after_filter_def)
      then have "filter (\<lambda>e. ?m < ev_seq e) ?L = filter (after_filter ns ?m) (st_events s)"
        by (auto simp: after_filter_def intro!: filter_cong)
      then show ?thesis using drop_sorted_filter [OF so, of 500] False by simp
    qed
    have "replay_events ns n s = ?evs @ replay_events ns (pe_seq (last ?evs)) s"
      using ne len by (subst replay_events.simps) (simp add: Let_def e PAGE_def)
    also have "\<dots> = map row_to_event (take 500 ?L @ drop 500 ?L)"
      using "1.IH" [OF refl ne _ "1.prems"] len unfolding last rest by (simp add: e PAGE_def)
    finally show ?thesis by simp
  qed
qed

text \<open>C38. Streaming the log page by page terminates and is equivalent to one unbounded query: it
  yields every retained event after the given position, in the namespace if one is given, exactly once
  and in sequence order, for logs of any length.
\<close>

theorem replay_stream_complete:
  assumes "store_inv s" "0 \<le> n"
  shows "replay_after (JInt n) ns s = Inr (map row_to_event (filter (after_filter ns n) (st_events s)))
    \<and> sorted_wrt (<) (map pe_seq (replay_events ns n s))"
proof -
  have l: "log_inv s" using assms(1) by (simp add: store_inv_def)
  have "sorted_wrt (<) (map ev_seq (filter (after_filter ns n) (st_events s)))"
    using l by (auto simp: log_inv_def sorted_wrt_map intro: sorted_wrt_filter)
  then show ?thesis
    using assms(2) by (simp add: replay_after_def replay_events_all [OF l] row_to_event_def comp_def)
qed

lemma replay_stream_complete_witness:
  "replay_after (JInt 1) None example_store = Inr (map row_to_event (filter (after_filter None 1) (st_events example_store)))
   \<and> sorted_wrt (<) (map pe_seq (replay_events None 1 example_store))"
  by (rule replay_stream_complete [OF example_store_inv]) simp

section \<open>A replaced history in the stream\<close>

text \<open>
  Replacing a history records where the new epoch starts, but the streaming reader does not look at it:
  a start cursor of the new history streams the retained events of the old one.
\<close>

lemma replay_streams_replaced_history:
  assumes "store_inv s" "replace_history True m r h s = Inr (s', i)" "e \<in> set (st_events s)"
    and "validate_source None \<lparr>rq_namespace = None, rq_types = JNull, rq_allow_legacy = True\<rparr> (CursorObject c) s' = Inr c"
    and "rc_seq c = 0" "rc_namespace c = None" "\<not> legacy_default c" "ev_type e \<in> set (rc_event_types c)"
  shows "(\<exists>evs. replay_cursor_events (CursorObject c) None s' = Inr evs \<and> row_to_event e \<in> set evs)
    \<and> (\<exists>n. meta_int ''history_epoch_start_seq'' s' = Inr n \<and> ev_seq e \<le> n)"
proof -
  have s': "s' = reset_epoch (replace_ids True m r h s)"
    using assms(2) by (auto simp: replace_history_def rbind_eq_Inr Let_def)
  have ev: "st_events s' = st_events s"
    by (simp add: s' reset_epoch_def replace_ids_def Let_def fold_set_meta bind_mount_def set_if_def)
  have inv: "store_inv s'" by (rule replace_history_inv [OF assms(1,2)])
  then have l: "log_inv s'" by (simp add: store_inv_def)
  have "e \<in> set (filter (after_filter None 0) (st_events s'))"
    using assms(1,3) by (auto simp: ev after_filter_def store_inv_def log_inv_def)
  then have "row_to_event e \<in> set (replay_events None 0 s')" by (simp add: replay_events_all [OF l])
  moreover have "pe_type (row_to_event e) = ev_type e" by (simp add: row_to_event_def)
  ultimately have "\<exists>evs. replay_cursor_events (CursorObject c) None s' = Inr evs \<and> row_to_event e \<in> set evs"
    using assms(4-8) by (simp add: replay_cursor_events_def effective_replay_event_types_def)
  moreover have "meta_int ''history_epoch_start_seq'' s' = Inr (max_seq (st_events s))"
    by (simp add: s' reset_epoch_def replace_ids_def Let_def fold_set_meta bind_mount_def set_if_def)
  ultimately show ?thesis using max_seq_ge [OF assms(3)] by auto
qed

section \<open>A record through the log\<close>

text \<open>A row as the database returns it: typed columns, none of the defaulted ones empty.\<close>

definition TEXT_COLUMNS :: "string list" where
  "TEXT_COLUMNS = [''id'', ''identifier'', ''fact_text'', ''embedding'', ''embedding_model'', ''source'', ''metadata_json'',
     ''content_hash'', ''namespace'', ''tier'', ''memory_type'', ''source_uri'', ''source_format'', ''source_checksum'',
     ''snapshot_id'', ''promotion_state'', ''parent_memory'', ''related_memories'', ''tags'']"

definition NONEMPTY_COLUMNS :: "string list" where
  "NONEMPTY_COLUMNS = [''id'', ''metadata_json'', ''tier'', ''memory_type'', ''promotion_state'', ''related_memories'', ''tags'']"

definition db_row :: "dict \<Rightarrow> bool" where
  "db_row r \<longleftrightarrow>
     (\<forall>c \<in> set TEXT_COLUMNS. is_str (dget r c)) \<and> (\<forall>c \<in> set NONEMPTY_COLUMNS. dget r c \<noteq> JStr [])
     \<and> is_float (dget r ''importance'') \<and> is_int (dget r ''schema_version'') \<and> is_int (dget r ''embedding_dim'')
     \<and> \<not> is_bool (dget r ''schema_version'') \<and> \<not> is_bool (dget r ''embedding_dim'')
     \<and> dget r ''promotion_candidate'' \<in> {JInt 0, JInt 1}
     \<and> dget r ''provenance_json'' \<noteq> JStr [] \<and> (dget r ''provenance_json'' = JNull \<or> is_str (dget r ''provenance_json''))
     \<and> (\<forall>c \<in> set MEMORY_COLUMNS. hashable (dget r c)) \<and> dget r ''embedding_b64'' = JNull"

lemma por_str [simp]: "por (JStr s) (JStr []) = JStr s"
  by (simp add: por_def)

lemma por_nonempty [simp]: "s \<noteq> [] \<Longrightarrow> por (JStr s) v = JStr s"
  by (simp add: por_def)

lemma por_int [simp]: "por (JInt i) (JInt 0) = JInt i"
  by (simp add: por_def)

text \<open>The typed columns of a row.\<close>

lemma is_str_ex: "is_str v \<Longrightarrow> \<exists>s. v = JStr s"
  by (cases v) auto

lemma db_row_text: "db_row r \<Longrightarrow> c \<in> set TEXT_COLUMNS \<Longrightarrow> \<exists>s. dget r c = JStr s"
  unfolding db_row_def by (elim conjE, drule (1) bspec, rule is_str_ex)

lemma db_row_nonempty: "db_row r \<Longrightarrow> c \<in> set NONEMPTY_COLUMNS \<Longrightarrow> \<exists>s. dget r c = JStr s \<and> s \<noteq> []"
proof -
  assume r: "db_row r" and c: "c \<in> set NONEMPTY_COLUMNS"
  have "set NONEMPTY_COLUMNS \<subseteq> set TEXT_COLUMNS" by (simp add: NONEMPTY_COLUMNS_def TEXT_COLUMNS_def)
  moreover have "\<forall>c \<in> set NONEMPTY_COLUMNS. dget r c \<noteq> JStr []" using r unfolding db_row_def by (elim conjE)
  then have "dget r c \<noteq> JStr []" using c by (rule bspec)
  ultimately show ?thesis using db_row_text [OF r, of c] c by auto
qed

lemma text_default:
  assumes "db_row r" "c \<in> set TEXT_COLUMNS"
  shows "por (dget r c) (JStr []) = dget r c"
  using db_row_text [OF assms] by auto

lemma nonempty_default:
  assumes "db_row r" "c \<in> set NONEMPTY_COLUMNS"
  shows "por (dget r c) v = dget r c" "serialize_json_column (dget r c) v = dget r c"
  using db_row_nonempty [OF assms] by (auto simp: serialize_json_column_def)

lemma db_row_has: "db_row r \<Longrightarrow> c \<in> set TEXT_COLUMNS \<Longrightarrow> dget_default r c v = dget r c"
  using db_row_text [of r c] by (auto simp: dget_def dget_default_def split: option.splits)

lemma db_row_values:
  assumes "db_row r"
  obtains f sv dim where "dget r ''importance'' = JFloat f" "dget r ''schema_version'' = JInt sv"
    "dget r ''embedding_dim'' = JInt dim"
proof -
  have v: "is_float (dget r ''importance'')" "is_int (dget r ''schema_version'')" "is_int (dget r ''embedding_dim'')"
    "\<not> is_bool (dget r ''schema_version'')" "\<not> is_bool (dget r ''embedding_dim'')"
    using assms unfolding db_row_def by - ((elim conjE, assumption)+)
  have "is_float w \<Longrightarrow> \<exists>f. w = JFloat f" "is_int w \<Longrightarrow> \<not> is_bool w \<Longrightarrow> \<exists>n. w = JInt n" for w by (cases w; simp)+
  with v that show ?thesis by metis
qed

lemma db_row_flags:
  assumes "db_row r"
  shows "JInt (int_of_bool (dget r ''promotion_candidate'')) = dget r ''promotion_candidate''"
    "serialize_json_column (dget r ''provenance_json'') JNull = dget r ''provenance_json''"
proof -
  have c: "dget r ''promotion_candidate'' \<in> {JInt 0, JInt 1}" and p: "dget r ''provenance_json'' \<noteq> JStr []"
    and q: "dget r ''provenance_json'' = JNull \<or> is_str (dget r ''provenance_json'')"
    using assms unfolding db_row_def by - ((elim conjE, assumption)+)
  from c show "JInt (int_of_bool (dget r ''promotion_candidate'')) = dget r ''promotion_candidate''"
    by (auto simp: int_of_bool_def)
  from p q show "serialize_json_column (dget r ''provenance_json'') JNull = dget r ''provenance_json''"
    by (cases "dget r ''provenance_json''") (auto simp: serialize_json_column_def)
qed

text \<open>How the groups of columns lie to each other.\<close>

lemma column_groups:
  "set MEMORY_COLUMNS - (set COPIED_COLUMNS \<union> {''id'', ''identifier'', ''ttl_seconds'', ''provenance_json'', ''embedding'',
     ''importance'', ''schema_version'', ''embedding_dim'', ''promotion_candidate''}) \<subseteq> set TEXT_COLUMNS"
  "set JSON_COLUMNS \<subseteq> set NONEMPTY_COLUMNS - {''id'', ''identifier''} - set COPIED_COLUMNS"
  "set PAYLOAD_COLUMNS = set MEMORY_COLUMNS - {''embedding'', ''ttl_seconds''}"
  "{''id'', ''identifier''} \<subseteq> set TEXT_COLUMNS - set COPIED_COLUMNS"
  "{''importance'', ''schema_version'', ''embedding_dim'', ''promotion_candidate'', ''provenance_json''}
     \<subseteq> - set COPIED_COLUMNS \<inter> - set JSON_COLUMNS \<inter> - {''id'', ''identifier''}"
  "fst ` set COLUMN_DEFAULTS \<subseteq> set NONEMPTY_COLUMNS"
  "distinct PAYLOAD_COLUMNS"
  by code_simp+

lemma default_text: "c \<notin> set NONEMPTY_COLUMNS \<Longrightarrow> column_default c = JStr []"
proof -
  assume "c \<notin> set NONEMPTY_COLUMNS"
  then have "map_of COLUMN_DEFAULTS c = None" using column_groups(6) by (auto simp: map_of_eq_None_iff)
  then show ?thesis by (simp add: column_default_def)
qed

lemma text_kept:
  assumes "db_row r" "c \<in> set TEXT_COLUMNS"
  shows "por (dget r c) (column_default c) = dget r c"
  using text_default [OF assms] nonempty_default(1) [OF assms(1), of c] default_text [of c] by metis

lemma created_value_row:
  assumes "db_row r" "dget r ''importance'' = JFloat f" "dget r ''schema_version'' = JInt sv" "c \<in> set PAYLOAD_COLUMNS"
  shows "created_value r f sv c = dget r c"
proof -
  obtain dim where dim: "dget r ''embedding_dim'' = JInt dim" using db_row_values [OF assms(1)] by metis
  have c: "c \<in> set MEMORY_COLUMNS" "c \<notin> {''embedding'', ''ttl_seconds''}" using assms(4) column_groups(3) by auto
  show ?thesis
  proof (cases "c \<in> set COPIED_COLUMNS")
    case True
    then show ?thesis by (simp add: created_value_def)
  next
    case nc: False
    show ?thesis
    proof (cases "c \<in> {''id'', ''identifier''}")
      case True
      then have "c \<in> set TEXT_COLUMNS" using column_groups(4) by (rule DiffD1 [OF subsetD, rotated])
      then show ?thesis
        using True nc db_row_has [OF assms(1), of c] unfolding created_value_def Let_def by (simp only: if_True if_False)
    next
      case ni: False
      show ?thesis
      proof (cases "c \<in> set JSON_COLUMNS")
        case True
        then have n: "c \<in> set NONEMPTY_COLUMNS" using column_groups(2) by (rule DiffD1 [OF DiffD1 [OF subsetD], rotated])
        then show ?thesis
          using True nc ni nonempty_default(2) [OF assms(1) n] unfolding created_value_def Let_def by (simp only: if_True if_False)
      next
        case nj: False
        show ?thesis
        proof (cases "c \<in> {''importance'', ''schema_version'', ''embedding_dim'', ''promotion_candidate'', ''provenance_json''}")
          case True
          then show ?thesis
            unfolding created_value_def Let_def using nc ni nj db_row_flags [OF assms(1)] dim assms(2,3)
            by (elim insertE emptyE) simp_all
        next
          case False
          then have "c \<in> set MEMORY_COLUMNS - (set COPIED_COLUMNS \<union> {''id'', ''identifier'', ''ttl_seconds'',
              ''provenance_json'', ''embedding'', ''importance'', ''schema_version'', ''embedding_dim'', ''promotion_candidate''})"
            using c nc ni by simp
          then have "c \<in> set TEXT_COLUMNS" using column_groups(1) by (rule subsetD [rotated])
          then show ?thesis
            using False nc ni nj text_kept [OF assms(1), of c] unfolding created_value_def Let_def by simp
        qed
      qed
    qed
  qed
qed

definition carries :: "dict \<Rightarrow> dict \<Rightarrow> bool" where
  "carries p r \<longleftrightarrow> (\<forall>c \<in> set PAYLOAD_COLUMNS. map_of p c = Some (dget r c)) \<and> dget p ''ttl_seconds'' = dget r ''ttl_seconds''
     \<and> dget p ''embedding_b64'' =
         (if dget r ''embedding'' = JStr [] then JNull else JStr (b64encode (py_str (dget r ''embedding''))))"

lemma event_value_row:
  assumes "db_row r" "carries p r" "dget r ''embedding'' = JStr emb" "dget r ''importance'' = JFloat f"
    and "dget r ''schema_version'' = JInt sv" "c \<in> set MEMORY_COLUMNS"
  shows "event_value p emb f sv c = dget r c"
proof -
  obtain dim where dim: "dget r ''embedding_dim'' = JInt dim" using db_row_values [OF assms(1)] by metis
  have p: "dget p x = dget r x \<and> dget_default p x v = dget r x" if "x \<in> set PAYLOAD_COLUMNS" for x v
    using assms(2) that by (simp add: carries_def dget_def dget_default_def)
  show ?thesis
  proof (cases "c \<in> {''embedding'', ''ttl_seconds''}")
    case True
    moreover have "dget p ''ttl_seconds'' = dget r ''ttl_seconds''" using assms(2) by (simp add: carries_def)
    moreover have "''embedding'' \<notin> set COPIED_COLUMNS" "''ttl_seconds'' \<notin> set COPIED_COLUMNS" by code_simp+
    ultimately show ?thesis using assms(3) unfolding event_value_def Let_def by (elim insertE emptyE) simp_all
  next
    case False
    then have "c \<in> set PAYLOAD_COLUMNS" using assms(6) unfolding column_groups(3) by blast
    note pc = p [OF this]
    show ?thesis
    proof (cases "c \<in> set COPIED_COLUMNS \<union> {''id'', ''ttl_seconds'', ''provenance_json''}")
      case True
      then show ?thesis using pc unfolding event_value_def Let_def by (simp only: if_True)
    next
      case nc: False
      show ?thesis
      proof (cases "c \<in> {''identifier'', ''fact_text'', ''importance'', ''schema_version'', ''embedding_dim'', ''promotion_candidate''}")
        case True
        have "JInt (int_or_zero (dget r ''promotion_candidate'')) = dget r ''promotion_candidate''"
          using db_row_flags(1) [OF assms(1)] by (auto simp: int_or_zero_def)
        with True show ?thesis
          unfolding event_value_def Let_def using nc pc dim assms(4,5) by (elim insertE emptyE) simp_all
      next
        case ns: False
        then have "c \<in> set MEMORY_COLUMNS - (set COPIED_COLUMNS \<union> {''id'', ''identifier'', ''ttl_seconds'',
            ''provenance_json'', ''embedding'', ''importance'', ''schema_version'', ''embedding_dim'', ''promotion_candidate''})"
          using nc False assms(6) by simp
        then have "c \<in> set TEXT_COLUMNS" using column_groups(1) by (rule subsetD [rotated])
        then show ?thesis
          using ns nc False pc text_kept [OF assms(1), of c] unfolding event_value_def Let_def by simp
      qed
    qed
  qed
qed

lemma ascii_b64: "ascii (b64encode b)"
proof -
  have "(of_char c :: nat) < 128" if "c \<in> set (urlsafe_b64encode b)" for c
  proof -
    have "urlsafe_b64encode b = rstrip_pad (urlsafe_b64encode b) @ replicate ((3 - length b mod 3) mod 3) (CHR ''='')"
      by (simp add: rstrip_pad_encode) (simp add: urlsafe_b64encode_def)
    then have "c \<in> set (rstrip_pad (urlsafe_b64encode b)) \<or> c = CHR ''=''" using that by (metis in_set_replicate set_append UnE)
    then show ?thesis using b64_text_chars by auto
  qed
  then show ?thesis by (auto simp: ascii_def b64encode_def)
qed

lemma b64_truthy: "b \<noteq> [] \<Longrightarrow> b64encode b \<noteq> []"
  using b64decode_encode [of b] by (auto simp: b64decode_def urlsafe_b64decode_def)

lemma carried_record:
  assumes "db_row r" "carries p r"
  shows "event_to_memory_record (JObj p) = Inr (Some (updated_row r))"
proof -
  obtain f sv where v: "dget r ''importance'' = JFloat f" "dget r ''schema_version'' = JInt sv" using db_row_values [OF assms(1)] by metis
  obtain emb where emb: "dget r ''embedding'' = JStr emb"
    using db_row_text [OF assms(1), of "''embedding''"] by (auto simp: TEXT_COLUMNS_def)
  obtain i where i: "dget r ''id'' = JStr i" "i \<noteq> []"
    using db_row_nonempty [OF assms(1), of "''id''"] by (auto simp: NONEMPTY_COLUMNS_def)
  have "''id'' \<in> set PAYLOAD_COLUMNS" "''importance'' \<in> set PAYLOAD_COLUMNS" "''schema_version'' \<in> set PAYLOAD_COLUMNS"
    by code_simp+
  then have p: "dget p ''id'' = JStr i" "dget p ''importance'' = JFloat f" "dget p ''schema_version'' = JInt sv"
    using assms(2) i v by (simp_all add: carries_def dget_def)
  have ne: "p \<noteq> []" using p(1) by (auto simp: dget_def)
  have "embedding_of p = Inr emb"
    using assms(2) emb b64_truthy [of emb] ascii_b64 [of emb] b64decode_encode [of emb]
    by (auto simp: embedding_of_def carries_def py_str_def)
  moreover have "event_record p emb f sv = updated_row r"
    using event_value_row [OF assms emb v] by (simp add: event_record_def updated_row_def)
  moreover have "float_or_half (JFloat f) = Inr f" "int_or_one (JInt sv) = Inr sv"
    by (simp_all add: float_or_half_def int_or_one_def py_float_def py_int_def)
  ultimately show ?thesis
    using p i(2) ne by (simp add: event_to_memory_record_def por_def)
qed

lemma map_of_tabulate: "map_of (map (\<lambda>c. (c, f c)) cs) k = (if k \<in> set cs then Some (f k) else None)"
  by (induction cs) auto

lemma map_of_header: "map_of hdr k = None \<Longrightarrow>
    map_of (hdr @ map (\<lambda>c. (c, f c)) cs @ t) k = (if k \<in> set cs then Some (f k) else map_of t k)"
  by (simp add: map_add_def map_of_tabulate split: option.splits)

lemma built_payload_carries:
  assumes "db_row r" "build_created_payload r origin at = Inr p"
  shows "carries p r"
proof -
  obtain f sv where v: "dget r ''importance'' = JFloat f" "dget r ''schema_version'' = JInt sv" using db_row_values [OF assms(1)] by metis
  obtain emb where emb: "dget r ''embedding'' = JStr emb"
    using db_row_text [OF assms(1), of "''embedding''"] by (auto simp: TEXT_COLUMNS_def)
  have nb: "dget r ''embedding_b64'' = JNull" using assms(1) unfolding db_row_def by (elim conjE)
  let ?e = "if emb = [] then [] else [(''embedding_b64'', JStr (b64encode emb))]"
  let ?t = "if dget r ''ttl_seconds'' = JNull then [] else [(''ttl_seconds'', dget r ''ttl_seconds'')]"
  have e: "embedding_field r = Inr ?e" using emb nb by (simp add: embedding_field_def)
  obtain tail where p: "p = created_fields r f sv @ ?e @ ?t @ tail" and tail: "fst ` set tail \<subseteq> {''record_fingerprint'', ''origin'', ''occurred_at''}"
    using assms(2) v e
    by (auto simp: build_created_payload_def float_or_half_def int_or_one_def py_float_def py_int_def Let_def
      envelope_fields_def split: option.splits if_splits)
  let ?hdr = "[(''payload_schema_version'', JInt EVENT_PAYLOAD_SCHEMA_VERSION), (''event_category'', JStr ''reconstructing''),
      (''transition'', JStr ''create'')]"
  have keys: "set PAYLOAD_COLUMNS \<inter> {''payload_schema_version'', ''event_category'', ''transition''} = {}"
    "''ttl_seconds'' \<notin> set PAYLOAD_COLUMNS" "''embedding_b64'' \<notin> set PAYLOAD_COLUMNS" by code_simp+
  have h: "map_of ?hdr k = None" if "k \<notin> {''payload_schema_version'', ''event_category'', ''transition''}" for k
    using that by simp
  have m: "map_of p c = Some (dget r c)" if "c \<in> set PAYLOAD_COLUMNS" for c
  proof -
    have "map_of ?hdr c = None" using keys(1) that by (intro h) blast
    then show ?thesis
      unfolding p created_fields_def append_assoc
      by (subst map_of_header, assumption) (simp add: that created_value_row [OF assms(1) v that])
  qed
  have tl: "map_of tail k = None" if "k \<in> {''ttl_seconds'', ''embedding_b64''}" for k
    using that tail by (auto simp: map_of_eq_None_iff)
  have "map_of p k = map_of (?e @ ?t) k" if "k \<in> {''ttl_seconds'', ''embedding_b64''}" for k
  proof -
    have "map_of ?hdr k = None" using that by (intro h) auto
    moreover have "k \<notin> set PAYLOAD_COLUMNS" using that keys by auto
    ultimately show ?thesis
      using tl [OF that] unfolding p created_fields_def append_assoc
      by (subst map_of_header) (auto simp: map_add_def split: option.splits)
  qed
  then have "dget p ''ttl_seconds'' = dget r ''ttl_seconds''"
    "dget p ''embedding_b64'' = (if emb = [] then JNull else JStr (b64encode emb))"
    by (simp_all add: dget_def)
  then show ?thesis using m emb by (simp add: carries_def py_str_def)
qed

lemma hashable_sort: "hashable v \<Longrightarrow> sort_json v = v"
  by (cases v) (auto simp: hashable_def)

lemma db_row_hashable: "db_row r \<Longrightarrow> c \<in> set MEMORY_COLUMNS \<Longrightarrow> hashable (dget r c)"
proof -
  assume "db_row r" and c: "c \<in> set MEMORY_COLUMNS"
  then have "\<forall>c \<in> set MEMORY_COLUMNS. hashable (dget r c)" unfolding db_row_def by (elim conjE)
  then show ?thesis using c by (rule bspec)
qed

lemma carries_parsed:
  assumes "db_row r" "carries p r" "distinct (map fst p)" "sort_json (JObj p) = JObj d"
  shows "carries d r"
proof -
  let ?d = "map (\<lambda>(k, v). (k, sort_json v)) p"
  have k: "map fst ?d = map fst p" by (induction p) auto
  have "map_of (sort_key fst ?d) = map_of ?d" using assms(3) by (intro map_of_sort) (simp only: k)
  then have d: "map_of d = map_option sort_json \<circ> map_of p"
    using assms(4) by (auto simp: map_of_map)
  have "map_of d c = Some (dget r c)" if c: "c \<in> set PAYLOAD_COLUMNS" for c
  proof -
    have "hashable (dget r c)" using db_row_hashable [OF assms(1)] c unfolding column_groups(3) by blast
    then show ?thesis using assms(2) c by (simp add: d carries_def hashable_sort)
  qed
  moreover have "dget d k = dget p k" if "hashable (dget p k)" for k
    using that by (cases "map_of p k") (simp_all add: dget_def d hashable_sort)
  moreover have "''ttl_seconds'' \<in> set MEMORY_COLUMNS" by code_simp
  then have "hashable (dget p ''ttl_seconds'')" "hashable (dget p ''embedding_b64'')"
    using assms(2) db_row_hashable [OF assms(1)] by (auto simp: carries_def hashable_def)
  ultimately show ?thesis using assms(2) by (simp add: carries_def)
qed

lemma map_of_add_missing: "k \<noteq> k' \<Longrightarrow> map_of (add_missing k' v d) k = map_of d k"
  by (simp add: add_missing_def map_add_def split: option.splits)

lemma stored_payload_keeps:
  assumes "stored_payload ty at (JObj p) s = Inr p'" "k \<notin> {''origin'', ''occurred_at''}"
  shows "map_of p' k = map_of p k"
  using assms by (auto simp: stored_payload_def Let_def rbind_eq_Inr map_of_add_missing split: if_splits)

text \<open>C25. A record survives the event log: the row that a \<open>memory.created\<close> or
  \<open>memory.updated\<close> payload was built from, embedding included, is what a reader rebuilds from the
  stored text of the appended event, for rows typed as the database types them and payloads of ASCII text.
\<close>

theorem logged_record_roundtrip:
  assumes "db_row r" "build_created_payload r origin at = Inr p"
    and "append_event eid now ty mid ns (JObj p) at' s = Inr (s', e)" "storable (pe_payload e)"
  shows "\<exists>row \<in> set (st_events s'). ev_id row = eid \<and> ev_seq row = pe_seq e
    \<and> event_to_memory_record (pe_payload (row_to_event row)) = Inr (Some (updated_row r))"
proof -
  obtain p' n where q: "stored_payload ty (first_time [at'] now) (JObj p) s = Inr p'"
    and a: "append_row \<lparr>ev_seq = 0, ev_id = eid, ev_memory = mid, ev_namespace = ns, ev_type = ty,
          ev_at = first_time [at'] now, ev_payload = dumps_sorted (JObj p')\<rparr> s = Inr (s', n)"
    and e: "pe_payload e = JObj p'" "pe_seq e = n"
    using assms(3) by (auto simp: append_event_def Let_def rbind_eq_Inr)
  let ?row = "\<lparr>ev_seq = n, ev_id = eid, ev_memory = mid, ev_namespace = ns, ev_type = ty,
          ev_at = first_time [at'] now, ev_payload = dumps_sorted (JObj p')\<rparr>"
  have row: "?row \<in> set (st_events s')" using append_row_result(3) [OF a] by simp
  have c: "carries p' r"
  proof -
    have "set PAYLOAD_COLUMNS \<inter> {''origin'', ''occurred_at''} = {}" by code_simp
    then have "map_of p' c = map_of p c" if "c \<in> set PAYLOAD_COLUMNS \<union> {''ttl_seconds'', ''embedding_b64''}" for c
      using that by (intro stored_payload_keeps [OF q]) auto
    then show ?thesis using built_payload_carries [OF assms(1,2)] by (simp add: carries_def dget_def)
  qed
  obtain d where d: "sort_json (JObj p') = JObj d" by simp
  have "loads (dumps_sorted (JObj p')) = Some (JObj d)"
    unfolding dumps_sorted_def d [symmetric] using assms(4) by (intro loads_sorted separator_plain) (simp add: e)
  then have "pe_payload (row_to_event ?row) = JObj d" by (simp add: row_to_event_def)
  moreover have "carries d r" using assms(4) by (intro carries_parsed [OF assms(1) c _ d]) (simp add: e)
  ultimately have "event_to_memory_record (pe_payload (row_to_event ?row)) = Inr (Some (updated_row r))"
    using carried_record [OF assms(1)] by simp
  with row e(2) show ?thesis by (intro bexI [OF _ row]) simp
qed

definition log_row :: dict where
  "log_row = map (\<lambda>c. (c, JStr ''x'')) TEXT_COLUMNS @ [(''importance'', JFloat (FDec 5 (-1))), (''schema_version'', JInt 4),
     (''embedding_dim'', JInt 0), (''promotion_candidate'', JInt 0)]"

definition log_payload :: "string \<Rightarrow> dict" where
  "log_payload fp = created_fields log_row (FDec 5 (-1)) 4 @ [(''embedding_b64'', JStr ''eA=='')]
     @ [(''record_fingerprint'', JStr fp)] @ envelope_fields (Some [(''mount_id'', JStr ''m'')]) (Some ''2026-01-01'')"

lemma log_row_db: "db_row log_row"
  unfolding db_row_def by code_simp

lemma map_sum_eq_Inr: "map_sum f g m = Inr y \<longleftrightarrow> (\<exists>x. m = Inr x \<and> y = g x)"
  by (cases m) auto

lemma safe_fingerprint_ascii: "ascii (safe_record_fingerprint r)"
proof -
  have "(of_char c :: nat) < 128" if "c \<in> set (sha256_hex s)" for c s
    using sha256_hex_digits [OF that] by auto
  then have "ascii (sha256_hex s)" for s by (simp add: ascii_def)
  then have "ascii fp" if "record_fingerprint d i = Inr fp" for d i fp
    using that by (auto simp: record_fingerprint_def fingerprint_of_normalized_def of_py_def rbind_eq_Inr map_sum_eq_Inr)
  moreover have "ascii []" by (simp add: ascii_def)
  ultimately show ?thesis by (simp add: safe_record_fingerprint_def split: sum.splits)
qed

lemma log_payload_storable: "ascii fp \<Longrightarrow> storable (JObj (log_payload fp))"
proof -
  assume a: "ascii fp"
  have k: "map fst (log_payload fp) = map fst (log_payload [])" by (simp add: log_payload_def)
  have "distinct (map fst (log_payload []))" "list_all ascii (map fst (log_payload []))" by code_simp+
  then have "distinct (map fst (log_payload fp))" "list_all (ascii \<circ> fst) (log_payload fp)"
    unfolding k [symmetric] by (simp_all add: list.pred_map)
  moreover have "list_all (storable \<circ> snd) (created_fields log_row (FDec 5 (-1)) 4 @ [(''embedding_b64'', JStr ''eA=='')])"
    "list_all (storable \<circ> snd) (envelope_fields (Some [(''mount_id'', JStr ''m'')]) (Some ''2026-01-01''))"
    by code_simp+
  then have "list_all (storable \<circ> snd) (log_payload fp)" using a by (simp add: log_payload_def)
  ultimately show ?thesis by (simp add: list_all_iff case_prod_beta)
qed

lemma log_row_payload:
  "\<exists>fp. ascii fp \<and> build_created_payload log_row (Some [(''mount_id'', JStr ''m'')]) (Some ''2026-01-01'') = Inr (log_payload fp)"
proof -
  have "float_or_half (dget log_row ''importance'') = Inr (FDec 5 (-1))" "int_or_one (dget log_row ''schema_version'') = Inr 4"
    "embedding_field log_row = Inr [(''embedding_b64'', JStr ''eA=='')]" "dget log_row ''ttl_seconds'' = JNull" by code_simp+
  then show ?thesis
    by (auto simp: build_created_payload_def log_payload_def Let_def intro!: exI safe_fingerprint_ascii)
qed

lemma log_payload_appends:
  "\<exists>s' e. append_event ''e1'' ''2026-01-02'' ''memory.created'' (Some ''x'') ''x'' (JObj (log_payload fp)) None empty_store = Inr (s', e)
    \<and> pe_payload e = JObj (log_payload fp)"
proof -
  have o: "has_key (log_payload fp) ''origin''" "has_key (log_payload fp) ''occurred_at''"
    by (simp_all add: log_payload_def envelope_fields_def has_key_def)
  then have "stored_payload ''memory.created'' t (JObj (log_payload fp)) empty_store = Inr (log_payload fp)" for t
    by (simp add: stored_payload_def Let_def add_missing_def)
  then show ?thesis by (simp add: append_event_def append_row_def Let_def empty_store_def)
qed

lemma logged_record_roundtrip_witness:
  "\<exists>(s' :: store) row. row \<in> set (st_events s') \<and> ev_id row = ''e1''
    \<and> event_to_memory_record (pe_payload (row_to_event row)) = Inr (Some (updated_row log_row))"
proof -
  obtain fp where fp: "ascii fp" "build_created_payload log_row (Some [(''mount_id'', JStr ''m'')]) (Some ''2026-01-01'') = Inr (log_payload fp)"
    using log_row_payload by blast
  obtain s' e where a: "append_event ''e1'' ''2026-01-02'' ''memory.created'' (Some ''x'') ''x'' (JObj (log_payload fp)) None empty_store = Inr (s', e)"
    "pe_payload e = JObj (log_payload fp)" using log_payload_appends by blast
  have "storable (pe_payload e)" using log_payload_storable [OF fp(1)] by (simp add: a(2))
  from logged_record_roundtrip [OF log_row_db fp(2) a(1) this] show ?thesis by blast
qed

end
