(* ===== verification/Deletion.thy ===== *)
theory Deletion
  imports EventLog
begin

text \<open>
  \<open>delete_memory_record\<close> and \<open>compact_tombstones\<close> of \<open>events.py\<close>. A deletion removes
  the row and its replay watermark, appends one \<open>memory.deleted\<close> event and leaves a tombstone with
  that event's sequence number; under an idempotency key it also records its outcome in the operation
  ledger, from which a retry is answered. Compaction drops tombstones that no replay can need any more.
  A failed operation returns no store: the code rolls its transaction back.
\<close>

section \<open>Idempotency keys\<close>

text \<open>
  What the process supplies: the ids of the events to be written (\<open>uuid4().hex\<close>), the clock, and the
  time the database stamps a ledger row with.
\<close>

record env =
  en_event_id :: string
  en_signal_id :: string
  en_now :: string
  en_db_now :: string
  en_fresh_id :: string

definition clean_key :: "string option \<Rightarrow> string" where
  "clean_key key = strip (case key of None \<Rightarrow> [] | Some k \<Rightarrow> k)"

definition spec_digest :: "dict \<Rightarrow> string" where
  "spec_digest spec = sha256_hex (dumps_sorted (JObj spec))"

text \<open>The namespace under which an earlier outcome is looked up first.\<close>

definition probe_namespace :: "string \<Rightarrow> store \<Rightarrow> string" where
  "probe_namespace m s = (case get_memory m s of
     Some r \<Rightarrow> str_or_empty r ''namespace''
   | None \<Rightarrow> (case get_tombstone m s of Some t \<Rightarrow> ts_namespace t | None \<Rightarrow> []))"

definition earlier_operation :: "string \<Rightarrow> string \<Rightarrow> string \<Rightarrow> store \<Rightarrow> ledger_entry option" where
  "earlier_operation caller key m s = (case get_operation_ledger (caller, probe_namespace m s, key) s of
     Some e \<Rightarrow> Some e
   | None \<Rightarrow> get_operation_ledger_for_memory caller key m s)"

definition cached_outcome :: "string \<Rightarrow> ledger_entry \<Rightarrow> dict db_res" where
  "cached_outcome digest e =
     (if le_request_hash e \<noteq> digest then Inl (DbPy ValueError)
      else case loads (le_response e) of
        None \<Rightarrow> Inl (DbPy ValueError)
      | Some (JObj d) \<Rightarrow> Inr (AList.update ''idempotent_replay'' (JBool True) d)
      | Some v \<Rightarrow> Inl (DbPy TypeError))"

text \<open>\<open>None\<close> where the operation has still to be done.\<close>

definition earlier_outcome :: "string \<Rightarrow> string \<Rightarrow> string \<Rightarrow> string \<Rightarrow> store \<Rightarrow> dict option db_res" where
  "earlier_outcome caller key m digest s =
     (if key = [] then Inr None
      else case earlier_operation caller key m s of
        None \<Rightarrow> Inr None
      | Some e \<Rightarrow> rbind (cached_outcome digest e) (\<lambda>d. Inr (Some d)))"

definition record_outcome :: "string \<Rightarrow> string \<Rightarrow> ledger_entry \<Rightarrow> dict \<Rightarrow> store \<Rightarrow> store" where
  "record_outcome key db_now e outcome s =
     (if key = [] then s
      else put_operation_ledger (e\<lparr>le_key := key, le_response := dumps_sorted (JObj outcome), le_created_at := db_now\<rparr>) s)"

section \<open>Deletion\<close>

record delete_args =
  da_reason :: string
  da_deleted_at :: "string option"
  da_occurred_at :: "string option"
  da_key :: "string option"
  da_caller :: string

definition delete_spec :: "string \<Rightarrow> string \<Rightarrow> dict" where
  "delete_spec m reason =
     [(''op'', JStr ''delete_memory_record''), (''memory_id'', JStr m), (''reason'', JStr reason)]"

definition tombstone_of :: "string \<Rightarrow> dict \<Rightarrow> dict \<Rightarrow> string \<Rightarrow> string \<Rightarrow> event \<Rightarrow> string \<Rightarrow> tombstone" where
  "tombstone_of m row origin fingerprint ts ev reason =
     \<lparr>ts_memory = m, ts_namespace = str_or_empty row ''namespace'', ts_identifier = str_or_empty row ''identifier'',
      ts_content_hash = str_or_empty row ''content_hash'', ts_fingerprint = fingerprint, ts_deleted_at = ts,
      ts_seq = pe_seq ev, ts_event_id = pe_id ev, ts_mount = str_or_empty origin ''mount_id'',
      ts_replica = str_or_empty origin ''replica_id'', ts_history = str_or_empty origin ''history_id'',
      ts_metadata = py_str (get_or row ''metadata_json'' (JStr ''{}'')),
      ts_tags = py_str (get_or row ''tags'' (JStr ''[]'')), ts_reason = reason\<rparr>"

definition delete_outcome :: "string \<Rightarrow> dict \<Rightarrow> string \<Rightarrow> string \<Rightarrow> event \<Rightarrow> dict" where
  "delete_outcome m row fingerprint ts ev =
     [(''memory_id'', JStr m), (''namespace'', JStr (str_or_empty row ''namespace'')),
      (''identifier'', JStr (str_or_empty row ''identifier'')),
      (''content_hash'', JStr (str_or_empty row ''content_hash'')), (''record_fingerprint'', JStr fingerprint),
      (''deleted_at'', JStr ts), (''deleted_at_seq'', JInt (pe_seq ev)), (''delete_event_id'', JStr (pe_id ev)),
      (''event'', JObj (event_to_dict ev)), (''idempotent_replay'', JBool False)]"

definition delete_row :: "env \<Rightarrow> string \<Rightarrow> delete_args \<Rightarrow> string \<Rightarrow> dict \<Rightarrow> store \<Rightarrow> (store \<times> dict) db_res" where
  "delete_row env m a digest row s =
     (let key = clean_key (da_key a); ns = str_or_empty row ''namespace'';
          ts = first_time [da_deleted_at a, da_occurred_at a] (en_now env);
          evt_time = first_time [da_occurred_at a] ts in
      rbind (extract_origin_identity (Some s)) (\<lambda>origin.
      let payload = build_deleted_payload (en_now env) row (Some ts) (Some origin) (Some evt_time) (Some (da_reason a));
          fingerprint = safe_record_fingerprint row in
      rbind (append_event (en_event_id env) (en_now env) ''memory.deleted'' (Some m) ns (JObj payload) (Some evt_time)
          (delete_replay_watermark m (delete_memory_row m s))) (\<lambda>(s1, ev).
      let outcome = delete_outcome m row fingerprint ts ev in
      Inr (record_outcome key (en_db_now env)
             \<lparr>le_caller = da_caller a, le_namespace = ns, le_key = key, le_operation = ''delete_memory_record'',
              le_request_hash = digest, le_memory = m, le_content_hash = str_or_empty row ''content_hash'',
              le_response = [], le_created_at = []\<rparr> outcome
             (record_tombstone (tombstone_of m row origin fingerprint ts ev (da_reason a)) s1), outcome))))"

definition delete_digest :: "string \<Rightarrow> delete_args \<Rightarrow> string" where
  "delete_digest m a = (if clean_key (da_key a) = [] then [] else spec_digest (delete_spec m (da_reason a)))"

definition delete_memory_record :: "env \<Rightarrow> string \<Rightarrow> delete_args \<Rightarrow> store \<Rightarrow> (store \<times> dict) db_res" where
  "delete_memory_record env m a s =
     rbind (earlier_outcome (da_caller a) (clean_key (da_key a)) m (delete_digest m a) s) (\<lambda>earlier.
     case earlier of
       Some outcome \<Rightarrow> Inr (s, outcome)
     | None \<Rightarrow> (case get_memory m s of
         None \<Rightarrow> Inl (DbPy KeyError)
       | Some row \<Rightarrow> delete_row env m a (delete_digest m a) row s))"

section \<open>Compaction\<close>

datatype compact_exn = CompactionError string | CompactionDb db_exn

record compact_args =
  ka_through :: int
  ka_acked :: "int option"
  ka_namespace :: "string option"
  ka_strict :: bool

record compact_result =
  kr_compacted :: nat
  kr_remaining :: nat
  kr_through :: int

definition acked_below :: "int option \<Rightarrow> int \<Rightarrow> bool" where
  "acked_below k n = (case k of None \<Rightarrow> False | Some v \<Rightarrow> v < n)"

definition compact_limits :: "compact_args \<Rightarrow> int \<Rightarrow> compact_exn + int" where
  "compact_limits a trimmed =
     (if ka_strict a \<and> acked_below (ka_acked a) (ka_through a)
      then Inl (CompactionError ''unacknowledged_tombstone_horizon'')
      else if ka_strict a \<and> trimmed < ka_through a
      then Inl (CompactionError ''events_not_trimmed_through_tombstone'')
      else if ka_strict a then Inr (ka_through a)
      else let n = min (ka_through a) trimmed in
        Inr (case ka_acked a of None \<Rightarrow> n | Some k \<Rightarrow> min n k))"

definition check_candidate :: "store \<Rightarrow> tombstone \<Rightarrow> compact_exn + unit" where
  "check_candidate s t =
     (if get_memory (ts_memory t) s \<noteq> None then Inl (CompactionError ''live_record_conflict'')
      else if has_events_at_or_before_seq (ts_seq t) (Some (ts_memory t)) None s
      then Inl (CompactionError ''events_not_trimmed_through_tombstone'')
      else Inr ())"

definition compact_effect :: "compact_args \<Rightarrow> int \<Rightarrow> int \<Rightarrow> tombstone list \<Rightarrow> store \<Rightarrow> store \<times> compact_result" where
  "compact_effect a prev effective candidates s =
     (let mark = (if effective > 0 then max prev effective else prev);
          (s1, removed) = delete_tombstones (map ts_memory candidates) s;
          s2 = (if prev < mark then set_meta ''compacted_tombstones_through_seq'' (int_str mark) s1 else s1) in
      (s2, \<lparr>kr_compacted = removed, kr_remaining = length (list_tombstones (ka_namespace a) s2), kr_through = mark\<rparr>))"

definition compact_tombstones :: "compact_args \<Rightarrow> store \<Rightarrow> compact_exn + store \<times> compact_result" where
  "compact_tombstones a s =
     (if ka_through a < 0 then Inl (CompactionDb (DbPy ValueError))
      else if acked_below (ka_acked a) 0 then Inl (CompactionDb (DbPy ValueError))
      else rbind (map_sum CompactionDb id (event_log_bounds s)) (\<lambda>b.
           rbind (map_sum CompactionDb id (meta_int ''compacted_tombstones_through_seq'' s)) (\<lambda>prev.
           let all = list_tombstones (ka_namespace a) s in
           if \<not> list_ex (\<lambda>t. ts_seq t \<le> ka_through a) all
           then Inr (s, \<lparr>kr_compacted = 0, kr_remaining = length all, kr_through = prev\<rparr>)
           else rbind (compact_limits a (lb_trimmed b)) (\<lambda>effective.
             let candidates = filter (\<lambda>t. ts_seq t \<le> effective) all in
             rbind (traverse (check_candidate s) candidates) (\<lambda>_.
             Inr (compact_effect a prev effective candidates s))))))"

section \<open>What a deletion does\<close>

lemma get_memory_deleted: "get_memory k (delete_memory_row m s) = (if k = m then None else get_memory k s)"
  by (simp add: get_memory_def delete_memory_row_def find_key_remove)

lemma record_outcome_frame [simp]:
  "get_memory k (record_outcome key at e d s) = get_memory k s"
  "get_tombstone k (record_outcome key at e d s) = get_tombstone k s"
  "get_replay_watermark k (record_outcome key at e d s) = get_replay_watermark k s"
  "st_events (record_outcome key at e d s) = st_events s"
  "st_last_seq (record_outcome key at e d s) = st_last_seq s"
  "st_meta (record_outcome key at e d s) = st_meta s"
  by (simp_all add: record_outcome_def put_operation_ledger_def read_defs)

lemma record_outcome_inv: "store_inv s \<Longrightarrow> store_inv (record_outcome key at e d s)"
  by (simp add: record_outcome_def side_tables_inv)

lemma delete_row_result:
  assumes "delete_row env m a digest row s = Inr (s', outcome)"
  obtains origin s1 ev p where
    "append_event (en_event_id env) (en_now env) ''memory.deleted'' (Some m) (str_or_empty row ''namespace'') p
       (Some (first_time [da_occurred_at a] (first_time [da_deleted_at a, da_occurred_at a] (en_now env))))
       (delete_replay_watermark m (delete_memory_row m s)) = Inr (s1, ev)"
    "outcome = delete_outcome m row (safe_record_fingerprint row)
       (first_time [da_deleted_at a, da_occurred_at a] (en_now env)) ev"
    "s' = record_outcome (clean_key (da_key a)) (en_db_now env)
       \<lparr>le_caller = da_caller a, le_namespace = str_or_empty row ''namespace'', le_key = clean_key (da_key a),
        le_operation = ''delete_memory_record'', le_request_hash = digest, le_memory = m,
        le_content_hash = str_or_empty row ''content_hash'', le_response = [], le_created_at = []\<rparr> outcome
       (record_tombstone (tombstone_of m row origin (safe_record_fingerprint row)
          (first_time [da_deleted_at a, da_occurred_at a] (en_now env)) ev (da_reason a)) s1)"
  using assms by (auto simp: delete_row_def Let_def rbind_eq_Inr)

lemma delete_memory_result:
  assumes "delete_memory_record env m a s = Inr (s', outcome)"
    "earlier_outcome (da_caller a) (clean_key (da_key a)) m (delete_digest m a) s = Inr None"
  obtains row where "get_memory m s = Some row" "delete_row env m a (delete_digest m a) row s = Inr (s', outcome)"
  using assms by (auto simp: delete_memory_record_def split: option.splits)

lemma deleted_row_inv:
  assumes "store_inv s" "delete_row env m a digest row s = Inr (s', outcome)"
  shows "store_inv s'"
  by (rule delete_row_result [OF assms(2)])
    (auto intro!: record_outcome_inv side_tables_inv delete_row_inv assms(1) elim: append_event_inv [rotated])

lemma delete_memory_inv:
  assumes "store_inv s" "delete_memory_record env m a s = Inr (s', outcome)"
  shows "store_inv s'"
  using assms by (auto simp: delete_memory_record_def rbind_eq_Inr split: option.splits intro: deleted_row_inv)

text \<open>A deletion is atomic and complete: the record and its watermark are gone, exactly one
  \<open>memory.deleted\<close> event is appended under a fresh sequence number, the tombstone names that event
  and the deleted content, and no other record, tombstone or watermark changes.
\<close>

theorem delete_effect:
  assumes "delete_memory_record env m a s = Inr (s', outcome)"
    and "earlier_outcome (da_caller a) (clean_key (da_key a)) m (delete_digest m a) s = Inr None"
  shows "\<exists>row e t. get_memory m s = Some row \<and> get_memory m s' = None \<and> get_replay_watermark m s' = None
    \<and> st_events s' = st_events s @ [e] \<and> ev_seq e = st_last_seq s + 1 \<and> st_last_seq s' = ev_seq e
    \<and> ev_type e = ''memory.deleted'' \<and> ev_memory e = Some m \<and> ev_id e \<notin> ev_id ` set (st_events s)
    \<and> get_tombstone m s' = Some t \<and> ts_seq t = ev_seq e \<and> ts_event_id t = ev_id e
    \<and> ts_content_hash t = str_or_empty row ''content_hash'' \<and> ts_fingerprint t = safe_record_fingerprint row
    \<and> (\<forall>k. k \<noteq> m \<longrightarrow> get_memory k s' = get_memory k s \<and> get_tombstone k s' = get_tombstone k s
        \<and> get_replay_watermark k s' = get_replay_watermark k s)"
proof -
  obtain row where row: "get_memory m s = Some row" and d: "delete_row env m a (delete_digest m a) row s = Inr (s', outcome)"
    by (rule delete_memory_result [OF assms])
  let ?s0 = "delete_replay_watermark m (delete_memory_row m s)"
  obtain origin s1 ev p at ts where ap: "append_event (en_event_id env) (en_now env) ''memory.deleted'' (Some m)
        (str_or_empty row ''namespace'') p at ?s0 = Inr (s1, ev)"
    and s': "\<exists>key db e. s' = record_outcome key db e outcome
      (record_tombstone (tombstone_of m row origin (safe_record_fingerprint row) ts ev (da_reason a)) s1)"
    by (rule delete_row_result [OF d]) blast
  let ?t = "tombstone_of m row origin (safe_record_fingerprint row) ts ev (da_reason a)"
  obtain key db le where s': "s' = record_outcome key db le outcome (record_tombstone ?t s1)" using s' by blast
  obtain e q where e: "s1 = ?s0\<lparr>st_events := st_events ?s0 @ [e], st_last_seq := st_last_seq ?s0 + 1\<rparr>"
    "e = \<lparr>ev_seq = st_last_seq ?s0 + 1, ev_id = en_event_id env, ev_memory = Some m,
       ev_namespace = str_or_empty row ''namespace'', ev_type = ''memory.deleted'',
       ev_at = first_time [at] (en_now env), ev_payload = dumps_sorted (JObj q)\<rparr>"
    "pe_seq ev = st_last_seq ?s0 + 1" "pe_id ev = en_event_id env" "en_event_id env \<notin> ev_id ` set (st_events ?s0)"
    by (rule append_event_result [OF ap]) blast
  have t: "ts_memory ?t = m" by (simp add: tombstone_of_def)
  have "get_tombstone k s' = (if k = m then Some (tombstone_defaults ?t) else get_tombstone k s)" for k
    using tombstones.get_put_same [of ?t s1] tombstones.get_put_other [of k ?t s1] append_event_frame [OF ap]
    by (simp add: s' t)
  moreover have "get_memory k s' = (if k = m then None else get_memory k s)" for k
    using append_event_frame [OF ap] by (simp add: s' get_memory_deleted)
  moreover have "get_replay_watermark k s' = (if k = m then None else get_replay_watermark k s)" for k
    using append_event_frame [OF ap] watermarks.get_remove [of k m "delete_memory_row m s"] by (simp add: s')
  moreover have "st_events s' = st_events s @ [e]" "st_last_seq s' = ev_seq e"
    by (simp_all add: s' e(1)) (simp add: e(2))
  ultimately show ?thesis
    using row e(2-5) by (intro exI [of _ row] exI [of _ e] exI [of _ "tombstone_defaults ?t"])
      (simp add: tombstone_defaults_def tombstone_of_def)
qed

section \<open>Retrying a deletion\<close>

lemma cached_outcome_recorded:
  assumes "storable (JObj outcome)" "le_request_hash e = digest" "le_response e = dumps_sorted (JObj outcome)"
  obtains d where "sort_json (JObj outcome) = JObj d" "cached_outcome digest e = Inr (AList.update ''idempotent_replay'' (JBool True) d)"
proof -
  obtain d where d: "sort_json (JObj outcome) = JObj d" by simp
  have "loads (le_response e) = Some (JObj d)"
    unfolding assms(3) dumps_sorted_def d [symmetric] using assms(1) by (intro loads_sorted separator_plain)
  then show ?thesis using assms(2) by (intro that [OF d]) (simp add: cached_outcome_def)
qed

lemma recorded_operation:
  assumes "key \<noteq> []"
  shows "get_operation_ledger (le_caller e, le_namespace e, key) (record_outcome key db e outcome s)
    = Some (e\<lparr>le_key := key, le_response := dumps_sorted (JObj outcome), le_created_at := db\<rparr>)"
  using assms ledger.get_put_same [of "e\<lparr>le_key := key, le_response := dumps_sorted (JObj outcome), le_created_at := db\<rparr>" s]
  by (simp add: record_outcome_def ledger_key_def)

lemma dget_update: "dget (AList.update k v d) k' = (if k' = k then v else dget d k')"
  by (simp add: dget_def update_conv')

text \<open>A deletion under an idempotency key can be retried safely: once it has succeeded, repeating the
  request with the same key and reason, from any state that still has the ledger and the tombstone,
  changes nothing, appends no second event, and returns the recorded outcome marked as a replay.
\<close>

theorem delete_retry:
  assumes "delete_memory_record env m a s = Inr (s', outcome)"
    and "earlier_outcome (da_caller a) (clean_key (da_key a)) m (delete_digest m a) s = Inr None"
    and "clean_key (da_key a) \<noteq> []" "storable (JObj outcome)"
    and "st_ledger s2 = st_ledger s'" "get_memory m s2 = None" "get_tombstone m s2 = get_tombstone m s'"
    and "da_key b = da_key a" "da_caller b = da_caller a" "da_reason b = da_reason a"
  shows "\<exists>d. delete_memory_record env2 m b s2 = Inr (s2, d) \<and> dget d ''idempotent_replay'' = JBool True
    \<and> (\<forall>k. k \<noteq> ''idempotent_replay'' \<longrightarrow> dget d k = sort_json (dget outcome k))"
proof -
  obtain row where row: "get_memory m s = Some row" and dr: "delete_row env m a (delete_digest m a) row s = Inr (s', outcome)"
    by (rule delete_memory_result [OF assms(1,2)])
  let ?ns = "str_or_empty row ''namespace''" and ?key = "clean_key (da_key a)"
  let ?le = "\<lparr>le_caller = da_caller a, le_namespace = ?ns, le_key = ?key,
    le_operation = ''delete_memory_record'', le_request_hash = delete_digest m a, le_memory = m,
    le_content_hash = str_or_empty row ''content_hash'', le_response = [], le_created_at = []\<rparr>"
  obtain origin s1 ev ts where
    s': "s' = record_outcome ?key (en_db_now env) ?le outcome
       (record_tombstone (tombstone_of m row origin (safe_record_fingerprint row) ts ev (da_reason a)) s1)"
    by (rule delete_row_result [OF dr]) blast
  let ?t = "tombstone_of m row origin (safe_record_fingerprint row) ts ev (da_reason a)"
  have "get_tombstone m s' = Some (tombstone_defaults ?t)"
    using tombstones.get_put_same [of ?t s1] by (simp add: s' tombstone_of_def)
  then have ns: "probe_namespace m s2 = ?ns"
    using assms(6,7) by (simp add: probe_namespace_def tombstone_defaults_def tombstone_of_def)
  obtain e where e: "get_operation_ledger (da_caller a, ?ns, ?key) s' = Some e" "le_request_hash e = delete_digest m a"
    "le_response e = dumps_sorted (JObj outcome)"
    using recorded_operation [OF assms(3), of ?le "en_db_now env" outcome] unfolding s' by simp
  have "earlier_operation (da_caller a) ?key m s2 = Some e"
    using e(1) assms(5) by (simp add: earlier_operation_def ns get_operation_ledger_def)
  moreover obtain d where d: "sort_json (JObj outcome) = JObj d"
    "cached_outcome (delete_digest m a) e = Inr (AList.update ''idempotent_replay'' (JBool True) d)"
    by (rule cached_outcome_recorded [OF assms(4) e(2,3)])
  moreover have "delete_digest m b = delete_digest m a" by (simp add: delete_digest_def assms(8,10))
  ultimately have "delete_memory_record env2 m b s2 = Inr (s2, AList.update ''idempotent_replay'' (JBool True) d)"
    by (simp add: delete_memory_record_def earlier_outcome_def assms(3,8,9))
  moreover have "dget d k = sort_json (dget outcome k)" for k
  proof -
    have "dget outcome k = JNull" if "k \<notin> fst ` set outcome"
      using map_of_eq_None_iff [THEN iffD2, OF that] by (simp add: dget_def)
    then show ?thesis using dget_sort_json [OF _ d(1), of k] assms(4) by simp
  qed
  ultimately show ?thesis by (simp add: dget_update)
qed

section \<open>Compaction is safe\<close>

lemma fold_delete_tombstone_frame [simp]:
  "st_memories (fold delete_tombstone ms s) = st_memories s" "st_events (fold delete_tombstone ms s) = st_events s"
  "st_meta (fold delete_tombstone ms s) = st_meta s" "st_last_seq (fold delete_tombstone ms s) = st_last_seq s"
  by (induction ms arbitrary: s) (simp_all add: delete_tombstone_def)

lemma delete_tombstones_frame [simp]:
  "st_memories (fst (delete_tombstones ids s)) = st_memories s" "st_events (fst (delete_tombstones ids s)) = st_events s"
  "st_meta (fst (delete_tombstones ids s)) = st_meta s" "st_last_seq (fst (delete_tombstones ids s)) = st_last_seq s"
  by (simp_all add: delete_tombstones_def Let_def)

lemma get_delete_tombstones:
  "get_tombstone m (fst (delete_tombstones ids s)) = (if m \<in> set ids \<and> m \<noteq> [] then None else get_tombstone m s)"
  by (simp add: delete_tombstones_def Let_def tombstones.get_fold_remove)

lemma set_list_tombstones: "set (list_tombstones ns s) = {t \<in> set (st_tombstones s). when_given ns (\<lambda>n. ts_namespace t = n)}"
  by (auto simp: list_tombstones_def)

lemma compact_limits_bound: "compact_limits a trimmed = Inr n \<Longrightarrow> n \<le> trimmed"
  by (auto simp: compact_limits_def Let_def split: if_splits option.splits)

text \<open>Either nothing was to be done, or the limits and every candidate were checked.\<close>

lemma compact_cases:
  assumes "compact_tombstones a s = Inr (s', r)"
  obtains (nothing) "s' = s"
  | (work) b prev n where "event_log_bounds s = Inr b" "meta_int ''compacted_tombstones_through_seq'' s = Inr prev"
      "n \<le> lb_trimmed b" "\<forall>t \<in> set (list_tombstones (ka_namespace a) s). ts_seq t \<le> n \<longrightarrow> check_candidate s t = Inr ()"
      "(s', r) = compact_effect a prev n (filter (\<lambda>t. ts_seq t \<le> n) (list_tombstones (ka_namespace a) s)) s"
proof -
  obtain b prev where b: "event_log_bounds s = Inr b" and p: "meta_int ''compacted_tombstones_through_seq'' s = Inr prev"
    using assms by (cases "event_log_bounds s"; cases "meta_int ''compacted_tombstones_through_seq'' s")
      (simp_all add: compact_tombstones_def rbind_def split: if_splits)
  let ?all = "list_tombstones (ka_namespace a) s"
  show ?thesis
  proof (cases "list_ex (\<lambda>t. ts_seq t \<le> ka_through a) ?all")
    case False
    then have "s' = s" using assms by (auto simp: compact_tombstones_def b p split: if_splits)
    then show ?thesis by (rule nothing)
  next
    case True
    then obtain n where n: "compact_limits a (lb_trimmed b) = Inr n"
      "\<exists>u. traverse (check_candidate s) (filter (\<lambda>t. ts_seq t \<le> n) ?all) = Inr u"
      "(s', r) = compact_effect a prev n (filter (\<lambda>t. ts_seq t \<le> n) ?all) s"
      using assms by (auto simp: compact_tombstones_def b p rbind_eq_Inr Let_def split: if_splits)
    then have "\<forall>t \<in> set ?all. ts_seq t \<le> n \<longrightarrow> check_candidate s t = Inr ()"
      by (simp add: traverse_unit_iff)
    then show ?thesis using b p n compact_limits_bound by (intro work) auto
  qed
qed

lemma compact_inv:
  assumes "store_inv s" "compact_tombstones a s = Inr (s', r)"
  shows "store_inv s'"
  using assms(2)
proof (cases rule: compact_cases)
  case (work b prev n)
  let ?ids = "map ts_memory (filter (\<lambda>t. ts_seq t \<le> n) (list_tombstones (ka_namespace a) s))"
  let ?s1 = "fst (delete_tombstones ?ids s)"
  have i: "store_inv ?s1" using assms(1) by (rule delete_tombstones_inv)
  have "meta_int k ?s1 = meta_int k s" for k by (rule meta_int_cong) (simp add: get_meta_def)
  then have t: "meta_int ''trimmed_through_seq'' ?s1 = Inr (lb_trimmed b)"
    using event_log_bounds_Inr [OF work(1)] by simp
  have "0 \<le> prev" "prev \<le> lb_trimmed b" using bounds_inv [OF assms(1) work(1)] work(2) by auto
  then have "store_inv (set_meta ''compacted_tombstones_through_seq'' (int_str (max prev n)) ?s1)"
    using work(3) by (intro advance_compaction_inv [OF i t]) auto
  moreover have "s' = ?s1 \<or> s' = set_meta ''compacted_tombstones_through_seq'' (int_str (max prev n)) ?s1"
    using work(5) by (auto simp: compact_effect_def Let_def case_prod_beta split: if_splits)
  ultimately show ?thesis using i by auto
qed (use assms(1) in simp)

lemma accepted_past_compaction:
  assumes "store_inv s" "validate_source target q raw s = Inr c" "wf_cursor c"
  shows "\<exists>k. meta_int ''compacted_tombstones_through_seq'' s = Inr k \<and> k \<le> rc_seq c"
proof -
  from assms(2) obtain b k where v: "event_log_bounds s = Inr b" "check_window b k c s = Inr ()"
      "meta_int ''compacted_tombstones_through_seq'' s = Inr k"
    unfolding validate_source_Inr by blast
  note bi = bounds_inv [OF assms(1) v(1)]
  have "0 \<le> rc_seq c" using assms(3) by (simp add: wf_cursor_def)
  then show ?thesis using check_window_Inr(1) [OF v(2) bi(2,1)] bi(4) v(3) by auto
qed

text \<open>C9. Compaction cannot resurrect a record: where it has dropped a tombstone, no live record has its id,
  no retained event about the record is as old as the deletion, and every cursor that the source still
  accepts replays only from after the deletion.
\<close>

theorem compaction_never_resurrects:
  assumes "store_inv s" "compact_tombstones a s = Inr (s', r)"
    and "get_tombstone m s = Some t" "get_tombstone m s' = None"
    and "validate_source target q raw s' = Inr c" "wf_cursor c"
  shows "get_memory m s' = None \<and> (\<forall>e \<in> set (st_events s'). ev_memory e = Some m \<longrightarrow> ts_seq t < ev_seq e)
    \<and> ts_seq t \<le> rc_seq c \<and> (\<forall>e \<in> set (replay_events ns (rc_seq c) s'). ts_seq t < pe_seq e)"
  using assms(2)
proof (cases rule: compact_cases)
  case nothing
  then show ?thesis using assms(3,4) by simp
next
  case (work b prev n)
  let ?cs = "filter (\<lambda>t. ts_seq t \<le> n) (list_tombstones (ka_namespace a) s)"
  let ?s1 = "fst (delete_tombstones (map ts_memory ?cs) s)"
  have s': "s' = (if prev < (if n > 0 then max prev n else prev)
      then set_meta ''compacted_tombstones_through_seq'' (int_str (max prev n)) ?s1 else ?s1)"
    using work(5) by (auto simp: compact_effect_def Let_def case_prod_beta split: if_splits)
  have "get_tombstone m s' = get_tombstone m ?s1" by (simp add: s')
  then have "m \<in> set (map ts_memory ?cs)" using assms(3,4) by (simp add: get_delete_tombstones split: if_splits)
  then obtain u where u: "u \<in> set (list_tombstones (ka_namespace a) s)" "ts_seq u \<le> n" "ts_memory u = m" by auto
  have "keys_distinct ts_memory (st_tombstones s)" using assms(1) by (simp add: store_inv_def tables_inv_def)
  then have "u = t" using u(1,3) assms(3) by (auto simp: get_tombstone_def set_list_tombstones find_key_Some_iff keys_distinct_def distinct_map inj_on_def)
  with u work(4) have t: "check_candidate s t = Inr ()" "ts_seq t \<le> n" "ts_memory t = m" by auto
  have inv: "store_inv s'" by (rule compact_inv [OF assms(1,2)])
  obtain k where k: "meta_int ''compacted_tombstones_through_seq'' s' = Inr k" "k \<le> rc_seq c"
    using accepted_past_compaction [OF inv assms(5,6)] by blast
  have "meta_int k ?s1 = meta_int k s" for k by (rule meta_int_cong) (simp add: get_meta_def)
  then have "n \<le> 0 \<or> n \<le> k" using k(1) work(2) by (auto simp: s' split: if_splits)
  then have seq: "ts_seq t \<le> rc_seq c" using t(2) k(2) assms(6) by (auto simp: wf_cursor_def)
  have "get_memory m s' = None" "\<forall>e \<in> set (st_events s'). ev_memory e = Some m \<longrightarrow> ts_seq t < ev_seq e"
    using t(1) by (auto simp: s' get_memory_def check_candidate_def t(3) has_events_at_or_before_seq_def
      when_given_def not_le split: if_splits)
  moreover have "\<forall>e \<in> set (replay_events ns (rc_seq c) s'). rc_seq c < pe_seq e"
  proof -
    have "log_inv s'" using inv by (simp add: store_inv_def)
    then have "replay_events ns (rc_seq c) s' = map row_to_event (filter (after_filter ns (rc_seq c)) (st_events s'))"
      by (rule replay_events_all)
    then show ?thesis by (auto simp: row_to_event_def after_filter_def)
  qed
  ultimately show ?thesis using seq by fastforce
qed

section \<open>Deletions that succeed\<close>

lemma stored_deleted_payload:
  "stored_payload ty t (JObj (build_deleted_payload now row d (Some origin) (Some at) reason)) s
    = Inr (build_deleted_payload now row d (Some origin) (Some at) reason)"
proof -
  have "has_key (build_deleted_payload now row d (Some origin) (Some at) reason) k" if "k \<in> {''origin'', ''occurred_at''}" for k
    using that by (auto simp: build_deleted_payload_def envelope_fields_def has_key_def)
  then show ?thesis by (simp add: stored_payload_def Let_def add_missing_def)
qed

lemma delete_memory_total:
  assumes "get_memory m s = Some row" "earlier_outcome (da_caller a) (clean_key (da_key a)) m (delete_digest m a) s = Inr None"
    and "extract_origin_identity (Some s) = Inr origin" "en_event_id env \<notin> ev_id ` set (st_events s)"
  obtains s' ev where
    "delete_memory_record env m a s = Inr (s', delete_outcome m row (safe_record_fingerprint row)
       (first_time [da_deleted_at a, da_occurred_at a] (en_now env)) ev)"
    "ev = \<lparr>pe_seq = st_last_seq s + 1, pe_id = en_event_id env, pe_memory = Some m,
       pe_namespace = str_or_empty row ''namespace'', pe_type = ''memory.deleted'',
       pe_at = first_time [Some (first_time [da_occurred_at a] (first_time [da_deleted_at a, da_occurred_at a] (en_now env)))] (en_now env),
       pe_payload = JObj (build_deleted_payload (en_now env) row (Some (first_time [da_deleted_at a, da_occurred_at a] (en_now env)))
         (Some origin) (Some (first_time [da_occurred_at a] (first_time [da_deleted_at a, da_occurred_at a] (en_now env))))
         (Some (da_reason a)))\<rparr>"
  using assms
  by (simp add: delete_memory_record_def delete_row_def append_event_def append_row_def stored_deleted_payload Let_def
      delete_replay_watermark_def delete_memory_row_def)

definition delete_example :: store where
  "delete_example = empty_store\<lparr>st_memories := [log_row]\<rparr>"

definition delete_env :: env where
  "delete_env = \<lparr>en_event_id = ''e1'', en_signal_id = ''e2'', en_now = ''2026-01-01'', en_db_now = ''2026-01-01'', en_fresh_id = ''f''\<rparr>"

definition delete_request :: delete_args where
  "delete_request = \<lparr>da_reason = ''old'', da_deleted_at = None, da_occurred_at = None, da_key = Some ''k'', da_caller = ''local''\<rparr>"

lemma delete_example_facts:
  "get_memory ''x'' delete_example = Some log_row"
  "earlier_outcome (da_caller delete_request) (clean_key (da_key delete_request)) ''x'' d delete_example = Inr None"
  "extract_origin_identity (Some delete_example) = Inr [(''mount_id'', JStr []), (''replica_id'', JStr []),
     (''history_id'', JStr []), (''runtime_generation'', JStr [])]"
  "en_event_id delete_env \<notin> ev_id ` set (st_events delete_example)" "clean_key (da_key delete_request) \<noteq> []"
  "st_last_seq delete_example = 0"
proof -
  show "get_memory ''x'' delete_example = Some log_row"
    "extract_origin_identity (Some delete_example) = Inr [(''mount_id'', JStr []), (''replica_id'', JStr []),
       (''history_id'', JStr []), (''runtime_generation'', JStr [])]"
    "en_event_id delete_env \<notin> ev_id ` set (st_events delete_example)" "clean_key (da_key delete_request) \<noteq> []"
    "st_last_seq delete_example = 0"
    by code_simp+
  show "earlier_outcome (da_caller delete_request) (clean_key (da_key delete_request)) ''x'' d delete_example = Inr None"
    by (simp add: earlier_outcome_def earlier_operation_def get_operation_ledger_def get_operation_ledger_for_memory_def
      delete_example_def empty_store_def)
qed

lemma delete_effect_witness:
  "\<exists>s' outcome t. delete_memory_record delete_env ''x'' delete_request delete_example = Inr (s', outcome)
    \<and> get_memory ''x'' s' = None \<and> get_tombstone ''x'' s' = Some t \<and> ts_seq t = 1"
proof -
  obtain s' outcome where d: "delete_memory_record delete_env ''x'' delete_request delete_example = Inr (s', outcome)"
    by (rule delete_memory_total [OF delete_example_facts(1-4)])
  from delete_effect [OF d delete_example_facts(2)] d show ?thesis by (auto simp: delete_example_facts(6))
qed

lemma delete_example_outcome:
  obtains s' outcome where "delete_memory_record delete_env ''x'' delete_request delete_example = Inr (s', outcome)"
    "storable (JObj outcome)"
proof -
  have e: "en_now delete_env = ''2026-01-01''" "en_event_id delete_env = ''e1''" "da_reason delete_request = ''old''"
    "first_time [da_deleted_at delete_request, da_occurred_at delete_request] ''2026-01-01'' = ''2026-01-01''"
    "first_time [da_occurred_at delete_request] ''2026-01-01'' = ''2026-01-01''"
    "first_time [Some ''2026-01-01''] ''2026-01-01'' = ''2026-01-01''" "str_or_empty log_row ''namespace'' = ''x''"
    "st_last_seq delete_example + 1 = 1"
    by code_simp+
  obtain s' ev where d: "delete_memory_record delete_env ''x'' delete_request delete_example =
      Inr (s', delete_outcome ''x'' log_row (safe_record_fingerprint log_row) ''2026-01-01'' ev)"
    and ev: "ev = \<lparr>pe_seq = 1, pe_id = ''e1'', pe_memory = Some ''x'', pe_namespace = ''x'', pe_type = ''memory.deleted'',
       pe_at = ''2026-01-01'', pe_payload = JObj (build_deleted_payload ''2026-01-01'' log_row (Some ''2026-01-01'')
         (Some [(''mount_id'', JStr []), (''replica_id'', JStr []), (''history_id'', JStr []), (''runtime_generation'', JStr [])])
         (Some ''2026-01-01'') (Some ''old''))\<rparr>"
    by (rule delete_memory_total [OF delete_example_facts(1-4), unfolded e])
  have f: "ascii (safe_record_fingerprint log_row)" by (rule safe_fingerprint_ascii)
  have x: "str_or_empty log_row ''namespace'' = ''x''" "str_or_empty log_row ''identifier'' = ''x''"
    "str_or_empty log_row ''content_hash'' = ''x''" "str_or_empty log_row ''id'' = ''x''" by code_simp+
  have "storable (JObj (delete_outcome ''x'' log_row (safe_record_fingerprint log_row) ''2026-01-01'' ev))"
    by (simp add: delete_outcome_def event_to_dict_def ev build_deleted_payload_def x f envelope_fields_def reason_field_def
      opt_str_def is_reconstructing_event_def classify_event_def first_time_def)
  then show ?thesis using d by (rule that [rotated])
qed

lemma delete_retry_witness:
  "\<exists>s' outcome d. delete_memory_record delete_env ''x'' delete_request delete_example = Inr (s', outcome)
    \<and> delete_memory_record delete_env ''x'' delete_request s' = Inr (s', d) \<and> dget d ''idempotent_replay'' = JBool True"
proof -
  obtain s' outcome where d: "delete_memory_record delete_env ''x'' delete_request delete_example = Inr (s', outcome)"
    "storable (JObj outcome)" by (rule delete_example_outcome)
  obtain row where "delete_row delete_env ''x'' delete_request (delete_digest ''x'' delete_request) row delete_example = Inr (s', outcome)"
    by (rule delete_memory_result [OF d(1) delete_example_facts(2)])
  then have "get_memory ''x'' s' = None"
    by (rule delete_row_result) (simp add: append_event_frame get_memory_deleted)
  from delete_retry [OF d(1) delete_example_facts(2) delete_example_facts(5) d(2) refl this refl refl refl refl] d(1)
  show ?thesis by blast
qed

text \<open>A log trimmed past the deletion of \<open>gone\<close>, with its tombstone.\<close>

definition gone_tombstone :: tombstone where
  "gone_tombstone = \<lparr>ts_memory = ''gone'', ts_namespace = ''x'', ts_identifier = ''i'', ts_content_hash = ''h'',
     ts_fingerprint = ''f'', ts_deleted_at = ''2026-01-01'', ts_seq = 2, ts_event_id = ''e2'', ts_mount = ''m'',
     ts_replica = ''r'', ts_history = ''h'', ts_metadata = ''{}'', ts_tags = ''[]'', ts_reason = ''old''\<rparr>"

definition compact_request :: compact_args where
  "compact_request = \<lparr>ka_through = 2, ka_acked = None, ka_namespace = None, ka_strict = True\<rparr>"

definition trimmed_store :: store where
  "trimmed_store = (case trim_events_before_seq 3 (record_tombstone gone_tombstone cursor_store) of Inr (s, k) \<Rightarrow> s | Inl e \<Rightarrow> empty_store)"

definition compacted_store :: store where
  "compacted_store = (case compact_tombstones compact_request trimmed_store of Inr (s, r) \<Rightarrow> s | Inl e \<Rightarrow> empty_store)"

lemma compaction_never_resurrects_witness:
  "get_tombstone ''gone'' trimmed_store = Some gone_tombstone \<and> get_tombstone ''gone'' compacted_store = None
    \<and> list_all (\<lambda>e. 2 < pe_seq e) (replay_events None 3 compacted_store)"
proof -
  have "store_inv trimmed_store"
    by (simp add: trimmed_store_def empty_store_inv split: sum.splits) (blast intro: trim_before_inv side_tables_inv cursor_store_inv)
  moreover have "\<not> isl (compact_tombstones compact_request trimmed_store)" by code_simp
  then obtain r where "compact_tombstones compact_request trimmed_store = Inr (compacted_store, r)"
    unfolding compacted_store_def by (cases "compact_tombstones compact_request trimmed_store") auto
  moreover have g: "get_tombstone ''gone'' trimmed_store = Some gone_tombstone" "get_tombstone ''gone'' compacted_store = None"
    by code_simp+
  moreover have v: "validate_source None plain_request (CursorObject head_cursor) compacted_store = Inr head_cursor" by code_simp
  ultimately show ?thesis
    using compaction_never_resurrects [OF _ _ _ _ v make_cursor_wf [OF head_cursor_facts(3)], of trimmed_store compact_request _ "''gone''" gone_tombstone None]
    by (auto simp: gone_tombstone_def head_cursor_def list_all_iff)
qed

end
