(* ===== verification/Update.thy ===== *)
theory Update
  imports Deletion
begin

text \<open>
  \<open>update_memory_record\<close> of \<open>events.py\<close>: the new column values from the arguments and the
  present row, the identity digest, the uniqueness check, validation of the result, the replacement of
  the row together with its \<open>memory.updated\<close> event, an optional signal event, the replay watermark
  and the ledger entry of an idempotency key. The embedding model is an argument.
\<close>

section \<open>Arguments\<close>

text \<open>
  \<open>None\<close> is \<open>JNull\<close>; an argument whose default is the marker \<open>_UNSET\<close> is an option.
  An embedder gives the packed vector of a text, its dimension and its key.
\<close>

record embedder =
  eb_pack :: "string \<Rightarrow> py_exn + string"
  eb_dim :: int
  eb_key :: string

record update_args =
  ua_identifier :: json
  ua_fact_text :: json
  ua_importance :: json
  ua_metadata :: json
  ua_source :: json
  ua_ttl :: "json option"
  ua_tier :: json
  ua_promotion_state :: json
  ua_promotion_candidate :: json
  ua_parent_memory :: json
  ua_related_memories :: json
  ua_tags :: json
  ua_schema_version :: json
  ua_fact_summary :: "json option"
  ua_provenance :: "json option"
  ua_snapshot_id :: json
  ua_source_uri :: json
  ua_source_format :: json
  ua_source_checksum :: json
  ua_byte_offset :: "json option"
  ua_byte_length :: "json option"
  ua_base_dir :: "string option"
  ua_updated_at :: "string option"
  ua_occurred_at :: "string option"
  ua_reason :: "string option"
  ua_signal_type :: "string option"
  ua_signal_payload :: json
  ua_embedder :: "embedder option"
  ua_key :: "string option"
  ua_caller :: string

definition no_change :: update_args where
  "no_change = \<lparr>ua_identifier = JNull, ua_fact_text = JNull, ua_importance = JNull, ua_metadata = JNull, ua_source = JNull,
     ua_ttl = None, ua_tier = JNull, ua_promotion_state = JNull, ua_promotion_candidate = JNull, ua_parent_memory = JNull,
     ua_related_memories = JNull, ua_tags = JNull, ua_schema_version = JNull, ua_fact_summary = None, ua_provenance = None,
     ua_snapshot_id = JNull, ua_source_uri = JNull, ua_source_format = JNull, ua_source_checksum = JNull,
     ua_byte_offset = None, ua_byte_length = None, ua_base_dir = None, ua_updated_at = None, ua_occurred_at = None,
     ua_reason = None, ua_signal_type = None, ua_signal_payload = JNull, ua_embedder = None, ua_key = None,
     ua_caller = ''local''\<rparr>"

definition unset_null :: "json option \<Rightarrow> json" where
  "unset_null v = (case v of None \<Rightarrow> JNull | Some x \<Rightarrow> x)"

definition update_spec :: "string \<Rightarrow> update_args \<Rightarrow> dict" where
  "update_spec m a =
     [(''op'', JStr ''update_memory_record''), (''memory_id'', JStr m), (''identifier'', ua_identifier a),
      (''fact_text'', ua_fact_text a), (''importance'', ua_importance a), (''metadata'', ua_metadata a),
      (''source'', ua_source a), (''ttl_seconds'', unset_null (ua_ttl a)), (''tier'', ua_tier a),
      (''promotion_state'', ua_promotion_state a), (''promotion_candidate'', ua_promotion_candidate a),
      (''parent_memory'', ua_parent_memory a), (''related_memories'', ua_related_memories a), (''tags'', ua_tags a),
      (''schema_version'', ua_schema_version a), (''fact_summary'', unset_null (ua_fact_summary a)),
      (''provenance'', unset_null (ua_provenance a)), (''snapshot_id'', ua_snapshot_id a),
      (''source_uri'', ua_source_uri a), (''source_format'', ua_source_format a),
      (''source_checksum'', ua_source_checksum a), (''byte_offset'', unset_null (ua_byte_offset a)),
      (''byte_length'', unset_null (ua_byte_length a)), (''base_dir'', opt_str (ua_base_dir a)),
      (''reason'', opt_str (ua_reason a)), (''signal_event_type'', opt_str (ua_signal_type a)),
      (''signal_payload'', ua_signal_payload a)]"

definition update_digest :: "string \<Rightarrow> update_args \<Rightarrow> string" where
  "update_digest m a = (if clean_key (ua_key a) = [] then [] else spec_digest (update_spec m a))"

section \<open>The new values\<close>

text \<open>\<open>str(before.get(c) or d) if v is None else str(v)\<close>, and the variant for JSON columns.\<close>

definition text_or :: "dict \<Rightarrow> string \<Rightarrow> string \<Rightarrow> json \<Rightarrow> string" where
  "text_or row c d v = (if v = JNull then py_str (get_or row c (JStr d)) else py_str v)"

definition json_or :: "dict \<Rightarrow> string \<Rightarrow> string \<Rightarrow> json \<Rightarrow> json" where
  "json_or row c d v = (if v = JNull then JStr (py_str (get_or row c (JStr d))) else serialize_json_column v (JStr d))"

definition unset_or :: "dict \<Rightarrow> string \<Rightarrow> json option \<Rightarrow> json" where
  "unset_or row c v = (case v of None \<Rightarrow> dget row c | Some x \<Rightarrow> x)"

definition new_identifier :: "dict \<Rightarrow> update_args \<Rightarrow> json" where
  "new_identifier row a = (if ua_identifier a = JNull then dget row ''identifier'' else JStr (py_str (ua_identifier a)))"

definition new_fact :: "dict \<Rightarrow> update_args \<Rightarrow> json" where
  "new_fact row a = (if ua_fact_text a = JNull then get_or row ''fact_text'' (JStr []) else JStr (py_str (ua_fact_text a)))"

definition new_summary :: "dict \<Rightarrow> update_args \<Rightarrow> json" where
  "new_summary row a = (case ua_fact_summary a of
     None \<Rightarrow> dget row ''fact_summary''
   | Some v \<Rightarrow> (if v = JNull then JNull else JStr (py_str v)))"

record file_fields =
  ff_uri :: string
  ff_format :: string
  ff_checksum :: string
  ff_offset :: json
  ff_length :: json
  ff_hash :: string

text \<open>\<open>int(v)\<close> where \<open>TypeError\<close> and \<open>ValueError\<close> are turned into one \<open>ValueError\<close>.\<close>

definition int_arg :: "json \<Rightarrow> int db_res" where
  "int_arg v = (case py_int v of
     Inr i \<Rightarrow> Inr i
   | Inl e \<Rightarrow> Inl (DbPy (if e = TypeError then ValueError else e)))"

definition file_identity_changed :: "update_args \<Rightarrow> bool" where
  "file_identity_changed a = (ua_identifier a \<noteq> JNull \<or> ua_source_uri a \<noteq> JNull \<or> ua_source_format a \<noteq> JNull
     \<or> ua_byte_offset a \<noteq> None \<or> ua_byte_length a \<noteq> None)"

definition file_update :: "dict \<Rightarrow> update_args \<Rightarrow> string \<Rightarrow> file_fields db_res" where
  "file_update row a uri =
     (let off = unset_or row ''byte_offset'' (ua_byte_offset a); len = unset_or row ''byte_length'' (ua_byte_length a) in
      if off = JNull \<or> len = JNull then Inl (DbPy ValueError)
      else rbind (int_arg off) (\<lambda>off_int.
        rbind (int_arg len) (\<lambda>len_int.
        if off_int < 0 \<or> len_int < 0 then Inl (DbPy ValueError)
        else rbind (if file_identity_changed a
              then map_sum DbPy id (compute_file_reference_hash (py_str (new_identifier row a)) uri off_int len_int (ua_base_dir a))
              else Inr (str_or_empty row ''content_hash'')) (\<lambda>hash.
        Inr \<lparr>ff_uri = uri, ff_format = text_or row ''source_format'' [] (ua_source_format a),
             ff_checksum = text_or row ''source_checksum'' [] (ua_source_checksum a),
             ff_offset = off, ff_length = len, ff_hash = hash\<rparr>))))"

definition inline_update :: "dict \<Rightarrow> update_args \<Rightarrow> file_fields" where
  "inline_update row a =
     \<lparr>ff_uri = [], ff_format = [], ff_checksum = [], ff_offset = JNull, ff_length = JNull,
      ff_hash = (if ua_identifier a \<noteq> JNull \<or> ua_fact_text a \<noteq> JNull \<or> ua_source_uri a \<noteq> JNull
        then compute_content_hash (py_str (new_identifier row a)) (py_str (new_fact row a))
        else str_or_empty row ''content_hash'')\<rparr>"

definition new_file_fields :: "dict \<Rightarrow> update_args \<Rightarrow> file_fields db_res" where
  "new_file_fields row a =
     (let uri = text_or row ''source_uri'' [] (ua_source_uri a) in
      if uri \<noteq> [] then file_update row a uri else Inr (inline_update row a))"

text \<open>Another record of the namespace may not have the new digest.\<close>

definition check_unique :: "string \<Rightarrow> string \<Rightarrow> string \<Rightarrow> store \<Rightarrow> unit db_res" where
  "check_unique m ns hash s =
     (if hash = [] then Inr ()
      else case find_by_namespace_and_hash ns hash s of
        None \<Rightarrow> Inr ()
      | Some r \<Rightarrow> ensure (py_str (dget r ''id'') = m) (DbPy ValueError))"

definition text_changed :: "dict \<Rightarrow> update_args \<Rightarrow> bool" where
  "text_changed row a =
     ((ua_fact_text a \<noteq> JNull \<and> new_fact row a \<noteq> get_or row ''fact_text'' (JStr []))
      \<or> (ua_fact_summary a \<noteq> None \<and> new_summary row a \<noteq> dget row ''fact_summary''))"

text \<open>The embedding, its dimension and its model.\<close>

definition new_embedding :: "embedder \<Rightarrow> dict \<Rightarrow> update_args \<Rightarrow> (json \<times> int \<times> string) db_res" where
  "new_embedding default_embedder row a =
     (if text_changed row a \<or> ua_embedder a \<noteq> None
      then (let active = (case ua_embedder a of None \<Rightarrow> default_embedder | Some e \<Rightarrow> e);
                text = (if truthy (new_fact row a) then py_str (new_fact row a) else py_str (por (new_summary row a) (JStr []))) in
            if text = [] then Inr (JStr [], 0, [])
            else rbind (map_sum DbPy id (eb_pack active text)) (\<lambda>b. Inr (JStr b, eb_dim active, eb_key active)))
      else rbind (map_sum DbPy id (py_int (get_or row ''embedding_dim'' (JInt 0)))) (\<lambda>dim.
        Inr (get_or row ''embedding'' (JStr []), dim, str_or_empty row ''embedding_model'')))"

definition after_row :: "string \<Rightarrow> dict \<Rightarrow> update_args \<Rightarrow> file_fields \<Rightarrow> json \<times> int \<times> string \<Rightarrow> string \<Rightarrow> pyfloat \<Rightarrow> int \<Rightarrow> dict" where
  "after_row m row a f emb ts imp ver =
     [(''id'', JStr m), (''identifier'', new_identifier row a), (''fact_text'', new_fact row a),
      (''embedding'', fst emb), (''embedding_dim'', JInt (fst (snd emb))), (''embedding_model'', JStr (snd (snd emb))),
      (''source'', JStr (text_or row ''source'' [] (ua_source a))), (''importance'', JFloat imp),
      (''metadata_json'', json_or row ''metadata_json'' ''{}'' (ua_metadata a)), (''content_hash'', JStr (ff_hash f)),
      (''ttl_seconds'', unset_or row ''ttl_seconds'' (ua_ttl a)), (''created_at'', dget row ''created_at''),
      (''namespace'', JStr (str_or_empty row ''namespace'')), (''tier'', JStr (text_or row ''tier'' ''hot'' (ua_tier a))),
      (''memory_type'', JStr (if ff_uri f = [] then ''fact'' else ''file'')), (''source_uri'', JStr (ff_uri f)),
      (''source_format'', JStr (ff_format f)), (''source_checksum'', JStr (ff_checksum f)),
      (''byte_offset'', ff_offset f), (''byte_length'', ff_length f), (''updated_at'', JStr ts),
      (''snapshot_id'', JStr (text_or row ''snapshot_id'' [] (ua_snapshot_id a))),
      (''promotion_state'', JStr (text_or row ''promotion_state'' ''HOT'' (ua_promotion_state a))),
      (''promotion_candidate'', JInt (int_of_bool (if ua_promotion_candidate a = JNull then dget row ''promotion_candidate''
         else ua_promotion_candidate a))),
      (''parent_memory'', JStr (text_or row ''parent_memory'' [] (ua_parent_memory a))),
      (''related_memories'', json_or row ''related_memories'' ''[]'' (ua_related_memories a)),
      (''tags'', json_or row ''tags'' ''[]'' (ua_tags a)), (''schema_version'', JInt ver),
      (''fact_summary'', new_summary row a),
      (''provenance_json'', case ua_provenance a of None \<Rightarrow> dget row ''provenance_json'' | Some v \<Rightarrow> serialize_json_column v JNull)]"

section \<open>The operation\<close>

definition check_record :: "string \<Rightarrow> dict \<Rightarrow> unit db_res" where
  "check_record fresh_id after =
     rbind (map_sum DbRecord id (normalize_record after ''swap'' fresh_id)) (\<lambda>n.
     rbind (map_sum DbPy id (validate_record n)) (\<lambda>errors.
     ensure (errors = []) (DbPy ValueError)))"

text \<open>The record that the update writes, with the file fields that carry its new digest.\<close>

definition updated_values :: "env \<Rightarrow> embedder \<Rightarrow> string \<Rightarrow> update_args \<Rightarrow> dict \<Rightarrow> store \<Rightarrow> (dict \<times> file_fields) db_res" where
  "updated_values env default_embedder m a row s =
     rbind (new_file_fields row a) (\<lambda>f.
     rbind (check_unique m (str_or_empty row ''namespace'') (ff_hash f) s) (\<lambda>_.
     rbind (new_embedding default_embedder row a) (\<lambda>emb.
     rbind (map_sum DbPy id (if ua_importance a = JNull then float_or_half (dget row ''importance'') else py_float (ua_importance a))) (\<lambda>imp.
     rbind (map_sum DbPy id (if ua_schema_version a = JNull then py_int (get_or row ''schema_version'' (JInt 1))
         else py_int (ua_schema_version a))) (\<lambda>ver.
     let after = after_row m row a f emb (first_time [ua_updated_at a, ua_occurred_at a] (en_now env)) imp ver in
     rbind (check_record (en_fresh_id env) after) (\<lambda>_. Inr (after, f)))))))"

definition append_signal :: "env \<Rightarrow> string \<Rightarrow> string \<Rightarrow> update_args \<Rightarrow> string \<Rightarrow> store \<Rightarrow> store db_res" where
  "append_signal env m ns a at s =
     (case ua_signal_type a of
        None \<Rightarrow> Inr s
      | Some ty \<Rightarrow>
          (if ty = [] then Inr s
           else rbind (append_event (en_signal_id env) (en_now env) ty (Some m) ns (JObj (dict_of (ua_signal_payload a))) (Some at) s)
             (\<lambda>(s', ev). Inr s')))"

definition update_outcome :: "string \<Rightarrow> string \<Rightarrow> string \<Rightarrow> dict \<Rightarrow> string \<Rightarrow> event \<Rightarrow> dict" where
  "update_outcome m ns hash payload ts ev =
     [(''memory_id'', JStr m), (''namespace'', JStr ns), (''content_hash'', JStr hash),
      (''record_fingerprint'', dget payload ''record_fingerprint''),
      (''previous_content_hash'', dget_default payload ''previous_content_hash'' (JStr [])),
      (''previous_record_fingerprint'', dget_default payload ''previous_record_fingerprint'' (JStr [])),
      (''updated_at'', JStr ts), (''event'', JObj (event_to_dict ev)), (''idempotent_replay'', JBool False)]"

definition write_update ::
  "env \<Rightarrow> string \<Rightarrow> update_args \<Rightarrow> dict \<Rightarrow> dict \<Rightarrow> string \<Rightarrow> store \<Rightarrow> (store \<times> dict) db_res" where
  "write_update env m a row after hash s =
     (let ns = str_or_empty row ''namespace''; ts = first_time [ua_updated_at a, ua_occurred_at a] (en_now env);
          evt_time = first_time [ua_occurred_at a] ts in
      rbind (extract_origin_identity (Some s)) (\<lambda>origin.
      rbind (map_sum DbPy id (build_updated_payload after (Some row) (Some origin) (Some evt_time) (ua_reason a))) (\<lambda>payload.
      rbind (map_sum DbPy id (event_to_memory_record (JObj payload))) (\<lambda>rec.
      case rec of
        None \<Rightarrow> Inl (DbPy AssertionError)
      | Some vals \<Rightarrow>
          rbind (replace_memory_record vals s) (\<lambda>(s1, found).
          rbind (append_event (en_event_id env) (en_now env) ''memory.updated'' (Some m) ns (JObj payload) (Some evt_time) s1) (\<lambda>(s2, ev).
          rbind (append_signal env m ns a evt_time s2) (\<lambda>s3.
          let s4 = set_replay_watermark \<lparr>wm_memory = m, wm_namespace = ns, wm_content_hash = hash,
                wm_fingerprint = str_of (dget payload ''record_fingerprint''), wm_seq = pe_seq ev, wm_event_id = pe_id ev,
                wm_history = str_of (dget origin ''history_id'')\<rparr> s3;
              outcome = update_outcome m ns hash payload ts ev in
          Inr (record_outcome (clean_key (ua_key a)) (en_db_now env)
                 \<lparr>le_caller = ua_caller a, le_namespace = ns, le_key = clean_key (ua_key a),
                  le_operation = ''update_memory_record'', le_request_hash = update_digest m a, le_memory = m,
                  le_content_hash = hash, le_response = [], le_created_at = []\<rparr> outcome s4, outcome))))))))"

definition update_memory_record ::
  "env \<Rightarrow> embedder \<Rightarrow> string \<Rightarrow> update_args \<Rightarrow> store \<Rightarrow> (store \<times> dict) db_res" where
  "update_memory_record env default_embedder m a s =
     rbind (earlier_outcome (ua_caller a) (clean_key (ua_key a)) m (update_digest m a) s) (\<lambda>earlier.
     case earlier of
       Some outcome \<Rightarrow> Inr (s, outcome)
     | None \<Rightarrow> (case get_memory m s of
         None \<Rightarrow> Inl (DbPy KeyError)
       | Some row \<Rightarrow>
           rbind (updated_values env default_embedder m a row s) (\<lambda>(after, f).
           write_update env m a row after (ff_hash f) s)))"

section \<open>What an update does\<close>

lemma map_sum_Inr [simp]: "map_sum f id x = Inr y \<longleftrightarrow> x = Inr y"
  by (cases x) simp_all

lemma update_result:
  assumes "update_memory_record env de m a s = Inr (s', outcome)"
    "earlier_outcome (ua_caller a) (clean_key (ua_key a)) m (update_digest m a) s = Inr None"
  obtains row after f where "get_memory m s = Some row" "updated_values env de m a row s = Inr (after, f)"
    "write_update env m a row after (ff_hash f) s = Inr (s', outcome)"
  using assms by (auto simp: update_memory_record_def rbind_eq_Inr split: option.splits)

lemma append_signal_result:
  assumes "append_signal env m ns a at s = Inr s'"
  obtains (none) "s' = s"
  | (signal) ty ev where "ua_signal_type a = Some ty" "ty \<noteq> []"
      "append_event (en_signal_id env) (en_now env) ty (Some m) ns (JObj (dict_of (ua_signal_payload a))) (Some at) s = Inr (s', ev)"
  using assms by (auto simp: append_signal_def rbind_eq_Inr split: option.splits if_splits)

lemma append_signal_inv: "store_inv s \<Longrightarrow> append_signal env m ns a at s = Inr s' \<Longrightarrow> store_inv s'"
  by (erule append_signal_result) (auto intro: append_event_inv)

lemma append_signal_frame:
  assumes "append_signal env m ns a at s = Inr s'"
  shows "get_memory k s' = get_memory k s" "get_tombstone k s' = get_tombstone k s"
    "get_replay_watermark k s' = get_replay_watermark k s"
  using append_signal_result [OF assms] append_event_frame by (metis+)

lemma append_signal_events:
  assumes "append_signal env m ns a at s = Inr s'"
  shows "\<exists>sigs. st_events s' = st_events s @ sigs \<and> map ev_type sigs = (case ua_signal_type a of None \<Rightarrow> [] | Some ty \<Rightarrow> if ty = [] then [] else [ty])
    \<and> (\<forall>e \<in> set sigs. ev_memory e = Some m)"
  using assms
  by (auto simp: append_signal_def rbind_eq_Inr split: option.splits if_splits elim!: append_event_result)

lemma write_update_result:
  assumes "write_update env m a row after hash s = Inr (s', outcome)"
  obtains origin payload vals s1 s2 s3 ev found at where
    "build_updated_payload after (Some row) (Some origin) (Some at) (ua_reason a) = Inr payload"
    "event_to_memory_record (JObj payload) = Inr (Some vals)"
    "replace_memory_record vals s = Inr (s1, found)"
    "append_event (en_event_id env) (en_now env) ''memory.updated'' (Some m) (str_or_empty row ''namespace'') (JObj payload) (Some at) s1 = Inr (s2, ev)"
    "append_signal env m (str_or_empty row ''namespace'') a at s2 = Inr s3"
    "outcome = update_outcome m (str_or_empty row ''namespace'') hash payload (first_time [ua_updated_at a, ua_occurred_at a] (en_now env)) ev"
    "s' = record_outcome (clean_key (ua_key a)) (en_db_now env)
       \<lparr>le_caller = ua_caller a, le_namespace = str_or_empty row ''namespace'', le_key = clean_key (ua_key a),
        le_operation = ''update_memory_record'', le_request_hash = update_digest m a, le_memory = m,
        le_content_hash = hash, le_response = [], le_created_at = []\<rparr> outcome
       (set_replay_watermark \<lparr>wm_memory = m, wm_namespace = str_or_empty row ''namespace'', wm_content_hash = hash,
          wm_fingerprint = str_of (dget payload ''record_fingerprint''), wm_seq = pe_seq ev, wm_event_id = pe_id ev,
          wm_history = str_of (dget origin ''history_id'')\<rparr> s3)"
  using assms unfolding write_update_def Let_def rbind_eq_Inr
  by (elim exE conjE) (auto simp: rbind_eq_Inr case_prod_beta split: option.splits)

lemma created_payload_column:
  assumes "build_created_payload r origin at = Inr p"
  shows "\<exists>imp ver. \<forall>c \<in> set PAYLOAD_COLUMNS. map_of p c = Some (created_value r imp ver c)"
proof -
  obtain imp ver rest where p: "p = created_fields r imp ver @ rest"
    using assms by (auto simp: build_created_payload_def rbind_eq_Inr Let_def)
  let ?hdr = "[(''payload_schema_version'', JInt EVENT_PAYLOAD_SCHEMA_VERSION), (''event_category'', JStr ''reconstructing''),
      (''transition'', JStr ''create'')]"
  have keys: "set PAYLOAD_COLUMNS \<inter> {''payload_schema_version'', ''event_category'', ''transition''} = {}" by code_simp
  have "map_of p c = Some (created_value r imp ver c)" if c: "c \<in> set PAYLOAD_COLUMNS" for c
  proof -
    have "c \<notin> {''payload_schema_version'', ''event_category'', ''transition''}" using keys c by blast
    then have "map_of ?hdr c = None" by simp
    then show ?thesis unfolding p created_fields_def append_assoc by (subst map_of_header) (simp_all add: c)
  qed
  then show ?thesis by blast
qed

lemma updated_payload_keeps:
  assumes "build_updated_payload after before origin at reason = Inr p"
    and "k \<notin> {''transition'', ''previous_content_hash'', ''previous_record_fingerprint'', ''reason''}"
  shows "\<exists>p0. build_created_payload after origin at = Inr p0 \<and> map_of p k = map_of p0 k"
  using assms by (auto simp: build_updated_payload_def rbind_eq_Inr reason_field_def map_add_def update_conv'
      split: option.splits if_splits)

lemma updated_payload_id:
  assumes "build_updated_payload after before origin at reason = Inr p" "dget after ''id'' = JStr m"
  shows "dget p ''id'' = JStr m"
proof -
  have n: "''id'' \<notin> {''transition'', ''previous_content_hash'', ''previous_record_fingerprint'', ''reason''}" by simp
  obtain p0 where p0: "build_created_payload after origin at = Inr p0" "map_of p ''id'' = map_of p0 ''id''"
    using updated_payload_keeps [OF assms(1) n] by (elim exE conjE)
  have i: "''id'' \<in> set PAYLOAD_COLUMNS" by code_simp
  obtain imp ver where "map_of p0 ''id'' = Some (created_value after imp ver ''id'')"
    using created_payload_column [OF p0(1)] by (elim exE) (drule bspec [OF _ i], assumption)
  moreover have "created_value after imp ver ''id'' = JStr m"
    using assms(2) by (simp add: created_value_def COPIED_COLUMNS_def dget_default_def dget_def split: option.splits)
  ultimately show ?thesis using p0(2) by (simp add: dget_def)
qed

lemma event_record_updated: "updated_row (event_record p emb imp ver) = event_record p emb imp ver"
proof -
  have "distinct MEMORY_COLUMNS" by code_simp
  then show ?thesis
    by (simp add: updated_row_def event_record_def dget_def map_of_tabulate)
qed

lemma read_record:
  assumes "event_to_memory_record (JObj p) = Inr (Some vals)"
  shows "updated_row vals = vals" "dget vals ''id'' = dget p ''id''"
proof -
  obtain emb imp ver where v: "vals = event_record p emb imp ver"
    using assms by (cases "p = []") (auto simp: event_to_memory_record_def por_def rbind_eq_Inr split: if_splits)
  have "''id'' \<in> set MEMORY_COLUMNS" by code_simp
  then show "updated_row vals = vals" "dget vals ''id'' = dget p ''id''"
    unfolding v by (simp_all add: event_record_updated) (simp add: event_record_def dget_map event_value_def Let_def)
qed

lemma has_key_map: "has_key d k \<longleftrightarrow> map_of d k \<noteq> None"
  by (induction d) (auto simp: has_key_def)

lemma has_key_simps [simp]:
  "has_key ((k', v) # xs) k \<longleftrightarrow> k' = k \<or> has_key xs k"
  "has_key (xs @ ys) k \<longleftrightarrow> has_key xs k \<or> has_key ys k"
  "has_key (AList.update k' v xs) k \<longleftrightarrow> k' = k \<or> has_key xs k"
  by (auto simp: has_key_map map_add_def update_conv' split: option.splits)

lemma stored_full_payload:
  "build_updated_payload after before (Some origin) (Some at) reason = Inr p \<Longrightarrow> stored_payload ty t (JObj p) s = Inr p"
proof -
  assume a: "build_updated_payload after before (Some origin) (Some at) reason = Inr p"
  have "has_key p k" if "k \<in> {''origin'', ''occurred_at''}" for k
  proof -
    have "has_key (envelope_fields (Some origin) (Some at)) k" using that by (auto simp: envelope_fields_def has_key_def)
    then show ?thesis using a by (auto simp: build_updated_payload_def build_created_payload_def Let_def rbind_eq_Inr)
  qed
  then show ?thesis by (simp add: stored_payload_def Let_def add_missing_def)
qed

lemma updated_values_id: "updated_values env de m a row s = Inr (after, f) \<Longrightarrow> dget after ''id'' = JStr m"
  by (auto simp: updated_values_def rbind_eq_Inr Let_def after_row_def dget_def)

lemma get_memory_upsert:
  "row_key r = JStr k' \<Longrightarrow> get_memory k (s\<lparr>st_memories := upsert_row row_key r (st_memories s)\<rparr>)
    = (if k = k' then Some r else get_memory k s)"
  by (auto simp: get_memory_def find_key_upsert)

lemma replace_memory_result:
  assumes "replace_memory_record vals s = Inr (s1, found)" "get_memory m s = Some row"
    and "updated_row vals = vals" "dget vals ''id'' = JStr m"
  shows "s1 = s\<lparr>st_memories := upsert_row row_key vals (st_memories s)\<rparr>"
proof -
  have "JStr m \<in> row_key ` set (st_memories s)"
    using find_key_SomeD [OF assms(2) [unfolded get_memory_def]] by (metis imageI)
  then show ?thesis using assms(1,3,4) by (auto simp: replace_memory_record_def Let_def row_key_def split: if_splits)
qed

lemma write_update_inv: "store_inv s \<Longrightarrow> write_update env m a row after hash s = Inr (s', outcome) \<Longrightarrow> store_inv s'"
  by (erule write_update_result)
    (simp, intro record_outcome_inv side_tables_inv, rule append_signal_inv [OF append_event_inv [OF replace_record_inv]])

lemma update_memory_inv:
  assumes "store_inv s" "update_memory_record env de m a s = Inr (s', outcome)"
  shows "store_inv s'"
  using assms by (auto simp: update_memory_record_def rbind_eq_Inr split: option.splits intro: write_update_inv)

text \<open>An update is atomic and its event is complete: exactly one \<open>memory.updated\<close> event is appended,
  followed only by the requested signal; reading that event's payload gives the very row that is now
  stored; the watermark names the event; and no other record, tombstone or watermark changes.
\<close>

theorem update_effect:
  assumes "update_memory_record env de m a s = Inr (s', outcome)"
    and "earlier_outcome (ua_caller a) (clean_key (ua_key a)) m (update_digest m a) s = Inr None"
  shows "\<exists>row' e sigs q w. get_memory m s \<noteq> None \<and> get_memory m s' = Some row'
    \<and> st_events s' = st_events s @ e # sigs \<and> ev_seq e = st_last_seq s + 1 \<and> ev_type e = ''memory.updated''
    \<and> ev_memory e = Some m \<and> ev_payload e = dumps_sorted (JObj q)
    \<and> event_to_memory_record (JObj q) = Inr (Some row')
    \<and> map ev_type sigs = (case ua_signal_type a of None \<Rightarrow> [] | Some ty \<Rightarrow> if ty = [] then [] else [ty])
    \<and> get_replay_watermark m s' = Some w \<and> wm_seq w = ev_seq e \<and> wm_event_id w = ev_id e
    \<and> (\<forall>k. k \<noteq> m \<longrightarrow> get_memory k s' = get_memory k s \<and> get_replay_watermark k s' = get_replay_watermark k s)
    \<and> (\<forall>k. get_tombstone k s' = get_tombstone k s)"
proof -
  obtain row after f where row: "get_memory m s = Some row" and u: "updated_values env de m a row s = Inr (after, f)"
    and w: "write_update env m a row after (ff_hash f) s = Inr (s', outcome)"
    by (rule update_result [OF assms])
  obtain origin payload vals s1 s2 s3 ev found at le where
    p: "build_updated_payload after (Some row) (Some origin) (Some at) (ua_reason a) = Inr payload"
      "event_to_memory_record (JObj payload) = Inr (Some vals)"
    and r: "replace_memory_record vals s = Inr (s1, found)"
    and ap: "append_event (en_event_id env) (en_now env) ''memory.updated'' (Some m) (str_or_empty row ''namespace'') (JObj payload) (Some at) s1 = Inr (s2, ev)"
    and sg: "append_signal env m (str_or_empty row ''namespace'') a at s2 = Inr s3"
    and s': "s' = record_outcome (clean_key (ua_key a)) (en_db_now env) le outcome
       (set_replay_watermark \<lparr>wm_memory = m, wm_namespace = str_or_empty row ''namespace'', wm_content_hash = ff_hash f,
          wm_fingerprint = str_of (dget payload ''record_fingerprint''), wm_seq = pe_seq ev, wm_event_id = pe_id ev,
          wm_history = str_of (dget origin ''history_id'')\<rparr> s3)"
    by (rule write_update_result [OF w])
  let ?w = "\<lparr>wm_memory = m, wm_namespace = str_or_empty row ''namespace'', wm_content_hash = ff_hash f,
    wm_fingerprint = str_of (dget payload ''record_fingerprint''), wm_seq = pe_seq ev, wm_event_id = pe_id ev,
    wm_history = str_of (dget origin ''history_id'')\<rparr>"
  have v: "updated_row vals = vals" "dget vals ''id'' = JStr m"
    using read_record [OF p(2)] updated_payload_id [OF p(1) updated_values_id [OF u]] by simp_all
  have s1: "s1 = s\<lparr>st_memories := upsert_row row_key vals (st_memories s)\<rparr>"
    by (rule replace_memory_result [OF r row v])
  obtain e q where e: "s2 = s1\<lparr>st_events := st_events s1 @ [e], st_last_seq := st_last_seq s1 + 1\<rparr>"
    "e = \<lparr>ev_seq = st_last_seq s1 + 1, ev_id = en_event_id env, ev_memory = Some m,
       ev_namespace = str_or_empty row ''namespace'', ev_type = ''memory.updated'',
       ev_at = first_time [Some at] (en_now env), ev_payload = dumps_sorted (JObj q)\<rparr>"
    "pe_seq ev = st_last_seq s1 + 1" "pe_id ev = en_event_id env"
    "stored_payload ''memory.updated'' (first_time [Some at] (en_now env)) (JObj payload) s1 = Inr q"
    by (rule append_event_result [OF ap])
  have q: "q = payload" using stored_full_payload [OF p(1)] e(5) by simp
  obtain sigs where sigs: "st_events s3 = st_events s2 @ sigs"
    "map ev_type sigs = (case ua_signal_type a of None \<Rightarrow> [] | Some ty \<Rightarrow> if ty = [] then [] else [ty])"
    using append_signal_events [OF sg] by blast
  have "st_events s' = st_events s @ e # sigs" by (simp add: s' sigs(1) e(1) s1 set_replay_watermark_def)
  moreover have g: "get_memory k s' = (if k = m then Some vals else get_memory k s)"
    "get_tombstone k s' = get_tombstone k s" for k
    using append_signal_frame [OF sg] append_event_frame [OF ap] get_memory_upsert [of vals m k s] v(2)
    by (simp_all add: s' s1 row_key_def) (simp add: get_tombstone_def)
  moreover have "get_replay_watermark k s' = (if k = m then Some ?w else get_replay_watermark k s)" for k
    using watermarks.get_put [of k ?w s3] append_signal_frame [OF sg] append_event_frame [OF ap]
    by (simp add: s' s1) (simp add: get_replay_watermark_def)
  moreover have "ev_seq e = st_last_seq s + 1" "ev_id e = pe_id ev" "pe_seq ev = ev_seq e" by (simp_all add: e s1)
  ultimately show ?thesis
    using row p(2) sigs(2) e(2) by (intro exI [of _ vals] exI [of _ e] exI [of _ sigs] exI [of _ payload] exI [of _ ?w]) (simp add: q)
qed

end
