(* ===== verification/Lifecycle.thy ===== *)
theory Lifecycle
  imports Update "HOL-Library.Product_Lexorder"
begin

text \<open>
  \<open>lifecycle.py\<close>: the promotion state machine HOT, READY, PROMOTED, ARCHIVED over
  \<open>update_memory_record\<close>, and the candidate flag. Also which records an update can reach at all.
\<close>

section \<open>States and transitions\<close>

definition PROMOTION_STATES :: "string list" where
  "PROMOTION_STATES = [''HOT'', ''READY'', ''PROMOTED'', ''ARCHIVED'']"

definition VALID_TRANSITIONS :: "(string \<times> string) list" where
  "VALID_TRANSITIONS = [(''HOT'', ''READY''), (''READY'', ''PROMOTED''), (''PROMOTED'', ''ARCHIVED'')]"

text \<open>\<open>InvalidTransitionError\<close>, and what the update itself raises.\<close>

datatype lifecycle_exn = InvalidTransition string string string | LifecycleDb db_exn

definition error_to_dict :: "string \<Rightarrow> string \<Rightarrow> string \<Rightarrow> dict" where
  "error_to_dict m from_state to_state =
     [(''error'', JStr ''invalid_transition''), (''memory_id'', JStr m), (''from_state'', JStr from_state),
      (''to_state'', JStr to_state),
      (''valid'', JList (map (\<lambda>(a, b). JStr b) (filter (\<lambda>(a, b). a = from_state) VALID_TRANSITIONS)))]"

definition signal_fields :: "dict \<Rightarrow> string option \<Rightarrow> string option \<Rightarrow> dict" where
  "signal_fields d reason actor =
     d @ (case reason of None \<Rightarrow> [] | Some r \<Rightarrow> [(''reason'', JStr r)])
       @ (case actor of None \<Rightarrow> [] | Some a \<Rightarrow> [(''actor'', JStr a)])"

definition transition_args :: "string \<Rightarrow> string \<Rightarrow> string option \<Rightarrow> string option \<Rightarrow> bool \<Rightarrow> string \<Rightarrow> update_args" where
  "transition_args from_state to_state reason actor emit now =
     no_change\<lparr>ua_promotion_state := JStr to_state, ua_updated_at := Some now, ua_occurred_at := Some now,
       ua_reason := reason, ua_signal_type := (if emit then Some ''memory.promotion'' else None),
       ua_signal_payload := JObj (signal_fields [(''from'', JStr from_state), (''to'', JStr to_state)] reason actor)\<rparr>"

definition state_of :: "dict \<Rightarrow> string" where
  "state_of row = py_str (get_or row ''promotion_state'' (JStr ''HOT''))"

definition transition ::
  "env \<Rightarrow> embedder \<Rightarrow> string \<Rightarrow> string \<Rightarrow> string option \<Rightarrow> string option \<Rightarrow> bool \<Rightarrow> store \<Rightarrow> lifecycle_exn + (store \<times> dict)" where
  "transition env de m to_state reason actor emit s =
     (if to_state \<notin> set PROMOTION_STATES then Inl (LifecycleDb (DbPy ValueError))
      else case get_memory m s of
        None \<Rightarrow> Inl (LifecycleDb (DbPy KeyError))
      | Some row \<Rightarrow>
          (if (state_of row, to_state) \<notin> set VALID_TRANSITIONS then Inl (InvalidTransition m (state_of row) to_state)
           else rbind (map_sum LifecycleDb id
               (update_memory_record env de m (transition_args (state_of row) to_state reason actor emit (en_now env)) s)) (\<lambda>(s', outcome).
             Inr (s', [(''memory_id'', JStr m), (''promotion_state'', JStr to_state), (''updated_at'', JStr (en_now env))]))))"

definition candidate_args :: "dict \<Rightarrow> bool \<Rightarrow> string option \<Rightarrow> bool \<Rightarrow> update_args" where
  "candidate_args row candidate reason emit =
     no_change\<lparr>ua_promotion_candidate := JInt (if candidate then 1 else 0),
       ua_updated_at := (case dget row ''updated_at'' of JStr t \<Rightarrow> Some t | _ \<Rightarrow> None), ua_reason := reason,
       ua_signal_type := (if emit then Some ''memory.candidate'' else None),
       ua_signal_payload := JObj (signal_fields [(''candidate'', JBool candidate)] reason None)\<rparr>"

definition mark_candidate :: "env \<Rightarrow> embedder \<Rightarrow> string \<Rightarrow> bool \<Rightarrow> string option \<Rightarrow> bool \<Rightarrow> store \<Rightarrow> (store \<times> dict) db_res" where
  "mark_candidate env de m candidate reason emit s = (case get_memory m s of
     None \<Rightarrow> Inl (DbPy KeyError)
   | Some row \<Rightarrow>
       rbind (update_memory_record env de m (candidate_args row candidate reason emit) s) (\<lambda>(s', outcome).
         Inr (s', [(''memory_id'', JStr m), (''promotion_candidate'', JInt (if candidate then 1 else 0))])))"

definition states_model :: dict where
  "states_model =
     [(''states'', JList (map JStr PROMOTION_STATES)),
      (''valid_transitions'', JList (map (\<lambda>(a, b). JList [JStr a, JStr b]) (sort VALID_TRANSITIONS)))]"

section \<open>Records that no update accepts\<close>

lemma dget_after_row_dim: "dget (after_row m row a f emb ts imp ver) ''embedding_dim'' = JInt (fst (snd emb))"
  by (simp add: after_row_def dget_def)

lemma collected_in: "x \<in> set ms \<Longrightarrow> collect_issues ms \<noteq> []"
  by (auto simp: collect_issues_Nil)

lemma validate_keeps_issues: "validate_record n = Inr [] \<Longrightarrow> nr_issues n = []"
proof -
  have grows: "fold append_issue ms is = [] \<Longrightarrow> is = []" for ms "is" :: "string list"
    by (induction ms arbitrary: "is") (auto simp: append_issue_def split: if_splits)
  show "validate_record n = Inr [] \<Longrightarrow> nr_issues n = []"
    unfolding validate_record_def Let_def
    by (simp only: rbind_eq_Inr sum.inject sum.distinct split: if_splits) (elim exE conjE, rule grows, assumption)
qed

lemma normalize_dim_issue:
  assumes "normalize_record raw ds i = Inr n" "dget raw ''embedding_dim'' = JInt d" "d \<le> 0"
  shows "nr_issues n \<noteq> []"
proof -
  have "as_int (JInt d) = Inr (Some d)" by (simp add: as_int_def py_int_def)
  moreover have "bad_number (\<lambda>n. n > 0) (JInt d) (Some d)" using assms(3) by (simp add: bad_number_def given_def)
  ultimately show ?thesis
    using assms(1,2)
    by (auto simp: normalize_record_def Let_def rbind_eq_Inr of_py_def field_issues_def issue_def collect_issues_Nil)
qed

lemma check_record_dim:
  assumes "check_record i after = Inr ()" "dget after ''embedding_dim'' = JInt d"
  shows "0 < d"
proof (rule ccontr)
  assume d: "\<not> 0 < d"
  obtain n where n: "normalize_record after ''swap'' i = Inr n" "validate_record n = Inr []"
    using assms(1) by (auto simp: check_record_def rbind_eq_Inr ensure_def split: if_splits)
  show False using normalize_dim_issue [OF n(1) assms(2)] validate_keeps_issues [OF n(2)] d by simp
qed

lemma updated_dimension:
  assumes "updated_values env de m a row s = Inr (after, f)"
  shows "\<exists>emb. new_embedding de row a = Inr emb \<and> 0 < fst (snd emb)"
  using assms check_record_dim [OF _ dget_after_row_dim] by (fastforce simp: updated_values_def rbind_eq_Inr Let_def)

text \<open>A record whose embedding dimension is 0 is frozen: the update would have to keep or write dimension 0,
  which its own validation rejects. This covers rows replayed from a payload without \<open>embedding_dim\<close>,
  and every update that leaves a record without text, although the code has a branch that writes
  dimension 0 for it; so no lifecycle transition of such a record succeeds either.
\<close>

theorem zero_dimension_frozen:
  assumes "get_memory m s = Some row" "new_embedding de row a = Inr (b, 0, k)"
    and "earlier_outcome (ua_caller a) (clean_key (ua_key a)) m (update_digest m a) s = Inr None"
  shows "\<exists>e. update_memory_record env de m a s = Inl e"
proof (cases "update_memory_record env de m a s")
  case (Inr r)
  obtain s' outcome where "update_memory_record env de m a s = Inr (s', outcome)" using Inr by (cases r) auto
  then obtain row' after f where "get_memory m s = Some row'" "updated_values env de m a row' s = Inr (after, f)"
    by (rule update_result [OF _ assms(3)])
  then show ?thesis using updated_dimension [of env de m a row s after f] assms(1,2) by simp
qed blast

section \<open>What a lifecycle step changes\<close>

text \<open>A row as updates leave it: the kind follows the source reference, and the version is positive.\<close>

definition settled :: "dict \<Rightarrow> bool" where
  "settled r \<longleftrightarrow> db_row r \<and> dget r ''schema_version'' \<noteq> JInt 0
     \<and> (if dget r ''source_uri'' = JStr []
        then dget r ''memory_type'' = JStr ''fact'' \<and> dget r ''source_format'' = JStr [] \<and> dget r ''source_checksum'' = JStr []
          \<and> dget r ''byte_offset'' = JNull \<and> dget r ''byte_length'' = JNull
        else dget r ''memory_type'' = JStr ''file'')"

lemma after_row_columns:
  "map (dget (after_row m row a f emb ts imp ver)) MEMORY_COLUMNS =
    [JStr m, new_identifier row a, new_fact row a, fst emb, JInt (fst (snd emb)), JStr (snd (snd emb)),
     JStr (text_or row ''source'' [] (ua_source a)), JFloat imp,
     json_or row ''metadata_json'' ''{}'' (ua_metadata a), JStr (ff_hash f),
     unset_or row ''ttl_seconds'' (ua_ttl a), dget row ''created_at'',
     JStr (str_or_empty row ''namespace''), JStr (text_or row ''tier'' ''hot'' (ua_tier a)),
     JStr (if ff_uri f = [] then ''fact'' else ''file''), JStr (ff_uri f),
     JStr (ff_format f), JStr (ff_checksum f), ff_offset f, ff_length f, JStr ts,
     JStr (text_or row ''snapshot_id'' [] (ua_snapshot_id a)),
     JStr (text_or row ''promotion_state'' ''HOT'' (ua_promotion_state a)),
     JInt (int_of_bool (if ua_promotion_candidate a = JNull then dget row ''promotion_candidate'' else ua_promotion_candidate a)),
     JStr (text_or row ''parent_memory'' [] (ua_parent_memory a)),
     json_or row ''related_memories'' ''[]'' (ua_related_memories a),
     json_or row ''tags'' ''[]'' (ua_tags a), JInt ver, new_summary row a,
     case ua_provenance a of None \<Rightarrow> dget row ''provenance_json'' | Some v \<Rightarrow> serialize_json_column v JNull]"
  by (simp add: MEMORY_COLUMNS_def after_row_def dget_def)

lemma text_kept_or:
  assumes "db_row row" "c \<in> set TEXT_COLUMNS"
  shows "JStr (text_or row c [] JNull) = dget row c" "JStr (str_or_empty row c) = dget row c"
proof -
  obtain t where "dget row c = JStr t" using db_row_text [OF assms] by blast
  then show "JStr (text_or row c [] JNull) = dget row c" "JStr (str_or_empty row c) = dget row c"
    by (simp_all add: text_or_def get_or_def str_or_empty_def por_def py_str_def)
qed

lemma nonempty_kept_or:
  assumes "db_row row" "c \<in> set NONEMPTY_COLUMNS"
  shows "JStr (text_or row c d JNull) = dget row c" "json_or row c d JNull = dget row c"
proof -
  obtain t where "dget row c = JStr t" "t \<noteq> []" using db_row_nonempty [OF assms] by blast
  then show "JStr (text_or row c d JNull) = dget row c" "json_or row c d JNull = dget row c"
    by (simp_all add: text_or_def json_or_def get_or_def por_def py_str_def)
qed

text \<open>Arguments that touch the lifecycle columns only.\<close>

definition lifecycle_only :: "update_args \<Rightarrow> bool" where
  "lifecycle_only a \<longleftrightarrow> a = no_change\<lparr>ua_promotion_state := ua_promotion_state a,
     ua_promotion_candidate := ua_promotion_candidate a, ua_updated_at := ua_updated_at a,
     ua_occurred_at := ua_occurred_at a, ua_reason := ua_reason a, ua_signal_type := ua_signal_type a,
     ua_signal_payload := ua_signal_payload a\<rparr>"

lemma lifecycle_fields:
  assumes "lifecycle_only a"
  shows "ua_identifier a = JNull" "ua_fact_text a = JNull" "ua_importance a = JNull" "ua_metadata a = JNull"
    "ua_source a = JNull" "ua_ttl a = None" "ua_tier a = JNull" "ua_parent_memory a = JNull"
    "ua_related_memories a = JNull" "ua_tags a = JNull" "ua_schema_version a = JNull" "ua_fact_summary a = None"
    "ua_provenance a = None" "ua_snapshot_id a = JNull" "ua_source_uri a = JNull" "ua_source_format a = JNull"
    "ua_source_checksum a = JNull" "ua_byte_offset a = None" "ua_byte_length a = None" "ua_embedder a = None" "ua_key a = None"
  using assms by (simp_all add: lifecycle_only_def no_change_def) (metis update_args.select_convs)+

lemma lifecycle_args_only: "lifecycle_only (transition_args f t r ac em now)" "lifecycle_only (candidate_args row c r em)"
  by (simp_all add: lifecycle_only_def transition_args_def candidate_args_def no_change_def)

lemma lifecycle_file_fields:
  assumes "settled row" "lifecycle_only a" "new_file_fields row a = Inr f"
  shows "JStr (ff_uri f) = dget row ''source_uri''" "JStr (ff_format f) = dget row ''source_format''"
    "JStr (ff_checksum f) = dget row ''source_checksum''" "ff_offset f = dget row ''byte_offset''"
    "ff_length f = dget row ''byte_length''" "JStr (ff_hash f) = dget row ''content_hash''"
    "JStr (if ff_uri f = [] then ''fact'' else ''file'') = dget row ''memory_type''"
proof -
  have r: "db_row row" using assms(1) by (simp add: settled_def)
  have t: "''source_uri'' \<in> set TEXT_COLUMNS" "''source_format'' \<in> set TEXT_COLUMNS" "''source_checksum'' \<in> set TEXT_COLUMNS"
    "''content_hash'' \<in> set TEXT_COLUMNS" by (simp_all add: TEXT_COLUMNS_def)
  note k = text_kept_or [OF r t(1)] text_kept_or [OF r t(2)] text_kept_or [OF r t(3)] text_kept_or [OF r t(4)]
  note a = lifecycle_fields [OF assms(2)]
  let ?uri = "text_or row ''source_uri'' [] JNull"
  have "JStr (ff_uri f) = dget row ''source_uri'' \<and> JStr (ff_format f) = dget row ''source_format''
    \<and> JStr (ff_checksum f) = dget row ''source_checksum'' \<and> ff_offset f = dget row ''byte_offset''
    \<and> ff_length f = dget row ''byte_length'' \<and> JStr (ff_hash f) = dget row ''content_hash''
    \<and> JStr (if ff_uri f = [] then ''fact'' else ''file'') = dget row ''memory_type''"
  proof (cases "?uri = []")
    case True
    then have "dget row ''source_uri'' = JStr []" using k(1) by simp
    with True show ?thesis
      using assms(1,3) k a by (auto simp: settled_def new_file_fields_def inline_update_def Let_def)
  next
    case False
    then have "dget row ''source_uri'' \<noteq> JStr []" using k(1) by (metis json.inject(4))
    with False show ?thesis
      using assms(1,3) k a
      by (auto simp: settled_def new_file_fields_def file_update_def file_identity_changed_def unset_or_def Let_def rbind_eq_Inr
        split: if_splits)
  qed
  then show "JStr (ff_uri f) = dget row ''source_uri''" "JStr (ff_format f) = dget row ''source_format''"
    "JStr (ff_checksum f) = dget row ''source_checksum''" "ff_offset f = dget row ''byte_offset''"
    "ff_length f = dget row ''byte_length''" "JStr (ff_hash f) = dget row ''content_hash''"
    "JStr (if ff_uri f = [] then ''fact'' else ''file'') = dget row ''memory_type''"
    by - ((elim conjE, assumption)+)
qed

lemma lifecycle_embedding:
  assumes "settled row" "lifecycle_only a" "new_embedding de row a = Inr emb"
  shows "fst emb = dget row ''embedding''" "JInt (fst (snd emb)) = dget row ''embedding_dim''"
    "JStr (snd (snd emb)) = dget row ''embedding_model''"
proof -
  have r: "db_row row" using assms(1) by (simp add: settled_def)
  have t: "''embedding'' \<in> set TEXT_COLUMNS" "''embedding_model'' \<in> set TEXT_COLUMNS" by (simp_all add: TEXT_COLUMNS_def)
  obtain d where d: "dget row ''embedding_dim'' = JInt d" using db_row_values [OF r] by metis
  have "get_or row ''embedding'' (JStr []) = dget row ''embedding''" using text_default [OF r t(1)] by (simp add: get_or_def)
  then have "emb = (dget row ''embedding'', d, str_or_empty row ''embedding_model'')"
    using assms(3) lifecycle_fields [OF assms(2)] d
    by (auto simp: new_embedding_def text_changed_def get_or_def py_int_def)
  then show "fst emb = dget row ''embedding''" "JInt (fst (snd emb)) = dget row ''embedding_dim''"
    "JStr (snd (snd emb)) = dget row ''embedding_model''"
    using d text_kept_or(2) [OF r t(2)] by simp_all
qed

text \<open>The row a lifecycle step writes, column by column.\<close>

definition stepped :: "dict \<Rightarrow> update_args \<Rightarrow> string \<Rightarrow> string \<Rightarrow> json" where
  "stepped row a ts c =
     (if c = ''updated_at'' then JStr ts
      else if c = ''promotion_state'' then JStr (text_or row c ''HOT'' (ua_promotion_state a))
      else if c = ''promotion_candidate'' \<and> ua_promotion_candidate a \<noteq> JNull then JInt (int_of_bool (ua_promotion_candidate a))
      else dget row c)"

lemma lifecycle_after:
  assumes "settled row" "dget row ''id'' = JStr m" "lifecycle_only a" "updated_values env de m a row s = Inr (after, f)"
    and "c \<in> set MEMORY_COLUMNS"
  shows "dget after c = stepped row a (first_time [ua_updated_at a, ua_occurred_at a] (en_now env)) c"
proof -
  let ?ts = "first_time [ua_updated_at a, ua_occurred_at a] (en_now env)"
  have r: "db_row row" and sv: "dget row ''schema_version'' \<noteq> JInt 0" using assms(1) by (simp_all add: settled_def)
  obtain fl v d where n: "dget row ''importance'' = JFloat fl" "dget row ''schema_version'' = JInt v" using db_row_values [OF r] by metis
  note a = lifecycle_fields [OF assms(3)]
  obtain emb imp ver where u: "new_file_fields row a = Inr f" "new_embedding de row a = Inr emb"
    and after: "after = after_row m row a f emb ?ts imp ver" and i: "imp = fl" "ver = v"
    using assms(4) n sv a by (auto simp: updated_values_def rbind_eq_Inr Let_def float_or_half_def py_float_def py_int_def get_or_def por_def)
  note ff = lifecycle_file_fields [OF assms(1,3) u(1)] and em = lifecycle_embedding [OF assms(1,3) u(2)]
  have t: "''identifier'' \<in> set TEXT_COLUMNS" "''fact_text'' \<in> set TEXT_COLUMNS" "''source'' \<in> set TEXT_COLUMNS"
    "''namespace'' \<in> set TEXT_COLUMNS" "''snapshot_id'' \<in> set TEXT_COLUMNS" "''parent_memory'' \<in> set TEXT_COLUMNS"
    by (simp_all add: TEXT_COLUMNS_def)
  have ne: "''metadata_json'' \<in> set NONEMPTY_COLUMNS" "''tier'' \<in> set NONEMPTY_COLUMNS"
    "''related_memories'' \<in> set NONEMPTY_COLUMNS" "''tags'' \<in> set NONEMPTY_COLUMNS"
    by (simp_all add: NONEMPTY_COLUMNS_def)
  have fact: "get_or row ''fact_text'' (JStr []) = dget row ''fact_text''" using text_default [OF r t(2)] by (simp add: get_or_def)
  have cand: "JInt (int_of_bool (dget row ''promotion_candidate'')) = dget row ''promotion_candidate''"
    using db_row_flags(1) [OF r] by (auto simp: int_of_bool_def)
  have "map (dget after) MEMORY_COLUMNS = map (stepped row a ?ts) MEMORY_COLUMNS"
    unfolding after after_row_columns unfolding MEMORY_COLUMNS_def
    by (simp add: stepped_def a ff em assms(2) new_identifier_def new_fact_def fact new_summary_def unset_or_def n i cand
      text_kept_or [OF r t(3)] text_kept_or [OF r t(4)] text_kept_or [OF r t(5)] text_kept_or [OF r t(6)]
      nonempty_kept_or [OF r ne(1)] nonempty_kept_or [OF r ne(2)] nonempty_kept_or [OF r ne(3)] nonempty_kept_or [OF r ne(4)])
  then show ?thesis using assms(5) by simp
qed

lemma stepped_db_row:
  assumes "db_row row" "\<And>c. c \<in> set MEMORY_COLUMNS \<Longrightarrow> dget after c = stepped row a ts c" "dget after ''embedding_b64'' = JNull"
    and "text_or row ''promotion_state'' ''HOT'' (ua_promotion_state a) \<noteq> []"
  shows "db_row after"
proof -
  have sub: "set TEXT_COLUMNS \<subseteq> set MEMORY_COLUMNS" "set NONEMPTY_COLUMNS \<subseteq> set MEMORY_COLUMNS"
    "''updated_at'' \<notin> set TEXT_COLUMNS" "''promotion_candidate'' \<notin> set TEXT_COLUMNS" "''updated_at'' \<notin> set NONEMPTY_COLUMNS"
    "''promotion_candidate'' \<notin> set NONEMPTY_COLUMNS" by code_simp+
  have plain: "dget after c = dget row c"
    if "c \<in> set MEMORY_COLUMNS" "c \<noteq> ''updated_at''" "c \<noteq> ''promotion_state''" "c \<noteq> ''promotion_candidate''" for c
    using assms(2) [OF that(1)] that(2-4) by (simp add: stepped_def)
  have ps: "''promotion_state'' \<in> set MEMORY_COLUMNS" "''promotion_candidate'' \<in> set MEMORY_COLUMNS"
    "''updated_at'' \<in> set MEMORY_COLUMNS" by (simp_all add: MEMORY_COLUMNS_def)
  have st: "dget after ''promotion_state'' = JStr (text_or row ''promotion_state'' ''HOT'' (ua_promotion_state a))"
    "dget after ''updated_at'' = JStr ts"
    using assms(2) [OF ps(1)] assms(2) [OF ps(3)] by (simp_all add: stepped_def)
  have cand: "dget after ''promotion_candidate'' \<in> {JInt 0, JInt 1}"
  proof -
    have "dget row ''promotion_candidate'' \<in> {JInt 0, JInt 1}" using assms(1) unfolding db_row_def by (elim conjE)
    then show ?thesis using assms(2) [OF ps(2)] by (simp add: stepped_def int_of_bool_def split: if_splits)
  qed
  have strs: "is_str (dget after c)" if c: "c \<in> set TEXT_COLUMNS" for c
  proof (cases "c = ''promotion_state''")
    case False
    then have "dget after c = dget row c" using c sub by (intro plain) auto
    then show ?thesis using db_row_text [OF assms(1) c] by auto
  qed (simp add: st)
  have nonempty: "dget after c \<noteq> JStr []" if c: "c \<in> set NONEMPTY_COLUMNS" for c
  proof (cases "c = ''promotion_state''")
    case False
    then have "dget after c = dget row c" using c sub by (intro plain) auto
    then show ?thesis using db_row_nonempty [OF assms(1) c] by auto
  qed (simp add: st assms(4))
  have hash: "hashable (dget after c)" if c: "c \<in> set MEMORY_COLUMNS" for c
    using assms(2) [OF c] db_row_hashable [OF assms(1) c] by (auto simp: stepped_def hashable_def)
  have num: "dget after c = dget row c" if "c \<in> {''importance'', ''schema_version'', ''embedding_dim'', ''provenance_json''}" for c
    using that by (intro plain) (auto simp: MEMORY_COLUMNS_def)
  have "is_float (dget after ''importance'')" "is_int (dget after ''schema_version'')" "is_int (dget after ''embedding_dim'')"
    "\<not> is_bool (dget after ''schema_version'')" "\<not> is_bool (dget after ''embedding_dim'')"
    "dget after ''provenance_json'' \<noteq> JStr []" "dget after ''provenance_json'' = JNull \<or> is_str (dget after ''provenance_json'')"
    using assms(1) unfolding db_row_def by (elim conjE, simp add: num)+
  then show ?thesis unfolding db_row_def using strs nonempty hash cand assms(3) by blast
qed

lemma updated_payload_carries:
  assumes "db_row after" "build_updated_payload after before origin at reason = Inr p"
  shows "carries p after"
proof -
  have x: "(set PAYLOAD_COLUMNS \<union> {''ttl_seconds'', ''embedding_b64''})
      \<inter> {''transition'', ''previous_content_hash'', ''previous_record_fingerprint'', ''reason''} = {}" by code_simp
  obtain p0 where p0: "build_created_payload after origin at = Inr p0"
    using assms(2) by (auto simp: build_updated_payload_def rbind_eq_Inr)
  have "map_of p k = map_of p0 k" if "k \<in> set PAYLOAD_COLUMNS \<union> {''ttl_seconds'', ''embedding_b64''}" for k
  proof -
    have "k \<notin> {''transition'', ''previous_content_hash'', ''previous_record_fingerprint'', ''reason''}" using x that by blast
    from updated_payload_keeps [OF assms(2) this] show ?thesis using p0 by simp
  qed
  then show ?thesis using built_payload_carries [OF assms(1) p0] by (simp add: carries_def dget_def)
qed

lemma write_update_row:
  assumes "write_update env m a row after hash s = Inr (s', outcome)" "get_memory m s = Some row'"
    and "dget after ''id'' = JStr m" "db_row after"
  shows "get_memory m s' = Some (updated_row after)"
proof -
  obtain origin payload vals s1 s2 s3 ev found at le w where
    p: "build_updated_payload after (Some row) (Some origin) (Some at) (ua_reason a) = Inr payload"
      "event_to_memory_record (JObj payload) = Inr (Some vals)"
    and r: "replace_memory_record vals s = Inr (s1, found)"
    and ap: "append_event (en_event_id env) (en_now env) ''memory.updated'' (Some m) (str_or_empty row ''namespace'') (JObj payload) (Some at) s1 = Inr (s2, ev)"
    and sg: "append_signal env m (str_or_empty row ''namespace'') a at s2 = Inr s3"
    and s': "s' = record_outcome (clean_key (ua_key a)) (en_db_now env) le outcome (set_replay_watermark w s3)"
    by (rule write_update_result [OF assms(1)])
  have v: "updated_row vals = vals" "dget vals ''id'' = JStr m"
    using read_record [OF p(2)] updated_payload_id [OF p(1) assms(3)] by simp_all
  have "s1 = s\<lparr>st_memories := upsert_row row_key vals (st_memories s)\<rparr>"
    by (rule replace_memory_result [OF r assms(2) v])
  then have "get_memory m s' = Some vals"
    using append_signal_frame [OF sg] append_event_frame [OF ap] get_memory_upsert [of vals m m s] v(2)
    by (simp add: s' row_key_def)
  moreover have "vals = updated_row after"
    using carried_record [OF assms(4) updated_payload_carries [OF assms(4) p(1)]] p(2) by simp
  ultimately show ?thesis by simp
qed

lemma lifecycle_update:
  assumes "update_memory_record env de m a s = Inr (s', outcome)" "lifecycle_only a" "get_memory m s = Some row"
    and "settled row" "text_or row ''promotion_state'' ''HOT'' (ua_promotion_state a) \<noteq> []"
  shows "\<exists>row'. get_memory m s' = Some row'
    \<and> (\<forall>c \<in> set MEMORY_COLUMNS. dget row' c = stepped row a (first_time [ua_updated_at a, ua_occurred_at a] (en_now env)) c)"
proof -
  have "clean_key (ua_key a) = []" using lifecycle_fields [OF assms(2)] by (simp add: clean_key_def)
  then have e: "earlier_outcome (ua_caller a) (clean_key (ua_key a)) m (update_digest m a) s = Inr None"
    by (simp add: earlier_outcome_def)
  obtain r after f where r: "get_memory m s = Some r" and u: "updated_values env de m a r s = Inr (after, f)"
    and w: "write_update env m a r after (ff_hash f) s = Inr (s', outcome)"
    by (rule update_result [OF assms(1) e])
  have u: "updated_values env de m a row s = Inr (after, f)" using u r assms(3) by simp
  have id: "dget row ''id'' = JStr m"
    using find_key_SomeD [OF assms(3) [unfolded get_memory_def]] by (simp add: row_key_def)
  note cols = lifecycle_after [OF assms(4) id assms(2) u]
  have "dget after ''embedding_b64'' = JNull"
    using u by (auto simp: updated_values_def rbind_eq_Inr Let_def after_row_def dget_def)
  then have "db_row after"
    using assms(4) by (intro stepped_db_row [OF _ cols _ assms(5)]) (simp_all add: settled_def)
  then have "get_memory m s' = Some (updated_row after)"
    by (rule write_update_row [OF w assms(3) updated_values_id [OF u]])
  moreover have "dget (updated_row after) c = dget after c" if "c \<in> set MEMORY_COLUMNS" for c
    using that by (simp add: updated_row_def dget_map)
  ultimately show ?thesis using cols by auto
qed

text \<open>A lifecycle transition moves a record forward by exactly one step of HOT, READY, PROMOTED, ARCHIVED,
  and nothing else in the record changes but its time stamp.
\<close>

theorem transition_effect:
  assumes "transition env de m to_state reason actor emit s = Inr (s', outcome)"
    and "get_memory m s = Some row" "settled row"
  shows "(state_of row, to_state) \<in> {(''HOT'', ''READY''), (''READY'', ''PROMOTED''), (''PROMOTED'', ''ARCHIVED'')}
    \<and> (\<exists>row'. get_memory m s' = Some row' \<and> state_of row' = to_state \<and> dget row' ''updated_at'' = JStr (en_now env)
      \<and> (\<forall>c \<in> set MEMORY_COLUMNS - {''promotion_state'', ''updated_at''}. dget row' c = dget row c))"
proof -
  let ?a = "transition_args (state_of row) to_state reason actor emit (en_now env)"
  have t: "to_state \<in> set PROMOTION_STATES" "(state_of row, to_state) \<in> set VALID_TRANSITIONS"
    and u: "\<exists>o1. update_memory_record env de m ?a s = Inr (s', o1)"
    using assms(1,2) by (auto simp: transition_def rbind_eq_Inr split: if_splits)
  have args: "ua_promotion_state ?a = JStr to_state" "ua_promotion_candidate ?a = JNull" "ua_updated_at ?a = Some (en_now env)"
    "ua_occurred_at ?a = Some (en_now env)"
    by (simp_all add: transition_args_def no_change_def)
  have ne: "to_state \<noteq> []" using t(1) by (auto simp: PROMOTION_STATES_def)
  have ts: "first_time [Some (en_now env), Some (en_now env)] (en_now env) = en_now env" by (simp add: first_time_def)
  have tx: "text_or row ''promotion_state'' ''HOT'' (ua_promotion_state ?a) = to_state" by (simp add: text_or_def args py_str_def)
  obtain row' where row': "get_memory m s' = Some row'"
    "\<forall>c \<in> set MEMORY_COLUMNS. dget row' c = stepped row ?a (en_now env) c"
    using u lifecycle_update [OF _ lifecycle_args_only(1) assms(2,3), of env de "state_of row" to_state reason actor emit "en_now env" s']
    unfolding args(3,4) ts tx using ne by blast
  have "''promotion_state'' \<in> set MEMORY_COLUMNS" "''updated_at'' \<in> set MEMORY_COLUMNS" by (simp_all add: MEMORY_COLUMNS_def)
  with row'(2) have "dget row' ''promotion_state'' = JStr to_state" "dget row' ''updated_at'' = JStr (en_now env)"
    by (simp_all add: stepped_def tx)
  moreover have "dget row' c = dget row c" if "c \<in> set MEMORY_COLUMNS - {''promotion_state'', ''updated_at''}" for c
    using row'(2) that by (simp add: stepped_def args)
  moreover have "state_of row' = to_state" if "dget row' ''promotion_state'' = JStr to_state"
    using that ne by (simp add: state_of_def get_or_def py_str_def)
  ultimately show ?thesis using t(2) row'(1) by (simp add: VALID_TRANSITIONS_def)
qed

text \<open>
  Marking a candidate sets the flag and nothing else in the record but its time stamp, and works in
  every lifecycle state.
\<close>

theorem mark_candidate_effect:
  assumes "mark_candidate env de m candidate reason emit s = Inr (s', outcome)"
    and "get_memory m s = Some row" "settled row"
  shows "\<exists>row'. get_memory m s' = Some row' \<and> dget row' ''promotion_candidate'' = JInt (if candidate then 1 else 0)
    \<and> (\<forall>c \<in> set MEMORY_COLUMNS - {''promotion_candidate'', ''updated_at''}. dget row' c = dget row c)"
proof -
  let ?a = "candidate_args row candidate reason emit"
  have args: "ua_promotion_state ?a = JNull" "ua_promotion_candidate ?a = JInt (if candidate then 1 else 0)"
    by (simp_all add: candidate_args_def no_change_def)
  have p: "''promotion_state'' \<in> set NONEMPTY_COLUMNS" by (simp add: NONEMPTY_COLUMNS_def)
  have db: "db_row row" using assms(3) by (simp add: settled_def)
  obtain st where st: "dget row ''promotion_state'' = JStr st" "st \<noteq> []" using db_row_nonempty [OF db p] by blast
  have tx: "JStr (text_or row ''promotion_state'' ''HOT'' (ua_promotion_state ?a)) = dget row ''promotion_state''"
    using nonempty_kept_or(1) [OF db p] by (simp add: args)
  then have ne: "text_or row ''promotion_state'' ''HOT'' (ua_promotion_state ?a) \<noteq> []" using st by auto
  obtain o1 where "update_memory_record env de m ?a s = Inr (s', o1)"
    using assms(1,2) by (auto simp: mark_candidate_def rbind_eq_Inr)
  from lifecycle_update [OF this lifecycle_args_only(2) assms(2,3) ne] obtain row' ts where row': "get_memory m s' = Some row'"
    "\<forall>c \<in> set MEMORY_COLUMNS. dget row' c = stepped row ?a ts c" by blast
  have "''promotion_candidate'' \<in> set MEMORY_COLUMNS" by (simp add: MEMORY_COLUMNS_def)
  with row'(2) have "dget row' ''promotion_candidate'' = JInt (if candidate then 1 else 0)"
    by (simp add: stepped_def args int_of_bool_def)
  moreover have "dget row' c = dget row c" if "c \<in> set MEMORY_COLUMNS - {''promotion_candidate'', ''updated_at''}" for c
    using row'(2) that tx by (simp add: stepped_def)
  ultimately show ?thesis using row'(1) by simp
qed

section \<open>Updates that succeed\<close>

lemma built_payload_total:
  assumes "db_row after"
  shows "\<exists>p. build_updated_payload after before origin at reason = Inr p"
proof -
  obtain f v where n: "dget after ''importance'' = JFloat f" "dget after ''schema_version'' = JInt v"
    using db_row_values [OF assms] by metis
  obtain e where e: "dget after ''embedding'' = JStr e"
    using db_row_text [OF assms, of "''embedding''"] by (auto simp: TEXT_COLUMNS_def)
  have b: "dget after ''embedding_b64'' = JNull" using assms unfolding db_row_def by (elim conjE)
  show ?thesis
    by (simp add: build_updated_payload_def build_created_payload_def n e b float_or_half_def int_or_one_def py_float_def
      py_int_def embedding_field_def Let_def)
qed

lemma write_update_total:
  assumes "db_row after" "dget after ''id'' = JStr m" "get_memory m s = Some row"
    and "extract_origin_identity (Some s) = Inr origin" "en_event_id env \<notin> ev_id ` set (st_events s)"
    and "\<forall>x \<in> set (st_memories s). row_key x \<noteq> JStr m \<longrightarrow> \<not> same_identity (updated_row after) x" "ua_signal_type a = None"
  shows "\<exists>s' outcome. write_update env m a row' after hash s = Inr (s', outcome)"
proof -
  let ?ts = "first_time [ua_updated_at a, ua_occurred_at a] (en_now env)"
  let ?at = "first_time [ua_occurred_at a] ?ts"
  obtain p where p: "build_updated_payload after (Some row') (Some origin) (Some ?at) (ua_reason a) = Inr p"
    using built_payload_total [OF assms(1)] by blast
  have rec: "event_to_memory_record (JObj p) = Inr (Some (updated_row after))"
    by (rule carried_record [OF assms(1) updated_payload_carries [OF assms(1) p]])
  have v: "updated_row (updated_row after) = updated_row after" using read_record(1) [OF rec] .
  have i: "''id'' \<in> set MEMORY_COLUMNS" "''identifier'' \<in> set MEMORY_COLUMNS" "''identifier'' \<in> set TEXT_COLUMNS"
    by (simp_all add: MEMORY_COLUMNS_def TEXT_COLUMNS_def)
  then have id: "row_key (updated_row after) = JStr m" using assms(2) by (simp add: row_key_def updated_row_def dget_map)
  have "dget (updated_row after) ''identifier'' \<noteq> JNull"
    using db_row_text [OF assms(1) i(3)] i(2) by (auto simp: updated_row_def dget_map)
  moreover have "JStr m \<in> row_key ` set (st_memories s)"
    using find_key_SomeD [OF assms(3) [unfolded get_memory_def]] by (metis imageI)
  ultimately have r: "replace_memory_record (updated_row after) s
      = Inr (s\<lparr>st_memories := upsert_row row_key (updated_row after) (st_memories s)\<rparr>, True)"
    using assms(6) id by (auto simp: replace_memory_record_def Let_def v)
  show ?thesis
    using assms(5)
    by (simp add: write_update_def Let_def assms(4,7) p rec r append_event_def stored_full_payload [OF p] append_row_def append_signal_def)
qed

definition step_row :: dict where
  "step_row =
     [(''id'', JStr ''m1''), (''identifier'', JStr ''doc''), (''fact_text'', JStr ''hello''), (''embedding'', JStr ''v''),
      (''embedding_dim'', JInt 3), (''embedding_model'', JStr ''e''), (''source'', JStr ''s''),
      (''importance'', JFloat (FDec 5 (-1))), (''metadata_json'', JStr ''{}''), (''content_hash'', JStr ''h''),
      (''ttl_seconds'', JNull), (''created_at'', JStr ''2026-01-01''), (''namespace'', JStr ''ns''), (''tier'', JStr ''hot''),
      (''memory_type'', JStr ''fact''), (''source_uri'', JStr []), (''source_format'', JStr []), (''source_checksum'', JStr []),
      (''byte_offset'', JNull), (''byte_length'', JNull), (''updated_at'', JNull), (''snapshot_id'', JStr []),
      (''promotion_state'', JStr ''HOT''), (''promotion_candidate'', JInt 0), (''parent_memory'', JStr []),
      (''related_memories'', JStr ''[]''), (''tags'', JStr ''[]''), (''schema_version'', JInt 4), (''fact_summary'', JNull),
      (''provenance_json'', JNull)]"

definition step_store :: store where
  "step_store = empty_store\<lparr>st_memories := [step_row]\<rparr>"

definition no_embedder :: embedder where
  "no_embedder = \<lparr>eb_pack = (\<lambda>t. Inl ValueError), eb_dim = 0, eb_key = []\<rparr>"

lemma step_row_settled: "settled step_row"
  unfolding settled_def db_row_def by code_simp

lemma step_store_facts:
  "get_memory ''m1'' step_store = Some step_row"
  "extract_origin_identity (Some step_store) = Inr [(''mount_id'', JStr []), (''replica_id'', JStr []),
     (''history_id'', JStr []), (''runtime_generation'', JStr [])]"
  "en_event_id delete_env \<notin> ev_id ` set (st_events step_store)"
  "\<forall>x \<in> set (st_memories step_store). row_key x \<noteq> JStr ''m1'' \<longrightarrow> \<not> same_identity r x"
  by (code_simp, code_simp, code_simp, simp add: step_store_def empty_store_def step_row_def row_key_def dget_def)

lemma lifecycle_total:
  assumes "lifecycle_only a" "ua_signal_type a = None" "\<not> isl (updated_values delete_env no_embedder ''m1'' a step_row step_store)"
    and "text_or step_row ''promotion_state'' ''HOT'' (ua_promotion_state a) \<noteq> []"
  shows "\<exists>s' outcome. update_memory_record delete_env no_embedder ''m1'' a step_store = Inr (s', outcome)"
proof -
  obtain after f where u: "updated_values delete_env no_embedder ''m1'' a step_row step_store = Inr (after, f)"
    using assms(3) by (cases "updated_values delete_env no_embedder ''m1'' a step_row step_store") auto
  have id: "dget step_row ''id'' = JStr ''m1''" by code_simp
  note cols = lifecycle_after [OF step_row_settled id assms(1) u]
  have "dget after ''embedding_b64'' = JNull"
    using u by (auto simp: updated_values_def rbind_eq_Inr Let_def after_row_def dget_def)
  then have db: "db_row after"
    using step_row_settled by (intro stepped_db_row [OF _ cols _ assms(4)]) (simp_all add: settled_def)
  obtain s' outcome where "write_update delete_env ''m1'' a step_row after (ff_hash f) step_store = Inr (s', outcome)"
    using write_update_total [OF db updated_values_id [OF u] step_store_facts(1-4) assms(2)] by blast
  moreover have "clean_key (ua_key a) = []" using lifecycle_fields [OF assms(1)] by (simp add: clean_key_def)
  ultimately show ?thesis
    by (simp add: update_memory_record_def earlier_outcome_def step_store_facts(1) u)
qed

lemma transition_effect_witness:
  "\<exists>s' outcome row'. transition delete_env no_embedder ''m1'' ''READY'' None None False step_store = Inr (s', outcome)
    \<and> get_memory ''m1'' s' = Some row' \<and> state_of row' = ''READY''"
proof -
  let ?a = "transition_args ''HOT'' ''READY'' None None False (en_now delete_env)"
  have st: "state_of step_row = ''HOT''" by code_simp
  have "\<not> isl (updated_values delete_env no_embedder ''m1'' ?a step_row step_store)" by code_simp
  moreover have "text_or step_row ''promotion_state'' ''HOT'' (ua_promotion_state ?a) \<noteq> []" by code_simp
  moreover have "ua_signal_type ?a = None" by (simp add: transition_args_def)
  ultimately obtain s' o1 where "update_memory_record delete_env no_embedder ''m1'' ?a step_store = Inr (s', o1)"
    using lifecycle_total [OF lifecycle_args_only(1)] by blast
  then obtain outcome where t: "transition delete_env no_embedder ''m1'' ''READY'' None None False step_store = Inr (s', outcome)"
    by (simp add: transition_def step_store_facts(1) st PROMOTION_STATES_def VALID_TRANSITIONS_def)
  from transition_effect [OF t step_store_facts(1) step_row_settled] t show ?thesis by blast
qed

lemma mark_candidate_effect_witness:
  "\<exists>s' outcome row'. mark_candidate delete_env no_embedder ''m1'' True None False step_store = Inr (s', outcome)
    \<and> get_memory ''m1'' s' = Some row' \<and> dget row' ''promotion_candidate'' = JInt 1"
proof -
  let ?a = "candidate_args step_row True None False"
  have "\<not> isl (updated_values delete_env no_embedder ''m1'' ?a step_row step_store)" by code_simp
  moreover have "text_or step_row ''promotion_state'' ''HOT'' (ua_promotion_state ?a) \<noteq> []" by code_simp
  moreover have "ua_signal_type ?a = None" by (simp add: candidate_args_def)
  ultimately obtain s' o1 where "update_memory_record delete_env no_embedder ''m1'' ?a step_store = Inr (s', o1)"
    using lifecycle_total [OF lifecycle_args_only(2)] by blast
  then obtain outcome where t: "mark_candidate delete_env no_embedder ''m1'' True None False step_store = Inr (s', outcome)"
    by (simp add: mark_candidate_def step_store_facts(1))
  from mark_candidate_effect [OF t step_store_facts(1) step_row_settled] t show ?thesis by auto
qed

lemma update_effect_witness:
  "\<exists>s' outcome e. update_memory_record delete_env no_embedder ''m1'' no_change step_store = Inr (s', outcome)
    \<and> st_events s' = [e] \<and> ev_type e = ''memory.updated''"
proof -
  have "lifecycle_only no_change" by (simp add: lifecycle_only_def no_change_def)
  moreover have "\<not> isl (updated_values delete_env no_embedder ''m1'' no_change step_row step_store)" by code_simp
  moreover have "text_or step_row ''promotion_state'' ''HOT'' (ua_promotion_state no_change) \<noteq> []" by code_simp
  moreover have "ua_signal_type no_change = None" by (simp add: no_change_def)
  ultimately obtain s' outcome where u: "update_memory_record delete_env no_embedder ''m1'' no_change step_store = Inr (s', outcome)"
    using lifecycle_total by blast
  moreover have "earlier_outcome (ua_caller no_change) (clean_key (ua_key no_change)) ''m1'' d step_store = Inr None" for d
    by (simp add: earlier_outcome_def no_change_def clean_key_def)
  ultimately show ?thesis
    using update_effect [OF u] by (auto simp: step_store_def empty_store_def no_change_def)
qed

definition frozen_store :: store where
  "frozen_store = empty_store\<lparr>st_memories := [AList.update ''embedding_dim'' (JInt 0) step_row]\<rparr>"

lemma zero_dimension_frozen_witness:
  "\<exists>e. update_memory_record delete_env no_embedder ''m1'' no_change frozen_store = Inl e"
proof (rule zero_dimension_frozen)
  show "get_memory ''m1'' frozen_store = Some (AList.update ''embedding_dim'' (JInt 0) step_row)" by code_simp
  show "new_embedding no_embedder (AList.update ''embedding_dim'' (JInt 0) step_row) no_change = Inr (JStr ''v'', 0, ''e'')"
    by (simp add: new_embedding_def text_changed_def no_change_def step_row_def get_or_def dget_def por_def py_int_def str_or_empty_def py_str_def)
  show "earlier_outcome (ua_caller no_change) (clean_key (ua_key no_change)) ''m1'' (update_digest ''m1'' no_change) frozen_store = Inr None"
    by (simp add: earlier_outcome_def no_change_def clean_key_def)
qed

end
