(* ===== verification/Runs.thy ===== *)
theory Runs
  imports Lifecycle
begin

text \<open>
  Sequences of operations on one store. Every operation keeps the store invariant and only ever adds to
  the event log: an event may be trimmed away, but none is rewritten and no sequence number is used
  twice; where an event is kept, so is every later one. These laws are a locale, met by the operations of the
  model, and hold then for every run. The operations are those of one store on its own: a replay, an applied range or
  a delta reads a second source and is not a step here, and neither are writes that bypass the operations.
\<close>

section \<open>Extending a log\<close>

text \<open>Numbers only grow, no event is rewritten, and where an event is kept, so is every later one.\<close>

definition extends :: "store \<Rightarrow> store \<Rightarrow> bool" where
  "extends s s' \<longleftrightarrow> st_last_seq s \<le> st_last_seq s'
     \<and> (\<forall>e \<in> set (st_events s'). ev_seq e \<le> st_last_seq s \<longrightarrow> e \<in> set (st_events s))
     \<and> (\<forall>a \<in> set (st_events s). \<forall>e \<in> set (st_events s).
          ev_seq a \<le> ev_seq e \<longrightarrow> ev_seq e \<le> st_last_seq s \<longrightarrow> a \<in> set (st_events s') \<longrightarrow> e \<in> set (st_events s'))"

lemma extendsD:
  assumes "extends s s'"
  shows "st_last_seq s \<le> st_last_seq s'"
    "e \<in> set (st_events s') \<Longrightarrow> ev_seq e \<le> st_last_seq s \<Longrightarrow> e \<in> set (st_events s)"
    "a \<in> set (st_events s) \<Longrightarrow> e \<in> set (st_events s) \<Longrightarrow> ev_seq a \<le> ev_seq e \<Longrightarrow> ev_seq e \<le> st_last_seq s \<Longrightarrow>
       a \<in> set (st_events s') \<Longrightarrow> e \<in> set (st_events s')"
  using assms unfolding extends_def by blast+

lemma extends_refl [simp]: "extends s s"
  by (simp add: extends_def)

lemma extends_trans: "extends s s' \<Longrightarrow> extends s' s'' \<Longrightarrow> extends s s''"
  unfolding extends_def by (smt (verit) order_trans)

lemma extends_same: "st_events s' = st_events s \<Longrightarrow> st_last_seq s' = st_last_seq s \<Longrightarrow> extends s s'"
  by (simp add: extends_def)

lemma extends_append:
  assumes "append_event i now ty m ns p at s = Inr (s', e)"
  shows "extends s s'"
  by (rule append_event_result [OF assms]) (auto simp: extends_def)

lemma extends_delete_events:
  assumes "store_inv s" "prefix_closed P (st_events s)" "delete_events P s = Inr (s', k)"
  shows "extends s s'"
proof -
  have "st_events s' = filter (\<lambda>e. \<not> P e) (st_events s)" "st_last_seq s' = st_last_seq s"
    using assms(3) by (auto simp: delete_events_def record_trim_def Let_def rbind_eq_Inr split: if_splits option.splits)
  then show ?thesis using assms(2) by (auto simp: extends_def prefix_closed_def)
qed

section \<open>The operations\<close>

datatype operation =
  InsertRecord string dict
| InsertMany string "dict list"
| AppendEvent string string string "string option" string json "string option"
| UpdateRecord env embedder string update_args
| DeleteRecord env string delete_args
| Promote env embedder string string "string option" "string option" bool
| MarkCandidate env embedder string bool "string option" bool
| TrimBefore int
| TrimToCount int
| CompactTombstones compact_args
| EnsureIdentity "string option" string string string
| SetIdentity string "string option" "string option"
| RecordClone clone_base bool string string
| RestoreLineage clone_base string string string string
| Fork "store option" string string
| ReplaceHistory bool string string string

definition ok :: "'e + 'a \<Rightarrow> 'a option" where
  "ok r = (case r of Inl e \<Rightarrow> None | Inr x \<Rightarrow> Some x)"

lemma ok_Some [simp]: "ok r = Some x \<longleftrightarrow> r = Inr x"
  by (cases r) (simp_all add: ok_def)

text \<open>The store after an operation; \<open>None\<close> where it raises.\<close>

fun apply_operation :: "operation \<Rightarrow> store \<Rightarrow> store option" where
  "apply_operation (InsertRecord now r) s = ok (insert_row now r s)"
| "apply_operation (InsertMany now rs) s = Some (fst (insert_many_ignore now rs s))"
| "apply_operation (AppendEvent i now ty m ns p at) s = map_option fst (ok (append_event i now ty m ns p at s))"
| "apply_operation (UpdateRecord env de m a) s = map_option fst (ok (update_memory_record env de m a s))"
| "apply_operation (DeleteRecord env m a) s = map_option fst (ok (delete_memory_record env m a s))"
| "apply_operation (Promote env de m st r ac em) s = map_option fst (ok (transition env de m st r ac em s))"
| "apply_operation (MarkCandidate env de m c r em) s = map_option fst (ok (mark_candidate env de m c r em s))"
| "apply_operation (TrimBefore n) s = map_option fst (ok (trim_events_before_seq n s))"
| "apply_operation (TrimToCount n) s = map_option fst (ok (trim_events_by_count n s))"
| "apply_operation (CompactTombstones a) s = map_option fst (ok (compact_tombstones a s))"
| "apply_operation (EnsureIdentity mf m r h) s = map_option fst (ok (ensure_mount_identity mf m r h s))"
| "apply_operation (SetIdentity m r h) s = map_option fst (ok (set_mount_identity m r h s))"
| "apply_operation (RecordClone b adopt r h) s = map_option fst (ok (record_clone_lineage b adopt r h s))"
| "apply_operation (RestoreLineage b r h r2 h2) s = map_option fst (ok (restore_lineage b r h r2 h2 s))"
| "apply_operation (Fork p r h) s = map_option fst (ok (fork_replica p r h s))"
| "apply_operation (ReplaceHistory keep m r h) s = map_option fst (ok (replace_history keep m r h s))"

text \<open>An operation that raises leaves the store as it was.\<close>

fun run :: "('op \<Rightarrow> store \<Rightarrow> store option) \<Rightarrow> 'op list \<Rightarrow> store \<Rightarrow> store" where
  "run exec [] s = s"
| "run exec (x # xs) s = run exec xs (case exec x s of None \<Rightarrow> s | Some s' \<Rightarrow> s')"

locale log_keeping =
  fixes exec :: "'op \<Rightarrow> store \<Rightarrow> store option"
  assumes exec_inv: "store_inv s \<Longrightarrow> exec x s = Some s' \<Longrightarrow> store_inv s'"
    and exec_extends: "store_inv s \<Longrightarrow> exec x s = Some s' \<Longrightarrow> extends s s'"
begin

lemma run_inv: "store_inv s \<Longrightarrow> store_inv (run exec xs s)"
  by (induction xs arbitrary: s) (auto split: option.splits intro: exec_inv)

lemma run_extends: "store_inv s \<Longrightarrow> extends s (run exec xs s)"
proof (induction xs arbitrary: s)
  case (Cons x xs)
  show ?case
  proof (cases "exec x s")
    case None
    then show ?thesis using Cons by simp
  next
    case (Some s')
    have "extends s' (run exec xs s')" by (rule Cons.IH [OF exec_inv [OF Cons.prems Some]])
    then show ?thesis using exec_extends [OF Cons.prems Some] Some by (simp add: extends_trans)
  qed
qed simp

text \<open>A sequence number means the same event for ever.\<close>

lemma run_same_event:
  assumes "store_inv s" "event_at_seq n (run exec xs s) = Some e" "n \<le> st_last_seq s"
  shows "event_at_seq n s = Some e"
proof -
  have l: "log_inv s" "log_inv (run exec xs s)" using assms(1) run_inv [OF assms(1)] by (simp_all add: store_inv_def)
  then have "e \<in> set (st_events (run exec xs s))" "ev_seq e = n" using assms(2) by (simp_all add: event_at_seq_iff)
  then show ?thesis using run_extends [OF assms(1)] assms(3) l(1) by (auto simp: extends_def event_at_seq_iff)
qed

end

section \<open>Every operation keeps the log\<close>

definition same_log :: "store \<Rightarrow> store \<Rightarrow> bool" where
  "same_log s s' \<longleftrightarrow> st_events s' = st_events s \<and> st_last_seq s' = st_last_seq s"

lemma same_log_extends: "same_log s s' \<Longrightarrow> extends s s'"
  by (simp add: same_log_def extends_def)

lemma same_log_refl [simp]: "same_log s s"
  by (simp add: same_log_def)

lemma same_log_parts [simp]:
  "same_log s (set_meta k v t) \<longleftrightarrow> same_log s t" "same_log s (set_if b k v t) \<longleftrightarrow> same_log s t"
  "same_log s (bind_mount t) \<longleftrightarrow> same_log s t" "same_log s (t\<lparr>st_tombstones := ts, st_watermarks := ws\<rparr>) \<longleftrightarrow> same_log s t"
  "same_log s (t\<lparr>st_memories := ms\<rparr>) \<longleftrightarrow> same_log s t" "same_log s (fold (\<lambda>k. set_meta k v) ks t) \<longleftrightarrow> same_log s t"
  "same_log s (record_outcome key at e d t) \<longleftrightarrow> same_log s t" "same_log s (fst (delete_tombstones ids t)) \<longleftrightarrow> same_log s t"
  by (simp_all add: same_log_def set_if_def bind_mount_def fold_set_meta)

lemma insert_many_same_log: "same_log s (fst (insert_many_ignore now rs s))"
proof -
  have "same_log s (fst st) \<Longrightarrow> same_log s (fst (fold (insert_ignore now) rs st))" for st
    by (induction rs arbitrary: st) (simp_all add: insert_ignore_def Let_def)
  then show ?thesis by (simp add: insert_many_ignore_def)
qed

lemma identity_same_log:
  "ensure_mount_identity mf m r h s = Inr (s', x) \<Longrightarrow> same_log s s'"
  "set_mount_identity m' r' h' s = Inr (s', i) \<Longrightarrow> same_log s s'"
  "record_clone_lineage b adopt r h s = Inr (s', i) \<Longrightarrow> same_log s s'"
  "fork_replica p r h s = Inr (s', i) \<Longrightarrow> same_log s s'"
  "replace_history keep m r h s = Inr (s', i) \<Longrightarrow> same_log s s'"
  by (auto simp: ensure_mount_identity_def Let_def split: if_splits)
    (auto simp: set_mount_identity_def set_optional_id_def rbind_eq_Inr split: if_splits option.splits,
     auto simp: record_clone_lineage_def clone_identity_def rotate_id_def Let_def rbind_eq_Inr,
     auto simp: fork_replica_def Let_def rbind_eq_Inr,
     auto simp: replace_history_def replace_ids_def reset_epoch_def Let_def rbind_eq_Inr)

lemma restore_same_log: "restore_lineage b r h r2 h2 s = Inr (s', i) \<Longrightarrow> same_log s s'"
  unfolding restore_lineage_def by (drule identity_same_log(3)) (simp add: same_log_def)

lemma same_log_cong: "same_log s s1 \<Longrightarrow> same_log s2 s3 \<Longrightarrow> extends s1 s2 = extends s s3"
  by (simp add: same_log_def extends_def)

lemma extends_frame: "same_log s s1 \<Longrightarrow> extends s1 s2 \<Longrightarrow> same_log s2 s3 \<Longrightarrow> extends s s3"
  using same_log_cong by blast

lemma delete_row_extends:
  assumes "delete_row env m a dg row s = Inr (t, oc)"
  shows "extends s t"
proof -
  obtain s1 ev p at k d le ts where
    a: "append_event (en_event_id env) (en_now env) ''memory.deleted'' (Some m) (str_or_empty row ''namespace'') p at
      (delete_replay_watermark m (delete_memory_row m s)) = Inr (s1, ev)"
    and t: "t = record_outcome k d le oc (record_tombstone ts s1)"
    by (rule delete_row_result [OF assms]) blast
  show ?thesis
    by (rule extends_frame [OF _ extends_append [OF a]]) (simp_all add: t same_log_def)
qed

lemma delete_memory_extends: "delete_memory_record env m a s = Inr (s', outcome) \<Longrightarrow> extends s s'"
  by (auto simp: delete_memory_record_def rbind_eq_Inr split: option.splits intro: delete_row_extends)

lemma append_signal_extends: "append_signal env m ns a at s = Inr s' \<Longrightarrow> extends s s'"
  by (erule append_signal_result) (auto intro: extends_append)

lemma write_update_extends:
  assumes "write_update env m a row after hash s = Inr (s', oc)"
  shows "extends s s'"
proof -
  obtain p vals s1 s2 s3 ev found at k d le w where
    r: "replace_memory_record vals s = Inr (s1, found)"
    and ap: "append_event (en_event_id env) (en_now env) ''memory.updated'' (Some m) (str_or_empty row ''namespace'') p (Some at) s1 = Inr (s2, ev)"
    and sg: "append_signal env m (str_or_empty row ''namespace'') a at s2 = Inr s3"
    and s': "s' = record_outcome k d le oc (set_replay_watermark w s3)"
    by (rule write_update_result [OF assms])
  have "same_log s s1" using r by (auto simp: replace_memory_record_def Let_def split: if_splits)
  then have "extends s s2" by (rule extends_frame [OF _ extends_append [OF ap]]) simp
  then have "extends s s3" using append_signal_extends [OF sg] by (rule extends_trans)
  then show ?thesis by (rule extends_frame [OF same_log_refl]) (simp add: s' same_log_def)
qed

lemma update_memory_extends: "update_memory_record env de m a s = Inr (s', outcome) \<Longrightarrow> extends s s'"
  by (auto simp: update_memory_record_def rbind_eq_Inr split: option.splits intro: write_update_extends)

lemma transition_step:
  "transition env de m st r ac em s = Inr (s', outcome) \<Longrightarrow> \<exists>a o1. update_memory_record env de m a s = Inr (s', o1)"
  by (auto simp: transition_def rbind_eq_Inr split: if_splits option.splits)

lemma candidate_step:
  "mark_candidate env de m c r em s = Inr (s', outcome) \<Longrightarrow> \<exists>a o1. update_memory_record env de m a s = Inr (s', o1)"
  by (auto simp: mark_candidate_def rbind_eq_Inr split: option.splits)

lemma compact_extends: "compact_tombstones a s = Inr (s', r) \<Longrightarrow> extends s s'"
  by (erule compact_cases) (auto simp: compact_effect_def Let_def case_prod_beta intro!: same_log_extends split: if_splits)

lemma trim_count_prefix:
  "store_inv s \<Longrightarrow> trim_events_by_count n s = Inr (s', k) \<Longrightarrow> extends s s'"
  using trim_count_eq by (metis extends_delete_events)

lemma apply_inv:
  assumes "store_inv s" "apply_operation x s = Some s'"
  shows "store_inv s'"
proof (cases x)
  case (Promote env de m st r ac em)
  then show ?thesis using assms transition_step update_memory_inv by (fastforce simp del: split_paired_Ex)
next
  case (MarkCandidate env de m c r em)
  then show ?thesis using assms candidate_step update_memory_inv by (fastforce simp del: split_paired_Ex)
next
  case (InsertMany now rs)
  then show ?thesis using assms insert_many_inv by auto
qed (use assms in \<open>auto intro: insert_row_inv append_event_inv update_memory_inv delete_memory_inv trim_before_inv
    trim_count_inv compact_inv ensure_mount_identity_inv set_mount_identity_inv record_clone_lineage_inv restore_lineage_inv
    fork_replica_inv replace_history_inv\<close>)

lemma apply_extends:
  assumes "store_inv s" "apply_operation x s = Some s'"
  shows "extends s s'"
proof (cases x)
  case (Promote env de m st r ac em)
  then show ?thesis using assms transition_step update_memory_extends by (fastforce simp del: split_paired_Ex)
next
  case (MarkCandidate env de m c r em)
  then show ?thesis using assms candidate_step update_memory_extends by (fastforce simp del: split_paired_Ex)
next
  case (InsertMany now rs)
  then show ?thesis using assms same_log_extends [OF insert_many_same_log] by auto
next
  case (InsertRecord now r)
  then show ?thesis using assms by (auto simp: insert_row_def Let_def intro!: same_log_extends split: if_splits)
next
  case (TrimBefore n)
  then show ?thesis
    using assms by (auto simp: trim_events_before_seq_def intro: extends_delete_events [OF _ before_prefix])
qed (use assms in \<open>auto intro: extends_append update_memory_extends delete_memory_extends trim_count_prefix compact_extends
    same_log_extends identity_same_log restore_same_log\<close>)

interpretation operations: log_keeping apply_operation
  by unfold_locales (rule apply_inv, assumption+, rule apply_extends, assumption+)

section \<open>What every run keeps\<close>

text \<open>The stores that operations can produce from a new database.\<close>

inductive reachable :: "store \<Rightarrow> bool" where
  start: "reachable empty_store"
| step: "reachable s \<Longrightarrow> apply_operation x s = Some s' \<Longrightarrow> reachable s'"

inductive_cases reachable_cases: "reachable s"

text \<open>C22. Whatever operations run, in whatever order and with whatever failures, the store stays consistent:
  event sequence numbers ascend and are distinct, ids are distinct, the retention and compaction marks are
  ordered and below every retained event, records have distinct ids and no two records of a namespace
  share a content hash.
\<close>

theorem reachable_store_inv:
  assumes "reachable s"
  shows "store_inv s"
  using assms by induction (auto intro: empty_store_inv operations.exec_inv)

text \<open>C23. The event log is append-only over every run: sequence numbers are never reused, and an event that a
  later store still has under an old sequence number is the event it always was.
\<close>

theorem run_append_only:
  assumes "store_inv s"
  shows "st_last_seq s \<le> st_last_seq (run apply_operation xs s)
    \<and> (\<forall>n e. n \<le> st_last_seq s \<longrightarrow> event_at_seq n (run apply_operation xs s) = Some e \<longrightarrow> event_at_seq n s = Some e)"
  using operations.run_extends [OF assms, of xs] operations.run_same_event [OF assms, of _ xs]
  by (auto simp: extends_def)

text \<open>The events a cursor asks for.\<close>

definition cursor_scope :: "replay_cursor \<Rightarrow> string list \<Rightarrow> event_row \<Rightarrow> bool" where
  "cursor_scope c types e \<longleftrightarrow> ev_type e \<in> set types \<and> (case rc_namespace c of None \<Rightarrow> True | Some ns \<Rightarrow> ev_namespace e = ns)"

lemma cursor_stream:
  assumes "store_inv s" "replay_cursor_events raw ns s = Inr evs" "decode_cursor raw = Inr c"
  obtains types where "validate_source None \<lparr>rq_namespace = ns, rq_types = JNull, rq_allow_legacy = True\<rparr> raw s = Inr c"
    "effective_replay_event_types c JNull = Inr types"
    "evs = map row_to_event (filter (\<lambda>e. rc_seq c < ev_seq e \<and> cursor_scope c types e) (st_events s))"
proof -
  obtain c' types where v: "validate_source None \<lparr>rq_namespace = ns, rq_types = JNull, rq_allow_legacy = True\<rparr> raw s = Inr c'"
    and t: "effective_replay_event_types c' JNull = Inr types"
    and e: "evs = filter (\<lambda>e. pe_type e \<in> set types) (replay_events (rc_namespace c') (rc_seq c') s)"
    using assms(2) by (auto simp: replay_cursor_events_def rbind_eq_Inr)
  have c: "c' = c" using v assms(3) by (auto simp: validate_source_def rbind_eq_Inr)
  have l: "log_inv s" using assms(1) by (simp add: store_inv_def)
  have "evs = map row_to_event (filter (\<lambda>e. rc_seq c < ev_seq e \<and> cursor_scope c types e) (st_events s))"
    unfolding e c replay_events_all [OF l] filter_map
    by (cases "rc_namespace c") (simp_all add: row_to_event_def after_filter_def cursor_scope_def comp_def conj_ac)
  then show ?thesis using that v t c by blast
qed

lemma cursor_anchor:
  assumes "store_inv t" "validate_source g r w t = Inr c" "wf_cursor c" "0 < rc_seq c"
  obtains e where "event_at_seq (rc_seq c) t = Some e"
proof -
  from assms(2) obtain b k where v: "event_log_bounds t = Inr b" "check_window b k c t = Inr ()"
      "meta_int ''compacted_tombstones_through_seq'' t = Inr k"
    unfolding validate_source_Inr by blast
  note bi = bounds_inv [OF assms(1) v(1)]
  show ?thesis using check_window_Inr(3) [OF v(2) bi(2,1)] bi(4) v(3) assms(3,4) that by auto
qed

text \<open>Where the anchor is kept, the log after it only grows at its end.\<close>

lemma extended_log:
  assumes "log_inv s" "log_inv s'" "extends s s'" "a \<in> set (st_events s)" "a \<in> set (st_events s')"
  shows "filter (\<lambda>e. ev_seq a < ev_seq e \<and> P e) (st_events s')
    = filter (\<lambda>e. ev_seq a < ev_seq e \<and> P e) (st_events s) @ filter (\<lambda>e. st_last_seq s < ev_seq e \<and> P e) (st_events s')"
    (is "?L = ?old @ ?new")
proof -
  have so: "sorted_wrt (\<lambda>x y. ev_seq x < ev_seq y) (st_events s)" "sorted_wrt (\<lambda>x y. ev_seq x < ev_seq y) (st_events s')"
    using assms(1,2) by (simp_all add: log_inv_def sorted_wrt_map)
  have b: "ev_seq a \<le> st_last_seq s" "\<And>e. e \<in> set (st_events s) \<Longrightarrow> ev_seq e \<le> st_last_seq s"
    using assms(1,4) by (auto simp: log_inv_def)
  have x: "e \<in> set (st_events s') \<Longrightarrow> ev_seq e \<le> st_last_seq s \<Longrightarrow> e \<in> set (st_events s)"
    "e \<in> set (st_events s) \<Longrightarrow> ev_seq a < ev_seq e \<Longrightarrow> e \<in> set (st_events s')" for e
    using extendsD [OF assms(3)] assms(4,5) b(2) [of e] by (blast intro: less_imp_le)+
  have st: "set ?L = set (?old @ ?new)"
  proof (intro set_eqI iffI)
    fix e assume "e \<in> set ?L"
    then show "e \<in> set (?old @ ?new)" using x(1) [of e] by (cases "ev_seq e \<le> st_last_seq s") auto
  next
    fix e assume "e \<in> set (?old @ ?new)"
    then show "e \<in> set ?L" using x(2) [of e] b(1) by auto
  qed
  have "sorted_wrt (\<lambda>x y. ev_seq x < ev_seq y) ?old" "sorted_wrt (\<lambda>x y. ev_seq x < ev_seq y) ?new"
    "\<forall>x \<in> set ?old. \<forall>y \<in> set ?new. ev_seq x < ev_seq y"
    using sorted_wrt_filter [OF so(1)] sorted_wrt_filter [OF so(2)] b(2) by (auto intro: le_less_trans)
  then have s2: "sorted_wrt (\<lambda>x y. ev_seq x < ev_seq y) (?old @ ?new)" by (simp only: sorted_wrt_append simp_thms)
  have s1: "sorted_wrt (\<lambda>x y. ev_seq x < ev_seq y) ?L" by (rule sorted_wrt_filter [OF so(2)])
  have "map ev_seq ?L = map ev_seq (?old @ ?new)"
    by (rule strict_sorted_equal) (simp_all only: sorted_wrt_map s1 s2 set_map st)
  moreover have "inj_on ev_seq (set (st_events s'))"
    using assms(2) strict_sorted_iff [of "map ev_seq (st_events s')"] by (simp add: log_inv_def distinct_map)
  then have "inj_on ev_seq (set ?L \<union> set (?old @ ?new))" unfolding st [symmetric] by (rule inj_on_subset) auto
  ultimately show ?thesis by (rule map_inj_on)
qed

text \<open>C24. A cursor keeps its meaning over every run of the operations. Let a store answer a replay from an anchored
  cursor, and answer it again after any operations have run on it. Then the anchor is the same event as before,
  and the second answer is the first one followed by the events that were appended meanwhile, are still there, and
  are in the namespace and of the types that the cursor asks for: no event of the first answer is lost, none is
  changed, and none of the new ones is missing.
\<close>

theorem cursor_stable_over_runs:
  assumes "store_inv s" "decode_cursor raw = Inr c" "wf_cursor c" "0 < rc_seq c"
    and "replay_cursor_events raw ns s = Inr evs"
    and "s' = run apply_operation xs s" "replay_cursor_events raw ns' s' = Inr evs'"
  shows "event_at_seq (rc_seq c) s' = event_at_seq (rc_seq c) s
    \<and> (\<exists>types. effective_replay_event_types c JNull = Inr types
        \<and> evs' = evs @ map row_to_event (filter (\<lambda>e. st_last_seq s < ev_seq e \<and> cursor_scope c types e) (st_events s')))"
proof -
  have inv: "store_inv s'" unfolding assms(6) by (rule operations.run_inv [OF assms(1)])
  obtain types where v: "validate_source None \<lparr>rq_namespace = ns, rq_types = JNull, rq_allow_legacy = True\<rparr> raw s = Inr c"
      "effective_replay_event_types c JNull = Inr types"
      "evs = map row_to_event (filter (\<lambda>e. rc_seq c < ev_seq e \<and> cursor_scope c types e) (st_events s))"
    by (rule cursor_stream [OF assms(1,5,2)])
  obtain types' where v': "validate_source None \<lparr>rq_namespace = ns', rq_types = JNull, rq_allow_legacy = True\<rparr> raw s' = Inr c"
      "effective_replay_event_types c JNull = Inr types'"
      "evs' = map row_to_event (filter (\<lambda>e. rc_seq c < ev_seq e \<and> cursor_scope c types' e) (st_events s'))"
    by (rule cursor_stream [OF inv assms(7,2)])
  obtain e where e: "event_at_seq (rc_seq c) s = Some e" by (rule cursor_anchor [OF assms(1) v(1) assms(3,4)])
  obtain e' where e': "event_at_seq (rc_seq c) s' = Some e'" by (rule cursor_anchor [OF inv v'(1) assms(3,4)])
  have l: "log_inv s" "log_inv s'" using assms(1) inv by (simp_all add: store_inv_def)
  then have a: "e \<in> set (st_events s)" "ev_seq e = rc_seq c" "rc_seq c \<le> st_last_seq s"
    using e by (auto simp: event_at_seq_iff log_inv_def)
  have same: "event_at_seq (rc_seq c) s = Some e'"
    using operations.run_same_event [OF assms(1) _ a(3)] e' by (simp add: assms(6))
  then have "e \<in> set (st_events s')" using e e' l(2) by (auto simp: event_at_seq_iff)
  moreover have "extends s s'" unfolding assms(6) by (rule operations.run_extends [OF assms(1)])
  ultimately have "filter (\<lambda>x. rc_seq c < ev_seq x \<and> cursor_scope c types x) (st_events s')
      = filter (\<lambda>x. rc_seq c < ev_seq x \<and> cursor_scope c types x) (st_events s)
        @ filter (\<lambda>x. st_last_seq s < ev_seq x \<and> cursor_scope c types x) (st_events s')"
    using extended_log [OF l _ a(1)] by (simp add: a(2))
  then show ?thesis using v v' same e' by auto
qed

section \<open>Examples\<close>

definition note_event :: "string \<Rightarrow> operation" where
  "note_event i = AppendEvent i ''2026-01-02'' ''hygiene.checked'' None ''n'' (JObj []) None"

definition run_example :: "operation list" where
  "run_example = [note_event ''e4'', TrimBefore 2, note_event ''e4'', note_event ''e5'']"

lemma reachable_store_inv_witness:
  "\<exists>s. apply_operation (note_event ''e1'') empty_store = Some s \<and> store_inv s \<and> length (st_events s) = 1"
proof -
  have n: "apply_operation (note_event ''e1'') empty_store \<noteq> None" by code_simp
  then obtain s where s: "apply_operation (note_event ''e1'') empty_store = Some s" by blast
  have "map_option (\<lambda>s. length (st_events s)) (apply_operation (note_event ''e1'') empty_store) = Some 1" by code_simp
  with s show ?thesis using reachable_store_inv [OF reachable.step [OF reachable.start s]] by simp
qed

lemma run_append_only_witness:
  "event_at_seq 3 (run apply_operation run_example example_store) = event_at_seq 3 example_store
   \<and> event_at_seq 1 (run apply_operation run_example example_store) = None"
proof -
  have "st_last_seq example_store = 3" by code_simp
  moreover have "event_at_seq 3 (run apply_operation run_example example_store) \<noteq> None" by code_simp
  moreover have "event_at_seq 1 (run apply_operation run_example example_store) = None" by code_simp
  ultimately show ?thesis using run_append_only [OF example_store_inv, of run_example] by auto
qed

definition busy_run :: "operation list" where
  "busy_run = [AppendEvent ''e4'' ''2026-01-02'' ''memory.created'' None ''n'' (JObj []) None, TrimBefore 2, note_event ''e5'']"

lemma cursor_stable_over_runs_witness:
  "\<exists>evs evs'. replay_cursor_events (CursorObject head_cursor) None cursor_store = Inr evs
    \<and> replay_cursor_events (CursorObject head_cursor) None (run apply_operation busy_run cursor_store) = Inr evs'
    \<and> length evs' = length evs + 1"
proof -
  let ?s = "run apply_operation busy_run cursor_store"
  have "\<not> isl (replay_cursor_events (CursorObject head_cursor) None cursor_store)"
    "\<not> isl (replay_cursor_events (CursorObject head_cursor) None ?s)" by code_simp+
  then obtain evs evs' where e: "replay_cursor_events (CursorObject head_cursor) None cursor_store = Inr evs"
      "replay_cursor_events (CursorObject head_cursor) None ?s = Inr evs'" by (auto simp: isl_def) (meson sum.exhaust)
  have d: "decode_cursor (CursorObject head_cursor) = Inr head_cursor" "effective_replay_event_types head_cursor JNull = Inr RECONSTRUCTING_EVENT_TYPES"
    "length (filter (\<lambda>e. st_last_seq cursor_store < ev_seq e \<and> cursor_scope head_cursor RECONSTRUCTING_EVENT_TYPES e) (st_events ?s)) = 1"
    by code_simp+
  have "0 < rc_seq head_cursor" by (simp add: head_cursor_def)
  from cursor_stable_over_runs [OF cursor_store_inv d(1) make_cursor_wf [OF head_cursor_facts(3)] this e(1) refl e(2)] d(2,3) e
  show ?thesis by auto
qed

end
