(* ===== verification/ReplayPlan.thy ===== *)
theory ReplayPlan
  imports EventLog
begin

text \<open>
  Pass 1 of a replay (\<open>events.py\<close>): the candidate rows of the target are loaded, and every event
  is checked against a simulation of the target (\<open>_validate_and_plan_event_step\<close>), which is
  moved on by the events that will be applied. Nothing is written; an event that cannot be applied raises
  \<open>ReplayExecutionError\<close>, of which the reason is kept.
\<close>

section \<open>State\<close>

datatype replay_exn = ExecutionError string | ReplayExn cursor_exn

type_synonym 'a replay_res = "replay_exn + 'a"

definition of_cursor :: "'a cursor_res \<Rightarrow> 'a replay_res" where
  "of_cursor m = map_sum ReplayExn id m"

definition of_py_exn :: "py_exn + 'a \<Rightarrow> 'a replay_res" where
  "of_py_exn m = map_sum (\<lambda>e. ReplayExn (CursorPy e)) id m"

definition of_db_exn :: "'a db_res \<Rightarrow> 'a replay_res" where
  "of_db_exn m = map_sum (\<lambda>e. ReplayExn (CursorDb e)) id m"

abbreviation bad_payload :: replay_exn where "bad_payload \<equiv> ExecutionError ''malformed_event_payload''"

abbreviation bad_identity :: replay_exn where "bad_identity \<equiv> ExecutionError ''identity_mismatch''"

abbreviation bad_base :: replay_exn where "bad_base \<equiv> ExecutionError ''base_state_mismatch''"

record live_entry =
  lv_identifier :: string
  lv_namespace :: string
  lv_hash :: string
  lv_fingerprint :: string

record plan_state =
  pl_live :: "string \<Rightarrow> live_entry option"
  pl_pairs :: "string \<times> string \<Rightarrow> string option"
  pl_tombs :: "string \<Rightarrow> tombstone option"
  pl_marks :: "string \<Rightarrow> watermark option"
  pl_loaded_live :: "string set"
  pl_loaded_pairs :: "(string \<times> string) set"
  pl_loaded_tombs :: "string set"
  pl_loaded_marks :: "string set"
  pl_mutated :: "string set"
  pl_created :: "string set"
  pl_legacy_created :: "string set"
  pl_legacy_deduped :: "string set"

definition empty_plan :: plan_state where
  "empty_plan = \<lparr>pl_live = Map.empty, pl_pairs = Map.empty, pl_tombs = Map.empty, pl_marks = Map.empty,
     pl_loaded_live = {}, pl_loaded_pairs = {}, pl_loaded_tombs = {}, pl_loaded_marks = {},
     pl_mutated = {}, pl_created = {}, pl_legacy_created = {}, pl_legacy_deduped = {}\<rparr>"

section \<open>Loading the candidates\<close>

definition get_memories :: "string list \<Rightarrow> store \<Rightarrow> dict list" where
  "get_memories ids s = filter (\<lambda>r. row_key r \<in> JStr ` set (filter (\<lambda>i. i \<noteq> []) ids)) (st_memories s)"

definition row_pair :: "dict \<Rightarrow> string \<times> string" where
  "row_pair r = (str_or_empty r ''namespace'', str_or_empty r ''content_hash'')"

definition get_memories_by_identity :: "(string \<times> string) list \<Rightarrow> store \<Rightarrow> dict list" where
  "get_memories_by_identity pairs s =
     filter (\<lambda>r. (dget r ''namespace'', dget r ''content_hash'')
       \<in> (\<lambda>(ns, h). (JStr ns, JStr h)) ` set (filter (\<lambda>(ns, h). h \<noteq> []) pairs)) (st_memories s)"

definition live_of :: "dict \<Rightarrow> live_entry" where
  "live_of r = \<lparr>lv_identifier = str_or_empty r ''identifier'', lv_namespace = str_or_empty r ''namespace'',
     lv_hash = str_or_empty r ''content_hash'', lv_fingerprint = safe_record_fingerprint r\<rparr>"

text \<open>The candidate ids and identity pairs of a page of events.\<close>

definition event_ids :: "dict \<Rightarrow> string list" where
  "event_ids evt = (case dget evt ''payload'' of
     JObj p \<Rightarrow> (let m = por (dget p ''id'') (dget evt ''memory_id'') in if truthy m then [py_str m] else [])
   | _ \<Rightarrow> [])"

definition event_pairs :: "dict \<Rightarrow> (string \<times> string) list" where
  "event_pairs evt = (case dget evt ''payload'' of
     JObj p \<Rightarrow>
       (let v = por (dget p ''namespace'') (dget evt ''namespace''); ns = (if truthy v then py_str v else []) in
        map (\<lambda>k. (ns, py_str (dget p k)))
          (filter (\<lambda>k. truthy (dget p k)) [''content_hash'', ''previous_content_hash'']))
   | _ \<Rightarrow> [])"

definition load_row :: "dict \<Rightarrow> plan_state \<Rightarrow> plan_state" where
  "load_row r p =
     (let m = py_str (row_key r) in
      if m \<in> pl_mutated p \<or> pl_live p m \<noteq> None then p
      else p\<lparr>pl_live := (pl_live p)(m \<mapsto> live_of r),
             pl_pairs := (if snd (row_pair r) = [] then pl_pairs p else (pl_pairs p)(row_pair r \<mapsto> m))\<rparr>)"

definition load_pair_row :: "dict \<Rightarrow> plan_state \<Rightarrow> plan_state" where
  "load_pair_row r p =
     (let m = str_or_empty r ''id'' in
      if m = [] \<or> m \<in> pl_mutated p then p
      else p\<lparr>pl_pairs := (if pl_pairs p (row_pair r) = None then (pl_pairs p)(row_pair r \<mapsto> m) else pl_pairs p),
             pl_live := (if pl_live p m = None then (pl_live p)(m \<mapsto> live_of r) else pl_live p)\<rparr>)"

definition load_live :: "store \<Rightarrow> string list \<Rightarrow> plan_state \<Rightarrow> plan_state" where
  "load_live t ids p =
     (let fetch = filter (\<lambda>m. m \<notin> pl_loaded_live p) ids in
      fold load_row (get_memories fetch t) (p\<lparr>pl_loaded_live := pl_loaded_live p \<union> set fetch\<rparr>))"

definition load_pairs :: "store \<Rightarrow> (string \<times> string) list \<Rightarrow> plan_state \<Rightarrow> plan_state" where
  "load_pairs t pairs p =
     (let fetch = filter (\<lambda>q. q \<notin> pl_loaded_pairs p \<and> snd q \<noteq> []) pairs in
      fold load_pair_row (get_memories_by_identity fetch t) (p\<lparr>pl_loaded_pairs := pl_loaded_pairs p \<union> set fetch\<rparr>))"

text \<open>Tombstones and watermarks are looked up by id, so that the update of the dictionary is one of the map.\<close>

definition fetched :: "string set \<Rightarrow> (string \<Rightarrow> 'a option) \<Rightarrow> (string \<Rightarrow> 'a option) \<Rightarrow> string \<Rightarrow> 'a option" where
  "fetched ids new old m = (if m \<in> ids \<and> m \<noteq> [] \<and> new m \<noteq> None then new m else old m)"

definition load_tombs :: "store \<Rightarrow> string list \<Rightarrow> plan_state \<Rightarrow> plan_state" where
  "load_tombs t ids p =
     (let fetch = set ids - pl_loaded_tombs p in
      p\<lparr>pl_loaded_tombs := pl_loaded_tombs p \<union> fetch, pl_tombs := fetched fetch (\<lambda>m. get_tombstone m t) (pl_tombs p)\<rparr>)"

definition load_marks :: "store \<Rightarrow> string list \<Rightarrow> plan_state \<Rightarrow> plan_state" where
  "load_marks t ids p =
     (let fetch = set ids - pl_loaded_marks p in
      p\<lparr>pl_loaded_marks := pl_loaded_marks p \<union> fetch,
        pl_marks := fetched fetch (\<lambda>m. get_replay_watermark m t) (pl_marks p)\<rparr>)"

definition load_candidates :: "store \<Rightarrow> dict list \<Rightarrow> plan_state \<Rightarrow> plan_state" where
  "load_candidates t evs p =
     (let ids = concat (map event_ids evs) in
      load_marks t ids (load_tombs t ids (load_pairs t (concat (map event_pairs evs)) (load_live t ids p))))"

section \<open>The checks on one event\<close>

datatype disposition = Observational | SkipIdempotent | SkipLegacyDeduped | ApplyCreate | ApplyUpdate | ApplyDelete

record planned =
  pd_disposition :: disposition
  pd_seq :: int
  pd_namespace :: string
  pd_hash :: string
  pd_fingerprint :: string

record checked =
  ce_seq :: int
  ce_id :: string
  ce_type :: string
  ce_payload :: dict
  ce_v1 :: bool
  ce_mid :: string
  ce_ns :: string

definition source_text :: "(mount_ident \<Rightarrow> string) \<Rightarrow> mount_ident option \<Rightarrow> string" where
  "source_text f src = (case src of None \<Rightarrow> [] | Some i \<Rightarrow> f i)"

definition source_legacy :: "mount_ident option \<Rightarrow> bool" where
  "source_legacy src = (case src of None \<Rightarrow> False | Some i \<Rightarrow> mi_legacy_history i)"

definition check_event_seq :: "int \<Rightarrow> json \<Rightarrow> int replay_res" where
  "check_event_seq prev v = (case v of
     JInt n \<Rightarrow> (if n \<le> 0 \<or> n \<le> prev then Inl (ExecutionError ''invalid_event_order'') else Inr n)
   | _ \<Rightarrow> Inl (ExecutionError ''invalid_event_order''))"

definition check_payload :: "json \<Rightarrow> dict replay_res" where
  "check_payload v = (case v of JObj p \<Rightarrow> Inr p | _ \<Rightarrow> Inl bad_payload)"

definition one_of :: "json \<Rightarrow> string \<Rightarrow> bool" where
  "one_of v s = (v \<in> {JNull, JStr s})"

definition check_observational :: "string \<Rightarrow> dict \<Rightarrow> unit replay_res" where
  "check_observational etype p =
     (if etype \<notin> set OBSERVATIONAL_EVENT_TYPES then Inl (ExecutionError ''unsupported_event_type'')
      else ensure (one_of (dget p ''event_category'') ''observational'') bad_payload)"

definition check_version_field :: "string \<Rightarrow> dict \<Rightarrow> bool replay_res" where
  "check_version_field etype p =
     (if has_key p ''payload_schema_version'' then
        (if dget p ''payload_schema_version'' = JInt EVENT_PAYLOAD_SCHEMA_VERSION then Inr True
         else Inl (ExecutionError ''unsupported_payload_version''))
      else if etype \<noteq> ''memory.created'' then Inl (ExecutionError ''missing_payload_version'')
      else Inr False)"

definition check_envelope_id :: "bool \<Rightarrow> json \<Rightarrow> string \<Rightarrow> unit replay_res" where
  "check_envelope_id v1 outer m =
     (if v1 \<and> (outer = JNull \<or> py_str outer = []) then Inl bad_identity
      else ensure (outer = JNull \<or> py_str outer = [] \<or> py_str outer = m) bad_identity)"

definition nonempty_str :: "json \<Rightarrow> bool" where
  "nonempty_str v = (case v of JStr s \<Rightarrow> s \<noteq> [] | _ \<Rightarrow> False)"

definition check_v1_fields :: "dict \<Rightarrow> unit replay_res" where
  "check_v1_fields p =
     (if \<not> nonempty_str (dget p ''record_fingerprint'') then Inl bad_payload
      else case dget p ''origin'' of
        JObj d \<Rightarrow> ensure (list_all (\<lambda>k. nonempty_str (dget d k)) [''mount_id'', ''replica_id'', ''history_id'']) bad_payload
      | _ \<Rightarrow> Inl bad_payload)"

definition check_namespace :: "bool \<Rightarrow> dict \<Rightarrow> json \<Rightarrow> string replay_res" where
  "check_namespace v1 p outer =
     (let raw = dget_default p ''namespace'' (JStr []) in
      if raw \<noteq> JNull \<and> \<not> is_str raw then Inl bad_payload
      else let ns = str_of raw in
        if v1 \<and> outer \<noteq> JNull \<and> py_str outer \<noteq> ns then Inl bad_identity else Inr ns)"

definition origin_disagrees :: "dict \<Rightarrow> string \<Rightarrow> string \<Rightarrow> bool \<Rightarrow> bool" where
  "origin_disagrees d k source legacy =
     (let v = str_or_empty d k in v \<noteq> [] \<and> source \<noteq> [] \<and> v \<noteq> source \<and> \<not> legacy)"

definition check_origin :: "mount_ident option \<Rightarrow> json \<Rightarrow> unit replay_res" where
  "check_origin src origin = (case origin of
     JNull \<Rightarrow> Inr ()
   | JObj d \<Rightarrow> ensure (\<not> origin_disagrees d ''mount_id'' (source_text mi_mount_id src) (source_legacy src)
        \<and> \<not> origin_disagrees d ''history_id'' (source_text mi_history_id src) (source_legacy src))
        (ExecutionError ''origin_identity_mismatch'')
   | _ \<Rightarrow> Inl bad_payload)"

text \<open>The checks that precede the state transition; \<open>Inr None\<close> is an observational event.\<close>

definition check_event :: "int \<Rightarrow> string list \<Rightarrow> mount_ident option \<Rightarrow> dict \<Rightarrow> (int \<times> checked option) replay_res" where
  "check_event prev types src evt =
     (let etype = str_or_empty evt ''event_type'' in
      rbind (check_event_seq prev (dget evt ''seq'')) (\<lambda>seq.
      rbind (check_payload (dget evt ''payload'')) (\<lambda>p.
      if etype \<notin> set RECONSTRUCTING_EVENT_TYPES then rbind (check_observational etype p) (\<lambda>_. Inr (seq, None))
      else if \<not> one_of (dget p ''event_category'') ''reconstructing'' then Inl bad_payload
      else if etype \<notin> set types then Inl (ExecutionError ''incomplete_reconstructing_scope'')
      else rbind (check_version_field etype p) (\<lambda>v1.
        let m = str_of (dget p ''id'') in
        if strip m = [] then Inl bad_payload
        else rbind (check_envelope_id v1 (dget evt ''memory_id'') m) (\<lambda>_.
          rbind (if v1 then check_v1_fields p else Inr ()) (\<lambda>_.
          rbind (check_namespace v1 p (dget evt ''namespace'')) (\<lambda>ns.
          rbind (check_origin src (dget p ''origin'')) (\<lambda>_.
          Inr (seq, Some \<lparr>ce_seq = seq, ce_id = str_or_empty evt ''event_id'', ce_type = etype, ce_payload = p,
                         ce_v1 = v1, ce_mid = m, ce_ns = ns\<rparr>)))))))))"

section \<open>The record of a create or update\<close>

definition is_validation_error :: "ann_error \<Rightarrow> bool" where
  "is_validation_error a = (case a of AnnotationValidationError x y \<Rightarrow> True | _ \<Rightarrow> False)"

text \<open>\<open>TypeError\<close>, \<open>ValueError\<close> and \<open>AnnotationValidationError\<close> are reported as malformed.\<close>

definition catch_record :: "'a rec_res \<Rightarrow> 'a replay_res" where
  "catch_record m = (case m of
     Inr x \<Rightarrow> Inr x
   | Inl (AnnotationExn a) \<Rightarrow>
       Inl (if is_validation_error a \<or> a = PyTypeError then bad_payload else ReplayExn (CursorDb (DbRecord (AnnotationExn a))))
   | Inl (PyExn e) \<Rightarrow> Inl (if e \<in> {TypeError, ValueError} then bad_payload else ReplayExn (CursorPy e)))"

definition checksum_of :: "dict \<Rightarrow> string" where
  "checksum_of p = str_or_empty p ''source_checksum''"

definition is_absolute_uri :: "string \<Rightarrow> bool" where
  "is_absolute_uri u = (starts_with u ''/'' \<or> (2 \<le> py_len u \<and> starts_with (concat (drop 1 (utf8_chars u))) '':''))"

text \<open>\<open>legacy_file_content_hashes\<close> without a base directory: a set, as the caller uses it.\<close>

definition legacy_hashes :: "string \<Rightarrow> string \<Rightarrow> string \<Rightarrow> int \<Rightarrow> int \<Rightarrow> string \<Rightarrow> string list" where
  "legacy_hashes identifier raw norm off len checksum =
     concat (map (\<lambda>uri. let base = identifier @ '':'' @ uri @ '':'' @ int_str off @ '':'' @ int_str len in
         sha256_hex (base @ '':'' @ checksum) # (if checksum = [] then [] else [sha256_hex (base @ '':'')]))
       (filter (\<lambda>u. u \<noteq> []) [raw, norm]))"

definition range_int :: "json \<Rightarrow> int replay_res" where
  "range_int v = (case py_int (por v (JInt 0)) of
     Inr n \<Rightarrow> Inr n
   | Inl e \<Rightarrow> Inl (if e \<in> {TypeError, ValueError} then bad_payload else ReplayExn (CursorPy e)))"

text \<open>The digests that a payload may declare: \<open>None\<close> where they cannot be computed again.\<close>

definition accepted_hashes :: "dict \<Rightarrow> string list option replay_res" where
  "accepted_hashes p =
     (let identifier = str_or_empty p ''identifier''; uri = str_or_empty p ''source_uri'' in
      if uri = [] then Inr (Some [compute_content_hash identifier (str_or_empty p ''fact_text'')])
      else rbind (of_py_exn (normalize_source_uri uri None)) (\<lambda>norm.
        if is_absolute_uri norm then Inr None
        else rbind (range_int (dget p ''byte_offset'')) (\<lambda>off.
          rbind (range_int (dget p ''byte_length'')) (\<lambda>len.
          rbind (of_py_exn (compute_file_reference_hash identifier uri off len None)) (\<lambda>h.
          Inr (Some (h # legacy_hashes identifier uri norm off len (checksum_of p))))))))"

definition check_v1_record :: "dict \<Rightarrow> normalized \<Rightarrow> string \<Rightarrow> string replay_res" where
  "check_v1_record p n hash =
     rbind (of_py_exn (validate_record n)) (\<lambda>issues.
     if issues \<noteq> [] then Inl bad_payload
     else rbind (accepted_hashes p) (\<lambda>acc.
       if (case acc of None \<Rightarrow> False | Some hs \<Rightarrow> hash \<notin> set hs) then Inl bad_identity
       else rbind (of_py_exn (fingerprint_of_normalized (nr_fields n))) (\<lambda>fp.
         if py_str (dget p ''record_fingerprint'') \<noteq> fp then Inl bad_identity else Inr fp)))"

text \<open>The content hash and the fingerprint of the record after the event.\<close>

definition check_transition :: "checked \<Rightarrow> (string \<times> string) replay_res" where
  "check_transition c =
     (let p = ce_payload c; expected = (if ce_type c = ''memory.created'' then ''create'' else ''update'') in
      if \<not> one_of (dget p ''transition'') expected then Inl bad_payload
      else rbind (catch_record (normalize_record (strip_envelope_keys p) ''swap'' [])) (\<lambda>n.
        let hash = str_or_empty p ''content_hash'' in
        if hash = [] then Inl bad_payload
        else rbind (if ce_v1 c then check_v1_record p n hash
                    else of_py_exn (fingerprint_of_normalized (nr_fields n))) (\<lambda>fp.
          Inr (hash, fp))))"

section \<open>The transitions of the simulation\<close>

text \<open>History ids agree unless both are known and differ.\<close>

definition same_history :: "string \<Rightarrow> string \<Rightarrow> bool" where
  "same_history h src = (h = [] \<or> src = [] \<or> h = src)"

definition outcome :: "disposition \<Rightarrow> checked \<Rightarrow> string \<Rightarrow> string \<Rightarrow> planned" where
  "outcome d c hash fp = \<lparr>pd_disposition = d, pd_seq = ce_seq c, pd_namespace = ce_ns c, pd_hash = hash, pd_fingerprint = fp\<rparr>"

definition after_entry :: "checked \<Rightarrow> string \<Rightarrow> string \<Rightarrow> live_entry" where
  "after_entry c hash fp = \<lparr>lv_identifier = str_or_empty (ce_payload c) ''identifier'', lv_namespace = ce_ns c,
     lv_hash = hash, lv_fingerprint = fp\<rparr>"

text \<open>The watermark of a record shows that the event has been applied.\<close>

definition already_applied :: "checked \<Rightarrow> string \<Rightarrow> live_entry \<Rightarrow> plan_state \<Rightarrow> bool" where
  "already_applied c src_hist live p = (case pl_marks p (ce_mid c) of
     None \<Rightarrow> False
   | Some w \<Rightarrow> ce_mid c \<notin> pl_mutated p \<and> ce_seq c \<le> wm_seq w \<and> same_history (wm_history w) src_hist
       \<and> lv_fingerprint live = wm_fingerprint w)"

definition dedupe_marked :: "checked \<Rightarrow> string \<Rightarrow> plan_state \<Rightarrow> bool" where
  "dedupe_marked c src_hist p = (case pl_marks p (ce_mid c) of
     None \<Rightarrow> False
   | Some w \<Rightarrow> wm_fingerprint w = [] \<and> same_history (wm_history w) src_hist)"

definition bound_elsewhere :: "checked \<Rightarrow> string \<Rightarrow> plan_state \<Rightarrow> bool" where
  "bound_elsewhere c hash p = (case pl_pairs p (ce_ns c, hash) of None \<Rightarrow> False | Some m \<Rightarrow> m \<noteq> ce_mid c)"

definition create_new :: "checked \<Rightarrow> string \<Rightarrow> string \<Rightarrow> plan_state \<Rightarrow> plan_state" where
  "create_new c hash fp p =
     p\<lparr>pl_live := (pl_live p)(ce_mid c \<mapsto> after_entry c hash fp),
       pl_pairs := (pl_pairs p)((ce_ns c, hash) \<mapsto> ce_mid c),
       pl_mutated := insert (ce_mid c) (pl_mutated p),
       pl_created := insert (ce_mid c) (pl_created p),
       pl_legacy_created := (if ce_v1 c then pl_legacy_created p else insert (ce_mid c) (pl_legacy_created p))\<rparr>"

definition plan_create :: "checked \<Rightarrow> string \<Rightarrow> string \<Rightarrow> string \<Rightarrow> plan_state \<Rightarrow> (disposition \<times> plan_state) replay_res" where
  "plan_create c src_hist hash fp p = (case pl_tombs p (ce_mid c) of
     Some t \<Rightarrow>
       (if ce_seq c \<le> ts_seq t \<and> same_history (ts_history t) src_hist \<and> ce_mid c \<notin> pl_created p
        then Inr (SkipIdempotent, p) else Inl (ExecutionError ''tombstoned_record_resurrection''))
   | None \<Rightarrow> (case pl_live p (ce_mid c) of
       Some live \<Rightarrow>
         (if lv_namespace live \<noteq> ce_ns c then Inl bad_identity
          else if \<not> ce_v1 c \<and> lv_hash live = hash then Inr (SkipIdempotent, p)
          else if lv_fingerprint live = fp \<and> lv_hash live = hash then Inr (SkipIdempotent, p)
          else if already_applied c src_hist live p then Inr (SkipIdempotent, p)
          else Inl bad_identity)
     | None \<Rightarrow>
         (if bound_elsewhere c hash p then
            (if ce_v1 c then Inl bad_identity
             else Inr (SkipLegacyDeduped, p\<lparr>pl_legacy_deduped := insert (ce_mid c) (pl_legacy_deduped p)\<rparr>))
          else Inr (ApplyCreate, create_new c hash fp p))))"

text \<open>\<open>v is not None and str(v) != ""\<close>, and the value it must agree with.\<close>

definition base_differs :: "json \<Rightarrow> string \<Rightarrow> bool" where
  "base_differs v x = (v \<noteq> JNull \<and> py_str v \<noteq> [] \<and> x \<noteq> py_str v)"

text \<open>\<open>v in (None, "") or v != x or y == str(v)\<close>\<close>

definition base_stands :: "json \<Rightarrow> string \<Rightarrow> string \<Rightarrow> bool" where
  "base_stands v x y = (v \<in> {JNull, JStr []} \<or> v \<noteq> JStr x \<or> y = py_str v)"

definition set_live :: "checked \<Rightarrow> live_entry \<Rightarrow> string \<Rightarrow> string \<Rightarrow> plan_state \<Rightarrow> plan_state" where
  "set_live c live hash fp p =
     (let pairs = (if lv_hash live \<noteq> hash then (pl_pairs p)((ce_ns c, lv_hash live) := None) else pl_pairs p) in
      p\<lparr>pl_live := (pl_live p)(ce_mid c \<mapsto> after_entry c hash fp),
        pl_pairs := pairs((ce_ns c, hash) \<mapsto> ce_mid c),
        pl_mutated := insert (ce_mid c) (pl_mutated p),
        pl_legacy_created := pl_legacy_created p - {ce_mid c}\<rparr>)"

definition update_live ::
  "checked \<Rightarrow> string \<Rightarrow> string \<Rightarrow> string \<Rightarrow> live_entry \<Rightarrow> plan_state \<Rightarrow> (disposition \<times> plan_state) replay_res" where
  "update_live c src_hist hash fp live p =
     (let ph = dget (ce_payload c) ''previous_content_hash''; pf = dget (ce_payload c) ''previous_record_fingerprint'' in
      if lv_namespace live \<noteq> ce_ns c then Inl bad_identity
      else if ce_v1 c \<and> (\<not> nonempty_str ph \<or> \<not> nonempty_str pf) then Inl bad_payload
      else if lv_fingerprint live = fp \<and> lv_hash live = hash
        \<and> base_stands ph hash (lv_hash live) \<and> base_stands pf fp (lv_fingerprint live) then Inr (SkipIdempotent, p)
      else if already_applied c src_hist live p then Inr (SkipIdempotent, p)
      else if base_differs ph (lv_hash live) then Inl bad_base
      else if ce_mid c \<notin> pl_legacy_created p \<and> base_differs pf (lv_fingerprint live) then Inl bad_base
      else if bound_elsewhere c hash p then Inl (ExecutionError ''content_hash_conflict'')
      else Inr (ApplyUpdate, set_live c live hash fp p))"

definition plan_update :: "checked \<Rightarrow> string \<Rightarrow> string \<Rightarrow> string \<Rightarrow> plan_state \<Rightarrow> (disposition \<times> plan_state) replay_res" where
  "plan_update c src_hist hash fp p =
     (if ce_mid c \<in> pl_legacy_deduped p then Inr (SkipIdempotent, p)
      else case pl_tombs p (ce_mid c) of
        Some t \<Rightarrow>
          (if ce_seq c \<le> ts_seq t \<and> same_history (ts_history t) src_hist \<and> ce_mid c \<notin> pl_mutated p
           then Inr (SkipIdempotent, p) else Inl (ExecutionError ''tombstoned_record_mutation''))
      | None \<Rightarrow> (case pl_live p (ce_mid c) of
          None \<Rightarrow> (if dedupe_marked c src_hist p then Inr (SkipLegacyDeduped, p)
                   else Inl (ExecutionError ''missing_target_record''))
        | Some live \<Rightarrow> update_live c src_hist hash fp live p))"

definition deleted_at_of :: "dict \<Rightarrow> dict \<Rightarrow> json" where
  "deleted_at_of evt p = por (dget p ''deleted_at'') (dget evt ''occurred_at'')"

definition forget_live ::
  "checked \<Rightarrow> string \<Rightarrow> live_entry \<Rightarrow> string \<Rightarrow> string \<Rightarrow> string \<Rightarrow> plan_state \<Rightarrow> plan_state" where
  "forget_live c src_hist live deleted_at hash fp p =
     p\<lparr>pl_pairs := (pl_pairs p)((ce_ns c, lv_hash live) := None),
       pl_live := (pl_live p)(ce_mid c := None),
       pl_tombs := (pl_tombs p)(ce_mid c \<mapsto>
         \<lparr>ts_memory = ce_mid c, ts_namespace = ce_ns c, ts_identifier = [], ts_content_hash = hash, ts_fingerprint = fp,
          ts_deleted_at = deleted_at, ts_seq = ce_seq c, ts_event_id = ce_id c, ts_mount = [], ts_replica = [],
          ts_history = src_hist, ts_metadata = [], ts_tags = [], ts_reason = []\<rparr>),
       pl_mutated := insert (ce_mid c) (pl_mutated p)\<rparr>"

definition delete_live ::
  "checked \<Rightarrow> string \<Rightarrow> string \<Rightarrow> string \<Rightarrow> string \<Rightarrow> live_entry \<Rightarrow> plan_state
     \<Rightarrow> (disposition \<times> string \<times> string \<times> plan_state) replay_res" where
  "delete_live c src_hist deleted_at hash fp live p =
     (if lv_namespace live \<noteq> ce_ns c then Inl bad_identity
      else if ce_v1 c \<and> str_or_empty (ce_payload c) ''identifier'' \<noteq> lv_identifier live then Inl bad_identity
      else if hash \<noteq> [] \<and> lv_hash live \<noteq> hash then Inl bad_base
      else if fp \<noteq> [] \<and> lv_fingerprint live \<noteq> fp then Inl bad_base
      else let h = (if hash = [] then lv_hash live else hash); f = (if fp = [] then lv_fingerprint live else fp) in
        Inr (ApplyDelete, h, f, forget_live c src_hist live deleted_at h f p))"

definition plan_delete :: "dict \<Rightarrow> checked \<Rightarrow> string \<Rightarrow> plan_state \<Rightarrow> (disposition \<times> string \<times> string \<times> plan_state) replay_res" where
  "plan_delete evt c src_hist p =
     (let d = ce_payload c; hash = str_or_empty d ''content_hash''; fp = str_or_empty d ''record_fingerprint'';
          at = str_of (deleted_at_of evt d) in
      if \<not> one_of (dget d ''transition'') ''delete'' then Inl bad_payload
      else if strip at = [] then Inl bad_payload
      else if ce_mid c \<in> pl_legacy_deduped p then Inr (SkipIdempotent, hash, fp, p)
      else if ce_v1 c \<and> (hash = [] \<or> fp = [] \<or> str_or_empty d ''identifier'' = []) then Inl bad_payload
      else case pl_tombs p (ce_mid c) of
        Some t \<Rightarrow>
          (if pl_live p (ce_mid c) = None \<and> ce_mid c \<notin> pl_mutated p
             \<and> ((ce_id c \<noteq> [] \<and> ts_event_id t = ce_id c)
                \<or> (ce_seq c \<le> ts_seq t \<and> same_history (ts_history t) src_hist))
           then Inr (SkipIdempotent, hash, fp, p) else Inl (ExecutionError ''already_tombstoned''))
      | None \<Rightarrow> (case pl_live p (ce_mid c) of
          None \<Rightarrow> (if dedupe_marked c src_hist p then Inr (SkipLegacyDeduped, hash, fp, p)
                   else Inl (ExecutionError ''missing_target_record''))
        | Some live \<Rightarrow> delete_live c src_hist at hash fp live p))"

text \<open>\<open>_validate_and_plan_event_step\<close>\<close>

definition plan_transition :: "dict \<Rightarrow> string \<Rightarrow> checked \<Rightarrow> plan_state \<Rightarrow> (planned \<times> plan_state) replay_res" where
  "plan_transition evt src_hist c p =
     (if ce_type c = ''memory.deleted'' then
        rbind (plan_delete evt c src_hist p) (\<lambda>(d, hash, fp, p'). Inr (outcome d c hash fp, p'))
      else rbind (check_transition c) (\<lambda>(hash, fp).
        rbind (if ce_type c = ''memory.created'' then plan_create c src_hist hash fp p
               else plan_update c src_hist hash fp p) (\<lambda>(d, p').
        Inr (outcome d c hash fp, p'))))"

definition plan_event ::
  "int \<Rightarrow> string list \<Rightarrow> mount_ident option \<Rightarrow> dict \<Rightarrow> plan_state \<Rightarrow> (planned \<times> plan_state) replay_res" where
  "plan_event prev types src evt p =
     rbind (check_event prev types src evt) (\<lambda>(seq, c). case c of
       None \<Rightarrow> Inr (\<lparr>pd_disposition = Observational, pd_seq = seq, pd_namespace = [], pd_hash = [], pd_fingerprint = []\<rparr>, p)
     | Some c \<Rightarrow> plan_transition evt (source_text mi_history_id src) c p)"

end
