(* ===== verification/ReplayApply.thy ===== *)
theory ReplayApply
  imports ReplayPlan
begin

text \<open>
  Pass 2 of a replay: the planned events are applied to the target in one transaction. Records to be
  created are collected and inserted in batches; a batch is flushed before an update or a deletion, when it
  is full, and at the end. A failure leaves no store: the code rolls back.
\<close>

section \<open>State\<close>

record apply_state =
  ap_store :: store
  ap_records :: "dict list"
  ap_marks :: "watermark list"
  ap_applied :: nat
  ap_skipped :: nat

record apply_env =
  ae_now :: string
  ae_source :: "mount_ident option"
  ae_batch :: "nat option"

definition REPLAY_BATCH :: nat where "REPLAY_BATCH = 1000"

definition start_apply :: "store \<Rightarrow> apply_state" where
  "start_apply t = \<lparr>ap_store = t, ap_records = [], ap_marks = [], ap_applied = 0, ap_skipped = 0\<rparr>"

section \<open>Operations\<close>

definition set_present_mark :: "watermark \<Rightarrow> store \<Rightarrow> store" where
  "set_present_mark w s =
     (if wm_memory w \<noteq> [] \<and> get_memory (wm_memory w) s \<noteq> None then set_replay_watermark w s else s)"

definition flush_created :: "string \<Rightarrow> apply_state \<Rightarrow> apply_state" where
  "flush_created now a =
     (if ap_records a = [] then a
      else let (s, n) = insert_many_ignore now (ap_records a) (ap_store a) in
        \<lparr>ap_store = fold set_present_mark (ap_marks a) s, ap_records = [], ap_marks = [],
         ap_applied = ap_applied a + n, ap_skipped = ap_skipped a + (length (ap_records a) - n)\<rparr>)"

definition applied_mark :: "apply_env \<Rightarrow> dict \<Rightarrow> planned \<Rightarrow> dict \<Rightarrow> watermark" where
  "applied_mark env evt pl vals =
     \<lparr>wm_memory = str_or_empty vals ''id'', wm_namespace = str_or_empty vals ''namespace'',
      wm_content_hash = str_or_empty vals ''content_hash'', wm_fingerprint = pd_fingerprint pl, wm_seq = pd_seq pl,
      wm_event_id = str_or_empty evt ''event_id'', wm_history = source_text mi_history_id (ae_source env)\<rparr>"

definition deduped_mark :: "apply_env \<Rightarrow> dict \<Rightarrow> planned \<Rightarrow> watermark" where
  "deduped_mark env evt pl =
     (let p = dict_of (dget evt ''payload'') in
      \<lparr>wm_memory = py_str (dget p ''id''), wm_namespace = str_or_empty p ''namespace'',
       wm_content_hash = str_or_empty p ''content_hash'', wm_fingerprint = [], wm_seq = pd_seq pl,
       wm_event_id = str_or_empty evt ''event_id'', wm_history = source_text mi_history_id (ae_source env)\<rparr>)"

definition apply_create :: "apply_env \<Rightarrow> dict \<Rightarrow> planned \<Rightarrow> apply_state \<Rightarrow> apply_state replay_res" where
  "apply_create env evt pl a =
     rbind (of_py_exn (event_to_memory_record (dget evt ''payload''))) (\<lambda>rec. case rec of
       None \<Rightarrow> Inr a
     | Some vals \<Rightarrow>
         (let a' = a\<lparr>ap_records := ap_records a @ [vals], ap_marks := ap_marks a @ [applied_mark env evt pl vals]\<rparr> in
          Inr (case ae_batch env of
                 None \<Rightarrow> a'
               | Some n \<Rightarrow> if n \<le> length (ap_records a') then flush_created (ae_now env) a' else a')))"

definition apply_update :: "apply_env \<Rightarrow> dict \<Rightarrow> planned \<Rightarrow> apply_state \<Rightarrow> apply_state replay_res" where
  "apply_update env evt pl a =
     (let b = flush_created (ae_now env) a in
      rbind (of_py_exn (event_to_memory_record (dget evt ''payload''))) (\<lambda>rec. case rec of
        None \<Rightarrow> Inl (ReplayExn (CursorPy AssertionError))
      | Some vals \<Rightarrow>
          rbind (of_db_exn (replace_memory_record vals (ap_store b))) (\<lambda>(s, found).
          Inr (if found then b\<lparr>ap_store := set_replay_watermark (applied_mark env evt pl vals) s, ap_applied := ap_applied b + 1\<rparr>
               else b\<lparr>ap_store := s, ap_skipped := ap_skipped b + 1\<rparr>))))"

definition or_source :: "dict \<Rightarrow> string \<Rightarrow> (mount_ident \<Rightarrow> string) \<Rightarrow> apply_env \<Rightarrow> string" where
  "or_source origin k f env = (if truthy (dget origin k) then py_str (dget origin k) else source_text f (ae_source env))"

definition text_of_row :: "dict option \<Rightarrow> string \<Rightarrow> string \<Rightarrow> string" where
  "text_of_row row k dflt = (case row of
     None \<Rightarrow> dflt
   | Some r \<Rightarrow> if truthy (dget r k) then py_str (dget r k) else dflt)"

definition replay_tombstone :: "apply_env \<Rightarrow> dict \<Rightarrow> planned \<Rightarrow> dict option \<Rightarrow> tombstone" where
  "replay_tombstone env evt pl row =
     (let p = dict_of (dget evt ''payload''); origin = dict_of (dget p ''origin'');
          at = por (dget p ''deleted_at'') (dget evt ''occurred_at'') in
      \<lparr>ts_memory = py_str (dget p ''id''), ts_namespace = str_or_empty p ''namespace'',
       ts_identifier = str_or_empty p ''identifier'', ts_content_hash = str_or_empty p ''content_hash'',
       ts_fingerprint = pd_fingerprint pl, ts_deleted_at = (if truthy at then py_str at else []), ts_seq = pd_seq pl,
       ts_event_id = str_or_empty evt ''event_id'', ts_mount = or_source origin ''mount_id'' mi_mount_id env,
       ts_replica = or_source origin ''replica_id'' mi_replica_id env,
       ts_history = or_source origin ''history_id'' mi_history_id env, ts_metadata = text_of_row row ''metadata_json'' ''{}'',
       ts_tags = text_of_row row ''tags'' ''[]'', ts_reason = str_or_empty p ''reason''\<rparr>)"

definition apply_delete :: "apply_env \<Rightarrow> dict \<Rightarrow> planned \<Rightarrow> apply_state \<Rightarrow> apply_state" where
  "apply_delete env evt pl a =
     (let b = flush_created (ae_now env) a; m = py_str (dget (dict_of (dget evt ''payload'')) ''id'');
          row = get_memory m (ap_store b);
          s = record_tombstone (replay_tombstone env evt pl row)
                (delete_replay_watermark m (delete_memory_row m (ap_store b))) in
      if row \<noteq> None then b\<lparr>ap_store := s, ap_applied := ap_applied b + 1\<rparr>
      else b\<lparr>ap_store := s, ap_skipped := ap_skipped b + 1\<rparr>)"

definition apply_planned :: "apply_env \<Rightarrow> dict \<times> planned \<Rightarrow> apply_state \<Rightarrow> apply_state replay_res" where
  "apply_planned env = (\<lambda>(evt, pl) a. case pd_disposition pl of
     Observational \<Rightarrow> Inr a
   | SkipIdempotent \<Rightarrow> Inr (a\<lparr>ap_skipped := ap_skipped a + 1\<rparr>)
   | SkipLegacyDeduped \<Rightarrow>
       Inr (a\<lparr>ap_skipped := ap_skipped a + 1, ap_store := set_replay_watermark (deduped_mark env evt pl) (ap_store a)\<rparr>)
   | ApplyCreate \<Rightarrow> apply_create env evt pl a
   | ApplyUpdate \<Rightarrow> apply_update env evt pl a
   | ApplyDelete \<Rightarrow> Inr (apply_delete env evt pl a))"

section \<open>A range of events\<close>

fun plan_events ::
  "int \<Rightarrow> string list \<Rightarrow> mount_ident option \<Rightarrow> dict list \<Rightarrow> plan_state \<Rightarrow> (planned list \<times> plan_state) replay_res" where
  "plan_events prev types src [] p = Inr ([], p)"
| "plan_events prev types src (evt # evs) p =
     rbind (plan_event prev types src evt p) (\<lambda>(pl, p1).
     rbind (plan_events (pd_seq pl) types src evs p1) (\<lambda>(pls, p2). Inr (pl # pls, p2)))"

definition active_types :: "json \<Rightarrow> string list replay_res" where
  "active_types v =
     (if v = JNull then Inr RECONSTRUCTING_EVENT_TYPES
      else rbind (of_cursor (normalize_event_types v)) (\<lambda>ts.
        if non_reconstructing ts then Inl (ReplayExn non_recon) else Inr ts))"

definition apply_event_range ::
  "string \<Rightarrow> mount_ident option \<Rightarrow> json \<Rightarrow> dict list \<Rightarrow> store \<Rightarrow> (store \<times> nat \<times> nat) replay_res" where
  "apply_event_range now src types evs t =
     (let env = \<lparr>ae_now = now, ae_source = src, ae_batch = Some REPLAY_BATCH\<rparr> in
      rbind (active_types types) (\<lambda>ts.
      rbind (plan_events 0 ts src evs (load_candidates t evs empty_plan)) (\<lambda>(pls, p).
      rbind (fold_res (apply_planned env) (zip evs pls) (start_apply t)) (\<lambda>a.
      let b = flush_created now a in
      Inr (ap_store b, ap_applied b, ap_skipped b)))))"

end
