(* ===== verification/ReplayRefine.thy ===== *)
theory ReplayRefine
  imports ReplayApply Deletion Update
begin

text \<open>
  Pass 2 does what pass 1 has simulated. \<open>agrees\<close> relates the simulated state to the target; the
  reference \<open>apply_one\<close> performs a planned event at once, without batches and without failure, and
  the batched pass is shown to be equivalent to it.
\<close>

section \<open>Typed rows\<close>

definition typed_row :: "dict \<Rightarrow> bool" where
  "typed_row r = (list_all (\<lambda>c. is_str (dget r c)) [''id'', ''namespace'', ''content_hash'', ''identifier'']
     \<and> dget r ''id'' \<noteq> JStr [])"

definition typed_rows :: "store \<Rightarrow> bool" where
  "typed_rows s = list_all typed_row (st_memories s)"

text \<open>What the lemmas ask of the events. A created or updated event is textual when its payload has text in the
  columns the planner compares, and no other namespace in the envelope. Its payload carries a record when, besides,
  \<open>_event_to_memory_record\<close> can read it: the planner does not check that for an event of the legacy format,
  whose importance or version may be no number.
\<close>

definition text_columns :: "dict \<Rightarrow> bool" where
  "text_columns evt = (case dget evt ''payload'' of
     JObj p \<Rightarrow> list_all (\<lambda>c. is_str (dget p c)) [''id'', ''namespace'', ''content_hash'', ''identifier'']
       \<and> dget evt ''namespace'' \<in> {JNull, dget p ''namespace''}
   | _ \<Rightarrow> False)"

definition textual :: "dict \<Rightarrow> bool" where
  "textual evt \<longleftrightarrow> (str_or_empty evt ''event_type'' \<in> {''memory.created'', ''memory.updated''} \<longrightarrow> text_columns evt)"

definition carries_record :: "dict \<Rightarrow> bool" where
  "carries_record evt \<longleftrightarrow> text_columns evt
     \<and> (case event_to_memory_record (dget evt ''payload'') of Inr (Some v) \<Rightarrow> True | _ \<Rightarrow> False)"

lemma str_or_empty_JStr [simp]: "dget r c = JStr s \<Longrightarrow> str_or_empty r c = s"
  by (simp add: str_or_empty_def py_str_def)

lemma typed_rowE:
  assumes "typed_row r"
  obtains i ns h x where "row_key r = JStr i" "i \<noteq> []" "dget r ''id'' = JStr i" "dget r ''namespace'' = JStr ns"
    "dget r ''content_hash'' = JStr h" "dget r ''identifier'' = JStr x" "row_pair r = (ns, h)"
proof -
  have "is_str (dget r ''id'')" "is_str (dget r ''namespace'')" "is_str (dget r ''content_hash'')"
    "is_str (dget r ''identifier'')" "dget r ''id'' \<noteq> JStr []"
    using assms by (auto simp: typed_row_def)
  then obtain i ns h x where "dget r ''id'' = JStr i" "dget r ''namespace'' = JStr ns"
    "dget r ''content_hash'' = JStr h" "dget r ''identifier'' = JStr x" "i \<noteq> []"
    using is_str_ex by metis
  then show ?thesis using that by (simp add: row_key_def row_pair_def)
qed

lemma typed_member: "typed_rows s \<Longrightarrow> r \<in> set (st_memories s) \<Longrightarrow> typed_row r"
  by (simp add: typed_rows_def list_all_iff)

lemma get_memoryD: "get_memory m s = Some r \<Longrightarrow> r \<in> set (st_memories s) \<and> row_key r = JStr m"
  unfolding get_memory_def by (rule find_key_SomeD)

lemma get_memory_member:
  "rows_inv s \<Longrightarrow> r \<in> set (st_memories s) \<Longrightarrow> row_key r = JStr m \<Longrightarrow> get_memory m s = Some r"
  by (simp add: get_memory_def find_key_Some_iff rows_inv_def)

text \<open>The unique index on typed rows.\<close>

lemma typed_same_identity:
  assumes "typed_row r" "typed_row x"
  shows "same_identity r x \<longleftrightarrow> row_pair r = row_pair x \<and> snd (row_pair r) \<noteq> []"
  by (rule typed_rowE [OF assms(1)], rule typed_rowE [OF assms(2)]) (auto simp: same_identity_def indexed_def)

lemma pair_unique:
  assumes "rows_inv s" "typed_rows s" "get_memory m s = Some r" "get_memory k s = Some x"
    and "row_pair r = row_pair x" "snd (row_pair r) \<noteq> []"
  shows "m = k"
proof -
  note r = get_memoryD [OF assms(3)] and x = get_memoryD [OF assms(4)]
  have "same_identity r x"
    using typed_same_identity typed_member [OF assms(2)] r x assms(5,6) by blast
  then have "row_key r = row_key x" using assms(1) r x unfolding rows_inv_def by blast
  then show ?thesis using r x by simp
qed

section \<open>The record an event writes\<close>

definition written :: "dict \<Rightarrow> dict" where
  "written evt = (case event_to_memory_record (dget evt ''payload'') of Inr (Some v) \<Rightarrow> v | _ \<Rightarrow> [])"

lemma event_record_columns:
  assumes "event_to_memory_record (JObj p) = Inr (Some v)" "c \<in> set MEMORY_COLUMNS"
  obtains emb imp ver where "dget v c = event_value p emb imp ver c"
proof -
  have "p \<noteq> []" using assms(1) by (auto simp: event_to_memory_record_def por_def dget_def)
  then obtain emb imp ver where "v = event_record p emb imp ver"
    using assms(1) by (auto simp: event_to_memory_record_def por_def rbind_eq_Inr split: if_splits)
  then have "dget v c = event_value p emb imp ver c"
    using assms(2) by (simp add: event_record_def dget_def map_of_tabulate)
  then show ?thesis by (rule that)
qed

lemma event_value_text:
  "c \<in> {''namespace'', ''content_hash''} \<Longrightarrow> event_value p emb imp ver c = por (dget p c) (JStr [])"
  "event_value p emb imp ver ''id'' = dget p ''id''"
  "event_value p emb imp ver ''identifier'' = dget_default p ''identifier'' (JStr [])"
proof -
  have n: "''namespace'' \<notin> set COPIED_COLUMNS" "''content_hash'' \<notin> set COPIED_COLUMNS" "''identifier'' \<notin> set COPIED_COLUMNS"
    "column_default ''namespace'' = JStr []" "column_default ''content_hash'' = JStr []" by code_simp+
  show "c \<in> {''namespace'', ''content_hash''} \<Longrightarrow> event_value p emb imp ver c = por (dget p c) (JStr [])"
    unfolding event_value_def Let_def by (elim insertE emptyE) (simp_all add: n)
  show "event_value p emb imp ver ''id'' = dget p ''id''" "event_value p emb imp ver ''identifier'' = dget_default p ''identifier'' (JStr [])"
    unfolding event_value_def Let_def by (simp_all add: n)
qed

lemma written_columns:
  assumes "carries_record evt" "dget evt ''payload'' = JObj p"
  shows "event_to_memory_record (dget evt ''payload'') = Inr (Some (written evt))"
    "dget (written evt) ''id'' = dget p ''id''" "dget (written evt) ''namespace'' = dget p ''namespace''"
    "dget (written evt) ''content_hash'' = dget p ''content_hash''" "dget (written evt) ''identifier'' = dget p ''identifier''"
proof -
  have w: "event_to_memory_record (JObj p) = Inr (Some (written evt))"
    using assms unfolding carries_record_def written_def by (auto split: sum.splits option.splits)
  then show "event_to_memory_record (dget evt ''payload'') = Inr (Some (written evt))" by (simp add: assms(2))
  have t: "is_str (dget p ''id'')" "is_str (dget p ''namespace'')" "is_str (dget p ''content_hash'')" "is_str (dget p ''identifier'')"
    using assms by (simp_all add: carries_record_def text_columns_def)
  have m: "''id'' \<in> set MEMORY_COLUMNS" "''namespace'' \<in> set MEMORY_COLUMNS" "''content_hash'' \<in> set MEMORY_COLUMNS"
    "''identifier'' \<in> set MEMORY_COLUMNS" by code_simp+
  have s: "is_str v \<Longrightarrow> por v (JStr []) = v" for v using is_str_ex by fastforce
  show "dget (written evt) ''id'' = dget p ''id''"
    by (rule event_record_columns [OF w m(1)]) (simp only: event_value_text(2))
  show "dget (written evt) ''namespace'' = dget p ''namespace''"
    by (rule event_record_columns [OF w m(2)]) (simp add: event_value_text(1) s [OF t(2)])
  show "dget (written evt) ''content_hash'' = dget p ''content_hash''"
    by (rule event_record_columns [OF w m(3)]) (simp add: event_value_text(1) s [OF t(3)])
  have i: "dget_default p ''identifier'' (JStr []) = dget p ''identifier''"
    using t(4) by (cases "map_of p ''identifier''") (simp_all add: dget_default_def dget_def)
  show "dget (written evt) ''identifier'' = dget p ''identifier''"
    by (rule event_record_columns [OF w m(4)]) (simp only: event_value_text(3) i)
qed

section \<open>The simulated state and the target\<close>

definition live_matches :: "live_entry \<Rightarrow> dict \<Rightarrow> bool" where
  "live_matches l r \<longleftrightarrow> row_pair r = (lv_namespace l, lv_hash l) \<and> lv_identifier l = str_or_empty r ''identifier''"

text \<open>
  \<open>t\<close> is the target before the run, \<open>s\<close> the target after the events planned so far; the rows of
  the ids \<open>L\<close> and of the pairs \<open>P\<close> have been loaded.
\<close>

definition agrees_on :: "string set \<Rightarrow> (string \<times> string) set \<Rightarrow> plan_state \<Rightarrow> store \<Rightarrow> store \<Rightarrow> bool" where
  "agrees_on L P p t s \<longleftrightarrow> rows_inv s \<and> typed_rows s
     \<and> (\<forall>m l. pl_live p m = Some l \<longrightarrow> (\<exists>r. get_memory m s = Some r \<and> live_matches l r))
     \<and> (\<forall>m \<in> L. pl_live p m = None \<longrightarrow> get_memory m s = None)
     \<and> (\<forall>m \<in> pl_loaded_tombs p. m \<noteq> [] \<longrightarrow> (pl_tombs p m = None \<longleftrightarrow> get_tombstone m s = None))
     \<and> (\<forall>m. m \<notin> pl_loaded_tombs p \<longrightarrow> pl_tombs p m = None)
     \<and> (\<forall>q m. pl_pairs p q = Some m \<longrightarrow> snd q \<noteq> [] \<longrightarrow> (\<exists>r. get_memory m s = Some r \<and> row_pair r = q))
     \<and> (\<forall>m r. get_memory m s = Some r \<longrightarrow> m \<in> pl_mutated p \<or> row_pair r \<in> P \<longrightarrow> snd (row_pair r) \<noteq> []
          \<longrightarrow> pl_pairs p (row_pair r) = Some m)
     \<and> (\<forall>m. m \<notin> pl_mutated p \<longrightarrow> get_memory m s = get_memory m t \<and> get_tombstone m s = get_tombstone m t)
     \<and> pl_mutated p \<subseteq> pl_loaded_live p \<and> pl_mutated p \<subseteq> pl_loaded_tombs p"

definition agrees :: "plan_state \<Rightarrow> store \<Rightarrow> store \<Rightarrow> bool" where
  "agrees p t s \<longleftrightarrow> agrees_on (pl_loaded_live p) (pl_loaded_pairs p) p t s"

lemma agrees_onD:
  assumes "agrees_on L P p t s"
  shows "rows_inv s" "typed_rows s"
    and "\<And>m l. pl_live p m = Some l \<Longrightarrow> \<exists>r. get_memory m s = Some r \<and> live_matches l r"
    and "\<And>m. m \<in> L \<Longrightarrow> pl_live p m = None \<Longrightarrow> get_memory m s = None"
    and "\<And>m. m \<in> pl_loaded_tombs p \<Longrightarrow> m \<noteq> [] \<Longrightarrow> pl_tombs p m = None \<longleftrightarrow> get_tombstone m s = None"
    and "\<And>q m. pl_pairs p q = Some m \<Longrightarrow> snd q \<noteq> [] \<Longrightarrow> \<exists>r. get_memory m s = Some r \<and> row_pair r = q"
    and "\<And>m r. get_memory m s = Some r \<Longrightarrow> m \<in> pl_mutated p \<or> row_pair r \<in> P \<Longrightarrow> snd (row_pair r) \<noteq> []
          \<Longrightarrow> pl_pairs p (row_pair r) = Some m"
    and "\<And>m. m \<notin> pl_mutated p \<Longrightarrow> get_memory m s = get_memory m t \<and> get_tombstone m s = get_tombstone m t"
    and "pl_mutated p \<subseteq> pl_loaded_live p" "pl_mutated p \<subseteq> pl_loaded_tombs p"
    and "\<And>m. m \<notin> pl_loaded_tombs p \<Longrightarrow> pl_tombs p m = None"
  using assms unfolding agrees_on_def by (elim conjE; blast)+

lemma live_of_matches: "live_matches (live_of r) r"
  by (simp add: live_matches_def live_of_def row_pair_def)

text \<open>Loading a row that has not been changed in the run.\<close>

lemma load_entry_agrees:
  assumes a: "agrees_on L P p t s" and r: "get_memory m s = Some r" and m: "m \<notin> pl_mutated p"
    and p': "p' = p\<lparr>pl_live := live, pl_pairs := pairs\<rparr>"
    and live: "live = pl_live p \<or> live = (pl_live p)(m \<mapsto> live_of r)"
    and pairs: "pairs = pl_pairs p \<or> pairs = (pl_pairs p)(row_pair r \<mapsto> m)"
  shows "agrees_on L P p' t s"
proof -
  note A = agrees_onD [OF a]
  have "\<exists>x. get_memory k s = Some x \<and> live_matches l x" if "live k = Some l" for k l
    using live that A(3) [of k l] r live_of_matches [of r] by (auto split: if_splits)
  moreover have "get_memory k s = None" if "k \<in> L" "live k = None" for k
    using live that A(4) [of k] by (auto split: if_splits)
  moreover have "\<exists>x. get_memory k s = Some x \<and> row_pair x = q" if "pairs q = Some k" "snd q \<noteq> []" for q k
    using pairs that A(6) [of q k] r by (auto split: if_splits)
  moreover have "pairs (row_pair x) = Some k"
    if "get_memory k s = Some x" "k \<in> pl_mutated p \<or> row_pair x \<in> P" "snd (row_pair x) \<noteq> []" for k x
    using pairs A(7) [OF that] pair_unique [OF A(1,2) that(1) r] that(3) by (auto split: if_splits)
  ultimately show ?thesis
    using A(1,2,5,8-11) unfolding agrees_on_def p' by simp
qed

lemma load_row_agrees:
  assumes "agrees_on L P p t s" "r \<in> set (st_memories t)" "rows_inv t" "typed_rows t"
  shows "agrees_on L P (load_row r p) t s"
proof -
  obtain i where i: "row_key r = JStr i" using typed_rowE [OF typed_member [OF assms(4,2)]] by metis
  then have m: "py_str (row_key r) = i" by (simp add: py_str_def)
  show ?thesis
  proof (cases "i \<in> pl_mutated p \<or> pl_live p i \<noteq> None")
    case True
    then show ?thesis using assms(1) by (simp add: load_row_def m)
  next
    case False
    have "get_memory i t = Some r" by (rule get_memory_member [OF assms(3,2) i])
    then have g: "get_memory i s = Some r" using agrees_onD(8) [OF assms(1), of i] False by simp
    show ?thesis
      by (rule load_entry_agrees [OF assms(1) g, where live = "(pl_live p)(i \<mapsto> live_of r)"
            and pairs = "if snd (row_pair r) = [] then pl_pairs p else (pl_pairs p)(row_pair r \<mapsto> i)"])
        (use False in \<open>auto simp: load_row_def m Let_def\<close>)
  qed
qed

lemma load_pair_row_agrees:
  assumes "agrees_on L P p t s" "r \<in> set (st_memories t)" "rows_inv t" "typed_rows t"
  shows "agrees_on L P (load_pair_row r p) t s"
proof -
  obtain i where i: "row_key r = JStr i" "i \<noteq> []" "dget r ''id'' = JStr i"
    using typed_rowE [OF typed_member [OF assms(4,2)]] by metis
  show ?thesis
  proof (cases "i \<in> pl_mutated p")
    case True
    then show ?thesis using assms(1) i by (simp add: load_pair_row_def)
  next
    case False
    have "get_memory i t = Some r" by (rule get_memory_member [OF assms(3,2) i(1)])
    then have g: "get_memory i s = Some r" using agrees_onD(8) [OF assms(1), of i] False by simp
    show ?thesis
      by (rule load_entry_agrees [OF assms(1) g False,
            where live = "if pl_live p i = None then (pl_live p)(i \<mapsto> live_of r) else pl_live p"
            and pairs = "if pl_pairs p (row_pair r) = None then (pl_pairs p)(row_pair r \<mapsto> i) else pl_pairs p"])
        (use False i in \<open>auto simp: load_pair_row_def Let_def\<close>)
  qed
qed

lemma load_frames [simp]:
  "pl_mutated (load_row r p) = pl_mutated p" "pl_mutated (load_pair_row r p) = pl_mutated p"
  "pl_loaded_live (load_row r p) = pl_loaded_live p" "pl_loaded_live (load_pair_row r p) = pl_loaded_live p"
  "pl_loaded_pairs (load_row r p) = pl_loaded_pairs p" "pl_loaded_pairs (load_pair_row r p) = pl_loaded_pairs p"
  "pl_loaded_tombs (load_row r p) = pl_loaded_tombs p" "pl_loaded_tombs (load_pair_row r p) = pl_loaded_tombs p"
  "pl_loaded_marks (load_row r p) = pl_loaded_marks p" "pl_loaded_marks (load_pair_row r p) = pl_loaded_marks p"
  "pl_tombs (load_row r p) = pl_tombs p" "pl_tombs (load_pair_row r p) = pl_tombs p"
  "pl_marks (load_row r p) = pl_marks p" "pl_marks (load_pair_row r p) = pl_marks p"
  "pl_created (load_row r p) = pl_created p" "pl_created (load_pair_row r p) = pl_created p"
  "pl_legacy_created (load_row r p) = pl_legacy_created p" "pl_legacy_created (load_pair_row r p) = pl_legacy_created p"
  "pl_legacy_deduped (load_row r p) = pl_legacy_deduped p" "pl_legacy_deduped (load_pair_row r p) = pl_legacy_deduped p"
  by (simp_all add: load_row_def load_pair_row_def Let_def)

lemma load_frames_fold [simp]:
  "f \<in> {load_row, load_pair_row} \<Longrightarrow> pl_mutated (fold f rows p) = pl_mutated p"
  "f \<in> {load_row, load_pair_row} \<Longrightarrow> pl_loaded_live (fold f rows p) = pl_loaded_live p"
  "f \<in> {load_row, load_pair_row} \<Longrightarrow> pl_loaded_pairs (fold f rows p) = pl_loaded_pairs p"
  "f \<in> {load_row, load_pair_row} \<Longrightarrow> pl_loaded_tombs (fold f rows p) = pl_loaded_tombs p"
  "f \<in> {load_row, load_pair_row} \<Longrightarrow> pl_loaded_marks (fold f rows p) = pl_loaded_marks p"
  "f \<in> {load_row, load_pair_row} \<Longrightarrow> pl_tombs (fold f rows p) = pl_tombs p"
  "f \<in> {load_row, load_pair_row} \<Longrightarrow> pl_marks (fold f rows p) = pl_marks p"
  "f \<in> {load_row, load_pair_row} \<Longrightarrow> pl_created (fold f rows p) = pl_created p"
  "f \<in> {load_row, load_pair_row} \<Longrightarrow> pl_legacy_deduped (fold f rows p) = pl_legacy_deduped p"
  by (induction rows arbitrary: p; auto)+

lemma load_fold_agrees:
  assumes "f \<in> {load_row, load_pair_row}" "agrees_on L P p t s" "set rows \<subseteq> set (st_memories t)" "rows_inv t" "typed_rows t"
  shows "agrees_on L P (fold f rows p) t s"
  using assms(2,3) by (induction rows arbitrary: p) (use assms(1,4,5) load_row_agrees load_pair_row_agrees in auto)

lemma load_rows_live:
  assumes "r \<in> set rows \<and> row_key r = JStr i \<or> pl_live p i \<noteq> None"
  shows "i \<in> pl_mutated p \<or> pl_live (fold load_row rows p) i \<noteq> None"
  using assms
proof (induction rows arbitrary: p)
  case (Cons x rows)
  have "pl_live p i \<noteq> None \<Longrightarrow> pl_live (load_row x p) i \<noteq> None" by (simp add: load_row_def Let_def)
  moreover have "row_key x = JStr i \<Longrightarrow> i \<in> pl_mutated p \<or> pl_live (load_row x p) i \<noteq> None"
    by (auto simp: load_row_def Let_def py_str_def)
  ultimately show ?case using Cons.IH [of "load_row x p"] Cons.prems by auto
qed simp

lemma load_rows_pairs:
  assumes "r \<in> set rows \<and> dget r ''id'' = JStr i \<and> i \<noteq> [] \<and> row_pair r = q \<or> pl_pairs p q \<noteq> None"
  shows "i \<in> pl_mutated p \<or> pl_pairs (fold load_pair_row rows p) q \<noteq> None"
  using assms
proof (induction rows arbitrary: p)
  case (Cons x rows)
  have "pl_pairs p q \<noteq> None \<Longrightarrow> pl_pairs (load_pair_row x p) q \<noteq> None" by (simp add: load_pair_row_def Let_def)
  moreover have "dget x ''id'' = JStr i \<Longrightarrow> i \<noteq> [] \<Longrightarrow> row_pair x = q \<Longrightarrow>
      i \<in> pl_mutated p \<or> pl_pairs (load_pair_row x p) q \<noteq> None"
    by (auto simp: load_pair_row_def Let_def)
  ultimately show ?case using Cons.IH [of "load_pair_row x p"] Cons.prems by auto
qed simp

lemma agrees_on_more:
  assumes "agrees_on L P p t s" "L \<subseteq> L'" "P \<subseteq> P'"
    and "\<And>m. m \<in> L' \<Longrightarrow> m \<notin> L \<Longrightarrow> pl_live p m = None \<Longrightarrow> get_memory m s = None"
    and "\<And>m r. get_memory m s = Some r \<Longrightarrow> row_pair r \<in> P' \<Longrightarrow> row_pair r \<notin> P \<Longrightarrow> m \<notin> pl_mutated p
      \<Longrightarrow> snd (row_pair r) \<noteq> [] \<Longrightarrow> pl_pairs p (row_pair r) = Some m"
  shows "agrees_on L' P' p t s"
proof -
  note A = agrees_onD [OF assms(1)]
  have "get_memory m s = None" if "m \<in> L'" "pl_live p m = None" for m
    using assms(4) [OF that(1) _ that(2)] A(4) [OF _ that(2)] by blast
  moreover have "pl_pairs p (row_pair r) = Some m"
    if "get_memory m s = Some r" "m \<in> pl_mutated p \<or> row_pair r \<in> P'" "snd (row_pair r) \<noteq> []" for m r
    using assms(5) [OF that(1) _ _ _ that(3)] A(7) [OF that(1) _ that(3)] that(2) by blast
  ultimately show ?thesis using A(1-3,5,6,8-11) unfolding agrees_on_def by simp
qed

lemma load_live_agrees:
  assumes "agrees p t s" "rows_inv t" "typed_rows t"
  shows "agrees (load_live t ids p) t s" "set ids \<subseteq> pl_loaded_live (load_live t ids p)"
proof -
  let ?F = "filter (\<lambda>m. m \<notin> pl_loaded_live p) ids"
  let ?p1 = "p\<lparr>pl_loaded_live := pl_loaded_live p \<union> set ?F\<rparr>"
  let ?rows = "get_memories ?F t" and ?p2 = "load_live t ids p"
  have p2: "?p2 = fold load_row ?rows ?p1" by (simp add: load_live_def)
  note A = agrees_onD [OF assms(1) [unfolded agrees_def]]
  have "agrees_on (pl_loaded_live p) (pl_loaded_pairs p) ?p1 t s"
    using A unfolding agrees_on_def by simp blast
  then have 2: "agrees_on (pl_loaded_live p) (pl_loaded_pairs p) ?p2 t s"
    unfolding p2 by (rule load_fold_agrees [rotated]) (use assms(2,3) in \<open>auto simp: get_memories_def\<close>)
  have m: "pl_mutated ?p2 = pl_mutated p" by (simp add: p2)
  have "agrees_on (pl_loaded_live p \<union> set ?F) (pl_loaded_pairs p) ?p2 t s"
  proof (rule agrees_on_more [OF 2])
    fix k assume k: "k \<in> pl_loaded_live p \<union> set ?F" "k \<notin> pl_loaded_live p" "pl_live ?p2 k = None"
    then have km: "k \<notin> pl_mutated p" using A(9) by blast
    then have g: "get_memory k s = get_memory k t" using A(8) by blast
    show "get_memory k s = None"
    proof (rule ccontr)
      assume "get_memory k s \<noteq> None"
      then obtain r where r: "r \<in> set (st_memories t)" "row_key r = JStr k"
        using g get_memoryD [of k t] by (cases "get_memory k t") auto
      then have "k \<noteq> []" using typed_rowE [OF typed_member [OF assms(3)], of r] by (metis json.inject(4))
      then have "r \<in> set ?rows" using r k(1,2) by (auto simp: get_memories_def)
      then show False using load_rows_live [of r ?rows k ?p1] r(2) km k(3) by (simp add: p2)
    qed
  qed auto
  then show "agrees ?p2 t s" by (simp add: agrees_def p2)
  show "set ids \<subseteq> pl_loaded_live ?p2" by (auto simp: p2)
qed

lemma load_pairs_agrees:
  assumes "agrees p t s" "rows_inv t" "typed_rows t"
  shows "agrees (load_pairs t qs p) t s" "{q \<in> set qs. snd q \<noteq> []} \<subseteq> pl_loaded_pairs (load_pairs t qs p)"
proof -
  let ?F = "filter (\<lambda>q. q \<notin> pl_loaded_pairs p \<and> snd q \<noteq> []) qs"
  let ?p1 = "p\<lparr>pl_loaded_pairs := pl_loaded_pairs p \<union> set ?F\<rparr>"
  let ?rows = "get_memories_by_identity ?F t" and ?p2 = "load_pairs t qs p"
  have p2: "?p2 = fold load_pair_row ?rows ?p1" by (simp add: load_pairs_def)
  note A = agrees_onD [OF assms(1) [unfolded agrees_def]]
  have "agrees_on (pl_loaded_live p) (pl_loaded_pairs p) ?p1 t s"
    using A unfolding agrees_on_def by simp
  then have 2: "agrees_on (pl_loaded_live p) (pl_loaded_pairs p) ?p2 t s"
    unfolding p2 by (rule load_fold_agrees [rotated]) (use assms(2,3) in \<open>auto simp: get_memories_by_identity_def\<close>)
  note B = agrees_onD [OF 2]
  have m: "pl_mutated ?p2 = pl_mutated p" by (simp add: p2)
  have "agrees_on (pl_loaded_live p) (pl_loaded_pairs p \<union> set ?F) ?p2 t s"
  proof (rule agrees_on_more [OF 2])
    fix k r assume r: "get_memory k s = Some r" "row_pair r \<in> pl_loaded_pairs p \<union> set ?F" "row_pair r \<notin> pl_loaded_pairs p"
      "k \<notin> pl_mutated ?p2" "snd (row_pair r) \<noteq> []"
    then have "get_memory k t = Some r" using A(8) [of k] m by simp
    then have rt: "r \<in> set (st_memories t)" "row_key r = JStr k" using get_memoryD [of k t r] by auto
    obtain i ns h where c: "row_key r = JStr i" "i \<noteq> []" "dget r ''id'' = JStr i" "dget r ''namespace'' = JStr ns"
        "dget r ''content_hash'' = JStr h" "row_pair r = (ns, h)"
      using typed_rowE [OF typed_member [OF assms(3) rt(1)]] by metis
    have "(ns, h) \<in> set ?F" using r(2,3) by (simp add: c(6))
    then have "r \<in> set ?rows"
      using rt(1) r(5) by (auto simp: get_memories_by_identity_def c intro!: image_eqI [of _ _ "(ns, h)"])
    then have "pl_pairs ?p2 (row_pair r) \<noteq> None"
      using load_rows_pairs [of r ?rows i "row_pair r" ?p1] c r(4) rt(2) m by (simp add: p2)
    then obtain k' where k': "pl_pairs ?p2 (row_pair r) = Some k'" by blast
    from B(6) [OF k' r(5)] obtain x where x: "get_memory k' s = Some x" "row_pair x = row_pair r" by blast
    have "k' = k" by (rule pair_unique [OF A(1,2) x(1) r(1) x(2)]) (use x(2) r(5) in simp)
    with k' show "pl_pairs ?p2 (row_pair r) = Some k" by simp
  qed auto
  then show "agrees ?p2 t s" by (simp add: agrees_def p2)
  show "{q \<in> set qs. snd q \<noteq> []} \<subseteq> pl_loaded_pairs ?p2" by (auto simp: p2)
qed

lemma load_tombs_agrees:
  assumes "agrees p t s"
  shows "agrees (load_tombs t ids p) t s" "set ids \<subseteq> pl_loaded_tombs (load_tombs t ids p)"
proof -
  note A = agrees_onD [OF assms [unfolded agrees_def]]
  let ?p2 = "load_tombs t ids p"
  have "pl_tombs ?p2 m = None \<longleftrightarrow> get_tombstone m s = None" if "m \<in> pl_loaded_tombs ?p2" "m \<noteq> []" for m
  proof (cases "m \<in> pl_loaded_tombs p")
    case True
    then show ?thesis using A(5) that(2) by (simp add: load_tombs_def Let_def fetched_def)
  next
    case False
    then have "get_tombstone m s = get_tombstone m t" using A(8,10) by blast
    then show ?thesis using that False A(11) [of m] by (simp add: load_tombs_def Let_def fetched_def)
  qed
  moreover have "pl_tombs ?p2 m = None" if "m \<notin> pl_loaded_tombs ?p2" for m
    using that A(11) [of m] by (auto simp: load_tombs_def Let_def fetched_def)
  moreover have "pl_live ?p2 = pl_live p" "pl_pairs ?p2 = pl_pairs p" "pl_mutated ?p2 = pl_mutated p"
    "pl_loaded_live ?p2 = pl_loaded_live p" "pl_loaded_pairs ?p2 = pl_loaded_pairs p" "pl_loaded_tombs p \<subseteq> pl_loaded_tombs ?p2"
    by (auto simp: load_tombs_def Let_def)
  ultimately show "agrees ?p2 t s"
    using A unfolding agrees_def agrees_on_def by (intro conjI; simp; blast)
  show "set ids \<subseteq> pl_loaded_tombs ?p2" by (auto simp: load_tombs_def Let_def)
qed

definition covered :: "plan_state \<Rightarrow> dict \<Rightarrow> bool" where
  "covered p evt \<longleftrightarrow> set (event_ids evt) \<subseteq> pl_loaded_live p \<inter> pl_loaded_tombs p
     \<and> {q \<in> set (event_pairs evt). snd q \<noteq> []} \<subseteq> pl_loaded_pairs p"

lemma load_candidates_agrees:
  assumes "agrees p t s" "rows_inv t" "typed_rows t"
  shows "agrees (load_candidates t evs p) t s" "\<And>evt. evt \<in> set evs \<Longrightarrow> covered (load_candidates t evs p) evt"
proof -
  define ids where "ids = concat (map event_ids evs)"
  define qs where "qs = concat (map event_pairs evs)"
  define p1 where "p1 = load_live t ids p"
  define p2 where "p2 = load_pairs t qs p1"
  define p3 where "p3 = load_tombs t ids p2"
  note d = ids_def [symmetric] qs_def [symmetric] p1_def [symmetric] p2_def [symmetric] p3_def [symmetric]
  have p4: "load_candidates t evs p = load_marks t ids p3" by (simp add: load_candidates_def Let_def d)
  note 1 = load_live_agrees [OF assms, of ids, folded p1_def]
  note 2 = load_pairs_agrees [OF 1(1) assms(2,3), of qs, folded p2_def]
  note 3 = load_tombs_agrees [OF 2(1), of ids, folded p3_def]
  have l: "pl_loaded_live p2 = pl_loaded_live p1" by (simp add: p2_def load_pairs_def)
  have k: "pl_loaded_live p3 = pl_loaded_live p2" "pl_loaded_pairs p3 = pl_loaded_pairs p2" "pl_live p3 = pl_live p2"
    "pl_pairs p3 = pl_pairs p2" by (simp_all add: p3_def load_tombs_def Let_def)
  have m: "agrees (load_marks t ids q) t s \<longleftrightarrow> agrees q t s" for q
    by (simp add: agrees_def agrees_on_def load_marks_def Let_def)
  show "agrees (load_candidates t evs p) t s" using 3(1) by (simp add: p4 m)
  show "covered (load_candidates t evs p) evt" if "evt \<in> set evs" for evt
  proof -
    have "set (event_ids evt) \<subseteq> set ids" "set (event_pairs evt) \<subseteq> set qs" using that by (auto simp: ids_def qs_def)
    then have "set (event_ids evt) \<subseteq> pl_loaded_live p3" "set (event_ids evt) \<subseteq> pl_loaded_tombs p3"
      "{q \<in> set (event_pairs evt). snd q \<noteq> []} \<subseteq> pl_loaded_pairs p3"
      using 1(2) 2(2) 3(2) l k by auto
    then show ?thesis by (simp add: covered_def p4 load_marks_def Let_def)
  qed
qed

section \<open>One planned event\<close>

text \<open>The reference: a planned event at once.\<close>

definition apply_one :: "apply_env \<Rightarrow> dict \<times> planned \<Rightarrow> store \<Rightarrow> store" where
  "apply_one env = (\<lambda>(evt, pl) s. case pd_disposition pl of
     ApplyCreate \<Rightarrow> set_replay_watermark (applied_mark env evt pl (written evt))
       (s\<lparr>st_memories := st_memories s @ [inserted_row (ae_now env) (written evt)]\<rparr>)
   | ApplyUpdate \<Rightarrow> set_replay_watermark (applied_mark env evt pl (written evt))
       (s\<lparr>st_memories := upsert_row row_key (updated_row (written evt)) (st_memories s)\<rparr>)
   | ApplyDelete \<Rightarrow>
       (let m = py_str (dget (dict_of (dget evt ''payload'')) ''id'') in
        record_tombstone (replay_tombstone env evt pl (get_memory m s)) (delete_replay_watermark m (delete_memory_row m s)))
   | SkipLegacyDeduped \<Rightarrow> set_replay_watermark (deduped_mark env evt pl) s
   | _ \<Rightarrow> s)"

text \<open>What pass 1 has made sure of.\<close>

definition applicable :: "apply_env \<Rightarrow> dict \<Rightarrow> planned \<Rightarrow> store \<Rightarrow> bool" where
  "applicable env evt pl s \<longleftrightarrow> (case pd_disposition pl of
     ApplyCreate \<Rightarrow> event_to_memory_record (dget evt ''payload'') = Inr (Some (written evt))
       \<and> typed_row (inserted_row (ae_now env) (written evt))
       \<and> (\<forall>x \<in> set (st_memories s). \<not> conflicting (inserted_row (ae_now env) (written evt)) x)
   | ApplyUpdate \<Rightarrow> event_to_memory_record (dget evt ''payload'') = Inr (Some (written evt))
       \<and> typed_row (updated_row (written evt))
       \<and> row_key (updated_row (written evt)) \<in> row_key ` set (st_memories s)
       \<and> (\<forall>x \<in> set (st_memories s). row_key x \<noteq> row_key (updated_row (written evt))
            \<longrightarrow> \<not> same_identity (updated_row (written evt)) x)
   | ApplyDelete \<Rightarrow> get_memory (py_str (dget (dict_of (dget evt ''payload'')) ''id'')) s \<noteq> None
   | _ \<Rightarrow> True)"

lemma check_event_Some:
  assumes "check_event prev types src evt = Inr (seq, Some c)"
  shows "dget evt ''payload'' = JObj (ce_payload c)" "dget (ce_payload c) ''id'' = JStr (ce_mid c)" "ce_mid c \<noteq> []"
    "ce_type c = str_or_empty evt ''event_type''" "ce_type c \<in> set RECONSTRUCTING_EVENT_TYPES" "ce_seq c = seq"
    "ce_ns c = str_of (dget_default (ce_payload c) ''namespace'' (JStr []))" "prev < seq" "0 < seq"
    "ce_id c = str_or_empty evt ''event_id''"
proof -
  have id: "strip (str_of v) \<noteq> [] \<Longrightarrow> v = JStr (str_of v) \<and> str_of v \<noteq> []" for v
    by (cases v) (auto simp: str_of_def)
  show "dget evt ''payload'' = JObj (ce_payload c)" "dget (ce_payload c) ''id'' = JStr (ce_mid c)" "ce_mid c \<noteq> []"
    "ce_type c = str_or_empty evt ''event_type''" "ce_type c \<in> set RECONSTRUCTING_EVENT_TYPES" "ce_seq c = seq"
    "ce_ns c = str_of (dget_default (ce_payload c) ''namespace'' (JStr []))" "prev < seq" "0 < seq"
    "ce_id c = str_or_empty evt ''event_id''"
    using assms
    by (auto simp: check_event_def Let_def rbind_eq_Inr check_payload_def check_event_seq_def check_namespace_def
        split: json.splits if_splits dest: id)
qed

text \<open>The row an event writes, inserted or updated, has the identity the planner has checked.\<close>

lemma new_row:
  assumes "carries_record evt" "check_event prev types src evt = Inr (seq, Some c)"
    and "R = inserted_row now (written evt) \<or> R = updated_row (written evt)"
  shows "typed_row R" "row_key R = JStr (ce_mid c)"
    "row_pair R = (ce_ns c, str_or_empty (ce_payload c) ''content_hash'')"
    "str_or_empty R ''identifier'' = str_or_empty (ce_payload c) ''identifier''"
    "event_to_memory_record (dget evt ''payload'') = Inr (Some (written evt))"
proof -
  note C = check_event_Some [OF assms(2)] and W = written_columns [OF assms(1) check_event_Some(1) [OF assms(2)]]
  have m: "''id'' \<in> set MEMORY_COLUMNS" "''namespace'' \<in> set MEMORY_COLUMNS" "''content_hash'' \<in> set MEMORY_COLUMNS"
    "''identifier'' \<in> set MEMORY_COLUMNS" by code_simp+
  have "dget (updated_row v) k = (if k \<in> set MEMORY_COLUMNS then dget v k else JNull)" for v k
    unfolding updated_row_def by (rule dget_map)
  then have R: "dget R ''id'' = dget (ce_payload c) ''id''" "dget R ''namespace'' = dget (ce_payload c) ''namespace''"
    "dget R ''content_hash'' = dget (ce_payload c) ''content_hash''" "dget R ''identifier'' = dget (ce_payload c) ''identifier''"
    using assms(3) m W(2-5) by (auto simp: dget_inserted_row)
  have t: "is_str (dget (ce_payload c) ''namespace'')" "is_str (dget (ce_payload c) ''content_hash'')"
    "is_str (dget (ce_payload c) ''identifier'')"
    using assms(1) C(1) by (simp_all add: carries_record_def text_columns_def)
  have "dget_default (ce_payload c) ''namespace'' (JStr []) = dget (ce_payload c) ''namespace''"
    using t(1) by (cases "map_of (ce_payload c) ''namespace''") (simp_all add: dget_default_def dget_def)
  then have ns: "dget (ce_payload c) ''namespace'' = JStr (ce_ns c)"
    using is_str_ex [OF t(1)] C(7) by (auto simp: str_of_def)
  show "typed_row R" using t C(2,3) by (simp add: typed_row_def R)
  show "row_key R = JStr (ce_mid c)" by (simp add: row_key_def R C(2))
  have e: "str_or_empty R k = str_or_empty (ce_payload c) k" if "dget R k = dget (ce_payload c) k" for k
    using that by (simp add: str_or_empty_def)
  show "row_pair R = (ce_ns c, str_or_empty (ce_payload c) ''content_hash'')"
    using ns by (simp add: row_pair_def e R)
  show "str_or_empty R ''identifier'' = str_or_empty (ce_payload c) ''identifier''" by (simp add: e R)
  show "event_to_memory_record (dget evt ''payload'') = Inr (Some (written evt))" by (rule W(1))
qed

lemma covered_record:
  assumes "check_event prev types src evt = Inr (seq, Some c)" "covered p evt"
  shows "ce_mid c \<in> pl_loaded_live p" "ce_mid c \<in> pl_loaded_tombs p"
    "text_columns evt \<Longrightarrow> str_or_empty (ce_payload c) ''content_hash'' \<noteq> [] \<Longrightarrow>
       (ce_ns c, str_or_empty (ce_payload c) ''content_hash'') \<in> pl_loaded_pairs p"
proof -
  note C = check_event_Some [OF assms(1)]
  have "event_ids evt = [ce_mid c]" using C(1-3) by (simp add: event_ids_def py_str_def)
  then show "ce_mid c \<in> pl_loaded_live p" "ce_mid c \<in> pl_loaded_tombs p"
    using assms(2) by (auto simp: covered_def)
  assume cr: "text_columns evt" and h: "str_or_empty (ce_payload c) ''content_hash'' \<noteq> []"
  let ?p = "ce_payload c"
  have t: "is_str (dget ?p ''namespace'')" "dget evt ''namespace'' \<in> {JNull, dget ?p ''namespace''}"
    "is_str (dget ?p ''content_hash'')"
    using cr C(1) by (simp_all add: text_columns_def)
  have "dget_default ?p ''namespace'' (JStr []) = dget ?p ''namespace''"
    using t(1) by (cases "map_of ?p ''namespace''") (simp_all add: dget_default_def dget_def)
  then have ns: "dget ?p ''namespace'' = JStr (ce_ns c)"
    using is_str_ex [OF t(1)] C(7) by (auto simp: str_of_def)
  obtain x where x: "dget ?p ''content_hash'' = JStr x" "x \<noteq> []" using is_str_ex [OF t(3)] h by auto
  let ?v = "por (dget ?p ''namespace'') (dget evt ''namespace'')"
  have "(if truthy ?v then py_str ?v else []) = ce_ns c" using t(2) ns by (auto simp: por_def py_str_def)
  then have "(ce_ns c, x) \<in> set (event_pairs evt)" using C(1) x by (auto simp: event_pairs_def Let_def py_str_def)
  then show "(ce_ns c, str_or_empty ?p ''content_hash'') \<in> pl_loaded_pairs p"
    using assms(2) x by (auto simp: covered_def)
qed

lemma check_transition_Inr: "check_transition c = Inr (hash, fp) \<Longrightarrow> hash = str_or_empty (ce_payload c) ''content_hash'' \<and> hash \<noteq> []"
  by (auto simp: check_transition_def Let_def rbind_eq_Inr split: if_splits)

lemma get_memory_snoc:
  "get_memory m s = None \<Longrightarrow> row_key R = JStr m \<Longrightarrow> st_memories s' = st_memories s @ [R] \<Longrightarrow>
     get_memory k s' = (if k = m then Some R else get_memory k s)"
  by (auto simp: get_memory_def find_key_append split: option.splits)

lemma tombstone_cong: "st_tombstones s' = st_tombstones s \<Longrightarrow> get_tombstone m s' = get_tombstone m s"
  by (simp add: get_tombstone_def)

lemma rows_inv_cong: "st_memories s' = st_memories s \<Longrightarrow> rows_inv s' = rows_inv s"
  by (simp add: rows_inv_def)

lemma planner_frames:
  "pl_loaded_live (create_new c h f p) = pl_loaded_live p" "pl_loaded_pairs (create_new c h f p) = pl_loaded_pairs p"
  "pl_loaded_tombs (create_new c h f p) = pl_loaded_tombs p" "pl_tombs (create_new c h f p) = pl_tombs p"
  "pl_mutated (create_new c h f p) = insert (ce_mid c) (pl_mutated p)" "pl_marks (create_new c h f p) = pl_marks p"
  "pl_loaded_live (set_live c l h f p) = pl_loaded_live p" "pl_loaded_pairs (set_live c l h f p) = pl_loaded_pairs p"
  "pl_loaded_tombs (set_live c l h f p) = pl_loaded_tombs p" "pl_tombs (set_live c l h f p) = pl_tombs p"
  "pl_mutated (set_live c l h f p) = insert (ce_mid c) (pl_mutated p)" "pl_marks (set_live c l h f p) = pl_marks p"
  "pl_loaded_live (forget_live c g l d h f p) = pl_loaded_live p"
  "pl_loaded_pairs (forget_live c g l d h f p) = pl_loaded_pairs p"
  "pl_loaded_tombs (forget_live c g l d h f p) = pl_loaded_tombs p" "pl_marks (forget_live c g l d h f p) = pl_marks p"
  "pl_mutated (forget_live c g l d h f p) = insert (ce_mid c) (pl_mutated p)"
  by (simp_all add: create_new_def set_live_def forget_live_def Let_def)

lemma create_agrees:
  assumes a: "agrees p t s" and R: "typed_row R" "row_key R = JStr (ce_mid c)" "row_pair R = (ce_ns c, hash)"
      "str_or_empty R ''identifier'' = str_or_empty (ce_payload c) ''identifier''" and h: "hash \<noteq> []"
    and p: "pl_live p (ce_mid c) = None" "\<not> bound_elsewhere c hash p"
    and l: "ce_mid c \<in> pl_loaded_live p" "ce_mid c \<in> pl_loaded_tombs p" "(ce_ns c, hash) \<in> pl_loaded_pairs p"
    and s': "st_memories s' = st_memories s @ [R]" "st_tombstones s' = st_tombstones s"
  shows "\<forall>x \<in> set (st_memories s). \<not> conflicting R x" "agrees (create_new c hash fp p) t s'"
proof -
  note A = agrees_onD [OF a [unfolded agrees_def]]
  let ?m = "ce_mid c" and ?q = "(ce_ns c, hash)"
  have none: "get_memory ?m s = None" by (rule A(4) [OF l(1) p(1)])
  have "pl_pairs p ?q = None" using p(2) A(6) [of ?q ?m] none h by (auto simp: bound_elsewhere_def split: option.splits)
  then have free: "row_pair x \<noteq> ?q" if "get_memory k s = Some x" for k x
    using A(7) [OF that] l(3) h by auto
  have key: "\<exists>k. row_key x = JStr k \<and> get_memory k s = Some x" if "x \<in> set (st_memories s)" for x
    using typed_rowE [OF typed_member [OF A(2) that]] get_memory_member [OF A(1) that] by metis
  show nc: "\<forall>x \<in> set (st_memories s). \<not> conflicting R x"
  proof
    fix x assume x: "x \<in> set (st_memories s)"
    obtain k where k: "row_key x = JStr k" "get_memory k s = Some x" using key [OF x] by blast
    then have "row_key x \<noteq> row_key R" using none R(2) by auto
    moreover have "\<not> same_identity R x"
      using typed_same_identity [OF R(1) typed_member [OF A(2) x]] free [OF k(2)] R(3) by auto
    ultimately show "\<not> conflicting R x" by (simp add: conflicting_def eq_commute)
  qed
  note g = get_memory_snoc [OF none R(2) s'(1)] and tb = tombstone_cong [OF s'(2)]
  have "rows_inv (s\<lparr>st_memories := st_memories s @ [R]\<rparr>)"
    using A(1) nc by (intro rows_inv_snoc) (auto simp: rows_inv_def keys_distinct_def)
  then have "rows_inv s'" using rows_inv_cong [of s' "s\<lparr>st_memories := st_memories s @ [R]\<rparr>"] s'(1) by simp
  moreover have "typed_rows s'" using A(2) R(1) by (simp add: typed_rows_def s'(1))
  moreover have "\<exists>r. get_memory k s' = Some r \<and> live_matches l r"
    if "pl_live (create_new c hash fp p) k = Some l" for k l
    using that A(3) [of k l] R(3,4) by (auto simp: create_new_def g live_matches_def after_entry_def split: if_splits)
  moreover have "get_memory k s' = None" if "k \<in> pl_loaded_live p" "pl_live (create_new c hash fp p) k = None" for k
    using that A(4) [of k] by (auto simp: create_new_def g split: if_splits)
  moreover have "\<exists>r. get_memory k s' = Some r \<and> row_pair r = q"
    if "pl_pairs (create_new c hash fp p) q = Some k" "snd q \<noteq> []" for q k
    using that A(6) [of q k] none R(3) by (auto simp: create_new_def g split: if_splits)
  moreover have "pl_pairs (create_new c hash fp p) (row_pair r) = Some k"
    if "get_memory k s' = Some r" "k \<in> insert ?m (pl_mutated p) \<or> row_pair r \<in> pl_loaded_pairs p" "snd (row_pair r) \<noteq> []" for k r
    using that A(7) [of k r] free [of k r] R(3) by (auto simp: create_new_def g split: if_splits)
  moreover have "get_memory k s' = get_memory k t \<and> get_tombstone k s' = get_tombstone k t" if "k \<notin> insert ?m (pl_mutated p)" for k
    using that A(8) [of k] by (simp add: g tb)
  ultimately show "agrees (create_new c hash fp p) t s'"
    using A(5,9-11) l(1,2) unfolding agrees_def agrees_on_def
    by (simp add: planner_frames tb)
qed

lemma typed_key: "rows_inv s \<Longrightarrow> typed_rows s \<Longrightarrow> x \<in> set (st_memories s) \<Longrightarrow>
    \<exists>k. row_key x = JStr k \<and> get_memory k s = Some x"
  using typed_rowE typed_member get_memory_member by metis

lemma upsert_subset: "set (upsert_row key r rows) \<subseteq> insert r {x \<in> set rows. key x \<noteq> key r}"
  by (auto simp: upsert_row_def image_iff)

lemma update_agrees:
  assumes a: "agrees p t s" and R: "typed_row R" "row_key R = JStr (ce_mid c)" "row_pair R = (ce_ns c, hash)"
      "str_or_empty R ''identifier'' = str_or_empty (ce_payload c) ''identifier''" and h: "hash \<noteq> []"
    and p: "pl_live p (ce_mid c) = Some l" "lv_namespace l = ce_ns c" "\<not> bound_elsewhere c hash p"
    and l: "ce_mid c \<in> pl_loaded_live p" "ce_mid c \<in> pl_loaded_tombs p" "(ce_ns c, hash) \<in> pl_loaded_pairs p"
    and s': "st_memories s' = upsert_row row_key R (st_memories s)" "st_tombstones s' = st_tombstones s"
  shows "row_key R \<in> row_key ` set (st_memories s)"
    "\<forall>x \<in> set (st_memories s). row_key x \<noteq> row_key R \<longrightarrow> \<not> same_identity R x"
    "agrees (set_live c l hash fp p) t s'"
proof -
  note A = agrees_onD [OF a [unfolded agrees_def]]
  let ?m = "ce_mid c" and ?q = "(ce_ns c, hash)" and ?p = "set_live c l hash fp p"
  obtain r0 where r0: "get_memory ?m s = Some r0" "row_pair r0 = (ce_ns c, lv_hash l)"
    using A(3) [OF p(1)] p(2) by (auto simp: live_matches_def)
  have free: "k = ?m" if "get_memory k s = Some x" "row_pair x = ?q" for k x
    using A(7) [OF that(1)] that(2) l(3) h p(3) by (auto simp: bound_elsewhere_def)
  show key: "row_key R \<in> row_key ` set (st_memories s)" using get_memoryD [OF r0(1)] R(2) by force
  show other: "\<forall>x \<in> set (st_memories s). row_key x \<noteq> row_key R \<longrightarrow> \<not> same_identity R x"
  proof (intro ballI impI)
    fix x assume x: "x \<in> set (st_memories s)" "row_key x \<noteq> row_key R"
    obtain k where k: "row_key x = JStr k" "get_memory k s = Some x" using typed_key [OF A(1,2) x(1)] by blast
    then have "row_pair x \<noteq> ?q" using free x(2) R(2) by metis
    then show "\<not> same_identity R x" using typed_same_identity [OF R(1) typed_member [OF A(2) x(1)]] R(3) by auto
  qed
  have g: "get_memory k s' = (if k = ?m then Some R else get_memory k s)" for k
    using R(2) by (auto simp: get_memory_def s'(1) find_key_upsert)
  note tb = tombstone_cong [OF s'(2)]
  let ?U = "insert R {x \<in> set (st_memories s). row_key x \<noteq> row_key R}"
  have sub: "set (st_memories s') \<subseteq> ?U" unfolding s'(1) by (rule upsert_subset)
  have "row_key r = row_key x" if "r \<in> ?U" "x \<in> ?U" "same_identity r x" for r x
    using that A(1) other by (auto simp: rows_inv_def same_identity_sym [of _ R])
  then have "\<forall>r \<in> set (st_memories s'). \<forall>x \<in> set (st_memories s'). same_identity r x \<longrightarrow> row_key r = row_key x"
    using sub by blast
  then have "rows_inv s'" using A(1) by (simp add: rows_inv_def s'(1) keys_distinct_upsert)
  moreover have "typed_rows s'" using A(2) R(1) sub unfolding typed_rows_def list_all_iff by blast
  moreover have "\<exists>r. get_memory k s' = Some r \<and> live_matches x r" if "pl_live ?p k = Some x" for k x
    using that A(3) [of k x] R(3,4) by (auto simp: set_live_def Let_def g live_matches_def after_entry_def split: if_splits)
  moreover have "get_memory k s' = None" if "k \<in> pl_loaded_live p" "pl_live ?p k = None" for k
    using that A(4) [of k] by (auto simp: set_live_def Let_def g split: if_splits)
  moreover have "\<exists>r. get_memory k s' = Some r \<and> row_pair r = q" if "pl_pairs ?p q = Some k" "snd q \<noteq> []" for q k
  proof (cases "q = ?q")
    case True
    then show ?thesis using that R(3) by (simp add: set_live_def Let_def g)
  next
    case False
    then have q: "pl_pairs p q = Some k" "q \<noteq> (ce_ns c, lv_hash l)"
      using that(1) by (auto simp: set_live_def Let_def split: if_splits)
    have "\<exists>r. get_memory k s = Some r \<and> row_pair r = q" by (rule A(6) [OF q(1) that(2)])
    then obtain r where r: "get_memory k s = Some r" "row_pair r = q" by blast
    then have "k \<noteq> ?m" using r0 q(2) by auto
    then show ?thesis using r by (simp add: g)
  qed
  moreover have "pl_pairs ?p (row_pair r) = Some k"
    if "get_memory k s' = Some r" "k \<in> insert ?m (pl_mutated p) \<or> row_pair r \<in> pl_loaded_pairs p" "snd (row_pair r) \<noteq> []" for k r
  proof (cases "k = ?m")
    case True
    then show ?thesis using that R(3) by (simp add: set_live_def Let_def g)
  next
    case False
    then have r: "get_memory k s = Some r" using that(1) by (simp add: g)
    then have "row_pair r \<noteq> ?q" using free False by blast
    moreover have "row_pair r \<noteq> (ce_ns c, lv_hash l)"
      using pair_unique [OF A(1,2) r r0(1)] r0(2) that(3) False by auto
    moreover have "pl_pairs p (row_pair r) = Some k" using A(7) [OF r _ that(3)] that(2) False by blast
    ultimately show ?thesis by (simp add: set_live_def Let_def)
  qed
  moreover have "get_memory k s' = get_memory k t \<and> get_tombstone k s' = get_tombstone k t" if "k \<notin> insert ?m (pl_mutated p)" for k
    using that A(8) [of k] by (simp add: g tb)
  ultimately show "agrees ?p t s'"
    using A(5,9-11) l(1,2) unfolding agrees_def agrees_on_def by (simp add: planner_frames tb)
qed

lemma delete_agrees:
  assumes a: "agrees p t s" and p: "pl_live p (ce_mid c) = Some l" "lv_namespace l = ce_ns c"
    and l: "ce_mid c \<in> pl_loaded_live p" "ce_mid c \<in> pl_loaded_tombs p"
    and s': "st_memories s' = remove_key row_key (JStr (ce_mid c)) (st_memories s)"
      "\<And>k. get_tombstone k s' = (if k = ce_mid c then Some ts else get_tombstone k s)"
  shows "get_memory (ce_mid c) s \<noteq> None" "agrees (forget_live c src l at h f p) t s'"
proof -
  note A = agrees_onD [OF a [unfolded agrees_def]]
  let ?m = "ce_mid c" and ?p = "forget_live c src l at h f p"
  obtain r0 where r0: "get_memory ?m s = Some r0" "row_pair r0 = (ce_ns c, lv_hash l)"
    using A(3) [OF p(1)] p(2) by (auto simp: live_matches_def)
  then show "get_memory ?m s \<noteq> None" by simp
  have g: "get_memory k s' = (if k = ?m then None else get_memory k s)" for k
    by (auto simp: get_memory_def s'(1) find_key_remove)
  have "set (st_memories s') \<subseteq> set (st_memories s)" by (auto simp: s'(1) set_remove_key)
  then have "rows_inv s'" "typed_rows s'"
    using A(1,2) unfolding rows_inv_def typed_rows_def list_all_iff s'(1) by (blast intro: keys_distinct_remove)+
  moreover have "\<exists>r. get_memory k s' = Some r \<and> live_matches x r" if "pl_live ?p k = Some x" for k x
    using that A(3) [of k x] by (auto simp: forget_live_def g split: if_splits)
  moreover have "get_memory k s' = None" if "k \<in> pl_loaded_live p" "pl_live ?p k = None" for k
    using that A(4) [of k] by (auto simp: forget_live_def g split: if_splits)
  moreover have "pl_tombs ?p k = None \<longleftrightarrow> get_tombstone k s' = None" if "k \<in> pl_loaded_tombs p" "k \<noteq> []" for k
    using that A(5) [of k] by (simp add: forget_live_def s'(2))
  moreover have "pl_tombs ?p k = None" if "k \<notin> pl_loaded_tombs p" for k
    using that A(11) [of k] l(2) by (auto simp: forget_live_def)
  moreover have "\<exists>r. get_memory k s' = Some r \<and> row_pair r = q" if "pl_pairs ?p q = Some k" "snd q \<noteq> []" for q k
  proof -
    have q: "pl_pairs p q = Some k" "q \<noteq> (ce_ns c, lv_hash l)" using that(1) by (auto simp: forget_live_def split: if_splits)
    have "\<exists>r. get_memory k s = Some r \<and> row_pair r = q" by (rule A(6) [OF q(1) that(2)])
    then obtain r where r: "get_memory k s = Some r" "row_pair r = q" by blast
    then have "k \<noteq> ?m" using r0 q(2) by auto
    then show ?thesis using r by (simp add: g)
  qed
  moreover have "pl_pairs ?p (row_pair r) = Some k"
    if "get_memory k s' = Some r" "k \<in> insert ?m (pl_mutated p) \<or> row_pair r \<in> pl_loaded_pairs p" "snd (row_pair r) \<noteq> []" for k r
  proof -
    have k: "k \<noteq> ?m" and r: "get_memory k s = Some r" using that(1) by (auto simp: g split: if_splits)
    have "row_pair r \<noteq> (ce_ns c, lv_hash l)" using pair_unique [OF A(1,2) r r0(1)] r0(2) that(3) k by auto
    moreover have "pl_pairs p (row_pair r) = Some k" using A(7) [OF r _ that(3)] that(2) k by blast
    ultimately show ?thesis by (simp add: forget_live_def)
  qed
  moreover have "get_memory k s' = get_memory k t \<and> get_tombstone k s' = get_tombstone k t" if "k \<notin> insert ?m (pl_mutated p)" for k
    using that A(8) [of k] by (simp add: g s'(2))
  ultimately show "agrees ?p t s'"
    using A(9,10) l(1,2) unfolding agrees_def agrees_on_def by (simp add: planner_frames)
qed

section \<open>What the planner answers\<close>

lemma plan_create_cases:
  assumes "plan_create c g h f p = Inr (d, p')"
  obtains (skip) "d = SkipIdempotent" "p' = p"
    | (deduped) "d = SkipLegacyDeduped" "p' = p\<lparr>pl_legacy_deduped := insert (ce_mid c) (pl_legacy_deduped p)\<rparr>"
        "pl_tombs p (ce_mid c) = None" "pl_live p (ce_mid c) = None"
    | (applies) "d = ApplyCreate" "p' = create_new c h f p" "pl_tombs p (ce_mid c) = None" "pl_live p (ce_mid c) = None"
        "\<not> bound_elsewhere c h p"
proof (cases "pl_tombs p (ce_mid c)")
  case (Some t)
  then show ?thesis using assms skip by (auto simp: plan_create_def split: if_splits)
next
  case None
  show ?thesis
  proof (cases "pl_live p (ce_mid c)")
    case (Some l)
    then show ?thesis using assms None skip by (auto simp: plan_create_def split: if_splits)
  next
    case live: None
    then show ?thesis using assms None deduped applies by (auto simp: plan_create_def split: if_splits)
  qed
qed

lemma update_live_cases:
  assumes "update_live c g h f l p = Inr (d, p')"
  shows "d = SkipIdempotent \<and> p' = p \<or>
    d = ApplyUpdate \<and> p' = set_live c l h f p \<and> lv_namespace l = ce_ns c \<and> \<not> bound_elsewhere c h p"
  using assms unfolding update_live_def Let_def by (simp split: if_splits)

lemma plan_update_cases:
  assumes "plan_update c g h f p = Inr (d, p')"
  obtains (skip) "d = SkipIdempotent" "p' = p"
    | (deduped) "d = SkipLegacyDeduped" "p' = p" "pl_tombs p (ce_mid c) = None" "pl_live p (ce_mid c) = None"
        "ce_mid c \<notin> pl_legacy_deduped p"
    | (applies) l where "d = ApplyUpdate" "p' = set_live c l h f p" "pl_tombs p (ce_mid c) = None" "pl_live p (ce_mid c) = Some l"
        "lv_namespace l = ce_ns c" "\<not> bound_elsewhere c h p"
proof (cases "ce_mid c \<in> pl_legacy_deduped p")
  case True
  then show ?thesis using assms skip by (simp add: plan_update_def)
next
  case False
  show ?thesis
  proof (cases "pl_tombs p (ce_mid c)")
    case (Some t)
    then show ?thesis using assms False skip by (simp add: plan_update_def split: if_splits)
  next
    case None
    show ?thesis
    proof (cases "pl_live p (ce_mid c)")
      case (Some l)
      then have "update_live c g h f l p = Inr (d, p')" using assms False None by (simp add: plan_update_def)
      from update_live_cases [OF this] show ?thesis using skip applies [OF _ _ None Some] by blast
    next
      case live: None
      then show ?thesis using assms False None deduped by (simp add: plan_update_def split: if_splits)
    qed
  qed
qed

lemma delete_live_cases:
  assumes "delete_live c g at h f l p = Inr (d, h', f', p')"
  shows "d = ApplyDelete \<and> p' = forget_live c g l at h' f' p \<and> lv_namespace l = ce_ns c"
  using assms unfolding delete_live_def Let_def by (auto split: if_splits)

lemma plan_delete_cases:
  assumes "plan_delete evt c g p = Inr (d, h, f, p')"
  obtains (skip) "d = SkipIdempotent" "p' = p"
    | (deduped) "d = SkipLegacyDeduped" "p' = p" "pl_tombs p (ce_mid c) = None" "pl_live p (ce_mid c) = None"
        "ce_mid c \<notin> pl_legacy_deduped p"
    | (applies) l at where "d = ApplyDelete" "p' = forget_live c g l at h f p" "pl_tombs p (ce_mid c) = None"
        "pl_live p (ce_mid c) = Some l" "lv_namespace l = ce_ns c"
proof -
  let ?at = "str_of (deleted_at_of evt (ce_payload c))" and ?h = "str_or_empty (ce_payload c) ''content_hash''"
  let ?f = "str_or_empty (ce_payload c) ''record_fingerprint''"
  show ?thesis
  proof (cases "pl_tombs p (ce_mid c)")
    case (Some t)
    then show ?thesis using assms skip unfolding plan_delete_def Let_def by (simp split: if_splits)
  next
    case None
    show ?thesis
    proof (cases "pl_live p (ce_mid c)")
      case (Some l)
      then have "d = SkipIdempotent \<and> p' = p \<or> delete_live c g ?at ?h ?f l p = Inr (d, h, f, p')"
        using assms None unfolding plan_delete_def Let_def by (simp split: if_splits)
      then show ?thesis using skip applies [OF _ _ None Some] delete_live_cases by blast
    next
      case live: None
      then show ?thesis using assms None skip deduped unfolding plan_delete_def Let_def by (simp split: if_splits)
    qed
  qed
qed

lemma agrees_cong:
  "st_memories s' = st_memories s \<Longrightarrow> st_tombstones s' = st_tombstones s \<Longrightarrow> agrees p t s' = agrees p t s"
  by (simp add: agrees_def agrees_on_def rows_inv_def typed_rows_def get_memory_def get_tombstone_def)

lemma agrees_deduped: "agrees (p\<lparr>pl_legacy_deduped := X\<rparr>) t s = agrees p t s"
  by (simp add: agrees_def agrees_on_def)

lemma applied_delete:
  assumes "dget (dict_of (dget evt ''payload'')) ''id'' = JStr m" "pd_disposition pl = ApplyDelete"
  shows "st_memories (apply_one env (evt, pl) s) = remove_key row_key (JStr m) (st_memories s)"
    "get_tombstone k (apply_one env (evt, pl) s)
      = (if k = m then Some (tombstone_defaults (replay_tombstone env evt pl (get_memory m s))) else get_tombstone k s)"
proof -
  have "ts_memory (replay_tombstone env evt pl row) = m" for row
    using assms(1) by (simp add: replay_tombstone_def Let_def py_str_def)
  then show "st_memories (apply_one env (evt, pl) s) = remove_key row_key (JStr m) (st_memories s)"
    "get_tombstone k (apply_one env (evt, pl) s)
      = (if k = m then Some (tombstone_defaults (replay_tombstone env evt pl (get_memory m s))) else get_tombstone k s)"
    using assms by (simp_all add: apply_one_def py_str_def tombstones.get_put)
    (simp_all add: delete_memory_row_def)
qed

lemma skipped_step:
  assumes "pd_disposition pl = SkipIdempotent \<or> pd_disposition pl = SkipLegacyDeduped" "agrees p t s"
  shows "applicable env evt pl s \<and> agrees p t (apply_one env (evt, pl) s)"
proof -
  have "st_memories (apply_one env (evt, pl) s) = st_memories s" "st_tombstones (apply_one env (evt, pl) s) = st_tombstones s"
    using assms(1) by (auto simp: apply_one_def)
  from agrees_cong [OF this] show ?thesis using assms by (auto simp: applicable_def)
qed

text \<open>An event the planner has planned to be written, and whose payload can be read, carries the record it writes.\<close>

definition writable :: "dict \<Rightarrow> planned \<Rightarrow> bool" where
  "writable evt pl \<longleftrightarrow> (pd_disposition pl \<in> {ApplyCreate, ApplyUpdate} \<longrightarrow> carries_record evt)"

lemma planned_type:
  assumes "plan_event prev types src evt p = Inr (pl, p')" "pd_disposition pl \<in> {ApplyCreate, ApplyUpdate}"
  obtains seq c where "check_event prev types src evt = Inr (seq, Some c)"
    "str_or_empty evt ''event_type'' \<in> {''memory.created'', ''memory.updated''}"
proof -
  obtain seq oc where ce: "check_event prev types src evt = Inr (seq, oc)"
    and rest: "(case oc of None \<Rightarrow> Inr (\<lparr>pd_disposition = Observational, pd_seq = seq, pd_namespace = [], pd_hash = [], pd_fingerprint = []\<rparr>, p)
       | Some c \<Rightarrow> plan_transition evt (source_text mi_history_id src) c p) = Inr (pl, p')"
    using assms(1) by (auto simp: plan_event_def rbind_eq_Inr)
  obtain c where c: "oc = Some c" using rest assms(2) by (cases oc) auto
  have pt: "plan_transition evt (source_text mi_history_id src) c p = Inr (pl, p')" using rest c by simp
  note C = check_event_Some [OF ce [unfolded c]]
  have "ce_type c \<noteq> ''memory.deleted''"
  proof
    assume "ce_type c = ''memory.deleted''"
    then obtain d h f where d: "plan_delete evt c (source_text mi_history_id src) p = Inr (d, h, f, p')" "pl = outcome d c h f"
      using pt by (auto simp: plan_transition_def rbind_eq_Inr)
    from d(1) show False by (cases rule: plan_delete_cases) (use assms(2) d(2) in \<open>simp_all add: outcome_def\<close>)
  qed
  then have "str_or_empty evt ''event_type'' \<in> {''memory.created'', ''memory.updated''}"
    using C(4,5) by (auto simp: RECONSTRUCTING_EVENT_TYPES_def)
  then show ?thesis using that ce c by blast
qed

lemma planned_readable:
  assumes "plan_event prev types src evt p = Inr (pl, p')" "textual evt"
    and "pd_disposition pl \<in> {ApplyCreate, ApplyUpdate} \<Longrightarrow> \<exists>r. event_to_memory_record (dget evt ''payload'') = Inr r"
  shows "writable evt pl"
  unfolding writable_def
proof
  assume d: "pd_disposition pl \<in> {ApplyCreate, ApplyUpdate}"
  obtain r where r: "event_to_memory_record (dget evt ''payload'') = Inr r" using assms(3) d by blast
  obtain seq c where ce: "check_event prev types src evt = Inr (seq, Some c)"
    and ty: "str_or_empty evt ''event_type'' \<in> {''memory.created'', ''memory.updated''}"
    by (rule planned_type [OF assms(1) d])
  note C = check_event_Some [OF ce]
  have "ce_payload c \<noteq> []" using C(2) by (auto simp: dget_def)
  then have "r \<noteq> None"
    using r C(1-3) by (auto simp: event_to_memory_record_def por_def rbind_eq_Inr)
  then show "carries_record evt" using r ty assms(2) by (auto simp: carries_record_def textual_def)
qed

lemma plan_event_step:
  assumes pe: "plan_event prev types src evt p = Inr (pl, p')" and a: "agrees p t s" and c: "covered p evt"
    and tx: "textual evt" and wr: "writable evt pl"
  shows "applicable env evt pl s" "agrees p' t (apply_one env (evt, pl) s)"
proof -
  obtain seq oc where ce: "check_event prev types src evt = Inr (seq, oc)"
    and rest: "(case oc of None \<Rightarrow> Inr (\<lparr>pd_disposition = Observational, pd_seq = seq, pd_namespace = [], pd_hash = [], pd_fingerprint = []\<rparr>, p)
       | Some c \<Rightarrow> plan_transition evt (source_text mi_history_id src) c p) = Inr (pl, p')"
    using pe by (auto simp: plan_event_def rbind_eq_Inr)
  have "applicable env evt pl s \<and> agrees p' t (apply_one env (evt, pl) s)"
  proof (cases oc)
    case None
    then show ?thesis using rest a by (auto simp: applicable_def apply_one_def)
  next
    case (Some ev)
    let ?g = "source_text mi_history_id src"
    note C = check_event_Some [OF ce [unfolded Some]] and L = covered_record [OF ce [unfolded Some] c]
    have pt: "plan_transition evt ?g ev p = Inr (pl, p')" using rest Some by simp
    show ?thesis
    proof (cases "ce_type ev = ''memory.deleted''")
      case True
      then obtain d h f where d: "plan_delete evt ev ?g p = Inr (d, h, f, p')" "pl = outcome d ev h f"
        using pt by (auto simp: plan_transition_def rbind_eq_Inr)
      have pd: "pd_disposition pl = d" by (simp add: d(2) outcome_def)
      from d(1) show ?thesis
      proof (cases rule: plan_delete_cases)
        case (applies l at)
        have m: "dget (dict_of (dget evt ''payload'')) ''id'' = JStr (ce_mid ev)" using C(1,2) by simp
        note D = applied_delete [OF m, where pl = pl and env = env] and
          E = delete_agrees [OF a applies(4,5) L(1,2), of "apply_one env (evt, pl) s"]
        have "get_memory (ce_mid ev) s \<noteq> None \<and> agrees p' t (apply_one env (evt, pl) s)"
          unfolding applies(2) using E D pd applies(1) by blast
        then show ?thesis using pd applies(1) m by (simp add: applicable_def py_str_def)
      qed (use pd skipped_step [OF _ a] in simp_all)
    next
      case False
      then have cu: "ce_type ev \<in> {''memory.created'', ''memory.updated''}" using C(5) by (auto simp: RECONSTRUCTING_EVENT_TYPES_def)
      then have tc: "text_columns evt" using tx C(4) by (simp add: textual_def)
      obtain hash fp where h: "check_transition ev = Inr (hash, fp)"
        and rest: "rbind (if ce_type ev = ''memory.created'' then plan_create ev ?g hash fp p else plan_update ev ?g hash fp p)
          (\<lambda>(d, p'). Inr (outcome d ev hash fp, p')) = Inr (pl, p')"
        using pt False by (auto simp: plan_transition_def rbind_eq_Inr)
      note H = check_transition_Inr [OF h]
      have L3: "(ce_ns ev, hash) \<in> pl_loaded_pairs p" using L(3) [OF tc] H by metis
      show ?thesis
      proof (cases "ce_type ev = ''memory.created''")
        case True
        then obtain d where d: "plan_create ev ?g hash fp p = Inr (d, p')" "pl = outcome d ev hash fp"
          using rest by (auto simp: rbind_eq_Inr)
        have pd: "pd_disposition pl = d" by (simp add: d(2) outcome_def)
        from d(1) show ?thesis
        proof (cases rule: plan_create_cases)
          case applies
          have cr: "carries_record evt" using wr pd applies(1) by (simp add: writable_def)
          let ?R = "inserted_row (ae_now env) (written evt)"
          note N = new_row [OF cr ce [unfolded Some], where R = ?R and now = "ae_now env"]
          have R: "typed_row ?R" "row_key ?R = JStr (ce_mid ev)" "row_pair ?R = (ce_ns ev, hash)"
            "str_or_empty ?R ''identifier'' = str_or_empty (ce_payload ev) ''identifier''"
            using N H by auto
          note D = create_agrees [OF a R _ applies(4,5) L(1,2) L3, of "apply_one env (evt, pl) s"]
          have "st_memories (apply_one env (evt, pl) s) = st_memories s @ [?R]" "st_tombstones (apply_one env (evt, pl) s) = st_tombstones s"
            using pd applies(1) by (simp_all add: apply_one_def)
          with D H have "(\<forall>x \<in> set (st_memories s). \<not> conflicting ?R x) \<and> agrees p' t (apply_one env (evt, pl) s)"
            unfolding applies(2) by blast
          then show ?thesis using pd applies(1) R(1) N(5) by (simp add: applicable_def)
        qed (use pd skipped_step [OF _ a] in \<open>simp_all add: agrees_deduped\<close>)
      next
        case False
        then obtain d where d: "plan_update ev ?g hash fp p = Inr (d, p')" "pl = outcome d ev hash fp"
          using rest by (auto simp: rbind_eq_Inr)
        have pd: "pd_disposition pl = d" by (simp add: d(2) outcome_def)
        from d(1) show ?thesis
        proof (cases rule: plan_update_cases)
          case (applies l)
          have cr: "carries_record evt" using wr pd applies(1) by (simp add: writable_def)
          let ?R = "updated_row (written evt)"
          note N = new_row [OF cr ce [unfolded Some], where R = ?R]
          have R: "typed_row ?R" "row_key ?R = JStr (ce_mid ev)" "row_pair ?R = (ce_ns ev, hash)"
            "str_or_empty ?R ''identifier'' = str_or_empty (ce_payload ev) ''identifier''"
            using N H by auto
          note D = update_agrees [OF a R _ applies(4,5,6) L(1,2) L3, of "apply_one env (evt, pl) s"]
          have "st_memories (apply_one env (evt, pl) s) = upsert_row row_key ?R (st_memories s)"
            "st_tombstones (apply_one env (evt, pl) s) = st_tombstones s"
            using pd applies(1) by (simp_all add: apply_one_def)
          with D H have "row_key ?R \<in> row_key ` set (st_memories s) \<and>
              (\<forall>x \<in> set (st_memories s). row_key x \<noteq> row_key ?R \<longrightarrow> \<not> same_identity ?R x) \<and> agrees p' t (apply_one env (evt, pl) s)"
            unfolding applies(2) by blast
          then show ?thesis using pd applies(1) R(1) N(5) by (simp add: applicable_def)
        qed (use pd skipped_step [OF _ a] in simp_all)
      qed
    qed
  qed
  then show "applicable env evt pl s" "agrees p' t (apply_one env (evt, pl) s)" by auto
qed

end
