(* ===== verification/ReplayExact.thy ===== *)
theory ReplayExact
  imports ReplayRefine
begin

text \<open>
  The two passes together: what pass 1 has planned, pass 2 carries out exactly, batches included, and it
  cannot fail. The guarantees of \<open>apply_event_range\<close> follow: its counts are those of the plan, and a
  record that has been deleted is never brought back.
\<close>

section \<open>Stores up to the order of the watermarks\<close>

definition like :: "store \<Rightarrow> store \<Rightarrow> bool" where
  "like s s' \<longleftrightarrow> st_memories s = st_memories s' \<and> st_tombstones s = st_tombstones s' \<and> st_events s = st_events s'
     \<and> st_last_seq s = st_last_seq s' \<and> st_meta s = st_meta s' \<and> st_ledger s = st_ledger s'
     \<and> (\<forall>m. get_replay_watermark m s = get_replay_watermark m s')"

lemma like_refl [simp]: "like s s"
  by (simp add: like_def)

lemma like_trans: "like a b \<Longrightarrow> like b c \<Longrightarrow> like a c"
  by (simp add: like_def)

lemma like_get_memory: "like s s' \<Longrightarrow> get_memory m s = get_memory m s'"
  by (simp add: like_def get_memory_def)

lemma like_tombstone: "like s s' \<Longrightarrow> get_tombstone m s = get_tombstone m s'"
  by (simp add: like_def get_tombstone_def)

lemma like_watermark: "like s s' \<Longrightarrow> like (set_replay_watermark w s) (set_replay_watermark w s')"
  by (simp add: like_def watermarks.get_put)

lemma like_remove_watermark: "like s s' \<Longrightarrow> like (delete_replay_watermark m s) (delete_replay_watermark m s')"
  by (simp add: like_def watermarks.get_remove)

lemma like_memories: "like s s' \<Longrightarrow> like (s\<lparr>st_memories := ms\<rparr>) (s'\<lparr>st_memories := ms\<rparr>)"
  by (simp add: like_def get_replay_watermark_def)

lemma like_tombstones: "like s s' \<Longrightarrow> like (record_tombstone x s) (record_tombstone x s')"
  by (simp add: like_def) (simp add: record_tombstone_def)

lemma apply_one_like:
  assumes "like s s'"
  shows "like (apply_one env x s) (apply_one env x s')"
proof -
  obtain evt pl where x: "x = (evt, pl)" by force
  have "st_memories s = st_memories s'" using assms by (simp add: like_def)
  then show ?thesis
    using assms like_get_memory [OF assms]
    by (cases "pd_disposition pl")
      (simp_all add: x apply_one_def Let_def like_watermark like_memories like_tombstones like_remove_watermark delete_memory_row_def)
qed

lemma fold_apply_one_like: "like s s' \<Longrightarrow> like (fold (apply_one env) xs s) (fold (apply_one env) xs s')"
  by (induction xs arbitrary: s s') (auto intro: apply_one_like)

section \<open>Flushing\<close>

definition pending_ok :: "plan_state \<Rightarrow> apply_state \<Rightarrow> bool" where
  "pending_ok p a \<longleftrightarrow> (ap_records a = [] \<longrightarrow> ap_marks a = [])
     \<and> (\<forall>w \<in> set (ap_marks a). wm_memory w \<noteq> [] \<and> pl_live p (wm_memory w) \<noteq> None)"

abbreviation settle :: "apply_env \<Rightarrow> apply_state \<Rightarrow> apply_state" where
  "settle env a \<equiv> flush_created (ae_now env) a"

lemma present_marks:
  "\<forall>w \<in> set ws. wm_memory w \<noteq> [] \<and> get_memory (wm_memory w) s \<noteq> None \<Longrightarrow>
     fold set_present_mark ws s = fold set_replay_watermark ws s"
  by (induction ws arbitrary: s) (auto simp: set_present_mark_def)

lemma fold_mark_frames [simp]:
  "st_memories (fold set_present_mark ws s) = st_memories s"
  "st_memories (fold set_replay_watermark ws s) = st_memories s"
  "st_tombstones (fold set_present_mark ws s) = st_tombstones s"
  by (induction ws arbitrary: s; auto simp: set_present_mark_def)+

lemma fold_marks_memories:
  "fold set_replay_watermark ws (s\<lparr>st_memories := ms\<rparr>) = (fold set_replay_watermark ws s)\<lparr>st_memories := ms\<rparr>"
proof -
  have "set_replay_watermark w (s\<lparr>st_memories := ms\<rparr>) = (set_replay_watermark w s)\<lparr>st_memories := ms\<rparr>" for w s
    by (simp add: set_replay_watermark_def)
  then show ?thesis by (induction ws arbitrary: s) simp_all
qed

lemma fold_marks_like:
  "wm_memory d \<notin> wm_memory ` set ws \<Longrightarrow>
     like (fold set_replay_watermark ws (set_replay_watermark d s)) (set_replay_watermark d (fold set_replay_watermark ws s))"
proof (induction ws arbitrary: s)
  case (Cons w ws)
  have fold_like: "like a b \<Longrightarrow> like (fold set_replay_watermark ws a) (fold set_replay_watermark ws b)" for a b
    by (induction ws arbitrary: a b) (auto intro: like_watermark)
  have "like (set_replay_watermark w (set_replay_watermark d s)) (set_replay_watermark d (set_replay_watermark w s))"
    using Cons.prems by (auto simp: like_def watermarks.get_put)
  from fold_like [OF this] Cons.IH [of "set_replay_watermark w s"] Cons.prems show ?case by (auto intro: like_trans)
qed simp

lemma settle_store:
  assumes "ap_records a = [] \<longrightarrow> ap_marks a = []"
  shows "ap_store (settle env a) = fold set_present_mark (ap_marks a) (fst (insert_many_ignore (ae_now env) (ap_records a) (ap_store a)))"
    "ap_applied (settle env a) = ap_applied a + snd (insert_many_ignore (ae_now env) (ap_records a) (ap_store a))"
    "ap_skipped (settle env a)
      = ap_skipped a + (length (ap_records a) - snd (insert_many_ignore (ae_now env) (ap_records a) (ap_store a)))"
  using assms by (auto simp: flush_created_def insert_many_ignore_def case_prod_beta)

lemma settle_settled: "ap_records a = [] \<Longrightarrow> settle env a = a"
  by (simp add: flush_created_def)

lemma settle_pending: "ap_records (settle env a) = []" "pending_ok p a \<Longrightarrow> ap_marks (settle env a) = []"
  by (auto simp: flush_created_def pending_ok_def case_prod_beta)

lemma pending_present:
  assumes "pending_ok p a" "agrees p t (ap_store (settle env a))"
  shows "ap_store (settle env a) = fold set_replay_watermark (ap_marks a) (fst (insert_many_ignore (ae_now env) (ap_records a) (ap_store a)))"
proof -
  let ?s1 = "fst (insert_many_ignore (ae_now env) (ap_records a) (ap_store a))"
  have e: "ap_store (settle env a) = fold set_present_mark (ap_marks a) ?s1"
    using assms(1) by (intro settle_store) (simp add: pending_ok_def)
  have "get_memory m ?s1 = get_memory m (ap_store (settle env a))" for m by (simp add: e get_memory_def)
  moreover have "get_memory m (ap_store (settle env a)) \<noteq> None" if "pl_live p m \<noteq> None" for m
    using agrees_onD(3) [OF assms(2) [unfolded agrees_def]] that by auto
  ultimately show ?thesis using assms(1) unfolding e pending_ok_def by (intro present_marks) auto
qed

lemma insert_many_bound: "snd (insert_many_ignore now vs s) \<le> length vs"
proof -
  have "snd (fold (insert_ignore now) vs st) \<le> snd st + length vs" for st
  proof (induction vs arbitrary: st)
    case (Cons v vs)
    have "snd (insert_ignore now v st) \<le> Suc (snd st)" by (simp add: insert_ignore_def Let_def)
    with Cons.IH [of "insert_ignore now v st"] show ?case by simp
  qed simp
  from this [of "(s, 0)"] show ?thesis by (simp add: insert_many_ignore_def)
qed

lemma insert_many_watermark:
  "insert_many_ignore now vs (set_replay_watermark d s)
    = map_prod (set_replay_watermark d) id (insert_many_ignore now vs s)"
proof -
  have step: "insert_ignore now v (map_prod (set_replay_watermark d) id st) = map_prod (set_replay_watermark d) id (insert_ignore now v st)" for v st
    by (cases st) (simp add: insert_ignore_def Let_def set_replay_watermark_def)
  have "fold (insert_ignore now) vs (map_prod (set_replay_watermark d) id st)
      = map_prod (set_replay_watermark d) id (fold (insert_ignore now) vs st)" for st
    by (induction vs arbitrary: st) (simp_all add: step)
  from this [of "(s, 0)"] show ?thesis by (simp add: insert_many_ignore_def)
qed

section \<open>One event in the batched pass\<close>

lemma typed_identifier: "typed_row r \<Longrightarrow> dget r ''identifier'' \<noteq> JNull"
  by (auto simp: typed_row_def)

lemma apply_skip:
  assumes "pd_disposition pl = SkipIdempotent"
  shows "apply_planned env (evt, pl) a = Inr (a\<lparr>ap_skipped := ap_skipped a + 1\<rparr>)"
    "settle env (a\<lparr>ap_skipped := ap_skipped a + 1\<rparr>) = (settle env a)\<lparr>ap_skipped := ap_skipped (settle env a) + 1\<rparr>"
  using assms by (simp_all add: apply_planned_def flush_created_def case_prod_beta)

lemma apply_deduped:
  assumes "pd_disposition pl = SkipLegacyDeduped" "pending_ok p a" "agrees p t (ap_store (settle env a))"
    and "pl_live p (wm_memory (deduped_mark env evt pl)) = None"
  obtains a' where "apply_planned env (evt, pl) a = Inr a'" "pending_ok p a'"
    "like (ap_store (settle env a')) (apply_one env (evt, pl) (ap_store (settle env a)))"
    "ap_applied (settle env a') = ap_applied (settle env a)" "ap_skipped (settle env a') = ap_skipped (settle env a) + 1"
proof -
  let ?d = "deduped_mark env evt pl"
  let ?a = "a\<lparr>ap_skipped := ap_skipped a + 1, ap_store := set_replay_watermark ?d (ap_store a)\<rparr>"
  let ?I = "insert_many_ignore (ae_now env) (ap_records a) (ap_store a)"
  have ok: "pending_ok p ?a" using assms(2) by (simp add: pending_ok_def)
  have rm: "ap_records a = [] \<longrightarrow> ap_marks a = []" "ap_records ?a = [] \<longrightarrow> ap_marks ?a = []"
    using assms(2) by (auto simp: pending_ok_def)
  note S = settle_store [OF rm(2), of env] and S0 = settle_store [OF rm(1), of env]
  have pres: "\<forall>w \<in> set (ap_marks a). wm_memory w \<noteq> [] \<and> get_memory (wm_memory w) (fst ?I) \<noteq> None"
  proof
    fix w assume w: "w \<in> set (ap_marks a)"
    then have "pl_live p (wm_memory w) \<noteq> None" "wm_memory w \<noteq> []" using assms(2) by (auto simp: pending_ok_def)
    moreover have "get_memory (wm_memory w) (ap_store (settle env a)) = get_memory (wm_memory w) (fst ?I)"
      by (simp add: S0(1) get_memory_def)
    ultimately show "wm_memory w \<noteq> [] \<and> get_memory (wm_memory w) (fst ?I) \<noteq> None"
      using agrees_onD(3) [OF assms(3) [unfolded agrees_def], of "wm_memory w"] by auto
  qed
  have "ap_store (settle env ?a) = fold set_present_mark (ap_marks a) (set_replay_watermark ?d (fst ?I))"
    using S(1) by (simp add: insert_many_watermark)
  also have "\<dots> = fold set_replay_watermark (ap_marks a) (set_replay_watermark ?d (fst ?I))"
    by (rule present_marks) (use pres in simp)
  finally have 1: "ap_store (settle env ?a) = fold set_replay_watermark (ap_marks a) (set_replay_watermark ?d (fst ?I))" .
  have "ap_store (settle env a) = fold set_replay_watermark (ap_marks a) (fst ?I)"
    by (rule pending_present [OF assms(2,3)])
  moreover have "wm_memory ?d \<notin> wm_memory ` set (ap_marks a)" using assms(2,4) by (auto simp: pending_ok_def)
  ultimately have "like (ap_store (settle env ?a)) (apply_one env (evt, pl) (ap_store (settle env a)))"
    using fold_marks_like [of ?d "ap_marks a" "fst ?I"] unfolding 1 by (simp add: apply_one_def assms(1))
  then show ?thesis
    using assms(1) ok S(2,3) S0(2,3) by (intro that) (simp_all add: apply_planned_def insert_many_watermark)
qed

lemma settled_flush: "pending_ok p a \<Longrightarrow> settle env (settle env a) = settle env a"
  by (simp add: settle_settled settle_pending)

lemma settled_pending_ok: "pending_ok p a \<Longrightarrow> pending_ok q (settle env a)"
  by (simp add: pending_ok_def [of q] settle_pending)

lemma apply_create_step:
  assumes "pd_disposition pl = ApplyCreate" "pending_ok p a" "agrees p t (ap_store (settle env a))"
    and "applicable env evt pl (ap_store (settle env a))"
    and "pending_ok p' a" "str_or_empty (written evt) ''id'' \<noteq> []" "pl_live p' (str_or_empty (written evt) ''id'') \<noteq> None"
  obtains a' where "apply_planned env (evt, pl) a = Inr a'" "pending_ok p' a'"
    "ap_store (settle env a') = apply_one env (evt, pl) (ap_store (settle env a))"
    "ap_applied (settle env a') = ap_applied (settle env a) + 1" "ap_skipped (settle env a') = ap_skipped (settle env a)"
proof -
  let ?v = "written evt" and ?now = "ae_now env"
  let ?w = "applied_mark env evt pl ?v"
  let ?a = "a\<lparr>ap_records := ap_records a @ [?v], ap_marks := ap_marks a @ [?w]\<rparr>"
  let ?I = "insert_many_ignore ?now (ap_records a) (ap_store a)"
  let ?R = "inserted_row ?now ?v" and ?s1 = "fst (insert_many_ignore (ae_now env) (ap_records a) (ap_store a))"
  have rm: "ap_records a = [] \<longrightarrow> ap_marks a = []" "ap_records ?a = [] \<longrightarrow> ap_marks ?a = []"
    using assms(2) by (auto simp: pending_ok_def)
  note S = settle_store [OF rm(2), of env] and S0 = settle_store [OF rm(1), of env]
  have sm: "st_memories (ap_store (settle env a)) = st_memories ?s1" by (simp add: S0(1))
  have e: "event_to_memory_record (dget evt ''payload'') = Inr (Some ?v)" "typed_row ?R"
    and nc: "\<forall>x \<in> set (st_memories ?s1). \<not> conflicting ?R x"
    using assms(1,4) unfolding sm [symmetric] by (simp_all add: applicable_def)
  have "dget ?R ''identifier'' \<noteq> JNull" by (rule typed_identifier [OF e(2)])
  then have I: "insert_many_ignore ?now (ap_records ?a) (ap_store ?a) = (?s1\<lparr>st_memories := st_memories ?s1 @ [?R]\<rparr>, Suc (snd ?I))"
    using nc by (simp add: insert_many_ignore_def insert_ignore_def Let_def)
  have m: "wm_memory ?w = str_or_empty ?v ''id''" by (simp add: applied_mark_def)
  obtain i where i: "row_key ?R = JStr i" by (rule typed_rowE [OF e(2)])
  then have i': "str_or_empty ?v ''id'' = i" by simp
  have pres0: "\<forall>w \<in> set (ap_marks a). wm_memory w \<noteq> [] \<and> get_memory (wm_memory w) ?s1 \<noteq> None"
  proof
    fix w assume w: "w \<in> set (ap_marks a)"
    then have "pl_live p (wm_memory w) \<noteq> None" "wm_memory w \<noteq> []" using assms(2) by (auto simp: pending_ok_def)
    moreover have "get_memory (wm_memory w) (ap_store (settle env a)) = get_memory (wm_memory w) ?s1"
      by (simp only: get_memory_def sm)
    ultimately show "wm_memory w \<noteq> [] \<and> get_memory (wm_memory w) ?s1 \<noteq> None"
      using agrees_onD(3) [OF assms(3) [unfolded agrees_def], of "wm_memory w"] by auto
  qed
  let ?s2 = "?s1\<lparr>st_memories := st_memories ?s1 @ [?R]\<rparr>"
  have g: "get_memory k ?s2 \<noteq> None" if "get_memory k ?s1 \<noteq> None \<or> k = i" for k
    using that i by (auto simp: get_memory_def find_key_append split: option.splits)
  have "\<forall>w \<in> set (ap_marks a @ [?w]). wm_memory w \<noteq> [] \<and> get_memory (wm_memory w) ?s2 \<noteq> None"
    using pres0 g assms(6) m i' by auto
  then have "ap_store (settle env ?a) = fold set_replay_watermark (ap_marks a @ [?w]) ?s2"
    using S(1) I present_marks [of "ap_marks a @ [?w]" ?s2] by simp
  also have "\<dots> = set_replay_watermark ?w ((fold set_replay_watermark (ap_marks a) ?s1)\<lparr>st_memories := st_memories ?s1 @ [?R]\<rparr>)"
    by (simp add: fold_marks_memories)
  also have "\<dots> = apply_one env (evt, pl) (ap_store (settle env a))"
    using pending_present [OF assms(2,3)] sm by (simp add: apply_one_def assms(1))
  finally have st: "ap_store (settle env ?a) = apply_one env (evt, pl) (ap_store (settle env a))" .
  have cnt: "ap_applied (settle env ?a) = ap_applied (settle env a) + 1" "ap_skipped (settle env ?a) = ap_skipped (settle env a)"
    unfolding S(2,3) S0(2,3) I using insert_many_bound [of ?now "ap_records a" "ap_store a"] by simp_all
  have ok: "pending_ok p' ?a" using assms(5,6,7) m by (auto simp: pending_ok_def)
  have "\<exists>a'. apply_planned env (evt, pl) a = Inr a' \<and> (a' = ?a \<or> a' = settle env ?a)"
    using e(1) assms(1) by (simp add: apply_planned_def apply_create_def of_py_exn_def Let_def split: option.splits)
  then obtain a' where a': "apply_planned env (evt, pl) a = Inr a'" "a' = ?a \<or> a' = settle env ?a" by blast
  then have "settle env a' = settle env ?a" "pending_ok p' a'"
    using settled_flush [OF ok] settled_pending_ok [OF ok] ok by auto
  then show ?thesis using st cnt by (intro that [OF a'(1)]) simp_all
qed

lemma apply_update_step:
  assumes "pd_disposition pl = ApplyUpdate" "pending_ok p a" "applicable env evt pl (ap_store (settle env a))"
  obtains a' where "apply_planned env (evt, pl) a = Inr a'" "pending_ok p' a'"
    "ap_store (settle env a') = apply_one env (evt, pl) (ap_store (settle env a))"
    "ap_applied (settle env a') = ap_applied (settle env a) + 1" "ap_skipped (settle env a') = ap_skipped (settle env a)"
proof -
  let ?b = "settle env a" and ?v = "written evt"
  let ?s = "ap_store ?b" and ?R = "updated_row (written evt)"
  have e: "event_to_memory_record (dget evt ''payload'') = Inr (Some ?v)" "typed_row ?R"
    "row_key ?R \<in> row_key ` set (st_memories ?s)"
    "\<forall>x \<in> set (st_memories ?s). row_key x \<noteq> row_key ?R \<longrightarrow> \<not> same_identity ?R x"
    using assms(1,3) by (simp_all add: applicable_def)
  have "dget ?R ''identifier'' \<noteq> JNull" by (rule typed_identifier [OF e(2)])
  then have "replace_memory_record ?v ?s = Inr (?s\<lparr>st_memories := upsert_row row_key ?R (st_memories ?s)\<rparr>, True)"
    using e(3,4) by (auto simp: replace_memory_record_def Let_def)
  then have ap: "apply_planned env (evt, pl) a = Inr (?b\<lparr>ap_store := apply_one env (evt, pl) ?s, ap_applied := ap_applied ?b + 1\<rparr>)"
    using e(1) assms(1) by (simp add: apply_planned_def apply_update_def of_py_exn_def of_db_exn_def Let_def apply_one_def)
  then show ?thesis
    using settle_pending(1) [of env a] settle_pending(2) [OF assms(2), of env]
    by (intro that [OF ap]) (simp_all add: settle_settled pending_ok_def)
qed

lemma apply_delete_step:
  assumes "pd_disposition pl = ApplyDelete" "pending_ok p a" "applicable env evt pl (ap_store (settle env a))"
  obtains a' where "apply_planned env (evt, pl) a = Inr a'" "pending_ok p' a'"
    "ap_store (settle env a') = apply_one env (evt, pl) (ap_store (settle env a))"
    "ap_applied (settle env a') = ap_applied (settle env a) + 1" "ap_skipped (settle env a') = ap_skipped (settle env a)"
proof -
  let ?b = "settle env a"
  let ?s = "ap_store ?b"
  have "get_memory (py_str (dget (dict_of (dget evt ''payload'')) ''id'')) ?s \<noteq> None"
    using assms(1,3) by (simp add: applicable_def)
  then have ap: "apply_planned env (evt, pl) a = Inr (?b\<lparr>ap_store := apply_one env (evt, pl) ?s, ap_applied := ap_applied ?b + 1\<rparr>)"
    using assms(1) by (simp add: apply_planned_def apply_delete_def Let_def apply_one_def)
  then show ?thesis
    using settle_pending(1) [of env a] settle_pending(2) [OF assms(2), of env]
    by (intro that [OF ap]) (simp_all add: settle_settled pending_ok_def)
qed

section \<open>The whole pass\<close>

definition applies :: "disposition \<Rightarrow> bool" where
  "applies d \<longleftrightarrow> d \<in> {ApplyCreate, ApplyUpdate, ApplyDelete}"

definition skips :: "disposition \<Rightarrow> bool" where
  "skips d \<longleftrightarrow> d \<in> {SkipIdempotent, SkipLegacyDeduped}"

lemma plan_event_live:
  assumes "plan_event prev types src evt p = Inr (pl, p')"
  shows "pd_disposition pl = ApplyCreate \<Longrightarrow> carries_record evt \<Longrightarrow>
      str_or_empty (written evt) ''id'' \<noteq> [] \<and> pl_live p' (str_or_empty (written evt) ''id'') \<noteq> None"
    and "pd_disposition pl = SkipLegacyDeduped \<Longrightarrow> pl_live p (wm_memory (deduped_mark env evt pl)) = None"
    and "pd_disposition pl \<notin> {ApplyUpdate, ApplyDelete} \<Longrightarrow> pending_ok p a \<Longrightarrow> pending_ok p' a"
    and "pd_disposition pl = Observational \<Longrightarrow> p' = p"
proof -
  obtain seq oc where ce: "check_event prev types src evt = Inr (seq, oc)"
    and rest: "(case oc of None \<Rightarrow> Inr (\<lparr>pd_disposition = Observational, pd_seq = seq, pd_namespace = [], pd_hash = [], pd_fingerprint = []\<rparr>, p)
       | Some c \<Rightarrow> plan_transition evt (source_text mi_history_id src) c p) = Inr (pl, p')"
    using assms by (auto simp: plan_event_def rbind_eq_Inr)
  have "(pd_disposition pl = ApplyCreate \<longrightarrow> carries_record evt \<longrightarrow>
      str_or_empty (written evt) ''id'' \<noteq> [] \<and> pl_live p' (str_or_empty (written evt) ''id'') \<noteq> None)
    \<and> (pd_disposition pl = SkipLegacyDeduped \<longrightarrow> pl_live p (wm_memory (deduped_mark env evt pl)) = None)
    \<and> (pd_disposition pl \<notin> {ApplyUpdate, ApplyDelete} \<longrightarrow> pending_ok p a \<longrightarrow> pending_ok p' a)
    \<and> (pd_disposition pl = Observational \<longrightarrow> p' = p)"
  proof (cases oc)
    case None
    then show ?thesis using rest by auto
  next
    case (Some c)
    let ?g = "source_text mi_history_id src"
    note C = check_event_Some [OF ce [unfolded Some]]
    have dm: "wm_memory (deduped_mark env evt x) = ce_mid c" for x using C(1,2) by (simp add: deduped_mark_def Let_def py_str_def)
    have pt: "plan_transition evt ?g c p = Inr (pl, p')" using rest Some by simp
    show ?thesis
    proof (cases "ce_type c = ''memory.deleted''")
      case True
      then obtain d h f where d: "plan_delete evt c ?g p = Inr (d, h, f, p')" "pl = outcome d c h f"
        using pt by (auto simp: plan_transition_def rbind_eq_Inr)
      from d(1) show ?thesis by (cases rule: plan_delete_cases) (simp_all add: d(2) outcome_def dm)
    next
      case False
      then obtain hash fp d where
        rest: "(if ce_type c = ''memory.created'' then plan_create c ?g hash fp p else plan_update c ?g hash fp p) = Inr (d, p')"
        and pl: "pl = outcome d c hash fp"
        using pt by (auto simp: plan_transition_def rbind_eq_Inr)
      show ?thesis
      proof (cases "ce_type c = ''memory.created''")
        case True
        have id: "carries_record evt \<Longrightarrow> dget (written evt) ''id'' = JStr (ce_mid c)"
          using written_columns(2) [OF _ C(1)] C(2) by simp
        have "plan_create c ?g hash fp p = Inr (d, p')" using rest True by simp
        then show ?thesis
        proof (cases rule: plan_create_cases)
          case applies
          have live: "pl_live p' k \<noteq> None" if "k = ce_mid c \<or> pl_live p k \<noteq> None" for k
            using that by (auto simp: applies(2) create_new_def)
          then have "pending_ok p a \<Longrightarrow> pending_ok p' a" by (simp add: pending_ok_def)
          moreover have "pd_disposition pl = ApplyCreate" by (simp add: pl outcome_def applies(1))
          ultimately show ?thesis using id C(3) live by auto
        qed (simp_all add: pl outcome_def dm pending_ok_def)
      next
        case False
        then have "plan_update c ?g hash fp p = Inr (d, p')" using rest by simp
        then show ?thesis
          by (cases rule: plan_update_cases) (simp_all add: pl outcome_def dm)
      qed
    qed
  qed
  then show "pd_disposition pl = ApplyCreate \<Longrightarrow> carries_record evt \<Longrightarrow>
      str_or_empty (written evt) ''id'' \<noteq> [] \<and> pl_live p' (str_or_empty (written evt) ''id'') \<noteq> None"
    "pd_disposition pl = SkipLegacyDeduped \<Longrightarrow> pl_live p (wm_memory (deduped_mark env evt pl)) = None"
    "pd_disposition pl \<notin> {ApplyUpdate, ApplyDelete} \<Longrightarrow> pending_ok p a \<Longrightarrow> pending_ok p' a"
    "pd_disposition pl = Observational \<Longrightarrow> p' = p"
    by blast+
qed

text \<open>A planned event in the batched pass is the planned event at once.\<close>

lemma apply_planned_step:
  assumes pe: "plan_event prev types src evt p = Inr (pl, p')" and c: "covered p evt" and tx: "textual evt" and wr: "writable evt pl"
    and a: "agrees p t (ap_store (settle env a))" and ok: "pending_ok p a"
  obtains a' where "apply_planned env (evt, pl) a = Inr a'" "pending_ok p' a'"
    "like (ap_store (settle env a')) (apply_one env (evt, pl) (ap_store (settle env a)))"
    "ap_applied (settle env a') = ap_applied (settle env a) + (if applies (pd_disposition pl) then 1 else 0)"
    "ap_skipped (settle env a') = ap_skipped (settle env a) + (if skips (pd_disposition pl) then 1 else 0)"
proof -
  note P = plan_event_live [OF pe] and A = plan_event_step(1) [OF pe a c tx wr, of env]
  show ?thesis
  proof (cases "pd_disposition pl")
    case Observational
    then show ?thesis using ok P(4) by (intro that [of a]) (simp_all add: apply_planned_def apply_one_def applies_def skips_def)
  next
    case SkipIdempotent
    note S = apply_skip [OF this, where env = env and a = a]
    have "pending_ok p' a" using P(3) SkipIdempotent ok by simp
    then have "pending_ok p' (a\<lparr>ap_skipped := ap_skipped a + 1\<rparr>)" by (simp add: pending_ok_def)
    then show ?thesis
      using SkipIdempotent by (intro that [OF S(1)]) (simp_all only: S(2), simp_all add: apply_one_def applies_def skips_def)
  next
    case SkipLegacyDeduped
    obtain a' where "apply_planned env (evt, pl) a = Inr a'" "pending_ok p a'"
        "like (ap_store (settle env a')) (apply_one env (evt, pl) (ap_store (settle env a)))"
        "ap_applied (settle env a') = ap_applied (settle env a)" "ap_skipped (settle env a') = ap_skipped (settle env a) + 1"
      using apply_deduped [OF SkipLegacyDeduped ok a P(2) [OF SkipLegacyDeduped]] by blast
    moreover have "pending_ok p' a'" using P(3) SkipLegacyDeduped calculation(2) by simp
    ultimately show ?thesis using SkipLegacyDeduped by (intro that [of a']) (simp_all add: applies_def skips_def)
  next
    case ApplyCreate
    have w: "str_or_empty (written evt) ''id'' \<noteq> []" "pl_live p' (str_or_empty (written evt) ''id'') \<noteq> None"
      using P(1) [OF ApplyCreate] wr ApplyCreate by (auto simp: writable_def)
    have ok': "pending_ok p' a" using P(3) ApplyCreate ok by simp
    obtain a' where "apply_planned env (evt, pl) a = Inr a'" "pending_ok p' a'"
        "ap_store (settle env a') = apply_one env (evt, pl) (ap_store (settle env a))"
        "ap_applied (settle env a') = ap_applied (settle env a) + 1" "ap_skipped (settle env a') = ap_skipped (settle env a)"
      using apply_create_step [OF ApplyCreate ok a A ok' w] by blast
    then show ?thesis using ApplyCreate by (intro that [of a']) (simp_all add: applies_def skips_def)
  next
    case ApplyUpdate
    obtain a' where "apply_planned env (evt, pl) a = Inr a'" "pending_ok p' a'"
        "ap_store (settle env a') = apply_one env (evt, pl) (ap_store (settle env a))"
        "ap_applied (settle env a') = ap_applied (settle env a) + 1" "ap_skipped (settle env a') = ap_skipped (settle env a)"
      using apply_update_step [OF ApplyUpdate ok A] by blast
    then show ?thesis using ApplyUpdate by (intro that [of a']) (simp_all add: applies_def skips_def)
  next
    case ApplyDelete
    obtain a' where "apply_planned env (evt, pl) a = Inr a'" "pending_ok p' a'"
        "ap_store (settle env a') = apply_one env (evt, pl) (ap_store (settle env a))"
        "ap_applied (settle env a') = ap_applied (settle env a) + 1" "ap_skipped (settle env a') = ap_skipped (settle env a)"
      using apply_delete_step [OF ApplyDelete ok A] by blast
    then show ?thesis using ApplyDelete by (intro that [of a']) (simp_all add: applies_def skips_def)
  qed
qed

lemma plan_event_loaded:
  assumes "plan_event prev types src evt p = Inr (pl, p')"
  shows "pl_loaded_live p' = pl_loaded_live p \<and> pl_loaded_pairs p' = pl_loaded_pairs p \<and> pl_loaded_tombs p' = pl_loaded_tombs p
    \<and> pl_loaded_marks p' = pl_loaded_marks p \<and> pl_marks p' = pl_marks p"
proof -
  let ?same = "\<lambda>q. pl_loaded_live q = pl_loaded_live p \<and> pl_loaded_pairs q = pl_loaded_pairs p
    \<and> pl_loaded_tombs q = pl_loaded_tombs p \<and> pl_loaded_marks q = pl_loaded_marks p \<and> pl_marks q = pl_marks p"
  have S: "?same (create_new c h f p)" "?same (set_live c l h f p)" "?same (forget_live c g l at h f p)" for c h f l g at
    by (simp_all add: create_new_def set_live_def forget_live_def Let_def)
  have "?same q" if "plan_create c g h f p = Inr (d, q)" for c g h f d q
    by (rule plan_create_cases [OF that]) (use S in simp_all)
  moreover have "?same q" if "plan_update c g h f p = Inr (d, q)" for c g h f d q
    by (rule plan_update_cases [OF that]) (use S in simp_all)
  moreover have "?same q" if "plan_delete e c g p = Inr (d, h, f, q)" for c g h f d q e
    by (rule plan_delete_cases [OF that]) (use S in simp_all)
  ultimately show ?thesis
    using assms by (auto simp: plan_event_def plan_transition_def rbind_eq_Inr split: option.splits if_splits)
qed

lemma covered_cong:
  "plan_event prev types src evt p = Inr (pl, p') \<Longrightarrow> covered p' e = covered p e"
  using plan_event_loaded by (simp add: covered_def)

definition count_planned :: "(disposition \<Rightarrow> bool) \<Rightarrow> planned list \<Rightarrow> nat" where
  "count_planned P pls = length (filter (\<lambda>pl. P (pd_disposition pl)) pls)"

text \<open>The exception of the first planned event whose payload cannot be read as a record.\<close>

fun conversion_error :: "(dict \<times> planned) list \<Rightarrow> py_exn option" where
  "conversion_error [] = None"
| "conversion_error ((evt, pl) # xs) =
     (case event_to_memory_record (dget evt ''payload'') of
        Inl e \<Rightarrow> if pd_disposition pl \<in> {ApplyCreate, ApplyUpdate} then Some e else conversion_error xs
      | Inr _ \<Rightarrow> conversion_error xs)"

lemma apply_planned_fails:
  assumes "event_to_memory_record (dget evt ''payload'') = Inl e" "pd_disposition pl \<in> {ApplyCreate, ApplyUpdate}"
  shows "apply_planned env (evt, pl) a = Inl (ReplayExn (CursorPy e))"
  using assms by (auto simp: apply_planned_def apply_create_def apply_update_def of_py_exn_def Let_def)

lemma conversion_error_Cons:
  obtains (fails) e where "event_to_memory_record (dget evt ''payload'') = Inl e" "pd_disposition pl \<in> {ApplyCreate, ApplyUpdate}"
      "conversion_error ((evt, pl) # xs) = Some e"
    | (goes) "pd_disposition pl \<in> {ApplyCreate, ApplyUpdate} \<Longrightarrow> \<exists>r. event_to_memory_record (dget evt ''payload'') = Inr r"
      "conversion_error ((evt, pl) # xs) = conversion_error xs"
  by (cases "event_to_memory_record (dget evt ''payload'')"; cases "pd_disposition pl \<in> {ApplyCreate, ApplyUpdate}") auto

definition pass_result :: "apply_env \<Rightarrow> (dict \<times> planned) list \<Rightarrow> planned list \<Rightarrow> plan_state \<Rightarrow> store \<Rightarrow> apply_state \<Rightarrow> bool" where
  "pass_result env xs pls p t a \<longleftrightarrow> (case conversion_error xs of
     Some e \<Rightarrow> fold_res (apply_planned env) xs a = Inl (ReplayExn (CursorPy e))
   | None \<Rightarrow> (\<exists>a'. fold_res (apply_planned env) xs a = Inr a' \<and> pending_ok p a' \<and> agrees p t (ap_store (settle env a'))
      \<and> like (ap_store (settle env a')) (fold (apply_one env) xs (ap_store (settle env a)))
      \<and> ap_applied (settle env a') = ap_applied (settle env a) + count_planned applies pls
      \<and> ap_skipped (settle env a') = ap_skipped (settle env a) + count_planned skips pls))"

lemma apply_plan_run:
  assumes "plan_events prev types src evs p = Inr (pls, p')" "\<forall>evt \<in> set evs. covered p evt \<and> textual evt"
    and "agrees p t (ap_store (settle env a))" "pending_ok p a"
  shows "pass_result env (zip evs pls) pls p' t a"
  using assms
proof (induction evs arbitrary: prev p pls a)
  case Nil
  then show ?case by (simp add: pass_result_def count_planned_def)
next
  case (Cons evt evs)
  obtain pl p1 rest where pe: "plan_event prev types src evt p = Inr (pl, p1)"
    and pr: "plan_events (pd_seq pl) types src evs p1 = Inr (rest, p')" and pls: "pls = pl # rest"
    using Cons.prems(1) by (auto simp: rbind_eq_Inr)
  have cr: "covered p evt" "textual evt" using Cons.prems(2) by auto
  show ?case
  proof (cases rule: conversion_error_Cons [of evt pl "zip evs rest"])
    case (fails e)
    then show ?thesis using apply_planned_fails [OF fails(1,2)] by (simp add: pass_result_def pls)
  next
    case goes
    have wr: "writable evt pl" by (rule planned_readable [OF pe cr(2) goes(1)])
    obtain a1 where a1: "apply_planned env (evt, pl) a = Inr a1" "pending_ok p1 a1"
        "like (ap_store (settle env a1)) (apply_one env (evt, pl) (ap_store (settle env a)))"
        "ap_applied (settle env a1) = ap_applied (settle env a) + (if applies (pd_disposition pl) then 1 else 0)"
        "ap_skipped (settle env a1) = ap_skipped (settle env a) + (if skips (pd_disposition pl) then 1 else 0)"
      by (rule apply_planned_step [OF pe cr wr Cons.prems(3,4)])
    have "agrees p1 t (apply_one env (evt, pl) (ap_store (settle env a)))"
      by (rule plan_event_step(2) [OF pe Cons.prems(3) cr wr])
    then have ag: "agrees p1 t (ap_store (settle env a1))"
      using agrees_cong [of "ap_store (settle env a1)"] a1(3) by (simp add: like_def)
    have "\<forall>e \<in> set evs. covered p1 e \<and> textual e" using Cons.prems(2) covered_cong [OF pe] by simp
    note IH = Cons.IH [OF pr this ag a1(2)]
    note lk = like_trans [OF _ fold_apply_one_like [OF a1(3)]]
    show ?thesis
    proof (cases "conversion_error (zip evs rest)")
      case (Some e)
      then show ?thesis using IH a1(1) goes(2) by (simp add: pass_result_def pls)
    next
      case None
      with IH obtain a' where a': "fold_res (apply_planned env) (zip evs rest) a1 = Inr a'"
          "pending_ok p' a'" "agrees p' t (ap_store (settle env a'))"
          "like (ap_store (settle env a')) (fold (apply_one env) (zip evs rest) (ap_store (settle env a1)))"
          "ap_applied (settle env a') = ap_applied (settle env a1) + count_planned applies rest"
          "ap_skipped (settle env a') = ap_skipped (settle env a1) + count_planned skips rest"
        by (auto simp: pass_result_def)
      show ?thesis
        using None goes(2) a1 a' lk [OF a'(4)] by (auto simp: pass_result_def pls count_planned_def)
    qed
  qed
qed

lemma empty_plan_agrees: "rows_inv t \<Longrightarrow> typed_rows t \<Longrightarrow> agrees empty_plan t t"
  by (simp add: agrees_def agrees_on_def empty_plan_def)

section \<open>The invariant of the target\<close>

lemma set_present_mark_inv: "store_inv s \<Longrightarrow> store_inv (fold set_present_mark ws s)"
  by (induction ws arbitrary: s) (auto simp: set_present_mark_def intro: side_tables_inv)

lemma flush_inv: "store_inv (ap_store a) \<Longrightarrow> store_inv (ap_store (flush_created now a))"
  using insert_many_inv [of "ap_store a" now "ap_records a"]
  by (auto simp: flush_created_def case_prod_beta intro: set_present_mark_inv)

lemma apply_create_result:
  assumes "apply_create env evt pl a = Inr a'"
  obtains "a' = a" | v b where "event_to_memory_record (dget evt ''payload'') = Inr (Some v)"
    "b = a\<lparr>ap_records := ap_records a @ [v], ap_marks := ap_marks a @ [applied_mark env evt pl v]\<rparr>"
    "a' = b \<or> a' = settle env b"
proof -
  obtain rec where r: "event_to_memory_record (dget evt ''payload'') = Inr rec"
    using assms by (cases "event_to_memory_record (dget evt ''payload'')") (auto simp: apply_create_def of_py_exn_def)
  show ?thesis
  proof (cases rec)
    case None
    then show ?thesis using assms that(1) by (simp add: apply_create_def of_py_exn_def r)
  next
    case (Some v)
    show ?thesis
      by (rule that(2) [OF r [unfolded Some] refl])
        (use assms in \<open>auto simp: apply_create_def of_py_exn_def r Some Let_def split: option.splits if_splits\<close>)
  qed
qed

lemma apply_update_result:
  assumes "apply_update env evt pl a = Inr a'"
  obtains v s found where "event_to_memory_record (dget evt ''payload'') = Inr (Some v)"
    "replace_memory_record v (ap_store (settle env a)) = Inr (s, found)" "ap_records a' = ap_records (settle env a)"
    "ap_store a' = s \<or> (\<exists>w. ap_store a' = set_replay_watermark w s)"
proof -
  obtain rec where r: "event_to_memory_record (dget evt ''payload'') = Inr rec"
    using assms by (cases "event_to_memory_record (dget evt ''payload'')") (auto simp: apply_update_def of_py_exn_def Let_def)
  show ?thesis
  proof (cases rec)
    case None
    then show ?thesis using assms by (simp add: apply_update_def of_py_exn_def r Let_def)
  next
    case (Some v)
    let ?rep = "replace_memory_record v (ap_store (settle env a))"
    obtain s found where sf: "?rep = Inr (s, found)"
      using assms Some by (cases ?rep) (auto simp: apply_update_def of_py_exn_def of_db_exn_def r Let_def)
    show ?thesis
      by (rule that [OF r [unfolded Some] sf])
        (use assms in \<open>auto simp: apply_update_def of_py_exn_def of_db_exn_def r Some sf Let_def split: if_splits\<close>)
  qed
qed

lemma apply_planned_inv:
  assumes "apply_planned env x a = Inr a'" "store_inv (ap_store a)"
  shows "store_inv (ap_store a')"
proof -
  obtain evt pl where x: "x = (evt, pl)" by force
  note f = flush_inv [OF assms(2), of "ae_now env"]
  show ?thesis
  proof (cases "pd_disposition pl")
    case ApplyCreate
    then have c: "apply_create env evt pl a = Inr a'" using assms(1) by (simp add: x apply_planned_def)
    show ?thesis
    proof (rule apply_create_result [OF c])
      fix v b assume "b = a\<lparr>ap_records := ap_records a @ [v], ap_marks := ap_marks a @ [applied_mark env evt pl v]\<rparr>"
        "a' = b \<or> a' = settle env b"
      then show ?thesis using flush_inv [of b "ae_now env"] assms(2) by auto
    qed (use assms(2) in simp)
  next
    case ApplyUpdate
    then have c: "apply_update env evt pl a = Inr a'" using assms(1) by (simp add: x apply_planned_def)
    obtain v s found where "replace_memory_record v (ap_store (settle env a)) = Inr (s, found)"
        "ap_store a' = s \<or> (\<exists>w. ap_store a' = set_replay_watermark w s)" using apply_update_result [OF c] by metis
    then show ?thesis using replace_record_inv [OF f, of v s found] side_tables_inv(3) [of s] by auto
  next
    case ApplyDelete
    then show ?thesis
      using assms(1) f by (auto simp: x apply_planned_def apply_delete_def Let_def intro!: side_tables_inv delete_row_inv)
  qed (use assms in \<open>auto simp: x apply_planned_def intro: side_tables_inv\<close>)
qed

lemma apply_range_inv:
  assumes "store_inv t" "apply_event_range now src types evs t = Inr (s, n, k)"
  shows "store_inv s"
proof -
  obtain env pls a where "fold_res (apply_planned env) (zip evs pls) (start_apply t) = Inr a" "s = ap_store (flush_created now a)"
    using assms(2) by (auto simp: apply_event_range_def Let_def rbind_eq_Inr)
  moreover have "store_inv (ap_store (start_apply t))" using assms(1) by (simp add: start_apply_def)
  ultimately show ?thesis using fold_res_invariant [of "apply_planned env", where P = "\<lambda>a. store_inv (ap_store a)"] apply_planned_inv flush_inv by metis
qed

section \<open>The passes agree\<close>

lemma apply_one_batch: "apply_one (env\<lparr>ae_batch := b\<rparr>) x s = apply_one env x s"
proof -
  obtain evt pl where x: "x = (evt, pl)" by force
  show ?thesis
    by (cases "pd_disposition pl")
      (simp_all add: x apply_one_def applied_mark_def deduped_mark_def replay_tombstone_def or_source_def Let_def)
qed

lemma planned_range:
  assumes "store_inv t" "typed_rows t" "list_all textual evs" "active_types types = Inr ts"
    and "plan_events 0 ts src evs (load_candidates t evs empty_plan) = Inr (pls, p)"
  shows "case conversion_error (zip evs pls) of
      Some e \<Rightarrow> apply_event_range now src types evs t = Inl (ReplayExn (CursorPy e))
    | None \<Rightarrow> (\<exists>s. apply_event_range now src types evs t = Inr (s, count_planned applies pls, count_planned skips pls)
        \<and> like s (fold (apply_one \<lparr>ae_now = now, ae_source = src, ae_batch = None\<rparr>) (zip evs pls) t) \<and> store_inv s)"
proof -
  let ?env = "\<lparr>ae_now = now, ae_source = src, ae_batch = Some REPLAY_BATCH\<rparr>"
  let ?e1 = "\<lparr>ae_now = now, ae_source = src, ae_batch = None\<rparr>"
  let ?p = "load_candidates t evs empty_plan" and ?a = "start_apply t"
  have ri: "rows_inv t" using assms(1) by (simp add: store_inv_def)
  note L = load_candidates_agrees [OF empty_plan_agrees [OF ri assms(2)] ri assms(2)]
  have st: "settle ?env ?a = ?a" by (simp add: flush_created_def start_apply_def)
  have "agrees ?p t (ap_store (settle ?env ?a))" "pending_ok ?p ?a"
    unfolding st using L(1) by (simp_all add: start_apply_def pending_ok_def)
  moreover have "\<forall>evt \<in> set evs. covered ?p evt \<and> textual evt" using L(2) assms(3) by (simp add: list_all_iff)
  ultimately have R: "pass_result ?env (zip evs pls) pls p t ?a" using apply_plan_run [OF assms(5)] by blast
  have one: "apply_one ?env x s = apply_one ?e1 x s" for x s
    using apply_one_batch [where env = ?e1 and b = "Some REPLAY_BATCH"] by simp
  have e1: "fold (apply_one ?env) xs s = fold (apply_one ?e1) xs s" for xs s by (induction xs arbitrary: s) (simp_all add: one)
  show ?thesis
  proof (cases "conversion_error (zip evs pls)")
    case (Some e)
    then show ?thesis using R by (simp add: pass_result_def apply_event_range_def Let_def assms(4,5))
  next
    case None
    with R obtain a where a: "fold_res (apply_planned ?env) (zip evs pls) ?a = Inr a"
        "like (ap_store (settle ?env a)) (fold (apply_one ?env) (zip evs pls) t)"
        "ap_applied (settle ?env a) = count_planned applies pls" "ap_skipped (settle ?env a) = count_planned skips pls"
      unfolding pass_result_def st by (auto simp: start_apply_def)
    have r: "apply_event_range now src types evs t = Inr (ap_store (settle ?env a), count_planned applies pls, count_planned skips pls)"
      using a by (simp add: apply_event_range_def Let_def assms(4,5))
    then show ?thesis using a(2) apply_range_inv [OF assms(1) r] unfolding e1 by (auto simp: None)
  qed
qed


section \<open>A deleted record stays deleted\<close>

text \<open>The id a planned event writes.\<close>

definition target_id :: "dict \<Rightarrow> json" where
  "target_id evt = dget (dict_of (dget evt ''payload'')) ''id''"

lemma plan_event_dead:
  assumes "plan_event prev types src evt p = Inr (pl, p')" "covered p evt"
    and "pl_live p m = None" "m \<in> pl_loaded_tombs p \<Longrightarrow> pl_tombs p m \<noteq> None"
  shows "pl_live p' m = None \<and> (m \<in> pl_loaded_tombs p' \<longrightarrow> pl_tombs p' m \<noteq> None)
    \<and> (applies (pd_disposition pl) \<longrightarrow> (\<exists>k. target_id evt = JStr k \<and> k \<noteq> m))"
proof -
  obtain seq oc where ce: "check_event prev types src evt = Inr (seq, oc)"
    and rest: "(case oc of None \<Rightarrow> Inr (\<lparr>pd_disposition = Observational, pd_seq = seq, pd_namespace = [], pd_hash = [], pd_fingerprint = []\<rparr>, p)
       | Some c \<Rightarrow> plan_transition evt (source_text mi_history_id src) c p) = Inr (pl, p')"
    using assms(1) by (auto simp: plan_event_def rbind_eq_Inr)
  show ?thesis
  proof (cases oc)
    case None
    then show ?thesis using rest assms(3,4) by (auto simp: applies_def)
  next
    case (Some c)
    let ?g = "source_text mi_history_id src"
    note C = check_event_Some [OF ce [unfolded Some]] and L = covered_record [OF ce [unfolded Some] assms(2)]
    have t: "target_id evt = JStr (ce_mid c)" using C(1,2) by (simp add: target_id_def)
    have ne: "pl_tombs p (ce_mid c) = None \<Longrightarrow> ce_mid c \<noteq> m" using assms(4) L(2) by auto
    have pt: "plan_transition evt ?g c p = Inr (pl, p')" using rest Some by simp
    show ?thesis
    proof (cases "ce_type c = ''memory.deleted''")
      case True
      then obtain d h f where d: "plan_delete evt c ?g p = Inr (d, h, f, p')" "pl = outcome d c h f"
        using pt by (auto simp: plan_transition_def rbind_eq_Inr)
      from d(1) show ?thesis
        by (cases rule: plan_delete_cases)
          (use assms(3,4) ne t in \<open>auto simp: d(2) outcome_def applies_def forget_live_def\<close>)
    next
      case False
      then obtain hash fp d where
        rest: "(if ce_type c = ''memory.created'' then plan_create c ?g hash fp p else plan_update c ?g hash fp p) = Inr (d, p')"
        and pl: "pl = outcome d c hash fp"
        using pt by (auto simp: plan_transition_def rbind_eq_Inr)
      show ?thesis
      proof (cases "ce_type c = ''memory.created''")
        case True
        then have "plan_create c ?g hash fp p = Inr (d, p')" using rest by simp
        then show ?thesis
          by (cases rule: plan_create_cases)
            (use assms(3,4) ne t in \<open>auto simp: pl outcome_def applies_def create_new_def\<close>)
      next
        case False
        then have "plan_update c ?g hash fp p = Inr (d, p')" using rest by simp
        then show ?thesis
          by (cases rule: plan_update_cases)
            (use assms(3,4) ne t in \<open>auto simp: pl outcome_def applies_def set_live_def Let_def\<close>)
      qed
    qed
  qed
qed

lemma plan_events_dead:
  assumes "plan_events prev types src evs p = Inr (pls, p')" "\<forall>evt \<in> set evs. covered p evt"
    and "pl_live p m = None" "m \<in> pl_loaded_tombs p \<Longrightarrow> pl_tombs p m \<noteq> None"
  shows "\<forall>(evt, pl) \<in> set (zip evs pls). applies (pd_disposition pl) \<longrightarrow> (\<exists>k. target_id evt = JStr k \<and> k \<noteq> m)"
  using assms
proof (induction evs arbitrary: prev p pls)
  case (Cons evt evs)
  obtain pl p1 rest where pe: "plan_event prev types src evt p = Inr (pl, p1)"
    and pr: "plan_events (pd_seq pl) types src evs p1 = Inr (rest, p')" and pls: "pls = pl # rest"
    using Cons.prems(1) by (auto simp: rbind_eq_Inr)
  have c: "covered p evt" using Cons.prems(2) by simp
  note d = plan_event_dead [OF pe c Cons.prems(3,4)]
  have "\<forall>e \<in> set evs. covered p1 e" using Cons.prems(2) covered_cong [OF pe] by simp
  from Cons.IH [OF pr this] d show ?case by (simp add: pls)
qed simp

text \<open>Applying an event for another record.\<close>

definition untouched :: "string \<Rightarrow> store \<Rightarrow> apply_state \<Rightarrow> bool" where
  "untouched m t a \<longleftrightarrow> get_memory m (ap_store a) = get_memory m t \<and> get_tombstone m (ap_store a) = get_tombstone m t
     \<and> (\<forall>v \<in> set (ap_records a). dget v ''id'' \<noteq> JStr m)"

lemma insert_many_other:
  "\<forall>v \<in> set vs. dget v ''id'' \<noteq> JStr m \<Longrightarrow>
     get_memory m (fst (insert_many_ignore now vs s)) = get_memory m s
     \<and> st_tombstones (fst (insert_many_ignore now vs s)) = st_tombstones s"
proof -
  have step: "dget v ''id'' \<noteq> JStr m \<Longrightarrow> get_memory m (fst (insert_ignore now v st)) = get_memory m (fst st)
      \<and> st_tombstones (fst (insert_ignore now v st)) = st_tombstones (fst st)" for v st
    by (auto simp: insert_ignore_def Let_def get_memory_def find_key_append split: option.splits)
  have "\<forall>v \<in> set vs. dget v ''id'' \<noteq> JStr m \<Longrightarrow> get_memory m (fst (fold (insert_ignore now) vs st)) = get_memory m (fst st)
      \<and> st_tombstones (fst (fold (insert_ignore now) vs st)) = st_tombstones (fst st)" for st
    by (induction vs arbitrary: st) (use step in simp_all)
  from this [of "(s, 0)"] show "\<forall>v \<in> set vs. dget v ''id'' \<noteq> JStr m \<Longrightarrow> ?thesis" by (simp add: insert_many_ignore_def)
qed

lemma flush_untouched: "untouched m t a \<Longrightarrow> untouched m t (flush_created now a)"
proof -
  assume u: "untouched m t a"
  have "get_tombstone m (fst (insert_many_ignore now (ap_records a) (ap_store a))) = get_tombstone m (ap_store a)"
    "get_memory m (fst (insert_many_ignore now (ap_records a) (ap_store a))) = get_memory m (ap_store a)"
    using u insert_many_other [of "ap_records a" m] by (auto simp: untouched_def get_tombstone_def)
  moreover have "get_memory m (fold set_present_mark ws s) = get_memory m s"
    "get_tombstone m (fold set_present_mark ws s) = get_tombstone m s" for ws s
    by (simp_all add: get_memory_def get_tombstone_def)
  ultimately show ?thesis using u by (simp add: untouched_def flush_created_def case_prod_beta)
qed

lemma record_id: "event_to_memory_record (dget evt ''payload'') = Inr (Some v) \<Longrightarrow> target_id evt = JStr k \<Longrightarrow> dget v ''id'' = JStr k"
proof -
  assume e: "event_to_memory_record (dget evt ''payload'') = Inr (Some v)" and k: "target_id evt = JStr k"
  obtain p where p: "dget evt ''payload'' = JObj p" using k by (cases "dget evt ''payload''") (auto simp: target_id_def dget_def)
  have "''id'' \<in> set MEMORY_COLUMNS" by code_simp
  from event_record_columns [OF e [unfolded p] this] event_value_text(2) k p show ?thesis
    by (metis dict_of.simps(1) target_id_def)
qed

lemma replace_other:
  assumes "replace_memory_record v s = Inr (s', f)" "row_key (updated_row v) \<noteq> JStr m"
  shows "get_memory m s' = get_memory m s \<and> st_tombstones s' = st_tombstones s"
proof -
  have "s' = s \<or> s' = s\<lparr>st_memories := upsert_row row_key (updated_row v) (st_memories s)\<rparr>"
    using assms(1) unfolding replace_memory_record_def Let_def by (simp split: if_split_asm)
  then show ?thesis using assms(2) by (auto simp: get_memory_def find_key_upsert)
qed

lemma apply_planned_untouched:
  assumes "apply_planned env (evt, pl) a = Inr a'" "untouched m t a"
    and "applies (pd_disposition pl) \<Longrightarrow> \<exists>k. target_id evt = JStr k \<and> k \<noteq> m"
  shows "untouched m t a'"
proof -
  note f = flush_untouched [OF assms(2), of "ae_now env"]
  show ?thesis
  proof (cases "pd_disposition pl")
    case ApplyCreate
    then obtain k where k: "target_id evt = JStr k" "k \<noteq> m" using assms(3) by (auto simp: applies_def)
    have c: "apply_create env evt pl a = Inr a'" using ApplyCreate assms(1) by (simp add: apply_planned_def)
    show ?thesis
    proof (rule apply_create_result [OF c])
      fix v b assume v: "event_to_memory_record (dget evt ''payload'') = Inr (Some v)"
        and b: "b = a\<lparr>ap_records := ap_records a @ [v], ap_marks := ap_marks a @ [applied_mark env evt pl v]\<rparr>"
          "a' = b \<or> a' = settle env b"
      have "untouched m t b" using record_id [OF v k(1)] k(2) assms(2) by (auto simp: untouched_def b(1))
      then show ?thesis using flush_untouched [of m t b "ae_now env"] b(2) by auto
    qed (use assms(2) in simp)
  next
    case ApplyUpdate
    then obtain k where k: "target_id evt = JStr k" "k \<noteq> m" using assms(3) by (auto simp: applies_def)
    have c: "apply_update env evt pl a = Inr a'" using ApplyUpdate assms(1) by (simp add: apply_planned_def)
    obtain v s found where v: "event_to_memory_record (dget evt ''payload'') = Inr (Some v)"
        "replace_memory_record v (ap_store (settle env a)) = Inr (s, found)" "ap_records a' = ap_records (settle env a)"
        "ap_store a' = s \<or> (\<exists>w. ap_store a' = set_replay_watermark w s)" by (rule apply_update_result [OF c])
    have "''id'' \<in> set MEMORY_COLUMNS" by code_simp
    then have "dget (updated_row v) ''id'' = dget v ''id''" by (simp add: updated_row_def dget_map)
    then have "row_key (updated_row v) = JStr k" using record_id [OF v(1) k(1)] by (simp add: row_key_def)
    then have "get_memory m s = get_memory m (ap_store (settle env a))" "st_tombstones s = st_tombstones (ap_store (settle env a))"
      using replace_other [OF v(2), of m] k(2) by simp_all
    then have "get_memory m (ap_store a') = get_memory m (ap_store (settle env a))"
      "get_tombstone m (ap_store a') = get_tombstone m (ap_store (settle env a))"
      using v(4) by (auto simp: get_tombstone_def)
    then show ?thesis using f v(3) by (simp add: untouched_def)
  next
    case ApplyDelete
    then obtain k where k: "target_id evt = JStr k" "k \<noteq> m" using assms(3) by (auto simp: applies_def)
    have i: "dget (dict_of (dget evt ''payload'')) ''id'' = JStr k" using k(1) by (simp add: target_id_def)
    let ?s = "apply_one env (evt, pl) (ap_store (settle env a))"
    have "ap_store a' = ?s" "ap_records a' = ap_records (settle env a)"
      using assms(1) ApplyDelete by (auto simp: apply_planned_def apply_delete_def Let_def apply_one_def split: if_splits)
    moreover have "get_memory m ?s = get_memory m (ap_store (settle env a))"
      using applied_delete(1) [OF i ApplyDelete] k(2) by (simp add: get_memory_def find_key_remove)
    moreover have "get_tombstone m ?s = get_tombstone m (ap_store (settle env a))"
      using applied_delete(2) [OF i ApplyDelete] k(2) by simp
    ultimately show ?thesis using f by (simp add: untouched_def)
  qed (use assms(1,2) in \<open>auto simp: apply_planned_def untouched_def\<close>)
qed

text \<open>C11.  Replay never resurrects a deleted record: an id that has a tombstone in the target and no live
  row has, after any range of events that is accepted, whatever the events say, still no row and the very
  same tombstone.
\<close>

theorem replay_never_resurrects:
  assumes "store_inv t" "typed_rows t" "get_tombstone m t = Some ts" "get_memory m t = None" "m \<noteq> []"
    and "apply_event_range now src types evs t = Inr (s, n, k)"
  shows "get_memory m s = None \<and> get_tombstone m s = Some ts"
proof -
  let ?env = "\<lparr>ae_now = now, ae_source = src, ae_batch = Some REPLAY_BATCH\<rparr>"
  let ?p = "load_candidates t evs empty_plan"
  obtain active pls p' a where pl: "plan_events 0 active src evs ?p = Inr (pls, p')"
    and a: "fold_res (apply_planned ?env) (zip evs pls) (start_apply t) = Inr a" "s = ap_store (flush_created now a)"
    using assms(6) by (auto simp: apply_event_range_def Let_def rbind_eq_Inr)
  have ri: "rows_inv t" using assms(1) by (simp add: store_inv_def)
  note L = load_candidates_agrees [OF empty_plan_agrees [OF ri assms(2)] ri assms(2), where evs = evs]
  note A = agrees_onD [OF L(1) [unfolded agrees_def]]
  have "pl_live ?p m = None" using A(3) [of m] assms(4) by (cases "pl_live ?p m") auto
  moreover have "m \<in> pl_loaded_tombs ?p \<Longrightarrow> pl_tombs ?p m \<noteq> None" using A(5) [of m] assms(3,5) by simp
  ultimately have d: "\<forall>(evt, pl) \<in> set (zip evs pls). applies (pd_disposition pl) \<longrightarrow> (\<exists>k. target_id evt = JStr k \<and> k \<noteq> m)"
    using plan_events_dead [OF pl] L(2) by blast
  have "untouched m t (start_apply t)" by (simp add: untouched_def start_apply_def)
  then have "untouched m t a"
    by (rule fold_res_invariant [OF a(1)]) (use d apply_planned_untouched in fastforce)
  then show ?thesis using flush_untouched [of m t a now] assms(3,4) by (simp add: untouched_def a(2))
qed

section \<open>An event replayed\<close>

definition replay_payload :: dict where
  "replay_payload = [(''id'', JStr ''x''), (''identifier'', JStr ''i''), (''fact_text'', JStr ''f''),
     (''content_hash'', JStr ''h''), (''namespace'', JStr ''n''), (''created_at'', JStr ''2026-01-01''),
     (''source'', JStr []), (''source_checksum'', JStr []), (''promotion_state'', JStr ''HOT''), (''promotion_candidate'', JInt 0)]"

definition replay_event :: dict where
  "replay_event = event_to_dict \<lparr>pe_seq = 1, pe_id = ''e1'', pe_memory = Some ''x'', pe_namespace = ''n'',
     pe_type = ''memory.created'', pe_at = ''2026-01-01'', pe_payload = JObj replay_payload\<rparr>"

definition replay_checked :: checked where
  "replay_checked = \<lparr>ce_seq = 1, ce_id = ''e1'', ce_type = ''memory.created'', ce_payload = replay_payload,
     ce_v1 = False, ce_mid = ''x'', ce_ns = ''n''\<rparr>"

lemma replay_event_facts:
  "check_event 0 RECONSTRUCTING_EVENT_TYPES None replay_event = Inr (1, Some replay_checked)"
  "textual replay_event" "active_types JNull = Inr RECONSTRUCTING_EVENT_TYPES"
proof -
  show "check_event 0 RECONSTRUCTING_EVENT_TYPES None replay_event = Inr (1, Some replay_checked)" by code_simp
  have "text_columns replay_event" by code_simp
  then show "textual replay_event" by (simp add: textual_def)
  show "active_types JNull = Inr RECONSTRUCTING_EVENT_TYPES" by (simp add: active_types_def)
qed

text \<open>The same event with an importance that is no number, which the legacy format lets through the planner.\<close>

definition unreadable_payload :: dict where
  "unreadable_payload = (''importance'', JStr ''high'') # replay_payload"

definition unreadable_event :: dict where
  "unreadable_event = event_to_dict \<lparr>pe_seq = 1, pe_id = ''e1'', pe_memory = Some ''x'', pe_namespace = ''n'',
     pe_type = ''memory.created'', pe_at = ''2026-01-01'', pe_payload = JObj unreadable_payload\<rparr>"

lemma unreadable_event_facts:
  "check_event 0 RECONSTRUCTING_EVENT_TYPES None unreadable_event = Inr (1, Some (replay_checked\<lparr>ce_payload := unreadable_payload\<rparr>))"
  "textual unreadable_event" "event_to_memory_record (dget unreadable_event ''payload'') = Inl ValueError"
proof -
  show "check_event 0 RECONSTRUCTING_EVENT_TYPES None unreadable_event = Inr (1, Some (replay_checked\<lparr>ce_payload := unreadable_payload\<rparr>))"
    by code_simp
  have "text_columns unreadable_event" by code_simp
  then show "textual unreadable_event" by (simp add: textual_def)
  show "event_to_memory_record (dget unreadable_event ''payload'') = Inl ValueError" by code_simp
qed

lemma legacy_transition:
  assumes "case normalize_record (strip_envelope_keys p) ''swap'' [] of Inr n \<Rightarrow> finite_json (JObj (fingerprint_state (nr_fields n))) | Inl e \<Rightarrow> False"
    and "one_of (dget p ''transition'') ''create''" "str_or_empty p ''content_hash'' = ''h''"
  shows "\<exists>fp. check_transition (replay_checked\<lparr>ce_payload := p\<rparr>) = Inr (''h'', fp)"
proof -
  obtain n where n: "normalize_record (strip_envelope_keys p) ''swap'' [] = Inr n" "finite_json (JObj (fingerprint_state (nr_fields n)))"
    using assms(1) by (cases "normalize_record (strip_envelope_keys p) ''swap'' []") auto
  then show ?thesis
    using assms(2,3) by (simp add: check_transition_def replay_checked_def Let_def catch_record_def fingerprint_of_normalized_def
      canonical_fingerprint_state_def canonical_dumps_def of_py_exn_def)
qed

lemma replay_event_transition: "\<exists>fp. check_transition replay_checked = Inr (''h'', fp)"
proof -
  have "\<exists>fp. check_transition (replay_checked\<lparr>ce_payload := replay_payload\<rparr>) = Inr (''h'', fp)"
    by (rule legacy_transition) code_simp+
  then show ?thesis by (simp add: replay_checked_def)
qed

lemma unreadable_event_transition: "\<exists>fp. check_transition (replay_checked\<lparr>ce_payload := unreadable_payload\<rparr>) = Inr (''h'', fp)"
  by (rule legacy_transition) code_simp+

lemma planned_single:
  assumes "check_event 0 RECONSTRUCTING_EVENT_TYPES None e = Inr (1, Some c)" "ce_type c = ''memory.created''" "ce_seq c = 1"
    and "check_transition c = Inr (h, fp)" "plan_create c [] h fp p = Inr (d, p')"
  shows "plan_events 0 RECONSTRUCTING_EVENT_TYPES None [e] p = Inr ([outcome d c h fp], p')"
  using assms by (simp add: plan_event_def plan_transition_def source_text_def)

lemma replay_event_plan:
  assumes "check_transition replay_checked = Inr (''h'', fp)" "plan_create replay_checked [] ''h'' fp p = Inr (d, p')"
  shows "plan_events 0 RECONSTRUCTING_EVENT_TYPES None [replay_event] p = Inr ([outcome d replay_checked ''h'' fp], p')"
  by (rule planned_single [OF replay_event_facts(1) _ _ assms]) (simp_all add: replay_checked_def)

lemma fresh_create:
  assumes "c = replay_checked\<lparr>ce_payload := q\<rparr>" "pl_tombs p ''x'' = None" "pl_live p ''x'' = None" "pl_pairs p (''n'', ''h'') = None"
  shows "plan_create c [] ''h'' fp p = Inr (ApplyCreate, create_new c ''h'' fp p)"
  using assms by (simp add: plan_create_def bound_elsewhere_def replay_checked_def)


definition buried :: tombstone where
  "buried = \<lparr>ts_memory = ''x'', ts_namespace = ''n'', ts_identifier = ''i'', ts_content_hash = ''h'', ts_fingerprint = ''f'',
     ts_deleted_at = ''2026-01-02'', ts_seq = 2, ts_event_id = ''e2'', ts_mount = ''m'', ts_replica = ''r'', ts_history = ''g'',
     ts_metadata = ''{}'', ts_tags = ''[]'', ts_reason = []\<rparr>"

lemma replay_never_resurrects_witness:
  "\<exists>s. apply_event_range ''now'' None JNull [replay_event] (record_tombstone buried empty_store) = Inr (s, 0, 1)
    \<and> get_memory ''x'' s = None \<and> get_tombstone ''x'' s = Some buried"
proof -
  let ?t = "record_tombstone buried empty_store"
  let ?p = "load_candidates ?t [replay_event] empty_plan"
  obtain fp where fp: "check_transition replay_checked = Inr (''h'', fp)" using replay_event_transition by blast
  have "pl_tombs ?p ''x'' = Some buried" "''x'' \<notin> pl_created ?p" by code_simp+
  moreover have "same_history (ts_history buried) []" "ce_seq replay_checked \<le> ts_seq buried" "ce_mid replay_checked = ''x''" by code_simp+
  ultimately have "plan_create replay_checked [] ''h'' fp ?p = Inr (SkipIdempotent, ?p)" by (simp add: plan_create_def)
  note pl = replay_event_plan [OF fp this]
  have t: "typed_rows ?t" "get_tombstone ''x'' ?t = Some buried" "get_memory ''x'' ?t = None" by code_simp+
  have r: "apply_event_range ''now'' None JNull [replay_event] ?t = Inr (?t, 0, 1)"
    by (simp add: apply_event_range_def replay_event_facts(3) pl Let_def apply_planned_def outcome_def start_apply_def flush_created_def
        del: plan_events.simps)
  from replay_never_resurrects [OF side_tables_inv(1) [OF empty_store_inv] t(1,2,3) _ r] show ?thesis using r by simp
qed

end
