(* ===== verification/ReplayTwice.thy ===== *)
theory ReplayTwice
  imports ReplayExact
begin

text \<open>
  Replaying a range of events twice. An event that has been replayed into a clean target is
  \<open>absorbed\<close>: what the target then holds makes the planner skip it.
\<close>

section \<open>Absorbed events\<close>

definition well_formed_delete :: "dict \<Rightarrow> checked \<Rightarrow> bool" where
  "well_formed_delete evt c \<longleftrightarrow> (let d = ce_payload c in
     one_of (dget d ''transition'') ''delete'' \<and> strip (str_of (deleted_at_of evt d)) \<noteq> []
     \<and> (ce_v1 c \<longrightarrow> str_or_empty d ''content_hash'' \<noteq> [] \<and> str_or_empty d ''record_fingerprint'' \<noteq> []
          \<and> str_or_empty d ''identifier'' \<noteq> []))"

definition well_formed_transition :: "dict \<Rightarrow> checked \<Rightarrow> bool" where
  "well_formed_transition evt c \<longleftrightarrow>
     (if ce_type c = ''memory.deleted'' then well_formed_delete evt c
      else (\<exists>x. check_transition c = Inr x) \<and> (ce_type c \<noteq> ''memory.created'' \<longrightarrow> ce_v1 c \<longrightarrow>
        nonempty_str (dget (ce_payload c) ''previous_content_hash'')
        \<and> nonempty_str (dget (ce_payload c) ''previous_record_fingerprint'')))"

definition covered_by_row :: "string \<Rightarrow> store \<Rightarrow> checked \<Rightarrow> dict \<Rightarrow> bool" where
  "covered_by_row g s c r \<longleftrightarrow> str_or_empty r ''namespace'' = ce_ns c \<and> ce_type c \<noteq> ''memory.deleted'' \<and>
     ((\<exists>w. get_replay_watermark (ce_mid c) s = Some w \<and> ce_seq c \<le> wm_seq w \<and> same_history (wm_history w) g
         \<and> safe_record_fingerprint r = wm_fingerprint w)
      \<or> (\<exists>fp. check_transition c = Inr (str_or_empty r ''content_hash'', fp)
         \<and> (fp = safe_record_fingerprint r \<or> (\<not> ce_v1 c \<and> ce_type c = ''memory.created''))))"

definition absorbed_as :: "string \<Rightarrow> store \<Rightarrow> checked \<Rightarrow> bool" where
  "absorbed_as g s c \<longleftrightarrow> (case get_tombstone (ce_mid c) s of
     Some ts \<Rightarrow> ce_seq c \<le> ts_seq ts \<and> same_history (ts_history ts) g \<and> get_memory (ce_mid c) s = None
   | None \<Rightarrow> (\<exists>r. get_memory (ce_mid c) s = Some r \<and> covered_by_row g s c r))"

definition absorbed :: "mount_ident option \<Rightarrow> store \<Rightarrow> int \<Rightarrow> dict \<Rightarrow> bool" where
  "absorbed src s prev evt \<longleftrightarrow> (\<forall>prev' types seq c. check_event prev' types src evt = Inr (seq, Some c) \<longrightarrow>
     ce_seq c \<le> prev \<and> well_formed_transition evt c \<and> absorbed_as (source_text mi_history_id src) s c)"

lemma check_event_det:
  assumes "check_event prev types src evt = Inr (seq, Some c)"
  shows "check_event prev' types' src evt = Inr (seq', oc) \<Longrightarrow> oc = Some c \<and> seq' = seq"
  using assms
  by (auto simp: check_event_def Let_def rbind_eq_Inr check_event_seq_def split: if_splits json.splits)

lemma check_event_None:
  assumes "check_event prev types src evt = Inr (seq, None)"
  shows "check_event prev' types' src evt \<noteq> Inr (seq', Some c)"
  using assms by (auto simp: check_event_def Let_def rbind_eq_Inr split: if_splits)

lemma absorbed_mono: "absorbed src s prev evt \<Longrightarrow> prev \<le> prev' \<Longrightarrow> absorbed src s prev' evt"
  unfolding absorbed_def by (meson order_trans)

lemma absorbed_like:
  assumes "like s s'"
  shows "absorbed src s prev evt = absorbed src s' prev evt"
proof -
  have "get_replay_watermark m s = get_replay_watermark m s'" for m using assms by (simp add: like_def)
  then have "absorbed_as g s c = absorbed_as g s' c" for g c
    by (cases "get_tombstone (ce_mid c) s'")
      (simp_all add: absorbed_as_def covered_by_row_def like_get_memory [OF assms] like_tombstone [OF assms])
  then show ?thesis by (simp add: absorbed_def)
qed

text \<open>The planner skips an absorbed event when it knows what the target holds.\<close>

definition knows :: "store \<Rightarrow> string \<Rightarrow> plan_state \<Rightarrow> bool" where
  "knows s m p \<longleftrightarrow> pl_tombs p m = get_tombstone m s \<and> pl_live p m = map_option live_of (get_memory m s)
     \<and> pl_marks p m = get_replay_watermark m s \<and> pl_mutated p = {} \<and> pl_created p = {} \<and> pl_legacy_deduped p = {}"

lemma base_stands_same: "base_stands v x x"
  by (auto simp: base_stands_def py_str_def)

lemma already_applied_known:
  assumes "knows s (ce_mid c) p" "get_memory (ce_mid c) s = Some r" "get_replay_watermark (ce_mid c) s = Some w"
    "ce_seq c \<le> wm_seq w" "same_history (wm_history w) g" "safe_record_fingerprint r = wm_fingerprint w"
  shows "already_applied c g (live_of r) p"
  using assms by (simp add: already_applied_def knows_def live_of_def)

lemma absorbed_create:
  assumes "knows s (ce_mid c) p" "absorbed_as g s c" "check_transition c = Inr (hash, fp)" "ce_type c = ''memory.created''"
  shows "plan_create c g hash fp p = Inr (SkipIdempotent, p)"
proof (cases "get_tombstone (ce_mid c) s")
  case (Some t)
  then show ?thesis using assms(1,2) by (simp add: plan_create_def knows_def absorbed_as_def)
next
  case None
  then obtain r where r: "get_memory (ce_mid c) s = Some r" "covered_by_row g s c r"
    using assms(2) by (auto simp: absorbed_as_def)
  have k: "pl_tombs p (ce_mid c) = None" "pl_live p (ce_mid c) = Some (live_of r)" using assms(1) None r(1) by (auto simp: knows_def)
  show ?thesis
    using r(2) already_applied_known [OF assms(1) r(1)] assms(3)
    by (auto simp: plan_create_def k covered_by_row_def) (auto simp: live_of_def)
qed

lemma absorbed_update:
  assumes "knows s (ce_mid c) p" "absorbed_as g s c" "check_transition c = Inr (hash, fp)" "ce_type c \<noteq> ''memory.created''"
    and "ce_v1 c \<longrightarrow> nonempty_str (dget (ce_payload c) ''previous_content_hash'')
        \<and> nonempty_str (dget (ce_payload c) ''previous_record_fingerprint'')"
  shows "plan_update c g hash fp p = Inr (SkipIdempotent, p)"
proof (cases "get_tombstone (ce_mid c) s")
  case (Some t)
  then show ?thesis using assms(1,2) by (simp add: plan_update_def knows_def absorbed_as_def)
next
  case None
  then obtain r where r: "get_memory (ce_mid c) s = Some r" "covered_by_row g s c r"
    using assms(2) by (auto simp: absorbed_as_def)
  have k: "pl_tombs p (ce_mid c) = None" "pl_live p (ce_mid c) = Some (live_of r)" "pl_legacy_deduped p = {}"
    using assms(1) None r(1) by (auto simp: knows_def)
  have l: "lv_namespace (live_of r) = ce_ns c" "lv_hash (live_of r) = str_or_empty r ''content_hash''"
    "lv_fingerprint (live_of r) = safe_record_fingerprint r"
    using r(2) by (simp_all add: covered_by_row_def live_of_def)
  have "already_applied c g (live_of r) p \<or> (lv_fingerprint (live_of r) = fp \<and> lv_hash (live_of r) = hash)"
    using r(2) already_applied_known [OF assms(1) r(1)] assms(3,4) l by (auto simp: covered_by_row_def)
  then have "update_live c g hash fp (live_of r) p = Inr (SkipIdempotent, p)"
    using assms(5) l(1) base_stands_same by (auto simp: update_live_def Let_def)
  then show ?thesis by (simp add: plan_update_def k)
qed

lemma absorbed_delete:
  assumes "knows s (ce_mid c) p" "absorbed_as g s c" "well_formed_delete evt c" "ce_type c = ''memory.deleted''"
  shows "\<exists>h f. plan_delete evt c g p = Inr (SkipIdempotent, h, f, p)"
proof -
  obtain t where t: "get_tombstone (ce_mid c) s = Some t" "ce_seq c \<le> ts_seq t" "same_history (ts_history t) g"
      "get_memory (ce_mid c) s = None"
    using assms(2,4) by (auto simp: absorbed_as_def covered_by_row_def split: option.splits)
  have k: "pl_tombs p (ce_mid c) = Some t" "pl_live p (ce_mid c) = None" "pl_mutated p = {}" "pl_legacy_deduped p = {}"
    using assms(1) t by (auto simp: knows_def)
  show ?thesis using assms(3) t(2,3) by (auto simp: plan_delete_def Let_def k well_formed_delete_def)
qed

lemma absorbed_skipped:
  assumes "check_event prev types src evt = Inr (seq, Some c)" "absorbed src s b evt" "knows s (ce_mid c) p"
  shows "\<exists>pl. plan_event prev types src evt p = Inr (pl, p) \<and> pd_disposition pl = SkipIdempotent \<and> pd_seq pl = seq"
proof -
  let ?g = "source_text mi_history_id src"
  have a: "well_formed_transition evt c" "absorbed_as ?g s c" using assms(1,2) unfolding absorbed_def by blast+
  have seq: "ce_seq c = seq" using check_event_Some [OF assms(1)] by blast
  show ?thesis
  proof (cases "ce_type c = ''memory.deleted''")
    case True
    then have "well_formed_delete evt c" using a(1) by (simp add: well_formed_transition_def)
    then obtain h f where "plan_delete evt c ?g p = Inr (SkipIdempotent, h, f, p)"
      using absorbed_delete [OF assms(3) a(2) _ True, of evt] by blast
    then show ?thesis using True seq by (auto simp: plan_event_def assms(1) plan_transition_def outcome_def)
  next
    case False
    then obtain hash fp where t: "check_transition c = Inr (hash, fp)" using a(1) by (auto simp: well_formed_transition_def)
    show ?thesis
    proof (cases "ce_type c = ''memory.created''")
      case True
      then show ?thesis using absorbed_create [OF assms(3) a(2) t True] seq t
        by (auto simp: plan_event_def assms(1) plan_transition_def outcome_def)
    next
      case nc: False
      have "plan_update c ?g hash fp p = Inr (SkipIdempotent, p)"
        by (rule absorbed_update [OF assms(3) a(2) t nc]) (use a(1) False nc in \<open>simp add: well_formed_transition_def\<close>)
      then show ?thesis using False nc seq t by (auto simp: plan_event_def assms(1) plan_transition_def outcome_def)
    qed
  qed
qed

section \<open>The first run absorbs its events\<close>

text \<open>What holds while a range is replayed into a clean target \<open>t\<close>.\<close>

definition settled_live :: "string \<Rightarrow> plan_state \<Rightarrow> store \<Rightarrow> int \<Rightarrow> string \<Rightarrow> live_entry \<Rightarrow> bool" where
  "settled_live g p s prev m l \<longleftrightarrow> (\<exists>r w. get_memory m s = Some r \<and> get_replay_watermark m s = Some w
     \<and> lv_fingerprint l = safe_record_fingerprint r \<and> wm_fingerprint w = safe_record_fingerprint r
     \<and> same_history (wm_history w) g \<and> get_tombstone m s = None)"

definition settled_run :: "mount_ident option \<Rightarrow> plan_state \<Rightarrow> store \<Rightarrow> store \<Rightarrow> int \<Rightarrow> dict set \<Rightarrow> bool" where
  "settled_run src p t s prev D \<longleftrightarrow> agrees p t s \<and> pl_legacy_deduped p = {} \<and> pl_marks p = Map.empty
     \<and> (\<forall>m. pl_tombs p m \<noteq> None \<longrightarrow> m \<in> pl_created p \<inter> pl_mutated p)
     \<and> (\<forall>m l. pl_live p m = Some l \<longrightarrow> m \<in> pl_created p \<and> settled_live (source_text mi_history_id src) p s prev m l)
     \<and> (\<forall>evt \<in> D. absorbed src s prev evt)"

text \<open>The record that an applied event writes is fingerprinted as the plan says.\<close>

definition faithful :: "string \<Rightarrow> dict \<times> planned \<Rightarrow> bool" where
  "faithful now = (\<lambda>(evt, pl).
     (pd_disposition pl = ApplyCreate \<longrightarrow> safe_record_fingerprint (inserted_row now (written evt)) = pd_fingerprint pl)
     \<and> (pd_disposition pl = ApplyUpdate \<longrightarrow> safe_record_fingerprint (updated_row (written evt)) = pd_fingerprint pl))"

text \<open>An event whose target changes only at another id stays absorbed.\<close>

lemma absorbed_as_other:
  assumes "get_memory (ce_mid c) s' = get_memory (ce_mid c) s" "get_tombstone (ce_mid c) s' = get_tombstone (ce_mid c) s"
    "get_replay_watermark (ce_mid c) s' = get_replay_watermark (ce_mid c) s"
  shows "absorbed_as g s' c = absorbed_as g s c"
  using assms by (cases "get_tombstone (ce_mid c) s") (simp_all add: absorbed_as_def covered_by_row_def)

lemma absorbed_step:
  assumes "absorbed src s prev evt" "prev < seq"
    and other: "\<And>k. k \<noteq> m \<Longrightarrow> get_memory k s' = get_memory k s \<and> get_tombstone k s' = get_tombstone k s
      \<and> get_replay_watermark k s' = get_replay_watermark k s"
    and same: "\<And>c. ce_mid c = m \<Longrightarrow> ce_seq c \<le> prev \<Longrightarrow> absorbed_as (source_text mi_history_id src) s c
      \<Longrightarrow> absorbed_as (source_text mi_history_id src) s' c"
  shows "absorbed src s' seq evt"
  unfolding absorbed_def
proof (intro allI impI)
  fix prev' types sq c
  assume "check_event prev' types src evt = Inr (sq, Some c)"
  then have c: "ce_seq c \<le> prev" "well_formed_transition evt c" "absorbed_as (source_text mi_history_id src) s c"
    using assms(1) unfolding absorbed_def by blast+
  have "absorbed_as (source_text mi_history_id src) s' c"
  proof (cases "ce_mid c = m")
    case True
    then show ?thesis using same c by blast
  next
    case False
    then show ?thesis using c(3) absorbed_as_other [of c s' s] other by blast
  qed
  then show "ce_seq c \<le> seq \<and> well_formed_transition evt c \<and> absorbed_as (source_text mi_history_id src) s' c"
    using c assms(2) by simp
qed

lemma absorbedI:
  assumes "check_event prev types src evt = Inr (seq, Some c)" "well_formed_transition evt c"
    "absorbed_as (source_text mi_history_id src) s c"
  shows "absorbed src s seq evt"
proof -
  have "c' = c" if "check_event prev' types' src evt = Inr (seq', Some c')" for prev' types' seq' c'
    using check_event_det [OF assms(1) that] by simp
  moreover have "ce_seq c = seq" using check_event_Some [OF assms(1)] by blast
  ultimately show ?thesis using assms(2,3) unfolding absorbed_def by blast
qed

lemma absorbed_observational:
  "check_event prev types src evt = Inr (seq, None) \<Longrightarrow> absorbed src s b evt"
  unfolding absorbed_def using check_event_None by blast

lemma apply_one_watermark:
  "get_replay_watermark k (apply_one env (evt, pl) s) =
    (case pd_disposition pl of
       ApplyCreate \<Rightarrow> if k = str_or_empty (written evt) ''id'' then Some (applied_mark env evt pl (written evt)) else get_replay_watermark k s
     | ApplyUpdate \<Rightarrow> if k = str_or_empty (written evt) ''id'' then Some (applied_mark env evt pl (written evt)) else get_replay_watermark k s
     | ApplyDelete \<Rightarrow> if k = py_str (target_id evt) then None else get_replay_watermark k s
     | SkipLegacyDeduped \<Rightarrow> if k = wm_memory (deduped_mark env evt pl) then Some (deduped_mark env evt pl) else get_replay_watermark k s
     | _ \<Rightarrow> get_replay_watermark k s)"
proof -
  have "get_replay_watermark k (s\<lparr>st_memories := ms\<rparr>) = get_replay_watermark k s" for ms by (simp add: get_replay_watermark_def)
  then show ?thesis
    by (cases "pd_disposition pl")
      (auto simp: apply_one_def watermarks.get_put watermarks.get_remove Let_def target_id_def applied_mark_def)
qed

text \<open>Why an event is skipped in a run into a clean target.\<close>

lemma plan_create_skip:
  assumes "plan_create c g h f p = Inr (SkipIdempotent, p')" "pl_marks p = Map.empty"
  shows "(\<exists>t. pl_tombs p (ce_mid c) = Some t \<and> ce_mid c \<notin> pl_created p) \<or>
    (pl_tombs p (ce_mid c) = None \<and> (\<exists>l. pl_live p (ce_mid c) = Some l \<and> lv_namespace l = ce_ns c \<and> lv_hash l = h
       \<and> (lv_fingerprint l = f \<or> \<not> ce_v1 c)))"
  using assms by (auto simp: plan_create_def already_applied_def split: option.splits if_splits)

lemma update_live_v1:
  "update_live c g h f l p = Inr x \<Longrightarrow> ce_v1 c \<longrightarrow> nonempty_str (dget (ce_payload c) ''previous_content_hash'')
    \<and> nonempty_str (dget (ce_payload c) ''previous_record_fingerprint'')"
  unfolding update_live_def Let_def by (simp split: if_splits)

lemma update_live_skip:
  assumes "update_live c g h f l p = Inr (SkipIdempotent, p')" "pl_marks p = Map.empty"
  shows "lv_namespace l = ce_ns c \<and> lv_hash l = h \<and> lv_fingerprint l = f"
  using assms unfolding update_live_def Let_def already_applied_def by (simp split: if_splits)

lemma plan_update_skip:
  assumes "plan_update c g h f p = Inr (SkipIdempotent, p')" "pl_marks p = Map.empty" "pl_legacy_deduped p = {}"
  shows "(\<exists>t. pl_tombs p (ce_mid c) = Some t \<and> ce_mid c \<notin> pl_mutated p) \<or>
    (pl_tombs p (ce_mid c) = None \<and> (\<exists>l. pl_live p (ce_mid c) = Some l \<and> update_live c g h f l p = Inr (SkipIdempotent, p')))"
  using assms by (auto simp: plan_update_def dedupe_marked_def split: option.splits if_splits)

lemma plan_delete_skip:
  assumes "plan_delete evt c g p = Inr (SkipIdempotent, h, f, p')" "pl_marks p = Map.empty" "pl_legacy_deduped p = {}"
  shows "\<exists>t. pl_tombs p (ce_mid c) = Some t \<and> ce_mid c \<notin> pl_mutated p"
  using assms unfolding plan_delete_def Let_def delete_live_def
  by (auto simp: dedupe_marked_def split: option.splits if_split_asm)

lemma plan_delete_form:
  assumes "plan_delete evt c g p = Inr x" "pl_legacy_deduped p = {}"
  shows "well_formed_delete evt c"
  using assms unfolding plan_delete_def Let_def well_formed_delete_def by (auto split: if_split_asm)

lemma replay_tombstone_history:
  assumes "check_event prev types src evt = Inr (seq, Some c)" "\<not> source_legacy src" "ae_source env = src"
  shows "same_history (ts_history (replay_tombstone env evt pl row)) (source_text mi_history_id src)"
proof -
  note C = check_event_Some [OF assms(1)]
  have o: "check_origin src (dget (ce_payload c) ''origin'') = Inr ()"
    using assms(1) C(1) by (auto simp: check_event_def Let_def rbind_eq_Inr check_payload_def split: json.splits if_splits)
  show ?thesis
  proof (cases "dget (ce_payload c) ''origin''")
    case (JObj d)
    then have "\<not> origin_disagrees d ''history_id'' (source_text mi_history_id src) False"
      using o assms(2) by (simp add: check_origin_def)
    then show ?thesis
      using JObj C(1) assms(3)
      by (auto simp: replay_tombstone_def Let_def or_source_def same_history_def origin_disagrees_def str_or_empty_def)
  qed (use o C(1) assms(3) in \<open>auto simp: check_origin_def replay_tombstone_def Let_def or_source_def same_history_def dget_def\<close>)
qed

lemma check_event_after: "check_event prev types src evt = Inr (seq, oc) \<Longrightarrow> prev < seq"
  by (auto simp: check_event_def Let_def rbind_eq_Inr check_event_seq_def split: if_splits json.splits)

lemma settled_live_other:
  assumes "settled_live g p s prev k l" "get_memory k s' = get_memory k s" "get_tombstone k s' = get_tombstone k s"
    "get_replay_watermark k s' = get_replay_watermark k s"
  shows "settled_live g p' s' seq k l"
  using assms by (simp add: settled_live_def)


lemma settled_change:
  assumes r: "settled_run src p t s prev D" and a: "agrees p' t s'" and seq: "prev < seq"
    and fr: "pl_legacy_deduped p' = {}" "pl_marks p' = Map.empty" "pl_created p \<subseteq> pl_created p'" "pl_mutated p \<subseteq> pl_mutated p'"
    and other: "\<And>k. k \<noteq> m \<Longrightarrow> get_memory k s' = get_memory k s \<and> get_tombstone k s' = get_tombstone k s
      \<and> get_replay_watermark k s' = get_replay_watermark k s"
    and sim: "\<And>k. k \<noteq> m \<Longrightarrow> pl_live p' k = pl_live p k \<and> pl_tombs p' k = pl_tombs p k"
    and tomb: "pl_tombs p' m \<noteq> None \<Longrightarrow> m \<in> pl_created p' \<inter> pl_mutated p'"
    and live: "\<And>l. pl_live p' m = Some l \<Longrightarrow> m \<in> pl_created p' \<and> settled_live (source_text mi_history_id src) p' s' seq m l"
    and same: "\<And>c. ce_mid c = m \<Longrightarrow> ce_seq c \<le> prev \<Longrightarrow> absorbed_as (source_text mi_history_id src) s c
      \<Longrightarrow> absorbed_as (source_text mi_history_id src) s' c"
    and evt: "absorbed src s' seq evt"
  shows "settled_run src p' t s' seq (insert evt D)"
proof -
  let ?g = "source_text mi_history_id src"
  have R: "\<forall>m. pl_tombs p m \<noteq> None \<longrightarrow> m \<in> pl_created p \<inter> pl_mutated p"
    "\<forall>m l. pl_live p m = Some l \<longrightarrow> m \<in> pl_created p \<and> settled_live ?g p s prev m l" "\<forall>evt \<in> D. absorbed src s prev evt"
    using r unfolding settled_run_def by blast+
  have "k \<in> pl_created p' \<inter> pl_mutated p'" if "pl_tombs p' k \<noteq> None" for k
    using that tomb sim [of k] R(1) fr(3,4) by (cases "k = m") auto
  moreover have "k \<in> pl_created p' \<and> settled_live ?g p' s' seq k l" if "pl_live p' k = Some l" for k l
  proof (cases "k = m")
    case False
    then have "k \<in> pl_created p" "settled_live ?g p s prev k l" using that sim [of k] R(2) by auto
    then show ?thesis using settled_live_other other [OF False] fr(3) by blast
  qed (use that live in simp)
  moreover have "absorbed src s' seq e" if "e \<in> insert evt D" for e
    using that evt absorbed_step [of src s prev e seq m s'] R(3) seq other same by blast
  ultimately show ?thesis using a fr(1,2) unfolding settled_run_def by blast
qed

lemma settled_runD:
  assumes "settled_run src p t s prev D"
  shows "agrees p t s" "pl_legacy_deduped p = {}" "pl_marks p = Map.empty"
    and "pl_tombs p m = Some x \<Longrightarrow> m \<in> pl_created p \<and> m \<in> pl_mutated p"
    and "pl_live p m = Some l \<Longrightarrow> m \<in> pl_created p \<and> settled_live (source_text mi_history_id src) p s prev m l"
    and "evt \<in> D \<Longrightarrow> absorbed src s prev evt"
  using assms unfolding settled_run_def by auto

text \<open>A skipped event leaves everything as it is, and is absorbed.\<close>

lemma settled_skip:
  assumes "settled_run src p t s prev D" "prev < seq" "absorbed src s seq evt"
  shows "settled_run src p t s seq (insert evt D)"
proof -
  note R = settled_runD [OF assms(1)]
  have "absorbed src s seq e" if "e \<in> insert evt D" for e
    using that assms(2,3) R(6) absorbed_mono [of src s prev e seq] by auto
  moreover have "settled_live g p s seq m l = settled_live g p s prev m l" for g m l by (simp add: settled_live_def)
  ultimately show ?thesis using R(1-5) unfolding settled_run_def by auto
qed

lemma skipped_absorbed:
  assumes r: "settled_run src p t s prev D" and ce: "check_event prev types src evt = Inr (seq, Some c)"
    and tr: "check_transition c = Inr (hash, fp)" and wf: "well_formed_transition evt c" and nd: "ce_type c \<noteq> ''memory.deleted''"
    and l: "pl_live p (ce_mid c) = Some l" "lv_namespace l = ce_ns c" "lv_hash l = hash"
    and f: "lv_fingerprint l = fp \<or> (\<not> ce_v1 c \<and> ce_type c = ''memory.created'')"
  shows "absorbed src s seq evt"
proof -
  note R = settled_runD [OF r]
  obtain r w where s: "get_memory (ce_mid c) s = Some r" "lv_fingerprint l = safe_record_fingerprint r"
      "get_tombstone (ce_mid c) s = None"
    using R(5) [OF l(1)] by (auto simp: settled_live_def)
  have "live_matches l r" using agrees_onD(3) [OF R(1) [unfolded agrees_def] l(1)] s(1) by auto
  then have "str_or_empty r ''namespace'' = ce_ns c" "str_or_empty r ''content_hash'' = hash"
    using l(2,3) by (auto simp: live_matches_def row_pair_def)
  then have "covered_by_row (source_text mi_history_id src) s c r"
    using tr f s(2) nd by (auto simp: covered_by_row_def)
  then show ?thesis using absorbedI [OF ce wf] s(1,3) by (simp add: absorbed_as_def)
qed

text \<open>An event that writes a row is absorbed, and the events before it on the same record stay so.\<close>

lemma settled_write:
  assumes r: "settled_run src p t s prev D" and a: "agrees p' t s'"
    and ce: "check_event prev types src evt = Inr (seq, Some c)"
    and tr: "check_transition c = Inr (hash, fp)" and wf: "well_formed_transition evt c" and nd: "ce_type c \<noteq> ''memory.deleted''"
    and R: "row_pair R = (ce_ns c, hash)" "safe_record_fingerprint R = fp"
    and w: "wm_fingerprint w = fp" "wm_seq w = seq" "wm_history w = source_text mi_history_id src"
    and s': "\<And>k. get_memory k s' = (if k = ce_mid c then Some R else get_memory k s)"
      "\<And>k. get_tombstone k s' = get_tombstone k s"
      "\<And>k. get_replay_watermark k s' = (if k = ce_mid c then Some w else get_replay_watermark k s)"
    and tn: "get_tombstone (ce_mid c) s = None"
    and ns: "\<And>r0. get_memory (ce_mid c) s = Some r0 \<Longrightarrow> str_or_empty r0 ''namespace'' = ce_ns c"
    and p': "pl_legacy_deduped p' = pl_legacy_deduped p" "pl_marks p' = pl_marks p" "pl_created p \<subseteq> pl_created p'"
      "ce_mid c \<in> pl_created p'" "pl_mutated p' = insert (ce_mid c) (pl_mutated p)" "pl_tombs p' = pl_tombs p"
      "pl_live p' = (pl_live p)(ce_mid c \<mapsto> after_entry c hash fp)"
  shows "settled_run src p' t s' seq (insert evt D)"
proof (rule settled_change [OF r a, where m = "ce_mid c"])
  let ?g = "source_text mi_history_id src"
  note D = settled_runD [OF r]
  have sh: "same_history ?g ?g" by (simp add: same_history_def)
  have nR: "str_or_empty R ''namespace'' = ce_ns c" "str_or_empty R ''content_hash'' = hash" using R(1) by (simp_all add: row_pair_def)
  show "prev < seq" by (rule check_event_after [OF ce])
  show "pl_legacy_deduped p' = {}" "pl_marks p' = Map.empty" "pl_created p \<subseteq> pl_created p'" "pl_mutated p \<subseteq> pl_mutated p'"
    using D(2,3) p' by auto
  show "get_memory k s' = get_memory k s \<and> get_tombstone k s' = get_tombstone k s \<and> get_replay_watermark k s' = get_replay_watermark k s"
    if "k \<noteq> ce_mid c" for k using that by (simp add: s')
  show "pl_live p' k = pl_live p k \<and> pl_tombs p' k = pl_tombs p k" if "k \<noteq> ce_mid c" for k using that p'(6,7) by simp
  show "ce_mid c \<in> pl_created p' \<inter> pl_mutated p'" using p'(4,5) by simp
  show "ce_mid c \<in> pl_created p' \<and> settled_live ?g p' s' seq (ce_mid c) l" if "pl_live p' (ce_mid c) = Some l" for l
    using that p'(4,7) R(2) w sh tn by (auto simp: settled_live_def s' after_entry_def)
  show "absorbed_as ?g s' c'" if "ce_mid c' = ce_mid c" "ce_seq c' \<le> prev" "absorbed_as ?g s c'" for c'
  proof -
    have "\<exists>r0. get_memory (ce_mid c) s = Some r0 \<and> covered_by_row ?g s c' r0"
      using that(1,3) tn by (auto simp: absorbed_as_def)
    then obtain r0 where r0: "get_memory (ce_mid c) s = Some r0" "covered_by_row ?g s c' r0" by blast
    then have "covered_by_row ?g s' c' R"
      using that(1,2) ns [OF r0(1)] check_event_after [OF ce] nR(1) R(2) w sh
      unfolding covered_by_row_def by (simp add: s')
    then show ?thesis using that(1) tn by (simp add: absorbed_as_def s')
  qed
  have "covered_by_row ?g s' c R" using tr nR R(2) nd by (simp add: covered_by_row_def)
  then show "absorbed src s' seq evt" using absorbedI [OF ce wf] tn by (simp add: absorbed_as_def s')
qed

lemma settled_create:
  assumes r: "settled_run src p t s prev D" and a: "agrees (create_new c hash fp p) t s'"
    and ce: "check_event prev types src evt = Inr (seq, Some c)" and tr: "check_transition c = Inr (hash, fp)"
    and ty: "ce_type c = ''memory.created''" and cr: "carries_record evt" and cv: "covered p evt"
    and p: "pl_tombs p (ce_mid c) = None" "pl_live p (ce_mid c) = None"
    and s': "s' = apply_one env (evt, outcome ApplyCreate c hash fp) s" and env: "ae_source env = src"
    and fp: "safe_record_fingerprint (inserted_row (ae_now env) (written evt)) = fp"
  shows "settled_run src (create_new c hash fp p) t s' seq (insert evt D)"
proof -
  let ?R = "inserted_row (ae_now env) (written evt)" and ?pl = "outcome ApplyCreate c hash fp"
  note D = settled_runD [OF r] and C = check_event_Some [OF ce] and N = new_row [OF cr ce, where R = ?R and now = "ae_now env"]
  note A = agrees_onD [OF D(1) [unfolded agrees_def]] and L = covered_record [OF ce cv]
  have none: "get_memory (ce_mid c) s = None" by (rule A(4) [OF L(1) p(2)])
  have tn: "get_tombstone (ce_mid c) s = None" using A(5) [OF L(2) C(3)] p(1) by simp
  have k: "row_key ?R = JStr (ce_mid c)" "row_pair ?R = (ce_ns c, hash)" using N check_transition_Inr [OF tr] by auto
  have id: "str_or_empty (written evt) ''id'' = ce_mid c"
    using written_columns(2) [OF cr C(1)] C(2) by simp
  have m: "st_memories s' = st_memories s @ [?R]" "st_tombstones s' = st_tombstones s"
    by (simp_all add: s' apply_one_def outcome_def)
  have wm: "get_replay_watermark k s' = (if k = ce_mid c then Some (applied_mark env evt ?pl (written evt)) else get_replay_watermark k s)" for k
    unfolding s' apply_one_watermark by (simp add: outcome_def id)
  show ?thesis
    by (rule settled_write [OF r a ce tr _ _ k(2) fp _ _ _ get_memory_snoc [OF none k(1) m(1)] tombstone_cong [OF m(2)] wm tn])
      (use ty tr none C(6) env in \<open>auto simp: well_formed_transition_def applied_mark_def outcome_def create_new_def\<close>)
qed

lemma settled_update:
  assumes r: "settled_run src p t s prev D" and a: "agrees (set_live c l hash fp p) t s'"
    and ce: "check_event prev types src evt = Inr (seq, Some c)" and tr: "check_transition c = Inr (hash, fp)"
    and wf: "well_formed_transition evt c" and nd: "ce_type c \<noteq> ''memory.deleted''" and cr: "carries_record evt" and cv: "covered p evt"
    and p: "pl_tombs p (ce_mid c) = None" "pl_live p (ce_mid c) = Some l" "lv_namespace l = ce_ns c"
    and s': "s' = apply_one env (evt, outcome ApplyUpdate c hash fp) s" and env: "ae_source env = src"
    and fp: "safe_record_fingerprint (updated_row (written evt)) = fp"
  shows "settled_run src (set_live c l hash fp p) t s' seq (insert evt D)"
proof -
  let ?R = "updated_row (written evt)" and ?pl = "outcome ApplyUpdate c hash fp"
  note D = settled_runD [OF r] and C = check_event_Some [OF ce] and N = new_row [OF cr ce, where R = ?R]
  note A = agrees_onD [OF D(1) [unfolded agrees_def]] and L = covered_record [OF ce cv]
  have tn: "get_tombstone (ce_mid c) s = None" using A(5) [OF L(2) C(3)] p(1) by simp
  have k: "row_key ?R = JStr (ce_mid c)" "row_pair ?R = (ce_ns c, hash)" using N check_transition_Inr [OF tr] by auto
  have id: "str_or_empty (written evt) ''id'' = ce_mid c"
    using written_columns(2) [OF cr C(1)] C(2) by simp
  have m: "st_memories s' = upsert_row row_key ?R (st_memories s)" "st_tombstones s' = st_tombstones s"
    by (simp_all add: s' apply_one_def outcome_def)
  have g: "get_memory k' s' = (if k' = ce_mid c then Some ?R else get_memory k' s)" for k'
    using k(1) by (auto simp: get_memory_def m(1) find_key_upsert)
  have wm: "get_replay_watermark k s' = (if k = ce_mid c then Some (applied_mark env evt ?pl (written evt)) else get_replay_watermark k s)" for k
    unfolding s' apply_one_watermark by (simp add: outcome_def id)
  have ns: "str_or_empty r0 ''namespace'' = ce_ns c" if "get_memory (ce_mid c) s = Some r0" for r0
    using A(3) [OF p(2)] that p(3) by (auto simp: live_matches_def row_pair_def)
  have cr': "ce_mid c \<in> pl_created p" using D(5) [OF p(2)] by blast
  show ?thesis
    by (rule settled_write [OF r a ce tr wf nd k(2) fp _ _ _ g tombstone_cong [OF m(2)] wm tn ns])
      (use C(6) env cr' in \<open>auto simp: applied_mark_def outcome_def set_live_def Let_def\<close>)
qed

lemma settled_delete:
  assumes r: "settled_run src p t s prev D" and a: "agrees (forget_live c g l at h f p) t s'"
    and ce: "check_event prev types src evt = Inr (seq, Some c)" and nl: "\<not> source_legacy src"
    and ty: "ce_type c = ''memory.deleted''" and wf: "well_formed_delete evt c"
    and p: "pl_live p (ce_mid c) = Some l" and cv: "covered p evt"
    and s': "s' = apply_one env (evt, outcome ApplyDelete c h f) s" and env: "ae_source env = src"
  shows "settled_run src (forget_live c g l at h f p) t s' seq (insert evt D)"
proof -
  let ?pl = "outcome ApplyDelete c h f" and ?g = "source_text mi_history_id src" and ?m = "ce_mid c"
  let ?ts = "tombstone_defaults (replay_tombstone env evt ?pl (get_memory ?m s))"
  note D = settled_runD [OF r] and C = check_event_Some [OF ce]
  have id: "dget (dict_of (dget evt ''payload'')) ''id'' = JStr ?m" using C(1,2) by simp
  note AD = applied_delete [OF id, where pl = ?pl and env = env and s = s]
  have g: "get_memory k s' = (if k = ?m then None else get_memory k s)" for k
    using AD(1) by (auto simp: get_memory_def s' outcome_def find_key_remove)
  have tb: "get_tombstone k s' = (if k = ?m then Some ?ts else get_tombstone k s)" for k
    using AD(2) [of k] by (simp add: s' outcome_def)
  have wm: "get_replay_watermark k s' = (if k = ?m then None else get_replay_watermark k s)" for k
    unfolding s' apply_one_watermark using id by (simp add: outcome_def target_id_def py_str_def)
  have ts: "ts_seq ?ts = seq" "same_history (ts_history ?ts) ?g"
    using replay_tombstone_history [OF ce nl env, of ?pl] C(6)
    by (simp_all add: tombstone_defaults_def replay_tombstone_def Let_def outcome_def)
  have abs: "absorbed_as ?g s' c'" if "ce_mid c' = ?m" "ce_seq c' \<le> seq" for c'
    using that ts by (simp add: absorbed_as_def tb g)
  have cr: "?m \<in> pl_created p" using D(5) [OF p] by blast
  show ?thesis
  proof (rule settled_change [OF r a check_event_after [OF ce], where m = "?m"])
    show "absorbed src s' seq evt"
      by (rule absorbedI [OF ce]) (use ty wf abs [OF refl] C(6) in \<open>simp_all add: well_formed_transition_def\<close>)
    show "absorbed_as ?g s' c'" if "ce_mid c' = ?m" "ce_seq c' \<le> prev" "absorbed_as ?g s c'" for c'
      using abs that check_event_after [OF ce] by simp
  qed (use D(2,3) cr in \<open>auto simp: forget_live_def g tb wm\<close>)
qed

text \<open>One event of the first run.\<close>

lemma settled_step_delete:
  assumes r: "settled_run src p t s prev D" and cv: "covered p evt" and nl: "\<not> source_legacy src" and env: "ae_source env = src"
    and ce: "check_event prev types src evt = Inr (seq, Some c)" and ty: "ce_type c = ''memory.deleted''"
    and d: "plan_delete evt c (source_text mi_history_id src) p = Inr (d, h, f, p')" and pl: "pl = outcome d c h f"
    and nd: "d \<noteq> SkipLegacyDeduped"
  shows "settled_run src p' t (apply_one env (evt, pl) s) seq (insert evt D)"
proof -
  note D = settled_runD [OF r] and C = check_event_Some [OF ce] and L = covered_record [OF ce cv]
  have wf: "well_formed_delete evt c" by (rule plan_delete_form [OF d D(2)])
  from d show ?thesis
  proof (cases rule: plan_delete_cases)
    case skip
    then show ?thesis using plan_delete_skip [of evt c _ p h f p'] D(2-4) d by blast
  next
    case deduped
    then show ?thesis using nd by simp
  next
    case (applies l at)
    have m: "dget (dict_of (dget evt ''payload'')) ''id'' = JStr (ce_mid c)" using C(1,2) by simp
    have pd: "pd_disposition pl = ApplyDelete" by (simp add: pl outcome_def applies(1))
    have a: "agrees p' t (apply_one env (evt, pl) s)"
      unfolding applies(2) by (rule delete_agrees [OF D(1) applies(4,5) L(1,2) applied_delete [OF m pd]])
    show ?thesis
      unfolding applies(2)
      by (rule settled_delete [OF r a [unfolded applies(2)] ce nl ty wf applies(4) cv _ env]) (simp add: pl applies(1))
  qed
qed

lemma settled_step_create:
  assumes r: "settled_run src p t s prev D" and cv: "covered p evt" and wr: "writable evt pl" and env: "ae_source env = src"
    and a: "agrees p' t (apply_one env (evt, pl) s)"
    and ce: "check_event prev types src evt = Inr (seq, Some c)" and ty: "ce_type c = ''memory.created''"
    and tr: "check_transition c = Inr (hash, fp)" and fa: "faithful (ae_now env) (evt, pl)"
    and d: "plan_create c (source_text mi_history_id src) hash fp p = Inr (d, p')" and pl: "pl = outcome d c hash fp"
    and nd: "d \<noteq> SkipLegacyDeduped"
  shows "settled_run src p' t (apply_one env (evt, pl) s) seq (insert evt D)"
proof -
  note D = settled_runD [OF r]
  have wf: "well_formed_transition evt c" using ty tr by (simp add: well_formed_transition_def)
  from d show ?thesis
  proof (cases rule: plan_create_cases)
    case skip
    then obtain l where l: "pl_live p (ce_mid c) = Some l" "lv_namespace l = ce_ns c" "lv_hash l = hash"
        "lv_fingerprint l = fp \<or> \<not> ce_v1 c"
      using plan_create_skip [of c _ hash fp p p'] d D(3,4) by blast
    have "absorbed src s seq evt" by (rule skipped_absorbed [OF r ce tr wf _ l(1-3)]) (use ty l(4) in auto)
    then show ?thesis
      using settled_skip [OF r check_event_after [OF ce]] by (simp add: pl skip apply_one_def outcome_def)
  next
    case deduped
    then show ?thesis using nd by simp
  next
    case applies
    have cr: "carries_record evt" using wr applies(1) by (simp add: pl writable_def outcome_def)
    show ?thesis
      unfolding applies(2)
      by (rule settled_create [OF r a [unfolded applies(2)] ce tr ty cr cv applies(3,4) _ env])
        (use fa in \<open>simp_all add: pl applies(1) faithful_def outcome_def\<close>)
  qed
qed

lemma settled_step_update:
  assumes r: "settled_run src p t s prev D" and cv: "covered p evt" and wr: "writable evt pl" and env: "ae_source env = src"
    and a: "agrees p' t (apply_one env (evt, pl) s)"
    and ce: "check_event prev types src evt = Inr (seq, Some c)" and ty: "ce_type c = ''memory.updated''"
    and tr: "check_transition c = Inr (hash, fp)" and fa: "faithful (ae_now env) (evt, pl)"
    and d: "plan_update c (source_text mi_history_id src) hash fp p = Inr (d, p')" and pl: "pl = outcome d c hash fp"
    and nd: "d \<noteq> SkipLegacyDeduped"
  shows "settled_run src p' t (apply_one env (evt, pl) s) seq (insert evt D)"
proof -
  let ?g = "source_text mi_history_id src"
  note D = settled_runD [OF r]
  from d show ?thesis
  proof (cases rule: plan_update_cases)
    case skip
    then obtain l where l: "pl_live p (ce_mid c) = Some l" "update_live c ?g hash fp l p = Inr (SkipIdempotent, p')"
      using plan_update_skip [of c _ hash fp p p'] d D(2-4) by blast
    note U = update_live_skip [OF l(2) D(3)]
    have wf: "well_formed_transition evt c"
      using update_live_v1 [OF l(2)] ty tr by (simp add: well_formed_transition_def)
    have "absorbed src s seq evt" by (rule skipped_absorbed [OF r ce tr wf _ l(1)]) (use ty U in auto)
    then show ?thesis
      using settled_skip [OF r check_event_after [OF ce]] by (simp add: pl skip apply_one_def outcome_def)
  next
    case deduped
    then show ?thesis using nd by simp
  next
    case (applies l)
    have cr: "carries_record evt" using wr applies(1) by (simp add: pl writable_def outcome_def)
    have "update_live c ?g hash fp l p = Inr (ApplyUpdate, p')"
      using d applies D(2) by (simp add: plan_update_def)
    then have wf: "well_formed_transition evt c"
      using update_live_v1 [of c ?g hash fp l p] ty tr by (simp add: well_formed_transition_def)
    show ?thesis
      unfolding applies(2)
      by (rule settled_update [OF r a [unfolded applies(2)] ce tr wf _ cr cv applies(3,4,5) _ env])
        (use fa ty in \<open>simp_all add: pl applies(1) faithful_def outcome_def\<close>)
  qed
qed

lemma settled_step:
  assumes pe: "plan_event prev types src evt p = Inr (pl, p')" and r: "settled_run src p t s prev D"
    and cv: "covered p evt" and tx: "textual evt" and wr: "writable evt pl" and nl: "\<not> source_legacy src" and env: "ae_source env = src"
    and fa: "faithful (ae_now env) (evt, pl)" and nd: "pd_disposition pl \<noteq> SkipLegacyDeduped"
  shows "settled_run src p' t (apply_one env (evt, pl) s) (pd_seq pl) (insert evt D)"
proof -
  note D = settled_runD [OF r]
  note A = plan_event_step(2) [OF pe D(1) cv tx wr, of env]
  obtain seq oc where ce: "check_event prev types src evt = Inr (seq, oc)"
    and rest: "(case oc of None \<Rightarrow> Inr (\<lparr>pd_disposition = Observational, pd_seq = seq, pd_namespace = [], pd_hash = [], pd_fingerprint = []\<rparr>, p)
       | Some c \<Rightarrow> plan_transition evt (source_text mi_history_id src) c p) = Inr (pl, p')"
    using pe by (auto simp: plan_event_def rbind_eq_Inr)
  show ?thesis
  proof (cases oc)
    case None
    then show ?thesis
      using rest settled_skip [OF r check_event_after [OF ce] absorbed_observational [OF ce [unfolded None]]]
      by (auto simp: apply_one_def)
  next
    case (Some c)
    let ?g = "source_text mi_history_id src"
    note C = check_event_Some [OF ce [unfolded Some]]
    have pt: "plan_transition evt ?g c p = Inr (pl, p')" using rest Some by simp
    show ?thesis
    proof (cases "ce_type c = ''memory.deleted''")
      case True
      then obtain d h f where d: "plan_delete evt c ?g p = Inr (d, h, f, p')" "pl = outcome d c h f"
        using pt by (auto simp: plan_transition_def rbind_eq_Inr)
      have "d \<noteq> SkipLegacyDeduped" "pd_seq pl = seq" using nd C(6) by (simp_all add: d(2) outcome_def)
      then show ?thesis using settled_step_delete [OF r cv nl env ce [unfolded Some] True d] by simp
    next
      case False
      then have cu: "ce_type c \<in> {''memory.created'', ''memory.updated''}" using C(5) by (auto simp: RECONSTRUCTING_EVENT_TYPES_def)
      obtain hash fp d where h: "check_transition c = Inr (hash, fp)"
        and rest: "(if ce_type c = ''memory.created'' then plan_create c ?g hash fp p else plan_update c ?g hash fp p) = Inr (d, p')"
        and pl: "pl = outcome d c hash fp"
        using pt False by (auto simp: plan_transition_def rbind_eq_Inr)
      have d: "d \<noteq> SkipLegacyDeduped" "pd_seq pl = seq" using nd C(6) by (simp_all add: pl outcome_def)
      show ?thesis
        using cu rest d settled_step_create [OF r cv wr env A ce [unfolded Some] _ h fa _ pl]
          settled_step_update [OF r cv wr env A ce [unfolded Some] _ h fa _ pl]
        by (cases "ce_type c = ''memory.created''") simp_all
    qed
  qed
qed

lemma settled_events:
  assumes "plan_events prev types src evs p = Inr (pls, p')" "\<forall>evt \<in> set evs. covered p evt \<and> textual evt" "conversion_error (zip evs pls) = None"
    and "settled_run src p t s prev D" "\<not> source_legacy src" "ae_source env = src"
    and "list_all (\<lambda>x. faithful (ae_now env) x \<and> pd_disposition (snd x) \<noteq> SkipLegacyDeduped) (zip evs pls)"
  shows "\<exists>b. settled_run src p' t (fold (apply_one env) (zip evs pls) s) b (D \<union> set evs)"
  using assms
proof (induction evs arbitrary: prev p pls s D)
  case (Cons evt evs)
  obtain pl p1 rest where pe: "plan_event prev types src evt p = Inr (pl, p1)"
    and pr: "plan_events (pd_seq pl) types src evs p1 = Inr (rest, p')" and pls: "pls = pl # rest"
    using Cons.prems(1) by (auto simp: rbind_eq_Inr)
  have wr: "writable evt pl" and ce: "conversion_error (zip evs rest) = None"
    using Cons.prems(3) planned_readable [OF pe] Cons.prems(2) by (cases rule: conversion_error_Cons [of evt pl "zip evs rest"]; simp add: pls)+
  have st: "settled_run src p1 t (apply_one env (evt, pl) s) (pd_seq pl) (insert evt D)"
    by (rule settled_step [OF pe Cons.prems(4)]) (use Cons.prems pls wr in simp_all)
  have "\<forall>e \<in> set evs. covered p1 e \<and> textual e" using Cons.prems(2) covered_cong [OF pe] by simp
  from Cons.IH [OF pr this ce st Cons.prems(5,6)] Cons.prems(7) show ?case by (simp add: pls)
qed (use assms(4) in auto)

section \<open>The second run skips\<close>

text \<open>What is loaded of a target is exactly its rows, tombstones and watermarks.\<close>

definition exact_live :: "store \<Rightarrow> plan_state \<Rightarrow> bool" where
  "exact_live t p \<longleftrightarrow> (\<forall>m l. pl_live p m = Some l \<longrightarrow> (\<exists>r. get_memory m t = Some r \<and> l = live_of r))"

lemma load_exact:
  assumes "rows_inv t" "typed_rows t" "r \<in> set (st_memories t)" "exact_live t p" "f \<in> {load_row, load_pair_row}"
  shows "exact_live t (f r p)"
proof -
  obtain i where i: "row_key r = JStr i" "dget r ''id'' = JStr i"
    using typed_rowE [OF typed_member [OF assms(2,3)]] by metis
  have "get_memory i t = Some r" by (rule get_memory_member [OF assms(1,3) i(1)])
  moreover have "pl_live (f r p) = pl_live p \<or> pl_live (f r p) = (pl_live p)(i \<mapsto> live_of r)"
    using assms(5) i by (auto simp: load_row_def load_pair_row_def Let_def py_str_def)
  ultimately show ?thesis
    using assms(4) by (auto simp: exact_live_def split: if_splits)
qed

lemma load_fold_exact:
  assumes "rows_inv t" "typed_rows t" "set rows \<subseteq> set (st_memories t)" "exact_live t p" "f \<in> {load_row, load_pair_row}"
  shows "exact_live t (fold f rows p)"
  using assms(3,4) by (induction rows arbitrary: p) (use load_exact [OF assms(1,2) _ _ assms(5)] in auto)

lemma loaded_candidates:
  assumes "rows_inv t" "typed_rows t"
  shows "exact_live t (load_candidates t evs empty_plan)"
    "pl_mutated (load_candidates t evs empty_plan) = {}" "pl_created (load_candidates t evs empty_plan) = {}"
    "pl_legacy_deduped (load_candidates t evs empty_plan) = {}"
    "pl_tombs (load_candidates t evs empty_plan) = fetched (set (concat (map event_ids evs))) (\<lambda>m. get_tombstone m t) Map.empty"
    "pl_marks (load_candidates t evs empty_plan) = fetched (set (concat (map event_ids evs))) (\<lambda>m. get_replay_watermark m t) Map.empty"
proof -
  define ids where "ids = concat (map event_ids evs)"
  define qs where "qs = concat (map event_pairs evs)"
  define p1 where "p1 = load_live t ids empty_plan"
  define p2 where "p2 = load_pairs t qs p1"
  note d = ids_def [symmetric] qs_def [symmetric] p1_def [symmetric] p2_def [symmetric]
  have p3: "load_candidates t evs empty_plan = load_marks t ids (load_tombs t ids p2)" by (simp add: load_candidates_def Let_def d)
  have "exact_live t p1"
    unfolding p1_def load_live_def Let_def
    by (rule load_fold_exact [OF assms]) (auto simp: get_memories_def exact_live_def empty_plan_def)
  then have "exact_live t p2"
    unfolding p2_def load_pairs_def Let_def
    by (intro load_fold_exact [OF assms]) (auto simp: get_memories_by_identity_def exact_live_def)
  then show "exact_live t (load_candidates t evs empty_plan)"
    unfolding p3 by (simp add: load_marks_def load_tombs_def Let_def exact_live_def)
  have k: "pl_mutated p2 = {}" "pl_created p2 = {}" "pl_legacy_deduped p2 = {}" "pl_tombs p2 = Map.empty" "pl_marks p2 = Map.empty"
    "pl_loaded_tombs p2 = {}" "pl_loaded_marks p2 = {}"
    by (simp_all add: p2_def p1_def load_pairs_def load_live_def Let_def empty_plan_def)
  then show "pl_mutated (load_candidates t evs empty_plan) = {}" "pl_created (load_candidates t evs empty_plan) = {}"
    "pl_legacy_deduped (load_candidates t evs empty_plan) = {}"
    "pl_tombs (load_candidates t evs empty_plan) = fetched (set (concat (map event_ids evs))) (\<lambda>m. get_tombstone m t) Map.empty"
    "pl_marks (load_candidates t evs empty_plan) = fetched (set (concat (map event_ids evs))) (\<lambda>m. get_replay_watermark m t) Map.empty"
    unfolding p3 d by (simp_all add: load_marks_def load_tombs_def Let_def)
qed

lemma candidates_known:
  assumes "rows_inv t" "typed_rows t" "evt \<in> set evs" "m \<in> set (event_ids evt)" "m \<noteq> []"
  shows "knows t m (load_candidates t evs empty_plan)"
proof -
  let ?p = "load_candidates t evs empty_plan"
  note L = loaded_candidates [OF assms(1,2), of evs]
  note C = load_candidates_agrees [OF empty_plan_agrees [OF assms(1,2)] assms(1,2)]
  note A = agrees_onD [OF C(1) [of evs, unfolded agrees_def]]
  have m: "m \<in> set (concat (map event_ids evs))" using assms(3,4) by auto
  have "m \<in> pl_loaded_live ?p" using C(2) [OF assms(3)] assms(4) by (auto simp: covered_def)
  then have "pl_live ?p m = map_option live_of (get_memory m t)"
    using A(4) [of m] L(1) [unfolded exact_live_def, rule_format, of m] by (cases "pl_live ?p m") auto
  then show ?thesis using m assms(5) L(2-6) by (auto simp: knows_def fetched_def)
qed

lemma plan_event_some:
  assumes "plan_event prev types src evt p = Inr (pl, p')" "check_event prev types src evt = Inr (seq, Some c)"
  shows "pd_seq pl = seq \<and> pd_disposition pl \<noteq> Observational"
proof -
  let ?g = "source_text mi_history_id src"
  have "d \<noteq> Observational" if "plan_delete evt c ?g p = Inr (d, h, f, p')" for d h f p'
    using that by (cases rule: plan_delete_cases) simp_all
  moreover have "d \<noteq> Observational" if "plan_create c ?g h f p = Inr (d, p')" for d h f p'
    using that by (cases rule: plan_create_cases) simp_all
  moreover have "d \<noteq> Observational" if "plan_update c ?g h f p = Inr (d, p')" for d h f p'
    using that by (cases rule: plan_update_cases) simp_all
  moreover have "ce_seq c = seq" by (rule check_event_Some(6) [OF assms(2)])
  ultimately show ?thesis
    using assms by (auto simp: plan_event_def plan_transition_def rbind_eq_Inr outcome_def split: if_splits)
qed

text \<open>A range whose events are all absorbed is planned without a single change.\<close>

definition idle :: "disposition \<Rightarrow> bool" where
  "idle d \<longleftrightarrow> d = Observational \<or> d = SkipIdempotent"

lemma absorbed_plan:
  assumes "plan_events prev types src evs p0 = Inr (pls, p0')"
    and "\<forall>evt \<in> set evs. absorbed src s b evt \<and> (\<forall>m \<in> set (event_ids evt). m \<noteq> [] \<longrightarrow> knows s m p)"
  shows "\<exists>pls'. plan_events prev types src evs p = Inr (pls', p) \<and> list_all (\<lambda>pl. idle (pd_disposition pl)) pls'
    \<and> count_planned skips pls' = count_planned applies pls + count_planned skips pls"
  using assms
proof (induction evs arbitrary: prev p0 pls)
  case Nil
  then show ?case by (simp add: count_planned_def)
next
  case (Cons evt evs)
  obtain pl p1 rest where pe: "plan_event prev types src evt p0 = Inr (pl, p1)"
    and pr: "plan_events (pd_seq pl) types src evs p1 = Inr (rest, p0')" and pls: "pls = pl # rest"
    using Cons.prems(1) by (auto simp: rbind_eq_Inr)
  obtain seq oc where ce: "check_event prev types src evt = Inr (seq, oc)" using pe by (auto simp: plan_event_def rbind_eq_Inr)
  have "\<exists>pl'. plan_event prev types src evt p = Inr (pl', p) \<and> idle (pd_disposition pl') \<and> pd_seq pl' = pd_seq pl
      \<and> (skips (pd_disposition pl') \<longleftrightarrow> applies (pd_disposition pl) \<or> skips (pd_disposition pl))"
  proof (cases oc)
    case None
    then show ?thesis using ce pe by (auto simp: plan_event_def idle_def skips_def applies_def)
  next
    case (Some c)
    note C = check_event_Some [OF ce [unfolded Some]]
    have "event_ids evt = [ce_mid c]" using C(1-3) by (simp add: event_ids_def py_str_def)
    then have "knows s (ce_mid c) p" using Cons.prems(2) C(3) by simp
    then obtain pl' where p: "plan_event prev types src evt p = Inr (pl', p)" "pd_disposition pl' = SkipIdempotent" "pd_seq pl' = seq"
      using absorbed_skipped [OF ce [unfolded Some], of s b p] Cons.prems(2) by auto
    have "pd_seq pl = seq \<and> pd_disposition pl \<noteq> Observational"
      using plan_event_some [OF pe ce [unfolded Some]] .
    then show ?thesis using p by (intro exI [of _ pl']) (auto simp: idle_def skips_def applies_def intro: disposition.exhaust)
  qed
  then obtain pl' where pl': "plan_event prev types src evt p = Inr (pl', p)" "idle (pd_disposition pl')" "pd_seq pl' = pd_seq pl"
      "skips (pd_disposition pl') \<longleftrightarrow> applies (pd_disposition pl) \<or> skips (pd_disposition pl)" by blast
  have "\<not> (applies (pd_disposition pl) \<and> skips (pd_disposition pl))" by (auto simp: applies_def skips_def)
  then show ?case using Cons.IH [OF pr] Cons.prems(2) pl' by (auto simp: pls count_planned_def)
qed

lemma fold_idle:
  assumes "list_all (\<lambda>pl. idle (pd_disposition pl)) pls" "length evs = length pls"
  shows "fold_res (apply_planned env) (zip evs pls) a = Inr (a\<lparr>ap_skipped := ap_skipped a + count_planned skips pls\<rparr>)"
  using assms
proof (induction evs arbitrary: pls a)
  case (Cons evt evs)
  obtain pl rest where pls: "pls = pl # rest" using Cons.prems(2) by (cases pls) auto
  have "apply_planned env (evt, pl) a = Inr (a\<lparr>ap_skipped := ap_skipped a + (if skips (pd_disposition pl) then 1 else 0)\<rparr>)"
    using Cons.prems(1) by (auto simp: pls idle_def apply_planned_def skips_def)
  then show ?case using Cons by (simp add: pls count_planned_def)
qed (simp add: count_planned_def)

lemma plan_events_length: "plan_events prev types src evs p = Inr (pls, p') \<Longrightarrow> length pls = length evs"
  by (induction evs arbitrary: prev p pls) (auto simp: rbind_eq_Inr)

lemma idle_range:
  assumes "plan_events 0 ts src evs (load_candidates s evs empty_plan) = Inr (pls, p)" "active_types types = Inr ts"
    and "list_all (\<lambda>pl. idle (pd_disposition pl)) pls"
  shows "apply_event_range now src types evs s = Inr (s, 0, count_planned skips pls)"
  using fold_idle [OF assms(3), of evs] plan_events_length [OF assms(1)] assms(1,2)
  by (simp add: apply_event_range_def Let_def start_apply_def flush_created_def)

text \<open>C13. Replaying a range of events twice is replaying it once. Take a target without records, tombstones and
  watermarks, a source with a history of its own, and a range whose created and updated events have text in the
  columns the planner compares, of which no event is deduplicated in the legacy way. Let every row the range writes
  have, read back, the fingerprint its event says: \<open>faithful\<close>, which the code does not enforce, since a payload
  without \<open>created_at\<close> is written with the time of the run. When the first run returns, so does a second one over
  the same range at any later time, and it leaves the store exactly as the first has left it: it applies nothing
  and skips every event that the first run has applied or skipped.
\<close>

theorem replay_twice:
  assumes "store_inv t" "st_memories t = []" "st_tombstones t = []" "st_watermarks t = []"
    and "list_all textual evs" "\<not> source_legacy src" "active_types types = Inr ts"
    and "plan_events 0 ts src evs (load_candidates t evs empty_plan) = Inr (pls, p)"
    and "list_all (\<lambda>x. faithful now x \<and> pd_disposition (snd x) \<noteq> SkipLegacyDeduped) (zip evs pls)"
    and "apply_event_range now src types evs t = Inr (s, n, k)"
  shows "apply_event_range now' src types evs s = Inr (s, 0, n + k)"
proof -
  let ?env = "\<lparr>ae_now = now, ae_source = src, ae_batch = None\<rparr>" and ?p = "load_candidates t evs empty_plan"
  let ?f = "fold (apply_one ?env) (zip evs pls) t"
  have ri: "rows_inv t" "typed_rows t" using assms(1,2) by (simp_all add: store_inv_def typed_rows_def)
  note L = load_candidates_agrees [OF empty_plan_agrees [OF ri] ri, where evs = evs] and K = loaded_candidates [OF ri, of evs]
  have empty: "get_memory m t = None" "get_tombstone m t = None" "get_replay_watermark m t = None" for m
    using assms(2-4) by (simp_all add: get_memory_def get_tombstone_def get_replay_watermark_def)
  have live: "pl_live ?p m = None" for m using K(1) empty(1) by (cases "pl_live ?p m") (auto simp: exact_live_def)
  have "pl_tombs ?p = Map.empty" "pl_marks ?p = Map.empty" using K(5,6) empty by (auto simp: fetched_def)
  then have "settled_run src ?p t t 0 {}" using L(1) K(4) live unfolding settled_run_def by simp
  moreover have "\<forall>evt \<in> set evs. covered ?p evt \<and> textual evt" using L(2) assms(5) by (simp add: list_all_iff)
  moreover have ne: "conversion_error (zip evs pls) = None"
    using planned_range [OF assms(1) ri(2) assms(5,7,8), of now] assms(10) by (cases "conversion_error (zip evs pls)") simp_all
  ultimately obtain b where b: "settled_run src p t ?f b ({} \<union> set evs)"
    using settled_events [OF assms(8), where env = ?env] assms(6,9) by force
  have s: "n = count_planned applies pls" "k = count_planned skips pls" "like s ?f" "store_inv s"
    using planned_range [OF assms(1) ri(2) assms(5,7,8), of now] assms(10) by (simp_all add: ne)
  have rs: "rows_inv s" "typed_rows s"
    using s(3,4) agrees_onD(2) [OF settled_runD(1) [OF b, unfolded agrees_def]] by (simp_all add: store_inv_def like_def typed_rows_def)
  have "absorbed src s b evt \<and> (\<forall>m \<in> set (event_ids evt). m \<noteq> [] \<longrightarrow> knows s m (load_candidates s evs empty_plan))"
    if "evt \<in> set evs" for evt
    using settled_runD(6) [OF b, of evt] absorbed_like [OF s(3), of src b evt] candidates_known [OF rs] that by auto
  then obtain pls' where pls': "plan_events 0 ts src evs (load_candidates s evs empty_plan) = Inr (pls', load_candidates s evs empty_plan)"
      "list_all (\<lambda>pl. idle (pd_disposition pl)) pls'"
      "count_planned skips pls' = count_planned applies pls + count_planned skips pls"
    using absorbed_plan [OF assms(8), of s b] by blast
  show ?thesis using s(1,2) idle_range [OF pls'(1) assms(7) pls'(2), of now'] pls'(3) by auto
qed

lemma replay_event_state:
  "case (normalize_record (strip_envelope_keys (inserted_row ''now'' (written replay_event))) ''swap'' [],
         normalize_record (strip_envelope_keys replay_payload) ''swap'' []) of
     (Inr a, Inr b) \<Rightarrow> fingerprint_state (nr_fields a) = fingerprint_state (nr_fields b)
   | _ \<Rightarrow> False"
  by code_simp

lemma replay_event_faithful:
  assumes "check_transition replay_checked = Inr (''h'', fp)"
  shows "safe_record_fingerprint (inserted_row ''now'' (written replay_event)) = fp"
proof -
  obtain a b where ab: "normalize_record (strip_envelope_keys (inserted_row ''now'' (written replay_event))) ''swap'' [] = Inr a"
      "normalize_record (strip_envelope_keys replay_payload) ''swap'' [] = Inr b"
      "fingerprint_state (nr_fields a) = fingerprint_state (nr_fields b)"
    using replay_event_state by (auto split: sum.splits)
  have "fingerprint_of_normalized (nr_fields b) = Inr fp"
    using assms ab(2) by (auto simp: check_transition_def replay_checked_def Let_def catch_record_def of_py_exn_def rbind_eq_Inr
        split: if_splits)
  then show ?thesis
    using ab(1,3) by (simp add: safe_record_fingerprint_def record_fingerprint_def fingerprint_of_normalized_def
        canonical_fingerprint_state_def of_py_def)
qed

lemma replay_twice_witness:
  "\<exists>s. apply_event_range ''now'' None JNull [replay_event] empty_store = Inr (s, 1, 0)
    \<and> apply_event_range ''later'' None JNull [replay_event] s = Inr (s, 0, 1)"
proof -
  let ?p = "load_candidates empty_store [replay_event] empty_plan"
  obtain fp where fp: "check_transition replay_checked = Inr (''h'', fp)" using replay_event_transition by blast
  have k: "pl_tombs ?p ''x'' = None" "pl_live ?p ''x'' = None" "pl_pairs ?p (''n'', ''h'') = None" by code_simp+
  have "plan_create replay_checked [] ''h'' fp ?p = Inr (ApplyCreate, create_new replay_checked ''h'' fp ?p)"
    by (rule fresh_create [of _ replay_payload, OF _ k]) (simp add: replay_checked_def)
  note pl = replay_event_plan [OF fp this]
  have e: "st_memories empty_store = []" "st_tombstones empty_store = []" "st_watermarks empty_store = []" "\<not> source_legacy None"
    and ty: "typed_rows empty_store" by code_simp+
  have "conversion_error [(replay_event, pl)] = None" for pl by code_simp
  with planned_range [OF empty_store_inv ty _ replay_event_facts(3) pl, of "''now''"]
  obtain s where s: "apply_event_range ''now'' None JNull [replay_event] empty_store = Inr (s, 1, 0)"
    by (auto simp: replay_event_facts count_planned_def outcome_def applies_def skips_def simp del: conversion_error.simps)
  have "apply_event_range ''later'' None JNull [replay_event] s = Inr (s, 0, 1 + 0)"
    by (rule replay_twice [OF empty_store_inv e(1-3) _ e(4) replay_event_facts(3) pl _ s])
      (use replay_event_faithful [OF fp] in \<open>simp_all add: replay_event_facts faithful_def outcome_def\<close>)
  with s show ?thesis by auto
qed

end
