(* ===== verification/SnapshotManifest.thy ===== *)
theory SnapshotManifest
  imports Cursor
begin

text \<open>
  The manifest of a snapshot (\<open>snapshot/format.py\<close>): its schema classes, the strict reader
  \<open>Manifest.from_dict\<close> of untrusted JSON and the writer \<open>to_dict\<close>. Fields the reader does not check
  stay JSON values.
\<close>

section \<open>Constants and errors\<close>

definition SNAPSHOT_FORMAT :: string where "SNAPSHOT_FORMAT = ''hotmem-snapshot-v2''"

definition SNAPSHOT_SCHEMA_VERSION :: int where "SNAPSHOT_SCHEMA_VERSION = 2"

definition MANIFEST_NAME :: string where "MANIFEST_NAME = ''manifest.json''"

definition SNAPSHOT_ID_VERSION :: int where "SNAPSHOT_ID_VERSION = 2"

definition LEGACY_SNAPSHOT_ID_VERSION :: int where "LEGACY_SNAPSHOT_ID_VERSION = 1"

definition SUPPORTED_SNAPSHOT_ID_ALGORITHMS :: "(int \<times> string) list" where
  "SUPPORTED_SNAPSHOT_ID_ALGORITHMS =
     [(LEGACY_SNAPSHOT_ID_VERSION, ''hotmem-snapshot-id-v1''), (SNAPSHOT_ID_VERSION, ''hotmem-snapshot-id-v2'')]"

definition ALGORITHM_TO_VERSION :: "(string \<times> int) list" where
  "ALGORITHM_TO_VERSION = map (\<lambda>(ver, alg). (alg, ver)) SUPPORTED_SNAPSHOT_ID_ALGORITHMS"

text \<open>\<open>SnapshotChecksumError\<close> with its reason and file; other exceptions are those that escape.\<close>

datatype snap_exn = SnapshotChecksum string string | SnapPy py_exn | SnapCursor cursor_exn

type_synonym 'a snap_res = "snap_exn + 'a"

abbreviation malformed_file :: "string \<Rightarrow> snap_exn" where
  "malformed_file f \<equiv> SnapshotChecksum ''malformed'' f"

section \<open>The classes\<close>

record file_entry =
  fe_size :: int
  fe_sha :: string

record file_reference =
  fr_memory :: string
  fr_uri :: string
  fr_offset :: int
  fr_length :: int
  fr_format :: json
  fr_checksum :: json
  fr_attachment :: json

record attachment_entry =
  at_name :: string
  at_uri :: string
  at_size :: int
  at_sha :: string

record manifest =
  mf_format :: string
  mf_schema :: int
  mf_snapshot_id :: string
  mf_id_version :: int
  mf_id_algorithm :: string
  mf_created_at :: string
  mf_hotmem_version :: string
  mf_memory_count :: int
  mf_file_count :: int
  mf_inline_count :: int
  mf_files :: "(string \<times> file_entry) list"
  mf_overall :: string
  mf_references :: "file_reference list"
  mf_attachments :: "attachment_entry list"
  mf_scope :: "dict option"
  mf_mount_id :: string
  mf_replica_id :: string
  mf_history_id :: string
  mf_state_fingerprint :: string
  mf_replay_cursor :: string

section \<open>Writing\<close>

definition entry_to_dict :: "file_entry \<Rightarrow> json" where
  "entry_to_dict e = JObj [(''size'', JInt (fe_size e)), (''sha256'', JStr (fe_sha e))]"

definition reference_to_dict :: "file_reference \<Rightarrow> json" where
  "reference_to_dict r = JObj
     [(''memory_id'', JStr (fr_memory r)), (''source_uri'', JStr (fr_uri r)), (''byte_offset'', JInt (fr_offset r)),
      (''byte_length'', JInt (fr_length r)), (''source_format'', fr_format r), (''source_checksum'', fr_checksum r),
      (''attachment'', fr_attachment r)]"

definition attachment_to_dict :: "attachment_entry \<Rightarrow> json" where
  "attachment_to_dict a = JObj
     [(''name'', JStr (at_name a)), (''source_uri'', JStr (at_uri a)), (''size'', JInt (at_size a)),
      (''sha256'', JStr (at_sha a))]"

definition if_set :: "string \<Rightarrow> string \<Rightarrow> dict" where
  "if_set k v = (if v = [] then [] else [(k, JStr v)])"

definition manifest_to_dict :: "manifest \<Rightarrow> dict" where
  "manifest_to_dict m =
     [(''format'', JStr (mf_format m)), (''schema_version'', JInt (mf_schema m)),
      (''snapshot_id'', JStr (mf_snapshot_id m)), (''created_at'', JStr (mf_created_at m)),
      (''hotmem_version'', JStr (mf_hotmem_version m)), (''memory_count'', JInt (mf_memory_count m)),
      (''file_backed_count'', JInt (mf_file_count m)), (''inline_count'', JInt (mf_inline_count m)),
      (''files'', JObj (map (\<lambda>(n, e). (n, entry_to_dict e)) (mf_files m))),
      (''overall_sha256'', JStr (mf_overall m)),
      (''file_backed_references'', JList (map reference_to_dict (mf_references m))),
      (''attachments'', JList (map attachment_to_dict (mf_attachments m)))]
     @ (if mf_id_version m = 0 then [] else [(''snapshot_id_version'', JInt (mf_id_version m))])
     @ if_set ''snapshot_id_algorithm'' (mf_id_algorithm m)
     @ (case mf_scope m of None \<Rightarrow> [] | Some d \<Rightarrow> [(''scope'', JObj d)])
     @ if_set ''mount_id'' (mf_mount_id m) @ if_set ''replica_id'' (mf_replica_id m)
     @ if_set ''history_id'' (mf_history_id m) @ if_set ''state_fingerprint'' (mf_state_fingerprint m)
     @ if_set ''replay_cursor'' (mf_replay_cursor m)"

section \<open>Reading\<close>

text \<open>\<open>int(v)\<close> under \<open>except (TypeError, ValueError)\<close>.\<close>

definition checked_int :: "json \<Rightarrow> string \<Rightarrow> int snap_res" where
  "checked_int v f = (case py_int v of
     Inr n \<Rightarrow> Inr n
   | Inl e \<Rightarrow> Inl (if e \<in> {TypeError, ValueError} then malformed_file f else SnapPy e))"

definition check_format :: "json \<Rightarrow> unit snap_res" where
  "check_format v = ensure (v = JNull \<or> py_str v = SNAPSHOT_FORMAT) (malformed_file MANIFEST_NAME)"

definition check_schema :: "json \<Rightarrow> int snap_res" where
  "check_schema v =
     (if v = JNull then Inr SNAPSHOT_SCHEMA_VERSION
      else if is_bool v then Inl (malformed_file MANIFEST_NAME)
      else rbind (checked_int v MANIFEST_NAME) (\<lambda>n.
        if n \<in> {1, 2} then Inr n else Inl (malformed_file MANIFEST_NAME)))"

definition read_entry :: "string \<times> json \<Rightarrow> (string \<times> file_entry) snap_res" where
  "read_entry = (\<lambda>(name, v). case v of
     JObj e \<Rightarrow>
       (if \<not> has_key e ''sha256'' \<or> \<not> has_key e ''size'' then Inl (malformed_file name)
        else rbind (checked_int (dget e ''size'') name) (\<lambda>n.
          if is_bool (dget e ''size'') \<or> n < 0 then Inl (malformed_file name)
          else Inr (name, \<lparr>fe_size = n, fe_sha = py_str (dget e ''sha256'')\<rparr>)))
   | _ \<Rightarrow> Inl (malformed_file name))"

definition read_files :: "json \<Rightarrow> (string \<times> file_entry) list snap_res" where
  "read_files v = (case v of
     JNull \<Rightarrow> Inr []
   | JObj d \<Rightarrow> traverse read_entry d
   | _ \<Rightarrow> Inl (malformed_file MANIFEST_NAME))"

text \<open>A field that must be a list when present.\<close>

definition opt_list :: "json \<Rightarrow> string \<Rightarrow> json list snap_res" where
  "opt_list v f = (case v of
     JNull \<Rightarrow> Inr []
   | JList xs \<Rightarrow> Inr xs
   | _ \<Rightarrow> Inl (malformed_file f))"

definition read_reference :: "json \<Rightarrow> file_reference snap_res" where
  "read_reference v = (case v of
     JObj r \<Rightarrow>
       (if \<not> has_key r ''memory_id'' \<or> \<not> has_key r ''source_uri'' then Inl (malformed_file ''file_backed_references'')
        else rbind (checked_int (por (dget r ''byte_offset'') (JInt 0)) ''file_backed_references'') (\<lambda>off.
          rbind (checked_int (por (dget r ''byte_length'') (JInt 0)) ''file_backed_references'') (\<lambda>len.
          if is_bool (dget r ''byte_offset'') \<or> is_bool (dget r ''byte_length'') \<or> off < 0 \<or> len < 0
            \<or> (\<not> truthy (dget r ''source_uri'') \<and> \<not> truthy (dget r ''attachment''))
          then Inl (malformed_file ''file_backed_references'')
          else Inr \<lparr>fr_memory = py_str (dget r ''memory_id''), fr_uri = py_str (dget r ''source_uri''), fr_offset = off,
                    fr_length = len, fr_format = dget r ''source_format'', fr_checksum = dget r ''source_checksum'',
                    fr_attachment = dget r ''attachment''\<rparr>)))
   | _ \<Rightarrow> Inl (malformed_file ''file_backed_references''))"

text \<open>The new name of the field, or the old one when it lists nothing.\<close>

definition read_references :: "dict \<Rightarrow> file_reference list snap_res" where
  "read_references d =
     rbind (opt_list (dget d ''file_backed_references'') ''file_backed_references'') (\<lambda>refs.
     rbind (if refs = [] then opt_list (dget d ''file_references'') ''file_references'' else Inr refs)
       (traverse read_reference))"

definition read_attachment :: "json \<Rightarrow> attachment_entry snap_res" where
  "read_attachment v = (case v of
     JObj a \<Rightarrow>
       (if \<not> truthy (dget a ''name'') then Inl (malformed_file ''attachments'')
        else rbind (checked_int (dget_default a ''size'' (JInt 0)) ''attachments'') (\<lambda>n.
          if is_bool (dget a ''size'') \<or> n < 0 then Inl (malformed_file ''attachments'')
          else Inr \<lparr>at_name = py_str (dget a ''name''), at_uri = py_str (dget_default a ''source_uri'' (JStr [])),
                    at_size = n, at_sha = py_str (dget_default a ''sha256'' (JStr []))\<rparr>))
   | _ \<Rightarrow> Inl (malformed_file ''attachments''))"

definition read_count :: "dict \<Rightarrow> string \<Rightarrow> int snap_res" where
  "read_count d k = checked_int (por (dget d k) (JInt 0)) MANIFEST_NAME"

definition TEXT_KEYS :: "string list" where
  "TEXT_KEYS = [''mount_id'', ''replica_id'', ''history_id'', ''state_fingerprint'', ''replay_cursor'']"

definition check_text :: "dict \<Rightarrow> string \<Rightarrow> unit snap_res" where
  "check_text d k = ensure (dget d k = JNull \<or> is_str (dget d k)) (malformed_file k)"

definition read_id_version :: "json \<Rightarrow> int snap_res" where
  "read_id_version v = (case v of
     JNull \<Rightarrow> Inr 0
   | JInt n \<Rightarrow> (if n \<in> set (map fst SUPPORTED_SNAPSHOT_ID_ALGORITHMS) then Inr n
                else Inl (malformed_file ''snapshot_id_version''))
   | _ \<Rightarrow> Inl (malformed_file ''snapshot_id_version''))"

text \<open>The version and the algorithm, each inferred from the other.\<close>

definition read_id_algorithm :: "json \<Rightarrow> int \<Rightarrow> (int \<times> string) snap_res" where
  "read_id_algorithm v version = (case v of
     JNull \<Rightarrow> Inr (version, case map_of SUPPORTED_SNAPSHOT_ID_ALGORITHMS version of None \<Rightarrow> [] | Some a \<Rightarrow> a)
   | JStr a \<Rightarrow> (case map_of ALGORITHM_TO_VERSION a of
       None \<Rightarrow> Inl (malformed_file ''snapshot_id_algorithm'')
     | Some inferred \<Rightarrow>
         (if version \<noteq> 0 \<and> version \<noteq> inferred then Inl (malformed_file ''snapshot_id_algorithm'')
          else Inr (inferred, a)))
   | _ \<Rightarrow> Inl (malformed_file ''snapshot_id_algorithm''))"

definition of_decode :: "'a cursor_res \<Rightarrow> 'a snap_res" where
  "of_decode m = (case m of
     Inr c \<Rightarrow> Inr c
   | Inl (CursorError r) \<Rightarrow> Inl (malformed_file ''replay_cursor'')
   | Inl e \<Rightarrow> Inl (SnapCursor e))"

definition check_cursor :: "dict \<Rightarrow> unit snap_res" where
  "check_cursor d =
     (let cursor = str_or_empty d ''replay_cursor''; mount = str_or_empty d ''mount_id'';
          replica = str_or_empty d ''replica_id''; history = str_or_empty d ''history_id'' in
      if cursor = [] then Inr ()
      else if mount = [] \<or> replica = [] \<or> history = [] then Inl (SnapshotChecksum ''missing_metadata'' ''replay_cursor'')
      else rbind (of_decode (decode_cursor (CursorValue (JStr cursor)))) (\<lambda>c.
        ensure (rc_mount_id c = mount \<and> rc_replica_id c = replica \<and> rc_history_id c = history)
          (SnapshotChecksum ''mismatch'' ''replay_cursor'')))"

definition manifest_of_dict :: "dict \<Rightarrow> manifest snap_res" where
  "manifest_of_dict d =
     rbind (check_format (dget d ''format'')) (\<lambda>_.
     rbind (check_schema (dget d ''schema_version'')) (\<lambda>schema.
     rbind (read_files (dget d ''files'')) (\<lambda>files.
     rbind (read_references d) (\<lambda>refs.
     rbind (rbind (opt_list (dget d ''attachments'') ''attachments'') (traverse read_attachment)) (\<lambda>atts.
     rbind (read_count d ''memory_count'') (\<lambda>memories.
     rbind (read_count d ''file_backed_count'') (\<lambda>backed.
     rbind (read_count d ''inline_count'') (\<lambda>inlined.
     rbind (traverse (check_text d) TEXT_KEYS) (\<lambda>_.
     rbind (read_id_version (dget d ''snapshot_id_version'')) (\<lambda>version.
     rbind (read_id_algorithm (dget d ''snapshot_id_algorithm'') version) (\<lambda>(version, algorithm).
     rbind (check_cursor d) (\<lambda>_.
     Inr \<lparr>mf_format = (if truthy (dget d ''format'') then py_str (dget d ''format'') else SNAPSHOT_FORMAT),
          mf_schema = schema, mf_snapshot_id = str_or_empty d ''snapshot_id'', mf_id_version = version,
          mf_id_algorithm = algorithm, mf_created_at = str_or_empty d ''created_at'',
          mf_hotmem_version = str_or_empty d ''hotmem_version'', mf_memory_count = memories, mf_file_count = backed,
          mf_inline_count = inlined, mf_files = files, mf_overall = str_or_empty d ''overall_sha256'',
          mf_references = refs, mf_attachments = atts,
          mf_scope = (case dget d ''scope'' of JObj s \<Rightarrow> Some s | _ \<Rightarrow> None),
          mf_mount_id = str_or_empty d ''mount_id'', mf_replica_id = str_or_empty d ''replica_id'',
          mf_history_id = str_or_empty d ''history_id'', mf_state_fingerprint = str_or_empty d ''state_fingerprint'',
          mf_replay_cursor = str_or_empty d ''replay_cursor''\<rparr>))))))))))))"

definition manifest_from_dict :: "json \<Rightarrow> manifest snap_res" where
  "manifest_from_dict v = (case v of
     JObj d \<Rightarrow> manifest_of_dict d
   | _ \<Rightarrow> Inl (malformed_file MANIFEST_NAME))"

section \<open>Accepted manifests\<close>

lemma decoded_wf:
  assumes "decode_cursor (CursorValue v) = Inr c"
  shows "wf_cursor c"
proof -
  from assms obtain s where s: "v = JStr s" "decode_token s = Inr c"
    by (cases v) (auto simp: decode_cursor_def split: if_splits)
  then have "decode_parts (split_on (CHR ''.'') (strip s)) = Inr c"
    by (auto simp: decode_token_def Let_def split: if_splits)
  from decode_parts_Inr [OF this] show ?thesis by blast
qed

definition entry_ok :: "string \<times> file_entry \<Rightarrow> bool" where
  "entry_ok = (\<lambda>(n, e). 0 \<le> fe_size e)"

definition reference_ok :: "file_reference \<Rightarrow> bool" where
  "reference_ok r \<longleftrightarrow> 0 \<le> fr_offset r \<and> 0 \<le> fr_length r \<and> (fr_uri r \<noteq> [] \<or> truthy (fr_attachment r))"

definition attachment_ok :: "attachment_entry \<Rightarrow> bool" where
  "attachment_ok a \<longleftrightarrow> at_name a \<noteq> [] \<and> 0 \<le> at_size a"

definition algorithm_ok :: "int \<Rightarrow> string \<Rightarrow> bool" where
  "algorithm_ok v a \<longleftrightarrow> (v = 0 \<and> a = []) \<or> map_of SUPPORTED_SNAPSHOT_ID_ALGORITHMS v = Some a"

definition cursor_ok :: "manifest \<Rightarrow> bool" where
  "cursor_ok m \<longleftrightarrow> mf_replay_cursor m = [] \<or>
     mf_mount_id m \<noteq> [] \<and> mf_replica_id m \<noteq> [] \<and> mf_history_id m \<noteq> [] \<and>
     (\<exists>c. decode_cursor (CursorValue (JStr (mf_replay_cursor m))) = Inr c
        \<and> rc_mount_id c = mf_mount_id m \<and> rc_replica_id c = mf_replica_id m \<and> rc_history_id c = mf_history_id m)"

lemma py_str_truthy: "truthy v \<Longrightarrow> py_str v \<noteq> []"
  by (cases v) (auto simp: py_str_def py_repr_str_def int_str_def nat_str_def Let_def float_repr_def fdec_repr_def
      split: pyfloat.splits if_splits)

lemma algorithms: "map_of SUPPORTED_SNAPSHOT_ID_ALGORITHMS v = Some a \<longleftrightarrow>
    (v = 1 \<and> a = ''hotmem-snapshot-id-v1'') \<or> (v = 2 \<and> a = ''hotmem-snapshot-id-v2'')"
  "map_of ALGORITHM_TO_VERSION a = Some v \<longleftrightarrow> map_of SUPPORTED_SNAPSHOT_ID_ALGORITHMS v = Some a"
  by (auto simp: SUPPORTED_SNAPSHOT_ID_ALGORITHMS_def ALGORITHM_TO_VERSION_def LEGACY_SNAPSHOT_ID_VERSION_def
      SNAPSHOT_ID_VERSION_def)

lemma read_entry_ok: "read_entry x = Inr e \<Longrightarrow> entry_ok e"
  by (cases x; cases "snd x") (auto simp: read_entry_def entry_ok_def rbind_eq_Inr split: if_splits)

lemma read_reference_ok:
  assumes "read_reference v = Inr r"
  shows "reference_ok r"
proof -
  obtain d where d: "v = JObj d" using assms by (cases v) (auto simp: read_reference_def)
  show ?thesis
    using assms py_str_truthy [of "dget d ''source_uri''"]
    by (auto simp: d read_reference_def reference_ok_def rbind_eq_Inr split: if_splits)
qed

lemma read_attachment_ok: "read_attachment v = Inr a \<Longrightarrow> attachment_ok a"
  by (auto simp: read_attachment_def attachment_ok_def rbind_eq_Inr py_str_truthy split: json.splits if_splits)

lemma traverse_all:
  assumes "traverse f xs = Inr ys" "\<And>x y. f x = Inr y \<Longrightarrow> P y"
  shows "list_all P ys"
  using assms by (auto simp: traverse_Inr_iff list_all_iff dest: list_all2_set2)

lemma read_files_ok: "read_files v = Inr fs \<Longrightarrow> list_all entry_ok fs"
  by (auto simp: read_files_def split: json.splits intro: traverse_all [OF _ read_entry_ok])

lemma read_references_ok: "read_references d = Inr rs \<Longrightarrow> list_all reference_ok rs"
  by (auto simp: read_references_def rbind_eq_Inr intro: traverse_all [OF _ read_reference_ok])

lemma read_algorithm_ok:
  assumes "read_id_version v = Inr n" "read_id_algorithm w n = Inr (k, a)"
  shows "algorithm_ok k a"
proof -
  have z: "map_of SUPPORTED_SNAPSHOT_ID_ALGORITHMS 0 = None"
    by (simp add: SUPPORTED_SNAPSHOT_ID_ALGORITHMS_def LEGACY_SNAPSHOT_ID_VERSION_def SNAPSHOT_ID_VERSION_def)
  have n: "n = 0 \<or> (\<exists>b. map_of SUPPORTED_SNAPSHOT_ID_ALGORITHMS n = Some b)"
    using assms(1) by (auto simp: read_id_version_def SUPPORTED_SNAPSHOT_ID_ALGORITHMS_def split: json.splits if_splits)
  show ?thesis
  proof (cases w)
    case JNull
    then show ?thesis using assms(2) n z by (auto simp: read_id_algorithm_def algorithm_ok_def)
  qed (use assms(2) n in \<open>auto simp: read_id_algorithm_def algorithm_ok_def algorithms split: option.splits if_splits\<close>)
qed

lemma check_cursor_iff:
  "check_cursor d = Inr () \<longleftrightarrow> str_or_empty d ''replay_cursor'' = [] \<or>
     str_or_empty d ''mount_id'' \<noteq> [] \<and> str_or_empty d ''replica_id'' \<noteq> [] \<and> str_or_empty d ''history_id'' \<noteq> [] \<and>
     (\<exists>c. decode_cursor (CursorValue (JStr (str_or_empty d ''replay_cursor''))) = Inr c
        \<and> rc_mount_id c = str_or_empty d ''mount_id'' \<and> rc_replica_id c = str_or_empty d ''replica_id''
        \<and> rc_history_id c = str_or_empty d ''history_id'')"
  by (auto simp: check_cursor_def Let_def rbind_eq_Inr of_decode_def split: sum.splits cursor_exn.splits)

definition manifest_ok :: "manifest \<Rightarrow> bool" where
  "manifest_ok m \<longleftrightarrow> mf_format m = SNAPSHOT_FORMAT \<and> mf_schema m \<in> {1, 2} \<and> list_all entry_ok (mf_files m)
     \<and> list_all reference_ok (mf_references m) \<and> list_all attachment_ok (mf_attachments m)
     \<and> algorithm_ok (mf_id_version m) (mf_id_algorithm m) \<and> cursor_ok m"

lemma manifest_accepted:
  assumes "manifest_of_dict d = Inr m"
  shows "manifest_ok m"
proof -
  have a: "algorithm_ok (mf_id_version m) (mf_id_algorithm m)" "list_all attachment_ok (mf_attachments m)"
    using assms by (auto simp: manifest_of_dict_def rbind_eq_Inr intro: read_algorithm_ok traverse_all [OF _ read_attachment_ok])
  have "check_cursor d = Inr ()" "mf_replay_cursor m = str_or_empty d ''replay_cursor''"
    "mf_mount_id m = str_or_empty d ''mount_id''" "mf_replica_id m = str_or_empty d ''replica_id''"
    "mf_history_id m = str_or_empty d ''history_id''"
    using assms by (auto simp: manifest_of_dict_def rbind_eq_Inr)
  then have "cursor_ok m" by (simp add: cursor_ok_def check_cursor_iff)
  moreover have "mf_format m = SNAPSHOT_FORMAT" "mf_schema m \<in> {1, 2}"
    using assms by (auto simp: manifest_of_dict_def rbind_eq_Inr check_format_def check_schema_def SNAPSHOT_SCHEMA_VERSION_def
        split: if_splits)
  moreover have "list_all entry_ok (mf_files m)" "list_all reference_ok (mf_references m)"
    using assms by (auto simp: manifest_of_dict_def rbind_eq_Inr intro: read_files_ok read_references_ok)
  ultimately show ?thesis using a by (simp add: manifest_ok_def)
qed

text \<open>C26. The bounds of an accepted manifest, whatever JSON value it was read from: the schema version is 1 or 2,
  every file size, byte offset, byte length and attachment size is non-negative, every reference names its bytes,
  and the algorithm of the snapshot id is the one of its version.
\<close>

theorem manifest_bounds:
  assumes "manifest_from_dict v = Inr m"
  shows "mf_schema m \<in> {1, 2} \<and> list_all (\<lambda>(name, e). 0 \<le> fe_size e) (mf_files m)
    \<and> list_all (\<lambda>r. 0 \<le> fr_offset r \<and> 0 \<le> fr_length r \<and> (fr_uri r \<noteq> [] \<or> truthy (fr_attachment r))) (mf_references m)
    \<and> list_all (\<lambda>a. at_name a \<noteq> [] \<and> 0 \<le> at_size a) (mf_attachments m)
    \<and> (mf_id_version m, mf_id_algorithm m) \<in> {(0, []), (1, ''hotmem-snapshot-id-v1''), (2, ''hotmem-snapshot-id-v2'')}"
proof -
  obtain d where "manifest_of_dict d = Inr m" using assms by (cases v) (auto simp: manifest_from_dict_def)
  from manifest_accepted [OF this] have ok: "manifest_ok m" .
  have e: "entry_ok = (\<lambda>(n, e). 0 \<le> fe_size e)"
    "reference_ok = (\<lambda>r. 0 \<le> fr_offset r \<and> 0 \<le> fr_length r \<and> (fr_uri r \<noteq> [] \<or> truthy (fr_attachment r)))"
    "attachment_ok = (\<lambda>a. at_name a \<noteq> [] \<and> 0 \<le> at_size a)"
    by (simp_all add: fun_eq_iff entry_ok_def reference_ok_def attachment_ok_def)
  show ?thesis using ok by (auto simp: manifest_ok_def algorithm_ok_def algorithms e)
qed

section \<open>Reading what has been written\<close>

lemma checked_int_JInt [simp]: "checked_int (JInt n) f = Inr n" "checked_int (por (JInt n) (JInt 0)) f = Inr n"
  by (auto simp: checked_int_def py_int_def por_def)

lemma read_entry_written: "entry_ok x \<Longrightarrow> read_entry ((\<lambda>(n, e). (n, entry_to_dict e)) x) = Inr x"
  by (auto simp: read_entry_def entry_to_dict_def entry_ok_def has_key_def dget_def py_str_def split: prod.splits)

lemma read_reference_written: "reference_ok r \<Longrightarrow> read_reference (reference_to_dict r) = Inr r"
  by (auto simp: read_reference_def reference_to_dict_def reference_ok_def has_key_def dget_def py_str_def)

lemma read_attachment_written: "attachment_ok a \<Longrightarrow> read_attachment (attachment_to_dict a) = Inr a"
  by (auto simp: read_attachment_def attachment_to_dict_def attachment_ok_def dget_def dget_default_def py_str_def)

lemma read_files_written: "list_all entry_ok fs \<Longrightarrow> read_files (JObj (map (\<lambda>(n, e). (n, entry_to_dict e)) fs)) = Inr fs"
  unfolding read_files_def by (induction fs) (simp_all add: read_entry_written)

lemma traverse_written:
  "list_all reference_ok rs \<Longrightarrow> traverse read_reference (map reference_to_dict rs) = Inr rs"
  "list_all attachment_ok xs \<Longrightarrow> traverse read_attachment (map attachment_to_dict xs) = Inr xs"
  by (induction rs, simp_all add: read_reference_written) (induction xs, simp_all add: read_attachment_written)

lemma dget_if_set: "dget (if_set k' v @ d) k = (if k' = k \<and> v \<noteq> [] then JStr v else dget d k)"
  by (simp add: if_set_def dget_def)

lemma dget_if_set_last: "dget (if_set k' v) k = (if k' = k \<and> v \<noteq> [] then JStr v else JNull)"
  by (simp add: if_set_def dget_def)

lemma dget_opt_scope:
  "k \<noteq> ''scope'' \<Longrightarrow> dget ((case sc of None \<Rightarrow> [] | Some d \<Rightarrow> [(''scope'', JObj d)]) @ e) k = dget e k"
  by (simp add: dget_def split: option.splits)

lemma dget_opt_version:
  "k \<noteq> ''snapshot_id_version'' \<Longrightarrow> dget ((if v = 0 then [] else [(''snapshot_id_version'', JInt v)]) @ e) k = dget e k"
  by (simp add: dget_def)

lemmas written_simps = manifest_to_dict_def dget_Cons dget_if_set dget_if_set_last dget_opt_scope dget_opt_version

lemma written_dget:
  "dget (manifest_to_dict m) ''format'' = JStr (mf_format m)"
  "dget (manifest_to_dict m) ''schema_version'' = JInt (mf_schema m)"
  "dget (manifest_to_dict m) ''snapshot_id'' = JStr (mf_snapshot_id m)"
  "dget (manifest_to_dict m) ''created_at'' = JStr (mf_created_at m)"
  "dget (manifest_to_dict m) ''hotmem_version'' = JStr (mf_hotmem_version m)"
  "dget (manifest_to_dict m) ''memory_count'' = JInt (mf_memory_count m)"
  "dget (manifest_to_dict m) ''file_backed_count'' = JInt (mf_file_count m)"
  "dget (manifest_to_dict m) ''inline_count'' = JInt (mf_inline_count m)"
  "dget (manifest_to_dict m) ''files'' = JObj (map (\<lambda>(n, e). (n, entry_to_dict e)) (mf_files m))"
  "dget (manifest_to_dict m) ''overall_sha256'' = JStr (mf_overall m)"
  "dget (manifest_to_dict m) ''file_backed_references'' = JList (map reference_to_dict (mf_references m))"
  "dget (manifest_to_dict m) ''file_references'' = JNull"
  "dget (manifest_to_dict m) ''attachments'' = JList (map attachment_to_dict (mf_attachments m))"
  by (simp_all add: written_simps)

lemma written_dget_optional:
  "dget (manifest_to_dict m) ''snapshot_id_version'' = (if mf_id_version m = 0 then JNull else JInt (mf_id_version m))"
  "dget (manifest_to_dict m) ''snapshot_id_algorithm'' = (if mf_id_algorithm m = [] then JNull else JStr (mf_id_algorithm m))"
  "dget (manifest_to_dict m) ''scope'' = (case mf_scope m of None \<Rightarrow> JNull | Some d \<Rightarrow> JObj d)"
  "dget (manifest_to_dict m) ''mount_id'' = (if mf_mount_id m = [] then JNull else JStr (mf_mount_id m))"
  "dget (manifest_to_dict m) ''replica_id'' = (if mf_replica_id m = [] then JNull else JStr (mf_replica_id m))"
  "dget (manifest_to_dict m) ''history_id'' = (if mf_history_id m = [] then JNull else JStr (mf_history_id m))"
  "dget (manifest_to_dict m) ''state_fingerprint'' = (if mf_state_fingerprint m = [] then JNull else JStr (mf_state_fingerprint m))"
  "dget (manifest_to_dict m) ''replay_cursor'' = (if mf_replay_cursor m = [] then JNull else JStr (mf_replay_cursor m))"
  by (simp_all add: written_simps) (cases "mf_scope m"; simp add: written_simps dget_def if_set_def)+

lemma written_text: "check_text (manifest_to_dict m) k = Inr ()" if "k \<in> set TEXT_KEYS"
  using that by (auto simp: TEXT_KEYS_def check_text_def written_dget_optional split: if_splits)

lemma read_id_written:
  assumes "algorithm_ok v a"
  shows "rbind (read_id_version (if v = 0 then JNull else JInt v)) (read_id_algorithm (if a = [] then JNull else JStr a)) = Inr (v, a)"
proof -
  have "(v, a) \<in> {(0, []), (1, ''hotmem-snapshot-id-v1''), (2, ''hotmem-snapshot-id-v2'')}"
    using assms by (auto simp: algorithm_ok_def algorithms)
  then show ?thesis
    by (elim insertE emptyE) (simp_all add: read_id_version_def read_id_algorithm_def SUPPORTED_SNAPSHOT_ID_ALGORITHMS_def
        ALGORITHM_TO_VERSION_def LEGACY_SNAPSHOT_ID_VERSION_def SNAPSHOT_ID_VERSION_def)
qed

lemma str_or_empty_written:
  "dget d k = (if v = [] then JNull else JStr v) \<Longrightarrow> str_or_empty d k = v"
  by (simp add: str_or_empty_def py_str_def split: if_splits)

lemma written_manifest:
  assumes "manifest_ok m"
  shows "manifest_of_dict (manifest_to_dict m) = Inr m"
proof -
  let ?d = "manifest_to_dict m"
  note O = assms [unfolded manifest_ok_def]
  have schema: "check_schema (JInt (mf_schema m)) = Inr (mf_schema m)" using O by (auto simp: check_schema_def)
  have files: "read_files (dget ?d ''files'') = Inr (mf_files m)"
    using O by (simp add: written_dget read_files_written)
  have refs: "read_references ?d = Inr (mf_references m)"
    using O traverse_written(1) [of "mf_references m"]
    by (cases "mf_references m") (simp_all add: read_references_def written_dget opt_list_def)
  have atts: "rbind (opt_list (dget ?d ''attachments'') ''attachments'') (traverse read_attachment) = Inr (mf_attachments m)"
    using O by (simp add: written_dget opt_list_def traverse_written(2))
  have "\<exists>us. traverse (check_text ?d) TEXT_KEYS = Inr us"
    unfolding traverse_unit_iff using written_text by blast
  then obtain us where tk: "traverse (check_text ?d) TEXT_KEYS = Inr us" ..
  have str: "str_or_empty ?d ''mount_id'' = mf_mount_id m" "str_or_empty ?d ''replica_id'' = mf_replica_id m"
    "str_or_empty ?d ''history_id'' = mf_history_id m" "str_or_empty ?d ''state_fingerprint'' = mf_state_fingerprint m"
    "str_or_empty ?d ''replay_cursor'' = mf_replay_cursor m"
    by (rule str_or_empty_written; simp add: written_dget_optional)+
  have str2: "str_or_empty ?d ''snapshot_id'' = mf_snapshot_id m" "str_or_empty ?d ''created_at'' = mf_created_at m"
    "str_or_empty ?d ''hotmem_version'' = mf_hotmem_version m" "str_or_empty ?d ''overall_sha256'' = mf_overall m"
    by (simp_all add: str_or_empty_def py_str_def written_dget)
  have cursor: "check_cursor ?d = Inr ()" using O by (simp add: check_cursor_iff str cursor_ok_def)
  obtain version where v: "read_id_version (dget ?d ''snapshot_id_version'') = Inr version"
      "read_id_algorithm (dget ?d ''snapshot_id_algorithm'') version = Inr (mf_id_version m, mf_id_algorithm m)"
    using read_id_written [of "mf_id_version m" "mf_id_algorithm m"] O
    by (auto simp: written_dget_optional rbind_eq_Inr)
  have f: "check_format (JStr (mf_format m)) = Inr ()" "mf_format m \<noteq> []" "py_str (JStr (mf_format m)) = mf_format m"
    using O by (simp_all add: check_format_def py_str_def SNAPSHOT_FORMAT_def)
  have "(case dget ?d ''scope'' of JObj s \<Rightarrow> Some s | _ \<Rightarrow> None) = mf_scope m"
    by (simp add: written_dget_optional split: option.splits)
  then show ?thesis
    unfolding manifest_of_dict_def
    by (simp add: schema files refs atts tk cursor v str str2 f written_dget(1,2,6-8) read_count_def)
qed

text \<open>C27. A manifest that loads survives being saved: whatever JSON value a manifest was read from, with legacy field
  names or loosely typed numbers, the dictionary written for it is accepted and reads back as the same manifest.
\<close>

theorem manifest_roundtrip:
  assumes "manifest_from_dict v = Inr m"
  shows "manifest_from_dict (JObj (manifest_to_dict m)) = Inr m"
proof -
  obtain d where "manifest_of_dict d = Inr m" using assms by (cases v) (auto simp: manifest_from_dict_def)
  from written_manifest [OF manifest_accepted [OF this]] show ?thesis by (simp add: manifest_from_dict_def)
qed

text \<open>A manifest never carries a foreign cursor: one that loads with a replay cursor carries the ids of a mount, a
  replica and a history, and the cursor is a well-formed token issued for exactly these.
\<close>

theorem manifest_cursor_bound:
  assumes "manifest_from_dict v = Inr m" "mf_replay_cursor m \<noteq> []"
  shows "\<exists>c. decode_cursor (CursorValue (JStr (mf_replay_cursor m))) = Inr c \<and> wf_cursor c
    \<and> rc_mount_id c = mf_mount_id m \<and> rc_replica_id c = mf_replica_id m \<and> rc_history_id c = mf_history_id m
    \<and> mf_mount_id m \<noteq> []"
proof -
  obtain d where "manifest_of_dict d = Inr m" using assms(1) by (cases v) (auto simp: manifest_from_dict_def)
  then have "cursor_ok m" using manifest_accepted by (simp add: manifest_ok_def)
  then obtain c where c: "decode_cursor (CursorValue (JStr (mf_replay_cursor m))) = Inr c"
      "rc_mount_id c = mf_mount_id m" "rc_replica_id c = mf_replica_id m" "rc_history_id c = mf_history_id m" "mf_mount_id m \<noteq> []"
    using assms(2) by (auto simp: cursor_ok_def)
  then show ?thesis using decoded_wf [OF c(1)] by blast
qed

text \<open>A number that JSON writes as \<open>Infinity\<close> is not reported as malformed: \<open>int()\<close> raises
  \<open>OverflowError\<close>, which the reader does not catch.
\<close>

lemma infinite_schema_escapes:
  "dget d ''format'' = JNull \<Longrightarrow> dget d ''schema_version'' = JFloat (FInf b)
     \<Longrightarrow> manifest_from_dict (JObj d) = Inl (SnapPy OverflowError)"
  by (simp add: manifest_from_dict_def manifest_of_dict_def check_format_def check_schema_def checked_int_def py_int_def)

section \<open>An example\<close>

definition example_manifest :: json where
  "example_manifest = JObj [(''schema_version'', JStr ''2''), (''memory_count'', JInt 1),
     (''files'', JObj [(''memories.jsonl'', JObj [(''size'', JInt 7), (''sha256'', JStr ''ab'')])]),
     (''file_references'', JList [JObj [(''memory_id'', JInt 3), (''source_uri'', JStr ''a.md''), (''byte_length'', JStr ''4'')]]),
     (''attachments'', JList [JObj [(''name'', JStr ''x'')]]), (''snapshot_id_version'', JInt 2)]"

lemma manifest_roundtrip_witness:
  "\<exists>m. manifest_from_dict example_manifest = Inr m \<and> manifest_from_dict (JObj (manifest_to_dict m)) = Inr m"
proof -
  have "\<not> isl (manifest_from_dict example_manifest)" by code_simp
  then obtain m where m: "manifest_from_dict example_manifest = Inr m" by (cases "manifest_from_dict example_manifest") auto
  from m manifest_roundtrip [OF m] show ?thesis by blast
qed

lemma manifest_bounds_witness:
  "\<exists>m. manifest_from_dict example_manifest = Inr m \<and> mf_schema m \<in> {1, 2}"
proof -
  have "\<not> isl (manifest_from_dict example_manifest)" by code_simp
  then obtain m where m: "manifest_from_dict example_manifest = Inr m" by (cases "manifest_from_dict example_manifest") auto
  from m manifest_bounds [OF m] show ?thesis by blast
qed

lemma manifest_cursor_bound_witness:
  "\<exists>v m. manifest_from_dict v = Inr m \<and> mf_replay_cursor m = encode_cursor example_cursor
    \<and> rc_mount_id example_cursor = mf_mount_id m"
proof -
  let ?m = "\<lparr>mf_format = SNAPSHOT_FORMAT, mf_schema = 2, mf_snapshot_id = [], mf_id_version = 0, mf_id_algorithm = [],
     mf_created_at = [], mf_hotmem_version = [], mf_memory_count = 0, mf_file_count = 0, mf_inline_count = 0, mf_files = [],
     mf_overall = [], mf_references = [], mf_attachments = [], mf_scope = None, mf_mount_id = rc_mount_id example_cursor,
     mf_replica_id = rc_replica_id example_cursor, mf_history_id = rc_history_id example_cursor, mf_state_fingerprint = [],
     mf_replay_cursor = encode_cursor example_cursor\<rparr>"
  have d: "decode_cursor (CursorValue (JStr (encode_cursor example_cursor))) = Inr example_cursor"
    using token_roundtrip [OF make_cursor_wf [OF example_cursor_facts(2)] example_cursor_facts(1) example_token_small]
    by (simp add: decode_cursor_def)
  then have ne: "encode_cursor example_cursor \<noteq> []" by (auto simp: decode_cursor_def encode_cursor_def Let_def CURSOR_PREFIX_def)
  have ids: "rc_mount_id example_cursor \<noteq> []" "rc_replica_id example_cursor \<noteq> []" "rc_history_id example_cursor \<noteq> []"
    by code_simp+
  have "cursor_ok ?m" using d ids by (simp add: cursor_ok_def)
  then have "manifest_ok ?m" by (simp add: manifest_ok_def algorithm_ok_def)
  from written_manifest [OF this] have m: "manifest_from_dict (JObj (manifest_to_dict ?m)) = Inr ?m"
    by (simp add: manifest_from_dict_def)
  then show ?thesis using manifest_cursor_bound [OF m] ne d by (intro exI [of _ "JObj (manifest_to_dict ?m)"] exI [of _ ?m]) auto
qed

end
