(* ===== verification/SnapshotId.thy ===== *)
theory SnapshotId
  imports SnapshotManifest "HOL-Library.Product_Lexorder"
begin

text \<open>
  The semantic identity of a snapshot (\<open>snapshot/format.py\<close>): a record is projected to its portable
  columns, the projections are digested, and the sorted digests, file references and scope are digested
  again. \<open>unicodedata.normalize("NFC", _)\<close> rests on the tables of the Unicode database and is the argument
  \<open>nfc\<close> of the definitions; \<open>fid\<close> is the id \<open>normalize_record\<close> draws for a record without one. A
  normalised record is one of \<open>normalize_record\<close>: its byte range holds integers or nulls.
\<close>

type_synonym normalizer = "string \<Rightarrow> string"

section \<open>The checksum of the manifest\<close>

text \<open>\<open>per_file_hashes\<close> is a dict: the digests of the listed files, in the order of their names.\<close>

definition compute_overall :: "(string \<times> string) list \<Rightarrow> string" where
  "compute_overall hashes =
     sha256_hex (concat (map (\<lambda>n. case map_of hashes n of Some h \<Rightarrow> h | None \<Rightarrow> []) (sort (map fst hashes))))"

lemma compute_overall_order:
  assumes "map_of xs = map_of ys" "mset (map fst xs) = mset (map fst ys)"
  shows "compute_overall xs = compute_overall ys"
proof -
  have "sort (map fst xs) = sort (map fst ys)"
    by (rule properties_for_sort) (simp_all only: mset_sort assms(2) sorted_sort)
  then show ?thesis by (simp only: compute_overall_def assms(1))
qed

section \<open>Values\<close>

fun canonicalize_json :: "normalizer \<Rightarrow> json \<Rightarrow> json" where
  "canonicalize_json nfc (JFloat f) = JFloat (if \<not> is_finite f \<or> feq f (FDec 0 0) then FDec 0 0 else f)"
| "canonicalize_json nfc (JStr s) = JStr (nfc s)"
| "canonicalize_json nfc (JList xs) = JList (map (canonicalize_json nfc) xs)"
| "canonicalize_json nfc (JObj d) = JObj (dict_update [] (map (\<lambda>(k, v). (nfc k, canonicalize_json nfc v)) d))"
| "canonicalize_json nfc v = v"

text \<open>\<open>_normalize_record_safe\<close>: a malformed annotation envelope is put aside, and back in afterwards.\<close>

definition safe_metadata :: "dict \<Rightarrow> dict" where
  "safe_metadata raw =
     (case (if dget raw ''metadata'' = JNull then dget raw ''metadata_json'' else dget raw ''metadata'') of
        JStr s \<Rightarrow> (case loads s of Some (JObj d) \<Rightarrow> d | _ \<Rightarrow> [])
      | JObj d \<Rightarrow> d
      | _ \<Rightarrow> [])"

definition strip_annotations :: "dict \<Rightarrow> dict" where
  "strip_annotations raw =
     AList.delete ''metadata_json'' (AList.update ''metadata'' (JObj (AList.delete ''annotations'' (safe_metadata raw))) raw)"

definition restore_annotations :: "json \<Rightarrow> dict \<Rightarrow> dict" where
  "restore_annotations saved n =
     (if saved = JNull then n
      else AList.update ''metadata'' (JObj (AList.update ''annotations'' saved (dict_of (por (dget n ''metadata'') (JObj []))))) n)"

definition normalize_record_safe :: "dict \<Rightarrow> string \<Rightarrow> string \<Rightarrow> dict rec_res" where
  "normalize_record_safe raw src fid = (case normalize_record raw src fid of
     Inl (AnnotationExn (AnnotationValidationError x y)) \<Rightarrow>
       rbind (normalize_record (strip_annotations raw) src fid) (\<lambda>n.
         Inr (restore_annotations (dget (safe_metadata raw) ''annotations'') (nr_fields n)))
   | Inl e \<Rightarrow> Inl e
   | Inr n \<Rightarrow> Inr (nr_fields n))"

section \<open>The projection of a record\<close>

text \<open>\<open>_nfc(str(v or "").strip())\<close>\<close>

definition clean_text :: "normalizer \<Rightarrow> json \<Rightarrow> string" where
  "clean_text nfc v = nfc (strip (if truthy v then py_str v else []))"

text \<open>The text of a field that is present, and \<open>int(v)\<close> with a default for what is not a number.\<close>

definition given_text :: "json \<Rightarrow> string" where
  "given_text v = (if v = JNull then [] else py_str v)"

definition int_or_default :: "json \<Rightarrow> int \<Rightarrow> py_exn + int" where
  "int_or_default v dflt = (case py_int v of
     Inr n \<Rightarrow> Inr n
   | Inl e \<Rightarrow> if e \<in> {TypeError, ValueError} then Inr dflt else Inl e)"

definition offset_of :: "json \<Rightarrow> int" where
  "offset_of v = (case v of JInt n \<Rightarrow> n | _ \<Rightarrow> 0)"

definition default_hash :: "bool \<Rightarrow> string \<Rightarrow> string \<Rightarrow> string \<Rightarrow> int \<Rightarrow> int \<Rightarrow> py_exn + string" where
  "default_hash is_file ident body uri off len =
     (if is_file then (if ident = [] \<and> uri = [] then Inr [] else compute_file_reference_hash ident uri off len None)
      else Inr (if ident = [] \<and> body = [] then [] else compute_content_hash ident body))"

definition optional_uri :: "string \<Rightarrow> py_exn + string" where
  "optional_uri s = (if s = [] then Inr [] else normalize_source_uri s None)"

text \<open>An explicit content hash stands unless it is the hash the raw fields would have had anyway.\<close>

definition projected_hash :: "normalizer \<Rightarrow> dict \<Rightarrow> bool \<Rightarrow> string \<Rightarrow> int \<Rightarrow> int \<Rightarrow> py_exn + string" where
  "projected_hash nfc raw is_file proj_uri off len =
     (let ident = strip (given_text (dget raw ''identifier'')); body = given_text (dget raw ''fact_text'');
          uri = strip (given_text (dget raw ''source_uri'')); explicit = clean_text nfc (dget raw ''content_hash'') in
      rbind (default_hash is_file (nfc ident) (nfc body) proj_uri off len) (\<lambda>canonical.
      rbind (if is_file then optional_uri uri else Inr []) (\<lambda>raw_uri.
      rbind (default_hash is_file ident body raw_uri off len) (\<lambda>raw_default.
      Inr (if explicit = [] \<or> explicit = raw_default then canonical else explicit)))))"

definition projected_importance :: "json \<Rightarrow> py_exn + pyfloat" where
  "projected_importance v = (case py_float v of
     Inr f \<Rightarrow> Inr (if \<not> is_finite f then HALF else if feq f (FDec 0 0) then FDec 0 0 else f)
   | Inl e \<Rightarrow> if e \<in> {TypeError, ValueError} then Inr HALF else Inl e)"

definition projected_provenance :: "normalizer \<Rightarrow> json \<Rightarrow> json" where
  "projected_provenance nfc v = (case v of
     JObj d \<Rightarrow> if d = [] then JNull else canonicalize_json nfc v
   | _ \<Rightarrow> if v = JNull \<or> v = JStr [] then JNull else JObj [(''value'', canonicalize_json nfc v)])"

definition projected_texts :: "normalizer \<Rightarrow> json \<Rightarrow> json" where
  "projected_texts nfc v = (case v of
     JList xs \<Rightarrow> JList (map (\<lambda>x. JStr (nfc (strip (py_str x)))) (filter (\<lambda>x. strip (py_str x) \<noteq> []) xs))
   | _ \<Rightarrow> JList [])"

definition projected_ttl :: "json \<Rightarrow> json" where
  "projected_ttl v = (case v of JInt n \<Rightarrow> if n > 0 then v else JNull | _ \<Rightarrow> JNull)"

definition text_or_default :: "normalizer \<Rightarrow> json \<Rightarrow> string \<Rightarrow> string" where
  "text_or_default nfc v dflt = (if v = JNull \<or> strip (py_str v) = [] then dflt else nfc (strip (py_str v)))"

definition projected_source :: "normalizer \<Rightarrow> dict \<Rightarrow> dict \<Rightarrow> string \<Rightarrow> string" where
  "projected_source nfc raw n src = (case dget raw ''source'' of
     JStr s \<Rightarrow> nfc s
   | _ \<Rightarrow> nfc (if truthy (dget n ''source'') then py_str (dget n ''source'') else src))"

definition projection_of :: "normalizer \<Rightarrow> string \<Rightarrow> dict \<Rightarrow> dict \<Rightarrow> py_exn + dict" where
  "projection_of nfc src raw n =
     (let g = dget n; is_file = (g ''memory_type'' = JStr ''file'');
          off = offset_of (g ''byte_offset''); len = offset_of (g ''byte_length'');
          uri = strip (given_text (dget raw ''source_uri'')); summary = g ''fact_summary'' in
      rbind (if uri = [] then Inr [] else normalize_source_uri (nfc uri) None) (\<lambda>proj_uri.
      rbind (projected_hash nfc raw is_file proj_uri off len) (\<lambda>hash.
      rbind (projected_importance (dget_default n ''importance'' (JFloat HALF))) (\<lambda>imp.
      rbind (int_or_default (por (g ''promotion_candidate'') (JInt 0)) 0) (\<lambda>cand.
      rbind (int_or_default (por (g ''record_schema_version'') (por (g ''schema_version'') (JInt 1))) 1) (\<lambda>version.
      Inr [(''byte_length'', g ''byte_length''), (''byte_offset'', g ''byte_offset''), (''content_hash'', JStr hash),
           (''created_at'', JStr (clean_text nfc (g ''created_at''))),
           (''fact_summary'', if summary = JNull then JNull else JStr (nfc (py_str summary))),
           (''fact_text'', JStr (nfc (given_text (dget raw ''fact_text'')))),
           (''id'', JStr (if dget raw ''id'' = JNull then [] else nfc (strip (py_str (dget raw ''id''))))),
           (''identifier'', JStr (nfc (strip (given_text (dget raw ''identifier''))))),
           (''importance'', JFloat imp), (''memory_type'', JStr (if is_file then ''file'' else ''fact'')),
           (''metadata'', canonicalize_json nfc (por (g ''metadata'') (JObj []))),
           (''namespace'', JStr (clean_text nfc (g ''namespace''))),
           (''parent_memory'', JStr (clean_text nfc (g ''parent_memory''))),
           (''promotion_candidate'', JInt (if cand = 1 then 1 else 0)),
           (''promotion_state'', JStr (text_or_default nfc (g ''promotion_state'') ''HOT'')),
           (''provenance'', projected_provenance nfc (g ''provenance'')),
           (''related_memories'', projected_texts nfc (g ''related_memories'')), (''schema_version'', JInt version),
           (''snapshot_id'', JStr (clean_text nfc (g ''snapshot_id''))), (''source'', JStr (projected_source nfc raw n src)),
           (''source_checksum'', JStr (clean_text nfc (g ''source_checksum''))),
           (''source_format'', JStr (clean_text nfc (g ''source_format''))), (''source_uri'', JStr proj_uri),
           (''tags'', projected_texts nfc (g ''tags'')), (''tier'', JStr (text_or_default nfc (g ''tier'') ''hot'')),
           (''ttl_seconds'', projected_ttl (g ''ttl_seconds'')),
           (''updated_at'', if strip (given_text (g ''updated_at'')) = [] then JNull
              else JStr (nfc (strip (py_str (g ''updated_at'')))))]))))))"

definition semantic_record_projection :: "normalizer \<Rightarrow> string \<Rightarrow> string \<Rightarrow> dict \<Rightarrow> dict option \<Rightarrow> dict rec_res" where
  "semantic_record_projection nfc src fid raw n =
     rbind (case n of None \<Rightarrow> normalize_record_safe raw src fid | Some m \<Rightarrow> Inr m) (\<lambda>m. of_py (projection_of nfc src raw m))"

definition projection_digest :: "dict \<Rightarrow> py_exn + string" where
  "projection_digest p =
     rbind (canonical_dumps (JObj p)) (\<lambda>t. Inr (sha256_hex (''hotmem-snapshot-record-v2:'' @ t)))"

definition semantic_record_digest :: "normalizer \<Rightarrow> string \<Rightarrow> string \<Rightarrow> dict \<Rightarrow> dict option \<Rightarrow> string rec_res" where
  "semantic_record_digest nfc src fid raw n =
     rbind (semantic_record_projection nfc src fid raw n) (\<lambda>p. of_py (projection_digest p))"

section \<open>File references and scope\<close>

datatype reference_arg = ReferenceObject file_reference | ReferenceMapping dict

definition reference_field :: "reference_arg \<Rightarrow> string \<Rightarrow> json" where
  "reference_field r k = (case r of
     ReferenceObject x \<Rightarrow> dget (dict_of (reference_to_dict x)) k
   | ReferenceMapping d \<Rightarrow> dget d k)"

definition semantic_file_reference_projection :: "normalizer \<Rightarrow> reference_arg \<Rightarrow> py_exn + dict" where
  "semantic_file_reference_projection nfc r =
     (let g = reference_field r in
      rbind (optional_uri (clean_text nfc (g ''source_uri''))) (\<lambda>uri.
      rbind (py_int (por (g ''byte_length'') (JInt 0))) (\<lambda>len.
      rbind (py_int (por (g ''byte_offset'') (JInt 0))) (\<lambda>off.
      Inr [(''byte_length'', JInt len), (''byte_offset'', JInt off), (''memory_id'', JStr (clean_text nfc (g ''memory_id''))),
           (''source_checksum'', JStr (clean_text nfc (g ''source_checksum''))),
           (''source_format'', JStr (clean_text nfc (g ''source_format''))), (''source_uri'', JStr uri)]))))"

definition semantic_scope_projection :: "normalizer \<Rightarrow> dict option \<Rightarrow> json" where
  "semantic_scope_projection nfc scope = (case scope of
     None \<Rightarrow> JNull
   | Some d \<Rightarrow>
       (let raw = strip (str_of (dget d ''namespace'')); ns = (if raw = [] then [] else nfc raw);
            permitted = (case dget d ''permitted_namespaces'' of
              JList xs \<Rightarrow> sort (remdups (map (\<lambda>x. nfc (strip (str_of x))) (filter (\<lambda>x. strip (str_of x) \<noteq> []) xs)))
            | _ \<Rightarrow> []) in
        if ns = [] \<and> permitted = [] then JNull
        else JObj [(''namespace'', JStr ns), (''permitted_namespaces'', JList (map JStr permitted))]))"

text \<open>The key by which references are sorted: all six fields.\<close>

definition reference_key :: "dict \<Rightarrow> string \<times> string \<times> int \<times> int \<times> string \<times> string" where
  "reference_key p =
     (str_of (dget p ''memory_id''), str_of (dget p ''source_uri''), offset_of (dget p ''byte_offset''),
      offset_of (dget p ''byte_length''), str_of (dget p ''source_format''), str_of (dget p ''source_checksum''))"

definition sort_references :: "normalizer \<Rightarrow> reference_arg list \<Rightarrow> py_exn + dict list" where
  "sort_references nfc refs =
     rbind (traverse (semantic_file_reference_projection nfc) refs) (\<lambda>ps. Inr (sort_key reference_key ps))"

definition derived_reference :: "dict \<Rightarrow> reference_arg" where
  "derived_reference p = ReferenceMapping
     [(''byte_length'', JInt (offset_of (dget p ''byte_length''))), (''byte_offset'', JInt (offset_of (dget p ''byte_offset''))),
      (''memory_id'', dget p ''id''), (''source_checksum'', dget p ''source_checksum''),
      (''source_format'', dget p ''source_format''), (''source_uri'', dget p ''source_uri'')]"

definition derive_references :: "dict list \<Rightarrow> reference_arg list" where
  "derive_references ps =
     map derived_reference (filter (\<lambda>p. dget p ''memory_type'' = JStr ''file'' \<and> truthy (dget p ''source_uri'')) ps)"

section \<open>Snapshot ids\<close>

definition snapshot_envelope :: "dict list \<Rightarrow> string list \<Rightarrow> json \<Rightarrow> json" where
  "snapshot_envelope refs digests scope = JObj
     [(''file_backed_references'', JList (map JObj refs)), (''records'', JList (map JStr (sort digests))),
      (''scope'', scope), (''version'', JInt SNAPSHOT_ID_VERSION)]"

definition envelope_id :: "json \<Rightarrow> py_exn + string" where
  "envelope_id e = rbind (canonical_dumps e) (\<lambda>t. Inr (sha256_hex (''hotmem-snapshot-id-v2:'' @ t)))"

definition semantic_snapshot_projection ::
  "normalizer \<Rightarrow> string \<Rightarrow> (string \<times> dict) list \<Rightarrow> reference_arg list option \<Rightarrow> dict option \<Rightarrow> json rec_res" where
  "semantic_snapshot_projection nfc src records refs scope =
     rbind (traverse (\<lambda>(fid, r). semantic_record_projection nfc src fid r None) records) (\<lambda>ps.
     rbind (of_py (traverse projection_digest ps)) (\<lambda>ds.
     rbind (of_py (sort_references nfc (case refs of None \<Rightarrow> derive_references ps | Some rs \<Rightarrow> rs))) (\<lambda>rs.
     Inr (snapshot_envelope rs ds (semantic_scope_projection nfc scope)))))"

definition semantic_id_from_digests :: "normalizer \<Rightarrow> string list \<Rightarrow> reference_arg list \<Rightarrow> dict option \<Rightarrow> string rec_res" where
  "semantic_id_from_digests nfc digests refs scope =
     rbind (of_py (sort_references nfc refs)) (\<lambda>rs.
       of_py (envelope_id (snapshot_envelope rs digests (semantic_scope_projection nfc scope))))"

definition compute_semantic_snapshot_id ::
  "normalizer \<Rightarrow> string \<Rightarrow> (string \<times> dict) list \<Rightarrow> reference_arg list option \<Rightarrow> dict option \<Rightarrow> string rec_res" where
  "compute_semantic_snapshot_id nfc src records refs scope =
     rbind (semantic_snapshot_projection nfc src records refs scope) (\<lambda>e. of_py (envelope_id e))"

definition compute_legacy_snapshot_id :: "string list \<Rightarrow> string" where
  "compute_legacy_snapshot_id hashes = sha256_hex (concat (sort (filter (\<lambda>h. h \<noteq> []) hashes)))"

text \<open>An item is a content hash, a record (with the id it may draw) or a value of another scalar type.\<close>

datatype snapshot_item = HashItem string | RecordItem string dict | ScalarItem json

definition item_text :: "snapshot_item \<Rightarrow> string" where
  "item_text i = (case i of HashItem h \<Rightarrow> h | ScalarItem v \<Rightarrow> py_str v | RecordItem f d \<Rightarrow> py_str (JObj d))"

definition record_of_item :: "snapshot_item \<Rightarrow> (string \<times> dict) rec_res" where
  "record_of_item i = (case i of RecordItem f d \<Rightarrow> Inr (f, d) | _ \<Rightarrow> Inl (PyExn TypeError))"

definition is_record_item :: "snapshot_item \<Rightarrow> bool" where
  "is_record_item i = (case i of RecordItem f d \<Rightarrow> True | _ \<Rightarrow> False)"

definition is_hash_item :: "snapshot_item \<Rightarrow> bool" where
  "is_hash_item i = (case i of HashItem h \<Rightarrow> True | _ \<Rightarrow> False)"

definition semantic_id_of_items ::
  "normalizer \<Rightarrow> snapshot_item list \<Rightarrow> reference_arg list option \<Rightarrow> dict option \<Rightarrow> string rec_res" where
  "semantic_id_of_items nfc items refs scope =
     rbind (traverse (\<lambda>i. rbind (record_of_item i) (\<lambda>(f, d). semantic_record_projection nfc ''snapshot'' f d None)) items) (\<lambda>_.
     rbind (traverse record_of_item items) (\<lambda>records.
     compute_semantic_snapshot_id nfc ''snapshot'' records refs scope))"

definition compute_snapshot_id ::
  "normalizer \<Rightarrow> snapshot_item list \<Rightarrow> reference_arg list option \<Rightarrow> dict option \<Rightarrow> int option \<Rightarrow> string rec_res" where
  "compute_snapshot_id nfc items refs scope version =
     (let has_records = list_ex is_record_item items; has_hashes = list_ex is_hash_item items;
          extra = (refs \<noteq> None \<or> scope \<noteq> None) in
      if has_records \<and> has_hashes then Inl (PyExn TypeError)
      else if version \<notin> {None, Some LEGACY_SNAPSHOT_ID_VERSION, Some SNAPSHOT_ID_VERSION} then Inl (PyExn ValueError)
      else if version = Some LEGACY_SNAPSHOT_ID_VERSION then
        (if has_records then Inl (PyExn TypeError)
         else if extra then Inl (PyExn ValueError)
         else Inr (compute_legacy_snapshot_id (map item_text items)))
      else if version = Some SNAPSHOT_ID_VERSION then
        (if has_hashes then Inl (PyExn TypeError) else semantic_id_of_items nfc items refs scope)
      else if has_records then semantic_id_of_items nfc items refs scope
      else if extra then Inl (PyExn ValueError)
      else if \<not> list_all is_hash_item items then Inl (PyExn TypeError)
      else Inr (compute_legacy_snapshot_id (map item_text items)))"

end
