(* ===== verification/SnapshotFacts.thy ===== *)
theory SnapshotFacts
  imports SnapshotId
begin

text \<open>
  What the semantic id of a snapshot depends on: not on the order of records and references, the ids drawn
  for records without one, embeddings or bundled attachments; and the streamed computation over digests
  is the one over records.
\<close>

section \<open>What the projection reads\<close>

definition EMBEDDING_FIELDS :: "string list" where
  "EMBEDDING_FIELDS = [''embedding'', ''embedding_b64'', ''embedding_model'']"

definition same_portable :: "dict \<Rightarrow> dict \<Rightarrow> bool" where
  "same_portable n n' \<longleftrightarrow> (\<forall>f. f \<notin> {''id'', ''embedding'', ''embedding_model''} \<longrightarrow> map_of n f = map_of n' f)"

lemma rbind_rel: "m = m' \<Longrightarrow> (\<And>x. m' = Inr x \<Longrightarrow> rel_sum (=) R (f x) (g x)) \<Longrightarrow> rel_sum (=) R (rbind m f) (rbind m' g)"
  by (cases m') auto

text \<open>Normalisation reads the known fields and the list of the unknown ones.\<close>

definition same_fields :: "dict \<Rightarrow> dict \<Rightarrow> bool" where
  "same_fields d d' \<longleftrightarrow> (\<forall>k \<in> set KNOWN_FIELDS - set EMBEDDING_FIELDS. map_of d k = map_of d' k) \<and> unknown_fields d = unknown_fields d'"

lemma same_fields_get:
  assumes "same_fields d d'" "k \<in> set KNOWN_FIELDS" "k \<notin> set EMBEDDING_FIELDS"
  shows "dget d k = dget d' k" "dget_default d k v = dget_default d' k v"
  using assms by (auto simp: same_fields_def intro: dget_cong dget_default_cong)

lemma same_fields_parts:
  assumes s: "same_fields d d'"
  shows "raw_metadata d = raw_metadata d'" "metadata_of d = metadata_of d'" "provenance_of d = provenance_of d'"
    "list_of d ''tags'' = list_of d' ''tags''" "list_of d ''related_memories'' = list_of d' ''related_memories''"
    "content_hash_of d b off len = content_hash_of d' b off len"
    "version_issues d ''schema_version'' = version_issues d' ''schema_version''"
    "version_issues d ''record_schema_version'' = version_issues d' ''record_schema_version''"
proof -
  note g = same_fields_get [OF s]
  have k: "list_all (\<lambda>k. k \<in> set KNOWN_FIELDS \<and> k \<notin> set EMBEDDING_FIELDS)
      [''metadata'', ''metadata_json'', ''provenance'', ''provenance_json'', ''tags'', ''related_memories'', ''content_hash'',
       ''identifier'', ''fact_text'', ''source_uri'', ''schema_version'', ''record_schema_version'']" by code_simp
  then have k: "k \<in> set KNOWN_FIELDS \<and> k \<notin> set EMBEDDING_FIELDS"
    if "k \<in> {''metadata'', ''metadata_json'', ''provenance'', ''provenance_json'', ''tags'', ''related_memories'', ''content_hash'',
       ''identifier'', ''fact_text'', ''source_uri'', ''schema_version'', ''record_schema_version''}" for k
    using that by (simp only: list_all_iff) auto
  show m: "raw_metadata d = raw_metadata d'"
    using g(1) [of "''metadata_json''"] g(2) [of "''metadata''"] k by (simp add: raw_metadata_def)
  have "unknown_fields d = unknown_fields d'" using s by (simp add: same_fields_def)
  then show "metadata_of d = metadata_of d'" by (simp add: metadata_of_def m)
  show "provenance_of d = provenance_of d'"
    using g(1) [of "''provenance_json''"] g(2) [of "''provenance''"] k by (simp add: provenance_of_def)
  show "list_of d ''tags'' = list_of d' ''tags''" "list_of d ''related_memories'' = list_of d' ''related_memories''"
    using k by (simp_all add: g(1) list_of_def)
  have h: "dget d k = dget d' k" if "k \<in> {''content_hash'', ''identifier'', ''fact_text'', ''source_uri''}" for k
    using k that g(1) by blast
  show "content_hash_of d b off len = content_hash_of d' b off len"
    unfolding content_hash_of_def by (simp only: h insertI1 insertI2)
  show "version_issues d ''schema_version'' = version_issues d' ''schema_version''"
    "version_issues d ''record_schema_version'' = version_issues d' ''record_schema_version''"
    using k by (simp_all add: g(1) version_issues_def)
qed

lemma canonical_portable:
  assumes s: "same_fields d d'"
  shows "same_portable (canonical_fields d ds fid off len hash imp ttl cand dim sv rsv)
    (canonical_fields d' ds fid' off len hash imp ttl cand dim sv rsv)"
proof -
  have k: "list_all (\<lambda>k. k \<in> set KNOWN_FIELDS \<and> k \<notin> set EMBEDDING_FIELDS)
      [''identifier'', ''fact_text'', ''fact_summary'', ''memory_type'', ''source'', ''created_at'', ''namespace'', ''tier'',
       ''parent_memory'', ''source_uri'', ''source_format'', ''source_checksum'', ''updated_at'', ''snapshot_id'', ''promotion_state'']"
    by code_simp
  then have g: "dget d k = dget d' k"
    if "k \<in> {''identifier'', ''fact_text'', ''fact_summary'', ''memory_type'', ''source'', ''created_at'', ''namespace'', ''tier'',
       ''parent_memory'', ''source_uri'', ''source_format'', ''source_checksum'', ''updated_at'', ''snapshot_id'', ''promotion_state''}" for k
    using that same_fields_get(1) [OF s, of k] by (simp only: list_all_iff) auto
  show ?thesis
    unfolding same_portable_def canonical_fields_def Let_def
    by (intro allI impI) (simp add: g same_fields_parts [OF s])
qed

lemma normalize_portable:
  assumes s: "same_fields d d'"
  shows "rel_sum (=) (\<lambda>n n'. same_portable (nr_fields n) (nr_fields n')) (normalize_record d src fid) (normalize_record d' src fid')"
proof -
  have k: "list_all (\<lambda>k. k \<in> set KNOWN_FIELDS \<and> k \<notin> set EMBEDDING_FIELDS)
      [''byte_offset'', ''byte_length'', ''memory_type'', ''importance'', ''ttl_seconds'', ''promotion_candidate'', ''embedding_dim'',
       ''schema_version'', ''record_schema_version'']" by code_simp
  then have g: "dget d k = dget d' k"
    if "k \<in> {''byte_offset'', ''byte_length'', ''memory_type'', ''importance'', ''ttl_seconds'', ''promotion_candidate'',
       ''embedding_dim'', ''schema_version'', ''record_schema_version''}" for k
    using that same_fields_get(1) [OF s, of k] by (simp only: list_all_iff) auto
  show ?thesis
    unfolding normalize_record_def Let_def
    by (intro rbind_rel; (simp add: g same_fields_parts [OF s] canonical_portable [OF s])?)
qed

definition RAW_FIELDS :: "string list" where
  "RAW_FIELDS = [''id'', ''identifier'', ''fact_text'', ''source_uri'', ''content_hash'', ''source'']"

lemma projection_portable:
  assumes p: "same_portable n n'" and r: "list_all (\<lambda>k. dget raw k = dget raw' k) RAW_FIELDS"
  shows "projection_of nfc src raw n = projection_of nfc src raw' n'"
proof -
  have g: "dget n k = dget n' k" "dget_default n k v = dget_default n' k v"
    if "k \<in> {''memory_type'', ''byte_offset'', ''byte_length'', ''fact_summary'', ''importance'', ''promotion_candidate'',
      ''record_schema_version'', ''schema_version'', ''created_at'', ''metadata'', ''namespace'', ''parent_memory'', ''promotion_state'',
      ''provenance'', ''related_memories'', ''snapshot_id'', ''source_checksum'', ''source_format'', ''tags'', ''tier'',
      ''ttl_seconds'', ''updated_at'', ''source''}" for k v
  proof -
    have "k \<notin> {''id'', ''embedding'', ''embedding_model''}" using that by (elim insertE emptyE) simp_all
    then show "dget n k = dget n' k" "dget_default n k v = dget_default n' k v"
      using p by (auto simp: same_portable_def intro: dget_cong dget_default_cong)
  qed
  have h: "dget raw k = dget raw' k"
    if "k \<in> {''id'', ''identifier'', ''fact_text'', ''source_uri'', ''content_hash'', ''source''}" for k
    using r that by (auto simp: RAW_FIELDS_def)
  show ?thesis
    unfolding projection_of_def projected_hash_def projected_source_def Let_def
    by (simp only: g h insertI1 insertI2)
qed

lemma unknown_fields_delete: "k \<in> set KNOWN_FIELDS \<Longrightarrow> unknown_fields (AList.delete k d) = unknown_fields d"
  unfolding unknown_fields_def AList.delete_eq by (induction d) auto

lemma metadata_keys: "''metadata'' \<in> set KNOWN_FIELDS" "''metadata'' \<notin> set EMBEDDING_FIELDS"
  "''metadata_json'' \<in> set KNOWN_FIELDS" "''metadata_json'' \<notin> set EMBEDDING_FIELDS"
  by code_simp+

lemma same_fields_strip: "same_fields d d' \<Longrightarrow> same_fields (strip_annotations d) (strip_annotations d')"
proof -
  assume s: "same_fields d d'"
  have m: "safe_metadata d = safe_metadata d'"
    using same_fields_get(1) [OF s metadata_keys(1,2)] same_fields_get(1) [OF s metadata_keys(3,4)] by (simp add: safe_metadata_def)
  have "unknown_fields (strip_annotations d) = unknown_fields (strip_annotations d')"
    using s by (simp add: strip_annotations_def unknown_fields_delete unknown_fields_update metadata_keys same_fields_def)
  then show ?thesis
    using s by (auto simp: same_fields_def strip_annotations_def m AList.delete_conv')
qed

lemma same_portable_restore: "same_portable n n' \<Longrightarrow> same_portable (restore_annotations saved n) (restore_annotations saved n')"
  by (auto simp: same_portable_def restore_annotations_def dget_def)

lemma normalize_safe_portable:
  assumes s: "same_fields d d'"
  shows "rel_sum (=) same_portable (normalize_record_safe d src fid) (normalize_record_safe d' src fid')"
proof -
  have m: "dget (safe_metadata d) ''annotations'' = dget (safe_metadata d') ''annotations''"
    using same_fields_get(1) [OF s metadata_keys(1,2)] same_fields_get(1) [OF s metadata_keys(3,4)] by (simp add: safe_metadata_def)
  note P = normalize_portable [OF s, of src fid fid'] and Q = normalize_portable [OF same_fields_strip [OF s], of src fid fid']
  have R: "rel_sum (=) same_portable
      (rbind (normalize_record (strip_annotations d) src fid) (\<lambda>n. Inr (restore_annotations sv (nr_fields n))))
      (rbind (normalize_record (strip_annotations d') src fid') (\<lambda>n. Inr (restore_annotations sv (nr_fields n))))" for sv
    using Q by (auto simp: rel_sum.simps intro: same_portable_restore)
  show ?thesis
  proof (cases "normalize_record d src fid")
    case (Inr n)
    then show ?thesis using P by (auto simp: normalize_record_safe_def rel_sum.simps)
  next
    case (Inl e)
    then have e: "normalize_record d' src fid' = Inl e" using P by (auto simp: rel_sum.simps)
    show ?thesis
    proof (cases "\<exists>x y. e = AnnotationExn (AnnotationValidationError x y)")
      case True
      then show ?thesis using R by (auto simp: normalize_record_safe_def Inl e m)
    next
      case False
      then show ?thesis
        by (cases e) (auto simp: normalize_record_safe_def Inl e split: ann_error.splits)
    qed
  qed
qed

lemma rbind_portable:
  "rel_sum (=) same_portable a b \<Longrightarrow> (\<And>n n'. same_portable n n' \<Longrightarrow> f n = g n') \<Longrightarrow> rbind a f = rbind b g"
  by (auto simp: rel_sum.simps)

lemma projection_reads:
  assumes "same_fields d d'" "list_all (\<lambda>k. dget d k = dget d' k) RAW_FIELDS"
  shows "semantic_record_projection nfc src fid d None = semantic_record_projection nfc src fid' d' None"
  unfolding semantic_record_projection_def option.case
  by (rule rbind_portable [OF normalize_safe_portable [OF assms(1)]]) (simp add: projection_portable [OF _ assms(2)])

text \<open>The semantic identity of a record covers portable state only: whatever value the embedding or its model has,
  and whatever id is drawn for a record without one, the projection is the same, or fails with the same exception.
\<close>

theorem projection_embedding_free:
  assumes "k \<in> {''embedding'', ''embedding_b64'', ''embedding_model''}"
  shows "semantic_record_projection nfc src fid (AList.update k v raw) None = semantic_record_projection nfc src fid' raw None"
proof (rule projection_reads)
  have "k \<in> set EMBEDDING_FIELDS" using assms by (simp add: EMBEDDING_FIELDS_def)
  moreover have "set EMBEDDING_FIELDS \<subseteq> set KNOWN_FIELDS" by code_simp
  ultimately show "same_fields (AList.update k v raw) raw"
    by (auto simp: same_fields_def unknown_fields_update)
  show "list_all (\<lambda>f. dget (AList.update k v raw) f = dget raw f) RAW_FIELDS"
    using assms by (auto simp: RAW_FIELDS_def dget_def)
qed

section \<open>Malformed annotations\<close>

lemma validate_metadata_free: "\<not> has_key d ''annotations'' \<Longrightarrow> validate_metadata (JObj d) ids = Inr ()"
  by (simp add: validate_metadata_def)

lemma metadata_of_stripped: "\<not> has_key (metadata_of (strip_annotations raw)) ''annotations''"
proof -
  let ?m = "AList.delete ''annotations'' (safe_metadata raw)"
  have g: "dget_default (strip_annotations raw) ''metadata'' v = JObj ?m" for v
    by (simp add: strip_annotations_def dget_default_def AList.delete_conv')
  have "raw_metadata (strip_annotations raw) = JObj ?m" by (simp add: raw_metadata_def g)
  then have "metadata_of (strip_annotations raw) = ?m \<or> (\<exists>u. metadata_of (strip_annotations raw) = AList.update UNKNOWN_KEY u ?m)"
    by (auto simp: metadata_of_def as_json_def Let_def)
  moreover have "UNKNOWN_KEY \<noteq> ''annotations''" by (simp add: UNKNOWN_KEY_def)
  ultimately show ?thesis by (auto simp: has_key_def AList.delete_conv')
qed

lemma of_py_no_annotation: "of_py m \<noteq> Inl (AnnotationExn a)"
  by (cases m) (simp_all add: of_py_def)

lemma normalize_stripped: "normalize_record (strip_annotations raw) src fid \<noteq> Inl (AnnotationExn a)"
  unfolding normalize_record_def Let_def
  by (simp add: rbind_eq_Inl of_py_no_annotation validate_metadata_free [OF metadata_of_stripped])

text \<open>A malformed annotation envelope never keeps a record out of a snapshot: the projection tolerates it, so that
  an \<open>AnnotationValidationError\<close> leaves neither the projection nor the digest, whatever the record holds.
\<close>

theorem projection_tolerates_annotations:
  "semantic_record_projection nfc src fid raw None \<noteq> Inl (AnnotationExn (AnnotationValidationError x y))
   \<and> semantic_record_digest nfc src fid raw None \<noteq> Inl (AnnotationExn (AnnotationValidationError x y))"
proof -
  have s: "normalize_record_safe raw src fid \<noteq> Inl (AnnotationExn (AnnotationValidationError x y))"
    using normalize_stripped [of raw src fid]
    by (auto simp: normalize_record_safe_def rbind_eq_Inl split: sum.splits rec_exn.splits ann_error.splits)
  have q: "semantic_record_projection nfc src fid raw None \<noteq> Inl (AnnotationExn (AnnotationValidationError x y))"
    using s of_py_no_annotation by (auto simp: semantic_record_projection_def rbind_eq_Inl)
  then show ?thesis using of_py_no_annotation by (auto simp: semantic_record_digest_def rbind_eq_Inl)
qed

section \<open>Order\<close>

lemma traverse_of_py: "of_py (traverse f xs) = Inr ys \<longleftrightarrow> traverse f xs = Inr ys"
  by simp

lemma traverse_ignores:
  assumes "\<And>fid r. f (fid, r) = g r"
  shows "traverse f xs = traverse g (map snd xs)"
  using assms by (induction xs) (auto intro!: rbind_cong)

lemma reference_projection_fields:
  assumes "semantic_file_reference_projection nfc r = Inr p"
  shows "\<exists>l off m ck fmt u. p = [(''byte_length'', JInt l), (''byte_offset'', JInt off), (''memory_id'', JStr m),
     (''source_checksum'', JStr ck), (''source_format'', JStr fmt), (''source_uri'', JStr u)]
     \<and> reference_key p = (m, u, off, l, fmt, ck)"
  using assms by (auto simp: semantic_file_reference_projection_def Let_def rbind_eq_Inr reference_key_def offset_of_def str_of_def)

lemma reference_key_inj:
  assumes "\<forall>p \<in> A. \<exists>r. semantic_file_reference_projection nfc r = Inr p"
  shows "inj_on reference_key A"
proof (rule inj_onI)
  fix p q assume p: "p \<in> A" "q \<in> A" and e: "reference_key p = reference_key q"
  obtain r r' where "semantic_file_reference_projection nfc r = Inr p" "semantic_file_reference_projection nfc r' = Inr q"
    using assms p by blast
  then show "p = q" using e by (auto dest!: reference_projection_fields)
qed

lemma sort_references_perm:
  assumes "sort_references nfc refs = Inr ps" "mset refs' = mset refs"
  shows "sort_references nfc refs' = Inr ps"
proof -
  obtain us where us: "traverse (semantic_file_reference_projection nfc) refs = Inr us" "ps = sort_key reference_key us"
    using assms(1) by (auto simp: sort_references_def rbind_eq_Inr)
  obtain vs where vs: "traverse (semantic_file_reference_projection nfc) refs' = Inr vs" "mset vs = mset us"
    using traverse_perm [OF us(1) assms(2)] by blast
  have "\<forall>p \<in> set vs. \<exists>r. semantic_file_reference_projection nfc r = Inr p"
    using vs(1) by (auto simp: traverse_Inr_iff dest: list_all2_set2)
  then have "sort_key reference_key vs = sort_key reference_key us"
    using vs(2) by (intro sort_key_inj_key_eq reference_key_inj) auto
  then show ?thesis using vs(1) us(2) by (simp add: sort_references_def)
qed

lemma derive_references_perm: "mset ps = mset qs \<Longrightarrow> mset (derive_references ps) = mset (derive_references qs)"
  by (simp add: derive_references_def)

text \<open>C28. A snapshot id names a set of records: the records of a snapshot and its file references may be listed in any
  order, and records without an id may draw any, and the id is the same.
\<close>

theorem snapshot_id_order:
  assumes "compute_semantic_snapshot_id nfc src records refs scope = Inr h"
    and "mset (map snd records') = mset (map snd records)" "rel_option (\<lambda>a b. mset a = mset b) refs' refs"
  shows "compute_semantic_snapshot_id nfc src records' refs' scope = Inr h"
proof -
  let ?P = "\<lambda>r. semantic_record_projection nfc src [] r None"
  have fid: "semantic_record_projection nfc src fid r None = ?P r" for fid r
    by (rule projection_reads) (simp_all add: same_fields_def RAW_FIELDS_def)
  have T: "traverse (\<lambda>(fid, r). semantic_record_projection nfc src fid r None) rs = traverse ?P (map snd rs)" for rs
    by (rule traverse_ignores) (simp only: prod.case, rule fid)
  obtain ps ds rs where ps: "traverse ?P (map snd records) = Inr ps" and ds: "traverse projection_digest ps = Inr ds"
    and rs: "sort_references nfc (case refs of None \<Rightarrow> derive_references ps | Some rs \<Rightarrow> rs) = Inr rs"
    and h: "envelope_id (snapshot_envelope rs ds (semantic_scope_projection nfc scope)) = Inr h"
    using assms(1) unfolding compute_semantic_snapshot_id_def semantic_snapshot_projection_def T rbind_eq_Inr of_py_eq by blast
  obtain qs where qs: "traverse ?P (map snd records') = Inr qs" "mset qs = mset ps"
    using traverse_perm [OF ps assms(2)] by blast
  obtain es where es: "traverse projection_digest qs = Inr es" "mset es = mset ds"
    using traverse_perm [OF ds qs(2)] by blast
  have "mset (case refs' of None \<Rightarrow> derive_references qs | Some rs \<Rightarrow> rs) = mset (case refs of None \<Rightarrow> derive_references ps | Some rs \<Rightarrow> rs)"
    using assms(3) derive_references_perm [OF qs(2)] by (cases refs; cases refs') auto
  from sort_references_perm [OF rs this]
  have "sort_references nfc (case refs' of None \<Rightarrow> derive_references qs | Some rs \<Rightarrow> rs) = Inr rs" .
  moreover have "snapshot_envelope rs es sc = snapshot_envelope rs ds sc" for sc
    by (simp add: snapshot_envelope_def sort_strings_cong [OF es(2)])
  ultimately show ?thesis
    using qs(1) es(1) h unfolding compute_semantic_snapshot_id_def semantic_snapshot_projection_def T by simp
qed

text \<open>C29. The streamed computation of a snapshot id is the one over the records: digesting the records one by one and
  combining the digests with the references and the scope gives the id of the snapshot.
\<close>

theorem snapshot_id_streamed:
  assumes "traverse (\<lambda>(fid, r). semantic_record_digest nfc src fid r None) records = Inr ds"
  shows "compute_semantic_snapshot_id nfc src records (Some refs) scope = semantic_id_from_digests nfc ds refs scope"
proof -
  have "\<exists>ps. traverse (\<lambda>(fid, r). semantic_record_projection nfc src fid r None) records = Inr ps
      \<and> traverse projection_digest ps = Inr ds"
    using assms
  proof (induction records arbitrary: ds)
    case (Cons x xs)
    obtain fid r where x: "x = (fid, r)" by force
    obtain p d es where d: "semantic_record_projection nfc src fid r None = Inr p" "projection_digest p = Inr d"
      "traverse (\<lambda>(fid, r). semantic_record_digest nfc src fid r None) xs = Inr es" "ds = d # es"
      using Cons.prems by (auto simp: x rbind_eq_Inr semantic_record_digest_def)
    from Cons.IH [OF d(3)] d show ?case by (auto simp: x)
  qed simp
  then obtain ps where ps: "traverse (\<lambda>(fid, r). semantic_record_projection nfc src fid r None) records = Inr ps"
    "traverse projection_digest ps = Inr ds" by blast
  show ?thesis
    by (simp add: compute_semantic_snapshot_id_def semantic_snapshot_projection_def ps semantic_id_from_digests_def rbind_assoc)
qed

section \<open>Dispatch\<close>

lemma record_items: "traverse record_of_item items = Inr rs \<Longrightarrow> list_all is_record_item items"
proof (induction items arbitrary: rs)
  case (Cons i items)
  then show ?case by (cases i) (auto simp: record_of_item_def is_record_item_def rbind_eq_Inr)
qed simp

text \<open>The dispatch on the id version is strict: an id is given out either for content hashes alone, without scope and
  references and not under version 2, and is then the legacy id, or for records alone and not under version 1.
\<close>

theorem snapshot_id_dispatch:
  assumes "compute_snapshot_id nfc items refs scope version = Inr h"
  shows "(h = compute_legacy_snapshot_id (map item_text items) \<and> \<not> list_ex is_record_item items \<and> refs = None \<and> scope = None
      \<and> version \<in> {None, Some 1})
    \<or> (list_all is_record_item items \<and> version \<in> {None, Some 2} \<and> semantic_id_of_items nfc items refs scope = Inr h)"
proof -
  have r: "list_all is_record_item items" if "semantic_id_of_items nfc items refs scope = Inr h"
    using that record_items by (auto simp: semantic_id_of_items_def rbind_eq_Inr)
  show ?thesis
    using assms r by (auto simp: compute_snapshot_id_def Let_def LEGACY_SNAPSHOT_ID_VERSION_def SNAPSHOT_ID_VERSION_def split: if_splits)
qed

section \<open>Digests exist\<close>

lemma finite_dict_update:
  "list_all (\<lambda>(k, v). finite_json v) e \<Longrightarrow> list_all (\<lambda>(k, v). finite_json v) d \<Longrightarrow> list_all (\<lambda>(k, v). finite_json v) (dict_update d e)"
proof (induction e arbitrary: d)
  case (Cons x e)
  obtain k v where x: "x = (k, v)" by force
  have "list_all (\<lambda>(k, v). finite_json v) (AList.update k v d)"
    using Cons.prems unfolding x by (induction d) auto
  then show ?case using Cons by (simp add: x dict_update_Cons)
qed simp

lemma canonicalize_finite: "finite_json (canonicalize_json nfc v)"
proof (induction v)
  case (JObj d)
  have "finite_json (canonicalize_json nfc v)" if "(k, v) \<in> set d" for k v
    using JObj [OF that, of v] by simp
  then have "list_all (\<lambda>(k, v). finite_json v) (map (\<lambda>(k, v). (nfc k, canonicalize_json nfc v)) d)"
    by (auto simp: list_all_iff)
  from finite_dict_update [OF this, of "[]"] show ?case by simp
qed (auto simp: list_all_iff is_finite_def)

definition int_or_null :: "json \<Rightarrow> bool" where
  "int_or_null v = (case v of JNull \<Rightarrow> True | JInt n \<Rightarrow> True | _ \<Rightarrow> False)"

lemma projection_finite:
  assumes "projection_of nfc src raw n = Inr p" "int_or_null (dget n ''byte_offset'')" "int_or_null (dget n ''byte_length'')"
  shows "finite_json (JObj p)"
proof -
  have imp: "is_finite i" if "projected_importance v = Inr i" for v i
    using that by (auto simp: projected_importance_def HALF_def is_finite_def split: sum.splits if_splits)
  have prov: "finite_json (projected_provenance nfc v)" for v
    using canonicalize_finite [of nfc] by (cases v) (simp_all add: projected_provenance_def del: canonicalize_json.simps)
  have texts: "finite_json (projected_texts nfc v)" for v
    by (cases v) (simp_all add: projected_texts_def list_all_iff)
  have "finite_json (projected_ttl v)" for v by (cases v) (simp_all add: projected_ttl_def)
  moreover have "finite_json (dget n ''byte_offset'')" "finite_json (dget n ''byte_length'')"
    using assms(2,3) by (simp_all add: int_or_null_def split: json.splits)
  ultimately show ?thesis
    using assms(1) imp by (auto simp: projection_of_def Let_def rbind_eq_Inr prov texts canonicalize_finite)
qed

lemma projection_of_inline:
  assumes "strip (given_text (dget raw ''source_uri'')) = []" "dget n ''memory_type'' \<noteq> JStr ''file''"
    and "projected_importance (dget_default n ''importance'' (JFloat HALF)) = Inr i"
    and "int_or_default (por (dget n ''promotion_candidate'') (JInt 0)) 0 = Inr c"
    and "int_or_default (por (dget n ''record_schema_version'') (por (dget n ''schema_version'') (JInt 1))) 1 = Inr v"
  shows "\<exists>p. projection_of nfc src raw n = Inr p"
  using assms by (simp add: projection_of_def projected_hash_def default_hash_def Let_def)

lemma example_projection:
  "\<exists>p. semantic_record_projection (\<lambda>s. s) ''swap'' ''id1'' example_row None = Inr p \<and> finite_json (JObj p)"
proof -
  let ?n = "nr_fields example_normal"
  have a: "strip (given_text (dget example_row ''source_uri'')) = []" "dget ?n ''memory_type'' \<noteq> JStr ''file''"
    "int_or_null (dget ?n ''byte_offset'')" "int_or_null (dget ?n ''byte_length'')" by code_simp+
  have "\<not> isl (projected_importance (dget_default ?n ''importance'' (JFloat HALF)))"
    "\<not> isl (int_or_default (por (dget ?n ''promotion_candidate'') (JInt 0)) 0)"
    "\<not> isl (int_or_default (por (dget ?n ''record_schema_version'') (por (dget ?n ''schema_version'') (JInt 1))) 1)"
    by code_simp+
  then obtain i c v where "projected_importance (dget_default ?n ''importance'' (JFloat HALF)) = Inr i"
      "int_or_default (por (dget ?n ''promotion_candidate'') (JInt 0)) 0 = Inr c"
      "int_or_default (por (dget ?n ''record_schema_version'') (por (dget ?n ''schema_version'') (JInt 1))) 1 = Inr v"
    unfolding isl_def by (metis sum.exhaust)
  from projection_of_inline [OF a(1,2) this] obtain p where p: "projection_of (\<lambda>s. s) ''swap'' example_row ?n = Inr p" by blast
  moreover have "semantic_record_projection (\<lambda>s. s) ''swap'' ''id1'' example_row None = Inr p"
    using p by (simp add: semantic_record_projection_def normalize_record_safe_def example_normalizes of_py_def)
  ultimately show ?thesis using projection_finite [OF p a(3,4)] by blast
qed

lemma example_snapshot_id:
  "\<exists>h. compute_semantic_snapshot_id (\<lambda>s. s) ''swap'' [(''id1'', example_row), (''id2'', example_row2)] (Some []) None = Inr h"
proof -
  obtain p where p: "semantic_record_projection (\<lambda>s. s) ''swap'' ''id1'' example_row None = Inr p" "finite_json (JObj p)"
    using example_projection by blast
  have k: "''embedding'' \<in> set EMBEDDING_FIELDS" "set EMBEDDING_FIELDS \<subseteq> set KNOWN_FIELDS" by code_simp+
  then have "''embedding'' \<in> set KNOWN_FIELDS" by blast
  then have "same_fields example_row2 example_row"
    using k(1) by (auto simp: same_fields_def example_row2_def unknown_fields_update)
  moreover have "list_all (\<lambda>f. dget example_row2 f = dget example_row f) RAW_FIELDS"
    by (auto simp: example_row2_def RAW_FIELDS_def dget_def)
  ultimately have q: "semantic_record_projection (\<lambda>s. s) ''swap'' ''id2'' example_row2 None = Inr p"
    using projection_reads [of example_row2 example_row "\<lambda>s. s" "''swap''" "''id2''" "''id1''"] p(1) by simp
  have d: "\<exists>d. projection_digest p = Inr d" using p(2) by (simp add: projection_digest_def canonical_dumps_def)
  then obtain d where d: "projection_digest p = Inr d" ..
  have "finite_json (snapshot_envelope [] [d, d] JNull)" by (simp add: snapshot_envelope_def list_all_iff)
  then show ?thesis
    using p(1) q d by (simp add: compute_semantic_snapshot_id_def semantic_snapshot_projection_def sort_references_def
        semantic_scope_projection_def envelope_id_def canonical_dumps_def of_py_def)
qed

lemma snapshot_id_order_witness:
  "\<exists>h. compute_semantic_snapshot_id (\<lambda>s. s) ''swap'' [(''id1'', example_row), (''id2'', example_row2)] (Some []) None = Inr h
    \<and> compute_semantic_snapshot_id (\<lambda>s. s) ''swap'' [(''x'', example_row2), (''y'', example_row)] (Some []) None = Inr h"
proof -
  obtain h where h: "compute_semantic_snapshot_id (\<lambda>s. s) ''swap'' [(''id1'', example_row), (''id2'', example_row2)] (Some []) None = Inr h"
    using example_snapshot_id by blast
  have "compute_semantic_snapshot_id (\<lambda>s. s) ''swap'' [(''x'', example_row2), (''y'', example_row)] (Some []) None = Inr h"
    by (rule snapshot_id_order [OF h]) (simp_all add: add_mset_commute)
  with h show ?thesis by blast
qed

lemma snapshot_id_streamed_witness:
  "\<exists>d. semantic_record_digest (\<lambda>s. s) ''swap'' ''id1'' example_row None = Inr d
    \<and> compute_semantic_snapshot_id (\<lambda>s. s) ''swap'' [(''id1'', example_row)] (Some []) None = semantic_id_from_digests (\<lambda>s. s) [d] [] None"
proof -
  obtain p where p: "semantic_record_projection (\<lambda>s. s) ''swap'' ''id1'' example_row None = Inr p" "finite_json (JObj p)"
    using example_projection by blast
  then obtain d where d: "semantic_record_digest (\<lambda>s. s) ''swap'' ''id1'' example_row None = Inr d"
    by (auto simp: semantic_record_digest_def projection_digest_def canonical_dumps_def of_py_def)
  have "traverse (\<lambda>(fid, r). semantic_record_digest (\<lambda>s. s) ''swap'' fid r None) [(''id1'', example_row)] = Inr [d]"
    by (simp add: d)
  from snapshot_id_streamed [OF this] d show ?thesis by blast
qed

lemma projection_embedding_free_witness:
  "semantic_record_projection (\<lambda>s. s) ''swap'' ''id2'' (AList.update ''embedding'' (JStr ''AAAA'') example_row) None
    = semantic_record_projection (\<lambda>s. s) ''swap'' ''id1'' example_row None"
  by (rule projection_embedding_free) simp

lemma snapshot_id_dispatch_witness:
  "compute_snapshot_id (\<lambda>s. s) [HashItem ''ab''] None None None = Inr (compute_legacy_snapshot_id [''ab''])"
proof -
  have h: "compute_snapshot_id (\<lambda>s. s) [HashItem ''ab''] None None None = Inr (compute_legacy_snapshot_id (map item_text [HashItem ''ab'']))"
    by (simp add: compute_snapshot_id_def is_record_item_def is_hash_item_def LEGACY_SNAPSHOT_ID_VERSION_def SNAPSHOT_ID_VERSION_def)
  from snapshot_id_dispatch [OF h] show ?thesis using h by (auto simp: item_text_def is_record_item_def)
qed

end
