(* ===== verification/Lineage.thy ===== *)
theory Lineage
  imports SnapshotFacts EventLog
begin

text \<open>
  The relationship of two stores (\<open>mount.py\<close>): a probe of each store collects its identity, the
  semantic identity of its rows, its fingerprints, the ids of its events and the mutations after its base, and
  \<open>compare_mount_lineage\<close> classifies the pair of probes. A store is a \<open>MemoryDB\<close>; the
  \<open>TypeError\<close> for a manifest or an identity has no counterpart.
\<close>

definition MUTATING_EVENT_TYPES :: "string list" where
  "MUTATING_EVENT_TYPES = [''memory.created'', ''memory.updated'', ''memory.deleted'', ''memory.promotion'',
     ''memory.candidate'', ''sync.applied'', ''handoff.applied'']"

definition of_rec :: "'a rec_res \<Rightarrow> 'a db_res" where
  "of_rec m = map_sum DbRecord id m"

section \<open>The event ids, page by page\<close>

definition ID_PAGE :: int where "ID_PAGE = 1000"

lemma id_page_advances:
  assumes "event_id_page after ID_PAGE s = rows" "rows \<noteq> []"
  shows "length (filter (\<lambda>e. fst (last rows) < ev_seq e) (st_events s)) < length (filter (\<lambda>e. after < ev_seq e) (st_events s))"
proof -
  let ?sel = "select_events (any_event\<lparr>qf_after := Some after\<rparr>) ID_PAGE True s"
  have e: "rows = map (\<lambda>e. (ev_seq e, ev_id e, ev_type e)) ?sel" using assms(1) by (simp add: event_id_page_def)
  then have m: "last ?sel \<in> set ?sel" and q: "fst (last rows) = ev_seq (last ?sel)"
    using assms(2) by (auto simp: last_map)
  have l: "last ?sel \<in> set (st_events s)" "after < ev_seq (last ?sel)"
    using select_events_sub [OF m] by (auto simp: event_matches_def when_given_def any_event_def)
  have "filter (\<lambda>e. fst (last rows) < ev_seq e) (st_events s)
      = filter (\<lambda>e. fst (last rows) < ev_seq e) (filter (\<lambda>e. after < ev_seq e) (st_events s))"
    using l(2) q by (auto simp: conj_commute intro!: filter_cong)
  then show ?thesis
    using l q by (simp only:) (rule length_filter_less [where x = "last ?sel"]; simp)
qed

function log_ids :: "int \<Rightarrow> store \<Rightarrow> (int \<times> string \<times> string) list" where
  "log_ids after s =
     (let rows = event_id_page after ID_PAGE s in
      if rows = [] then []
      else if int (length rows) < ID_PAGE then rows
      else rows @ log_ids (fst (last rows)) s)"
  by pat_completeness auto
termination
proof (relation "measure (\<lambda>(after, s). length (filter (\<lambda>e. after < ev_seq e) (st_events s)))", goal_cases)
  case (2 after s rows)
  then show ?case using id_page_advances [of after s rows] by simp
qed simp

declare log_ids.simps [simp del]

section \<open>The probe of a store\<close>

record lineage_row =
  lr_hash :: string
  lr_digest :: string
  lr_reference :: "file_reference option"
  lr_prints :: "(string \<times> string) option"

definition probe_normal :: "dict \<Rightarrow> dict option rec_res" where
  "probe_normal row = (case normalize_record row ''swap'' [] of
     Inl (AnnotationExn (AnnotationValidationError p r)) \<Rightarrow> Inr None
   | Inl e \<Rightarrow> Inl e
   | Inr n \<Rightarrow> Inr (Some (nr_fields n)))"

definition probe_reference :: "dict \<Rightarrow> py_exn + file_reference option" where
  "probe_reference row =
     (if str_or_empty row ''memory_type'' = ''file'' \<and> truthy (dget row ''source_uri'') then
        rbind (py_int (por (dget row ''byte_offset'') (JInt 0))) (\<lambda>off.
        rbind (py_int (por (dget row ''byte_length'') (JInt 0))) (\<lambda>len.
        Inr (Some \<lparr>fr_memory = str_or_empty row ''id'', fr_uri = str_or_empty row ''source_uri'', fr_offset = off,
          fr_length = len, fr_format = dget row ''source_format'', fr_checksum = dget row ''source_checksum'',
          fr_attachment = JNull\<rparr>)))
      else Inr None)"

definition probe_prints :: "dict option \<Rightarrow> py_exn + (string \<times> string) option" where
  "probe_prints n = (case n of
     None \<Rightarrow> Inr None
   | Some d \<Rightarrow> rbind (fingerprint_of_normalized d) (\<lambda>f. rbind (lineage_of_normalized d) (\<lambda>l. Inr (Some (f, l)))))"

definition probe_row :: "normalizer \<Rightarrow> dict \<Rightarrow> lineage_row rec_res" where
  "probe_row nfc row =
     rbind (probe_normal row) (\<lambda>n.
     rbind (semantic_record_digest nfc ''snapshot'' [] row n) (\<lambda>d.
     rbind (of_py (probe_reference row)) (\<lambda>ref.
     rbind (of_py (probe_prints n)) (\<lambda>ps.
     Inr \<lparr>lr_hash = str_or_empty row ''content_hash'', lr_digest = d, lr_reference = ref, lr_prints = ps\<rparr>))))"

definition base_scope_of :: "store \<Rightarrow> dict option" where
  "base_scope_of s = (case loads (meta_str ''base_snapshot_scope'' s) of Some (JObj d) \<Rightarrow> Some d | _ \<Rightarrow> None)"

definition post_events :: "int \<Rightarrow> (int \<times> string \<times> string) list \<Rightarrow> nat" where
  "post_events anchor rows = length (filter (\<lambda>(seq, i, ty). anchor < seq \<and> ty \<in> set MUTATING_EVENT_TYPES) rows)"

definition diverged :: "mount_ident \<Rightarrow> string \<Rightarrow> string \<Rightarrow> bool" where
  "diverged i state lineage =
     (if mi_base_lineage_fingerprint i \<noteq> [] then lineage \<noteq> mi_base_lineage_fingerprint i
      else if mi_base_state_fingerprint i \<noteq> [] then state \<noteq> mi_base_state_fingerprint i
      else False)"

record lineage_probe =
  lp_identity :: mount_ident
  lp_snapshot :: string
  lp_digests :: "string list"
  lp_references :: "file_reference list"
  lp_scope :: "dict option"
  lp_state :: string
  lp_lineage :: string
  lp_head_seq :: int
  lp_head_event :: string
  lp_events :: "(int \<times> string) list"
  lp_mutations :: nat

definition extract_lineage_probe :: "normalizer \<Rightarrow> store \<Rightarrow> lineage_probe db_res" where
  "extract_lineage_probe nfc s =
     rbind (mount_identity [] s) (\<lambda>i.
     rbind (event_log_bounds s) (\<lambda>b.
     rbind (of_rec (traverse (probe_row nfc) (iter_rows False s))) (\<lambda>rows.
     let prints = List.map_filter lr_prints rows;
         state = state_fingerprint_from_list (map fst prints);
         lineage = state_fingerprint_from_list (map snd prints);
         ids = log_ids 0 s in
     Inr \<lparr>lp_identity = i, lp_snapshot = logical_id (filter (\<lambda>h. h \<noteq> []) (map lr_hash rows)),
          lp_digests = map lr_digest rows, lp_references = List.map_filter lr_reference rows,
          lp_scope = base_scope_of s, lp_state = state, lp_lineage = lineage, lp_head_seq = lb_head_seq b,
          lp_head_event = lb_head_event_id b, lp_events = map (\<lambda>(seq, i, ty). (seq, i)) ids,
          lp_mutations = post_events (max (mi_cloned_at_seq i) (mi_forked_at_seq i)) ids
            + (if diverged i state lineage then 1 else 0)\<rparr>)))"

definition semantic_probe_id :: "normalizer \<Rightarrow> lineage_probe \<Rightarrow> dict option \<Rightarrow> string db_res" where
  "semantic_probe_id nfc p scope =
     of_rec (semantic_id_from_digests nfc (lp_digests p) (map ReferenceObject (lp_references p)) scope)"

section \<open>Classification\<close>

record lineage_result =
  lx_source_mount :: string
  lx_target_mount :: string
  lx_source_replica :: string
  lx_target_replica :: string
  lx_source_history :: string
  lx_target_history :: string
  lx_relationship :: string
  lx_same_mount :: bool
  lx_same_replica :: bool
  lx_reason :: string

definition classified :: "mount_ident \<Rightarrow> mount_ident \<Rightarrow> string \<Rightarrow> string \<Rightarrow> lineage_result" where
  "classified s t rel reason =
     \<lparr>lx_source_mount = mi_mount_id s, lx_target_mount = mi_mount_id t, lx_source_replica = mi_replica_id s,
      lx_target_replica = mi_replica_id t, lx_source_history = mi_history_id s, lx_target_history = mi_history_id t,
      lx_relationship = rel, lx_same_mount = (rel \<noteq> ''different_mount''), lx_same_replica = (rel = ''same_replica''),
      lx_reason = reason\<rparr>"

definition different_lineage :: "lineage_probe \<Rightarrow> lineage_probe \<Rightarrow> bool" where
  "different_lineage p q = (lp_lineage p \<noteq> [] \<and> lp_lineage q \<noteq> [] \<and> lp_lineage p \<noteq> lp_lineage q)"

definition divergent_ids :: "lineage_probe \<Rightarrow> lineage_probe \<Rightarrow> bool" where
  "divergent_ids p q = list_ex (\<lambda>(seq, i). case map_of (lp_events q) seq of Some j \<Rightarrow> i \<noteq> j | None \<Rightarrow> False) (lp_events p)"

definition cloned_from :: "normalizer \<Rightarrow> lineage_probe \<Rightarrow> lineage_probe \<Rightarrow> bool db_res" where
  "cloned_from nfc p q =
     (let s = lp_identity p; t = lp_identity q in
      if mi_base_source_replica_id t \<noteq> [] \<and> mi_base_source_replica_id t = mi_replica_id s then Inr True
      else if mi_base_snapshot_id t = [] then Inr False
      else rbind (semantic_probe_id nfc p (lp_scope q)) (\<lambda>h.
        Inr (mi_base_snapshot_id t \<in> {lp_snapshot p, h, mi_base_snapshot_id s})))"

definition fork_link :: "mount_ident \<Rightarrow> mount_ident \<Rightarrow> bool" where
  "fork_link s t =
     (mi_parent_replica_id t \<noteq> [] \<and> mi_parent_replica_id t = mi_replica_id s
      \<or> mi_parent_replica_id s \<noteq> [] \<and> mi_parent_replica_id s = mi_replica_id t
      \<or> mi_parent_replica_id t \<noteq> [] \<and> mi_parent_replica_id s \<noteq> [] \<and> mi_parent_replica_id t = mi_parent_replica_id s)"

definition clone_verdict :: "lineage_probe \<Rightarrow> string \<times> string" where
  "clone_verdict p =
     (if lp_mutations p > 0 then (''fork'', ''clone_diverged_after_base'') else (''clone'', ''clean_clone_of_mount''))"

definition copy_verdict :: "lineage_probe \<Rightarrow> lineage_probe \<Rightarrow> string \<times> string" where
  "copy_verdict p q =
     (if divergent_ids p q then (''fork'', ''divergent_event_id_at_same_seq'')
      else if different_lineage p q then (''fork'', ''divergent_state_on_copied_replica'')
      else (''same_replica'', ''identical_replica_and_history''))"

definition branch_verdict :: "lineage_probe \<Rightarrow> lineage_probe \<Rightarrow> bool \<Rightarrow> bool \<Rightarrow> string \<times> string" where
  "branch_verdict p q dst_cloned src_cloned =
     (if fork_link (lp_identity p) (lp_identity q) then
        (if lp_mutations q > 0 \<or> lp_mutations p > 0 \<or> different_lineage p q then (''fork'', ''divergent_runtime_fork'')
         else (''clone'', ''unmodified_fork_branch''))
      else if dst_cloned then clone_verdict q
      else if src_cloned then clone_verdict p
      else (''replacement'', ''unanchored_replica_history_replacement''))"

definition compare_probes :: "normalizer \<Rightarrow> lineage_probe \<Rightarrow> lineage_probe \<Rightarrow> lineage_result db_res" where
  "compare_probes nfc p q =
     (let s = lp_identity p; t = lp_identity q; verdict = (\<lambda>(rel, reason). classified s t rel reason) in
      if mi_mount_id s = [] \<or> mi_mount_id t = [] \<or> mi_mount_id s \<noteq> mi_mount_id t
      then Inr (verdict (''different_mount'', ''mount_id_mismatch''))
      else if mi_replica_id s \<noteq> [] \<and> mi_replica_id s = mi_replica_id t \<and> mi_history_id s = mi_history_id t
      then Inr (verdict (copy_verdict p q))
      else rbind (cloned_from nfc p q) (\<lambda>dst_cloned.
        rbind (cloned_from nfc q p) (\<lambda>src_cloned.
        Inr (verdict (branch_verdict p q dst_cloned src_cloned)))))"

definition compare_mount_lineage :: "normalizer \<Rightarrow> store \<Rightarrow> store \<Rightarrow> lineage_result db_res" where
  "compare_mount_lineage nfc source target =
     rbind (extract_lineage_probe nfc source) (\<lambda>p.
     rbind (extract_lineage_probe nfc target) (\<lambda>q. compare_probes nfc p q))"

end
