(* ===== verification/LineageFacts.thy ===== *)
theory LineageFacts
  imports Lineage
begin

text \<open>
  What the classification of two stores says about them: \<open>same_replica\<close> means that the logs and the
  states agree, a store that has just been bound to its source is a clean clone of it, and a clone that
  writes to its own log becomes a fork.
\<close>

section \<open>The probe\<close>

lemma id_page_take:
  assumes "log_inv s"
  shows "event_id_page n ID_PAGE s
    = map (\<lambda>e. (ev_seq e, ev_id e, ev_type e)) (take 1000 (filter (after_filter None n) (st_events s)))"
proof -
  have "event_matches (any_event\<lparr>qf_after := Some n\<rparr>) = after_filter None n"
    by (auto simp: fun_eq_iff event_matches_def any_event_def when_given_def after_filter_def)
  then show ?thesis
    by (simp add: event_id_page_def select_events_def sql_limit_def select_all [OF assms] ID_PAGE_def)
qed

text \<open>What is left of the log after a full page of \<open>k\<close> events is the log after the last event of the page.\<close>

lemma rest_of_log:
  assumes "log_inv s" "0 < k" "k \<le> length (filter (after_filter ns n) (st_events s))"
  shows "drop k (filter (after_filter ns n) (st_events s))
    = filter (after_filter ns (ev_seq (filter (after_filter ns n) (st_events s) ! (k - 1)))) (st_events s)"
proof -
  let ?L = "filter (after_filter ns n) (st_events s)"
  have so: "sorted_wrt (<) (map ev_seq ?L)"
    using assms(1) by (auto simp: log_inv_def sorted_wrt_map intro: sorted_wrt_filter)
  have "n < ev_seq (?L ! (k - 1))" using nth_mem [of "k - 1" ?L] assms(2,3) by (auto simp: after_filter_def)
  then show ?thesis
    unfolding drop_sorted_filter [OF so assms(2,3)] by (auto simp: after_filter_def intro!: filter_cong)
qed

lemma log_ids_all:
  "log_inv s \<Longrightarrow> log_ids n s = map (\<lambda>e. (ev_seq e, ev_id e, ev_type e)) (filter (after_filter None n) (st_events s))"
proof (induction n s rule: log_ids.induct)
  case (1 n s)
  let ?L = "filter (after_filter None n) (st_events s)" and ?f = "\<lambda>e. (ev_seq e, ev_id e, ev_type e)"
  have e: "event_id_page n ID_PAGE s = map ?f (take 1000 ?L)" by (rule id_page_take [OF "1.prems"])
  show ?case
  proof (cases "length ?L < 1000")
    case True
    then show ?thesis by (subst log_ids.simps) (simp add: e [unfolded ID_PAGE_def] Let_def ID_PAGE_def)
  next
    case False
    then have len: "length (take 1000 ?L) = 1000" by simp
    have ne: "event_id_page n ID_PAGE s \<noteq> []" using False by (cases ?L) (auto simp: e)
    have last: "fst (last (event_id_page n ID_PAGE s)) = ev_seq (?L ! 999)"
      using False ne by (simp add: e last_map last_conv_nth)
    have "log_ids n s = event_id_page n ID_PAGE s @ log_ids (fst (last (event_id_page n ID_PAGE s))) s"
      using ne len by (subst log_ids.simps) (simp add: Let_def e [unfolded ID_PAGE_def] ID_PAGE_def)
    also have "\<dots> = map ?f (take 1000 ?L @ drop 1000 ?L)"
      using "1.IH" [OF refl ne _ "1.prems"] len rest_of_log [OF "1.prems", of 1000 None n] False
      unfolding last by (simp add: e [unfolded ID_PAGE_def] ID_PAGE_def)
    finally show ?thesis by simp
  qed
qed

lemma log_ids_whole: "log_inv s \<Longrightarrow> log_ids 0 s = map (\<lambda>e. (ev_seq e, ev_id e, ev_type e)) (st_events s)"
  by (auto simp: log_ids_all after_filter_def log_inv_def intro!: filter_True)

lemma probed_row:
  assumes "probe_row nfc row = Inr r"
  shows "case lineage_record_fingerprint row [] of
      Inl e \<Rightarrow> (\<exists>p q. e = AnnotationExn (AnnotationValidationError p q)) \<and> lr_prints r = None
    | Inr fp \<Rightarrow> \<exists>f. lr_prints r = Some (f, fp)"
proof -
  obtain n ps where n: "probe_normal row = Inr n" "of_py (probe_prints n) = Inr ps" "lr_prints r = ps"
    using assms by (auto simp: probe_row_def rbind_eq_Inr)
  then show ?thesis
    by (auto simp: probe_normal_def lineage_record_fingerprint_def probe_prints_def rbind_eq_Inr
        split: sum.splits rec_exn.splits ann_error.splits) metis
qed

lemma probed_lineage:
  "traverse (probe_row nfc) rows = Inr rs
    \<Longrightarrow> lineage_fingerprints (map (\<lambda>r. (r, [])) rows) = Inr (map snd (List.map_filter lr_prints rs))"
proof (induction rows arbitrary: rs)
  case (Cons row rows)
  obtain r rs' where r: "probe_row nfc row = Inr r" "traverse (probe_row nfc) rows = Inr rs'" "rs = r # rs'"
    using Cons.prems by (auto simp: rbind_eq_Inr)
  show ?case
    using probed_row [OF r(1)] Cons.IH [OF r(2)] by (auto simp: r(3) List.map_filter_simps split: sum.splits)
qed (simp add: List.map_filter_simps)

lemma extracted_probe:
  assumes "extract_lineage_probe nfc s = Inr p"
  shows "mount_identity [] s = Inr (lp_identity p)" "lineage_of_store s = Inr (lp_lineage p)" "lp_lineage p \<noteq> []"
    "log_inv s \<Longrightarrow> lp_events p = map (\<lambda>e. (ev_seq e, ev_id e)) (st_events s)"
    "log_inv s \<Longrightarrow> lp_mutations p =
       length (filter (\<lambda>e. max (mi_cloned_at_seq (lp_identity p)) (mi_forked_at_seq (lp_identity p)) < ev_seq e
         \<and> ev_type e \<in> set MUTATING_EVENT_TYPES) (st_events s))
       + (if diverged (lp_identity p) (lp_state p) (lp_lineage p) then 1 else 0)"
proof -
  obtain i b rows where i: "mount_identity [] s = Inr i" and b: "event_log_bounds s = Inr b"
    and rows: "of_rec (traverse (probe_row nfc) (iter_rows False s)) = Inr rows"
    using assms by (auto simp: extract_lineage_probe_def rbind_eq_Inr)
  note p = assms [unfolded extract_lineage_probe_def, simplified i b rows rbind_simps Let_def, THEN sum.inject(2) [THEN iffD1], symmetric]
  show "mount_identity [] s = Inr (lp_identity p)" by (simp add: p i)
  have "traverse (probe_row nfc) (iter_rows False s) = Inr rows"
    using rows by (auto simp: of_rec_def map_sum_eq_Inr)
  from probed_lineage [OF this] show "lineage_of_store s = Inr (lp_lineage p)"
    by (simp add: p lineage_of_store_def lineage_fingerprint_def)
  show "lp_lineage p \<noteq> []" by (simp add: p state_fingerprint_from_list_def)
  show "log_inv s \<Longrightarrow> lp_events p = map (\<lambda>e. (ev_seq e, ev_id e)) (st_events s)"
    by (simp add: p log_ids_whole)
  show "log_inv s \<Longrightarrow> lp_mutations p =
       length (filter (\<lambda>e. max (mi_cloned_at_seq (lp_identity p)) (mi_forked_at_seq (lp_identity p)) < ev_seq e
         \<and> ev_type e \<in> set MUTATING_EVENT_TYPES) (st_events s))
       + (if diverged (lp_identity p) (lp_state p) (lp_lineage p) then 1 else 0)"
    by (simp add: p log_ids_whole post_events_def filter_map comp_def)
qed

section \<open>What the relationships mean\<close>

lemma compare_Inr:
  assumes "compare_mount_lineage nfc s t = Inr r"
  obtains p q where "extract_lineage_probe nfc s = Inr p" "extract_lineage_probe nfc t = Inr q" "compare_probes nfc p q = Inr r"
  using assms by (auto simp: compare_mount_lineage_def rbind_eq_Inr)

lemma classified_simps [simp]:
  "lx_relationship (classified s t rel reason) = rel" "lx_reason (classified s t rel reason) = reason"
  "lx_same_replica (classified s t rel reason) = (rel = ''same_replica'')"
  by (simp_all add: classified_def)

lemma branch_not_same [simp]: "fst (branch_verdict p q a b) \<noteq> ''same_replica''"
  by (simp add: branch_verdict_def clone_verdict_def)

lemma copy_same:
  assumes "copy_verdict p q = (''same_replica'', x)"
  shows "\<not> divergent_ids p q \<and> \<not> different_lineage p q"
  using assms by (auto simp: copy_verdict_def split: if_splits)

lemma divergent_ids_log:
  assumes "log_inv t" "lp_events p = map (\<lambda>e. (ev_seq e, ev_id e)) (st_events s)"
    "lp_events q = map (\<lambda>e. (ev_seq e, ev_id e)) (st_events t)"
  shows "divergent_ids p q \<longleftrightarrow> (\<exists>e \<in> set (st_events s). \<exists>e' \<in> set (st_events t). ev_seq e = ev_seq e' \<and> ev_id e \<noteq> ev_id e')"
proof -
  have "distinct (map fst (lp_events q))"
    using log_distinct_seq [OF assms(1)] by (simp add: assms(3) keys_distinct_def comp_def)
  then have m: "map_of (lp_events q) n = Some j \<longleftrightarrow> (\<exists>e' \<in> set (st_events t). ev_seq e' = n \<and> ev_id e' = j)" for n j
    by (auto simp: map_of_eq_Some_iff assms(3))
  have d: "divergent_ids p q \<longleftrightarrow> (\<exists>e \<in> set (st_events s). \<exists>j. map_of (lp_events q) (ev_seq e) = Some j \<and> ev_id e \<noteq> j)"
    by (auto simp: divergent_ids_def list_ex_iff assms(2) split: option.splits)
  show ?thesis unfolding d m by metis
qed

text \<open>Two stores are called the same replica only if they are copies of one log: the identities agree, wherever
  both logs have an event at a position it is the same event, and the lineage fingerprints of their records agree.
\<close>

theorem same_replica_sound:
  assumes "compare_mount_lineage nfc s t = Inr r" "lx_relationship r = ''same_replica''" "store_inv s" "store_inv t"
    and "mount_identity [] s = Inr i" "mount_identity [] t = Inr j"
    and "e \<in> set (st_events s)" "e' \<in> set (st_events t)" "ev_seq e = ev_seq e'"
  shows "mi_mount_id i = mi_mount_id j \<and> mi_replica_id i = mi_replica_id j \<and> mi_history_id i = mi_history_id j
    \<and> mi_mount_id i \<noteq> [] \<and> mi_replica_id i \<noteq> [] \<and> ev_id e = ev_id e' \<and> lineage_of_store s = lineage_of_store t"
proof -
  obtain p q where p: "extract_lineage_probe nfc s = Inr p" and q: "extract_lineage_probe nfc t = Inr q"
    and c: "compare_probes nfc p q = Inr r" by (rule compare_Inr [OF assms(1)])
  note fp = extracted_probe [OF p] and fq = extracted_probe [OF q]
  have l: "log_inv s" "log_inv t" using assms(3,4) by (simp_all add: store_inv_def)
  have id: "lp_identity p = i" "lp_identity q = j" using fp(1) fq(1) assms(5,6) by simp_all
  obtain x where v: "copy_verdict p q = (''same_replica'', x)"
    "mi_mount_id i = mi_mount_id j \<and> mi_replica_id i = mi_replica_id j \<and> mi_history_id i = mi_history_id j
      \<and> mi_mount_id i \<noteq> [] \<and> mi_replica_id i \<noteq> []"
    using c assms(2)
    by (auto simp: compare_probes_def Let_def id rbind_eq_Inr case_prod_beta prod_eq_iff split: if_splits)
  note n = copy_same [OF v(1)]
  have "ev_id e = ev_id e'"
    using n divergent_ids_log [OF l(2) fp(4) [OF l(1)] fq(4) [OF l(2)]] assms(7-9) by blast
  moreover have "lp_lineage p = lp_lineage q" using n fp(3) fq(3) by (simp add: different_lineage_def)
  ultimately show ?thesis using v(2) fp(2) fq(2) by auto
qed

section \<open>Clones\<close>

lemma mount_identity_meta: "st_meta u = st_meta s \<Longrightarrow> mount_identity g u = mount_identity g s"
  by (simp add: mount_identity_def meta_int_def meta_str_def get_meta_def)

lemma lineage_of_store_memories: "st_memories u = st_memories s \<Longrightarrow> lineage_of_store u = lineage_of_store s"
  by (simp add: lineage_of_store_def iter_rows_def)

lemma set_if_frame [simp]:
  "st_memories (set_if c k v s) = st_memories s" "st_events (set_if c k v s) = st_events s"
  "st_last_seq (set_if c k v s) = st_last_seq s"
  by (simp_all add: set_if_def set_meta_def)

lemma clone_identity_frame [simp]:
  "st_memories (clone_identity b a r h s) = st_memories s" "st_events (clone_identity b a r h s) = st_events s"
  "st_last_seq (clone_identity b a r h s) = st_last_seq s"
  by (simp_all add: clone_identity_def rotate_id_def bind_mount_def set_meta_def Let_def)

text \<open>What binding a target to its source leaves behind.\<close>

lemma bound_clone:
  assumes "record_clone_lineage b True nr nh t = Inr (t', j)" "strip (cb_mount b) \<noteq> []" "strip (cb_replica b) \<noteq> []"
    and "nr \<noteq> strip (cb_replica b)"
  shows "mount_identity [] t' = Inr j" "mi_mount_id j = strip (cb_mount b)" "mi_base_source_replica_id j = strip (cb_replica b)"
    "mi_replica_id j \<noteq> strip (cb_replica b)" "mi_parent_replica_id j = meta_str ''parent_replica_id'' t"
    "mi_mount_bound j" "mi_cloned_at_seq j = max_seq (st_events t)" "lineage_of_store t' = Inr (mi_base_lineage_fingerprint j)"
    "st_memories t' = st_memories t" "st_events t' = st_events t" "st_last_seq t' = st_last_seq t"
proof -
  let ?c = "clone_identity b True nr nh t"
  obtain fp k where fp: "lineage_of_store ?c = Inr fp" and k: "k = max_seq (st_events t)"
    and t': "t' = set_meta ''cloned_at_seq'' (int_str k) (set_if (cb_cursor b \<noteq> []) ''base_cursor'' (cb_cursor b)
      (set_meta ''base_lineage_fingerprint'' fp ?c))"
    and j: "mount_identity [] t' = Inr j"
    using assms(1) by (auto simp: record_clone_lineage_def event_log_bounds_def rbind_eq_Inr Let_def)
  show "mount_identity [] t' = Inr j" by (rule j)
  show f: "st_memories t' = st_memories t" "st_events t' = st_events t" "st_last_seq t' = st_last_seq t"
    by (simp_all add: t')
  show "mi_mount_id j = strip (cb_mount b)" "mi_base_source_replica_id j = strip (cb_replica b)"
    "mi_replica_id j \<noteq> strip (cb_replica b)" "mi_parent_replica_id j = meta_str ''parent_replica_id'' t" "mi_mount_bound j"
    using assms(2-)
    by (simp_all add: mount_identity_fields [OF j] t' clone_identity_def rotate_id_def set_if_def bind_mount_def Let_def)
  have "mi_base_lineage_fingerprint j = fp" "meta_int ''cloned_at_seq'' t' = Inr (mi_cloned_at_seq j)"
    using j by (auto simp: mount_identity_def rbind_eq_Inr t' set_if_def)
  then show "lineage_of_store t' = Inr (mi_base_lineage_fingerprint j)" "mi_cloned_at_seq j = max_seq (st_events t)"
    using fp lineage_of_store_memories [of t' ?c] f by (simp_all add: t' k)
qed

lemma clone_compared:
  assumes "compare_mount_lineage nfc s u = Inr r" "mount_identity [] s = Inr i" "mount_identity [] u = Inr j"
    and "mi_mount_id i \<noteq> []" "mi_mount_id j = mi_mount_id i" "mi_replica_id i \<noteq> []" "mi_replica_id j \<noteq> mi_replica_id i"
    and "mi_base_source_replica_id j = mi_replica_id i" "mi_parent_replica_id i = []" "mi_parent_replica_id j = []"
  shows "\<exists>q. extract_lineage_probe nfc u = Inr q \<and> (lx_relationship r, lx_reason r) = clone_verdict q"
proof -
  obtain p q where p: "extract_lineage_probe nfc s = Inr p" and q: "extract_lineage_probe nfc u = Inr q"
    and c: "compare_probes nfc p q = Inr r" by (rule compare_Inr [OF assms(1)])
  have id: "lp_identity p = i" "lp_identity q = j" using extracted_probe(1) [OF p] extracted_probe(1) [OF q] assms(2,3) by simp_all
  have "\<not> fork_link i j" "cloned_from nfc p q = Inr True"
    using assms(4-) by (simp_all add: fork_link_def cloned_from_def id Let_def)
  then have "(lx_relationship r, lx_reason r) = clone_verdict q"
    using c assms(4-) by (auto simp: compare_probes_def Let_def id rbind_eq_Inr branch_verdict_def case_prod_beta)
  with q show ?thesis by blast
qed

lemma no_later_events: "max_seq evs \<le> n \<Longrightarrow> filter (\<lambda>e. n < ev_seq e \<and> P e) evs = []"
  by (auto simp: filter_empty_conv dest: max_seq_ge)

lemma clone_mutations:
  assumes "extract_lineage_probe nfc u = Inr q" "log_inv u" "mount_identity [] u = Inr j"
    and "lineage_of_store u = Inr (mi_base_lineage_fingerprint j)"
  shows "lp_mutations q = length (filter (\<lambda>e. max (mi_cloned_at_seq j) (mi_forked_at_seq j) < ev_seq e
         \<and> ev_type e \<in> set MUTATING_EVENT_TYPES) (st_events u))"
proof -
  note f = extracted_probe [OF assms(1)]
  have id: "lp_identity q = j" using f(1) assms(3) by simp
  have l: "lp_lineage q = mi_base_lineage_fingerprint j" using f(2) assms(4) by simp
  show ?thesis using f(5) [OF assms(2)] f(3) by (simp add: id diverged_def l)
qed

lemma clean_clone:
  assumes "record_clone_lineage b True nr nh t = Inr (t', j)" "store_inv t" "mount_identity [] s = Inr i"
    and "strip (cb_mount b) = mi_mount_id i" "strip (cb_replica b) = mi_replica_id i"
    and "mi_mount_id i \<noteq> []" "mi_replica_id i \<noteq> []" "nr \<noteq> mi_replica_id i"
    and "mi_parent_replica_id i = []" "meta_str ''parent_replica_id'' t = []"
    and "compare_mount_lineage nfc s t' = Inr r"
  shows "lx_relationship r = ''clone'' \<and> lx_reason r = ''clean_clone_of_mount''"
proof -
  have "strip (cb_mount b) \<noteq> []" "strip (cb_replica b) \<noteq> []" "nr \<noteq> strip (cb_replica b)" using assms(4-8) by simp_all
  note b = bound_clone [OF assms(1) this]
  obtain q where q: "extract_lineage_probe nfc t' = Inr q" "(lx_relationship r, lx_reason r) = clone_verdict q"
    using clone_compared [OF assms(11,3) b(1)] assms(4-10) b by auto
  have "log_inv t'" using record_clone_lineage_inv [OF assms(2,1)] by (simp add: store_inv_def)
  from clone_mutations [OF q(1) this b(1,8)] have "lp_mutations q = 0" by (simp add: b(7,10) no_later_events)
  with q(2) show ?thesis by (simp add: clone_verdict_def)
qed

text \<open>C14. A target that has just been bound to its source is recognised as a clean clone of it, when neither of the two
  has a parent replica: whatever the rows and the log of the target were, the binding starts its lineage afresh, so no
  earlier event and no earlier fingerprint counts as a divergence.
\<close>

theorem clean_clone_recognised:
  assumes "record_clone_lineage b True nr nh t = Inr (t', j)" "store_inv t" "mount_identity [] s = Inr i"
    and "strip (cb_mount b) = mi_mount_id i" "strip (cb_replica b) = mi_replica_id i"
    and "mi_mount_id i \<noteq> []" "mi_replica_id i \<noteq> []" "nr \<noteq> mi_replica_id i"
    and "mi_parent_replica_id i = []" "meta_str ''parent_replica_id'' t = []"
    and "compare_mount_lineage nfc s t' = Inr r"
  shows "lx_relationship r = ''clone'' \<and> lx_reason r = ''clean_clone_of_mount''"
  using assms by (rule clean_clone)

text \<open>Independent writes turn a clone into a fork.\<close>

lemma clone_write_diverges:
  assumes "record_clone_lineage b True nr nh t = Inr (t', j)" "store_inv t" "mount_identity [] s = Inr i"
    and "strip (cb_mount b) = mi_mount_id i" "strip (cb_replica b) = mi_replica_id i"
    and "mi_mount_id i \<noteq> []" "mi_replica_id i \<noteq> []" "nr \<noteq> mi_replica_id i"
    and "mi_parent_replica_id i = []" "meta_str ''parent_replica_id'' t = []" "mi_forked_at_seq j = 0"
    and "append_event n now ty m ns pl at t' = Inr (u, e)" "ty \<in> set MUTATING_EVENT_TYPES"
    and "compare_mount_lineage nfc s u = Inr r"
  shows "lx_relationship r = ''fork'' \<and> lx_reason r = ''clone_diverged_after_base''"
proof -
  have "strip (cb_mount b) \<noteq> []" "strip (cb_replica b) \<noteq> []" "nr \<noteq> strip (cb_replica b)" using assms(4-8) by simp_all
  note b = bound_clone [OF assms(1) this]
  have inv: "store_inv t'" by (rule record_clone_lineage_inv [OF assms(2,1)])
  note fr = append_event_frame(5,6) [OF assms(12)]
  have u: "mount_identity [] u = Inr j" "lineage_of_store u = Inr (mi_base_lineage_fingerprint j)"
    by (simp_all add: mount_identity_meta [OF fr(1)] lineage_of_store_memories [OF fr(2)] b(1,8))
  obtain q where q: "extract_lineage_probe nfc u = Inr q" "(lx_relationship r, lx_reason r) = clone_verdict q"
    using clone_compared [OF assms(14,3) u(1)] assms(4-10) b by auto
  obtain row where row: "st_events u = st_events t' @ [row]" "ev_seq row = st_last_seq t' + 1" "ev_type row = ty"
    by (rule append_event_result [OF assms(12)]) (auto intro: that)
  have "max_seq (st_events t) \<le> st_last_seq t" "0 \<le> st_last_seq t"
    using assms(2) by (auto simp: store_inv_def log_inv_def intro: max_seq_le)
  then have "0 < lp_mutations q"
    using clone_mutations [OF q(1) _ u] append_event_inv [OF inv assms(12)] assms(11,13)
    by (simp add: store_inv_def row b(7,11))
  with q(2) show ?thesis by (simp add: clone_verdict_def)
qed

section \<open>Examples\<close>

lemma empty_probe:
  assumes "st_memories s = []" "store_inv s" "mount_identity [] s = Inr i"
  shows "\<exists>p. extract_lineage_probe nfc s = Inr p"
proof -
  have "iter_rows False s = []" by (simp add: iter_rows_def assms(1))
  then show ?thesis
    using bounds_total [OF assms(2)] assms(3) by (auto simp: extract_lineage_probe_def of_rec_def Let_def)
qed

lemma compare_total:
  assumes "extract_lineage_probe nfc s = Inr p" "extract_lineage_probe nfc t = Inr q"
    and "mi_base_snapshot_id (lp_identity p) = []" "mi_base_snapshot_id (lp_identity q) = []"
  shows "\<exists>r. compare_mount_lineage nfc s t = Inr r"
proof -
  have "\<exists>x. cloned_from nfc p q = Inr x" "\<exists>x. cloned_from nfc q p = Inr x"
    using assms(3,4) by (auto simp: cloned_from_def Let_def)
  then show ?thesis by (auto simp: compare_mount_lineage_def compare_probes_def Let_def assms(1,2))
qed

lemma clone_total:
  assumes "st_memories t = []" "store_inv t" "meta_int ''forked_at_seq'' t = Inr n"
  shows "\<exists>t' j. record_clone_lineage b True nr nh t = Inr (t', j)"
proof -
  let ?c = "clone_identity b True nr nh t"
  obtain fp where fp: "lineage_of_store ?c = Inr fp"
    using assms(1) by (simp add: lineage_of_store_def iter_rows_def lineage_fingerprint_def)
  let ?s = "set_if (cb_cursor b \<noteq> []) ''base_cursor'' (cb_cursor b) (set_meta ''base_lineage_fingerprint'' fp ?c)"
  have "store_inv ?s" using assms(2) by (auto simp: clone_identity_def rotate_id_def Let_def meta_inv MARK_KEYS_def)
  then obtain bs where bs: "event_log_bounds ?s = Inr bs" using bounds_total by blast
  have "meta_int ''trimmed_through_seq'' ?s = Inr (lb_trimmed bs)" using event_log_bounds_Inr [OF bs] by blast
  moreover have "meta_int ''forked_at_seq'' ?s = Inr n"
    using assms(3) by (simp add: clone_identity_def rotate_id_def set_if_def bind_mount_def Let_def meta_int_set_other)
  ultimately obtain j where "mount_identity [] (set_meta ''cloned_at_seq'' (int_str (lb_max_seq bs)) ?s) = Inr j"
    using mount_identity_ok [of "set_meta ''cloned_at_seq'' (int_str (lb_max_seq bs)) ?s" n "lb_max_seq bs" "lb_trimmed bs" "[]"]
    by (auto simp: meta_int_set_other)
  then show ?thesis by (simp add: record_clone_lineage_def fp bs Let_def)
qed

definition example_base :: clone_base where
  "example_base = \<lparr>cb_mount = ''mnt-1'', cb_replica = ''rep-1'', cb_history = ''hist-1'', cb_snapshot = [],
     cb_state_fingerprint = [], cb_cursor = [], cb_scope = []\<rparr>"

lemma source_facts:
  "\<exists>i. mount_identity [] cursor_store = Inr i \<and> mi_mount_id i = ''mnt-1'' \<and> mi_replica_id i = ''rep-1''
     \<and> mi_parent_replica_id i = [] \<and> mi_base_snapshot_id i = []"
  "st_memories cursor_store = []" "st_memories example_store = []" "meta_int ''forked_at_seq'' example_store = Inr 0"
  "meta_str ''parent_replica_id'' example_store = []" "meta_str ''base_snapshot_id'' example_store = []"
  "strip (cb_mount example_base) = ''mnt-1''" "strip (cb_replica example_base) = ''rep-1''"
proof -
  have "\<not> isl (mount_identity [] cursor_store)" by code_simp
  then obtain i where i: "mount_identity [] cursor_store = Inr i" by (cases "mount_identity [] cursor_store") auto
  have "meta_str ''mount_id'' cursor_store = ''mnt-1''" "meta_str ''replica_id'' cursor_store = ''rep-1''"
    "meta_str ''parent_replica_id'' cursor_store = []" "meta_str ''base_snapshot_id'' cursor_store = []" by code_simp+
  then show "\<exists>i. mount_identity [] cursor_store = Inr i \<and> mi_mount_id i = ''mnt-1'' \<and> mi_replica_id i = ''rep-1''
     \<and> mi_parent_replica_id i = [] \<and> mi_base_snapshot_id i = []"
    using i mount_identity_fields [OF i] by simp
qed (code_simp+)

lemma same_replica_sound_witness:
  "\<exists>r. compare_mount_lineage id cursor_store cursor_store = Inr r \<and> lx_relationship r = ''same_replica''
     \<and> lineage_of_store cursor_store = lineage_of_store cursor_store"
proof -
  obtain i where i: "mount_identity [] cursor_store = Inr i" "mi_mount_id i = ''mnt-1''" "mi_replica_id i = ''rep-1''"
    using source_facts(1) by blast
  obtain p where p: "extract_lineage_probe id cursor_store = Inr p"
    using empty_probe [OF source_facts(2) cursor_store_inv i(1)] by blast
  have l: "log_inv cursor_store" using cursor_store_inv by (simp add: store_inv_def)
  note f = extracted_probe [OF p]
  have id: "lp_identity p = i" using f(1) i(1) by simp
  have "\<not> divergent_ids p p"
    using divergent_ids_log [OF l f(4) [OF l] f(4) [OF l]] log_distinct_seq [OF l]
    by (metis event_at_seq_iff [OF l] option.inject)
  then have c: "compare_mount_lineage id cursor_store cursor_store
      = Inr (classified i i ''same_replica'' ''identical_replica_and_history'')"
    by (simp add: compare_mount_lineage_def p compare_probes_def id i copy_verdict_def different_lineage_def)
  obtain e where e: "e \<in> set (st_events cursor_store)"
    by (cases "st_events cursor_store") (auto, code_simp)
  from same_replica_sound [OF c _ cursor_store_inv cursor_store_inv i(1) i(1) e e refl] c show ?thesis by simp
qed

lemma bound_example:
  "\<exists>t' j i. record_clone_lineage example_base True ''rep-2'' ''hist-2'' example_store = Inr (t', j)
     \<and> mount_identity [] cursor_store = Inr i \<and> mi_mount_id i = ''mnt-1'' \<and> mi_replica_id i = ''rep-1''
     \<and> mi_parent_replica_id i = [] \<and> mi_base_snapshot_id i = [] \<and> mi_base_snapshot_id j = [] \<and> mi_forked_at_seq j = 0"
proof -
  obtain t' j where t: "record_clone_lineage example_base True ''rep-2'' ''hist-2'' example_store = Inr (t', j)"
    using clone_total [OF source_facts(3) example_store_inv source_facts(4)] by blast
  then obtain fp n where t': "t' = set_meta ''cloned_at_seq'' n (set_if (cb_cursor example_base \<noteq> []) ''base_cursor''
      (cb_cursor example_base) (set_meta ''base_lineage_fingerprint'' fp (clone_identity example_base True ''rep-2'' ''hist-2'' example_store)))"
    and j: "mount_identity [] t' = Inr j"
    by (auto simp: record_clone_lineage_def rbind_eq_Inr Let_def)
  have "mi_base_snapshot_id j = []"
    using source_facts(6) by (simp add: mount_identity_fields [OF j] t' clone_identity_def rotate_id_def set_if_def
        bind_mount_def Let_def example_base_def)
  moreover have "meta_int ''forked_at_seq'' t' = Inr 0"
    using source_facts(4) by (simp add: t' clone_identity_def rotate_id_def set_if_def bind_mount_def Let_def meta_int_set_other)
  then have "mi_forked_at_seq j = 0" using mount_identity_fields(6) [OF j] by simp
  ultimately show ?thesis using t source_facts(1) by blast
qed

lemma clean_clone_recognised_witness:
  "\<exists>t' j r. record_clone_lineage example_base True ''rep-2'' ''hist-2'' example_store = Inr (t', j)
     \<and> compare_mount_lineage id cursor_store t' = Inr r \<and> lx_relationship r = ''clone''"
proof -
  obtain t' j i where t: "record_clone_lineage example_base True ''rep-2'' ''hist-2'' example_store = Inr (t', j)"
    and i: "mount_identity [] cursor_store = Inr i" "mi_mount_id i = ''mnt-1''" "mi_replica_id i = ''rep-1''"
      "mi_parent_replica_id i = []" "mi_base_snapshot_id i = []" "mi_base_snapshot_id j = []"
    using bound_example by blast
  note b = bound_clone [OF t, unfolded source_facts(7,8), simplified]
  obtain p where p: "extract_lineage_probe id cursor_store = Inr p"
    using empty_probe [OF source_facts(2) cursor_store_inv i(1)] by blast
  obtain q where q: "extract_lineage_probe id t' = Inr q"
    using empty_probe [OF b(9) [THEN trans, OF source_facts(3)] record_clone_lineage_inv [OF example_store_inv t] b(1)] by blast
  obtain r where r: "compare_mount_lineage id cursor_store t' = Inr r"
    using compare_total [OF p q] extracted_probe(1) [OF p] extracted_probe(1) [OF q] i b(1) by auto
  have "lx_relationship r = ''clone''"
    using clean_clone_recognised [OF t example_store_inv i(1) _ _ _ _ _ i(4) source_facts(5) r] by (simp add: source_facts(7,8) i)
  with t r show ?thesis by blast
qed

lemma written_clone_example:
  "\<exists>t' j u e i. record_clone_lineage example_base True ''rep-2'' ''hist-2'' example_store = Inr (t', j)
     \<and> append_event ''e4'' ''now'' ''memory.promotion'' None [] (JObj []) None t' = Inr (u, e)
     \<and> mount_identity [] cursor_store = Inr i \<and> mi_mount_id i = ''mnt-1'' \<and> mi_replica_id i = ''rep-1''
     \<and> mi_parent_replica_id i = [] \<and> mi_forked_at_seq j = 0"
proof -
  obtain t' j i where t: "record_clone_lineage example_base True ''rep-2'' ''hist-2'' example_store = Inr (t', j)"
    and i: "mount_identity [] cursor_store = Inr i" "mi_mount_id i = ''mnt-1''" "mi_replica_id i = ''rep-1''"
      "mi_parent_replica_id i = []" "mi_base_snapshot_id i = []" "mi_base_snapshot_id j = []" "mi_forked_at_seq j = 0"
    using bound_example by blast
  note b = bound_clone [OF t, unfolded source_facts(7,8), simplified]
  have "''e4'' \<notin> ev_id ` set (st_events t')" unfolding b(10) by code_simp
  then have "\<exists>u e. append_event ''e4'' ''now'' ''memory.promotion'' None [] (JObj []) None t' = Inr (u, e)"
    by (simp add: append_event_def stored_payload_def append_row_def RECONSTRUCTING_EVENT_TYPES_def Let_def)
  then obtain u e where u: "append_event ''e4'' ''now'' ''memory.promotion'' None [] (JObj []) None t' = Inr (u, e)" by blast
  with t i show ?thesis by blast
qed

end
