(* ===== verification/ReplayTarget.thy ===== *)
theory ReplayTarget
  imports LineageFacts
begin

text \<open>
  The second half of \<open>validate_replay_cursor\<close> (\<open>events.py\<close>): a target that is given must hold
  the base the cursor starts from, and a target that is bound to a mount must be the same replica as the source
  or a clean clone of it.
\<close>

definition saved_cursor :: "store \<Rightarrow> string" where
  "saved_cursor t =
     (if meta_str ''last_replay_cursor'' t \<noteq> [] then meta_str ''last_replay_cursor'' t else meta_str ''base_cursor'' t)"

definition saved_checkpoint :: "string \<Rightarrow> replay_cursor option cursor_res" where
  "saved_checkpoint s =
     (if s = [] then Inr None
      else case decode_cursor (CursorValue (JStr s)) of
        Inl (CursorError r) \<Rightarrow> Inr None
      | Inl e \<Rightarrow> Inl e
      | Inr c \<Rightarrow> Inr (Some c))"

definition same_source :: "replay_cursor \<Rightarrow> replay_cursor \<Rightarrow> bool" where
  "same_source k c = (rc_mount_id k = rc_mount_id c \<and> rc_replica_id k = rc_replica_id c \<and> rc_history_id k = rc_history_id c)"

definition holds_base :: "replay_cursor \<Rightarrow> replay_cursor option \<Rightarrow> string \<Rightarrow> bool" where
  "holds_base c saved base =
     ((case saved of
         None \<Rightarrow> False
       | Some k \<Rightarrow> encode_cursor k = encode_cursor c \<or> (same_source k c \<and> rc_seq c \<le> rc_seq k)
           \<or> (rc_base_snapshot_id c \<noteq> [] \<and> rc_base_snapshot_id k = rc_base_snapshot_id c))
      \<or> (rc_base_snapshot_id c \<noteq> [] \<and> base = rc_base_snapshot_id c))"

definition check_target_base :: "replay_cursor \<Rightarrow> store \<Rightarrow> mount_ident \<Rightarrow> log_bounds \<Rightarrow> unit cursor_res" where
  "check_target_base c t j b =
     (if rc_seq c > 0 \<and> \<not> lb_head_seq b > 0 then
        rbind (saved_checkpoint (saved_cursor t)) (\<lambda>k. ensure (holds_base c k (mi_base_snapshot_id j)) incompatible)
      else Inr ())"

definition target_is_bound :: "store \<Rightarrow> mount_ident \<Rightarrow> log_bounds \<Rightarrow> bool" where
  "target_is_bound t j b = (mi_mount_bound j \<or> lb_head_seq b > 0 \<or> meta_str ''last_replay_cursor'' t \<noteq> [])"

definition check_target_lineage :: "normalizer \<Rightarrow> store \<Rightarrow> store \<Rightarrow> mount_ident \<Rightarrow> mount_ident \<Rightarrow> unit cursor_res" where
  "check_target_lineage nfc s t i j =
     (if mi_mount_id j \<noteq> mi_mount_id i then Inl (CursorError ''wrong_source'')
      else rbind (of_db (compare_mount_lineage nfc s t)) (\<lambda>r.
        if lx_relationship r = ''fork'' then Inl (CursorError ''fork_diverged'')
        else if lx_relationship r = ''replacement'' then Inl (CursorError ''replaced_history'')
        else Inr ()))"

definition check_target :: "normalizer \<Rightarrow> replay_cursor \<Rightarrow> store \<Rightarrow> store \<Rightarrow> unit cursor_res" where
  "check_target nfc c s t =
     rbind (of_db (mount_identity [] s)) (\<lambda>i.
     rbind (of_db (mount_identity [] t)) (\<lambda>j.
     rbind (of_db (event_log_bounds t)) (\<lambda>b.
     rbind (check_target_base c t j b) (\<lambda>_.
     if target_is_bound t j b then check_target_lineage nfc s t i j else Inr ()))))"

definition validate_replay_cursor ::
  "normalizer \<Rightarrow> store option \<Rightarrow> replay_request \<Rightarrow> cursor_arg \<Rightarrow> store \<Rightarrow> replay_cursor cursor_res" where
  "validate_replay_cursor nfc target q raw s =
     rbind (validate_source target q raw s) (\<lambda>c.
     rbind (case target of None \<Rightarrow> Inr () | Some t \<Rightarrow> check_target nfc c s t) (\<lambda>_. Inr c))"

section \<open>Which targets are accepted\<close>

lemma validate_target_Inr:
  "validate_replay_cursor nfc (Some t) q raw s = Inr c \<longleftrightarrow>
     validate_source (Some t) q raw s = Inr c \<and> check_target nfc c s t = Inr ()"
  by (auto simp: validate_replay_cursor_def rbind_eq_Inr)

lemma compared_relationship:
  assumes "compare_mount_lineage nfc s t = Inr r"
  shows "lx_relationship r \<in> {''same_replica'', ''clone'', ''fork'', ''replacement'', ''different_mount''}"
    "lx_relationship r = ''different_mount'' \<Longrightarrow> mount_identity [] s = Inr i \<Longrightarrow> mount_identity [] t = Inr j
      \<Longrightarrow> mi_mount_id i = [] \<or> mi_mount_id i \<noteq> mi_mount_id j"
proof -
  obtain p q where p: "extract_lineage_probe nfc s = Inr p" "extract_lineage_probe nfc t = Inr q" "compare_probes nfc p q = Inr r"
    by (rule compare_Inr [OF assms])
  note d = compare_probes_def copy_verdict_def branch_verdict_def clone_verdict_def Let_def rbind_eq_Inr case_prod_beta
  show "lx_relationship r \<in> {''same_replica'', ''clone'', ''fork'', ''replacement'', ''different_mount''}"
    using p(3) by (auto simp: d split: if_splits)
  show "lx_relationship r = ''different_mount'' \<Longrightarrow> mount_identity [] s = Inr i \<Longrightarrow> mount_identity [] t = Inr j
      \<Longrightarrow> mi_mount_id i = [] \<or> mi_mount_id i \<noteq> mi_mount_id j"
    using p(3) extracted_probe(1) [OF p(1)] extracted_probe(1) [OF p(2)] by (auto simp: d split: if_splits)
qed

text \<open>C8. A replay is only ever admitted into a target that carries the mount of the source. Let the target be bound to a
  mount, have a log of its own or have been replayed into before. It is accepted exactly when three conditions hold:
  it has the base the cursor builds on (\<open>_check_target_base\<close>, which refuses a clone without a log or a saved cursor
  for any cursor past the start), it is on the same mount, and the comparison of the lineages says that it is the same
  replica as the source or a clean clone of it, never a fork or a replacement.
\<close>

theorem bound_target_accepted_iff:
  assumes "mount_identity [] s = Inr i" "mount_identity [] t = Inr j" "event_log_bounds t = Inr b" "target_is_bound t j b"
    and "mi_mount_id i \<noteq> []"
  shows "check_target nfc c s t = Inr () \<longleftrightarrow> check_target_base c t j b = Inr () \<and> mi_mount_id j = mi_mount_id i
    \<and> (\<exists>r. compare_mount_lineage nfc s t = Inr r \<and> lx_relationship r \<in> {''same_replica'', ''clone''})"
proof -
  have "check_target_lineage nfc s t i j = Inr () \<longleftrightarrow> mi_mount_id j = mi_mount_id i
      \<and> (\<exists>r. compare_mount_lineage nfc s t = Inr r \<and> lx_relationship r \<notin> {''fork'', ''replacement''})"
    by (auto simp: check_target_lineage_def rbind_eq_Inr split: if_splits)
  moreover have "lx_relationship r \<notin> {''fork'', ''replacement''} \<longleftrightarrow> lx_relationship r \<in> {''same_replica'', ''clone''}"
    if "compare_mount_lineage nfc s t = Inr r" "mi_mount_id j = mi_mount_id i" for r
    using compared_relationship(1) [OF that(1)] compared_relationship(2) [OF that(1) _ assms(1,2)] assms(5) that(2) by auto
  ultimately show ?thesis using assms(1-4) by (auto simp: check_target_def rbind_eq_Inr)
qed

text \<open>C10. Independent writes end the life of a clone: when a target without a parent replica has been bound to its source,
  itself no fork, and then appends one event of a mutating type to its own log, no cursor of the source is accepted
  for a replay into it.
\<close>

theorem diverged_clone_refused:
  assumes "record_clone_lineage b True nr nh t = Inr (t', j)" "store_inv t" "mount_identity [] s = Inr i"
    and "strip (cb_mount b) = mi_mount_id i" "strip (cb_replica b) = mi_replica_id i"
    and "mi_mount_id i \<noteq> []" "mi_replica_id i \<noteq> []" "nr \<noteq> mi_replica_id i"
    and "mi_parent_replica_id i = []" "meta_str ''parent_replica_id'' t = []" "mi_forked_at_seq j = 0"
    and "append_event n now ty m ns pl at t' = Inr (u, e)" "ty \<in> set MUTATING_EVENT_TYPES"
  shows "validate_replay_cursor nfc (Some u) q raw s \<noteq> Inr c"
proof
  assume "validate_replay_cursor nfc (Some u) q raw s = Inr c"
  then have c: "check_target nfc c s u = Inr ()" by (simp add: validate_target_Inr)
  have "strip (cb_mount b) \<noteq> []" "strip (cb_replica b) \<noteq> []" "nr \<noteq> strip (cb_replica b)" using assms(4-8) by simp_all
  note b = bound_clone [OF assms(1) this]
  have u: "mount_identity [] u = Inr j" using mount_identity_meta [OF append_event_frame(5) [OF assms(12)]] b(1) by simp
  obtain bu where bu: "event_log_bounds u = Inr bu" using c by (auto simp: check_target_def rbind_eq_Inr)
  have "target_is_bound u j bu" using b(6) by (simp add: target_is_bound_def)
  then have "check_target_lineage nfc s u i j = Inr ()" using c by (simp add: check_target_def assms(3) u bu rbind_eq_Inr)
  then obtain r where "compare_mount_lineage nfc s u = Inr r" "lx_relationship r \<noteq> ''fork''"
    by (auto simp: check_target_lineage_def rbind_eq_Inr split: if_splits)
  with clone_write_diverges [OF assms(1-13)] show False by blast
qed

lemma diverged_clone_refused_witness:
  "\<exists>t' j u e. record_clone_lineage example_base True ''rep-2'' ''hist-2'' example_store = Inr (t', j)
     \<and> append_event ''e4'' ''now'' ''memory.promotion'' None [] (JObj []) None t' = Inr (u, e)
     \<and> validate_replay_cursor id (Some u) plain_request (CursorObject head_cursor) cursor_store \<noteq> Inr head_cursor"
proof -
  obtain t' j u e i where w: "record_clone_lineage example_base True ''rep-2'' ''hist-2'' example_store = Inr (t', j)"
    "append_event ''e4'' ''now'' ''memory.promotion'' None [] (JObj []) None t' = Inr (u, e)"
    "mount_identity [] cursor_store = Inr i" "mi_mount_id i = ''mnt-1''" "mi_replica_id i = ''rep-1''"
    "mi_parent_replica_id i = []" "mi_forked_at_seq j = 0"
    using written_clone_example by blast
  have "validate_replay_cursor id (Some u) plain_request (CursorObject head_cursor) cursor_store \<noteq> Inr head_cursor"
    by (rule diverged_clone_refused [OF w(1) example_store_inv w(3) _ _ _ _ _ w(6) source_facts(5) w(7) w(2)])
      (simp_all add: source_facts(7,8) w MUTATING_EVENT_TYPES_def)
  with w show ?thesis by blast
qed

lemma bound_target_accepted_iff_witness:
  "\<exists>t' j i b. record_clone_lineage example_base True ''rep-2'' ''hist-2'' example_store = Inr (t', j)
     \<and> mount_identity [] cursor_store = Inr i \<and> event_log_bounds t' = Inr b \<and> target_is_bound t' j b
     \<and> (check_target id head_cursor cursor_store t' = Inr () \<longleftrightarrow> check_target_base head_cursor t' j b = Inr ()
        \<and> mi_mount_id j = mi_mount_id i
        \<and> (\<exists>r. compare_mount_lineage id cursor_store t' = Inr r \<and> lx_relationship r \<in> {''same_replica'', ''clone''}))"
proof -
  obtain t' j i where t: "record_clone_lineage example_base True ''rep-2'' ''hist-2'' example_store = Inr (t', j)"
    and i: "mount_identity [] cursor_store = Inr i" "mi_mount_id i = ''mnt-1''" "mi_replica_id i = ''rep-1''"
    using bound_example by blast
  note f = bound_clone [OF t, unfolded source_facts(7,8), simplified]
  obtain b where b: "event_log_bounds t' = Inr b"
    using bounds_total [OF record_clone_lineage_inv [OF example_store_inv t]] by blast
  have tb: "target_is_bound t' j b" using f(6) by (simp add: target_is_bound_def)
  have "mi_mount_id i \<noteq> []" using i(2) by simp
  from bound_target_accepted_iff [OF i(1) f(1) b tb this, of id head_cursor] t i(1) b tb show ?thesis by blast
qed

end
