(* ===== verification/ReplayRun.thy ===== *)
theory ReplayRun
  imports ReplayTarget ReplayApply
begin

text \<open>
  A replay governed by a cursor (\<open>replay_with_cursor\<close> and \<open>replay_into\<close> in \<open>events.py\<close>):
  the cursor is resolved and validated, the window of the source log after it is planned page by page without a
  write, and then applied page by page in one transaction that also records the new base and the next cursor.
  The current time and the ids a new clone draws are arguments, as is the order in which the set of the two saved
  checkpoints is visited.
\<close>

record replay_args =
  ra_cursor :: "cursor_arg option"
  ra_max :: "int option"
  ra_request :: replay_request

record replay_fresh =
  rf_now :: string
  rf_replica :: string
  rf_history :: string
  rf_base_first :: bool

section \<open>The start\<close>

definition resolve_cursor :: "replay_args \<Rightarrow> store \<Rightarrow> store \<Rightarrow> replay_cursor cursor_res" where
  "resolve_cursor a s t = (case ra_cursor a of
     Some c \<Rightarrow> decode_cursor c
   | None \<Rightarrow>
       (if saved_cursor t \<noteq> [] then decode_cursor (CursorValue (JStr (saved_cursor t)))
        else issue_replay_cursor \<lparr>ia_position = ''start'', ia_seq = JNull, ia_base = JNull,
          ia_namespace = opt_str (rq_namespace (ra_request a)), ia_types = rq_types (ra_request a)\<rparr> s))"

definition needs_foreign_guard :: "mount_ident \<Rightarrow> log_bounds \<Rightarrow> store \<Rightarrow> bool" where
  "needs_foreign_guard j b t = (\<not> mi_mount_bound j \<and> lb_head_seq b = 0 \<and> saved_cursor t = [] \<and> st_memories t \<noteq> [])"

record replay_window =
  rw_cursor :: replay_cursor
  rw_types :: "string list"
  rw_start :: int
  rw_guard :: bool
  rw_source :: mount_ident

definition open_window :: "normalizer \<Rightarrow> replay_args \<Rightarrow> store \<Rightarrow> store \<Rightarrow> replay_window cursor_res" where
  "open_window nfc a s t =
     (if (case ra_max a of None \<Rightarrow> False | Some n \<Rightarrow> n \<le> 0) then Inl (CursorPy ValueError)
      else rbind (resolve_cursor a s t) (\<lambda>rc.
        rbind (validate_replay_cursor nfc (Some t) (ra_request a) (CursorObject rc) s) (\<lambda>c.
        rbind (effective_replay_event_types c (rq_types (ra_request a))) (\<lambda>ts.
        rbind (of_db (meta_int ''history_epoch_start_seq'' s)) (\<lambda>epoch.
        rbind (of_db (mount_identity [] t)) (\<lambda>j.
        rbind (of_db (event_log_bounds t)) (\<lambda>b.
        rbind (ensure (\<not> (needs_foreign_guard j b t \<and> ra_max a \<noteq> None)) incompatible) (\<lambda>_.
        rbind (of_db (mount_identity [] s)) (\<lambda>i.
        Inr \<lparr>rw_cursor = c, rw_types = ts, rw_start = max (rc_seq c) epoch, rw_guard = needs_foreign_guard j b t,
             rw_source = i\<rparr>)))))))))"

section \<open>Pass 1\<close>

record scan_state =
  sc_plan :: plan_state
  sc_last :: int
  sc_event_id :: string
  sc_scanned :: nat
  sc_plans :: "(int \<times> planned) list"
  sc_keys :: "(string \<times> string) list"
  sc_end :: bool

definition start_scan :: "replay_window \<Rightarrow> scan_state" where
  "start_scan w = \<lparr>sc_plan = empty_plan, sc_last = rw_start w, sc_event_id = rc_anchor_event_id (rw_cursor w),
     sc_scanned = 0, sc_plans = [], sc_keys = [], sc_end = True\<rparr>"

definition scan_event :: "replay_window \<Rightarrow> event \<Rightarrow> scan_state \<Rightarrow> scan_state replay_res" where
  "scan_event w e st =
     rbind (plan_event (sc_last st) (rw_types w) (Some (rw_source w)) (event_to_dict e) (sc_plan st)) (\<lambda>(pl, p).
     Inr (st\<lparr>sc_plan := p, sc_last := pd_seq pl, sc_event_id := pe_id e, sc_scanned := sc_scanned st + 1,
       sc_plans := (pd_seq pl, pl) # sc_plans st,
       sc_keys := (if rw_guard w \<and> pd_hash pl \<noteq> [] then (pd_namespace pl, pd_hash pl) # sc_keys st else sc_keys st)\<rparr>))"

definition more_events :: "string option \<Rightarrow> int \<Rightarrow> store \<Rightarrow> bool" where
  "more_events ns after s = (pg_events (query_events (any_event\<lparr>qf_namespace := ns, qf_after := Some after\<rparr>) 1 True s) \<noteq> [])"

definition budget_spent :: "int option \<Rightarrow> scan_state \<Rightarrow> bool" where
  "budget_spent limit st = (case limit of None \<Rightarrow> False | Some n \<Rightarrow> int (sc_scanned st) \<ge> n)"

text \<open>The flag of the result is \<open>stop\<close>.\<close>

fun scan_page :: "replay_window \<Rightarrow> int option \<Rightarrow> store \<Rightarrow> event list \<Rightarrow> scan_state \<Rightarrow> (scan_state \<times> bool) replay_res" where
  "scan_page w limit s [] st = Inr (st, False)"
| "scan_page w limit s (e # es) st =
     rbind (scan_event w e st) (\<lambda>st1.
     if budget_spent limit st1 then
       Inr (if es \<noteq> [] \<or> more_events (rc_namespace (rw_cursor w)) (sc_last st1) s then st1\<lparr>sc_end := False\<rparr> else st1, True)
     else scan_page w limit s es st1)"

function scan_log :: "replay_window \<Rightarrow> int option \<Rightarrow> store \<Rightarrow> int \<Rightarrow> store \<Rightarrow> scan_state \<Rightarrow> scan_state replay_res" where
  "scan_log w limit t after s st =
     (let evs = replay_page (rc_namespace (rw_cursor w)) after s in
      if evs = [] then Inr st
      else rbind (scan_page w limit s evs (st\<lparr>sc_plan := load_candidates t (map event_to_dict evs) (sc_plan st)\<rparr>)) (\<lambda>(st1, stop).
        if stop \<or> int (length evs) < PAGE then Inr st1
        else scan_log w limit t (pe_seq (last evs)) s st1))"
  by pat_completeness auto
termination
proof (relation "measure (\<lambda>(w, limit, t, after, s, st). length (filter (\<lambda>e. after < ev_seq e) (st_events s)))", goal_cases)
  case (2 w limit t after s st evs)
  then show ?case using replay_page_advances [of "rc_namespace (rw_cursor w)" after s evs] by simp
qed simp

declare scan_log.simps [simp del]

section \<open>Foreign rows and the next cursor\<close>

definition record_identity_key :: "dict \<Rightarrow> py_exn + string \<times> string" where
  "record_identity_key r =
     (let ns = str_or_empty r ''namespace''; ch = str_or_empty r ''content_hash'' in
      if ch = [] then Inr (ns, [])
      else if dget r ''memory_type'' = JStr ''file'' \<and> truthy (dget r ''source_uri'') then
        rbind (py_int (por (dget r ''byte_offset'') (JInt 0))) (\<lambda>off.
        rbind (py_int (por (dget r ''byte_length'') (JInt 0))) (\<lambda>len.
        rbind (compute_file_reference_hash (str_or_empty r ''identifier'') (str_or_empty r ''source_uri'') off len None) (\<lambda>h.
        Inr (ns, h))))
      else Inr (ns, ch))"

definition check_foreign :: "replay_window \<Rightarrow> scan_state \<Rightarrow> store \<Rightarrow> unit replay_res" where
  "check_foreign w st t =
     (if rw_guard w then
        rbind (of_py_exn (traverse record_identity_key (iter_rows False t))) (\<lambda>keys.
        ensure (list_all (\<lambda>k. k \<in> set (sc_keys st)) keys) (ReplayExn incompatible))
      else Inr ())"

definition next_cursor :: "replay_window \<Rightarrow> scan_state \<Rightarrow> replay_cursor cursor_res" where
  "next_cursor w st =
     (let c = rw_cursor w in
      make_cursor \<lparr>ca_version = JInt CURSOR_VERSION, ca_mount_id = JStr (rc_mount_id c), ca_replica_id = JStr (rc_replica_id c),
        ca_history_id = JStr (rc_history_id c), ca_seq = JInt (sc_last st),
        ca_anchor_event_id = JStr (if sc_last st > 0 then sc_event_id st else []),
        ca_base_snapshot_id = JStr (rc_base_snapshot_id c), ca_namespace = opt_str (rc_namespace c),
        ca_event_types = JList (map JStr (rw_types w)),
        ca_scope_mode = JStr (if rw_types w = RECONSTRUCTING_EVENT_TYPES then ''reconstructing'' else ''explicit'')\<rparr>)"

definition same_position :: "replay_cursor \<Rightarrow> replay_cursor \<Rightarrow> bool" where
  "same_position k c = (same_source k c \<and> rc_base_snapshot_id k = rc_base_snapshot_id c \<and> rc_namespace k = rc_namespace c
     \<and> rc_seq k = rc_seq c \<and> rc_anchor_event_id k = rc_anchor_event_id c)"

text \<open>The saved checkpoint that already stands at the position of a cursor, if there is one.\<close>

fun standing_checkpoint :: "replay_cursor \<Rightarrow> string list \<Rightarrow> string option cursor_res" where
  "standing_checkpoint c [] = Inr None"
| "standing_checkpoint c (v # vs) =
     rbind (saved_checkpoint v) (\<lambda>k.
     if (case k of None \<Rightarrow> False | Some x \<Rightarrow> same_position x c) then Inr (Some v) else standing_checkpoint c vs)"

definition checkpoints :: "bool \<Rightarrow> store \<Rightarrow> string list" where
  "checkpoints base_first t =
     (let vs = remdups (filter (\<lambda>v. v \<noteq> []) [meta_str ''last_replay_cursor'' t, meta_str ''base_cursor'' t]) in
      if base_first then rev vs else vs)"

section \<open>Pass 2\<close>

definition planned_for :: "(int \<times> planned) list \<Rightarrow> int \<Rightarrow> planned" where
  "planned_for plans seq = (case map_of plans seq of
     Some pl \<Rightarrow> pl
   | None \<Rightarrow> \<lparr>pd_disposition = Observational, pd_seq = seq, pd_namespace = [], pd_hash = [], pd_fingerprint = []\<rparr>)"

definition apply_page :: "apply_env \<Rightarrow> (int \<times> planned) list \<Rightarrow> event list \<Rightarrow> apply_state \<Rightarrow> apply_state replay_res" where
  "apply_page env plans evs a =
     rbind (fold_res (apply_planned env) (map (\<lambda>e. (event_to_dict e, planned_for plans (pe_seq e))) evs) a) (\<lambda>b.
     Inr (flush_created (ae_now env) b))"

function apply_log ::
  "apply_env \<Rightarrow> string option \<Rightarrow> int option \<Rightarrow> scan_state \<Rightarrow> int \<Rightarrow> store \<Rightarrow> apply_state \<Rightarrow> apply_state replay_res" where
  "apply_log env ns limit st after s a =
     (let evs = replay_page ns after s in
      if evs = [] then Inr a
      else
        (let cut = (if limit = None then evs else takeWhile (\<lambda>e. pe_seq e \<le> sc_last st) evs) in
         rbind (apply_page env (sc_plans st) cut a) (\<lambda>b.
         if length cut < length evs \<or> (limit \<noteq> None \<and> sc_last st \<le> pe_seq (last evs)) \<or> int (length evs) < PAGE then Inr b
         else apply_log env ns limit st (pe_seq (last evs)) s b)))"
  by pat_completeness auto
termination
proof (relation "measure (\<lambda>(env, ns, limit, st, after, s, a). length (filter (\<lambda>e. after < ev_seq e) (st_events s)))", goal_cases)
  case (2 env ns limit st after s a evs)
  then show ?case using replay_page_advances [of ns after s evs] by simp
qed simp

declare apply_log.simps [simp del]

section \<open>The run\<close>

fun target_prints :: "dict list \<Rightarrow> string list rec_res" where
  "target_prints [] = Inr []"
| "target_prints (r # rs) = (case record_fingerprint r [] of
     Inl (AnnotationExn (AnnotationValidationError p q)) \<Rightarrow> target_prints rs
   | Inl e \<Rightarrow> Inl e
   | Inr fp \<Rightarrow> rbind (target_prints rs) (\<lambda>fps. Inr (fp # fps)))"

definition bind_target :: "replay_fresh \<Rightarrow> replay_window \<Rightarrow> string \<Rightarrow> store \<Rightarrow> store replay_res" where
  "bind_target fr w token t =
     rbind (of_db_exn (of_rec (target_prints (iter_rows False t)))) (\<lambda>fps.
     rbind (of_db_exn (mount_identity [] t)) (\<lambda>j.
     rbind (of_db_exn (record_clone_lineage
       \<lparr>cb_mount = mi_mount_id (rw_source w), cb_replica = mi_replica_id (rw_source w), cb_history = mi_history_id (rw_source w),
        cb_snapshot = (if rc_base_snapshot_id (rw_cursor w) \<noteq> [] then rc_base_snapshot_id (rw_cursor w) else mi_base_snapshot_id j),
        cb_state_fingerprint = state_fingerprint_from_list fps, cb_cursor = token, cb_scope = []\<rparr>
       True (rf_replica fr) (rf_history fr) t)) (\<lambda>(t1, j1).
     Inr (set_meta ''last_replay_cursor'' token t1))))"

record replay_result =
  rr_applied :: nat
  rr_skipped :: nat
  rr_scanned :: nat
  rr_cursor :: string
  rr_completed :: bool

definition run_window ::
  "replay_fresh \<Rightarrow> replay_window \<Rightarrow> int option \<Rightarrow> scan_state \<Rightarrow> string \<Rightarrow> store \<Rightarrow> store \<Rightarrow> (store \<times> replay_result) replay_res" where
  "run_window fr w limit st token s t =
     (let env = \<lparr>ae_now = rf_now fr, ae_source = Some (rw_source w), ae_batch = None\<rparr> in
      rbind (apply_log env (rc_namespace (rw_cursor w)) limit st (rw_start w) s (start_apply t)) (\<lambda>a.
      rbind (bind_target fr w token (ap_store a)) (\<lambda>t1.
      Inr (t1, \<lparr>rr_applied = ap_applied a, rr_skipped = ap_skipped a, rr_scanned = sc_scanned st, rr_cursor = token,
        rr_completed = sc_end st\<rparr>))))"

definition replay_with_cursor ::
  "normalizer \<Rightarrow> replay_fresh \<Rightarrow> replay_args \<Rightarrow> store \<Rightarrow> store \<Rightarrow> (store \<times> replay_result) replay_res" where
  "replay_with_cursor nfc fr a s t =
     rbind (of_cursor (open_window nfc a s t)) (\<lambda>w.
     rbind (scan_log w (ra_max a) t (rw_start w) s (start_scan w)) (\<lambda>st.
     rbind (check_foreign w st t) (\<lambda>_.
     rbind (of_cursor (next_cursor w st)) (\<lambda>nc.
     rbind (if sc_scanned st = 0 then of_cursor (standing_checkpoint (rw_cursor w) (checkpoints (rf_base_first fr) t))
            else Inr None) (\<lambda>standing.
     case standing of
       Some v \<Rightarrow> Inr (t, \<lparr>rr_applied = 0, rr_skipped = 0, rr_scanned = 0, rr_cursor = v, rr_completed = True\<rparr>)
     | None \<Rightarrow> run_window fr w (ra_max a) st (encode_cursor nc) s t)))))"

definition replay_into ::
  "normalizer \<Rightarrow> replay_fresh \<Rightarrow> replay_args \<Rightarrow> store \<Rightarrow> store \<Rightarrow> (store \<times> nat) replay_res" where
  "replay_into nfc fr a s t =
     rbind (replay_with_cursor nfc fr (a\<lparr>ra_request := (ra_request a)\<lparr>rq_types := JNull\<rparr>\<rparr>) s t) (\<lambda>(t1, r).
     Inr (t1, rr_applied r))"

end
