(* ===== verification/ReplayRunFacts.thy ===== *)
theory ReplayRunFacts
  imports ReplayRun
begin

text \<open>
  What a replay governed by a cursor does: which events a step examines under a budget, when it is complete,
  which rows it may find in an unbound target, and that a completed cursor is idempotent.
\<close>

section \<open>The events a scan examines\<close>

lemma plan_event_seq:
  assumes "plan_event prev types src evt p = Inr (pl, p')"
  shows "dget evt ''seq'' = JInt (pd_seq pl)"
proof -
  obtain seq oc where c: "check_event prev types src evt = Inr (seq, oc)"
    and rest: "(case oc of None \<Rightarrow> Inr (\<lparr>pd_disposition = Observational, pd_seq = seq, pd_namespace = [], pd_hash = [], pd_fingerprint = []\<rparr>, p)
      | Some c \<Rightarrow> plan_transition evt (source_text mi_history_id src) c p) = Inr (pl, p')"
    using assms by (auto simp: plan_event_def rbind_eq_Inr)
  have "check_event_seq prev (dget evt ''seq'') = Inr seq \<and> (\<forall>c. oc = Some c \<longrightarrow> ce_seq c = seq)"
    using c by (auto simp: check_event_def Let_def rbind_eq_Inr split: if_splits)
  moreover have "pd_seq pl = seq"
    using rest calculation by (auto simp: plan_transition_def outcome_def rbind_eq_Inr case_prod_beta split: option.splits if_splits)
  ultimately show ?thesis by (cases "dget evt ''seq''") (auto simp: check_event_seq_def split: if_splits)
qed

lemma event_to_dict_fields [simp]:
  "dget (event_to_dict e) ''seq'' = JInt (pe_seq e)" "dget (event_to_dict e) ''event_id'' = JStr (pe_id e)"
  by (simp_all add: event_to_dict_def dget_def dget_default_def)

lemma scanned_event:
  assumes "scan_event w e st = Inr st1"
  shows "sc_last st1 = pe_seq e" "sc_event_id st1 = pe_id e" "sc_scanned st1 = sc_scanned st + 1" "sc_end st1 = sc_end st"
proof -
  obtain pl p where "plan_event (sc_last st) (rw_types w) (Some (rw_source w)) (event_to_dict e) (sc_plan st) = Inr (pl, p)"
    and st1: "st1 = st\<lparr>sc_plan := p, sc_last := pd_seq pl, sc_event_id := pe_id e, sc_scanned := sc_scanned st + 1,
       sc_plans := (pd_seq pl, pl) # sc_plans st,
       sc_keys := (if rw_guard w \<and> pd_hash pl \<noteq> [] then (pd_namespace pl, pd_hash pl) # sc_keys st else sc_keys st)\<rparr>"
    using assms by (auto simp: scan_event_def rbind_eq_Inr)
  then show "sc_last st1 = pe_seq e" "sc_event_id st1 = pe_id e" "sc_scanned st1 = sc_scanned st + 1" "sc_end st1 = sc_end st"
    using plan_event_seq by fastforce+
qed

text \<open>\<open>stands_after st0 xs st\<close>: the scan that was at \<open>st0\<close> has examined exactly the events \<open>xs\<close>.\<close>

definition stands_after :: "scan_state \<Rightarrow> event list \<Rightarrow> scan_state \<Rightarrow> bool" where
  "stands_after st0 xs st \<longleftrightarrow> sc_scanned st = sc_scanned st0 + length xs
     \<and> sc_last st = (if xs = [] then sc_last st0 else pe_seq (last xs))
     \<and> sc_event_id st = (if xs = [] then sc_event_id st0 else pe_id (last xs))"

lemma stands_after_step: "scan_event w e st = Inr st1 \<Longrightarrow> stands_after st1 xs st2 \<Longrightarrow> stands_after st (e # xs) st2"
  using scanned_event [of w e st st1] by (auto simp: stands_after_def)

lemma stands_after_append: "stands_after st xs st1 \<Longrightarrow> stands_after st1 ys st2 \<Longrightarrow> stands_after st (xs @ ys) st2"
  by (auto simp: stands_after_def)

lemma stands_after_plan: "stands_after (st\<lparr>sc_plan := p\<rparr>) xs st1 = stands_after st xs st1"
  by (simp add: stands_after_def)

text \<open>A page is scanned to its end, or up to the budget.\<close>

lemma scanned_page:
  "scan_page w limit s evs st = Inr (st1, stop) \<Longrightarrow> \<not> budget_spent limit st \<Longrightarrow>
     \<exists>xs ys. evs = xs @ ys \<and> stands_after st xs st1 \<and> (stop \<longleftrightarrow> budget_spent limit st1)
       \<and> (\<not> stop \<longrightarrow> ys = [] \<and> sc_end st1 = sc_end st)
       \<and> (stop \<longrightarrow> xs \<noteq> [] \<and> (sc_end st1 \<longleftrightarrow> sc_end st \<and> ys = [] \<and> \<not> more_events (rc_namespace (rw_cursor w)) (sc_last st1) s)
           \<and> (\<forall>n. limit = Some n \<longrightarrow> int (sc_scanned st1) = n))"
proof (induction evs arbitrary: st)
  case Nil
  then show ?case by (auto simp: stands_after_def intro!: exI [of _ "[]"])
next
  case (Cons e es)
  obtain sta where a: "scan_event w e st = Inr sta"
    and r: "(if budget_spent limit sta then
       Inr (if es \<noteq> [] \<or> more_events (rc_namespace (rw_cursor w)) (sc_last sta) s then sta\<lparr>sc_end := False\<rparr> else sta, True)
     else scan_page w limit s es sta) = Inr (st1, stop)"
    using Cons.prems(1) by (auto simp: rbind_eq_Inr)
  note f = scanned_event [OF a]
  show ?case
  proof (cases "budget_spent limit sta")
    case True
    then have st1: "st1 = (if es \<noteq> [] \<or> more_events (rc_namespace (rw_cursor w)) (sc_last sta) s then sta\<lparr>sc_end := False\<rparr> else sta)"
      "stop" using r by simp_all
    have "int (sc_scanned sta) = n" if "limit = Some n" for n
      using True Cons.prems(2) that f(3) by (simp add: budget_spent_def)
    moreover have "stands_after st [e] st1" "budget_spent limit st1"
      using f True by (auto simp: st1 stands_after_def budget_spent_def split: option.splits)
    ultimately show ?thesis
      using f st1 by (intro exI [of _ "[e]"] exI [of _ es]) auto
  next
    case False
    with r have "scan_page w limit s es sta = Inr (st1, stop)" by simp
    from Cons.IH [OF this False] obtain xs ys where h: "es = xs @ ys" "stands_after sta xs st1"
      "stop \<longleftrightarrow> budget_spent limit st1" "\<not> stop \<longrightarrow> ys = [] \<and> sc_end st1 = sc_end sta"
      "stop \<longrightarrow> xs \<noteq> [] \<and> (sc_end st1 \<longleftrightarrow> sc_end sta \<and> ys = [] \<and> \<not> more_events (rc_namespace (rw_cursor w)) (sc_last st1) s)
           \<and> (\<forall>n. limit = Some n \<longrightarrow> int (sc_scanned st1) = n)" by blast
    show ?thesis
      by (rule exI [of _ "e # xs"], rule exI [of _ ys])
        (use h f(4) stands_after_step [OF a h(2)] in auto)
  qed
qed

lemma more_events_iff: "log_inv s \<Longrightarrow> more_events ns n s \<longleftrightarrow> filter (after_filter ns n) (st_events s) \<noteq> []"
proof -
  assume l: "log_inv s"
  have "event_matches (any_event\<lparr>qf_namespace := ns, qf_after := Some n\<rparr>) = after_filter ns n"
    by (auto simp: fun_eq_iff event_matches_def any_event_def when_given_def after_filter_def split: option.splits)
  then show ?thesis
    by (simp add: more_events_def query_events_def select_events_def sql_limit_def Let_def select_all [OF l])
qed

lemma page_rest:
  assumes "log_inv s" "replay_page ns n s = evs" "evs \<noteq> []"
  shows "map row_to_event (filter (after_filter ns n) (st_events s))
      = evs @ map row_to_event (filter (after_filter ns (pe_seq (last evs))) (st_events s))"
    "int (length evs) < PAGE \<Longrightarrow> filter (after_filter ns (pe_seq (last evs))) (st_events s) = []"
proof -
  let ?L = "filter (after_filter ns n) (st_events s)"
  define k where "k = min 500 (length ?L)"
  have e: "evs = map row_to_event (take k ?L)"
    using replay_page_take [OF assms(1), of ns n] assms(2) by (simp add: k_def min_def)
  have k: "0 < k" "k \<le> length ?L" using assms(3) unfolding e k_def by auto
  have q: "pe_seq (last evs) = ev_seq (?L ! (k - 1))"
    using assms(3) k by (simp add: e last_map row_to_event_def last_conv_nth)
  have d: "drop k ?L = filter (after_filter ns (pe_seq (last evs))) (st_events s)"
    unfolding q by (rule rest_of_log [OF assms(1) k])
  show "map row_to_event ?L = evs @ map row_to_event (filter (after_filter ns (pe_seq (last evs))) (st_events s))"
    unfolding e d [symmetric, unfolded e] by (simp flip: map_append)
  assume "int (length evs) < PAGE"
  then have "k = length ?L" using k by (simp add: e PAGE_def k_def min_def split: if_splits)
  then show "filter (after_filter ns (pe_seq (last evs))) (st_events s) = []" unfolding d [symmetric] by simp
qed

lemma no_page: "log_inv s \<Longrightarrow> replay_page ns n s = [] \<Longrightarrow> filter (after_filter ns n) (st_events s) = []"
  by (simp add: replay_page_take)

lemma scanned_log:
  "scan_log w limit t after s st = Inr st1 \<Longrightarrow> log_inv s \<Longrightarrow> \<not> budget_spent limit st \<Longrightarrow>
     \<exists>xs ys. map row_to_event (filter (after_filter (rc_namespace (rw_cursor w)) after) (st_events s)) = xs @ ys
       \<and> stands_after st xs st1 \<and> (sc_end st1 \<longleftrightarrow> sc_end st \<and> ys = [])
       \<and> (if ys = [] then \<forall>n. limit = Some n \<longrightarrow> int (sc_scanned st1) \<le> n else limit = Some (int (sc_scanned st1)))"
proof (induction w limit t after s st rule: scan_log.induct)
  case (1 w limit t after s st)
  let ?ns = "rc_namespace (rw_cursor w)" and ?evs = "replay_page (rc_namespace (rw_cursor w)) after s"
  let ?E = "\<lambda>n. map row_to_event (filter (after_filter ?ns n) (st_events s))"
  let ?st = "st\<lparr>sc_plan := load_candidates t (map event_to_dict ?evs) (sc_plan st)\<rparr>"
  have l: "log_inv s" by (rule "1.prems"(2))
  show ?case
  proof (cases "?evs = []")
    case True
    then have "st1 = st" using "1.prems"(1) by (subst (asm) scan_log.simps) simp
    then show ?thesis
      using no_page [OF l True] "1.prems"(3)
      by (intro exI [of _ "[]"]) (auto simp: stands_after_def budget_spent_def)
  next
    case False
    note rest = page_rest [OF l refl False]
    obtain st2 stop where p: "scan_page w limit s ?evs ?st = Inr (st2, stop)"
      and c: "(if stop \<or> int (length ?evs) < PAGE then Inr st2 else scan_log w limit t (pe_seq (last ?evs)) s st2) = Inr st1"
      using "1.prems"(1) False by (subst (asm) scan_log.simps) (auto simp: Let_def rbind_eq_Inr)
    have nb: "\<not> budget_spent limit ?st" using "1.prems"(3) by (cases limit) (simp_all add: budget_spent_def)
    obtain xs ys where x: "?evs = xs @ ys" "stands_after st xs st2" "stop \<longleftrightarrow> budget_spent limit st2"
      "\<not> stop \<longrightarrow> ys = [] \<and> sc_end st2 = sc_end st"
      "stop \<longrightarrow> xs \<noteq> [] \<and> (sc_end st2 \<longleftrightarrow> sc_end st \<and> ys = [] \<and> \<not> more_events ?ns (sc_last st2) s)
           \<and> (\<forall>n. limit = Some n \<longrightarrow> int (sc_scanned st2) = n)"
      using scanned_page [OF p nb] by (auto simp: stands_after_plan)
    show ?thesis
    proof (cases stop)
      case True
      then have s1: "st1 = st2" using c by simp
      have "limit = Some (int (sc_scanned st2))"
        using True x(3,5) by (cases limit) (auto simp: budget_spent_def)
      moreover have "sc_end st2 \<longleftrightarrow> sc_end st \<and> ys @ ?E (pe_seq (last ?evs)) = []"
        using True x(1,2,5) more_events_iff [OF l, of ?ns "sc_last st2"] by (auto simp: stands_after_def)
      ultimately show ?thesis
        unfolding s1 using rest(1) x(1,2) by (intro exI [of _ xs] exI [of _ "ys @ ?E (pe_seq (last ?evs))"]) auto
    next
      case False
      then have xs: "?evs = xs" "sc_end st2 = sc_end st" "\<not> budget_spent limit st2" using x by simp_all
      show ?thesis
      proof (cases "int (length ?evs) < PAGE")
        case True
        then have s1: "st1 = st2" using c by simp
        show ?thesis
          unfolding s1 using rest(1) rest(2) [OF True] xs x(2)
          by (intro exI [of _ xs] exI [of _ "[]"]) (auto simp: budget_spent_def)
      next
        case full: False
        have "scan_log w limit t (pe_seq (last ?evs)) s st2 = Inr st1" using c full False by simp
        from "1.IH" [OF refl \<open>?evs \<noteq> []\<close> p refl _ this l xs(3)] full False
        obtain us vs where u: "?E (pe_seq (last ?evs)) = us @ vs" "stands_after st2 us st1" "sc_end st1 \<longleftrightarrow> sc_end st2 \<and> vs = []"
          "if vs = [] then \<forall>n. limit = Some n \<longrightarrow> int (sc_scanned st1) \<le> n else limit = Some (int (sc_scanned st1))" by auto
        show ?thesis
          by (rule exI [of _ "xs @ us"], rule exI [of _ vs])
            (use u rest(1) xs stands_after_append [OF x(2) u(2)] in auto)
      qed
    qed
  qed
qed

section \<open>The result of a step\<close>

lemma of_cursor_eq [simp]: "of_cursor m = Inr x \<longleftrightarrow> m = Inr x"
  by (cases m) (simp_all add: of_cursor_def)

lemma of_db_exn_eq [simp]: "of_db_exn m = Inr x \<longleftrightarrow> m = Inr x"
  by (cases m) (simp_all add: of_db_exn_def)

lemma of_rec_eq [simp]: "of_rec m = Inr x \<longleftrightarrow> m = Inr x"
  by (cases m) (simp_all add: of_rec_def)

lemma replay_run_cases:
  assumes "replay_with_cursor nfc fr a s t = Inr (t', r)"
  obtains w st nc v where "open_window nfc a s t = Inr w" "scan_log w (ra_max a) t (rw_start w) s (start_scan w) = Inr st"
      "check_foreign w st t = Inr ()" "next_cursor w st = Inr nc" "sc_scanned st = 0" "t' = t"
      "standing_checkpoint (rw_cursor w) (checkpoints (rf_base_first fr) t) = Inr (Some v)"
      "r = \<lparr>rr_applied = 0, rr_skipped = 0, rr_scanned = 0, rr_cursor = v, rr_completed = True\<rparr>"
  | w st nc where "open_window nfc a s t = Inr w" "scan_log w (ra_max a) t (rw_start w) s (start_scan w) = Inr st"
      "check_foreign w st t = Inr ()" "next_cursor w st = Inr nc"
      "run_window fr w (ra_max a) st (encode_cursor nc) s t = Inr (t', r)"
proof -
  obtain w st u nc x where c: "open_window nfc a s t = Inr w" "scan_log w (ra_max a) t (rw_start w) s (start_scan w) = Inr st"
      "check_foreign w st t = Inr u" "next_cursor w st = Inr nc"
    and x: "(if sc_scanned st = 0 then of_cursor (standing_checkpoint (rw_cursor w) (checkpoints (rf_base_first fr) t))
            else Inr None) = Inr x"
    and r: "(case x of
       Some v \<Rightarrow> Inr (t, \<lparr>rr_applied = 0, rr_skipped = 0, rr_scanned = 0, rr_cursor = v, rr_completed = True\<rparr>)
     | None \<Rightarrow> run_window fr w (ra_max a) st (encode_cursor nc) s t) = Inr (t', r)"
    using assms unfolding replay_with_cursor_def rbind_eq_Inr of_cursor_eq by blast
  show thesis
  proof (cases x)
    case None
    with r have "run_window fr w (ra_max a) st (encode_cursor nc) s t = Inr (t', r)" by simp
    then show thesis by (rule that(2) [OF c(1,2) c(3) [simplified] c(4)])
  next
    case (Some v)
    with x have z: "sc_scanned st = 0" "standing_checkpoint (rw_cursor w) (checkpoints (rf_base_first fr) t) = Inr (Some v)"
      by (auto split: if_splits)
    show thesis by (rule that(1) [OF c(1,2) c(3) [simplified] c(4) z(1) _ z(2)]) (use r Some in simp_all)
  qed
qed

lemma run_window_result:
  assumes "run_window fr w limit st token s t = Inr (t', r)"
  shows "rr_scanned r = sc_scanned st" "rr_completed r = sc_end st" "rr_cursor r = token"
  using assms by (auto simp: run_window_def Let_def rbind_eq_Inr)

definition window_events :: "replay_window \<Rightarrow> store \<Rightarrow> event list" where
  "window_events w s = map row_to_event (filter (after_filter (rc_namespace (rw_cursor w)) (rw_start w)) (st_events s))"

lemma window_scanned:
  assumes "open_window nfc a s t = Inr w" "scan_log w (ra_max a) t (rw_start w) s (start_scan w) = Inr st" "log_inv s"
  shows "sc_scanned st = (case ra_max a of None \<Rightarrow> length (window_events w s) | Some n \<Rightarrow> min (nat n) (length (window_events w s)))"
    "sc_end st \<longleftrightarrow> sc_scanned st = length (window_events w s)"
    "stands_after (start_scan w) (take (sc_scanned st) (window_events w s)) st"
proof -
  have pos: "0 < n" if "ra_max a = Some n" for n using assms(1) that by (auto simp: open_window_def split: if_splits)
  then have nb: "\<not> budget_spent (ra_max a) (start_scan w)" by (auto simp: budget_spent_def start_scan_def split: option.splits)
  obtain xs ys where x: "window_events w s = xs @ ys" "stands_after (start_scan w) xs st" "sc_end st \<longleftrightarrow> ys = []"
    "if ys = [] then \<forall>n. ra_max a = Some n \<longrightarrow> int (sc_scanned st) \<le> n else ra_max a = Some (int (sc_scanned st))"
    using scanned_log [OF assms(2,3) nb] by (auto simp: window_events_def start_scan_def)
  have len: "sc_scanned st = length xs" using x(2) by (simp add: stands_after_def start_scan_def)
  show "sc_scanned st = (case ra_max a of None \<Rightarrow> length (window_events w s) | Some n \<Rightarrow> min (nat n) (length (window_events w s)))"
    using x(4) len by (auto simp: x(1) split: option.splits if_splits)
  show "sc_end st \<longleftrightarrow> sc_scanned st = length (window_events w s)" using x(3) len by (simp add: x(1))
  show "stands_after (start_scan w) (take (sc_scanned st) (window_events w s)) st" using x(2) len by (simp add: x(1))
qed

lemma next_cursor_fields:
  assumes "next_cursor w st = Inr nc"
  shows "rc_seq nc = sc_last st" "rc_namespace nc = rc_namespace (rw_cursor w)" "same_source nc (rw_cursor w)"
    "rc_base_snapshot_id nc = rc_base_snapshot_id (rw_cursor w)"
    "rc_anchor_event_id nc = (if 0 < sc_last st then sc_event_id st else [])" "wf_cursor nc"
    "normalize_event_types (JList (map JStr (rw_types w))) = Inr (rc_event_types nc)"
    "rc_scope_mode nc = (if rw_types w = RECONSTRUCTING_EVENT_TYPES then ''reconstructing'' else ''explicit'')"
  using make_cursor_fields [OF assms [unfolded next_cursor_def Let_def]] make_cursor_wf [OF assms [unfolded next_cursor_def Let_def]]
  by (auto simp: same_source_def str_of_def opt_str_def split: option.splits)

text \<open>C6. A budget is exact. A replay examines precisely the first events after its position, as many as the budget
  allows or as there are, and reports that it is complete exactly when nothing is left. The cursor it hands back is
  anchored at the last event it examined, and what lies after that cursor is what it has not examined, so that
  steps that follow each other cover the log once, without a gap.
\<close>

theorem replay_budget_exact:
  assumes "replay_with_cursor nfc fr a s t = Inr (t', r)" "store_inv s"
  shows "\<exists>w. open_window nfc a s t = Inr w
    \<and> rr_scanned r = (case ra_max a of None \<Rightarrow> length (window_events w s) | Some n \<Rightarrow> min (nat n) (length (window_events w s)))
    \<and> (rr_completed r \<longleftrightarrow> rr_scanned r = length (window_events w s))
    \<and> (0 < rr_scanned r \<longrightarrow> (\<exists>c e. rr_cursor r = encode_cursor c \<and> e = window_events w s ! (rr_scanned r - 1)
        \<and> rc_seq c = pe_seq e \<and> rc_anchor_event_id c = pe_id e
        \<and> map row_to_event (filter (after_filter (rc_namespace c) (rc_seq c)) (st_events s)) = drop (rr_scanned r) (window_events w s)))"
  using assms(1)
proof (cases rule: replay_run_cases)
  case (1 w st nc v)
  have l: "log_inv s" using assms(2) by (simp add: store_inv_def)
  note sc = window_scanned [OF 1(1,2) l]
  have "0 < n" if "ra_max a = Some n" for n using 1(1) that by (auto simp: open_window_def split: if_splits)
  then have "length (window_events w s) = 0" using sc(1) 1(5) by (cases "ra_max a") (auto simp: min_def split: if_splits)
  then show ?thesis using 1 sc by (intro exI [of _ w]) auto
next
  case (2 w st nc)
  have l: "log_inv s" using assms(2) by (simp add: store_inv_def)
  note sc = window_scanned [OF 2(1,2) l] and res = run_window_result [OF 2(5)] and nf = next_cursor_fields [OF 2(4)]
  let ?k = "sc_scanned st" and ?L = "filter (after_filter (rc_namespace (rw_cursor w)) (rw_start w)) (st_events s)"
  have "rc_seq nc = pe_seq (window_events w s ! (?k - 1)) \<and> rc_anchor_event_id nc = pe_id (window_events w s ! (?k - 1))
      \<and> map row_to_event (filter (after_filter (rc_namespace nc) (rc_seq nc)) (st_events s)) = drop ?k (window_events w s)" if k: "0 < ?k"
  proof -
    have le: "?k \<le> length ?L" using sc(1) by (auto simp: window_events_def split: option.splits)
    then have ne: "take ?k ?L \<noteq> []" using k by auto
    then have last: "last (take ?k (window_events w s)) = row_to_event (?L ! (?k - 1))" "take ?k (window_events w s) \<noteq> []"
      using k le by (simp_all add: window_events_def take_map last_map last_conv_nth)
    have nth: "window_events w s ! (?k - 1) = row_to_event (?L ! (?k - 1))" using k le by (simp add: window_events_def)
    have q: "sc_last st = ev_seq (?L ! (?k - 1))" "sc_event_id st = ev_id (?L ! (?k - 1))"
      using sc(3) last by (simp_all add: stands_after_def row_to_event_def)
    have "?L ! (?k - 1) \<in> set (st_events s)" using nth_mem [of "?k - 1" ?L] k le by auto
    then have "0 < ev_seq (?L ! (?k - 1))" using l by (auto simp: log_inv_def)
    then show ?thesis
      unfolding nth using rest_of_log [OF l k le] by (simp add: nf q row_to_event_def window_events_def drop_map)
  qed
  then show ?thesis using 2(1) sc res by (intro exI [of _ w]) auto
qed

end
