(* ===== verification/ReplayOnce.thy ===== *)
theory ReplayOnce
  imports ReplayRunFacts
begin

text \<open>
  Replays end to end: what an unbound target may hold, that a completed cursor is idempotent, that a replaced
  history without new events cannot be replayed at all, and concrete runs.
\<close>

section \<open>Foreign rows\<close>

text \<open>The keys of a scan are those of the planned events.\<close>

definition planned_key :: "replay_window \<Rightarrow> event \<Rightarrow> string \<times> string \<Rightarrow> bool" where
  "planned_key w e k \<longleftrightarrow> (\<exists>prev p p' pl. plan_event prev (rw_types w) (Some (rw_source w)) (event_to_dict e) p = Inr (pl, p')
     \<and> k = (pd_namespace pl, pd_hash pl) \<and> pd_hash pl \<noteq> [])"

lemma scanned_key:
  assumes "scan_event w e st = Inr st1" "k \<in> set (sc_keys st1)"
  shows "k \<in> set (sc_keys st) \<or> planned_key w e k"
  using assms unfolding planned_key_def by (auto simp: scan_event_def rbind_eq_Inr split: if_splits)

lemma scanned_page_keys:
  "scan_page w limit s evs st = Inr (st1, stop) \<Longrightarrow> k \<in> set (sc_keys st1)
    \<Longrightarrow> k \<in> set (sc_keys st) \<or> (\<exists>e \<in> set evs. planned_key w e k)"
proof (induction evs arbitrary: st)
  case (Cons e es)
  obtain sta where a: "scan_event w e st = Inr sta"
    and r: "(if budget_spent limit sta then
       Inr (if es \<noteq> [] \<or> more_events (rc_namespace (rw_cursor w)) (sc_last sta) s then sta\<lparr>sc_end := False\<rparr> else sta, True)
     else scan_page w limit s es sta) = Inr (st1, stop)"
    using Cons.prems(1) by (auto simp: rbind_eq_Inr)
  have "k \<in> set (sc_keys sta) \<or> (\<exists>e \<in> set es. planned_key w e k)"
    using r Cons.IH [of sta] Cons.prems(2) by (auto split: if_splits)
  then show ?case using scanned_key [OF a, of k] by auto
qed simp

lemma replay_page_sub: "e \<in> set (replay_page ns n s) \<Longrightarrow> log_inv s \<Longrightarrow> e \<in> row_to_event ` set (st_events s)"
  by (auto simp: replay_page_take dest!: in_set_takeD)

lemma scanned_log_keys:
  "scan_log w limit t after s st = Inr st1 \<Longrightarrow> log_inv s \<Longrightarrow> k \<in> set (sc_keys st1)
    \<Longrightarrow> k \<in> set (sc_keys st) \<or> (\<exists>e \<in> row_to_event ` set (st_events s). planned_key w e k)"
proof (induction w limit t after s st rule: scan_log.induct)
  case (1 w limit t after s st)
  let ?evs = "replay_page (rc_namespace (rw_cursor w)) after s"
  let ?st = "st\<lparr>sc_plan := load_candidates t (map event_to_dict ?evs) (sc_plan st)\<rparr>"
  show ?case
  proof (cases "?evs = []")
    case True
    then show ?thesis using "1.prems"(1,3) by (subst (asm) scan_log.simps) simp
  next
    case False
    then obtain st2 stop where p: "scan_page w limit s ?evs ?st = Inr (st2, stop)"
      and c: "(if stop \<or> int (length ?evs) < PAGE then Inr st2 else scan_log w limit t (pe_seq (last ?evs)) s st2) = Inr st1"
      using "1.prems"(1) by (subst (asm) scan_log.simps) (auto simp: Let_def rbind_eq_Inr)
    have "k \<in> set (sc_keys st2) \<Longrightarrow> ?thesis"
      using scanned_page_keys [OF p, of k] replay_page_sub [OF _ "1.prems"(2)] by auto
    moreover have "k \<in> set (sc_keys st2) \<or> (\<exists>e \<in> row_to_event ` set (st_events s). planned_key w e k)"
      using c "1.IH" [OF refl False p refl _ _ "1.prems"(2,3)] "1.prems"(3) by (auto split: if_splits)
    ultimately show ?thesis by blast
  qed
qed

text \<open>C7. A replay never adopts foreign rows: when a target that is bound to no mount and has no log and no checkpoint
  already holds a row whose identity key is not the key of an event of the source log that the planner accepts, no
  replay into it succeeds, whatever the cursor, the scope and the budget.
\<close>

theorem foreign_rows_refused:
  assumes "store_inv s" "mount_identity [] t = Inr j" "event_log_bounds t = Inr b" "needs_foreign_guard j b t"
    and "row \<in> set (iter_rows False t)" "record_identity_key row = Inr k"
    and "\<forall>w. open_window nfc a s t = Inr w \<longrightarrow> (\<forall>e \<in> set (st_events s). \<not> planned_key w (row_to_event e) k)"
  shows "replay_with_cursor nfc fr a s t \<noteq> Inr (t', r)"
proof
  assume run: "replay_with_cursor nfc fr a s t = Inr (t', r)"
  obtain w st where w: "open_window nfc a s t = Inr w" and st: "scan_log w (ra_max a) t (rw_start w) s (start_scan w) = Inr st"
    and f: "check_foreign w st t = Inr ()"
    using run by (cases rule: replay_run_cases) auto
  have "rw_guard w" using w assms(2-4) by (auto simp: open_window_def rbind_eq_Inr split: if_splits)
  with f obtain keys where keys: "traverse record_identity_key (iter_rows False t) = Inr keys" "list_all (\<lambda>k. k \<in> set (sc_keys st)) keys"
    by (cases "traverse record_identity_key (iter_rows False t)") (auto simp: check_foreign_def rbind_eq_Inr of_py_exn_def)
  have "k \<in> set keys"
    using keys(1) assms(5,6) by (auto simp: traverse_Inr_iff list_all2_conv_all_nth in_set_conv_nth)
  then have "k \<in> set (sc_keys st)" using keys(2) by (simp add: list_all_iff)
  moreover have "log_inv s" using assms(1) by (simp add: store_inv_def)
  ultimately show False using scanned_log_keys [OF st, of k] w assms(7) by (auto simp: start_scan_def)
qed

section \<open>A replaced history\<close>

lemma replaced_epoch:
  assumes "replace_history keep m nr nh s = Inr (s', i)"
  shows "st_events s' = st_events s" "meta_int ''history_epoch_start_seq'' s' = Inr (max_seq (st_events s))"
proof -
  have s': "s' = reset_epoch (replace_ids keep m nr nh s)"
    using assms by (auto simp: replace_history_def rbind_eq_Inr Let_def)
  have e: "st_events (replace_ids keep m nr nh s) = st_events s"
    by (simp add: replace_ids_def bind_mount_def set_meta_def Let_def)
  then show "st_events s' = st_events s" by (simp add: s' reset_epoch_def Let_def fold_set_meta)
  show "meta_int ''history_epoch_start_seq'' s' = Inr (max_seq (st_events s))"
    by (simp add: s' reset_epoch_def Let_def e)
qed

lemma issued_start:
  assumes "issue_replay_cursor \<lparr>ia_position = ''start'', ia_seq = JNull, ia_base = bs, ia_namespace = ns, ia_types = ts\<rparr> s = Inr c"
  shows "rc_seq c = 0" "rc_anchor_event_id c = []"
  using assms make_cursor_fields(4,5)
  by (auto simp: issue_replay_cursor_def issue_position_def rbind_eq_Inr str_of_def) fastforce+

lemma issued_wf: "issue_replay_cursor a s = Inr c \<Longrightarrow> wf_cursor c"
  by (auto simp: issue_replay_cursor_def rbind_eq_Inr intro: make_cursor_wf)

text \<open>A scan of an empty window examines nothing.\<close>

lemma empty_window:
  assumes "window_events w s = []" "log_inv s"
  shows "scan_log w limit t (rw_start w) s st = Inr st"
proof -
  have "replay_page (rc_namespace (rw_cursor w)) (rw_start w) s = []"
    using assms(1) by (simp add: replay_page_take [OF assms(2)] window_events_def)
  then show ?thesis by (subst scan_log.simps) simp
qed

text \<open>C20. After the history of a store with events has been replaced, and before the new history has an event of its
  own, a replay without a cursor into a target without a saved cursor fails, once its window is open and needs no
  guard against foreign rows: the position after the history boundary has no event to anchor the next cursor at, and
  constructing that cursor raises the error for an unanchored sequence number.
\<close>

theorem replaced_history_unreplayable:
  assumes "store_inv s" "st_events s \<noteq> []" "replace_history keep m nr nh s = Inr (s', i)"
    and "ra_cursor a = None" "saved_cursor t = []" "open_window nfc a s' t = Inr w" "\<not> rw_guard w"
  shows "replay_with_cursor nfc fr a s' t = Inl (ReplayExn (CursorError ''unanchored_sequence''))"
proof -
  obtain c where c: "resolve_cursor a s' t = Inr c" "rw_cursor w = c" "rw_start w = max (rc_seq c) (max_seq (st_events s))"
    using assms(6) replaced_epoch(2) [OF assms(3)]
    by (auto simp: open_window_def rbind_eq_Inr validate_target_Inr validate_source_Inr decode_cursor_def split: if_splits)
  have issued: "issue_replay_cursor \<lparr>ia_position = ''start'', ia_seq = JNull, ia_base = JNull,
      ia_namespace = opt_str (rq_namespace (ra_request a)), ia_types = rq_types (ra_request a)\<rparr> s' = Inr c"
    using c(1) assms(4,5) by (simp add: resolve_cursor_def)
  note z = issued_start [OF issued]
  have l: "log_inv s'" using replace_history_inv [OF assms(1,3)] by (simp add: store_inv_def)
  obtain e where e: "e \<in> set (st_events s)" using assms(2) by (cases "st_events s") auto
  then have pos: "0 < max_seq (st_events s)"
    using max_seq_ge [OF e] assms(1) by (auto simp: store_inv_def log_inv_def)
  have st: "rw_start w = max_seq (st_events s)" using pos by (simp add: c z)
  have "window_events w s' = []"
    by (auto simp: window_events_def st replaced_epoch(1) [OF assms(3)] after_filter_def filter_empty_conv not_less dest: max_seq_ge)
  from empty_window [OF this l] have scan: "scan_log w (ra_max a) t (rw_start w) s' (start_scan w) = Inr (start_scan w)" .
  have ids: "strip (rc_mount_id c) \<noteq> []" "strip (rc_replica_id c) \<noteq> []" "strip (rc_history_id c) \<noteq> []"
    using issued_wf [OF issued] by (simp_all add: wf_cursor_def)
  moreover have "strip [] = []" by simp
  ultimately have "next_cursor w (start_scan w) = Inl (CursorError ''unanchored_sequence'')"
    using pos by (simp add: next_cursor_def start_scan_def c z st make_cursor_def check_version_def nonblank_def check_seq_def
        check_anchor_def str_of_def)
  then show ?thesis
    using assms(6,7) scan by (simp add: replay_with_cursor_def check_foreign_def of_cursor_def)
qed

end
