(* ===== verification/ReplayIdempotent.thy ===== *)
theory ReplayIdempotent
  imports ReplayOnce ReplayExact
begin

text \<open>
  A completed cursor is idempotent: the cursor a complete replay hands back is one the source accepts for the same
  target, and replaying from it examines nothing and leaves the target as it is.
\<close>

section \<open>What pass 2 leaves alone\<close>

definition same_log :: "store \<Rightarrow> store \<Rightarrow> bool" where
  "same_log t s \<longleftrightarrow> st_meta s = st_meta t \<and> st_events s = st_events t \<and> st_last_seq s = st_last_seq t"

lemma same_log_simps [simp]:
  "same_log t t" "same_log t (set_replay_watermark w s) = same_log t s" "same_log t (delete_replay_watermark m s) = same_log t s"
  "same_log t (record_tombstone x s) = same_log t s" "same_log t (delete_memory_row m s) = same_log t s"
  by (simp_all add: same_log_def set_replay_watermark_def delete_replay_watermark_def record_tombstone_def delete_memory_row_def)

lemma same_log_insert: "same_log t s \<Longrightarrow> same_log t (fst (insert_many_ignore now vs s))"
proof -
  have "same_log t (fst st) \<Longrightarrow> same_log t (fst (fold (insert_ignore now) vs st))" for st
    by (induction vs arbitrary: st) (auto simp: insert_ignore_def same_log_def case_prod_beta Let_def split: if_splits)
  then show "same_log t s \<Longrightarrow> ?thesis" by (simp add: insert_many_ignore_def)
qed

lemma same_log_marks: "same_log t s \<Longrightarrow> same_log t (fold set_present_mark ws s)"
  by (induction ws arbitrary: s) (simp_all add: set_present_mark_def)

lemma same_log_flush: "same_log t (ap_store a) \<Longrightarrow> same_log t (ap_store (flush_created now a))"
  using same_log_insert [of t "ap_store a" now "ap_records a"]
  by (auto simp: flush_created_def case_prod_beta intro: same_log_marks)

lemma same_log_replace: "replace_memory_record v s = Inr (s', found) \<Longrightarrow> same_log t s \<Longrightarrow> same_log t s'"
  by (auto simp: replace_memory_record_def same_log_def Let_def split: if_splits option.splits)

lemma same_log_planned:
  assumes "apply_planned env x a = Inr a'" "same_log t (ap_store a)"
  shows "same_log t (ap_store a')"
proof -
  obtain evt pl where x: "x = (evt, pl)" by force
  note f = same_log_flush [OF assms(2), of "ae_now env"]
  show ?thesis
  proof (cases "pd_disposition pl")
    case ApplyCreate
    then have c: "apply_create env evt pl a = Inr a'" using assms(1) by (simp add: x apply_planned_def)
    show ?thesis
    proof (rule apply_create_result [OF c])
      fix v b assume "b = a\<lparr>ap_records := ap_records a @ [v], ap_marks := ap_marks a @ [applied_mark env evt pl v]\<rparr>"
        "a' = b \<or> a' = settle env b"
      then show ?thesis using same_log_flush [of t b "ae_now env"] assms(2) by auto
    qed (use assms(2) in simp)
  next
    case ApplyUpdate
    then have c: "apply_update env evt pl a = Inr a'" using assms(1) by (simp add: x apply_planned_def)
    obtain v s found where "replace_memory_record v (ap_store (settle env a)) = Inr (s, found)"
        "ap_store a' = s \<or> (\<exists>w. ap_store a' = set_replay_watermark w s)" using apply_update_result [OF c] by metis
    then show ?thesis using same_log_replace [OF _ f, of v s found] by auto
  next
    case ApplyDelete
    then show ?thesis
      using assms(1) f by (auto simp: x apply_planned_def apply_delete_def Let_def)
  qed (use assms in \<open>auto simp: x apply_planned_def\<close>)
qed

definition target_kept :: "store \<Rightarrow> apply_state \<Rightarrow> bool" where
  "target_kept t a \<longleftrightarrow> same_log t (ap_store a) \<and> store_inv (ap_store a)"

lemma page_kept:
  assumes "apply_page env plans evs a = Inr b" "target_kept t a"
  shows "target_kept t b"
proof -
  obtain b' where f: "fold_res (apply_planned env) (map (\<lambda>e. (event_to_dict e, planned_for plans (pe_seq e))) evs) a = Inr b'"
    "b = flush_created (ae_now env) b'"
    using assms(1) by (auto simp: apply_page_def rbind_eq_Inr)
  have "target_kept t b'"
    by (rule fold_res_invariant [OF f(1), where P = "target_kept t"])
      (use assms(2) same_log_planned apply_planned_inv in \<open>auto simp: target_kept_def\<close>)
  then show ?thesis using same_log_flush flush_inv by (simp add: f(2) target_kept_def)
qed

lemma apply_log_kept: "apply_log env ns limit st after s a = Inr b \<Longrightarrow> target_kept t a \<Longrightarrow> target_kept t b"
proof (induction env ns limit st after s a rule: apply_log.induct)
  case (1 env ns limit st after s a)
  let ?evs = "replay_page ns after s"
  let ?cut = "if limit = None then ?evs else takeWhile (\<lambda>e. pe_seq e \<le> sc_last st) ?evs"
  show ?case
  proof (cases "?evs = []")
    case True
    then show ?thesis using "1.prems" by (subst (asm) apply_log.simps) simp
  next
    case False
    then obtain c where p: "apply_page env (sc_plans st) ?cut a = Inr c"
      and r: "(if length ?cut < length ?evs \<or> (limit \<noteq> None \<and> sc_last st \<le> pe_seq (last ?evs)) \<or> int (length ?evs) < PAGE then Inr c
         else apply_log env ns limit st (pe_seq (last ?evs)) s c) = Inr b"
      using "1.prems"(1) by (subst (asm) apply_log.simps) (simp only: Let_def if_False rbind_eq_Inr, blast)
    have "target_kept t c" by (rule page_kept [OF p "1.prems"(2)])
    then show ?thesis using r "1.IH" [OF refl False refl p] by (auto simp only: split: if_splits)
  qed
qed

section \<open>The target that is left\<close>

lemma bound_clone_base:
  assumes "record_clone_lineage b True nr nh t = Inr (t', j)"
  shows "mi_base_snapshot_id j = (if cb_snapshot b \<noteq> [] then cb_snapshot b else meta_str ''base_snapshot_id'' t)"
    "cb_cursor b \<noteq> [] \<Longrightarrow> meta_str ''base_cursor'' t' = cb_cursor b"
proof -
  obtain fp n where t': "t' = set_meta ''cloned_at_seq'' n (set_if (cb_cursor b \<noteq> []) ''base_cursor'' (cb_cursor b)
      (set_meta ''base_lineage_fingerprint'' fp (clone_identity b True nr nh t)))"
    and j: "mount_identity [] t' = Inr j"
    using assms by (auto simp: record_clone_lineage_def rbind_eq_Inr Let_def)
  show "mi_base_snapshot_id j = (if cb_snapshot b \<noteq> [] then cb_snapshot b else meta_str ''base_snapshot_id'' t)"
    by (simp add: mount_identity_fields [OF j] t' clone_identity_def rotate_id_def set_if_def bind_mount_def Let_def)
  show "cb_cursor b \<noteq> [] \<Longrightarrow> meta_str ''base_cursor'' t' = cb_cursor b" by (simp add: t' set_if_def)
qed

lemma mount_identity_replayed: "mount_identity g (set_meta ''last_replay_cursor'' v s) = mount_identity g s"
  by (simp add: mount_identity_def meta_int_set_other)

text \<open>After \<open>bind_target\<close>: the identity of a clone, the token under both keys, the rows and the log unchanged.\<close>

lemma bound_target:
  assumes "bind_target fr w token t = Inr t'" "store_inv t" "mi_mount_id (rw_source w) = m" "mi_replica_id (rw_source w) = r"
    and "strip m = m" "strip r = r" "m \<noteq> []" "r \<noteq> []" "rf_replica fr \<noteq> r" "token \<noteq> []"
  obtains j where "mount_identity [] t' = Inr j" "mi_mount_id j = m" "mi_base_source_replica_id j = r" "mi_replica_id j \<noteq> r"
    "mi_parent_replica_id j = meta_str ''parent_replica_id'' t" "mi_mount_bound j" "mi_cloned_at_seq j = max_seq (st_events t)"
    "lineage_of_store t' = Inr (mi_base_lineage_fingerprint j)" "st_events t' = st_events t" "store_inv t'"
    "meta_str ''last_replay_cursor'' t' = token" "meta_str ''base_cursor'' t' = token"
    "rc_base_snapshot_id (rw_cursor w) \<noteq> [] \<Longrightarrow> mi_base_snapshot_id j = rc_base_snapshot_id (rw_cursor w)"
proof -
  obtain b nr nh t1 j where c: "record_clone_lineage b True nr nh t = Inr (t1, j)" "t' = set_meta ''last_replay_cursor'' token t1"
    "cb_mount b = m" "cb_replica b = r" "cb_cursor b = token" "nr = rf_replica fr"
    "rc_base_snapshot_id (rw_cursor w) \<noteq> [] \<Longrightarrow> cb_snapshot b = rc_base_snapshot_id (rw_cursor w)"
    using assms(1,3,4) by (auto simp: bind_target_def rbind_eq_Inr)
  have "strip (cb_mount b) \<noteq> []" "strip (cb_replica b) \<noteq> []" "nr \<noteq> strip (cb_replica b)"
    using assms(5-9) by (simp_all add: c(3,4,6))
  note f = bound_clone [OF c(1) this] and g = bound_clone_base [OF c(1)]
  have "lineage_of_store t' = lineage_of_store t1" by (rule lineage_of_store_memories) (simp add: c(2) set_meta_def)
  moreover have "store_inv t'"
    using record_clone_lineage_inv [OF assms(2) c(1)] by (simp add: c(2) set_meta_inv MARK_KEYS_def)
  moreover have "st_events t' = st_events t1" by (simp add: c(2) set_meta_def)
  ultimately show thesis
    using f g assms(5,6,10) c(7)
    by (intro that [of j]) (simp_all add: c(2-5) mount_identity_replayed)
qed

section \<open>The cursor is accepted again\<close>

lemma decode_cursor_wf:
  assumes "decode_cursor c = Inr k" "\<And>x. c = CursorObject x \<Longrightarrow> wf_cursor x"
  shows "wf_cursor k"
proof (cases c)
  case (CursorValue v)
  then obtain s where "decode_token s = Inr k"
    using assms(1) by (cases v) (auto simp: decode_cursor_def split: if_splits)
  then show ?thesis by (auto simp: decode_token_def Let_def split: if_splits dest: decode_parts_Inr)
qed (use assms in \<open>simp add: decode_cursor_def\<close>)

lemma resolve_cursor_wf:
  assumes "resolve_cursor a s t = Inr k" "\<And>x. ra_cursor a = Some (CursorObject x) \<Longrightarrow> wf_cursor x"
  shows "wf_cursor k"
  using assms by (auto simp: resolve_cursor_def split: option.splits if_splits intro: decode_cursor_wf issued_wf)

lemma reconstructing_types: "wf_types RECONSTRUCTING_EVENT_TYPES" "\<not> non_reconstructing RECONSTRUCTING_EVENT_TYPES"
  by (simp_all add: wf_types_def) (code_simp+)

text \<open>The types a replay works with are normal and reconstructing, and asking for them again changes nothing.\<close>

lemma effective_types:
  assumes "effective_replay_event_types c v = Inr ts" "check_scope q c = Inr ()" "rq_types q = v" "wf_cursor c"
  shows "wf_types ts" "\<not> non_reconstructing ts" "v \<noteq> JNull \<Longrightarrow> normalize_event_types v = Inr ts"
    "rq_namespace q = None \<or> rq_namespace q = rc_namespace c"
  using assms normalize_event_types_wf [of v ts] reconstructing_types
  by (auto simp: effective_replay_event_types_def check_scope_def check_requested_types_def rbind_eq_Inr wf_cursor_def split: if_splits)

lemma clean_clone_at:
  assumes "compare_mount_lineage nfc s u = Inr r" "mount_identity [] s = Inr i" "mount_identity [] u = Inr j" "store_inv u"
    and "mi_mount_id i \<noteq> []" "mi_mount_id j = mi_mount_id i" "mi_replica_id i \<noteq> []" "mi_replica_id j \<noteq> mi_replica_id i"
    and "mi_base_source_replica_id j = mi_replica_id i" "mi_parent_replica_id i = []" "mi_parent_replica_id j = []"
    and "lineage_of_store u = Inr (mi_base_lineage_fingerprint j)" "mi_cloned_at_seq j = max_seq (st_events u)"
  shows "lx_relationship r = ''clone''"
proof -
  obtain q where q: "extract_lineage_probe nfc u = Inr q" "(lx_relationship r, lx_reason r) = clone_verdict q"
    using clone_compared [OF assms(1-3,5-11)] by blast
  have "log_inv u" using assms(4) by (simp add: store_inv_def)
  from clone_mutations [OF q(1) this assms(3,12)] have "lp_mutations q = 0" by (simp add: assms(13) no_later_events)
  with q(2) show ?thesis by (simp add: clone_verdict_def)
qed

lemma event_in_window:
  assumes "e \<in> set (st_events s)" "log_inv s" "rc_seq k = ev_seq e" "rc_anchor_event_id k = ev_id e"
    and "event_log_bounds s = Inr b" "store_inv s" "meta_int ''compacted_tombstones_through_seq'' s = Inr n"
  shows "check_window b n k s = Inr ()"
proof -
  note bi = bounds_inv [OF assms(6,5)]
  have h: "event_at_seq (rc_seq k) s = Some e" using assms(1,2,3) by (simp add: event_at_seq_iff)
  have "0 < ev_seq e" "ev_seq e \<le> max_seq (st_events s)" "lb_trimmed b < ev_seq e"
    using assms(1,2) max_seq_ge [OF assms(1)] bi(3) by (auto simp: log_inv_def)
  moreover have "n \<le> lb_trimmed b" using bi(4) assms(7) by auto
  moreover have "lb_head_seq b = max_seq (st_events s)" using bi(6) assms(1) by fastforce
  ultimately show ?thesis using h bi(5) by (simp add: check_window_def assms(3,4))
qed

text \<open>The cursor after a step is accepted by the source again.\<close>

lemma next_source:
  assumes "validate_source (Some t) q raw s = Inr c" "store_inv s" "wf_cursor c" "same_source k c"
    and "rc_base_snapshot_id k = rc_base_snapshot_id c" "rc_namespace k = rc_namespace c"
    and "effective_replay_event_types c (rq_types q) = Inr (rc_event_types k)" "rc_scope_mode k \<noteq> ''legacy''"
    and "e \<in> set (st_events s)" "rc_seq k = ev_seq e" "rc_anchor_event_id k = ev_id e" "mount_identity [] t' = Inr j"
    and "rc_base_snapshot_id c \<noteq> [] \<Longrightarrow> mi_base_snapshot_id j = rc_base_snapshot_id c"
  shows "validate_source (Some t') q (CursorObject k) s = Inr k"
    "effective_replay_event_types k (rq_types q) = Inr (rc_event_types k)"
proof -
  obtain i b tb n where v: "mount_identity [] s = Inr i" "require_identity i = Inr ()" "event_log_bounds s = Inr b"
    "check_source_identity (rq_allow_legacy q) i c = Inr ()" "check_base (mi_base_snapshot_id i) tb c = Inr ()"
    "check_scope q c = Inr ()" "meta_int ''compacted_tombstones_through_seq'' s = Inr n"
    using assms(1) by (auto simp: validate_source_Inr)
  note ty = effective_types [OF assms(7) v(6) refl assms(3)]
  have l: "log_inv s" using assms(2) by (simp add: store_inv_def)
  have "check_source_identity (rq_allow_legacy q) i k = Inr ()"
    using v(4) assms(4) by (simp add: check_source_identity_def same_source_def split: if_splits)
  moreover have "check_base (mi_base_snapshot_id i) (mi_base_snapshot_id j) k = Inr ()"
    using v(5) assms(13) by (auto simp: check_base_def assms(5) split: if_splits)
  moreover have "check_scope q k = Inr ()"
    using ty assms(6) by (auto simp: check_scope_def check_requested_types_def)
  moreover have "check_window b n k s = Inr ()" by (rule event_in_window [OF assms(9) l assms(10,11) v(3) assms(2) v(7)])
  ultimately show "validate_source (Some t') q (CursorObject k) s = Inr k"
    using v assms(12) by (simp add: validate_source_Inr decode_cursor_def target_base_def)
  show "effective_replay_event_types k (rq_types q) = Inr (rc_event_types k)"
    using ty(3) assms(8) by (simp add: effective_replay_event_types_def legacy_default_def)
qed

lemma open_window_Inr:
  assumes "open_window nfc a s t = Inr w"
  shows "resolve_cursor a s t = Inr (rw_cursor w)" "validate_source (Some t) (ra_request a) (CursorObject (rw_cursor w)) s = Inr (rw_cursor w)"
    "effective_replay_event_types (rw_cursor w) (rq_types (ra_request a)) = Inr (rw_types w)"
    "\<exists>n. meta_int ''history_epoch_start_seq'' s = Inr n \<and> rw_start w = max (rc_seq (rw_cursor w)) n"
    "mount_identity [] s = Inr (rw_source w)"
  using assms by (auto simp: open_window_def rbind_eq_Inr validate_target_Inr validate_source_Inr decode_cursor_def split: if_splits)

lemma ascii_next:
  assumes "next_cursor w st = Inr k" "ascii_cursor (rw_cursor w)" "ascii (rc_anchor_event_id k)" "\<not> non_reconstructing (rc_event_types k)"
  shows "ascii_cursor k"
proof -
  note f = next_cursor_fields [OF assms(1)]
  have "ascii x" if "x \<in> set RECONSTRUCTING_EVENT_TYPES" for x using that by (auto simp: RECONSTRUCTING_EVENT_TYPES_def ascii_def)
  then have "list_all ascii (rc_event_types k)" using assms(4) by (auto simp: non_reconstructing_def list_ex_iff list_all_iff)
  moreover have "ascii (rc_scope_mode k)" by (simp add: f(8) ascii_def)
  ultimately show ?thesis
    using assms(2,3) f(2,3,4) by (simp add: ascii_cursor_def same_source_def)
qed

text \<open>The end of a complete step: the cursor handed back is the one after the last event of the window.\<close>

lemma completed_step:
  assumes "replay_with_cursor nfc fr a s t = Inr (t', r)" "rr_completed r" "0 < rr_scanned r" "store_inv s"
    and "open_window nfc a s t = Inr w"
  obtains st k e where "next_cursor w st = Inr k" "run_window fr w (ra_max a) st (encode_cursor k) s t = Inr (t', r)"
    "rr_cursor r = encode_cursor k" "e \<in> set (st_events s)" "rc_seq k = ev_seq e" "rc_anchor_event_id k = ev_id e"
    "rw_start w < ev_seq e" "\<And>w'. rc_namespace (rw_cursor w') = rc_namespace (rw_cursor w) \<Longrightarrow> rw_start w' = ev_seq e \<Longrightarrow> window_events w' s = []"
  using assms(1)
proof (cases rule: replay_run_cases)
  case (2 v st k)
  have v: "v = w" using 2(1) assms(5) by simp
  have l: "log_inv s" using assms(4) by (simp add: store_inv_def)
  note sc = window_scanned [OF 2(1,2) l, unfolded v] and res = run_window_result [OF 2(5)] and f = next_cursor_fields [OF 2(4)]
  let ?F = "filter (after_filter (rc_namespace (rw_cursor w)) (rw_start w)) (st_events s)"
  have len: "sc_scanned st = length ?F" "?F \<noteq> []" using sc(2) res assms(2,3) by (auto simp: window_events_def)
  define e where "e = last ?F"
  have e: "e \<in> set ?F" unfolding e_def by (rule last_in_set [OF len(2)])
  then have m: "e \<in> set (st_events s)" "rw_start w < ev_seq e" "0 < ev_seq e" using l by (auto simp: after_filter_def log_inv_def)
  have q: "sc_last st = ev_seq e" "sc_event_id st = ev_id e"
    using sc(3) len by (simp_all add: stands_after_def window_events_def last_map e_def row_to_event_def)
  have "filter (after_filter (rc_namespace (rw_cursor w)) (ev_seq e)) (st_events s) = []"
    using rest_of_log [OF l _ order_refl, of "rc_namespace (rw_cursor w)" "rw_start w"] len(2)
    by (simp add: e_def last_conv_nth)
  then have none: "window_events w' s = []" if "rc_namespace (rw_cursor w') = rc_namespace (rw_cursor w)" "rw_start w' = ev_seq e" for w'
    by (simp add: window_events_def that)
  show thesis
    by (rule that [OF 2(4,5) [unfolded v] res(3) m(1) _ _ m(2)]) (simp_all add: f(1,5) q m(3) none)
qed (use assms(3) in simp)

lemma target_again:
  assumes "mount_identity [] s = Inr i" "mount_identity [] t' = Inr j" "store_inv t'" "mi_mount_bound j" "mi_mount_id j = mi_mount_id i"
    and "compare_mount_lineage nfc s t' = Inr x" "lx_relationship x = ''clone''"
    and "meta_str ''last_replay_cursor'' t' = token" "decode_cursor (CursorValue (JStr token)) = Inr k" "token \<noteq> []"
  shows "check_target nfc k s t' = Inr ()"
proof -
  obtain b where b: "event_log_bounds t' = Inr b" using bounds_total [OF assms(3)] by blast
  have "saved_checkpoint (saved_cursor t') = Inr (Some k)" by (simp add: saved_checkpoint_def saved_cursor_def assms(8-10))
  then have "check_target_base k t' j b = Inr ()" by (simp add: check_target_base_def holds_base_def)
  then show ?thesis
    using assms(1,2,4-7) b by (simp add: check_target_def target_is_bound_def check_target_lineage_def)
qed

text \<open>A replay from a standing checkpoint.\<close>

lemma standing_replay:
  assumes "open_window nfc a s t = Inr w" "window_events w s = []" "log_inv s" "\<not> rw_guard w" "wf_cursor (rw_cursor w)"
    and "rw_start w = rc_seq (rw_cursor w)" "rw_types w = rc_event_types (rw_cursor w)"
    and "rc_scope_mode (rw_cursor w) = (if rw_types w = RECONSTRUCTING_EVENT_TYPES then ''reconstructing'' else ''explicit'')"
    and "meta_str ''last_replay_cursor'' t = token" "meta_str ''base_cursor'' t = token"
    and "token \<noteq> []" "decode_cursor (CursorValue (JStr token)) = Inr (rw_cursor w)"
  shows "replay_with_cursor nfc fr a s t
    = Inr (t, \<lparr>rr_applied = 0, rr_skipped = 0, rr_scanned = 0, rr_cursor = token, rr_completed = True\<rparr>)"
proof -
  let ?k = "rw_cursor w"
  have anchor: "(if 0 < rc_seq ?k then rc_anchor_event_id ?k else []) = rc_anchor_event_id ?k"
    using assms(5) by (auto simp: wf_cursor_def)
  have "next_cursor w (start_scan w) = make_cursor (args_of ?k)"
    unfolding next_cursor_def start_scan_def args_of_def Let_def opt_str_def
    by (simp only: scan_state.simps assms(6) anchor assms(8) [symmetric]) (simp add: assms(7))
  then have n: "next_cursor w (start_scan w) = Inr ?k" using make_cursor_args [OF assms(5)] by simp
  have "checkpoints f t = [token]" for f using assms(9-11) by (simp add: checkpoints_def Let_def)
  moreover have "saved_checkpoint token = Inr (Some ?k)" using assms(11,12) by (simp add: saved_checkpoint_def)
  ultimately have "standing_checkpoint ?k (checkpoints f t) = Inr (Some token)" for f
    by (simp add: same_position_def same_source_def)
  then show ?thesis
    using assms(1,4) n empty_window [OF assms(2,3)]
    by (simp add: replay_with_cursor_def check_foreign_def of_cursor_def start_scan_def)
qed

text \<open>C5. Reusing a completed cursor is idempotent. After a complete replay from a source that is no fork into a
  target that is no fork, the cursor it handed back is accepted again for the same target, with or without a budget:
  the replay examines no event, applies none, leaves the target exactly as it is and hands the same cursor back.
\<close>

theorem completed_cursor_idempotent:
  assumes "replay_with_cursor nfc fr a s t = Inr (t', r)" "rr_completed r" "0 < rr_scanned r" "store_inv s" "store_inv t"
    and "open_window nfc a s t = Inr w" "ascii_cursor (rw_cursor w)" "\<forall>e \<in> set (st_events s). ascii (ev_id e)"
    and "\<forall>c. ra_cursor a = Some (CursorObject c) \<longrightarrow> wf_cursor c" "py_len (rr_cursor r) \<le> MAX_CURSOR_TOKEN"
    and "mount_identity [] s = Inr i" "strip (mi_mount_id i) = mi_mount_id i" "strip (mi_replica_id i) = mi_replica_id i"
    and "mi_parent_replica_id i = []" "meta_str ''parent_replica_id'' t = []" "rf_replica fr \<noteq> mi_replica_id i"
    and "compare_mount_lineage nfc s t' = Inr x" "\<forall>n. limit = Some n \<longrightarrow> 0 < n"
  shows "replay_with_cursor nfc fr' \<lparr>ra_cursor = Some (CursorValue (JStr (rr_cursor r))), ra_max = limit, ra_request = ra_request a\<rparr> s t'
    = Inr (t', \<lparr>rr_applied = 0, rr_skipped = 0, rr_scanned = 0, rr_cursor = rr_cursor r, rr_completed = True\<rparr>)"
proof -
  obtain st k e where k: "next_cursor w st = Inr k" "run_window fr w (ra_max a) st (encode_cursor k) s t = Inr (t', r)"
    "rr_cursor r = encode_cursor k" "e \<in> set (st_events s)" "rc_seq k = ev_seq e" "rc_anchor_event_id k = ev_id e"
    "rw_start w < ev_seq e" "\<And>w'. rc_namespace (rw_cursor w') = rc_namespace (rw_cursor w) \<Longrightarrow> rw_start w' = ev_seq e \<Longrightarrow> window_events w' s = []"
    by (rule completed_step [OF assms(1-4,6)]) (rule that)
  let ?c = "rw_cursor w" and ?q = "ra_request a" and ?token = "rr_cursor r"
  note f = next_cursor_fields [OF k(1)] and o = open_window_Inr [OF assms(6)]
  have i: "rw_source w = i" using o(5) assms(11) by simp
  have wfc: "wf_cursor ?c" using resolve_cursor_wf [OF o(1)] assms(9) by blast
  have src: "check_scope ?q ?c = Inr ()" "mi_mount_id i \<noteq> []" "mi_replica_id i \<noteq> []"
    using o(2) assms(11) by (auto simp: validate_source_Inr require_identity_def)
  note ty = effective_types [OF o(3) src(1) refl wfc]
  have types: "rc_event_types k = rw_types w" using f(7) normalize_event_types_normal [OF ty(1)] by simp
  have "ascii_cursor k" using ascii_next [OF k(1) assms(7)] k(4,6) assms(8) ty(2) by (simp add: types)
  then have token: "decode_cursor (CursorValue (JStr ?token)) = Inr k" "?token \<noteq> []"
    using token_roundtrip [OF f(6)] assms(10) by (simp_all add: decode_cursor_def k(3) encode_cursor_def Let_def CURSOR_PREFIX_def)
  obtain env ns p where run: "apply_log env ns (ra_max a) st (rw_start w) s (start_apply t) = Inr p"
    and p2: "bind_target fr w ?token (ap_store p) = Inr t'"
    using k(2) by (auto simp: run_window_def Let_def rbind_eq_Inr k(3))
  have p: "target_kept t p" "bind_target fr w ?token (ap_store p) = Inr t'"
    using apply_log_kept [OF run, of t] p2 assms(5) by (simp_all add: target_kept_def start_apply_def)
  then have kept: "store_inv (ap_store p)" "st_meta (ap_store p) = st_meta t" by (simp_all add: target_kept_def same_log_def)
  obtain j where j: "mount_identity [] t' = Inr j" "mi_mount_id j = mi_mount_id i" "mi_base_source_replica_id j = mi_replica_id i"
    "mi_replica_id j \<noteq> mi_replica_id i" "mi_parent_replica_id j = meta_str ''parent_replica_id'' (ap_store p)" "mi_mount_bound j"
    "mi_cloned_at_seq j = max_seq (st_events (ap_store p))" "lineage_of_store t' = Inr (mi_base_lineage_fingerprint j)"
    "st_events t' = st_events (ap_store p)" "store_inv t'" "meta_str ''last_replay_cursor'' t' = ?token"
    "meta_str ''base_cursor'' t' = ?token" "rc_base_snapshot_id ?c \<noteq> [] \<Longrightarrow> mi_base_snapshot_id j = rc_base_snapshot_id ?c"
    using bound_target [OF p(2) kept(1) i [THEN arg_cong] i [THEN arg_cong] assms(12,13) src(2,3) assms(16) token(2)] by blast
  have "mi_parent_replica_id j = []" using j(5) assms(15) kept(2) by (simp add: meta_str_def get_meta_def)
  then have clone: "lx_relationship x = ''clone''"
    using clean_clone_at [OF assms(17,11) j(1,10) src(2) j(2) src(3) j(4,3) assms(14) _ j(8)] j(7,9) by simp
  note again = next_source [OF o(2) assms(4) wfc f(3,4,2) o(3) [folded types] _ k(4-6) j(1,13)]
  have legacy: "rc_scope_mode k \<noteq> ''legacy''" by (simp add: f(8))
  let ?a = "\<lparr>ra_cursor = Some (CursorValue (JStr ?token)), ra_max = limit, ra_request = ?q\<rparr>"
  let ?w = "\<lparr>rw_cursor = k, rw_types = rc_event_types k, rw_start = rc_seq k, rw_guard = False, rw_source = i\<rparr>"
  have "validate_replay_cursor nfc (Some t') ?q (CursorObject k) s = Inr k"
    using again(1) [OF legacy] target_again [OF assms(11) j(1,10,6,2) assms(17) clone j(11) token] by (simp add: validate_target_Inr)
  moreover obtain b where "event_log_bounds t' = Inr b" using bounds_total [OF j(10)] by blast
  moreover have "\<not> (case limit of None \<Rightarrow> False | Some n \<Rightarrow> n \<le> 0)" using assms(18) by (auto split: option.splits)
  ultimately have w': "open_window nfc ?a s t' = Inr ?w"
    using o(4) again(2) [OF legacy] k(5,7) j(1,6) assms(11) token(1)
    by (auto simp: open_window_def resolve_cursor_def needs_foreign_guard_def)
  have "window_events ?w s = []" by (rule k(8)) (simp_all add: f(2) k(5))
  then show ?thesis
    using standing_replay [OF w', of ?token fr'] assms(4) f(6,8) types j(11,12) token by (simp add: store_inv_def)
qed

end
