(* ===== verification/ReplayRunExamples.thy ===== *)
theory ReplayRunExamples
  imports ReplayIdempotent
begin

text \<open>
  Concrete replays: a source with two observational events replayed into an empty target, with and without a
  budget, a source whose history has been replaced, and a source whose only record the target already holds.
\<close>

section \<open>A source with two events\<close>

definition quiet_event :: "string \<Rightarrow> event_row" where
  "quiet_event i = \<lparr>ev_seq = 0, ev_id = i, ev_memory = None, ev_namespace = [], ev_type = ''memory.promotion'',
     ev_at = ''2026'', ev_payload = ''{}''\<rparr>"

definition append_quiet :: "string \<Rightarrow> store \<Rightarrow> store" where
  "append_quiet i s = (case append_row (quiet_event i) s of Inr (s', n) \<Rightarrow> s' | Inl e \<Rightarrow> s)"

definition with_ids :: "store \<Rightarrow> store" where
  "with_ids s = set_meta ''history_id'' ''hist-1'' (set_meta ''replica_id'' ''rep-1'' (set_meta ''mount_id'' ''mnt-1'' s))"

definition quiet_store :: store where
  "quiet_store = with_ids (append_quiet ''e2'' (append_quiet ''e1'' empty_store))"

definition step_args :: "int option \<Rightarrow> replay_args" where
  "step_args n = \<lparr>ra_cursor = None, ra_max = n, ra_request = plain_request\<rparr>"

definition start_cursor :: replay_cursor where
  "start_cursor = \<lparr>rc_mount_id = ''mnt-1'', rc_replica_id = ''rep-1'', rc_history_id = ''hist-1'', rc_seq = 0,
     rc_anchor_event_id = [], rc_base_snapshot_id = [], rc_namespace = None,
     rc_event_types = RECONSTRUCTING_EVENT_TYPES, rc_scope_mode = ''reconstructing''\<rparr>"

definition quiet_source :: mount_ident where
  "quiet_source = (case mount_identity [] quiet_store of Inr i \<Rightarrow> i)"

definition start_window :: "mount_ident \<Rightarrow> bool \<Rightarrow> replay_window" where
  "start_window i guard = \<lparr>rw_cursor = start_cursor, rw_types = RECONSTRUCTING_EVENT_TYPES, rw_start = 0, rw_guard = guard, rw_source = i\<rparr>"

lemma with_ids_inv: "store_inv s \<Longrightarrow> store_inv (with_ids s)"
  by (simp add: with_ids_def set_meta_inv MARK_KEYS_def)

lemma append_quiet_inv: "store_inv s \<Longrightarrow> store_inv (append_quiet i s)"
  by (auto simp: append_quiet_def intro: append_row_inv split: sum.splits)

lemma quiet_store_inv: "store_inv quiet_store"
  by (simp add: quiet_store_def with_ids_inv append_quiet_inv empty_store_inv)

definition fresh_ids :: replay_fresh where
  "fresh_ids = \<lparr>rf_now = ''now'', rf_replica = ''rep-2'', rf_history = ''hist-2'', rf_base_first = False\<rparr>"

text \<open>The passes over the two events, up to the values that rest on a digest.\<close>

definition quiet_passes :: "int option \<Rightarrow> nat \<Rightarrow> replay_cursor \<Rightarrow> bool" where
  "quiet_passes limit n c =
     (case scan_log (start_window quiet_source False) limit empty_store 0 quiet_store (start_scan (start_window quiet_source False)) of
       Inr st \<Rightarrow> sc_scanned st = n \<and> next_cursor (start_window quiet_source False) st = Inr c
         \<and> apply_log \<lparr>ae_now = ''now'', ae_source = Some quiet_source, ae_batch = None\<rparr> None limit st 0 quiet_store (start_apply empty_store)
           = Inr ((start_apply empty_store)\<lparr>ap_skipped := 0\<rparr>)
     | Inl e \<Rightarrow> False)"

lemma quiet_facts:
  "open_window id (step_args None) quiet_store empty_store = Inr (start_window quiet_source False)"
  "open_window id (step_args (Some 1)) quiet_store empty_store = Inr (start_window quiet_source False)"
  "quiet_passes None 2 (start_cursor\<lparr>rc_seq := 2, rc_anchor_event_id := ''e2''\<rparr>)"
  "quiet_passes (Some 1) 1 (start_cursor\<lparr>rc_seq := 1, rc_anchor_event_id := ''e1''\<rparr>)"
  "mount_identity [] quiet_store = Inr quiet_source"
  by code_simp+

lemma token_nonempty: "encode_cursor c \<noteq> []"
  by (simp add: encode_cursor_def Let_def CURSOR_PREFIX_def)

lemma bind_empty:
  assumes "st_memories t = []" "store_inv t" "mount_identity [] t = Inr j"
  shows "\<exists>t'. bind_target fr w token t = Inr t'"
proof -
  have "meta_int ''forked_at_seq'' t = Inr (mi_forked_at_seq j)" using mount_identity_fields(6) [OF assms(3)] .
  from clone_total [OF assms(1,2) this]
  have "\<exists>t' k. record_clone_lineage b True nr nh t = Inr (t', k)" for b nr nh by blast
  then obtain t' k where "record_clone_lineage
       \<lparr>cb_mount = mi_mount_id (rw_source w), cb_replica = mi_replica_id (rw_source w), cb_history = mi_history_id (rw_source w),
        cb_snapshot = (if rc_base_snapshot_id (rw_cursor w) \<noteq> [] then rc_base_snapshot_id (rw_cursor w) else mi_base_snapshot_id j),
        cb_state_fingerprint = state_fingerprint_from_list [], cb_cursor = token, cb_scope = []\<rparr>
       True (rf_replica fr) (rf_history fr) t = Inr (t', k)" by blast
  then show ?thesis
    using assms(1,3) by (simp add: bind_target_def iter_rows_def of_rec_def of_db_exn_def)
qed

lemma quiet_run:
  assumes "open_window id (step_args limit) quiet_store empty_store = Inr (start_window quiet_source False)"
    and "quiet_passes limit n c" "0 < n"
  shows "\<exists>t' r. replay_with_cursor id fresh_ids (step_args limit) quiet_store empty_store = Inr (t', r)
    \<and> rr_scanned r = n \<and> rr_cursor r = encode_cursor c
    \<and> bind_target fresh_ids (start_window quiet_source False) (encode_cursor c) empty_store = Inr t'"
proof -
  let ?w = "start_window quiet_source False"
  obtain st where st: "scan_log ?w limit empty_store 0 quiet_store (start_scan ?w) = Inr st" "sc_scanned st = n"
    "next_cursor ?w st = Inr c"
    "apply_log \<lparr>ae_now = ''now'', ae_source = Some quiet_source, ae_batch = None\<rparr> None limit st 0 quiet_store (start_apply empty_store)
      = Inr ((start_apply empty_store)\<lparr>ap_skipped := 0\<rparr>)"
    using assms(2) by (auto simp: quiet_passes_def split: sum.splits)
  obtain j where j: "mount_identity [] empty_store = Inr j" using mount_identity_ok example_ints(1) by metis
  obtain t' where t': "bind_target fresh_ids ?w (encode_cursor c) empty_store = Inr t'"
    using bind_empty [OF _ empty_store_inv j] by (force simp: empty_store_def)
  show ?thesis
    using assms(1,3) st t'
    by (simp add: replay_with_cursor_def of_cursor_def check_foreign_def run_window_def start_window_def fresh_ids_def step_args_def
        start_cursor_def start_apply_def Let_def)
qed

lemma replay_budget_exact_witness:
  "\<exists>t' r. replay_with_cursor id fresh_ids (step_args (Some 1)) quiet_store empty_store = Inr (t', r)
     \<and> rr_scanned r = 1 \<and> \<not> rr_completed r"
proof -
  obtain t' r where r: "replay_with_cursor id fresh_ids (step_args (Some 1)) quiet_store empty_store = Inr (t', r)" "rr_scanned r = 1"
    using quiet_run [OF quiet_facts(2,4)] by auto
  have "map ev_seq (st_events quiet_store) = [1, 2]" by code_simp
  then have "length (window_events (start_window quiet_source False) quiet_store) = 2"
    by (auto simp: window_events_def start_window_def start_cursor_def after_filter_def map_eq_Cons_conv)
  then show ?thesis
    using replay_budget_exact [OF r(1) quiet_store_inv] quiet_facts(2) r by auto
qed

text \<open>What binding an empty target leaves can be compared with its source.\<close>

lemma bound_empty:
  assumes "bind_target fr w token empty_store = Inr t'" "rc_base_snapshot_id (rw_cursor w) = []"
  shows "st_memories t' = []" "store_inv t'" "\<exists>j. mount_identity [] t' = Inr j \<and> mi_base_snapshot_id j = []"
proof -
  have e: "meta_str k empty_store = []" for k by (simp add: meta_str_def get_meta_def empty_store_def)
  obtain j b nr nh t1 j1 where c: "mount_identity [] empty_store = Inr j" "record_clone_lineage b True nr nh empty_store = Inr (t1, j1)"
    "t' = set_meta ''last_replay_cursor'' token t1" "cb_snapshot b = mi_base_snapshot_id j"
    using assms by (auto simp: bind_target_def rbind_eq_Inr)
  have "cb_snapshot b = []" using mount_identity_fields [OF c(1)] e by (simp add: c(4))
  moreover have m: "mount_identity [] t1 = Inr j1" "st_memories t1 = []"
    using c(2) by (auto simp: record_clone_lineage_def rbind_eq_Inr Let_def empty_store_def)
  ultimately show "st_memories t' = []" "store_inv t'" "\<exists>j. mount_identity [] t' = Inr j \<and> mi_base_snapshot_id j = []"
    using bound_clone_base(1) [OF c(2)] record_clone_lineage_inv [OF empty_store_inv c(2)] e
    by (simp_all add: c(3) mount_identity_replayed set_meta_inv MARK_KEYS_def)
qed

lemma completed_cursor_idempotent_witness:
  "\<exists>t' r. replay_with_cursor id fresh_ids (step_args None) quiet_store empty_store = Inr (t', r) \<and> rr_scanned r = 2
     \<and> replay_with_cursor id fresh_ids
         \<lparr>ra_cursor = Some (CursorValue (JStr (rr_cursor r))), ra_max = Some 5, ra_request = plain_request\<rparr> quiet_store t'
       = Inr (t', \<lparr>rr_applied = 0, rr_skipped = 0, rr_scanned = 0, rr_cursor = rr_cursor r, rr_completed = True\<rparr>)"
proof -
  let ?w = "start_window quiet_source False" and ?k = "start_cursor\<lparr>rc_seq := 2, rc_anchor_event_id := ''e2''\<rparr>"
  obtain t' r where r: "replay_with_cursor id fresh_ids (step_args None) quiet_store empty_store = Inr (t', r)" "rr_scanned r = 2"
    "rr_cursor r = encode_cursor ?k" "bind_target fresh_ids ?w (encode_cursor ?k) empty_store = Inr t'"
    using quiet_run [OF quiet_facts(1,3)] by auto
  have ids: "mi_mount_id quiet_source = ''mnt-1''" "mi_replica_id quiet_source = ''rep-1''" "mi_parent_replica_id quiet_source = []"
    "mi_base_snapshot_id quiet_source = []" "strip ''mnt-1'' = ''mnt-1''" "strip ''rep-1'' = ''rep-1''" "st_memories quiet_store = []"
    "ascii_cursor start_cursor" "list_all (\<lambda>e. ascii (ev_id e)) (st_events quiet_store)"
    "meta_str ''parent_replica_id'' empty_store = []" "length (dumps True (JObj (to_payload_dict ?k))) \<le> 400"
    "map ev_seq (st_events quiet_store) = [1, 2]"
    by code_simp+
  note b = bound_empty [OF r(4)]
  have rb: "rc_base_snapshot_id (rw_cursor ?w) = []" by (simp add: start_window_def start_cursor_def)
  obtain j where j: "mount_identity [] t' = Inr j" "mi_base_snapshot_id j = []" using b(3) [OF rb] by blast
  obtain p q where p: "extract_lineage_probe id quiet_store = Inr p" and q: "extract_lineage_probe id t' = Inr q"
    using empty_probe [OF ids(7) quiet_store_inv quiet_facts(5)] empty_probe [OF b(1,2) [OF rb] j(1)] by blast
  obtain x where x: "compare_mount_lineage id quiet_store t' = Inr x"
    using compare_total [OF p q] extracted_probe(1) [OF p] extracted_probe(1) [OF q] ids(4) j quiet_facts(5) by auto
  have "length (window_events ?w quiet_store) = 2"
    using ids(12) by (auto simp: window_events_def start_window_def start_cursor_def after_filter_def map_eq_Cons_conv)
  then have "rr_completed r"
    using window_scanned(2) run_window_result r quiet_facts(1) quiet_store_inv
    by (cases rule: replay_run_cases [OF r(1)]) (auto simp: store_inv_def)
  moreover have "py_len (rr_cursor r) \<le> MAX_CURSOR_TOKEN"
    using length_token [of ?k] py_len_le [of "encode_cursor ?k"] ids(11) by (simp add: r(3) MAX_CURSOR_TOKEN_def)
  ultimately have "replay_with_cursor id fresh_ids
      \<lparr>ra_cursor = Some (CursorValue (JStr (rr_cursor r))), ra_max = Some 5, ra_request = ra_request (step_args None)\<rparr> quiet_store t'
    = Inr (t', \<lparr>rr_applied = 0, rr_skipped = 0, rr_scanned = 0, rr_cursor = rr_cursor r, rr_completed = True\<rparr>)"
    using r(2) ids
    by (intro completed_cursor_idempotent [OF r(1) _ _ quiet_store_inv empty_store_inv quiet_facts(1) _ _ _ _ quiet_facts(5) _ _ _ _ _ x])
      (simp_all add: start_window_def list_all_iff step_args_def fresh_ids_def)
  then show ?thesis using r(1,2) by (auto simp: step_args_def)
qed

lemma replaced_history_unreplayable_witness:
  "\<exists>s' i. replace_history True [] ''rep-2'' ''hist-2'' cursor_store = Inr (s', i)
     \<and> replay_with_cursor id fresh_ids (step_args None) s' empty_store = Inl (ReplayExn (CursorError ''unanchored_sequence''))"
proof -
  have c: "case replace_history True [] ''rep-2'' ''hist-2'' cursor_store of
      Inr (s', i) \<Rightarrow> (case open_window id (step_args None) s' empty_store of Inr w \<Rightarrow> \<not> rw_guard w | Inl e \<Rightarrow> False) | Inl e \<Rightarrow> False"
    by code_simp
  then obtain s' i w where s': "replace_history True [] ''rep-2'' ''hist-2'' cursor_store = Inr (s', i)"
    "open_window id (step_args None) s' empty_store = Inr w" "\<not> rw_guard w"
    by (auto split: sum.splits)
  have "st_events cursor_store \<noteq> []" "saved_cursor empty_store = []" by code_simp+
  with replaced_history_unreplayable [OF cursor_store_inv _ s'(1) _ _ s'(2,3), of fresh_ids] s'(1) show ?thesis
    by (auto simp: step_args_def)
qed

section \<open>A foreign row\<close>

definition holding_store :: store where
  "holding_store = empty_store\<lparr>st_memories := [inserted_row ''2026'' (example_memory ''x'' ''h'')]\<rparr>"

lemma foreign_rows_refused_witness:
  "\<not> (\<exists>x. replay_with_cursor id fresh_ids (step_args None) quiet_store holding_store = Inr x)"
proof -
  have c: "case mount_identity [] holding_store of Inr j \<Rightarrow> (case event_log_bounds holding_store of
      Inr b \<Rightarrow> needs_foreign_guard j b holding_store | Inl e \<Rightarrow> False) | Inl e \<Rightarrow> False" by code_simp
  then obtain j b where g: "mount_identity [] holding_store = Inr j" "event_log_bounds holding_store = Inr b"
    "needs_foreign_guard j b holding_store" by (auto split: sum.splits)
  let ?row = "hd (iter_rows False holding_store)"
  have r: "iter_rows False holding_store \<noteq> []" "record_identity_key ?row = Inr (''ns'', ''h'')" by code_simp+
  have o: "list_all (\<lambda>e. pe_type (row_to_event e) = ''memory.promotion'') (st_events quiet_store)" by code_simp
  have "\<not> planned_key w e k" if "pe_type e = ''memory.promotion''" for w e k
  proof -
    have "str_or_empty (event_to_dict e) ''event_type'' = ''memory.promotion''"
      by (simp add: event_to_dict_def str_or_empty_def dget_def dget_default_def that py_str_def)
    then have "check_event prev types src (event_to_dict e) = Inr (seq, oc) \<Longrightarrow> oc = None" for prev types src seq oc
      by (auto simp: check_event_def Let_def rbind_eq_Inr RECONSTRUCTING_EVENT_TYPES_def)
    then have "plan_event prev types src (event_to_dict e) p = Inr (pl, p') \<Longrightarrow> pd_hash pl = []" for prev types src p pl p'
      by (force simp: plan_event_def rbind_eq_Inr)
    then show ?thesis by (auto simp: planned_key_def)
  qed
  then show ?thesis
    using foreign_rows_refused [OF quiet_store_inv g _ r(2)] r(1) o by (auto simp: list_all_iff)
qed

end
