(* ===== verification/Compat.thy ===== *)
theory Compat
  imports Update
begin

text \<open>
  Embedding spaces (\<open>embed.py\<close>) and the rule that decides whether a stored vector is reused
  (\<open>interchange/compat.py\<close>). A vector is a blob of little-endian binary32 values. The arithmetic of the norm
  test is IEEE double arithmetic, which is the argument \<open>unit\<close> of the definitions; the model behind an embedder is
  a function of the text.
\<close>

section \<open>Descriptors\<close>

definition EMBEDDING_DIM :: int where "EMBEDDING_DIM = 64"

definition EMBEDDING_MODEL :: string where "EMBEDDING_MODEL = ''hotmem-hash-v1''"

definition NORMALIZATIONS :: "string list" where "NORMALIZATIONS = [''none'', ''l2'']"

record descriptor =
  de_implementation :: string
  de_model :: string
  de_dimension :: int
  de_revision :: string
  de_normalization :: string
  de_metric :: string
  de_preprocessing :: string

definition has_separator :: "string \<Rightarrow> bool" where
  "has_separator s = (CHR ''/'' \<in> set s \<or> CHR ''@'' \<in> set s)"

definition make_descriptor :: "descriptor \<Rightarrow> py_exn + descriptor" where
  "make_descriptor d =
     (if de_implementation d = [] \<or> has_separator (de_implementation d) \<or> de_model d = [] \<or> has_separator (de_model d)
         \<or> has_separator (de_revision d) \<or> has_separator (de_preprocessing d) \<or> de_dimension d \<le> 0
         \<or> de_normalization d \<notin> set NORMALIZATIONS \<or> de_metric d \<noteq> ''cosine''
      then Inl ValueError else Inr d)"

definition HASH_DESCRIPTOR :: descriptor where
  "HASH_DESCRIPTOR = \<lparr>de_implementation = ''hotmem'', de_model = ''hash-v1'', de_dimension = EMBEDDING_DIM, de_revision = [],
     de_normalization = ''l2'', de_metric = ''cosine'', de_preprocessing = ''trigram-hash-v1''\<rparr>"

definition key_parts :: "descriptor \<Rightarrow> string list" where
  "key_parts d =
     [de_implementation d, de_model d] @ (if de_revision d = [] then [] else [''rev:'' @ de_revision d])
     @ [''norm:'' @ de_normalization d] @ (if de_preprocessing d = [] then [] else [''pp:'' @ de_preprocessing d])"

definition descriptor_key :: "descriptor \<Rightarrow> string" where
  "descriptor_key d = (if d = HASH_DESCRIPTOR then EMBEDDING_MODEL else join_with ''/'' (key_parts d))"

section \<open>Stored vectors\<close>

text \<open>The recorded space of a record: its key and dimension, or nothing when the dimension is not a number.\<close>

definition stored_identity :: "dict \<Rightarrow> py_exn + (string \<times> int) option" where
  "stored_identity r =
     (let model = (if str_or_empty r ''embedding_model'' = [] then EMBEDDING_MODEL else str_or_empty r ''embedding_model'') in
      case py_int (por (dget r ''embedding_dim'') (JInt EMBEDDING_DIM)) of
        Inr n \<Rightarrow> Inr (Some (model, n))
      | Inl e \<Rightarrow> if e \<in> {TypeError, ValueError} then Inr None else Inl e)"

fun unpack_words :: "string \<Rightarrow> 32 word list" where
  "unpack_words (a # b # c # d # r) =
     word_of_nat (of_char a + 256 * of_char b + 65536 * of_char c + 16777216 * of_char d) # unpack_words r"
| "unpack_words _ = []"

text \<open>A binary32 value is finite unless all bits of its exponent are set.\<close>

definition finite_word :: "32 word \<Rightarrow> bool" where
  "finite_word w = (unat w div 8388608 mod 256 \<noteq> 255)"

definition vector_is_valid :: "(32 word list \<Rightarrow> bool) \<Rightarrow> string \<Rightarrow> descriptor \<Rightarrow> bool" where
  "vector_is_valid unit blob d =
     (length blob mod 4 = 0 \<and> blob \<noteq> [] \<and> list_all finite_word (unpack_words blob)
      \<and> (de_normalization d \<noteq> ''l2'' \<or> unit (unpack_words blob)))"

text \<open>\<open>b64decode(s, validate=True)\<close>: groups of four characters of the alphabet, padded at the very end.\<close>

definition strict_value :: "char \<Rightarrow> nat option" where
  "strict_value c = (if c = CHR ''-'' \<or> c = CHR ''_'' then None else b64_value c)"

fun strict_groups :: "string \<Rightarrow> nat list option" where
  "strict_groups [] = Some []"
| "strict_groups [a, b, c, d] =
     (case (strict_value a, strict_value b) of
        (Some x, Some y) \<Rightarrow>
          (if c = CHR ''='' then (if d = CHR ''='' then Some [x * 4 + y div 16] else None)
           else case strict_value c of
             None \<Rightarrow> None
           | Some z \<Rightarrow>
               (if d = CHR ''='' then Some [x * 4 + y div 16, (y mod 16) * 16 + z div 4]
                else case strict_value d of
                  None \<Rightarrow> None
                | Some u \<Rightarrow> Some [x * 4 + y div 16, (y mod 16) * 16 + z div 4, (z mod 4) * 64 + u]))
      | _ \<Rightarrow> None)"
| "strict_groups (a # b # c # d # r) =
     (case (strict_value a, strict_value b, strict_value c, strict_value d, strict_groups r) of
        (Some x, Some y, Some z, Some u, Some rest) \<Rightarrow>
          Some ([x * 4 + y div 16, (y mod 16) * 16 + z div 4, (z mod 4) * 64 + u] @ rest)
      | _ \<Rightarrow> None)"
| "strict_groups _ = None"

definition strict_b64decode :: "string \<Rightarrow> string option" where
  "strict_b64decode s = map_option (map char_of) (strict_groups s)"

text \<open>Text that is not ASCII raises a plain \<open>ValueError\<close>, which the caller does not catch.\<close>

definition decode_blob :: "json \<Rightarrow> py_exn + string option" where
  "decode_blob v = (case v of
     JStr s \<Rightarrow> if list_ex (\<lambda>c. 128 \<le> (of_char c :: nat)) s then Inl ValueError else Inr (strict_b64decode s)
   | _ \<Rightarrow> Inr None)"

definition compatible_embedding_blob :: "(32 word list \<Rightarrow> bool) \<Rightarrow> descriptor \<Rightarrow> dict \<Rightarrow> py_exn + string option" where
  "compatible_embedding_blob unit d r =
     rbind (stored_identity r) (\<lambda>i.
       let encoded = por (dget r ''embedding'') (dget r ''embedding_b64'') in
       if i \<noteq> Some (descriptor_key d, de_dimension d) then Inr None
       else if \<not> truthy encoded then Inr None
       else rbind (decode_blob encoded) (\<lambda>b. case b of
           None \<Rightarrow> Inr None
         | Some blob \<Rightarrow>
             Inr (if int (length blob) \<noteq> de_dimension d * 4 \<or> \<not> vector_is_valid unit blob d then None else Some blob)))"

section \<open>Resolving the vector of a record\<close>

text \<open>
  An active embedder: its space, and what it makes of a text. \<open>None\<close> is an embedder that raises; the vector it
  returns is packed, which may raise in turn.
\<close>

record active_embedder =
  ae_descriptor :: descriptor
  ae_embed :: "string \<Rightarrow> (py_exn + string) option"

record resolved =
  rs_blob :: string
  rs_model :: string
  rs_dim :: int
  rs_status :: string

definition usable_text :: "dict \<Rightarrow> json" where
  "usable_text r =
     (if dget r ''memory_type'' = JStr ''file'' then por (dget r ''fact_summary'') (JStr [])
      else por (dget r ''fact_text'') (por (dget r ''fact_summary'') (JStr [])))"

definition without_vector :: "descriptor \<Rightarrow> string \<Rightarrow> resolved" where
  "without_vector d status = \<lparr>rs_blob = [], rs_model = [], rs_dim = de_dimension d, rs_status = status\<rparr>"

definition embed_with :: "active_embedder \<Rightarrow> json \<Rightarrow> (py_exn + string) option" where
  "embed_with a v = (case v of JStr s \<Rightarrow> ae_embed a s | _ \<Rightarrow> None)"

definition resolve_embedding :: "(32 word list \<Rightarrow> bool) \<Rightarrow> active_embedder \<Rightarrow> dict \<Rightarrow> py_exn + resolved" where
  "resolve_embedding unit a r =
     (let d = ae_descriptor a in
      rbind (compatible_embedding_blob unit d r) (\<lambda>b. case b of
        Some blob \<Rightarrow> Inr \<lparr>rs_blob = blob, rs_model = descriptor_key d, rs_dim = de_dimension d, rs_status = ''reused''\<rparr>
      | None \<Rightarrow>
          (if \<not> truthy (usable_text r) then Inr (without_vector d ''missing'')
           else case embed_with a (usable_text r) of
             None \<Rightarrow> Inr (without_vector d ''failed'')
           | Some packed \<Rightarrow> rbind packed (\<lambda>blob.
               Inr \<lparr>rs_blob = blob, rs_model = descriptor_key d, rs_dim = de_dimension d, rs_status = ''rebuilt''\<rparr>))))"

end
