(* ===== verification/Delta.thy ===== *)
theory Delta
  imports Compat CursorCheck
begin

text \<open>
  Delta packages (\<open>interchange/delta.py\<close>) and the rows that records are stored as (\<open>swap.py\<close>): the producer
  compares a verified base package with the present rows, the reader verifies a package completely, and the
  applier runs its operations by compare and swap in one transaction. A run that raises leaves no store: that is
  its rollback. Directories, gzip and the resolution of symbolic links are arguments; a manifest is its JSON text.
  A manifest whose \<open>files\<close> block is not an object, an operation whose record id is not a string, and checkpoint
  fields that are not strings are outside the model (\<open>DeltaUnmodelled\<close>). Of a \<open>PackageError\<close> the reason is kept.
\<close>

section \<open>Rows of records\<close>

definition record_row :: "dict \<Rightarrow> resolved \<Rightarrow> dict" where
  "record_row r v =
     (let g = dget r in
      [(''id'', g ''id''), (''identifier'', g ''identifier''), (''fact_text'', g ''fact_text''),
       (''embedding'', JStr (rs_blob v)), (''embedding_dim'', JInt (rs_dim v)), (''embedding_model'', JStr (rs_model v)),
       (''source'', g ''source''), (''importance'', g ''importance''),
       (''metadata_json'', JStr (dumps_sorted (g ''metadata''))), (''content_hash'', g ''content_hash''),
       (''ttl_seconds'', g ''ttl_seconds''), (''created_at'', g ''created_at''), (''namespace'', g ''namespace''),
       (''tier'', g ''tier''), (''memory_type'', g ''memory_type''), (''source_uri'', g ''source_uri''),
       (''source_format'', g ''source_format''), (''source_checksum'', por (g ''source_checksum'') (JStr [])),
       (''byte_offset'', g ''byte_offset''), (''byte_length'', g ''byte_length''), (''updated_at'', g ''updated_at''),
       (''snapshot_id'', g ''snapshot_id''), (''promotion_state'', por (g ''promotion_state'') (JStr ''HOT'')),
       (''promotion_candidate'', por (g ''promotion_candidate'') (JInt 0)), (''parent_memory'', g ''parent_memory''),
       (''related_memories'', JStr (dumps_plain (g ''related_memories''))), (''tags'', JStr (dumps_plain (g ''tags''))),
       (''schema_version'', por (g ''record_schema_version'') (g ''schema_version'')),
       (''fact_summary'', g ''fact_summary''),
       (''provenance_json'', if g ''provenance'' = JNull then JNull else JStr (dumps_sorted (g ''provenance'')))])"

section \<open>Exceptions\<close>

record conflict =
  cf_reason :: string
  cf_record :: string
  cf_op :: json
  cf_expected :: json
  cf_actual :: json

datatype delta_exn =
    PackageExn string
  | DeltaConflicts "conflict list"
  | DeltaPy py_exn
  | DeltaRecord rec_exn
  | DeltaDb db_exn
  | DeltaCursor cursor_exn
  | DeltaUnmodelled

type_synonym 'a delta_res = "delta_exn + 'a"

definition delta_py :: "py_exn + 'a \<Rightarrow> 'a delta_res" where
  "delta_py m = map_sum DeltaPy id m"

definition delta_rec :: "'a rec_res \<Rightarrow> 'a delta_res" where
  "delta_rec m = map_sum DeltaRecord id m"

definition delta_db :: "'a db_res \<Rightarrow> 'a delta_res" where
  "delta_db m = map_sum DeltaDb id m"

section \<open>The manifest\<close>

definition DELTA_FORMAT :: string where "DELTA_FORMAT = ''hotmem-delta-v1''"
definition OPS_PLAIN :: string where "OPS_PLAIN = ''operations.jsonl''"
definition OPS_GZ :: string where "OPS_GZ = ''operations.jsonl.gz''"
definition FINGERPRINT_VERSION :: int where "FINGERPRINT_VERSION = 1"

definition delta_decode :: "json \<Rightarrow> replay_cursor delta_res" where
  "delta_decode v = (case v of
     JStr s \<Rightarrow> (case decode_cursor (CursorValue v) of
         Inr c \<Rightarrow> Inr c
       | Inl (CursorError r) \<Rightarrow> Inl (PackageExn ''invalid_cursor'')
       | Inl e \<Rightarrow> Inl (DeltaCursor e))
   | _ \<Rightarrow> Inl (PackageExn ''invalid_cursor''))"

definition check_block :: "dict \<Rightarrow> string \<Rightarrow> unit delta_res" where
  "check_block manifest name = (case dget manifest name of
     JObj block \<Rightarrow>
       (let cursor = dget block ''replay_cursor''; m = str_or_empty block ''mount_id'';
            r = str_or_empty block ''replica_id''; h = str_or_empty block ''history_id'' in
        if cursor = JNull \<or> cursor = JStr [] then Inr ()
        else rbind (delta_decode cursor) (\<lambda>c.
          if m = [] \<or> (name = ''source'' \<and> (r = [] \<or> h = [])) then Inl (PackageExn ''missing_cursor_identity'')
          else if rc_mount_id c \<noteq> m \<or> (r \<noteq> [] \<and> rc_replica_id c \<noteq> r) \<or> (h \<noteq> [] \<and> rc_history_id c \<noteq> h)
          then Inl (PackageExn ''cursor_manifest_mismatch'')
          else Inr ()))
   | _ \<Rightarrow> Inr ())"

definition version_field :: "dict \<Rightarrow> string \<Rightarrow> int delta_res" where
  "version_field d k = delta_py (py_int (por (dget d k) (JInt 0)))"

definition check_manifest :: "dict \<Rightarrow> unit delta_res" where
  "check_manifest manifest =
     (if dget manifest ''format'' \<noteq> JStr DELTA_FORMAT then Inl (PackageExn ''unsupported_format'')
      else rbind (version_field manifest ''schema_version'') (\<lambda>v.
        if v > 1 then Inl (PackageExn ''unsupported_schema'')
        else rbind (version_field manifest ''fingerprint_version'') (\<lambda>f.
          if f \<noteq> FINGERPRINT_VERSION then Inl (PackageExn ''unsupported_fingerprint'')
          else rbind (check_block manifest ''source'') (\<lambda>_. check_block manifest ''base''))))"

text \<open>The text of a file that is read as UTF-8.\<close>

definition utf8_text :: "string \<Rightarrow> string delta_res" where
  "utf8_text s = (if utf8_valid (map of_char s) then Inr s else Inl (DeltaPy ValueError))"

definition load_delta_manifest :: "string option \<Rightarrow> dict delta_res" where
  "load_delta_manifest content = (case content of
     None \<Rightarrow> Inl (PackageExn ''missing_manifest'')
   | Some raw \<Rightarrow>
       rbind (utf8_text raw) (\<lambda>text. case loads text of
         Some (JObj manifest) \<Rightarrow> rbind (check_manifest manifest) (\<lambda>_. Inr manifest)
       | _ \<Rightarrow> Inl (PackageExn ''malformed_manifest'')))"

section \<open>Verification\<close>

text \<open>A package: its regular files, how their paths resolve, and gzip.\<close>

record package =
  pk_is_dir :: bool
  pk_file :: "string \<Rightarrow> string option"
  pk_resolves :: "string \<Rightarrow> bool"
  pk_gunzip :: "string \<Rightarrow> string option"

definition confined_relpath :: "package \<Rightarrow> string \<Rightarrow> bool" where
  "confined_relpath pk rel =
     (rel \<noteq> [] \<and> CHR 0x5C \<notin> set rel \<and> \<not> starts_with rel ''/'' \<and> CHR '':'' \<notin> set (hd (split_on (CHR ''/'') rel))
      \<and> ''..'' \<notin> set (split_on (CHR ''/'') rel) \<and> pk_resolves pk rel)"

text \<open>Lines of a text file; empty ones are never looked at, so that a carriage return may end one too.\<close>

definition text_lines :: "string \<Rightarrow> string list" where
  "text_lines s = split_on (CHR 0x0A) (map (\<lambda>c. if c = CHR 0x0D then CHR 0x0A else c) s)"

definition blank :: "string \<Rightarrow> bool" where
  "blank line = (strip line = [])"

definition REQUIRED_FIELDS :: "string list" where
  "REQUIRED_FIELDS = [''op_id'', ''record_id'', ''record'', ''resulting_fingerprint'']"

definition check_operation :: "string \<Rightarrow> unit delta_res" where
  "check_operation line = (case loads line of
     None \<Rightarrow> Inl (PackageExn ''malformed_operation'')
   | Some (JObj op) \<Rightarrow>
       (if dget op ''op'' \<noteq> JStr ''upsert'' then Inl (PackageExn ''unsupported_operation'')
        else ensure (list_all (\<lambda>k. truthy (dget op k)) REQUIRED_FIELDS) (PackageExn ''malformed_operation''))
   | Some _ \<Rightarrow> Inl (PackageExn ''unsupported_operation''))"

definition expected_ops :: "dict \<Rightarrow> int delta_res" where
  "expected_ops manifest = (case por (dget manifest ''counts'') (JObj []) of
     JObj c \<Rightarrow> version_field c ''total_ops''
   | _ \<Rightarrow> Inl (DeltaPy AttributeError))"

text \<open>The bytes of the operations: digested as they are, or unpacked and then digested.\<close>

definition plain_ops :: "dict \<Rightarrow> string \<Rightarrow> string delta_res" where
  "plain_ops entry content =
     (if JStr (sha256_hex content) \<noteq> dget entry ''sha256'' then Inl (PackageExn ''digest_mismatch'') else Inr content)"

definition unpacked_ops :: "package \<Rightarrow> dict \<Rightarrow> string \<Rightarrow> string delta_res" where
  "unpacked_ops pk entry content =
     (if \<not> truthy (dget entry ''decompressed_sha256'') then Inl (PackageExn ''missing_decompressed_digest'')
      else case pk_gunzip pk content of
        None \<Rightarrow> Inl (PackageExn ''corrupt_compression'')
      | Some raw \<Rightarrow>
          (if JStr (sha256_hex raw) \<noteq> dget entry ''decompressed_sha256'' then Inl (PackageExn ''decompressed_digest_mismatch'')
           else Inr raw))"

definition read_ops :: "package \<Rightarrow> string \<Rightarrow> json \<Rightarrow> string delta_res" where
  "read_ops pk name v = (case pk_file pk name of
     None \<Rightarrow> Inl (PackageExn ''missing_file'')
   | Some content \<Rightarrow> (case v of
       JObj entry \<Rightarrow>
         (if \<not> json_eq (dget entry ''size'') (JInt (int (length content))) then Inl (PackageExn ''size_mismatch'')
          else if name = OPS_GZ then unpacked_ops pk entry content else plain_ops entry content)
     | _ \<Rightarrow> Inl (DeltaPy AttributeError)))"

record verified_delta =
  vd_manifest :: dict
  vd_ops_name :: string
  vd_entry :: dict
  vd_lines :: "string list"

definition delta_files :: "dict \<Rightarrow> dict delta_res" where
  "delta_files manifest = (case por (dget manifest ''files'') (JObj []) of
     JObj files \<Rightarrow> Inr files
   | _ \<Rightarrow> Inl DeltaUnmodelled)"

definition ops_name_of :: "dict \<Rightarrow> string delta_res" where
  "ops_name_of files =
     (if has_key files OPS_PLAIN then Inr OPS_PLAIN else if has_key files OPS_GZ then Inr OPS_GZ
      else Inl (PackageExn ''missing_payload''))"

definition verify_delta :: "package \<Rightarrow> verified_delta delta_res" where
  "verify_delta pk =
     (if \<not> pk_is_dir pk then Inl (PackageExn ''missing_manifest'')
      else rbind (load_delta_manifest (pk_file pk ''manifest.json'')) (\<lambda>manifest.
      rbind (delta_files manifest) (\<lambda>files.
      rbind (ensure (list_all (\<lambda>(rel, e). confined_relpath pk rel) files) (PackageExn ''path_escape'')) (\<lambda>_.
      rbind (ops_name_of files) (\<lambda>name.
      rbind (read_ops pk name (dget files name)) (\<lambda>raw.
      rbind (utf8_text raw) (\<lambda>text.
      let lines = filter (\<lambda>l. \<not> blank l) (text_lines text) in
      rbind (traverse check_operation lines) (\<lambda>_.
      rbind (expected_ops manifest) (\<lambda>n.
      if int (length lines) \<noteq> n then Inl (PackageExn ''record_count_mismatch'')
      else Inr \<lparr>vd_manifest = manifest, vd_ops_name = name, vd_entry = dict_of (dget files name), vd_lines = lines\<rparr>)))))))))"

section \<open>Application\<close>

record sync_checkpoint =
  cp_base :: string
  cp_digest :: string
  cp_applied :: nat
  cp_fingerprint :: "string option"
  cp_at :: string

text \<open>The tables an application writes: those of the store, and \<open>sync_checkpoints\<close> in the order of its ids.\<close>

record sync_db =
  sd_store :: store
  sd_checkpoints :: "sync_checkpoint list"

definition record_sync_checkpoint :: "sync_checkpoint \<Rightarrow> sync_db \<Rightarrow> sync_db" where
  "record_sync_checkpoint c db = db\<lparr>sd_checkpoints := sd_checkpoints db @ [c]\<rparr>"

definition latest_sync_checkpoint :: "string \<Rightarrow> sync_db \<Rightarrow> sync_checkpoint option" where
  "latest_sync_checkpoint base db = find (\<lambda>c. cp_base c = base) (rev (sd_checkpoints db))"

text \<open>What is drawn or read from the clock, and the embedder; \<open>dn_row_now\<close> is the time SQLite gives a row without one.\<close>

record delta_env =
  dn_unit :: "32 word list \<Rightarrow> bool"
  dn_embedder :: active_embedder
  dn_row_now :: string
  dn_now :: string
  dn_applied_at :: string
  dn_event_id :: string

datatype verdict = SkipOp | ConflictOp conflict | WriteOp

definition clash :: "string \<Rightarrow> string \<Rightarrow> dict \<Rightarrow> json \<Rightarrow> json \<Rightarrow> conflict" where
  "clash reason rid op expected actual =
     \<lparr>cf_reason = reason, cf_record = rid, cf_op = dget op ''op_id'', cf_expected = expected, cf_actual = actual\<rparr>"

text \<open>Compare and swap: the present fingerprint of the record against the images of the operation.\<close>

definition op_verdict :: "bool \<Rightarrow> string \<Rightarrow> dict \<Rightarrow> string option \<Rightarrow> verdict" where
  "op_verdict was_empty rid op current =
     (let expected = dget op ''expected_pre_fingerprint'' in
      case current of
        None \<Rightarrow>
          (if expected \<noteq> JNull
           then ConflictOp (clash (if was_empty then ''base_missing'' else ''state_divergence'') rid op expected JNull)
           else WriteOp)
      | Some fp \<Rightarrow>
          (if JStr fp = dget op ''resulting_fingerprint'' then SkipOp
           else if expected \<noteq> JNull \<and> JStr fp = expected then WriteOp
           else if expected = JNull then ConflictOp (clash ''id_reuse'' rid op JNull (JStr fp))
           else ConflictOp (clash ''state_divergence'' rid op expected (JStr fp))))"

record delta_state =
  da_store :: store
  da_conflicts :: "conflict list"
  da_statuses :: "string list"
  da_skipped :: nat

definition add_conflict :: "conflict \<Rightarrow> delta_state \<Rightarrow> delta_state" where
  "add_conflict c st = st\<lparr>da_conflicts := da_conflicts st @ [c]\<rparr>"

definition stored_elsewhere :: "string \<Rightarrow> dict \<Rightarrow> store \<Rightarrow> string option" where
  "stored_elsewhere rid row s =
     (case find_by_namespace_and_hash (str_of (dget row ''namespace'')) (str_of (dget row ''content_hash'')) s of
        None \<Rightarrow> None
      | Some r \<Rightarrow> if py_str (dget r ''id'') = rid then None else Some (py_str (dget r ''id'')))"

text \<open>A write: the record is normalised, validated and given its vector, and must not duplicate another row.\<close>

definition write_op :: "delta_env \<Rightarrow> string \<Rightarrow> string \<Rightarrow> dict \<Rightarrow> delta_state \<Rightarrow> delta_state delta_res" where
  "write_op env fid rid op st = (case dget op ''record'' of
     JObj raw \<Rightarrow>
       rbind (delta_rec (normalize_record raw ''delta'' fid)) (\<lambda>n.
       rbind (delta_py (validate_record n)) (\<lambda>issues.
       if issues \<noteq> [] then
         Inr (add_conflict (clash ''invalid_record'' rid op JNull (JStr (join_with ''; '' issues))) st)
       else
         rbind (delta_py (resolve_embedding (dn_unit env) (dn_embedder env) (nr_fields n))) (\<lambda>v.
         let row = record_row (nr_fields n) v in
         case stored_elsewhere rid row (da_store st) of
           Some other \<Rightarrow>
             Inr (add_conflict (clash ''state_divergence'' rid op (dget op ''expected_pre_fingerprint'') (JStr other)) st)
         | None \<Rightarrow>
             rbind (delta_db (insert_row (dn_row_now env) row (da_store st))) (\<lambda>s.
             Inr (st\<lparr>da_store := s, da_statuses := da_statuses st @ [rs_status v]\<rparr>)))))
   | _ \<Rightarrow> Inl (DeltaPy AttributeError))"

definition present_print :: "string \<Rightarrow> store \<Rightarrow> string option delta_res" where
  "present_print rid s = (case get_memory rid s of
     None \<Rightarrow> Inr None
   | Some row \<Rightarrow> rbind (delta_rec (record_fingerprint row [])) (\<lambda>fp. Inr (Some fp)))"

text \<open>One operation, with the id a record without one draws.\<close>

definition apply_delta_op :: "delta_env \<Rightarrow> bool \<Rightarrow> string \<times> dict \<Rightarrow> delta_state \<Rightarrow> delta_state delta_res" where
  "apply_delta_op env was_empty x st =
     (let fid = fst x; op = snd x in
      case dget op ''record_id'' of
        JStr rid \<Rightarrow>
          rbind (present_print rid (da_store st)) (\<lambda>current.
          case op_verdict was_empty rid op current of
            SkipOp \<Rightarrow> Inr (st\<lparr>da_skipped := Suc (da_skipped st)\<rparr>)
          | ConflictOp c \<Rightarrow> Inr (add_conflict c st)
          | WriteOp \<Rightarrow> write_op env fid rid op st)
      | _ \<Rightarrow> Inl DeltaUnmodelled)"

definition run_operations :: "delta_env \<Rightarrow> (string \<times> dict) list \<Rightarrow> store \<Rightarrow> delta_state delta_res" where
  "run_operations env ops s =
     fold_res (apply_delta_op env (st_memories s = [])) ops
       \<lparr>da_store = s, da_conflicts = [], da_statuses = [], da_skipped = 0\<rparr>"

definition parse_operation :: "string \<Rightarrow> dict delta_res" where
  "parse_operation line = (case loads (strip line) of
     Some (JObj op) \<Rightarrow> Inr op
   | _ \<Rightarrow> Inl (DeltaPy ValueError))"

record apply_result =
  ap_applied :: nat
  ap_skipped :: nat
  ap_fingerprint :: json
  ap_statuses :: "string list"

definition text_arg :: "json \<Rightarrow> string delta_res" where
  "text_arg v = (case v of JStr s \<Rightarrow> Inr s | _ \<Rightarrow> Inl DeltaUnmodelled)"

definition opt_text_arg :: "json \<Rightarrow> string option delta_res" where
  "opt_text_arg v = (case v of JNull \<Rightarrow> Inr None | JStr s \<Rightarrow> Inr (Some s) | _ \<Rightarrow> Inl DeltaUnmodelled)"

definition delta_base_id :: "dict \<Rightarrow> json delta_res" where
  "delta_base_id manifest = (case por (dget manifest ''base'') (JObj []) of
     JObj b \<Rightarrow> Inr (por (dget b ''logical_id'') (JStr []))
   | _ \<Rightarrow> Inl (DeltaPy AttributeError))"

definition sync_receipt :: "json \<Rightarrow> string \<Rightarrow> nat \<Rightarrow> nat \<Rightarrow> json \<Rightarrow> dict" where
  "sync_receipt base digest n_applied n_skipped resulting =
     [(''base_logical_id'', base), (''delta_digest'', JStr digest), (''applied'', JInt (int n_applied)),
      (''skipped'', JInt (int n_skipped)), (''resulting_state_fingerprint'', resulting)]"

text \<open>The end of a run without conflicts: the checkpoint and the receipt, in the transaction of the rows.\<close>

definition finish_apply :: "delta_env \<Rightarrow> verified_delta \<Rightarrow> delta_state \<Rightarrow> sync_db \<Rightarrow> (sync_db \<times> apply_result) delta_res" where
  "finish_apply env d st db =
     (let applied = length (da_statuses st); resulting = dget (vd_manifest d) ''resulting_state_fingerprint'';
          digest = str_or_empty (vd_entry d) ''sha256'' in
      rbind (delta_base_id (vd_manifest d)) (\<lambda>base.
      rbind (text_arg base) (\<lambda>base_id.
      rbind (opt_text_arg resulting) (\<lambda>print.
      let db' = record_sync_checkpoint \<lparr>cp_base = base_id, cp_digest = digest, cp_applied = applied, cp_fingerprint = print,
            cp_at = dn_applied_at env\<rparr> (db\<lparr>sd_store := da_store st\<rparr>) in
      rbind (delta_db (append_event (dn_event_id env) (dn_now env) ''sync.applied'' None ''sync''
          (JObj (sync_receipt base digest applied (da_skipped st) resulting)) None (sd_store db'))) (\<lambda>(s, e).
      Inr (db'\<lparr>sd_store := s\<rparr>,
        \<lparr>ap_applied = applied, ap_skipped = da_skipped st, ap_fingerprint = resulting, ap_statuses = da_statuses st\<rparr>))))))"

definition apply_verified :: "delta_env \<Rightarrow> string list \<Rightarrow> verified_delta \<Rightarrow> sync_db \<Rightarrow> (sync_db \<times> apply_result) delta_res" where
  "apply_verified env fids d db =
     rbind (traverse parse_operation (vd_lines d)) (\<lambda>ops.
     rbind (run_operations env (zip fids ops) (sd_store db)) (\<lambda>st.
     if da_conflicts st \<noteq> [] then Inl (DeltaConflicts (da_conflicts st)) else finish_apply env d st db))"

text \<open>\<open>fids\<close> are the ids that records without one draw, one for each operation.\<close>

definition apply_delta :: "delta_env \<Rightarrow> (nat \<Rightarrow> string) \<Rightarrow> package \<Rightarrow> sync_db \<Rightarrow> (sync_db \<times> apply_result) delta_res" where
  "apply_delta env fresh pk db =
     rbind (verify_delta pk) (\<lambda>d. apply_verified env (map fresh [0..<length (vd_lines d)]) d db)"

section \<open>Production\<close>

text \<open>A verified base package, as far as the producer reads it; a base line draws \<open>fid\<close> when its record has no id.\<close>

record verified_package =
  vp_manifest :: dict
  vp_count :: int
  vp_lines :: "string list"

definition delta_op_id :: "string \<Rightarrow> string \<Rightarrow> string" where
  "delta_op_id rid fp = sha256_hex (''upsert:'' @ rid @ '':'' @ fp)"

definition record_id_of :: "dict \<Rightarrow> string" where
  "record_id_of n = str_of (dget n ''id'')"

definition base_print :: "string \<times> string \<Rightarrow> (string \<times> string) delta_res" where
  "base_print x = (case loads (strip (snd x)) of
     None \<Rightarrow> Inl (DeltaPy ValueError)
   | Some (JObj d) \<Rightarrow>
       rbind (delta_rec (normalize_record d ''swap'' (fst x))) (\<lambda>n.
       rbind (delta_rec (record_fingerprint (nr_fields n) (fst x))) (\<lambda>fp.
       Inr (record_id_of (nr_fields n), fp)))
   | Some _ \<Rightarrow> Inl (DeltaPy AttributeError))"

definition base_prints :: "(nat \<Rightarrow> string) \<Rightarrow> string list \<Rightarrow> (string \<times> string) list delta_res" where
  "base_prints fresh lines =
     (let ls = filter (\<lambda>l. \<not> blank l) lines in
      rbind (traverse base_print (zip (map fresh [0..<length ls]) ls)) (\<lambda>ps. Inr (dict_update [] ps)))"

text \<open>The normaliser turns the blob of a row into its base64 text.\<close>

definition export_row :: "dict \<Rightarrow> dict" where
  "export_row row = (case dget row ''embedding'' of
     JStr b \<Rightarrow> if b = [] then row else AList.update ''embedding'' (JStr (b64encode b)) row
   | _ \<Rightarrow> row)"

definition delta_op :: "string \<Rightarrow> string \<Rightarrow> json \<Rightarrow> dict \<Rightarrow> dict" where
  "delta_op rid fp expected n =
     [(''op'', JStr ''upsert''), (''op_id'', JStr (delta_op_id rid fp)), (''record_id'', JStr rid),
      (''expected_pre_fingerprint'', expected), (''record'', JObj n), (''resulting_fingerprint'', JStr fp)]"

record produced =
  pd_added :: nat
  pd_changed :: nat
  pd_ids :: "string list"
  pd_prints :: "string list"
  pd_ops :: "dict list"

definition add_op :: "dict \<Rightarrow> produced \<Rightarrow> produced delta_res" where
  "add_op op p = rbind (delta_py (canonical_line (JObj op))) (\<lambda>line. Inr (p\<lparr>pd_ops := pd_ops p @ [op]\<rparr>))"

definition produce_row :: "(string \<times> string) list \<Rightarrow> dict \<Rightarrow> produced \<Rightarrow> produced delta_res" where
  "produce_row base row p =
     rbind (delta_rec (normalize_record (export_row row) ''swap'' [])) (\<lambda>n.
     rbind (delta_rec (record_fingerprint (nr_fields n) [])) (\<lambda>fp.
     let rid = record_id_of (nr_fields n); q = p\<lparr>pd_ids := pd_ids p @ [rid], pd_prints := pd_prints p @ [fp]\<rparr> in
     case map_of base rid of
       None \<Rightarrow> add_op (delta_op rid fp JNull (nr_fields n)) (q\<lparr>pd_added := Suc (pd_added q)\<rparr>)
     | Some old \<Rightarrow>
         (if old \<noteq> fp then add_op (delta_op rid fp (JStr old) (nr_fields n)) (q\<lparr>pd_changed := Suc (pd_changed q)\<rparr>)
          else Inr q)))"

definition produce_rows :: "(string \<times> string) list \<Rightarrow> store \<Rightarrow> produced delta_res" where
  "produce_rows base s =
     fold_res (produce_row base) (iter_rows True s)
       \<lparr>pd_added = 0, pd_changed = 0, pd_ids = [], pd_prints = [], pd_ops = []\<rparr>"

definition removed_since :: "(string \<times> string) list \<Rightarrow> produced \<Rightarrow> nat" where
  "removed_since base p = length (filter (\<lambda>(i, fp). i \<notin> set (pd_ids p)) base)"

definition ops_bytes :: "dict list \<Rightarrow> string delta_res" where
  "ops_bytes ops = rbind (delta_py (traverse (\<lambda>op. canonical_line (JObj op)) ops)) (\<lambda>ls. Inr (concat ls))"

definition source_cursor :: "store \<Rightarrow> string delta_res" where
  "source_cursor s =
     (case issue_replay_cursor \<lparr>ia_position = ''head'', ia_seq = JNull, ia_base = JNull, ia_namespace = JNull, ia_types = JNull\<rparr> s of
        Inr c \<Rightarrow> Inr (encode_cursor c)
      | Inl (CursorError r) \<Rightarrow> Inr []
      | Inl e \<Rightarrow> Inl (DeltaCursor e))"

definition base_mount :: "dict \<Rightarrow> json delta_res" where
  "base_mount manifest =
     (if truthy (dget manifest ''mount_id'') then Inr (dget manifest ''mount_id'')
      else case por (dget manifest ''source'') (JObj []) of
        JObj d \<Rightarrow> Inr (dget d ''mount_id'')
      | _ \<Rightarrow> Inl (DeltaPy AttributeError))"

definition text_member :: "string \<Rightarrow> json \<Rightarrow> dict" where
  "text_member k v = (case v of JStr t \<Rightarrow> if t = [] then [] else [(k, v)] | _ \<Rightarrow> [])"

text \<open>What is read of the file system, the clock and the installed package.\<close>

record produce_env =
  qn_gzip :: "(string \<Rightarrow> string) option"
  qn_created_at :: string
  qn_version :: string

definition ops_entry :: "produce_env \<Rightarrow> string \<Rightarrow> string \<times> string \<times> dict" where
  "ops_entry env raw = (case qn_gzip env of
     None \<Rightarrow> (OPS_PLAIN, raw, [(''size'', JInt (int (length raw))), (''sha256'', JStr (sha256_hex raw))])
   | Some pack \<Rightarrow>
       (OPS_GZ, pack raw, [(''size'', JInt (int (length (pack raw)))), (''sha256'', JStr (sha256_hex (pack raw))),
         (''decompressed_sha256'', JStr (sha256_hex raw))]))"

definition delta_manifest ::
  "produce_env \<Rightarrow> verified_package \<Rightarrow> mount_ident \<Rightarrow> string \<Rightarrow> json \<Rightarrow> produced \<Rightarrow> nat \<Rightarrow> string \<Rightarrow> string \<Rightarrow> dict \<Rightarrow> dict" where
  "delta_manifest env base i cursor bm p n_removed resulting name entry =
     [(''format'', JStr DELTA_FORMAT), (''schema_version'', JInt 1), (''fingerprint_version'', JInt FINGERPRINT_VERSION),
      (''source'', JObj [(''kind'', JStr ''hotmem-dump''), (''mount_id'', JStr (mi_mount_id i)),
         (''replica_id'', JStr (mi_replica_id i)), (''history_id'', JStr (mi_history_id i)), (''replay_cursor'', JStr cursor)]),
      (''base'', JObj ([(''package_format'', JStr ''hotmem-interchange-v1''),
         (''logical_id'', dget (vp_manifest base) ''logical_id''), (''state_fingerprint'', JNull),
         (''record_count'', JInt (vp_count base))] @ text_member ''mount_id'' bm
         @ text_member ''replay_cursor'' (dget (vp_manifest base) ''replay_cursor''))),
      (''counts'', JObj [(''added'', JInt (int (pd_added p))), (''changed'', JInt (int (pd_changed p))),
         (''removed_since_base'', JInt (int n_removed)), (''total_ops'', JInt (int (pd_added p + pd_changed p)))]),
      (''resulting_state_fingerprint'', JStr resulting), (''files'', JObj [(name, JObj entry)]),
      (''embedding'', dget (vp_manifest base) ''embedding''), (''created_at'', JStr (qn_created_at env)),
      (''hotmem_version'', JStr (qn_version env))]"

record delta_result =
  dr_added :: nat
  dr_changed :: nat
  dr_removed :: nat
  dr_total :: nat
  dr_fingerprint :: string

text \<open>The manifest that is written, the name and bytes of the operations file, and the summary.\<close>

definition produce_delta ::
  "produce_env \<Rightarrow> (nat \<Rightarrow> string) \<Rightarrow> verified_package \<Rightarrow> store \<Rightarrow> (dict \<times> string \<times> string \<times> delta_result) delta_res" where
  "produce_delta env fresh base s =
     rbind (base_prints fresh (vp_lines base)) (\<lambda>prints.
     rbind (produce_rows prints s) (\<lambda>p.
     rbind (ops_bytes (pd_ops p)) (\<lambda>raw.
     rbind (delta_db (mount_identity [] s)) (\<lambda>i.
     rbind (source_cursor s) (\<lambda>cursor.
     rbind (base_mount (vp_manifest base)) (\<lambda>bm.
     let n_removed = removed_since prints p; resulting = state_fingerprint_from_list (pd_prints p);
         (name, content, entry) = ops_entry env raw in
     Inr (delta_manifest env base i cursor bm p n_removed resulting name entry, name, content,
       \<lparr>dr_added = pd_added p, dr_changed = pd_changed p, dr_removed = n_removed,
        dr_total = pd_added p + pd_changed p, dr_fingerprint = resulting\<rparr>)))))))"

end
