(* ===== verification/DeltaPackage.thy ===== *)
theory DeltaPackage
  imports Delta SourceUri JsonRoundtrip
begin

text \<open>
  What a receiver has checked before it touches its store: the space of a vector that is reused, and the package
  of a delta that verified.
\<close>

section \<open>Keys of embedding spaces\<close>

lemma key_part_plain:
  assumes "make_descriptor d = Inr d" "x \<in> set (key_parts d)"
  shows "CHR ''/'' \<notin> set x"
  using assms by (auto simp: make_descriptor_def key_parts_def has_separator_def NORMALIZATIONS_def split: if_splits)

lemma key_parts_nonempty: "key_parts d \<noteq> []"
  by (simp add: key_parts_def)

lemma key_parts_inj:
  assumes "key_parts d = key_parts d'" "de_dimension d = de_dimension d'" "make_descriptor d = Inr d" "make_descriptor d' = Inr d'"
  shows "d = d'"
  using assms by (cases d; cases d') (auto simp: key_parts_def make_descriptor_def split: if_splits)

lemma hash_key_plain: "CHR ''/'' \<notin> set EMBEDDING_MODEL"
  by (simp add: EMBEDDING_MODEL_def)

lemma key_not_hash: "join_with ''/'' (key_parts d) \<noteq> EMBEDDING_MODEL"
proof -
  have "CHR ''/'' \<in> set (join_with ''/'' (key_parts d))" by (simp add: key_parts_def)
  then show ?thesis using hash_key_plain by metis
qed

lemma descriptor_key_inj:
  assumes "make_descriptor d = Inr d" "make_descriptor d' = Inr d'" "descriptor_key d = descriptor_key d'" "de_dimension d = de_dimension d'"
  shows "d = d'"
proof -
  consider "d = HASH_DESCRIPTOR" "d' = HASH_DESCRIPTOR" | "d = HASH_DESCRIPTOR" "d' \<noteq> HASH_DESCRIPTOR"
    | "d \<noteq> HASH_DESCRIPTOR" "d' = HASH_DESCRIPTOR" | "d \<noteq> HASH_DESCRIPTOR" "d' \<noteq> HASH_DESCRIPTOR" by blast
  then show ?thesis
  proof cases
    case 4
    then have j: "join_with ''/'' (key_parts d) = join_with ''/'' (key_parts d')" using assms(3) by (simp add: descriptor_key_def)
    have "split_on (CHR ''/'') (join_with ''/'' (key_parts e)) = key_parts e" if "make_descriptor e = Inr e" for e
      by (rule split_on_join [OF key_parts_nonempty key_part_plain [OF that]])
    then have "key_parts d = key_parts d'" using j assms(1,2) by metis
    then show ?thesis by (rule key_parts_inj [OF _ assms(4,1,2)])
  qed (use assms(3) key_not_hash in \<open>simp_all add: descriptor_key_def, metis+\<close>)
qed

text \<open>C21. A stored vector is reused only in the space it was made in: when a record that is stamped with the key and the
  dimension of one embedder is resolved under another, the vector is taken as it is only if the two descriptors are
  equal, and then it has the size of the space, finite values and the norm its policy asks for.
\<close>

theorem reuse_only_own_space:
  assumes "resolve_embedding unit a r = Inr v" "rs_status v = ''reused''" "make_descriptor d = Inr d"
    and "make_descriptor (ae_descriptor a) = Inr (ae_descriptor a)"
    and "stored_identity r = Inr (Some (descriptor_key d, de_dimension d))"
  shows "ae_descriptor a = d \<and> int (length (rs_blob v)) = de_dimension d * 4 \<and> vector_is_valid unit (rs_blob v) d
     \<and> rs_model v = descriptor_key d \<and> rs_dim v = de_dimension d"
proof -
  obtain blob where b: "compatible_embedding_blob unit (ae_descriptor a) r = Inr (Some blob)"
    and v: "v = \<lparr>rs_blob = blob, rs_model = descriptor_key (ae_descriptor a), rs_dim = de_dimension (ae_descriptor a), rs_status = ''reused''\<rparr>"
    using assms(1,2)
    by (auto simp: resolve_embedding_def Let_def rbind_eq_Inr without_vector_def split: option.splits if_splits)
  have i: "descriptor_key d = descriptor_key (ae_descriptor a)" "de_dimension d = de_dimension (ae_descriptor a)"
    and blob: "int (length blob) = de_dimension (ae_descriptor a) * 4" "vector_is_valid unit blob (ae_descriptor a)"
    using b assms(5) by (auto simp: compatible_embedding_blob_def Let_def rbind_eq_Inr split: if_splits option.splits)
  have "d = ae_descriptor a" by (rule descriptor_key_inj [OF assms(3,4) i])
  then show ?thesis using blob by (simp add: v)
qed

section \<open>Verified deltas\<close>

definition delta_op_wf :: "dict \<Rightarrow> bool" where
  "delta_op_wf op = (dget op ''op'' = JStr ''upsert'' \<and> list_all (\<lambda>k. truthy (dget op k)) REQUIRED_FIELDS)"

lemma checked_operation: "check_operation line = Inr u \<Longrightarrow> \<exists>op. loads line = Some (JObj op) \<and> delta_op_wf op"
  by (auto simp: check_operation_def delta_op_wf_def ensure_def split: option.splits json.splits if_splits)

lemma read_opsE:
  assumes "read_ops pk name v = Inr raw"
  obtains content entry where "pk_file pk name = Some content" "v = JObj entry" "json_eq (dget entry ''size'') (JInt (int (length content)))"
    "if name = OPS_GZ then pk_gunzip pk content = Some raw \<and> dget entry ''decompressed_sha256'' = JStr (sha256_hex raw)
      else raw = content \<and> dget entry ''sha256'' = JStr (sha256_hex content)"
  using assms by (auto simp: read_ops_def plain_ops_def unpacked_ops_def split: option.splits json.splits if_splits)

lemma traverse_each: "traverse f xs = Inr ys \<Longrightarrow> x \<in> set xs \<Longrightarrow> \<exists>y. f x = Inr y"
  by (auto simp: traverse_Inr_iff list_all2_conv_all_nth in_set_conv_nth)

lemma loaded_manifest:
  assumes "load_delta_manifest content = Inr m"
  shows "check_manifest m = Inr ()"
proof (cases content)
  case (Some raw)
  then obtain t where t: "(case loads t of Some (JObj d) \<Rightarrow> rbind (check_manifest d) (\<lambda>u. Inr d) | _ \<Rightarrow> Inl (PackageExn ''malformed_manifest'')) = Inr m"
    using assms by (auto simp: load_delta_manifest_def rbind_eq_Inr)
  then obtain d where "loads t = Some (JObj d)" by (cases "loads t") (simp_all split: json.splits)
  with t have "rbind (check_manifest d) (\<lambda>u. Inr d) = Inr m" by simp
  then show ?thesis by (cases "check_manifest d") simp_all
qed (use assms in \<open>simp add: load_delta_manifest_def\<close>)

text \<open>C19. Nothing of a delta is applied before all of it has been checked: a verified delta has the format and versions of
  the contract, every path it lists stays inside the package, the operations are the bytes the manifest digests, each
  of them is an upsert with its required fields, and there are as many as the manifest counts.
\<close>

theorem verified_delta_sound:
  assumes "verify_delta pk = Inr d"
  shows "check_manifest (vd_manifest d) = Inr () \<and> (\<exists>files. delta_files (vd_manifest d) = Inr files
       \<and> list_all (\<lambda>(rel, e). confined_relpath pk rel) files \<and> dget files (vd_ops_name d) = JObj (vd_entry d))
     \<and> (\<exists>content raw. pk_file pk (vd_ops_name d) = Some content
       \<and> (if vd_ops_name d = OPS_GZ
           then pk_gunzip pk content = Some raw \<and> dget (vd_entry d) ''decompressed_sha256'' = JStr (sha256_hex raw)
           else raw = content \<and> dget (vd_entry d) ''sha256'' = JStr (sha256_hex content))
       \<and> vd_lines d = filter (\<lambda>l. \<not> blank l) (text_lines raw))
     \<and> list_all (\<lambda>l. case loads l of Some (JObj op) \<Rightarrow> delta_op_wf op | _ \<Rightarrow> False) (vd_lines d)
     \<and> expected_ops (vd_manifest d) = Inr (int (length (vd_lines d)))"
proof -
  obtain manifest files name raw txt0 us n where v: "load_delta_manifest (pk_file pk ''manifest.json'') = Inr manifest"
    "delta_files manifest = Inr files" "list_all (\<lambda>(rel, e). confined_relpath pk rel) files" "ops_name_of files = Inr name"
    "read_ops pk name (dget files name) = Inr raw" "utf8_text raw = Inr txt0"
    "traverse check_operation (filter (\<lambda>l. \<not> blank l) (text_lines txt0)) = Inr us" "expected_ops manifest = Inr n"
    "int (length (filter (\<lambda>l. \<not> blank l) (text_lines txt0))) = n"
    and d: "d = \<lparr>vd_manifest = manifest, vd_ops_name = name, vd_entry = dict_of (dget files name),
      vd_lines = filter (\<lambda>l. \<not> blank l) (text_lines txt0)\<rparr>"
    using assms by (auto simp: verify_delta_def Let_def rbind_eq_Inr ensure_def split: if_splits)
  have t: "txt0 = raw" using v(6) by (simp add: utf8_text_def split: if_splits)
  obtain content entry where r: "pk_file pk name = Some content" "dget files name = JObj entry"
    "json_eq (dget entry ''size'') (JInt (int (length content)))"
    "if name = OPS_GZ then pk_gunzip pk content = Some raw \<and> dget entry ''decompressed_sha256'' = JStr (sha256_hex raw)
      else raw = content \<and> dget entry ''sha256'' = JStr (sha256_hex content)"
    by (rule read_opsE [OF v(5)])
  have m: "check_manifest manifest = Inr ()"
    by (rule loaded_manifest [OF v(1)])
  have "\<exists>op. loads l = Some (JObj op) \<and> delta_op_wf op" if "l \<in> set (vd_lines d)" for l
  proof -
    have "l \<in> set (filter (\<lambda>l. \<not> blank l) (text_lines txt0))" using that by (simp add: d)
    then obtain u where "check_operation l = Inr u"
      using traverse_each [OF v(7)] by blast
    then show ?thesis by (rule checked_operation)
  qed
  then have ops: "list_all (\<lambda>l. case loads l of Some (JObj op) \<Rightarrow> delta_op_wf op | _ \<Rightarrow> False) (vd_lines d)"
    by (fastforce simp: list_all_iff)
  have fields: "vd_entry d = entry" "vd_ops_name d = name" "vd_lines d = filter (\<lambda>l. \<not> blank l) (text_lines txt0)"
    by (simp_all add: d r(2))
  have bytes: "\<exists>content raw. pk_file pk (vd_ops_name d) = Some content
       \<and> (if vd_ops_name d = OPS_GZ
           then pk_gunzip pk content = Some raw \<and> dget (vd_entry d) ''decompressed_sha256'' = JStr (sha256_hex raw)
           else raw = content \<and> dget (vd_entry d) ''sha256'' = JStr (sha256_hex content))
       \<and> vd_lines d = filter (\<lambda>l. \<not> blank l) (text_lines raw)"
    by (rule exI [of _ content], rule exI [of _ raw]) (use r(1,4) in \<open>simp add: fields t\<close>)
  have "dget files (vd_ops_name d) = JObj (vd_entry d)" by (simp add: d r(2))
  then show ?thesis using m v(2,3,8,9) ops bytes by (simp add: d)
qed

section \<open>A concrete space and a concrete package\<close>

definition tiny_space :: descriptor where
  "tiny_space = \<lparr>de_implementation = ''x'', de_model = ''m'', de_dimension = 1, de_revision = [], de_normalization = ''none'',
     de_metric = ''cosine'', de_preprocessing = []\<rparr>"

definition tiny_record :: dict where
  "tiny_record = [(''embedding_model'', JStr ''x/m/norm:none''), (''embedding_dim'', JInt 1), (''embedding'', JStr ''QUFBQQ==''),
     (''fact_text'', JStr ''v'')]"

lemma tiny_facts:
  "descriptor_key tiny_space = ''x/m/norm:none''" "de_dimension tiny_space = 1" "make_descriptor tiny_space = Inr tiny_space"
  "stored_identity tiny_record = Inr (Some (''x/m/norm:none'', 1))" "decode_blob (JStr ''QUFBQQ=='') = Inr (Some ''AAAA'')"
  by code_simp+

lemma tiny_vector: "vector_is_valid (\<lambda>v. True) ''AAAA'' tiny_space"
  by (simp add: vector_is_valid_def finite_word_def tiny_space_def)

lemma reuse_only_own_space_witness:
  "resolve_embedding (\<lambda>v. True) \<lparr>ae_descriptor = tiny_space, ae_embed = (\<lambda>t. None)\<rparr> tiny_record
     = Inr \<lparr>rs_blob = ''AAAA'', rs_model = ''x/m/norm:none'', rs_dim = 1, rs_status = ''reused''\<rparr>
   \<and> vector_is_valid (\<lambda>v. True) ''AAAA'' tiny_space"
proof -
  let ?v = "\<lparr>rs_blob = ''AAAA'', rs_model = ''x/m/norm:none'', rs_dim = 1, rs_status = ''reused''\<rparr>"
  let ?a = "\<lparr>ae_descriptor = tiny_space, ae_embed = (\<lambda>t. None)\<rparr>"
  have e: "por (dget tiny_record ''embedding'') (dget tiny_record ''embedding_b64'') = JStr ''QUFBQQ==''"
    by (simp add: tiny_record_def por_def)
  have r: "resolve_embedding (\<lambda>v. True) ?a tiny_record = Inr ?v"
    by (simp add: resolve_embedding_def compatible_embedding_blob_def e tiny_facts tiny_vector Let_def)
  have h: "rs_status ?v = ''reused''" "make_descriptor (ae_descriptor ?a) = Inr (ae_descriptor ?a)"
    "stored_identity tiny_record = Inr (Some (descriptor_key tiny_space, de_dimension tiny_space))"
    by (simp_all add: tiny_facts)
  from reuse_only_own_space [OF r h(1) tiny_facts(3) h(2,3)] r show ?thesis by simp
qed

definition tiny_ops :: string where
  "tiny_ops = ''{\"op\":\"upsert\",\"op_id\":\"o\",\"record\":{\"id\":\"a\"},\"record_id\":\"a\",\"resulting_fingerprint\":\"r\"}'' @ [CHR 0x0A]"

definition tiny_manifest :: dict where
  "tiny_manifest = [(''counts'', JObj [(''total_ops'', JInt 1)]),
     (''files'', JObj [(OPS_PLAIN, JObj [(''sha256'', JStr (sha256_hex tiny_ops)), (''size'', JInt (int (length tiny_ops)))])]),
     (''fingerprint_version'', JInt 1), (''format'', JStr DELTA_FORMAT), (''schema_version'', JInt 1)]"

definition tiny_package :: package where
  "tiny_package = \<lparr>pk_is_dir = True,
     pk_file = [''manifest.json'' \<mapsto> dumps True (JObj tiny_manifest), OPS_PLAIN \<mapsto> tiny_ops],
     pk_resolves = (\<lambda>r. True), pk_gunzip = (\<lambda>s. None)\<rparr>"

lemma tiny_load: "load_delta_manifest (pk_file tiny_package ''manifest.json'') = Inr tiny_manifest"
proof -
  have hex: "ascii (sha256_hex tiny_ops)"
    using sha256_hex_digits [of _ tiny_ops] by (fastforce simp: ascii_def)
  have p: "plain True (JObj tiny_manifest)"
    by (simp add: tiny_manifest_def hex OPS_PLAIN_def DELTA_FORMAT_def)
  have u: "utf8_text (dumps True (JObj tiny_manifest)) = Inr (dumps True (JObj tiny_manifest))"
    using ascii_dumps [OF p] by (simp add: utf8_text_def utf8_valid_ascii)
  have m: "pk_file tiny_package ''manifest.json'' = Some (dumps True (JObj tiny_manifest))"
    by (simp add: tiny_package_def OPS_PLAIN_def)
  have "check_manifest tiny_manifest = Inr ()"
    by (simp add: check_manifest_def tiny_manifest_def version_field_def por_def py_int_def delta_py_def FINGERPRINT_VERSION_def
        check_block_def)
  then show ?thesis by (simp add: load_delta_manifest_def m u loads_dumps [OF p])
qed

lemma tiny_lines:
  "traverse check_operation (filter (\<lambda>l. \<not> blank l) (text_lines tiny_ops)) = Inr [()]"
  "length (filter (\<lambda>l. \<not> blank l) (text_lines tiny_ops)) = 1" "utf8_text tiny_ops = Inr tiny_ops"
  by code_simp+

lemma tiny_verifies:
  "verify_delta tiny_package = Inr \<lparr>vd_manifest = tiny_manifest, vd_ops_name = OPS_PLAIN,
     vd_entry = dict_of (dget (dict_of (dget tiny_manifest ''files'')) OPS_PLAIN),
     vd_lines = filter (\<lambda>l. \<not> blank l) (text_lines tiny_ops)\<rparr>"
proof -
  have f: "delta_files tiny_manifest = Inr (dict_of (dget tiny_manifest ''files''))"
    "dict_of (dget tiny_manifest ''files'') = [(OPS_PLAIN, JObj [(''sha256'', JStr (sha256_hex tiny_ops)), (''size'', JInt (int (length tiny_ops)))])]"
    "expected_ops tiny_manifest = Inr 1"
    by (simp_all add: delta_files_def tiny_manifest_def por_def expected_ops_def version_field_def py_int_def delta_py_def)
  have c: "confined_relpath tiny_package OPS_PLAIN"
    by (simp add: confined_relpath_def OPS_PLAIN_def starts_with_def) (simp add: tiny_package_def)
  have o1: "read_ops tiny_package OPS_PLAIN (JObj [(''sha256'', JStr (sha256_hex tiny_ops)), (''size'', JInt (int (length tiny_ops)))]) = Inr tiny_ops"
    by (simp add: read_ops_def tiny_package_def plain_ops_def OPS_PLAIN_def OPS_GZ_def json_eq_refl)
  have d: "pk_is_dir tiny_package" by (simp add: tiny_package_def)
  show ?thesis
    by (simp add: verify_delta_def d tiny_load f c ops_name_of_def has_key_def o1 tiny_lines Let_def ensure_def)
qed

lemma verified_delta_sound_witness:
  "\<exists>d. verify_delta tiny_package = Inr d \<and> expected_ops (vd_manifest d) = Inr (int (length (vd_lines d)))"
  by (rule exI, rule conjI, rule tiny_verifies, rule verified_delta_sound [OF tiny_verifies, THEN conjunct2, THEN conjunct2, THEN conjunct2, THEN conjunct2])

end
