(* ===== verification/StoredRecord.thy ===== *)
theory StoredRecord
  imports Delta JsonRoundtrip
begin

text \<open>
  A record that is stored as a row keeps its state fingerprint: the metadata, tags and provenance are written as
  JSON text with sorted keys and read back by the normaliser. This is what compare and swap over fingerprints
  rests on, for deltas and for every reader that stores records through \<open>record_to_memory_record\<close>.
\<close>

section \<open>Sorted keys do not change a canonical text\<close>

lemma sort_json_idem [simp]: "sort_json (sort_json v) = sort_json v"
proof (induction v)
  case (JObj d)
  let ?s = "\<lambda>(k, v). (k, sort_json v)"
  have m: "map ?s (map ?s d) = map ?s d" using JObj by (auto simp: split_beta)
  have "sort_key fst (map ?s (sort_key fst (map ?s d))) = sort_key fst (sort_key fst (map ?s (map ?s d)))"
    by (subst (2) sort_key_map_fst) (auto simp: split_beta)
  also have "\<dots> = sort_key fst (map ?s d)" unfolding m by (simp add: sort_key_id_if_sorted)
  finally show ?case by (simp only: sort_json.simps)
qed (auto simp: comp_def)

lemma finite_sort_json [simp]: "finite_json (sort_json v) \<longleftrightarrow> finite_json v"
  by (induction v) (auto simp: list_all_iff)

lemma canonical_dumps_sort:
  assumes "sort_json v = sort_json w"
  shows "canonical_dumps v = canonical_dumps w"
proof -
  have "dumps False v = dumps False (sort_json v)" "dumps False w = dumps False (sort_json w)"
    unfolding dumps_def by (rule text_sort)+
  moreover have "finite_json v \<longleftrightarrow> finite_json w" using finite_sort_json [of v] finite_sort_json [of w] by (simp only: assms)
  ultimately show ?thesis by (simp only: canonical_dumps_def assms)
qed

lemma fingerprint_sort_cong:
  assumes "por (dget n ''record_schema_version'') (dget n ''schema_version'')
      = por (dget m ''record_schema_version'') (dget m ''schema_version'')"
    and "\<And>f. f \<in> set FINGERPRINT_FIELDS \<Longrightarrow> f \<noteq> ''schema_version'' \<Longrightarrow> sort_json (dget n f) = sort_json (dget m f)"
  shows "fingerprint_of_normalized n = fingerprint_of_normalized m"
proof -
  let ?s = "\<lambda>(k, v). (k, sort_json v)"
  obtain T where F: "FINGERPRINT_FIELDS = ''schema_version'' # T" "''schema_version'' \<notin> set T"
    by (simp add: FINGERPRINT_FIELDS_def)
  have state: "fingerprint_state d = (''schema_version'', por (dget d ''record_schema_version'') (dget d ''schema_version''))
      # map (\<lambda>f. (f, dget d f)) T" for d
    by (simp add: fingerprint_state_def F(1))
  have "sort_json (dget n f) = sort_json (dget m f)" if "f \<in> set T" for f
    using that F by (intro assms(2)) (metis list.set_intros(2), metis)
  then have "map ?s (fingerprint_state n) = map ?s (fingerprint_state m)"
    unfolding state by (simp add: assms(1))
  then have "sort_json (JObj (fingerprint_state n)) = sort_json (JObj (fingerprint_state m))" by simp
  then have "canonical_dumps (JObj (fingerprint_state n)) = canonical_dumps (JObj (fingerprint_state m))"
    by (rule canonical_dumps_sort)
  then show ?thesis by (simp only: fingerprint_of_normalized_def canonical_fingerprint_state_def)
qed

section \<open>The fields of a stored record\<close>

lemma por_simps [simp]: "por JNull v = v" "por (JStr s) v = (if s = [] then v else JStr s)" "por (JInt i) v = (if i = 0 then v else JInt i)"
  by (simp_all add: por_def)

lemma record_row_get:
  "dget (record_row r v) ''id'' = dget r ''id''" "dget (record_row r v) ''identifier'' = dget r ''identifier''"
  "dget (record_row r v) ''fact_text'' = dget r ''fact_text''" "dget (record_row r v) ''source'' = dget r ''source''"
  "dget (record_row r v) ''importance'' = dget r ''importance''"
  "dget (record_row r v) ''metadata_json'' = JStr (dumps_sorted (dget r ''metadata''))"
  "dget (record_row r v) ''content_hash'' = dget r ''content_hash''" "dget (record_row r v) ''ttl_seconds'' = dget r ''ttl_seconds''"
  "dget (record_row r v) ''created_at'' = dget r ''created_at''" "dget (record_row r v) ''namespace'' = dget r ''namespace''"
  "dget (record_row r v) ''tier'' = dget r ''tier''" "dget (record_row r v) ''memory_type'' = dget r ''memory_type''"
  "dget (record_row r v) ''source_uri'' = dget r ''source_uri''" "dget (record_row r v) ''source_format'' = dget r ''source_format''"
  "dget (record_row r v) ''source_checksum'' = por (dget r ''source_checksum'') (JStr [])"
  "dget (record_row r v) ''byte_offset'' = dget r ''byte_offset''" "dget (record_row r v) ''byte_length'' = dget r ''byte_length''"
  "dget (record_row r v) ''promotion_state'' = por (dget r ''promotion_state'') (JStr ''HOT'')"
  "dget (record_row r v) ''promotion_candidate'' = por (dget r ''promotion_candidate'') (JInt 0)"
  "dget (record_row r v) ''tags'' = JStr (dumps_plain (dget r ''tags''))"
  "dget (record_row r v) ''schema_version'' = por (dget r ''record_schema_version'') (dget r ''schema_version'')"
  "dget (record_row r v) ''fact_summary'' = dget r ''fact_summary''"
  "dget (record_row r v) ''provenance_json'' = (if dget r ''provenance'' = JNull then JNull else JStr (dumps_sorted (dget r ''provenance'')))"
  "dget (record_row r v) ''embedding_dim'' = JInt (rs_dim v)"
  unfolding record_row_def Let_def by (simp_all only: dget_Cons dget_Nil if_True if_False refl) simp_all

text \<open>What a database row always has, and text the modelled reader reads back.\<close>

definition complete_fields :: "dict \<Rightarrow> bool" where
  "complete_fields n = (dget n ''created_at'' \<noteq> JNull \<and> dget n ''source_checksum'' \<noteq> JNull
     \<and> given (dget n ''promotion_state'') \<and> given (dget n ''promotion_candidate''))"

definition storable_fields :: "dict \<Rightarrow> bool" where
  "storable_fields n = (storable (dget n ''metadata'') \<and> storable (dget n ''tags'') \<and> storable (dget n ''provenance''))"

lemma storable_strings:
  assumes "storable v" "str_list_json v"
  shows "plain True v" "sort_json v = v"
proof -
  from assms(2) obtain xs where v: "v = JList xs" "list_all is_str xs"
    by (auto simp: str_list_json_def split: json.splits)
  have "plain True x \<and> sort_json x = x" if "x \<in> set xs" for x
  proof -
    have "storable x" "is_str x" using that assms(1) v by (simp_all add: list_all_iff)
    then show ?thesis by (cases x) simp_all
  qed
  then show "plain True v" "sort_json v = v" by (auto simp: v(1) list_all_iff map_idI)
qed

lemma dumps_sorted_loads: "storable v \<Longrightarrow> loads (dumps_sorted v) = Some (sort_json v)"
  unfolding dumps_sorted_def by (rule loads_sorted) (rule separator_plain | assumption)+

lemma dumps_plain_loads: "plain True v \<Longrightarrow> loads (dumps_plain v) = Some v"
  unfolding dumps_plain_def by (rule loads_text) (rule separator_plain | assumption)+

lemma sort_json_dict: "\<exists>d'. sort_json (JObj d) = JObj d'"
  by simp

lemma candidate_clean_int:
  "promotion_candidate_of v = Inr (c, []) \<Longrightarrow> given c \<Longrightarrow> \<exists>i. c = JInt i"
  by (cases v) (auto simp: promotion_candidate_of_def given_def rbind_eq_Inr as_int_def split: if_splits)

lemma stored_unknown: "unknown_fields (inserted_row now vals) = []"
  by (simp add: unknown_fields_def inserted_row_def MEMORY_COLUMNS_def KNOWN_FIELDS_def)

lemma stored_get:
  "k \<in> set MEMORY_COLUMNS \<Longrightarrow> k \<noteq> ''created_at'' \<Longrightarrow> dget (inserted_row now vals) k = dget vals k"
  "k \<notin> set MEMORY_COLUMNS \<Longrightarrow> dget (inserted_row now vals) k = JNull"
  "dget vals ''created_at'' \<noteq> JNull \<Longrightarrow> dget (inserted_row now vals) ''created_at'' = dget vals ''created_at''"
  by (auto simp: dget_inserted_row MEMORY_COLUMNS_def)

lemma stored_get_default:
  "dget_default (inserted_row now vals) k x = (if k \<in> set MEMORY_COLUMNS then dget (inserted_row now vals) k else x)"
proof -
  have "dget_default (map (\<lambda>c. (c, g c)) cs) k x = (if k \<in> set cs then g k else x)" for g :: "string \<Rightarrow> json" and cs
    by (induction cs) auto
  moreover have "dget (map (\<lambda>c. (c, g c)) cs) k = (if k \<in> set cs then g k else JNull)" for g :: "string \<Rightarrow> json" and cs
    by (induction cs) auto
  ultimately show ?thesis unfolding inserted_row_def by simp
qed

text \<open>The metadata, tags and provenance of a stored row are those of the record, with sorted keys.\<close>

lemma stored_metadata:
  assumes "dget n ''metadata'' = JObj m" "storable (JObj m)"
  shows "JObj (metadata_of (inserted_row now (record_row n v))) = sort_json (JObj m)"
proof -
  let ?r = "inserted_row now (record_row n v)"
  have "raw_metadata ?r = JStr (dumps_sorted (JObj m))"
    by (simp add: raw_metadata_def stored_get_default stored_get record_row_get assms(1) MEMORY_COLUMNS_def)
  moreover have "loads (dumps_sorted (JObj m)) = Some (sort_json (JObj m))" by (rule dumps_sorted_loads [OF assms(2)])
  ultimately show ?thesis by (simp add: metadata_of_def stored_unknown as_json_def)
qed

lemma stored_tags:
  assumes "storable (dget n ''tags'')" "str_list_json (dget n ''tags'')"
  shows "list_of (inserted_row now (record_row n v)) ''tags'' = dget n ''tags''"
proof -
  have "loads (dumps_plain (dget n ''tags'')) = Some (dget n ''tags'')"
    by (rule dumps_plain_loads [OF storable_strings(1) [OF assms]])
  then show ?thesis using assms(2)
    by (auto simp: list_of_def as_json_def stored_get record_row_get MEMORY_COLUMNS_def str_list_json_def split: json.splits)
qed

lemma stored_provenance:
  assumes "dget n ''provenance'' = JNull \<or> is_dict (dget n ''provenance'')" "storable (dget n ''provenance'')"
  shows "fst (provenance_of (inserted_row now (record_row n v))) = sort_json (dget n ''provenance'')"
proof (cases "dget n ''provenance'' = JNull")
  case True
  then show ?thesis
    by (simp add: provenance_of_def Let_def stored_get_default stored_get record_row_get MEMORY_COLUMNS_def given_def)
next
  case False
  let ?r = "inserted_row now (record_row n v)"
  have l: "loads (dumps_sorted (dget n ''provenance'')) = Some (sort_json (dget n ''provenance''))"
    by (rule dumps_sorted_loads [OF assms(2)])
  have "dget_default ?r ''provenance'' (dget ?r ''provenance_json'') = JStr (dumps_sorted (dget n ''provenance''))"
    using False by (simp add: stored_get_default stored_get record_row_get MEMORY_COLUMNS_def)
  moreover have "given (JStr (dumps_sorted (dget n ''provenance'')))"
    using l by (auto simp: given_def)
  ultimately show ?thesis using l by (simp add: provenance_of_def Let_def)
qed

section \<open>The fingerprint of a stored record\<close>

lemma version_positive:
  assumes "\<not> bad_number (\<lambda>n. n > 0) (opt_int rsv) rsv" "\<not> bad_number (\<lambda>n. n > 0) (JInt (int_or sv 1)) (Some (int_or sv 1))"
  obtains p where "por (opt_int rsv) (JInt (int_or sv 1)) = JInt p" "p > 0"
proof (cases rsv)
  case None
  then show ?thesis using assms(2) that [of "int_or sv 1"] by (auto simp: opt_int_def bad_number_def)
next
  case (Some r)
  then show ?thesis using assms(1) that [of r] by (auto simp: opt_int_def bad_number_def por_def)
qed

lemma stored_columns:
  assumes "dget n ''created_at'' \<noteq> JNull"
  shows "dget (inserted_row now (record_row n v)) ''created_at'' = dget n ''created_at''"
    "k \<in> {''id'', ''identifier'', ''fact_text'', ''source'', ''importance'', ''content_hash'', ''ttl_seconds'', ''namespace'', ''tier'',
        ''memory_type'', ''source_uri'', ''source_format'', ''source_checksum'', ''byte_offset'', ''byte_length'',
        ''promotion_state'', ''promotion_candidate'', ''fact_summary'', ''schema_version'', ''embedding_dim''}
      \<Longrightarrow> dget (inserted_row now (record_row n v)) k = dget (record_row n v) k"
    "dget (inserted_row now (record_row n v)) ''record_schema_version'' = JNull"
proof -
  show "dget (inserted_row now (record_row n v)) ''created_at'' = dget n ''created_at''"
    using assms by (simp add: dget_inserted_row MEMORY_COLUMNS_def record_row_get)
  show "dget (inserted_row now (record_row n v)) ''record_schema_version'' = JNull"
    by (simp add: dget_inserted_row MEMORY_COLUMNS_def)
  assume "k \<in> {''id'', ''identifier'', ''fact_text'', ''source'', ''importance'', ''content_hash'', ''ttl_seconds'', ''namespace'', ''tier'',
        ''memory_type'', ''source_uri'', ''source_format'', ''source_checksum'', ''byte_offset'', ''byte_length'',
        ''promotion_state'', ''promotion_candidate'', ''fact_summary'', ''schema_version'', ''embedding_dim''}"
  then have "k \<in> set MEMORY_COLUMNS" "k \<noteq> ''created_at''"
    by (simp_all add: MEMORY_COLUMNS_def) (elim disjE; simp)+
  then show "dget (inserted_row now (record_row n v)) k = dget (record_row n v) k" by (rule stored_get(1))
qed

lemma stored_record_normal_form:
  assumes c: "c = canonical_fields raw ds fid off len hash imp ttl cand dim sv rsv"
    and full: "complete_fields c" "storable_fields c" "validate_metadata (sort_json (dget c ''metadata'')) None = Inr ()"
    and parts: "hash \<noteq> []" "strip hash = hash" "importance_of (JFloat imp) = Inr (imp, [])" "promotion_candidate_of cand = Inr (cand, [])"
      "given cand" "por (opt_int rsv) (JInt (int_or sv 1)) = JInt p" "p > 0"
  shows "\<exists>is. normalize_record (inserted_row now (record_row c v)) ''swap'' fid' = Inr \<lparr>nr_fields =
      canonical_fields (inserted_row now (record_row c v)) ''swap'' fid' off len hash imp ttl cand (Some (rs_dim v)) (Some p) None,
      nr_issues = is\<rparr>"
proof -
  let ?r = "inserted_row now (record_row c v)"
  have created: "dget c ''created_at'' \<noteq> JNull" using full(1) by (simp add: complete_fields_def)
  note col = stored_columns [OF created, where now = now and v = v]
  have cols: "dget ?r ''byte_offset'' = opt_int off" "dget ?r ''byte_length'' = opt_int len" "dget ?r ''content_hash'' = JStr hash"
    "dget ?r ''importance'' = JFloat imp" "dget ?r ''ttl_seconds'' = opt_int ttl" "dget ?r ''promotion_candidate'' = por cand (JInt 0)"
    "dget ?r ''schema_version'' = JInt p" "dget ?r ''embedding_dim'' = JInt (rs_dim v)" "dget ?r ''record_schema_version'' = JNull"
    by (simp_all add: col(2,3) record_row_get) (simp_all add: c parts(6))
  obtain i where i: "cand = JInt i" using candidate_clean_int [OF parts(4,5)] by blast
  have m: "JObj (metadata_of ?r) = sort_json (dget c ''metadata'')"
    using stored_metadata [of c "metadata_of raw" now v] full(2) by (simp add: c storable_fields_def)
  have int: "as_int (JInt k) = Inr (Some k)" "as_int JNull = Inr None" for k by (simp_all add: as_int_def py_int_def)
  have hash: "content_hash_of ?r b off len = Inr hash" for b
    using parts(1,2) by (simp add: content_hash_of_def Let_def cols)
  have cand: "promotion_candidate_of (por cand (JInt 0)) = Inr (cand, [])" using parts(4) by (cases "i = 0") (simp_all add: i)
  show ?thesis
    by (simp add: normalize_record_def Let_def cols hash m full(3) parts(3) cand version_issues_def int)
qed

text \<open>A record that a reader stores keeps its state fingerprint: for an issue-free normal form with the columns a
  database row always has, the row that \<open>record_to_memory_record\<close> and the insert make of it has the fingerprint of the
  record, whatever its embedding became.
\<close>

lemma stored_print:
  assumes "normalize_record raw ds fid = Inr n" "nr_issues n = []" "complete_fields (nr_fields n)" "storable_fields (nr_fields n)"
    and "validate_metadata (sort_json (dget (nr_fields n) ''metadata'')) None = Inr ()"
  shows "record_fingerprint (inserted_row now (record_row (nr_fields n) v)) fid' = of_py (fingerprint_of_normalized (nr_fields n))"
proof (rule normalize_cleanE [OF assms(1,2)])
  fix off len hash imp ttl cand dim sv rsv
  assume hash: "content_hash_of raw (dget raw ''memory_type'' = JStr ''file'') off len = Inr hash"
    and imp: "importance_of (dget raw ''importance'') = Inr (imp, [])"
    and cand: "promotion_candidate_of (dget raw ''promotion_candidate'') = Inr (cand, [])"
    and svi: "version_issues raw ''schema_version'' = Inr []" "version_issues raw ''record_schema_version'' = Inr []"
    and sv: "as_int (dget raw ''schema_version'') = Inr sv" "as_int (dget raw ''record_schema_version'') = Inr rsv"
    and n: "n = \<lparr>nr_fields = canonical_fields raw ds fid off len hash imp ttl cand dim sv rsv, nr_issues = []\<rparr>"
    and fi: "field_issues raw off len [] ttl [] [] [] dim = []"
  let ?c = "canonical_fields raw ds fid off len hash imp ttl cand dim sv rsv"
  let ?r = "inserted_row now (record_row ?c v)"
  note clean = field_issues_clean [OF fi]
  have full: "complete_fields ?c" "storable_fields ?c" "validate_metadata (sort_json (dget ?c ''metadata'')) None = Inr ()"
    using assms(3-5) by (simp_all add: n)
  have given: "dget raw ''created_at'' \<noteq> JNull" "dget raw ''source_checksum'' \<noteq> JNull" "given (dget raw ''promotion_state'')" "given cand"
    using full(1) by (simp_all add: complete_fields_def)
  obtain p where p: "por (opt_int rsv) (JInt (int_or sv 1)) = JInt p" "p > 0"
    by (rule version_positive [OF version_idem_opt [OF svi(2) sv(2)] version_idem_or [OF svi(1) sv(1)]])
  obtain iss where r: "normalize_record ?r ''swap'' fid' = Inr \<lparr>nr_fields =
      canonical_fields ?r ''swap'' fid' off len hash imp ttl cand (Some (rs_dim v)) (Some p) None, nr_issues = iss\<rparr>"
    using stored_record_normal_form [OF refl full content_hash_nonempty [OF hash] content_hash_strip [OF hash]
        importance_idem [OF imp] promotion_candidate_idem [OF cand] given(4) p] by blast
  let ?d = "canonical_fields ?r ''swap'' fid' off len hash imp ttl cand (Some (rs_dim v)) (Some p) None"
  have created: "dget ?c ''created_at'' \<noteq> JNull" using given(1) by simp
  note col = stored_columns [OF created, where now = now and v = v]
  have checksum: "\<exists>t. dget raw ''source_checksum'' = JStr t"
    using str_issues_clean [OF clean(1), of "''source_checksum''"] given(2)
    by (cases "dget raw ''source_checksum''") (simp_all add: STR_FIELDS_def)
  have state: "\<exists>t. dget raw ''promotion_state'' = JStr t \<and> t \<noteq> []"
    using clean(10) given(3) by (cases "dget raw ''promotion_state''") (auto simp: one_of_strings_def)
  have tags: "list_of ?r ''tags'' = list_of raw ''tags''"
    using stored_tags [of ?c now v] full(2) list_issues_clean [OF clean(8)] by (simp add: storable_fields_def)
  have prov: "fst (provenance_of ?r) = sort_json (fst (provenance_of raw))"
    using stored_provenance [of ?c now v] full(2) provenance_clean [OF clean(2)] by (simp add: storable_fields_def)
  have meta: "JObj (metadata_of ?r) = sort_json (JObj (metadata_of raw))"
    using stored_metadata [of ?c "metadata_of raw" now v] full(2) by (simp add: storable_fields_def)
  have "fingerprint_of_normalized ?d = fingerprint_of_normalized ?c"
  proof (rule fingerprint_sort_cong)
    show "por (dget ?d ''record_schema_version'') (dget ?d ''schema_version'') = por (dget ?c ''record_schema_version'') (dget ?c ''schema_version'')"
      using p by (simp add: opt_int_def int_or_def)
    have "list_all (\<lambda>f. f = ''schema_version'' \<or> sort_json (dget ?d f) = sort_json (dget ?c f)) FINGERPRINT_FIELDS"
      unfolding FINGERPRINT_FIELDS_def list.pred_inject canonical_get
      using checksum state
      by (auto simp: col(1,2) record_row_get tags prov meta tier_idem [OF clean(3)] simp del: sort_json.simps)
    then show "f \<in> set FINGERPRINT_FIELDS \<Longrightarrow> f \<noteq> ''schema_version'' \<Longrightarrow> sort_json (dget ?d f) = sort_json (dget ?c f)" for f
      by (auto simp: list_all_iff)
  qed
  then show ?thesis using r by (simp add: record_fingerprint_def n)
qed

end
