(* ===== verification/DeltaFacts.thy ===== *)
theory DeltaFacts
  imports StoredRecord EventLog
begin

text \<open>
  What an application of a delta establishes. The conflicts of a run only grow, so that a run without one has
  skipped or written every operation; a write stores the row of its record and leaves all other rows alone, because
  a row with the same content under another id is a conflict.
\<close>

section \<open>One write\<close>

text \<open>The row that a write of the operation would store.\<close>

definition op_row :: "delta_env \<Rightarrow> string \<times> dict \<Rightarrow> dict option" where
  "op_row env x = (case dget (snd x) ''record'' of
     JObj raw \<Rightarrow> (case normalize_record raw ''delta'' (fst x) of
         Inr n \<Rightarrow>
           (if validate_record n \<noteq> Inr [] then None
            else case resolve_embedding (dn_unit env) (dn_embedder env) (nr_fields n) of
                Inr v \<Rightarrow> Some (inserted_row (dn_row_now env) (record_row (nr_fields n) v))
              | Inl e \<Rightarrow> None)
       | Inl e \<Rightarrow> None)
   | _ \<Rightarrow> None)"

definition op_key :: "string \<times> dict \<Rightarrow> string" where
  "op_key x = str_of (dget (snd x) ''record_id'')"

definition op_print :: "string \<times> dict \<Rightarrow> string" where
  "op_print x = str_of (dget (snd x) ''resulting_fingerprint'')"

text \<open>
  An operation says what it does when its record has the id it names and, stored, the fingerprint it promises.
  The reader checks neither.
\<close>

definition honest_op :: "delta_env \<Rightarrow> string \<times> dict \<Rightarrow> bool" where
  "honest_op env x =
     (is_str (dget (snd x) ''record_id'') \<and> is_str (dget (snd x) ''resulting_fingerprint'')
      \<and> (case op_row env x of
           None \<Rightarrow> False
         | Some row \<Rightarrow> row_key row = JStr (op_key x) \<and> record_fingerprint row [] = Inr (op_print x)))"

definition text_ids :: "store \<Rightarrow> bool" where
  "text_ids s = list_all (\<lambda>r. is_str (row_key r)) (st_memories s)"

lemma stored_identity_fields:
  assumes "normalize_record raw ds fid = Inr n"
  shows "\<exists>ns h. dget (record_row (nr_fields n) v) ''namespace'' = JStr ns \<and> dget (record_row (nr_fields n) v) ''content_hash'' = JStr h
     \<and> h \<noteq> []" "\<exists>i. dget (record_row (nr_fields n) v) ''id'' = JStr i"
  using assms by (auto simp: normalize_record_def Let_def rbind_eq_Inr record_row_get dest: content_hash_nonempty)

text \<open>Any stored row with the identity of the new one is the row under its own id.\<close>

lemma only_own_identity:
  assumes "rows_inv s" "text_ids s" "stored_elsewhere rid vals s = None" "x \<in> set (st_memories s)"
    and "same_identity (inserted_row now vals) x" "dget vals ''namespace'' = JStr ns" "dget vals ''content_hash'' = JStr h" "h \<noteq> []"
  shows "row_key x = JStr rid"
proof -
  have x: "dget x ''namespace'' = JStr ns" "dget x ''content_hash'' = JStr h"
    using assms(5-7) by (simp_all add: same_identity_def dget_inserted_row MEMORY_COLUMNS_def)
  then obtain r where r: "find (\<lambda>r. dget r ''namespace'' = JStr ns \<and> dget r ''content_hash'' = JStr h) (st_memories s) = Some r"
    using assms(4) by (cases "find (\<lambda>r. dget r ''namespace'' = JStr ns \<and> dget r ''content_hash'' = JStr h) (st_memories s)")
      (auto simp: find_None_iff)
  then have m: "r \<in> set (st_memories s)" "dget r ''namespace'' = JStr ns" "dget r ''content_hash'' = JStr h"
    by (auto simp: find_Some_iff)
  have "same_identity r x" using m x assms(8) by (simp add: same_identity_def indexed_def)
  then have k: "row_key r = row_key x" using assms(1,4) m(1) by (auto simp: rows_inv_def)
  have "py_str (dget r ''id'') = rid"
    using assms(3) r by (simp add: stored_elsewhere_def find_by_namespace_and_hash_def assms(6-8) str_of_def split: if_splits)
  moreover have "is_str (row_key r)" using assms(2) m(1) by (auto simp: text_ids_def list_all_iff)
  ultimately show ?thesis using k by (cases "dget r ''id''") (auto simp: row_key_def py_str_def)
qed

lemma write_op_cases:
  assumes "write_op env fid rid op st = Inr st'"
  obtains (conflict) c where "st' = add_conflict c st"
    | (written) vals and v :: resolved and ns h where "op_row env (fid, op) = Some (inserted_row (dn_row_now env) vals)"
        "stored_elsewhere rid vals (da_store st) = None" "dget vals ''namespace'' = JStr ns" "dget vals ''content_hash'' = JStr h"
        "h \<noteq> []" "insert_row (dn_row_now env) vals (da_store st) = Inr (da_store st')"
        "st' = st\<lparr>da_store := da_store st', da_statuses := da_statuses st @ [rs_status v]\<rparr>"
proof -
  obtain raw n issues where n: "dget op ''record'' = JObj raw" "normalize_record raw ''delta'' fid = Inr n" "validate_record n = Inr issues"
    using assms by (auto simp: write_op_def rbind_eq_Inr delta_rec_def delta_py_def split: json.splits)
  show ?thesis
  proof (cases "issues = []")
    case False
    then show ?thesis using assms n conflict by (auto simp: write_op_def delta_rec_def delta_py_def)
  next
    case True
    then obtain v where v: "resolve_embedding (dn_unit env) (dn_embedder env) (nr_fields n) = Inr v"
      using assms n by (auto simp: write_op_def rbind_eq_Inr delta_rec_def delta_py_def)
    let ?vals = "record_row (nr_fields n) v"
    obtain ns h where f: "dget ?vals ''namespace'' = JStr ns" "dget ?vals ''content_hash'' = JStr h" "h \<noteq> []"
      using stored_identity_fields(1) [OF n(2)] by blast
    show ?thesis
    proof (cases "stored_elsewhere rid ?vals (da_store st)")
      case (Some other)
      then show ?thesis using assms n v True conflict by (auto simp: write_op_def delta_rec_def delta_py_def Let_def)
    next
      case None
      then obtain s where s: "insert_row (dn_row_now env) ?vals (da_store st) = Inr s"
        "st' = st\<lparr>da_store := s, da_statuses := da_statuses st @ [rs_status v]\<rparr>"
        using assms n v True by (auto simp: write_op_def delta_rec_def delta_py_def delta_db_def Let_def rbind_eq_Inr)
      have "op_row env (fid, op) = Some (inserted_row (dn_row_now env) ?vals)" using n v True by (simp add: op_row_def)
      then show ?thesis using written [OF _ None f, of v] s by simp
    qed
  qed
qed

lemma inserted_rows:
  assumes "insert_row now vals s = Inr s'"
  shows "s' = s\<lparr>st_memories := filter (\<lambda>x. \<not> conflicting (inserted_row now vals) x) (st_memories s) @ [inserted_row now vals]\<rparr>"
  using assms by (auto simp: insert_row_def Let_def split: if_splits)

text \<open>A write without a conflict: the row of the operation under its id, every other row as it was.\<close>

lemma written_op:
  assumes "write_op env fid rid op st = Inr st'" "da_conflicts st' = da_conflicts st" "rows_inv (da_store st)" "text_ids (da_store st)"
    and "op_row env (fid, op) = Some row" "row_key row = JStr rid"
  shows "get_memory rid (da_store st') = Some row" "m \<noteq> rid \<Longrightarrow> get_memory m (da_store st') = get_memory m (da_store st)"
    "rows_inv (da_store st')" "text_ids (da_store st')" "da_skipped st' = da_skipped st"
    "length (da_statuses st') = Suc (length (da_statuses st))" "da_store st' = (da_store st)\<lparr>st_memories := st_memories (da_store st')\<rparr>"
proof -
  from assms(1) have "get_memory rid (da_store st') = Some row \<and> (m \<noteq> rid \<longrightarrow> get_memory m (da_store st') = get_memory m (da_store st))
    \<and> rows_inv (da_store st') \<and> text_ids (da_store st') \<and> da_skipped st' = da_skipped st
    \<and> length (da_statuses st') = Suc (length (da_statuses st)) \<and> da_store st' = (da_store st)\<lparr>st_memories := st_memories (da_store st')\<rparr>"
  proof (rule write_op_cases)
    fix c
    assume "st' = add_conflict c st"
    then show ?thesis using assms(2) by (simp add: add_conflict_def)
  next
    fix vals and v :: resolved and ns h
    assume written: "op_row env (fid, op) = Some (inserted_row (dn_row_now env) vals)"
        "stored_elsewhere rid vals (da_store st) = None" "dget vals ''namespace'' = JStr ns" "dget vals ''content_hash'' = JStr h"
        "h \<noteq> []" "insert_row (dn_row_now env) vals (da_store st) = Inr (da_store st')"
        "st' = st\<lparr>da_store := da_store st', da_statuses := da_statuses st @ [rs_status v]\<rparr>"
    let ?s = "da_store st" and ?keep = "\<lambda>x. \<not> conflicting row x"
    have row: "row = inserted_row (dn_row_now env) vals" using written(1) assms(5) by simp
    note s' = inserted_rows [OF written(6), folded row]
    have own: "conflicting row x \<longleftrightarrow> row_key x = JStr rid" if "x \<in> set (st_memories ?s)" for x
      using only_own_identity [OF assms(3,4) written(2) that _ written(3-5)] assms(6) row by (auto simp: conflicting_def)
    have gone: "filter ?keep (st_memories ?s) = remove_key row_key (JStr rid) (st_memories ?s)"
      by (simp add: remove_key_def own cong: filter_cong)
    have mem: "st_memories (da_store st') = remove_key row_key (JStr rid) (st_memories ?s) @ [row]"
      by (subst s') (simp add: gone)
    have "rows_inv (da_store st')" unfolding rows_inv_def mem
    proof (intro conjI ballI impI)
      show "keys_distinct row_key (remove_key row_key (JStr rid) (st_memories ?s) @ [row])"
        using assms(3,6) by (auto simp: rows_inv_def keys_distinct_def remove_key_def distinct_map_filter)
      fix r x
      assume rx: "r \<in> set (remove_key row_key (JStr rid) (st_memories ?s) @ [row])"
        "x \<in> set (remove_key row_key (JStr rid) (st_memories ?s) @ [row])" "same_identity r x"
      have sym: "same_identity r x \<Longrightarrow> same_identity x r" by (auto simp: same_identity_def)
      have no: "\<not> same_identity row y" if "y \<in> set (remove_key row_key (JStr rid) (st_memories ?s))" for y
        using that own [of y] by (auto simp: remove_key_def conflicting_def)
      show "row_key r = row_key x"
        using rx sym no assms(3) by (auto simp: rows_inv_def remove_key_def)
    qed
    moreover have "text_ids (da_store st')" using assms(4,6) by (auto simp: text_ids_def mem remove_key_def list_all_iff)
    moreover have "get_memory rid (da_store st') = Some row"
      using assms(6) by (simp add: get_memory_def mem find_key_append find_key_remove)
    moreover have "m \<noteq> rid \<longrightarrow> get_memory m (da_store st') = get_memory m ?s"
      using assms(6) by (auto simp: get_memory_def mem find_key_append find_key_remove split: option.splits)
    moreover have "da_store st' = ?s\<lparr>st_memories := st_memories (da_store st')\<rparr>" by (subst (1 2) s') simp
    moreover have "da_skipped st' = da_skipped st" "length (da_statuses st') = Suc (length (da_statuses st))"
      by (subst written(7), simp)+
    ultimately show ?thesis by blast
  qed
  then show "get_memory rid (da_store st') = Some row" "m \<noteq> rid \<Longrightarrow> get_memory m (da_store st') = get_memory m (da_store st)"
    "rows_inv (da_store st')" "text_ids (da_store st')" "da_skipped st' = da_skipped st"
    "length (da_statuses st') = Suc (length (da_statuses st))" "da_store st' = (da_store st)\<lparr>st_memories := st_memories (da_store st')\<rparr>"
    by blast+
qed

section \<open>A run\<close>

lemma write_op_grows: "write_op env fid rid op st = Inr st' \<Longrightarrow> \<exists>cs. da_conflicts st' = da_conflicts st @ cs"
  by (erule write_op_cases) (auto simp: add_conflict_def, metis append_Nil2 delta_state.select_convs(2) delta_state.surjective
      delta_state.update_convs(1) delta_state.update_convs(3))

lemma apply_operation_cases:
  assumes "apply_delta_op env e x st = Inr st'"
  obtains rid current where "dget (snd x) ''record_id'' = JStr rid" "present_print rid (da_store st) = Inr current"
    "case op_verdict e rid (snd x) current of SkipOp \<Rightarrow> st' = st\<lparr>da_skipped := Suc (da_skipped st)\<rparr>
       | ConflictOp c \<Rightarrow> st' = add_conflict c st | WriteOp \<Rightarrow> write_op env (fst x) rid (snd x) st = Inr st'"
proof (cases "dget (snd x) ''record_id''")
  case (JStr rid)
  then obtain current where c: "present_print rid (da_store st) = Inr current"
    using assms by (auto simp: apply_delta_op_def Let_def rbind_eq_Inr)
  show ?thesis using assms JStr c by (intro that [OF JStr c]) (cases "op_verdict e rid (snd x) current"; auto simp: apply_delta_op_def Let_def)
qed (use assms in \<open>simp_all add: apply_delta_op_def Let_def\<close>)

lemma apply_operation_grows: "apply_delta_op env e x st = Inr st' \<Longrightarrow> \<exists>cs. da_conflicts st' = da_conflicts st @ cs"
proof (erule apply_operation_cases)
  fix rid current
  assume "case op_verdict e rid (snd x) current of SkipOp \<Rightarrow> st' = st\<lparr>da_skipped := Suc (da_skipped st)\<rparr>
       | ConflictOp c \<Rightarrow> st' = add_conflict c st | WriteOp \<Rightarrow> write_op env (fst x) rid (snd x) st = Inr st'"
  then show ?thesis by (cases "op_verdict e rid (snd x) current") (auto simp: add_conflict_def dest: write_op_grows)
qed

lemma run_grows: "fold_res (apply_delta_op env e) ops st = Inr st' \<Longrightarrow> \<exists>cs. da_conflicts st' = da_conflicts st @ cs"
proof (induction ops arbitrary: st)
  case (Cons x ops)
  then obtain st1 where s: "apply_delta_op env e x st = Inr st1" "fold_res (apply_delta_op env e) ops st1 = Inr st'"
    by (auto simp: rbind_eq_Inr)
  show ?case using apply_operation_grows [OF s(1)] Cons.IH [OF s(2)] by auto
qed simp

definition settled_op :: "string \<times> dict \<Rightarrow> store \<Rightarrow> bool" where
  "settled_op x s = (present_print (op_key x) s = Inr (Some (op_print x)))"

lemma present_print_cong: "get_memory m s = get_memory m s' \<Longrightarrow> present_print m s = present_print m s'"
  by (simp add: present_print_def)

lemma honest_opE:
  assumes "honest_op env x"
  obtains row where "op_row env x = Some row" "row_key row = JStr (op_key x)" "record_fingerprint row [] = Inr (op_print x)"
    "dget (snd x) ''record_id'' = JStr (op_key x)" "dget (snd x) ''resulting_fingerprint'' = JStr (op_print x)"
  using assms
  by (cases "dget (snd x) ''record_id''"; cases "dget (snd x) ''resulting_fingerprint''")
    (auto simp: honest_op_def op_key_def op_print_def str_of_def split: option.splits)

text \<open>One operation of a run without conflicts settles its record and leaves the others alone.\<close>

lemma operation_settles:
  assumes "apply_delta_op env e x st = Inr st'" "da_conflicts st' = da_conflicts st" "honest_op env x"
    and "rows_inv (da_store st)" "text_ids (da_store st)"
  shows "settled_op x (da_store st') \<and> rows_inv (da_store st') \<and> text_ids (da_store st')
     \<and> (\<forall>m. m \<noteq> op_key x \<longrightarrow> get_memory m (da_store st') = get_memory m (da_store st))
     \<and> length (da_statuses st') + da_skipped st' = Suc (length (da_statuses st) + da_skipped st)
     \<and> da_store st' = (da_store st)\<lparr>st_memories := st_memories (da_store st')\<rparr>"
proof -
  obtain row where h: "op_row env x = Some row" "row_key row = JStr (op_key x)" "record_fingerprint row [] = Inr (op_print x)"
    "dget (snd x) ''record_id'' = JStr (op_key x)" "dget (snd x) ''resulting_fingerprint'' = JStr (op_print x)"
    by (rule honest_opE [OF assms(3)])
  obtain current where c: "present_print (op_key x) (da_store st) = Inr current"
    using assms(1) h(4) by (auto simp: apply_delta_op_def rbind_eq_Inr Let_def)
  show ?thesis
  proof (cases "op_verdict e (op_key x) (snd x) current")
    case SkipOp
    then have s: "st' = st\<lparr>da_skipped := Suc (da_skipped st)\<rparr>" using assms(1) c h(4) by (simp add: apply_delta_op_def Let_def)
    have "current = Some (op_print x)" using SkipOp h(5)
      by (auto simp: op_verdict_def Let_def split: option.splits if_splits)
    then show ?thesis using assms(4,5) c by (simp add: s settled_op_def)
  next
    case (ConflictOp cf)
    then have "st' = add_conflict cf st" using assms(1) c h(4) by (simp add: apply_delta_op_def Let_def)
    then show ?thesis using assms(2) by (simp add: add_conflict_def)
  next
    case WriteOp
    then have w: "write_op env (fst x) (op_key x) (snd x) st = Inr st'" using assms(1) c h(4) by (simp add: apply_delta_op_def Let_def)
    note f = written_op [OF w assms(2,4,5) _ h(2), unfolded prod.collapse, OF h(1)]
    show ?thesis using f h(3) by (simp add: settled_op_def present_print_def delta_rec_def)
  qed
qed

lemma run_settles:
  assumes "fold_res (apply_delta_op env e) ops st = Inr st'" "da_conflicts st' = []" "\<forall>x \<in> set ops. honest_op env x"
    and "distinct (map op_key ops)" "rows_inv (da_store st)" "text_ids (da_store st)"
  shows "(\<forall>x \<in> set ops. settled_op x (da_store st')) \<and> rows_inv (da_store st') \<and> text_ids (da_store st')
     \<and> (\<forall>m. m \<notin> op_key ` set ops \<longrightarrow> get_memory m (da_store st') = get_memory m (da_store st))
     \<and> length (da_statuses st') + da_skipped st' = length ops + (length (da_statuses st) + da_skipped st)
     \<and> da_store st' = (da_store st)\<lparr>st_memories := st_memories (da_store st')\<rparr>"
  using assms
proof (induction ops arbitrary: st)
  case (Cons x ops)
  then obtain st1 where s: "apply_delta_op env e x st = Inr st1" "fold_res (apply_delta_op env e) ops st1 = Inr st'"
    by (auto simp: rbind_eq_Inr)
  have n: "da_conflicts st1 = da_conflicts st" "da_conflicts st1 = []"
    using apply_operation_grows [OF s(1)] run_grows [OF s(2)] Cons.prems(2) by auto
  have hx: "honest_op env x" using Cons.prems(3) by simp
  note o = operation_settles [OF s(1) n(1) hx Cons.prems(5,6)]
  have r: "rows_inv (da_store st1)" "text_ids (da_store st1)" "\<forall>x \<in> set ops. honest_op env x" "distinct (map op_key ops)"
    using o Cons.prems(3,4) by auto
  note ih = Cons.IH [OF s(2) Cons.prems(2) r(3,4,1,2)]
  have k: "op_key x \<notin> op_key ` set ops" using Cons.prems(4) by simp
  have "get_memory (op_key x) (da_store st') = get_memory (op_key x) (da_store st1)" using ih k by blast
  then have "settled_op x (da_store st')" using o by (simp add: settled_op_def present_print_def)
  moreover have "da_store st' = (da_store st)\<lparr>st_memories := st_memories (da_store st')\<rparr>"
  proof -
    have "da_store st1 = (da_store st)\<lparr>st_memories := st_memories (da_store st1)\<rparr>" using o by blast
    moreover have "da_store st' = (da_store st1)\<lparr>st_memories := st_memories (da_store st')\<rparr>" using ih by blast
    ultimately show ?thesis by (cases "da_store st"; cases "da_store st1"; cases "da_store st'") simp
  qed
  moreover have "get_memory m (da_store st') = get_memory m (da_store st)" if "m \<notin> op_key ` set (x # ops)" for m
    using ih o that by simp
  moreover have "length (da_statuses st') + da_skipped st' = length (x # ops) + (length (da_statuses st) + da_skipped st)"
    using ih o by simp
  ultimately show ?case using ih by simp
qed simp

text \<open>Settled operations are skipped, whatever the environment of the run.\<close>

lemma settled_skips:
  assumes "\<forall>x \<in> set ops. settled_op x (da_store st) \<and> is_str (dget (snd x) ''record_id'') \<and> is_str (dget (snd x) ''resulting_fingerprint'')"
  shows "fold_res (apply_delta_op env e) ops st = Inr (st\<lparr>da_skipped := length ops + da_skipped st\<rparr>)"
  using assms
proof (induction ops arbitrary: st)
  case (Cons x ops)
  obtain i fp where x: "dget (snd x) ''record_id'' = JStr i" "dget (snd x) ''resulting_fingerprint'' = JStr fp"
    using Cons.prems by (cases "dget (snd x) ''record_id''"; cases "dget (snd x) ''resulting_fingerprint''") auto
  have "op_verdict e i (snd x) (Some fp) = SkipOp" by (simp add: op_verdict_def x Let_def)
  then have "apply_delta_op env e x st = Inr (st\<lparr>da_skipped := Suc (da_skipped st)\<rparr>)"
    using Cons.prems x by (simp add: apply_delta_op_def Let_def settled_op_def op_key_def op_print_def str_of_def)
  then show ?case using Cons by simp
qed simp

section \<open>Applying a delta twice\<close>

lemma finished_apply:
  assumes "finish_apply env d st db = Inr (db', r)"
  shows "st_memories (sd_store db') = st_memories (da_store st)" "\<exists>base b print. delta_base_id (vd_manifest d) = Inr base
     \<and> text_arg base = Inr b \<and> opt_text_arg (dget (vd_manifest d) ''resulting_state_fingerprint'') = Inr print"
    "ap_skipped r = da_skipped st" "ap_applied r = length (da_statuses st)"
proof -
  obtain base b print p s e where f: "delta_base_id (vd_manifest d) = Inr base" "text_arg base = Inr b"
    "opt_text_arg (dget (vd_manifest d) ''resulting_state_fingerprint'') = Inr print"
    "append_event (dn_event_id env) (dn_now env) ''sync.applied'' None ''sync'' p None (da_store st) = Inr (s, e)" "sd_store db' = s"
    "ap_skipped r = da_skipped st" "ap_applied r = length (da_statuses st)"
    using assms unfolding finish_apply_def Let_def rbind_eq_Inr delta_db_def record_sync_checkpoint_def by fastforce
  show "st_memories (sd_store db') = st_memories (da_store st)" using append_event_frame(6) [OF f(4)] f(5) by simp
  show "\<exists>base b print. delta_base_id (vd_manifest d) = Inr base
     \<and> text_arg base = Inr b \<and> opt_text_arg (dget (vd_manifest d) ''resulting_state_fingerprint'') = Inr print" using f by blast
  show "ap_skipped r = da_skipped st" "ap_applied r = length (da_statuses st)" using f by simp_all
qed

lemma sync_event_total:
  assumes "n \<notin> ev_id ` set (st_events s)"
  shows "\<exists>s' e. append_event n now ''sync.applied'' None ''sync'' p None s = Inr (s', e)"
  using assms by (simp add: append_event_def stored_payload_def RECONSTRUCTING_EVENT_TYPES_def append_row_def Let_def)

lemma finish_total:
  assumes "delta_base_id (vd_manifest d) = Inr base" "text_arg base = Inr b"
    and "opt_text_arg (dget (vd_manifest d) ''resulting_state_fingerprint'') = Inr print"
    and "dn_event_id env \<notin> ev_id ` set (st_events (da_store st))"
  shows "\<exists>db' r. finish_apply env d st db = Inr (db', r)"
proof -
  obtain s e where "append_event (dn_event_id env) (dn_now env) ''sync.applied'' None ''sync''
      (JObj (sync_receipt base (str_or_empty (vd_entry d) ''sha256'') (length (da_statuses st)) (da_skipped st)
        (dget (vd_manifest d) ''resulting_state_fingerprint''))) None (da_store st) = Inr (s, e)"
    using sync_event_total [OF assms(4)] by blast
  then show ?thesis using assms(1-3)
    by (simp add: finish_apply_def Let_def delta_db_def record_sync_checkpoint_def)
qed

text \<open>C17. Delivering a delta of honest operations twice changes nothing the second time. Let every operation of a verified
  delta say what it does, so that its record has the id it names and, stored, the fingerprint it promises, and let the
  ids of the operations differ; the reader checks neither. Once they have been applied, any later application to the
  result, under whatever embedder, skips every one of them, applies none and leaves the rows as they are.
\<close>

theorem delta_idempotent:
  assumes "apply_verified env fids d db = Inr (db1, r1)" "traverse parse_operation (vd_lines d) = Inr ops"
    and "length fids = length ops" "list_all (honest_op env) (zip fids ops)" "distinct (map op_key (zip fids ops))"
    and "store_inv (sd_store db)" "text_ids (sd_store db)"
    and "length fids' = length ops" "dn_event_id env' \<notin> ev_id ` set (st_events (sd_store db1))"
  shows "\<exists>db2 r2. apply_verified env' fids' d db1 = Inr (db2, r2) \<and> ap_applied r2 = 0
     \<and> ap_skipped r2 = length (vd_lines d) \<and> st_memories (sd_store db2) = st_memories (sd_store db1)"
proof -
  let ?x = "zip fids ops" and ?y = "zip fids' ops"
  obtain st where st: "run_operations env ?x (sd_store db) = Inr st" "da_conflicts st = []" "finish_apply env d st db = Inr (db1, r1)"
    using assms(1,2) by (auto simp: apply_verified_def rbind_eq_Inr split: if_splits)
  have "\<forall>x \<in> set ?x. honest_op env x" using assms(4) by (simp add: list_all_iff)
  with run_settles [OF st(1) [unfolded run_operations_def] st(2) _ assms(5)] assms(6,7)
  have settled: "\<forall>x \<in> set ?x. settled_op x (da_store st)" and honest: "\<forall>x \<in> set ?x. honest_op env x"
    by (simp_all add: store_inv_def)
  note f = finished_apply [OF st(3)]
  have mem: "get_memory m (sd_store db1) = get_memory m (da_store st)" for m by (simp add: get_memory_def f(1))
  have ops: "snd ` set ?x = set ops" "snd ` set ?y = set ops"
    using arg_cong [OF map_snd_zip [OF assms(3)], of set] arg_cong [OF map_snd_zip [OF assms(8)], of set] by simp_all
  have done': "settled_op x (sd_store db1) \<and> is_str (dget (snd x) ''record_id'') \<and> is_str (dget (snd x) ''resulting_fingerprint'')"
    if "x \<in> set ?y" for x
  proof -
    have "snd x \<in> snd ` set ?x" using that ops by blast
    then obtain z where z: "z \<in> set ?x" "snd z = snd x" by force
    have "honest_op env z" "settled_op z (da_store st)" using z settled honest by blast+
    then show ?thesis using z(2) by (auto simp: honest_op_def settled_op_def op_key_def op_print_def present_print_def mem)
  qed
  note run = settled_skips [of ?y "\<lparr>da_store = sd_store db1, da_conflicts = [], da_statuses = [], da_skipped = 0\<rparr>" env' "st_memories (sd_store db1) = []"]
  let ?st = "\<lparr>da_store = sd_store db1, da_conflicts = [], da_statuses = [], da_skipped = length ops\<rparr>"
  have r: "run_operations env' ?y (sd_store db1) = Inr ?st"
    using run done' assms(8) by (simp add: run_operations_def)
  obtain db2 r2 where fin: "finish_apply env' d ?st db1 = Inr (db2, r2)"
    using f(2) finish_total [of d _ _ _ env' ?st db1] assms(9) by (metis delta_state.select_convs(1))
  have "length (vd_lines d) = length ops" using assms(2) by (auto simp: traverse_Inr_iff list_all2_lengthD)
  with finished_apply [OF fin] r fin show ?thesis by (auto simp: apply_verified_def assms(2))
qed

end
