(* ===== verification/DeltaRoundtrip.thy ===== *)
theory DeltaRoundtrip
  imports DeltaFacts
begin

text \<open>
  Production followed by application: a target that holds the image of the base package ends with every record of
  the source, by id and fingerprint, and keeps what the source has removed.
\<close>

section \<open>What the producer writes\<close>

definition op_record_id :: "dict \<Rightarrow> string" where
  "op_record_id op = str_of (dget op ''record_id'')"

definition expected_image :: "(string \<times> string) list \<Rightarrow> string \<Rightarrow> json" where
  "expected_image base i = (case map_of base i of None \<Rightarrow> JNull | Some fp \<Rightarrow> JStr fp)"

text \<open>The operations written so far are those of the records that differ from the base.\<close>

definition produced_for :: "(string \<times> string) list \<Rightarrow> produced \<Rightarrow> bool" where
  "produced_for base p =
     (length (pd_ids p) = length (pd_prints p) \<and> length (pd_ops p) = pd_added p + pd_changed p
      \<and> (\<forall>op \<in> set (pd_ops p). \<exists>i fp n. op = delta_op i fp (expected_image base i) n \<and> (i, fp) \<in> set (zip (pd_ids p) (pd_prints p))
           \<and> map_of base i \<noteq> Some fp)
      \<and> (\<forall>(i, fp) \<in> set (zip (pd_ids p) (pd_prints p)). map_of base i = Some fp
           \<or> (\<exists>op \<in> set (pd_ops p). op_record_id op = i \<and> dget op ''resulting_fingerprint'' = JStr fp))
      \<and> (distinct (pd_ids p) \<longrightarrow> distinct (map op_record_id (pd_ops p))))"

lemma produced_opE:
  assumes "produced_for base p" "op \<in> set (pd_ops p)"
  obtains i fp n where "op = delta_op i fp (expected_image base i) n" "(i, fp) \<in> set (zip (pd_ids p) (pd_prints p))"
    "map_of base i \<noteq> Some fp"
proof -
  from assms(1) have "\<forall>op \<in> set (pd_ops p). \<exists>i fp n. op = delta_op i fp (expected_image base i) n
      \<and> (i, fp) \<in> set (zip (pd_ids p) (pd_prints p)) \<and> map_of base i \<noteq> Some fp" unfolding produced_for_def by (elim conjE)
  from bspec [OF this assms(2)] that show ?thesis by blast
qed

lemma produced_printD:
  assumes "produced_for base p" "(i, fp) \<in> set (zip (pd_ids p) (pd_prints p))"
  shows "map_of base i = Some fp \<or> (\<exists>op \<in> set (pd_ops p). op_record_id op = i \<and> dget op ''resulting_fingerprint'' = JStr fp)"
proof -
  from assms(1) have "\<forall>(i, fp) \<in> set (zip (pd_ids p) (pd_prints p)). map_of base i = Some fp
      \<or> (\<exists>op \<in> set (pd_ops p). op_record_id op = i \<and> dget op ''resulting_fingerprint'' = JStr fp)" unfolding produced_for_def by (elim conjE)
  from bspec [OF this assms(2)] show ?thesis by simp
qed

lemma delta_op_get:
  "dget (delta_op i fp e n) ''record_id'' = JStr i" "dget (delta_op i fp e n) ''resulting_fingerprint'' = JStr fp"
  "dget (delta_op i fp e n) ''expected_pre_fingerprint'' = e" "dget (delta_op i fp e n) ''record'' = JObj n"
  "dget (delta_op i fp e n) ''op_id'' = JStr (delta_op_id i fp)" "op_record_id (delta_op i fp e n) = i"
  by (simp_all add: delta_op_def op_record_id_def str_of_def)

lemma produced_step:
  assumes "produce_row base row p = Inr q" "produced_for base p"
  shows "produced_for base q"
proof -
  obtain n fp where n: "normalize_record (export_row row) ''swap'' [] = Inr n" "record_fingerprint (nr_fields n) [] = Inr fp"
    using assms(1) by (auto simp: produce_row_def rbind_eq_Inr delta_rec_def)
  let ?i = "record_id_of (nr_fields n)"
  let ?op = "delta_op ?i fp (expected_image base ?i) (nr_fields n)"
  have q: "pd_ids q = pd_ids p @ [?i]" "pd_prints q = pd_prints p @ [fp]"
    "pd_added q + pd_changed q = (if map_of base ?i = Some fp then pd_added p + pd_changed p else Suc (pd_added p + pd_changed p))"
    "pd_ops q = (if map_of base ?i = Some fp then pd_ops p else pd_ops p @ [?op])"
    using assms(1) n
    by (auto simp: produce_row_def delta_rec_def Let_def add_op_def rbind_eq_Inr expected_image_def split: option.splits if_splits)
  have len: "length (pd_ids p) = length (pd_prints p)" using assms(2) by (simp add: produced_for_def)
  have zip: "set (zip (pd_ids q) (pd_prints q)) = insert (?i, fp) (set (zip (pd_ids p) (pd_prints p)))"
    using len by (simp add: q(1,2))
  have ids: "op_record_id op \<in> set (pd_ids p)" if op: "op \<in> set (pd_ops p)" for op
  proof -
    obtain i f m where "op = delta_op i f (expected_image base i) m" "(i, f) \<in> set (zip (pd_ids p) (pd_prints p))"
      using produced_opE [OF assms(2) op] by blast
    then show ?thesis by (auto simp: delta_op_get dest: set_zip_leftD)
  qed
  have "\<forall>op \<in> set (pd_ops q). \<exists>i f m. op = delta_op i f (expected_image base i) m \<and> (i, f) \<in> set (zip (pd_ids q) (pd_prints q))
      \<and> map_of base i \<noteq> Some f"
  proof
    fix op assume "op \<in> set (pd_ops q)"
    then consider "op \<in> set (pd_ops p)" | "op = ?op" "map_of base ?i \<noteq> Some fp" by (auto simp: q(4) split: if_splits)
    then show "\<exists>i f m. op = delta_op i f (expected_image base i) m \<and> (i, f) \<in> set (zip (pd_ids q) (pd_prints q)) \<and> map_of base i \<noteq> Some f"
    proof cases
      case 1
      obtain i f m where "op = delta_op i f (expected_image base i) m" "(i, f) \<in> set (zip (pd_ids p) (pd_prints p))" "map_of base i \<noteq> Some f"
        using produced_opE [OF assms(2) 1] by blast
      then show ?thesis using zip by blast
    qed (use zip in blast)
  qed
  moreover have "\<forall>(i, f) \<in> set (zip (pd_ids q) (pd_prints q)). map_of base i = Some f
      \<or> (\<exists>op \<in> set (pd_ops q). op_record_id op = i \<and> dget op ''resulting_fingerprint'' = JStr f)"
  proof clarify
    fix i f
    assume "(i, f) \<in> set (zip (pd_ids q) (pd_prints q))" and no: "\<not> (\<exists>op \<in> set (pd_ops q). op_record_id op = i
      \<and> dget op ''resulting_fingerprint'' = JStr f)"
    then consider "(i, f) \<in> set (zip (pd_ids p) (pd_prints p))" | "i = ?i" "f = fp" by (auto simp: zip)
    then show "map_of base i = Some f"
    proof cases
      case 1
      have "set (pd_ops p) \<subseteq> set (pd_ops q)" by (auto simp: q(4))
      with produced_printD [OF assms(2) 1] no show ?thesis by blast
    next
      case 2
      with no show ?thesis by (auto simp: q(4) delta_op_get split: if_splits)
    qed
  qed
  moreover have "distinct (map op_record_id (pd_ops q))" if "distinct (pd_ids q)"
  proof -
    have "?i \<notin> op_record_id ` set (pd_ops p)" using that ids by (auto simp: q(1))
    then show ?thesis using that assms(2) by (auto simp: q(1,4) produced_for_def delta_op_get)
  qed
  ultimately show ?thesis using assms(2) q by (auto simp: produced_for_def)
qed

lemma produced_rows:
  assumes "produce_rows base s = Inr p"
  shows "produced_for base p"
proof -
  have "fold_res (produce_row base) rows p0 = Inr q \<Longrightarrow> produced_for base p0 \<Longrightarrow> produced_for base q" for rows p0 q
    by (induction rows arbitrary: p0) (auto simp: rbind_eq_Inr dest: produced_step)
  then show ?thesis using assms unfolding produce_rows_def by (auto simp: produced_for_def)
qed

section \<open>A run that only writes\<close>

text \<open>No row with the content of a written one sits under another id, in the target or among the written rows.\<close>

definition no_clash :: "delta_env \<Rightarrow> (string \<times> dict) list \<Rightarrow> dict list \<Rightarrow> bool" where
  "no_clash env ops rows = list_all (\<lambda>x. case op_row env x of
       None \<Rightarrow> True
     | Some r \<Rightarrow> list_all (\<lambda>y. same_identity r y \<longrightarrow> row_key y = row_key r) rows) ops"

lemma no_clashD: "no_clash env ops rows \<Longrightarrow> x \<in> set ops \<Longrightarrow> op_row env x = Some r \<Longrightarrow> y \<in> set rows \<Longrightarrow> same_identity r y
    \<Longrightarrow> row_key y = row_key r"
  by (auto simp: no_clash_def list_all_iff split: option.splits)

lemma no_clashI:
  assumes "\<And>x r y. x \<in> set ops \<Longrightarrow> op_row env x = Some r \<Longrightarrow> y \<in> set rows \<Longrightarrow> same_identity r y \<Longrightarrow> row_key y = row_key r"
  shows "no_clash env ops rows"
  using assms by (simp add: no_clash_def list_all_iff split: option.splits)

lemma no_clash_subset: "no_clash env ops rows \<Longrightarrow> set rows' \<subseteq> set rows \<Longrightarrow> no_clash env ops rows'"
  by (rule no_clashI) (blast dest: no_clashD)

lemma no_clash_cons:
  assumes "no_clash env (x # ops) rows" "no_clash env (x # ops) (List.map_filter (op_row env) (x # ops))" "op_row env x = Some row"
  shows "no_clash env ops (row # rows)" "no_clash env ops (List.map_filter (op_row env) ops)"
proof -
  have m: "List.map_filter (op_row env) (x # ops) = row # List.map_filter (op_row env) ops"
    by (simp add: List.map_filter_def assms(3))
  show "no_clash env ops (row # rows)"
  proof (rule no_clashI)
    fix z r y
    assume z: "z \<in> set ops" "op_row env z = Some r" "y \<in> set (row # rows)" "same_identity r y"
    have z': "z \<in> set (x # ops)" using z(1) by simp
    show "row_key y = row_key r"
    proof (cases "y = row")
      case True
      show ?thesis by (rule no_clashD [OF assms(2) z' z(2) _ z(4)]) (subst m, simp add: True)
    next
      case False
      then have "y \<in> set rows" using z(3) by simp
      then show ?thesis by (rule no_clashD [OF assms(1) z' z(2) _ z(4)])
    qed
  qed
  show "no_clash env ops (List.map_filter (op_row env) ops)"
  proof (rule no_clashI)
    fix z r y
    assume z: "z \<in> set ops" "op_row env z = Some r" "y \<in> set (List.map_filter (op_row env) ops)" "same_identity r y"
    have z': "z \<in> set (x # ops)" using z(1) by simp
    show "row_key y = row_key r" by (rule no_clashD [OF assms(2) z' z(2) _ z(4)]) (subst m, use z(3) in simp)
  qed
qed

lemma written_rows:
  assumes "op_row env (fid, op) = Some row"
    and "\<And>y. y \<in> set (st_memories (da_store st)) \<Longrightarrow> same_identity row y \<Longrightarrow> row_key y = JStr rid"
  shows "\<exists>st'. write_op env fid rid op st = Inr st' \<and> da_conflicts st' = da_conflicts st
     \<and> st_memories (da_store st') = filter (\<lambda>x. \<not> conflicting row x) (st_memories (da_store st)) @ [row]"
proof -
  obtain raw n v where n: "dget op ''record'' = JObj raw" "normalize_record raw ''delta'' fid = Inr n" "validate_record n = Inr []"
    "resolve_embedding (dn_unit env) (dn_embedder env) (nr_fields n) = Inr v"
    and row: "row = inserted_row (dn_row_now env) (record_row (nr_fields n) v)"
    using assms(1) by (auto simp: op_row_def split: json.splits sum.splits if_splits)
  let ?vals = "record_row (nr_fields n) v" and ?s = "da_store st"
  obtain ns h where f: "dget ?vals ''namespace'' = JStr ns" "dget ?vals ''content_hash'' = JStr h" "h \<noteq> []"
    using stored_identity_fields(1) [OF n(2)] by blast
  have ident: "\<exists>t. dget ?vals ''identifier'' = JStr t"
    using n(2) by (auto simp: normalize_record_def Let_def rbind_eq_Inr record_row_get)
  have "stored_elsewhere rid ?vals ?s = None"
  proof (cases "find (\<lambda>r. dget r ''namespace'' = JStr ns \<and> dget r ''content_hash'' = JStr h) (st_memories ?s)")
    case None
    then show ?thesis by (simp add: stored_elsewhere_def find_by_namespace_and_hash_def f str_of_def)
  next
    case (Some r)
    then have r: "r \<in> set (st_memories ?s)" "dget r ''namespace'' = JStr ns" "dget r ''content_hash'' = JStr h"
      by (auto simp: find_Some_iff)
    have "same_identity row r"
      using r f by (simp add: row same_identity_def indexed_def dget_inserted_row MEMORY_COLUMNS_def)
    then have "row_key r = JStr rid" using assms(2) r(1) by simp
    then show ?thesis using Some by (simp add: stored_elsewhere_def find_by_namespace_and_hash_def f str_of_def row_key_def py_str_def)
  qed
  moreover have "insert_row (dn_row_now env) ?vals ?s
      = Inr (?s\<lparr>st_memories := filter (\<lambda>x. \<not> conflicting row x) (st_memories ?s) @ [row]\<rparr>)"
    using ident by (auto simp: insert_row_def Let_def row dget_inserted_row MEMORY_COLUMNS_def)
  ultimately have "write_op env fid rid op st = Inr (st\<lparr>da_store := ?s\<lparr>st_memories :=
      filter (\<lambda>x. \<not> conflicting row x) (st_memories ?s) @ [row]\<rparr>, da_statuses := da_statuses st @ [rs_status v]\<rparr>)"
    using n by (simp add: write_op_def delta_rec_def delta_py_def delta_db_def Let_def)
  then show ?thesis by auto
qed

lemma write_succeeds:
  assumes "op_row env (fid, op) = Some row" "row_key row = JStr rid"
    and "\<And>y. y \<in> set (st_memories (da_store st)) \<Longrightarrow> same_identity row y \<Longrightarrow> row_key y = row_key row"
  shows "\<exists>st'. write_op env fid rid op st = Inr st' \<and> da_conflicts st' = da_conflicts st
     \<and> set (st_memories (da_store st')) \<subseteq> insert row (set (st_memories (da_store st)))"
proof -
  have "y \<in> set (st_memories (da_store st)) \<Longrightarrow> same_identity row y \<Longrightarrow> row_key y = JStr rid" for y using assms(2,3) by simp
  then obtain st' where "write_op env fid rid op st = Inr st'" "da_conflicts st' = da_conflicts st"
    "st_memories (da_store st') = filter (\<lambda>x. \<not> conflicting row x) (st_memories (da_store st)) @ [row]"
    using written_rows [OF assms(1), of st rid] by blast
  then show ?thesis by auto
qed

lemma run_writes:
  assumes "\<forall>x \<in> set ops. honest_op env x" "distinct (map op_key ops)" "rows_inv (da_store st)" "text_ids (da_store st)"
    and "\<forall>x \<in> set ops. \<exists>c. present_print (op_key x) (da_store st) = Inr c \<and> op_verdict e (op_key x) (snd x) c = WriteOp"
    and "no_clash env ops (st_memories (da_store st))" "no_clash env ops (List.map_filter (op_row env) ops)"
  shows "\<exists>st'. fold_res (apply_delta_op env e) ops st = Inr st' \<and> da_conflicts st' = da_conflicts st \<and> da_skipped st' = da_skipped st"
  using assms
proof (induction ops arbitrary: st)
  case (Cons x ops)
  obtain row where h: "op_row env x = Some row" "row_key row = JStr (op_key x)" "dget (snd x) ''record_id'' = JStr (op_key x)"
    using Cons.prems(1) by (metis honest_opE list.set_intros(1))
  obtain c where c: "present_print (op_key x) (da_store st) = Inr c" "op_verdict e (op_key x) (snd x) c = WriteOp"
    using Cons.prems(5) by auto
  have x: "op_row env (fst x, snd x) = Some row" using h(1) by simp
  have cl: "same_identity row y \<Longrightarrow> row_key y = row_key row" if "y \<in> set (st_memories (da_store st))" for y
    using Cons.prems(6) that h(1) by (simp add: no_clash_def list_all_iff)
  obtain st1 where w: "write_op env (fst x) (op_key x) (snd x) st = Inr st1" "da_conflicts st1 = da_conflicts st"
    "set (st_memories (da_store st1)) \<subseteq> insert row (set (st_memories (da_store st)))"
    using write_succeeds [OF x h(2) cl] by blast
  note f = written_op [OF w(1,2) Cons.prems(3,4) x h(2)]
  have a: "apply_delta_op env e x st = Inr st1" by (simp add: apply_delta_op_def Let_def h(3) c w(1))
  have k: "op_key x \<notin> op_key ` set ops" using Cons.prems(2) by simp
  have "\<exists>c. present_print (op_key z) (da_store st1) = Inr c \<and> op_verdict e (op_key z) (snd z) c = WriteOp" if "z \<in> set ops" for z
  proof -
    have "op_key z \<noteq> op_key x" using that k by (metis imageI)
    then have "present_print (op_key z) (da_store st1) = present_print (op_key z) (da_store st)"
      by (intro present_print_cong f(2))
    then show ?thesis using Cons.prems(5) that by simp
  qed
  note later = this
  have sub: "no_clash env ops (st_memories (da_store st1))" "no_clash env ops (List.map_filter (op_row env) ops)"
    using no_clash_subset [OF no_clash_cons(1) [OF Cons.prems(6,7) h(1)], of "st_memories (da_store st1)"] w(3)
      no_clash_cons(2) [OF Cons.prems(6,7) h(1)] by simp_all
  have rest: "\<forall>x \<in> set ops. honest_op env x" "distinct (map op_key ops)" using Cons.prems(1,2) by simp_all
  obtain st' where s: "fold_res (apply_delta_op env e) ops st1 = Inr st'" "da_conflicts st' = da_conflicts st1"
    "da_skipped st' = da_skipped st1"
    using Cons.IH [OF rest f(3,4) ballI sub] later by blast
  show ?case by (intro exI [of _ st']) (simp add: a s w(2) f(5))
qed simp

section \<open>The round trip\<close>

text \<open>The target holds the image of the base: the same ids, with the same fingerprints.\<close>

definition holds_image :: "(string \<times> string) list \<Rightarrow> store \<Rightarrow> bool" where
  "holds_image base t = (\<forall>i. present_print i t = Inr (map_of base i))"

text \<open>A target with that image, a delta of honest operations, and no clash of content: everything is written.\<close>

lemma delta_reproduces:
  assumes "produce_rows base s = Inr p" "distinct (pd_ids p)" "holds_image base t" "rows_inv t" "text_ids t"
    and "length fids = length (pd_ops p)" "list_all (honest_op env) (zip fids (pd_ops p))"
    and "no_clash env (zip fids (pd_ops p)) (st_memories t)"
    and "no_clash env (zip fids (pd_ops p)) (List.map_filter (op_row env) (zip fids (pd_ops p)))"
  shows "\<exists>st. run_operations env (zip fids (pd_ops p)) t = Inr st \<and> da_conflicts st = [] \<and> da_skipped st = 0
     \<and> length (da_statuses st) = pd_added p + pd_changed p
     \<and> list_all (\<lambda>(i, fp). present_print i (da_store st) = Inr (Some fp)) (zip (pd_ids p) (pd_prints p))
     \<and> (\<forall>m. m \<notin> set (pd_ids p) \<longrightarrow> get_memory m (da_store st) = get_memory m t)"
proof -
  let ?ops = "zip fids (pd_ops p)" and ?e = "st_memories t = []"
  let ?st = "\<lparr>da_store = t, da_conflicts = [], da_statuses = [], da_skipped = 0\<rparr>"
  have pf: "produced_for base p" by (rule produced_rows [OF assms(1)])
  have snd: "map snd ?ops = pd_ops p" using assms(6) by simp
  have keys: "map op_key ?ops = map op_record_id (pd_ops p)"
    by (subst (2) snd [symmetric]) (simp add: op_key_def op_record_id_def)
  have dist: "distinct (map op_key ?ops)" using pf assms(2) by (simp only: keys produced_for_def)
  have honest: "\<forall>x \<in> set ?ops. honest_op env x" using assms(7) by (simp add: list_all_iff)
  have mem: "x \<in> set ?ops \<Longrightarrow> snd x \<in> set (pd_ops p)" for x by (metis snd image_eqI list.set_map)
  have writes: "\<exists>c. present_print (op_key x) t = Inr c \<and> op_verdict ?e (op_key x) (snd x) c = WriteOp" if x: "x \<in> set ?ops" for x
  proof -
    obtain i fp n where op: "snd x = delta_op i fp (expected_image base i) n" "map_of base i \<noteq> Some fp"
      using produced_opE [OF pf mem [OF x]] by blast
    have "op_verdict ?e i (snd x) (map_of base i) = WriteOp"
      using op(2) by (auto simp: op(1) op_verdict_def delta_op_get expected_image_def Let_def split: option.splits)
    moreover have "op_key x = i" by (simp add: op_key_def op(1) delta_op_get str_of_def)
    ultimately show ?thesis using assms(3) by (simp add: holds_image_def)
  qed
  obtain st where st: "fold_res (apply_delta_op env ?e) ?ops ?st = Inr st" "da_conflicts st = []" "da_skipped st = 0"
    using run_writes [of ?ops env ?st ?e] honest dist assms(4,5,8,9) writes by auto
  have "rows_inv (da_store ?st)" "text_ids (da_store ?st)" using assms(4,5) by simp_all
  note fin = run_settles [OF st(1,2) honest dist this]
  have frame: "get_memory m (da_store st) = get_memory m t" if "m \<notin> op_key ` set ?ops" for m using fin that by simp
  have "present_print i (da_store st) = Inr (Some fp)" if z: "(i, fp) \<in> set (zip (pd_ids p) (pd_prints p))" for i fp
  proof (cases "i \<in> op_key ` set ?ops")
    case False
    have "\<not> (\<exists>op \<in> set (pd_ops p). op_record_id op = i)"
      using False keys by (metis imageI list.set_map)
    then have "map_of base i = Some fp" using produced_printD [OF pf z] by blast
    then show ?thesis using present_print_cong [OF frame [OF False]] assms(3) by (simp add: holds_image_def)
  next
    case True
    then obtain x where x: "x \<in> set ?ops" "op_key x = i" by auto
    obtain j f n where op: "snd x = delta_op j f (expected_image base j) n" "(j, f) \<in> set (zip (pd_ids p) (pd_prints p))"
      using produced_opE [OF pf mem [OF x(1)]] by blast
    have j: "j = i" using x(2) by (simp add: op_key_def op(1) delta_op_get str_of_def)
    have "f = fp" using op(2) z assms(2) j by (metis map_of_eq_Some_iff map_fst_zip pf produced_for_def option.inject)
    then have "op_print x = fp" by (simp add: op_print_def op(1) delta_op_get str_of_def)
    then show ?thesis using fin x by (auto simp: settled_op_def)
  qed
  moreover have "m \<notin> op_key ` set ?ops" if "m \<notin> set (pd_ids p)" for m
  proof
    assume "m \<in> op_key ` set ?ops"
    then obtain x where x: "x \<in> set ?ops" "op_key x = m" by auto
    obtain j f n where "snd x = delta_op j f (expected_image base j) n" "(j, f) \<in> set (zip (pd_ids p) (pd_prints p))"
      using produced_opE [OF pf mem [OF x(1)]] by blast
    then show False using that x(2) by (auto simp: op_key_def delta_op_get str_of_def dest: set_zip_leftD)
  qed
  moreover have "length (da_statuses st) = pd_added p + pd_changed p"
    using fin st(3) assms(6) pf by (simp add: produced_for_def)
  ultimately show ?thesis using st frame by (auto simp: run_operations_def list_all_iff)
qed

end
