(* ===== verification/DeltaCarry.thy ===== *)
theory DeltaCarry
  imports DeltaRoundtrip
begin

text \<open>
  The operations a producer writes are honest: the record, stored by the reader, has the id and the fingerprint the
  operation names. What the reader does with an operation whose record has another id, and concrete deltas.
\<close>

section \<open>Produced operations\<close>

lemma normalize_with_id:
  assumes "normalize_record raw ds fid = Inr n" "dget (nr_fields n) ''id'' = JStr i" "i \<noteq> fid"
  shows "normalize_record raw ds fid' = Inr n"
  using assms by (auto simp: normalize_record_def Let_def rbind_eq_Inr canonical_fields_def)

lemma normalized_id: "normalize_record raw ds fid = Inr n \<Longrightarrow> dget (nr_fields n) ''id'' = JStr (record_id_of (nr_fields n))"
  by (auto simp: normalize_record_def Let_def rbind_eq_Inr record_id_of_def str_of_def)

lemma normalize_again:
  assumes "normalize_record raw ds [] = Inr n" "nr_issues n = []" "record_id_of (nr_fields n) \<noteq> []"
  shows "normalize_record (nr_fields n) ds' fid' = Inr n"
proof -
  have "normalize_record raw ds ''x'' = Inr n \<or> record_id_of (nr_fields n) = []"
    using normalize_with_id [OF assms(1) normalized_id [OF assms(1)]] by blast
  then show ?thesis using assms(2,3) by (auto intro: normalize_idempotent [of raw ds "''x''"])
qed

lemma produced_honest:
  assumes "normalize_record (export_row row) ''swap'' [] = Inr n" "nr_issues n = []" "validate_record n = Inr []"
    and "record_id_of (nr_fields n) \<noteq> []" "complete_fields (nr_fields n)" "storable_fields (nr_fields n)"
    and "validate_metadata (sort_json (dget (nr_fields n) ''metadata'')) None = Inr ()"
    and "record_fingerprint (nr_fields n) [] = Inr fp" "resolve_embedding (dn_unit env) (dn_embedder env) (nr_fields n) = Inr v"
  shows "honest_op env (fid, delta_op (record_id_of (nr_fields n)) fp expected (nr_fields n))"
proof -
  let ?row = "inserted_row (dn_row_now env) (record_row (nr_fields n) v)"
  note again = normalize_again [OF assms(1,2,4)]
  have "op_row env (fid, delta_op (record_id_of (nr_fields n)) fp expected (nr_fields n)) = Some ?row"
    by (simp add: op_row_def delta_op_get again assms(3,9))
  moreover have "row_key ?row = JStr (record_id_of (nr_fields n))"
    by (simp add: record_row_get normalized_id [OF assms(1)])
  moreover have "record_fingerprint ?row [] = record_fingerprint (nr_fields n) []"
    by (simp only: stored_print [OF assms(1,2,5,6,7)] record_fingerprint_def [of "nr_fields n"] again rbind_simps)
  ultimately show ?thesis by (simp add: honest_op_def op_key_def op_print_def delta_op_get str_of_def assms(8))
qed

text \<open>C18. What a delta carries is what arrives: the operation produced for a row is honest at every receiver, whatever its
  embedder makes of the vector. The record of the operation, normalised again and stored, has the id and the
  fingerprint that the operation names, so that compare and swap can rely on the fingerprints of the producer.
\<close>

theorem produced_op_honest:
  assumes "normalize_record (export_row row) ''swap'' [] = Inr n" "nr_issues n = []" "validate_record n = Inr []"
    and "record_id_of (nr_fields n) \<noteq> []" "complete_fields (nr_fields n)" "storable_fields (nr_fields n)"
    and "validate_metadata (sort_json (dget (nr_fields n) ''metadata'')) None = Inr ()"
    and "record_fingerprint (nr_fields n) [] = Inr fp" "resolve_embedding (dn_unit env) (dn_embedder env) (nr_fields n) = Inr v"
  shows "honest_op env (fid, delta_op (record_id_of (nr_fields n)) fp expected (nr_fields n))"
  by (rule produced_honest [OF assms])

section \<open>The round trip of a store\<close>

text \<open>
  A row a delta can carry: its id, namespace and content hash are text, the hash without blanks at its ends, and its
  record normalises and validates without issues, with an id, a vector the receiver can resolve, and text the
  modelled reader reads back.
\<close>

definition carried_row :: "delta_env \<Rightarrow> dict \<Rightarrow> bool" where
  "carried_row env row =
     (is_str (dget row ''id'') \<and> is_str (dget row ''namespace'')
      \<and> (case dget row ''content_hash'' of JStr h \<Rightarrow> h \<noteq> [] \<and> strip h = h | _ \<Rightarrow> False)
      \<and> (case normalize_record (export_row row) ''swap'' [] of
           Inl e \<Rightarrow> False
         | Inr n \<Rightarrow> nr_issues n = [] \<and> validate_record n = Inr [] \<and> record_id_of (nr_fields n) \<noteq> []
             \<and> complete_fields (nr_fields n) \<and> storable_fields (nr_fields n)
             \<and> validate_metadata (sort_json (dget (nr_fields n) ''metadata'')) None = Inr ()
             \<and> \<not> isl (resolve_embedding (dn_unit env) (dn_embedder env) (nr_fields n))))"

lemma export_row_get: "c \<noteq> ''embedding'' \<Longrightarrow> dget (export_row row) c = dget row c"
  by (simp add: export_row_def dget_def update_conv' split: json.splits)

lemma normalized_columns:
  assumes "normalize_record raw ds fid = Inr n"
  shows "dget (nr_fields n) ''namespace'' = JStr (as_str (dget raw ''namespace'') [])"
    "dget (nr_fields n) ''id'' = JStr (if as_str (dget raw ''id'') [] = [] then fid else as_str (dget raw ''id'') [])"
    "strip (as_str (dget raw ''content_hash'') []) \<noteq> [] \<Longrightarrow>
       dget (nr_fields n) ''content_hash'' = JStr (strip (as_str (dget raw ''content_hash'') []))"
  using assms by (auto simp: normalize_record_def Let_def rbind_eq_Inr canonical_fields_def content_hash_of_def of_py_def)

lemma carried_rowE:
  assumes "carried_row env row"
  obtains n v where "normalize_record (export_row row) ''swap'' [] = Inr n" "nr_issues n = []" "validate_record n = Inr []"
    "record_id_of (nr_fields n) \<noteq> []" "complete_fields (nr_fields n)" "storable_fields (nr_fields n)"
    "validate_metadata (sort_json (dget (nr_fields n) ''metadata'')) None = Inr ()"
    "resolve_embedding (dn_unit env) (dn_embedder env) (nr_fields n) = Inr v"
    "JStr (record_id_of (nr_fields n)) = dget row ''id''" "dget (nr_fields n) ''namespace'' = dget row ''namespace''"
    "dget (nr_fields n) ''content_hash'' = dget row ''content_hash''"
proof -
  obtain n where n: "normalize_record (export_row row) ''swap'' [] = Inr n"
    using assms by (cases "normalize_record (export_row row) ''swap'' []") (simp_all add: carried_row_def)
  note c = normalized_columns [OF n]
  obtain i where i: "dget row ''id'' = JStr i" using assms is_str_ex by (auto simp: carried_row_def)
  obtain x where x: "dget row ''namespace'' = JStr x" using assms is_str_ex by (auto simp: carried_row_def)
  obtain h where h: "dget row ''content_hash'' = JStr h" "h \<noteq> []" "strip h = h"
    using assms by (auto simp: carried_row_def split: json.splits)
  have r: "record_id_of (nr_fields n) \<noteq> []" using assms n by (simp add: carried_row_def)
  obtain v where v: "resolve_embedding (dn_unit env) (dn_embedder env) (nr_fields n) = Inr v"
    using assms n by (auto simp: carried_row_def isl_def) (meson sum.exhaust)
  have id: "JStr (record_id_of (nr_fields n)) = dget row ''id''"
    using r c(2) i by (auto simp: record_id_of_def str_of_def export_row_get as_str_JStr split: if_splits)
  show ?thesis
    by (rule that [OF n _ _ r _ _ _ v id])
      (use assms n c(1,3) x h in \<open>simp_all add: carried_row_def export_row_get as_str_JStr\<close>)
qed

lemma produced_source:
  assumes "produce_rows base s = Inr p" "op \<in> set (pd_ops p)"
  obtains row n fp e where "row \<in> set (iter_rows True s)" "normalize_record (export_row row) ''swap'' [] = Inr n"
    "record_fingerprint (nr_fields n) [] = Inr fp" "op = delta_op (record_id_of (nr_fields n)) fp e (nr_fields n)"
proof -
  let ?from = "\<lambda>rows op. \<exists>row \<in> set rows. \<exists>n fp e. normalize_record (export_row row) ''swap'' [] = Inr n
    \<and> record_fingerprint (nr_fields n) [] = Inr fp \<and> op = delta_op (record_id_of (nr_fields n)) fp e (nr_fields n)"
  have step: "op \<in> set (pd_ops p0) \<or> ?from [row] op" if "produce_row base row p0 = Inr q" "op \<in> set (pd_ops q)" for row p0 q
    using that by (fastforce simp: produce_row_def delta_rec_def Let_def add_op_def rbind_eq_Inr split: option.splits if_splits)
  have "fold_res (produce_row base) rows p0 = Inr q \<Longrightarrow> op \<in> set (pd_ops q) \<Longrightarrow> op \<in> set (pd_ops p0) \<or> ?from rows op" for rows p0 q
  proof (induction rows arbitrary: p0)
    case (Cons row rows)
    obtain p1 where "produce_row base row p0 = Inr p1" "fold_res (produce_row base) rows p1 = Inr q"
      using Cons.prems(1) by (auto simp: rbind_eq_Inr)
    then show ?case using Cons.IH [of p1] Cons.prems(2) step [of row p0 p1] by auto
  qed simp
  from this [of "iter_rows True s"] assms show ?thesis using that unfolding produce_rows_def by fastforce
qed

lemma produced_ids:
  assumes "produce_rows base s = Inr p" "list_all (carried_row env) (iter_rows True s)"
  shows "map JStr (pd_ids p) = map (\<lambda>r. dget r ''id'') (iter_rows True s)"
proof -
  have "fold_res (produce_row base) rows p0 = Inr q \<Longrightarrow> list_all (carried_row env) rows
      \<Longrightarrow> map JStr (pd_ids q) = map JStr (pd_ids p0) @ map (\<lambda>r. dget r ''id'') rows" for rows p0 q
  proof (induction rows arbitrary: p0)
    case (Cons row rows)
    obtain p1 where p1: "produce_row base row p0 = Inr p1" "fold_res (produce_row base) rows p1 = Inr q"
      using Cons.prems(1) by (auto simp: rbind_eq_Inr)
    obtain n where n: "normalize_record (export_row row) ''swap'' [] = Inr n" "JStr (record_id_of (nr_fields n)) = dget row ''id''"
      using Cons.prems(2) by (auto elim: carried_rowE)
    have "pd_ids p1 = pd_ids p0 @ [record_id_of (nr_fields n)]"
      using p1(1) n(1) by (auto simp: produce_row_def delta_rec_def Let_def add_op_def rbind_eq_Inr split: option.splits if_splits)
    then show ?case using Cons.IH [OF p1(2)] Cons.prems(2) n(2) by simp
  qed simp
  from this [of "iter_rows True s"] assms show ?thesis unfolding produce_rows_def by simp
qed

text \<open>The columns of a row as the producer reads it.\<close>

lemma iter_rows_get:
  assumes "row \<in> set (iter_rows True s)"
  obtains r where "r \<in> set (st_memories s)" "dget row ''id'' = row_key r" "dget row ''namespace'' = dget r ''namespace''"
    "dget row ''content_hash'' = dget r ''content_hash''"
proof -
  let ?C = "ITER_COLUMNS @ [''embedding'']"
  obtain r where r: "r \<in> set (st_memories s)" "row = map (\<lambda>c. (c, dget r c)) ?C" using assms by (auto simp: iter_rows_def)
  have "c \<in> set ?C \<Longrightarrow> dget row c = dget r c" for c unfolding r(2) by (subst dget_map) simp
  moreover have "''id'' \<in> set ?C" "''namespace'' \<in> set ?C" "''content_hash'' \<in> set ?C" by code_simp+
  ultimately show ?thesis using that [OF r(1)] by (simp add: row_key_def)
qed

lemma iter_rows_keys: "mset (map (\<lambda>r. dget r ''id'') (iter_rows True s)) = mset (map row_key (st_memories s))"
proof -
  let ?C = "ITER_COLUMNS @ [''embedding'']"
  have "''id'' \<in> set ?C" by code_simp
  then have "dget (map (\<lambda>c. (c, dget r c)) ?C) ''id'' = row_key r" for r by (subst dget_map) (simp add: row_key_def)
  then have "map (\<lambda>r. dget r ''id'') (iter_rows True s) = map row_key (sort_key (\<lambda>r. py_str (row_key r)) (st_memories s))"
    by (simp add: iter_rows_def comp_def)
  then show ?thesis by (simp only: mset_map mset_sort)
qed

lemma produced_written:
  assumes "produce_rows base s = Inr p" "list_all (carried_row env) (iter_rows True s)" "op \<in> set (pd_ops p)"
  shows "honest_op env (fid, op)"
    "\<exists>R r. op_row env (fid, op) = Some R \<and> r \<in> set (st_memories s) \<and> row_key R = row_key r
       \<and> dget R ''namespace'' = dget r ''namespace'' \<and> dget R ''content_hash'' = dget r ''content_hash''"
proof -
  obtain row n fp e where row: "row \<in> set (iter_rows True s)" "normalize_record (export_row row) ''swap'' [] = Inr n"
      "record_fingerprint (nr_fields n) [] = Inr fp" "op = delta_op (record_id_of (nr_fields n)) fp e (nr_fields n)"
    by (rule produced_source [OF assms(1,3)])
  have "carried_row env row" using assms(2) row(1) by (simp add: list_all_iff)
  then obtain v where c: "nr_issues n = []" "validate_record n = Inr []"
    "record_id_of (nr_fields n) \<noteq> []" "complete_fields (nr_fields n)" "storable_fields (nr_fields n)"
    "validate_metadata (sort_json (dget (nr_fields n) ''metadata'')) None = Inr ()"
    "resolve_embedding (dn_unit env) (dn_embedder env) (nr_fields n) = Inr v"
    "JStr (record_id_of (nr_fields n)) = dget row ''id''" "dget (nr_fields n) ''namespace'' = dget row ''namespace''"
    "dget (nr_fields n) ''content_hash'' = dget row ''content_hash''"
    using row(2) by (auto elim: carried_rowE)
  show h: "honest_op env (fid, op)" unfolding row(4) by (rule produced_honest [OF row(2) c(1-6) row(3) c(7)])
  have R: "op_row env (fid, op) = Some (inserted_row (dn_row_now env) (record_row (nr_fields n) v))" (is "_ = Some ?R")
    by (simp add: op_row_def row(4) delta_op_get normalize_again [OF row(2) c(1,3)] c(2,7))
  have k: "row_key ?R = dget row ''id''" by (simp add: c(8) [symmetric] record_row_get normalized_id [OF row(2)])
  have m: "''namespace'' \<in> set MEMORY_COLUMNS" "''content_hash'' \<in> set MEMORY_COLUMNS" by code_simp+
  have g: "dget ?R ''namespace'' = dget row ''namespace''" "dget ?R ''content_hash'' = dget row ''content_hash''"
    using m by (simp_all add: dget_inserted_row record_row_get c(9,10))
  obtain r where "r \<in> set (st_memories s)" "dget row ''id'' = row_key r" "dget row ''namespace'' = dget r ''namespace''"
    "dget row ''content_hash'' = dget r ''content_hash''" by (rule iter_rows_get [OF row(1)])
  then show "\<exists>R r. op_row env (fid, op) = Some R \<and> r \<in> set (st_memories s) \<and> row_key R = row_key r
       \<and> dget R ''namespace'' = dget r ''namespace'' \<and> dget R ''content_hash'' = dget r ''content_hash''"
    using R k g by (intro exI [of _ ?R] exI [of _ r]) simp
qed

text \<open>No record of the target has the content of a source record, in its namespace, under another id.\<close>

definition contents_agree :: "store \<Rightarrow> store \<Rightarrow> bool" where
  "contents_agree s t = list_all (\<lambda>r. list_all (\<lambda>y. same_identity r y \<longrightarrow> row_key y = row_key r) (st_memories t)) (st_memories s)"

lemma same_identity_cong:
  "dget R ''namespace'' = dget r ''namespace'' \<Longrightarrow> dget R ''content_hash'' = dget r ''content_hash'' \<Longrightarrow>
     same_identity R y = same_identity r y \<and> same_identity y R = same_identity y r"
  by (simp add: same_identity_def indexed_def)

lemma produced_no_clash:
  assumes "produce_rows base s = Inr p" "rows_inv s" "list_all (carried_row env) (iter_rows True s)" "contents_agree s t"
  shows "list_all (honest_op env) (zip fids (pd_ops p))" "no_clash env (zip fids (pd_ops p)) (st_memories t)"
    "no_clash env (zip fids (pd_ops p)) (List.map_filter (op_row env) (zip fids (pd_ops p)))"
proof -
  let ?ops = "zip fids (pd_ops p)"
  have mem: "snd x \<in> set (pd_ops p)" if "x \<in> set ?ops" for x using that by (metis set_zip_rightD prod.collapse)
  have W: "\<exists>r. r \<in> set (st_memories s) \<and> row_key R = row_key r \<and> (\<forall>y. same_identity R y = same_identity r y \<and> same_identity y R = same_identity y r)"
    if x: "x \<in> set ?ops" "op_row env x = Some R" for x R
  proof -
    have "op_row env (fst x, snd x) = Some R" using x(2) by simp
    then obtain r where "r \<in> set (st_memories s)" "row_key R = row_key r"
        "dget R ''namespace'' = dget r ''namespace''" "dget R ''content_hash'' = dget r ''content_hash''"
      using produced_written(2) [OF assms(1,3) mem [OF x(1)], of "fst x"] by auto
    then show ?thesis using same_identity_cong by blast
  qed
  show "list_all (honest_op env) ?ops"
    unfolding list_all_iff
  proof
    fix x assume "x \<in> set ?ops"
    from produced_written(1) [OF assms(1,3) mem [OF this], of "fst x"] show "honest_op env x" by simp
  qed
  show "no_clash env ?ops (st_memories t)"
  proof (rule no_clashI)
    fix x R y assume "x \<in> set ?ops" "op_row env x = Some R" "y \<in> set (st_memories t)" "same_identity R y"
    moreover obtain r where "r \<in> set (st_memories s)" "row_key R = row_key r" "same_identity R y = same_identity r y"
      using W calculation(1,2) by blast
    ultimately show "row_key y = row_key R" using assms(4) by (simp add: contents_agree_def list_all_iff)
  qed
  show "no_clash env ?ops (List.map_filter (op_row env) ?ops)"
  proof (rule no_clashI)
    fix x R y assume x: "x \<in> set ?ops" "op_row env x = Some R" and y: "y \<in> set (List.map_filter (op_row env) ?ops)" "same_identity R y"
    obtain z where z: "z \<in> set ?ops" "op_row env z = Some y" using y(1) by (auto simp: List.map_filter_def)
    obtain r where r: "r \<in> set (st_memories s)" "row_key R = row_key r" "same_identity R y = same_identity r y" using W [OF x] by blast
    obtain q where q: "q \<in> set (st_memories s)" "row_key y = row_key q" "same_identity r y = same_identity r q" using W [OF z] by blast
    show "row_key y = row_key R" using assms(2) r q y(2) by (simp add: rows_inv_def)
  qed
qed

text \<open>C16. A delta carries a target from the base to the source. Take a source whose rows a delta can carry, and a target
  that holds the image of the base package, the same ids with the same fingerprints, and in which no content of the
  source sits under another id of the same namespace (else the write would replace that record, and the reader
  reports a divergence instead). Then the operations produced for the source, as values and not yet as the bytes of
  a package, applied in order, are all written
  without a conflict, and every record of the source is in the target with its fingerprint. Records that the
  source has removed are not deleted: they stay as they were, and so does every other record of the target.
\<close>

theorem delta_reproduces_source:
  assumes "produce_rows base s = Inr p" "rows_inv s" "list_all (carried_row env) (iter_rows True s)"
    and "holds_image base t" "rows_inv t" "text_ids t" "contents_agree s t" "length fids = length (pd_ops p)"
  shows "\<exists>st. run_operations env (zip fids (pd_ops p)) t = Inr st \<and> da_conflicts st = [] \<and> da_skipped st = 0
     \<and> length (da_statuses st) = pd_added p + pd_changed p
     \<and> list_all (\<lambda>(i, fp). present_print i (da_store st) = Inr (Some fp)) (zip (pd_ids p) (pd_prints p))
     \<and> JStr ` set (pd_ids p) = row_key ` set (st_memories s)
     \<and> (\<forall>m. m \<notin> set (pd_ids p) \<longrightarrow> get_memory m (da_store st) = get_memory m t)"
proof -
  note ids = produced_ids [OF assms(1,3)]
  have keys: "mset (map JStr (pd_ids p)) = mset (map row_key (st_memories s))" unfolding ids by (rule iter_rows_keys)
  have "distinct (map JStr (pd_ids p))"
    using assms(2) mset_eq_imp_distinct_iff [OF keys] by (simp add: rows_inv_def keys_distinct_def)
  then have dist: "distinct (pd_ids p)" by (simp add: distinct_map)
  have img: "JStr ` set (pd_ids p) = row_key ` set (st_memories s)" using mset_eq_setD [OF keys] by simp
  show ?thesis
    using delta_reproduces [OF assms(1) dist assms(4-6,8) produced_no_clash [OF assms(1-3,7)]] img by blast
qed

section \<open>An operation whose record has another id\<close>


end
