(* ===== verification/DeltaExamples.thy ===== *)
theory DeltaExamples
  imports DeltaCarry
begin

text \<open>Concrete deltas: one record, produced from a store, carried as a line of text, applied once and again.\<close>

section \<open>One record\<close>

definition sample_fields :: dict where
  "sample_fields = [(''id'', JStr ''a''), (''identifier'', JStr ''k''), (''fact_text'', JStr ''v''),
     (''embedding_model'', JStr ''other''), (''content_hash'', JStr ''h''), (''created_at'', JStr ''2025''), (''namespace'', JStr ''n''),
     (''source_checksum'', JStr []), (''promotion_state'', JStr ''HOT''), (''promotion_candidate'', JInt 0)]"

definition sample_row :: dict where
  "sample_row = map (\<lambda>c. (c, dget sample_fields c)) (ITER_COLUMNS @ [''embedding''])"

definition sample_normal :: normalized where
  "sample_normal = (case normalize_record (export_row sample_row) ''swap'' [] of Inr n \<Rightarrow> n
     | Inl e \<Rightarrow> \<lparr>nr_fields = [], nr_issues = []\<rparr>)"

definition sample_env :: delta_env where
  "sample_env = \<lparr>dn_unit = (\<lambda>v. True), dn_embedder = \<lparr>ae_descriptor = HASH_DESCRIPTOR, ae_embed = (\<lambda>t. Some (Inr t))\<rparr>,
     dn_row_now = ''2026'', dn_now = ''2026'', dn_applied_at = ''2026'', dn_event_id = ''e1''\<rparr>"

definition sample_source :: store where
  "sample_source = empty_store\<lparr>st_memories := [sample_row]\<rparr>"

lemma sample_computed:
  "case normalize_record (export_row sample_row) ''swap'' [] of Inl e \<Rightarrow> False | Inr n \<Rightarrow>
     nr_issues n = [] \<and> validate_record n = Inr [] \<and> record_id_of (nr_fields n) = ''a'' \<and> complete_fields (nr_fields n)
     \<and> storable_fields (nr_fields n) \<and> validate_metadata (sort_json (dget (nr_fields n) ''metadata'')) None = Inr ()
     \<and> resolve_embedding (dn_unit sample_env) (dn_embedder sample_env) (nr_fields n)
         = Inr \<lparr>rs_blob = ''v'', rs_model = EMBEDDING_MODEL, rs_dim = 64, rs_status = ''rebuilt''\<rparr>
     \<and> finite_json (JObj (fingerprint_state (nr_fields n))) \<and> finite_json (JObj (nr_fields n))"
  by code_simp

lemma sample_normalizes:
  "normalize_record (export_row sample_row) ''swap'' [] = Inr sample_normal" "nr_issues sample_normal = []"
  "validate_record sample_normal = Inr []" "record_id_of (nr_fields sample_normal) = ''a''"
  using sample_computed by (simp_all add: sample_normal_def split: sum.splits)

lemma sample_complete:
  "complete_fields (nr_fields sample_normal)" "storable_fields (nr_fields sample_normal)"
  "validate_metadata (sort_json (dget (nr_fields sample_normal) ''metadata'')) None = Inr ()"
  using sample_computed by (simp_all add: sample_normal_def split: sum.splits)

lemma sample_finite: "finite_json (JObj (fingerprint_state (nr_fields sample_normal)))" "finite_json (JObj (nr_fields sample_normal))"
  using sample_computed by (simp_all add: sample_normal_def split: sum.splits)

lemma sample_vector: "\<exists>v. resolve_embedding (dn_unit sample_env) (dn_embedder sample_env) (nr_fields sample_normal) = Inr v"
  using sample_computed by (simp add: sample_normal_def split: sum.splits)

lemma sample_print: "\<exists>fp. record_fingerprint (nr_fields sample_normal) [] = Inr fp"
  using normalize_again [OF sample_normalizes(1,2)] sample_normalizes(4) sample_finite(1)
  by (simp add: record_fingerprint_def fingerprint_of_normalized_def canonical_fingerprint_state_def canonical_dumps_def of_py_def
      del: finite_json.simps)

lemma sample_honest:
  assumes "record_fingerprint (nr_fields sample_normal) [] = Inr fp"
  shows "honest_op sample_env (fid, delta_op ''a'' fp e (nr_fields sample_normal))"
proof -
  obtain v where v: "resolve_embedding (dn_unit sample_env) (dn_embedder sample_env) (nr_fields sample_normal) = Inr v"
    using sample_vector by blast
  have i: "record_id_of (nr_fields sample_normal) \<noteq> []" by (simp add: sample_normalizes(4))
  show ?thesis
    using produced_honest [OF sample_normalizes(1-3) i sample_complete assms v] by (simp add: sample_normalizes(4))
qed

lemma produced_op_honest_witness:
  "\<exists>fp. record_fingerprint (nr_fields sample_normal) [] = Inr fp
     \<and> honest_op sample_env (''x'', delta_op (record_id_of (nr_fields sample_normal)) fp JNull (nr_fields sample_normal))"
proof -
  obtain v fp where v: "resolve_embedding (dn_unit sample_env) (dn_embedder sample_env) (nr_fields sample_normal) = Inr v"
    and fp: "record_fingerprint (nr_fields sample_normal) [] = Inr fp"
    using sample_vector sample_print by blast
  have i: "record_id_of (nr_fields sample_normal) \<noteq> []" by (simp add: sample_normalizes(4))
  show ?thesis using fp produced_op_honest [OF sample_normalizes(1-3) i sample_complete fp v] by blast
qed

section \<open>From the source to an empty target\<close>

lemma sample_rows: "iter_rows True sample_source = [sample_row]"
proof -
  have "map (\<lambda>c. (c, dget sample_row c)) (ITER_COLUMNS @ [''embedding'']) = sample_row"
    unfolding sample_row_def by (rule map_cong) (simp_all only: dget_map if_True)
  then show ?thesis by (simp add: iter_rows_def sample_source_def)
qed

lemma sample_carried: "list_all (carried_row sample_env) (iter_rows True sample_source)"
proof -
  have "carried_row sample_env sample_row" by code_simp
  then show ?thesis by (simp add: sample_rows)
qed

lemma sample_produced:
  assumes "record_fingerprint (nr_fields sample_normal) [] = Inr fp"
  shows "produce_rows [] sample_source = Inr \<lparr>pd_added = 1, pd_changed = 0, pd_ids = [''a''], pd_prints = [fp],
     pd_ops = [delta_op ''a'' fp JNull (nr_fields sample_normal)]\<rparr>"
proof -
  note row = sample_rows
  have "finite_json (JObj (delta_op ''a'' fp JNull (nr_fields sample_normal)))" using sample_finite(2) by (simp add: delta_op_def)
  then have line: "add_op (delta_op ''a'' fp JNull (nr_fields sample_normal)) q
      = Inr (q\<lparr>pd_ops := pd_ops q @ [delta_op ''a'' fp JNull (nr_fields sample_normal)]\<rparr>)" for q
    by (simp add: add_op_def canonical_line_def canonical_dumps_def delta_py_def del: finite_json.simps)
  show ?thesis
    unfolding produce_rows_def row fold_res.simps produce_row_def sample_normalizes(1) assms delta_rec_def Let_def
    by (simp add: sample_normalizes(4) assms line)
qed

lemma delta_reproduces_source_witness:
  "\<exists>p st. produce_rows [] sample_source = Inr p \<and> run_operations sample_env (zip [''x''] (pd_ops p)) empty_store = Inr st
     \<and> length (da_statuses st) = 1 \<and> da_conflicts st = []"
proof -
  obtain fp where fp: "record_fingerprint (nr_fields sample_normal) [] = Inr fp" using sample_print by blast
  let ?op = "delta_op ''a'' fp JNull (nr_fields sample_normal)"
  let ?p = "\<lparr>pd_added = 1, pd_changed = 0, pd_ids = [''a''], pd_prints = [fp], pd_ops = [?op]\<rparr>"
  have e: "st_memories empty_store = []" by code_simp
  have h: "holds_image [] empty_store"
    by (simp add: holds_image_def present_print_def get_memory_def find_key_def e)
  have inv: "rows_inv empty_store" "text_ids empty_store" by (simp_all add: rows_inv_def text_ids_def keys_distinct_def e)
  have src: "rows_inv sample_source" "contents_agree sample_source empty_store"
    by (simp_all add: rows_inv_def keys_distinct_def sample_source_def contents_agree_def e)
  have "length [''x''] = length (pd_ops ?p)" by simp
  from delta_reproduces_source [OF sample_produced [OF fp] src(1) sample_carried h inv src(2) this]
  show ?thesis using sample_produced [OF fp] by auto
qed

section \<open>A record with the id of another row\<close>

definition foreign_op :: dict where
  "foreign_op = [(''op'', JStr ''upsert''), (''op_id'', JStr ''o''), (''record_id'', JStr ''b''),
     (''record'', JObj [(''id'', JStr ''a''), (''identifier'', JStr ''k''), (''fact_text'', JStr ''other''), (''content_hash'', JStr ''h2''),
       (''namespace'', JStr ''n'')]), (''resulting_fingerprint'', JStr ''r'')]"

definition foreign_row :: dict where
  "foreign_row = (case op_row sample_env (''x'', foreign_op) of None \<Rightarrow> [] | Some r \<Rightarrow> r)"

lemma foreign_computed:
  "case op_row sample_env (''x'', foreign_op) of None \<Rightarrow> False | Some r \<Rightarrow>
     row_key r = JStr ''a'' \<and> list_all (\<lambda>y. \<not> same_identity r y) (st_memories sample_source)
     \<and> dget r ''fact_text'' \<noteq> dget sample_row ''fact_text''"
  by code_simp


section \<open>The same line twice\<close>

text \<open>The record of the sample with its keys sorted, as a line has it.\<close>

definition line_record :: dict where
  "line_record = [(''content_hash'', JStr ''h''), (''fact_text'', JStr ''v''), (''id'', JStr ''a''), (''identifier'', JStr ''k''),
     (''namespace'', JStr ''n'')]"

definition line_op :: "string \<Rightarrow> dict" where
  "line_op fp = [(''op'', JStr ''upsert''), (''op_id'', JStr ''o''), (''record'', JObj line_record), (''record_id'', JStr ''a''),
     (''resulting_fingerprint'', JStr fp)]"

definition line_delta :: "string \<Rightarrow> verified_delta" where
  "line_delta fp = \<lparr>vd_manifest = [], vd_ops_name = OPS_PLAIN, vd_entry = [], vd_lines = [dumps False (JObj (line_op fp))]\<rparr>"

definition line_row :: dict where
  "line_row = (case op_row sample_env (''x'', line_op []) of None \<Rightarrow> [] | Some r \<Rightarrow> r)"

lemma line_computed:
  "case op_row sample_env (''x'', line_op []) of None \<Rightarrow> False | Some r \<Rightarrow> row_key r = JStr ''a'' \<and>
     (case normalize_record r ''swap'' [] of Inr n \<Rightarrow> finite_json (JObj (fingerprint_state (nr_fields n))) | Inl e \<Rightarrow> False)"
  by code_simp

lemma line_rows: "op_row sample_env (''x'', line_op fp) = Some line_row"
proof -
  have "op_row sample_env (''x'', line_op []) = Some line_row"
    using line_computed by (simp add: line_row_def split: option.splits)
  moreover have "op_row sample_env (''x'', line_op fp) = op_row sample_env (''x'', line_op [])"
    by (simp add: op_row_def line_op_def)
  ultimately show ?thesis by simp
qed

lemma space_start_Cons:
  "\<not> is_space a \<Longrightarrow> (\<And>b. \<not> two a b) \<Longrightarrow> (\<And>b c. \<not> three a b c) \<Longrightarrow> \<not> space_start two three (a # r)"
  by (cases r; cases "tl r") auto

lemma strip_braces: "strip (CHR ''{'' # x @ ''}'') = CHR ''{'' # x @ ''}''"
  unfolding strip_fixed_iff by (simp add: space_start_Cons is_space_def)

lemma line_parses: "parse_operation (dumps False (JObj (line_op fp))) = Inr (line_op fp)"
proof -
  have "plain False (JObj (line_op fp))" by (simp add: line_op_def line_record_def)
  then have l: "loads (dumps False (JObj (line_op fp))) = Some (JObj (line_op fp))" by (rule loads_dumps)
  have "strip (dumps False (JObj (line_op fp))) = dumps False (JObj (line_op fp))"
    unfolding dumps_def json_text.simps Let_def by (simp add: strip_braces)
  then show ?thesis by (simp add: parse_operation_def l)
qed

lemma line_honest: "\<exists>fp. honest_op sample_env (''x'', line_op fp)"
proof -
  have n: "case normalize_record line_row ''swap'' [] of Inr n \<Rightarrow> finite_json (JObj (fingerprint_state (nr_fields n))) | Inl e \<Rightarrow> False"
    "row_key line_row = JStr ''a''"
    using line_computed by (simp_all add: line_rows del: finite_json.simps)
  then have "\<exists>fp. record_fingerprint line_row [] = Inr fp"
    by (cases "normalize_record line_row ''swap'' []")
      (auto simp: record_fingerprint_def fingerprint_of_normalized_def canonical_fingerprint_state_def canonical_dumps_def of_py_def)
  then show ?thesis using n(2) line_rows by (auto simp: honest_op_def op_key_def op_print_def line_op_def str_of_def)
qed

lemma line_applies:
  assumes "honest_op sample_env (''x'', line_op fp)"
  shows "\<exists>db1 r1. apply_verified sample_env [''x''] (line_delta fp) \<lparr>sd_store = empty_store, sd_checkpoints = []\<rparr> = Inr (db1, r1)"
proof -
  let ?ops = "[(''x'', line_op fp)]"
  let ?st = "\<lparr>da_store = empty_store, da_conflicts = [], da_statuses = [], da_skipped = 0\<rparr>"
  have e: "st_memories empty_store = []" "st_events empty_store = []" by code_simp+
  have k: "op_key (''x'', line_op fp) = ''a''" "present_print ''a'' empty_store = Inr None"
    "op_verdict True ''a'' (line_op fp) None = WriteOp"
    by (simp_all add: op_key_def line_op_def str_of_def present_print_def get_memory_def find_key_def e op_verdict_def Let_def)
  have a: "\<forall>x \<in> set ?ops. honest_op sample_env x" "distinct (map op_key ?ops)" using assms by simp_all
  have inv: "rows_inv (da_store ?st)" "text_ids (da_store ?st)" by (simp_all add: rows_inv_def text_ids_def keys_distinct_def e)
  have w: "\<forall>x \<in> set ?ops. \<exists>c. present_print (op_key x) (da_store ?st) = Inr c \<and> op_verdict True (op_key x) (snd x) c = WriteOp"
    using k by simp
  have c: "no_clash sample_env ?ops (st_memories (da_store ?st))" by (rule no_clashI) (simp add: e)
  have c': "no_clash sample_env ?ops (List.map_filter (op_row sample_env) ?ops)"
    by (rule no_clashI) (auto simp: List.map_filter_def line_rows split: option.splits)
  obtain st where st: "fold_res (apply_delta_op sample_env True) ?ops ?st = Inr st" "da_conflicts st = []"
    using run_writes [OF a inv w c c'] by auto
  have "da_store st = empty_store\<lparr>st_memories := st_memories (da_store st)\<rparr>"
    using run_settles [OF st a inv] by simp
  then have "st_events (da_store st) = []" by (metis e(2) store.select_convs(2) store.surjective store.update_convs(1))
  then obtain db r where "finish_apply sample_env (line_delta fp) st \<lparr>sd_store = empty_store, sd_checkpoints = []\<rparr> = Inr (db, r)"
    using finish_total [of "line_delta fp" "JStr []" "[]" None sample_env st "\<lparr>sd_store = empty_store, sd_checkpoints = []\<rparr>"]
    by (auto simp: line_delta_def delta_base_id_def text_arg_def opt_text_arg_def por_def)
  then show ?thesis using st by (simp add: apply_verified_def line_delta_def line_parses run_operations_def e)
qed

lemma delta_idempotent_witness:
  "\<exists>fp db1 r1 env db2 r2. apply_verified sample_env [''x''] (line_delta fp) \<lparr>sd_store = empty_store, sd_checkpoints = []\<rparr> = Inr (db1, r1)
     \<and> apply_verified env [''y''] (line_delta fp) db1 = Inr (db2, r2) \<and> ap_skipped r2 = 1"
proof -
  obtain fp where h: "honest_op sample_env (''x'', line_op fp)" using line_honest by blast
  obtain db1 r1 where a: "apply_verified sample_env [''x''] (line_delta fp) \<lparr>sd_store = empty_store, sd_checkpoints = []\<rparr> = Inr (db1, r1)"
    using line_applies [OF h] by blast
  obtain i where i: "i \<notin> ev_id ` set (st_events (sd_store db1))"
    using ex_new_if_finite [OF infinite_UNIV_listI, of "ev_id ` set (st_events (sd_store db1))"] by auto
  let ?env = "sample_env\<lparr>dn_event_id := i\<rparr>"
  have p: "traverse parse_operation (vd_lines (line_delta fp)) = Inr [line_op fp]" by (simp add: line_delta_def line_parses)
  have hs: "list_all (honest_op sample_env) (zip [''x''] [line_op fp])" "distinct (map op_key (zip [''x''] [line_op fp]))"
    using h by simp_all
  have inv: "store_inv (sd_store \<lparr>sd_store = empty_store, sd_checkpoints = []\<rparr>)" "text_ids (sd_store \<lparr>sd_store = empty_store, sd_checkpoints = []\<rparr>)"
    by (simp_all add: empty_store_inv text_ids_def) (code_simp)
  have l: "length [''x''] = length [line_op fp]" "length [''y''] = length [line_op fp]" by simp_all
  have i': "dn_event_id ?env \<notin> ev_id ` set (st_events (sd_store db1))" using i by simp
  from delta_idempotent [OF a p l(1) hs inv l(2) i'] a show ?thesis by (fastforce simp: line_delta_def)
qed

end
